(* ===== verification/Upb_Prelude.thy ===== *)
theory Upb_Prelude
  imports Main "HOL-Library.Word"
begin

unbundle bit_operations_syntax

text \<open>
  Shared vocabulary of the development: machine integers at the widths the C code
  uses, memory reads that make an access outside an allocation visible, the result
  type of code that leaves through \<^verbatim>\<open>longjmp\<close> or a \<^verbatim>\<open>NULL\<close> return, and the generic
  lemmas on lists, results and words that the component theories use.
\<close>

section \<open>Types\<close>

type_synonym u8 = "8 word"
type_synonym u16 = "16 word"
type_synonym u32 = "32 word"
type_synonym u64 = "64 word"
type_synonym bytes = "8 word list"

text \<open>
  The result of a C routine: a value, an error (a \<^verbatim>\<open>longjmp\<close> with a status, a \<^verbatim>\<open>NULL\<close>
  return) or \<open>Fault\<close>, which stands for undefined behaviour: a read outside the memory
  the routine was given, or a failed \<^verbatim>\<open>UPB_ASSERT\<close>.
\<close>

datatype ('e, 'a) res = Ret 'a | Raise 'e | Fault

fun bindR :: "('e, 'a) res \<Rightarrow> ('a \<Rightarrow> ('e, 'b) res) \<Rightarrow> ('e, 'b) res" where
  "bindR (Ret x) f = f x"
| "bindR (Raise e) f = Raise e"
| "bindR Fault f = Fault"

text \<open>Reading element \<open>i\<close> of an array.\<close>

definition rd :: "'a list \<Rightarrow> nat \<Rightarrow> ('e, 'a) res" where
  "rd m i = (if i < length m then Ret (m ! i) else Fault)"

text \<open>Reading \<open>n\<close> bytes at \<open>p\<close> as a little-endian integer, what \<^verbatim>\<open>memcpy\<close> into an integer gives on the target platforms.\<close>

fun rd_le :: "bytes \<Rightarrow> nat \<Rightarrow> nat \<Rightarrow> ('e, u64) res" where
  "rd_le m p 0 = Ret 0"
| "rd_le m p (Suc n) =
     bindR (rd m p) (\<lambda>b. bindR (rd_le m (p + 1) n) (\<lambda>w. Ret (ucast b OR push_bit 8 w)))"

section \<open>Collections\<close>

named_theorems res_simps \<open>results and memory reads\<close>
named_theorems ring_word \<open>shifts of words as ring operations\<close>

section \<open>Results\<close>

lemma bindR_eq_Ret [res_simps]:
  "bindR m f = Ret y \<longleftrightarrow> (\<exists>x. m = Ret x \<and> f x = Ret y)"
  by (cases m) auto

lemma bindR_eq_Fault [res_simps]:
  "bindR m f = Fault \<longleftrightarrow> m = Fault \<or> (\<exists>x. m = Ret x \<and> f x = Fault)"
  by (cases m) auto

lemma bindR_eq_Raise [res_simps]:
  "bindR m f = Raise e \<longleftrightarrow> m = Raise e \<or> (\<exists>x. m = Ret x \<and> f x = Raise e)"
  by (cases m) auto

lemma bindR_cong [fundef_cong]:
  "m = m' \<Longrightarrow> (\<And>x. m' = Ret x \<Longrightarrow> f x = g x) \<Longrightarrow> bindR m f = bindR m' g"
  by (cases m') auto

lemma rd_in_range [simp]: "i < length m \<Longrightarrow> rd m i = Ret (m ! i)"
  by (simp add: rd_def)

lemma rd_out_of_range [simp]: "length m \<le> i \<Longrightarrow> rd m i = Fault"
  by (simp add: rd_def)

lemma rd_append_right [simp]: "rd (xs @ ys) (length xs + i) = rd ys i"
  by (simp add: rd_def)

lemma rd_append_here [simp]: "rd (xs @ y # ys) (length xs) = Ret y"
  by (simp add: rd_def)

lemma rd_append_at: "length xs = i \<Longrightarrow> rd (xs @ y # ys) i = Ret y"
  by (auto simp: rd_def)

lemma rd_le_in_range: "p + n \<le> length m \<Longrightarrow> \<exists>w. rd_le m p n = Ret w"
proof (induction n arbitrary: p)
  case (Suc n)
  from Suc.IH [of "p + 1"] Suc.prems obtain w where "rd_le m (p + 1) n = (Ret w :: ('a, u64) res)" by auto
  with Suc.prems show ?case by simp
qed simp

text \<open>A read that stays in range cannot make what follows fail.\<close>

lemma bind_rd_le:
  assumes "p + n \<le> length m" and "\<And>w. Q (f w)"
  shows "Q (bindR (rd_le m p n) f)"
proof -
  obtain w where "rd_le m p n = (Ret w :: ('a, u64) res)" using rd_le_in_range [OF assms(1)] by blast
  with assms(2) show ?thesis by simp
qed

lemma bind_rd: "i < length m \<Longrightarrow> Q (f (m ! i)) \<Longrightarrow> Q (bindR (rd m i) f)"
  by simp

section \<open>Words\<close>

lemma push_bit_as_mult [ring_word]: "push_bit n (w :: 'a::len word) = w * 2 ^ n"
  by (simp add: push_bit_eq_mult)

lemma unat_drop_bit: "unat (drop_bit n (w :: 'a::len word)) = unat w div 2 ^ n"
  by (simp add: unat_drop_bit_eq flip: drop_bit_eq_div)

lemma drop_bit_decreases:
  assumes "drop_bit n (w :: 'a::len word) \<noteq> 0" and "0 < n"
  shows "unat (drop_bit n w) < unat w"
proof -
  from assms(1) have "0 < unat (drop_bit n w)" by (simp add: word_greater_zero_iff unat_gt_0)
  then have "0 < unat w" by (metis unat_drop_bit div_0 gr0I less_irrefl)
  moreover from \<open>0 < n\<close> have "(1::nat) < 2 ^ n" by (rule one_less_power [rotated]) simp
  ultimately show ?thesis by (simp add: unat_drop_bit)
qed

lemma unat_bound: "unat (w :: 'a::len word) < 2 ^ LENGTH('a)"
  by (rule unsigned_less)

lemma byte_bound: "unat (b :: u8) < 256"
  using unat_bound [of b] by simp

lemma unat_ucast_up [simp]:
  assumes "LENGTH('a) \<le> LENGTH('b)"
  shows "unat (ucast (w :: 'a::len word) :: 'b::len word) = unat w"
proof -
  have "unat w < 2 ^ LENGTH('b)"
    using unat_bound [of w] assms by (meson less_le_trans one_le_numeral power_increasing)
  then show ?thesis by (simp add: unsigned_ucast_eq take_bit_nat_eq_self)
qed

lemma of_nat_word_inj:
  "a < 2 ^ LENGTH('a) \<Longrightarrow> b < 2 ^ LENGTH('a) \<Longrightarrow>
     (of_nat a :: 'a::len word) = of_nat b \<longleftrightarrow> a = b"
  by (simp add: word_unat_eq_iff unsigned_of_nat take_bit_nat_eq_self)

lemma unat_of_nat_small: "n < 2 ^ LENGTH('a) \<Longrightarrow> unat (of_nat n :: 'a::len word) = n"
  by (simp add: unsigned_of_nat take_bit_nat_eq_self)

lemma find_Some_in: "find P xs = Some x \<Longrightarrow> x \<in> set xs \<and> P x"
  by (auto simp: find_Some_iff)

lemma unat_and_mask: "unat ((w :: 'a::len word) AND mask n) = unat w mod 2 ^ n"
proof -
  have "unat (take_bit n w) = take_bit n (unat w)" by (rule unsigned_take_bit_eq)
  then show ?thesis by (simp only: take_bit_eq_mask [of n w] take_bit_eq_mod [of n "unat w"])
qed

lemma mask_7 [simp]: "(mask 7 :: 'a::len word) = 127"
  by (simp add: mask_eq_exp_minus_1)

lemma unat_and_127: "unat ((w :: 'a::len word) AND 127) = unat w mod 128"
  using unat_and_mask [of w 7] by simp

lemma bit_int_127: "bit (127 :: int) n \<longleftrightarrow> n < 7"
  using bit_mask_iff [where 'a = int, of 7 n] by (simp add: mask_eq_exp_minus_1)

lemma bit_int_128: "bit (128 :: int) n \<longleftrightarrow> n = 7"
  using bit_exp_iff [where 'a = int, of 7 n] by auto

lemma bit_word_double:
  "bit ((w :: 'a::len word) * 2) k \<longleftrightarrow> 0 < k \<and> k < LENGTH('a) \<and> bit w (k - 1)"
  using bit_push_bit_iff [of 1 w k] by (simp add: push_bit_as_mult Suc_le_eq)

lemma word_and_one: "(w :: 'a::len word) AND 1 = of_bool (bit w 0)"
  by (simp add: bit_0 and_one_eq mod_2_eq_odd)

lemma word_double_halve:
  "(if bit w (LENGTH('a) - 1) then NOT (drop_bit 1 (NOT (w * 2))) else drop_bit 1 (w * 2))
     = (w :: 'a::len word)"
proof (rule bit_eqI)
  fix k assume "possible_bit TYPE('a word) k"
  then have "k < LENGTH('a)" by simp
  then consider "k = LENGTH('a) - 1" | "k + 1 < LENGTH('a)" by linarith
  then show "bit (if bit w (LENGTH('a) - 1) then NOT (drop_bit 1 (NOT (w * 2)))
      else drop_bit 1 (w * 2)) k = bit w k"
    by cases (auto simp: bit_simps bit_word_double)
qed

lemma zz_value:
  fixes w :: "'a::len word"
  shows "int (unat (if bit w (LENGTH('a) - 1) then NOT (w * 2) else w * 2))
           = (if 0 \<le> sint w then 2 * sint w else - 2 * sint w - 1)"
proof -
  let ?L = "2 ^ LENGTH('a) :: int"
  have L: "?L = 2 * 2 ^ (LENGTH('a) - 1)"
    by (metis One_nat_def Suc_pred len_gt_0 power_Suc)
  have msb: "bit w (LENGTH('a) - 1) \<longleftrightarrow> sint w < 0" by (simp add: bit_last_iff)
  have r: "- (2 ^ (LENGTH('a) - 1)) \<le> sint w" "sint w < 2 ^ (LENGTH('a) - 1)" 
    using sint_greater_eq [of w] sint_less [of w] by auto
  have dbl: "w * 2 = word_of_int (2 * sint w)" by simp
  have neg: "NOT (w * 2) = word_of_int (- 2 * sint w - 1)" by (simp add: not_eq_complement)
  show ?thesis
  proof (cases "sint w < 0")
    case True
    have "uint (NOT (w * 2)) = (- 2 * sint w - 1) mod ?L"
      unfolding neg by (simp only: uint_word_of_int_eq take_bit_eq_mod)
    also have "\<dots> = - 2 * sint w - 1" using True r L by (intro mod_pos_pos_trivial) auto
    finally show ?thesis using True msb by simp
  next
    case False
    have "uint (w * 2) = (2 * sint w) mod ?L" unfolding dbl by (simp only: uint_word_of_int_eq take_bit_eq_mod)
    also have "\<dots> = 2 * sint w" using False r L by (intro mod_pos_pos_trivial) auto
    finally show ?thesis using False msb by simp
  qed
qed

lemmas bit_consts = bit_numeral_word_iff bit_int_127 bit_int_128

text \<open>The continuation bit of a varint byte.\<close>

lemma byte_top_bit: "(b :: u8) AND 128 = 0 \<longleftrightarrow> unat b < 128"
proof -
  have "b AND 128 = 0 \<longleftrightarrow> \<not> bit b 7"
    using and_exp_eq_0_iff_not_bit [of b 7] by simp
  also have "bit b 7 \<longleftrightarrow> odd (unat b div 128)"
    using bit_iff_odd [of "unat b" 7] by (simp add: bit_unsigned_iff)
  also have "\<not> odd (unat b div 128) \<longleftrightarrow> unat b < 128"
  proof -
    have "unat b div 128 < 2" using byte_bound [of b] by simp
    then show ?thesis by (auto simp: less_2_cases_iff div_eq_0_iff)
  qed
  finally show ?thesis .
qed

lemma ucast_as_of_nat: "(ucast (w :: 'a::len word) :: 'b::len word) = of_nat (unat w)"
  by (simp add: of_nat_unat)

lemma ucast_low7_clear:
  "unat (b :: u8) < 128 \<Longrightarrow> (ucast (b AND 127) :: 'b::len word) = ucast b"
  by (simp only: ucast_as_of_nat unat_and_127 mod_less)

lemma ucast_low7_set:
  assumes "\<not> unat (b :: u8) < 128"
  shows "(ucast (b AND 127) :: 'b::len word) = ucast b - 128"
proof -
  from assms byte_bound [of b] have "unat (b AND 127) = unat b - 128" by (simp add: mod_if unat_and_127)
  then have "(ucast (b AND 127) :: 'b word) = of_nat (unat b - 128)"
    by (simp only: ucast_as_of_nat)
  also have "\<dots> = ucast b - 128" using assms by (simp add: of_nat_diff)
  finally show ?thesis .
qed

text \<open>Setting bits above the ones in use is an addition.\<close>

lemma unat_or_high:
  fixes x y :: "'a::len word"
  assumes "unat x < 2 ^ k" and "unat y * 2 ^ k + unat x < 2 ^ LENGTH('a)"
  shows "unat (x OR push_bit k y) = unat y * 2 ^ k + unat x"
proof -
  have "take_bit k x = x"
    using assms(1) by (simp add: word_unat_eq_iff unsigned_take_bit_eq take_bit_nat_eq_self)
  then have "x AND push_bit k y = take_bit k x AND push_bit k y" by simp
  also have "\<dots> = 0" by (rule bit_eqI) (auto simp: bit_simps)
  finally have "x OR push_bit k y = x + push_bit k y" by (simp only: disjunctive_add_eq_or)
  also have "\<dots> = of_nat (unat x + unat y * 2 ^ k)" by (simp add: push_bit_as_mult)
  finally show ?thesis
    using assms(2) by (simp only: unsigned_of_nat) (simp add: take_bit_nat_eq_self algebra_simps)
qed

lemma map_unat_inj: "map unat xs = map unat ys \<Longrightarrow> xs = (ys :: 'a::len word list)"
  by (rule map_injective) (auto intro: injI simp: word_unat_eq_iff)

lemma unat_sint_mod: "int (unat (w :: 'a::len word)) = sint w mod 2 ^ LENGTH('a)"
proof -
  have "uint (word_of_int (sint w) :: 'a word) = sint w mod 2 ^ LENGTH('a)"
    by (simp only: uint_word_of_int_eq take_bit_eq_mod)
  then show ?thesis by simp
qed

end
