(* ===== verification/Wire_Varint.thy ===== *)
theory Wire_Varint
  imports Upb_Prelude
begin

unbundle bit_operations_syntax

text \<open>
  The varint layer of the wire format: the byte-level encoders of
  \<^verbatim>\<open>upb/wire/encode.c\<close> and \<^verbatim>\<open>upb/wire/decode.c\<close>, the varint, tag and size readers of
  \<^verbatim>\<open>upb/wire/decode.c\<close>, \<^verbatim>\<open>upb/wire/reader.c\<close> and \<^verbatim>\<open>upb/wire/reader.h\<close>, zigzag coding, and
  the reverse scan the decoder uses to find the start of an unknown field.
  A pointer is an index into the bytes of the buffer; a read outside it is \<open>Fault\<close>.
\<close>

section \<open>Definitions\<close>

datatype upb_DecodeStatus =
    kUpb_DecodeStatus_Ok
  | kUpb_DecodeStatus_Malformed
  | kUpb_DecodeStatus_OutOfMemory
  | kUpb_DecodeStatus_BadUtf8
  | kUpb_DecodeStatus_MaxDepthExceeded
  | kUpb_DecodeStatus_MissingRequired
  | kUpb_DecodeStatus_UnlinkedSubMessage

subsection \<open>Encoding\<close>

text \<open>\<^verbatim>\<open>encode_varint64\<close>: the bytes written to \<^verbatim>\<open>buf\<close>; the returned count is their number.\<close>

function encode_varint64 :: "u64 \<Rightarrow> bytes" where
  "encode_varint64 val =
     (let byte = ucast (val AND 0x7f) :: u8;
          val' = drop_bit 7 val
      in if val' \<noteq> 0 then (byte OR 0x80) # encode_varint64 val' else [byte])"
  by pat_completeness auto
termination
  by (relation "measure unat") (auto intro: drop_bit_decreases)

declare encode_varint64.simps [simp del]

text \<open>\<^verbatim>\<open>upb_Decoder_EncodeVarint32\<close>: the decoder's own encoder for tags and sizes.\<close>

function upb_Decoder_EncodeVarint32 :: "u32 \<Rightarrow> bytes" where
  "upb_Decoder_EncodeVarint32 val =
     (let byte = ucast (val AND 0x7f) :: u8;
          val' = drop_bit 7 val
      in if val' \<noteq> 0 then (byte OR 0x80) # upb_Decoder_EncodeVarint32 val' else [byte])"
  by pat_completeness auto
termination
  by (relation "measure unat") (auto intro: drop_bit_decreases)

declare upb_Decoder_EncodeVarint32.simps [simp del]

definition encode_zz32 :: "u32 \<Rightarrow> u32" where
  "encode_zz32 n = push_bit 1 n XOR signed_drop_bit 31 n"

definition encode_zz64 :: "u64 \<Rightarrow> u64" where
  "encode_zz64 n = push_bit 1 n XOR signed_drop_bit 63 n"

subsection \<open>Decoding\<close>

text \<open>
  The loop of \<^verbatim>\<open>_upb_Decoder_DecodeLongVarint\<close>: bytes \<open>i = 1 .. 9\<close> after the first one.
  \<open>Ret None\<close> is the \<^verbatim>\<open>{NULL, 0}\<close> return.
\<close>

function decode_longvarint_loop ::
  "bytes \<Rightarrow> nat \<Rightarrow> nat \<Rightarrow> u64 \<Rightarrow> ('e, (nat \<times> u64) option) res" where
  "decode_longvarint_loop buf ptr i val =
     (if i < 10 then
        bindR (rd buf (ptr + i)) (\<lambda>b.
          let byte = ucast b :: u64;
              val' = val + push_bit (i * 7) (byte - 1)
          in if byte AND 0x80 = 0 then Ret (Some (ptr + i + 1, val'))
             else decode_longvarint_loop buf ptr (i + 1) val')
      else Ret None)"
  by pat_completeness auto
termination
  by (relation "measure (\<lambda>(buf, ptr, i, val). 10 - i)") auto

declare decode_longvarint_loop.simps [simp del]

definition upb_Decoder_DecodeLongVarint ::
  "bytes \<Rightarrow> nat \<Rightarrow> u64 \<Rightarrow> ('e, (nat \<times> u64) option) res" where
  "upb_Decoder_DecodeLongVarint buf ptr val = decode_longvarint_loop buf ptr 1 val"

definition upb_Decoder_DecodeVarint ::
  "bytes \<Rightarrow> nat \<Rightarrow> (upb_DecodeStatus, nat \<times> u64) res" where
  "upb_Decoder_DecodeVarint buf ptr =
     bindR (rd buf ptr) (\<lambda>b.
       let byte = ucast b :: u64
       in if byte AND 0x80 = 0 then Ret (ptr + 1, byte)
          else bindR (upb_Decoder_DecodeLongVarint buf ptr byte) (\<lambda>res.
            case res of
              None \<Rightarrow> Raise kUpb_DecodeStatus_Malformed
            | Some (p, v) \<Rightarrow> Ret (p, v)))"

definition upb_Decoder_DecodeTag ::
  "bytes \<Rightarrow> nat \<Rightarrow> (upb_DecodeStatus, nat \<times> u32) res" where
  "upb_Decoder_DecodeTag buf ptr =
     bindR (rd buf ptr) (\<lambda>b.
       let byte = ucast b :: u64
       in if byte AND 0x80 = 0 then Ret (ptr + 1, ucast byte)
          else bindR (upb_Decoder_DecodeLongVarint buf ptr byte) (\<lambda>res.
            case res of
              None \<Rightarrow> Raise kUpb_DecodeStatus_Malformed
            | Some (p, v) \<Rightarrow>
                if p - ptr > 5 \<or> v > 0xFFFFFFFF then Raise kUpb_DecodeStatus_Malformed
                else Ret (p, ucast v)))"

text \<open>
  \<^verbatim>\<open>_upb_Decoder_Munge\<close> on the 64-bit varint, for the zigzag cases: the value stored by the
  following \<^verbatim>\<open>memcpy\<close> of 4 or 8 bytes.
\<close>

definition decode_zz32 :: "u64 \<Rightarrow> u32" where
  "decode_zz32 val = (let n = ucast val :: u32 in drop_bit 1 n XOR - (n AND 1))"

definition decode_zz64 :: "u64 \<Rightarrow> u64" where
  "decode_zz64 n = drop_bit 1 n XOR - (n AND 1)"

text \<open>
  \<^verbatim>\<open>_upb_Decoder_ReverseSkipVarint\<close>: walks back from \<open>ptr\<close> until the bits seen equal \<open>val\<close>.
  Reading in front of the buffer is \<open>Fault\<close>, so the loop ends.
\<close>

fun upb_Decoder_ReverseSkipVarint_loop ::
  "bytes \<Rightarrow> nat \<Rightarrow> u32 \<Rightarrow> u32 \<Rightarrow> ('e, nat) res" where
  "upb_Decoder_ReverseSkipVarint_loop buf 0 seen val = Fault"
| "upb_Decoder_ReverseSkipVarint_loop buf (Suc ptr) seen val =
     bindR (rd buf ptr) (\<lambda>b.
       let seen' = push_bit 7 seen OR (ucast b AND 0x7f)
       in if seen' \<noteq> val then upb_Decoder_ReverseSkipVarint_loop buf ptr seen' val
          else Ret ptr)"

definition upb_Decoder_ReverseSkipVarint :: "bytes \<Rightarrow> nat \<Rightarrow> u32 \<Rightarrow> ('e, nat) res" where
  "upb_Decoder_ReverseSkipVarint buf ptr val = upb_Decoder_ReverseSkipVarint_loop buf ptr 0 val"

subsection \<open>The wire reader\<close>

text \<open>\<^verbatim>\<open>NULL\<close>, the reader's only error, is \<open>Raise ()\<close>.\<close>

function read_longvarint_loop ::
  "bytes \<Rightarrow> nat \<Rightarrow> nat \<Rightarrow> u64 \<Rightarrow> ('e, (nat \<times> u64) option) res" where
  "read_longvarint_loop buf ptr i val =
     (if i < 10 then
        bindR (rd buf (ptr + i)) (\<lambda>b.
          let byte = ucast b :: u64;
              val' = val + push_bit (i * 7) (byte - 1)
          in if byte AND 0x80 = 0 then Ret (Some (ptr + i + 1, val'))
             else read_longvarint_loop buf ptr (i + 1) val')
      else Ret None)"
  by pat_completeness auto
termination
  by (relation "measure (\<lambda>(buf, ptr, i, val). 10 - i)") auto

declare read_longvarint_loop.simps [simp del]

definition upb_WireReader_ReadLongVarint ::
  "bytes \<Rightarrow> nat \<Rightarrow> u64 \<Rightarrow> ('e, (nat \<times> u64) option) res" where
  "upb_WireReader_ReadLongVarint buf ptr val = read_longvarint_loop buf ptr 1 val"

text \<open>\<^verbatim>\<open>UPB_PRIVATE(_upb_WireReader_ReadVarint)\<close>, with the length and value bounds.\<close>

definition upb_WireReader_ReadVarintMax ::
  "bytes \<Rightarrow> nat \<Rightarrow> nat \<Rightarrow> u64 \<Rightarrow> (unit, nat \<times> u64) res" where
  "upb_WireReader_ReadVarintMax buf ptr maxlen maxval =
     bindR (rd buf ptr) (\<lambda>b.
       let byte = ucast b :: u64
       in if byte AND 0x80 = 0 then Ret (ptr + 1, ucast (ucast byte :: u32))
          else bindR (upb_WireReader_ReadLongVarint buf ptr byte) (\<lambda>res.
            case res of
              None \<Rightarrow> Raise ()
            | Some (p, v) \<Rightarrow>
                if maxlen < 10 \<and> p - ptr > maxlen \<or> v > maxval then Raise ()
                else Ret (p, v)))"

definition upb_WireReader_ReadTag :: "bytes \<Rightarrow> nat \<Rightarrow> (unit, nat \<times> u32) res" where
  "upb_WireReader_ReadTag buf ptr =
     bindR (upb_WireReader_ReadVarintMax buf ptr 5 0xFFFFFFFF) (\<lambda>(p, v). Ret (p, ucast v))"

definition upb_WireReader_ReadVarint :: "bytes \<Rightarrow> nat \<Rightarrow> (unit, nat \<times> u64) res" where
  "upb_WireReader_ReadVarint buf ptr = upb_WireReader_ReadVarintMax buf ptr 10 (- 1)"

definition upb_WireReader_SkipVarint :: "bytes \<Rightarrow> nat \<Rightarrow> (unit, nat) res" where
  "upb_WireReader_SkipVarint buf ptr =
     bindR (upb_WireReader_ReadVarint buf ptr) (\<lambda>(p, v). Ret p)"

text \<open>\<^verbatim>\<open>size64 >= INT32_MAX\<close> is rejected, so a size is below \<open>2 ^ 31 - 1\<close>.\<close>

definition upb_WireReader_ReadSize :: "bytes \<Rightarrow> nat \<Rightarrow> (unit, nat \<times> nat) res" where
  "upb_WireReader_ReadSize buf ptr =
     bindR (upb_WireReader_ReadVarint buf ptr) (\<lambda>(p, v).
       if v \<ge> 0x7FFFFFFF then Raise () else Ret (p, unat v))"

definition upb_WireReader_GetFieldNumber :: "u32 \<Rightarrow> u32" where
  "upb_WireReader_GetFieldNumber tag = drop_bit 3 tag"

definition upb_WireReader_GetWireType :: "u32 \<Rightarrow> u8" where
  "upb_WireReader_GetWireType tag = ucast (tag AND 7)"

section \<open>The reference reading of a varint\<close>

text \<open>
  The specification the readers are compared with: a varint is the bytes up to and including
  the first one with a clear top bit, and its value is the sum of the low seven bits of byte
  \<open>j\<close> times \<open>128 ^ j\<close>, modulo \<open>2 ^ 64\<close>.
\<close>

fun varint_prefix :: "bytes \<Rightarrow> bytes option" where
  "varint_prefix [] = None"
| "varint_prefix (b # bs) =
     (if unat b < 128 then Some [b] else map_option ((#) b) (varint_prefix bs))"

fun varint_value :: "bytes \<Rightarrow> u64" where
  "varint_value [] = 0"
| "varint_value (b # bs) = ucast (b AND 0x7f) + 128 * varint_value bs"

lemma varint_prefix_append: "varint_prefix xs = Some p \<Longrightarrow> varint_prefix (xs @ ys) = Some p"
  by (induction xs arbitrary: p) auto

lemma varint_prefix_split: "varint_prefix xs = Some p \<Longrightarrow> xs = p @ drop (length p) xs"
  by (induction xs arbitrary: p) (auto split: if_splits)

lemma varint_prefix_nonempty: "varint_prefix xs = Some p \<Longrightarrow> p \<noteq> []"
  by (cases xs) (auto split: if_splits)

lemma varint_prefix_length: "varint_prefix xs = Some p \<Longrightarrow> length p \<le> length xs"
  using varint_prefix_split [of xs p] by (metis length_append le_add1)

section \<open>The long-varint loop against the reference\<close>

lemma ucast_top_bit: "((ucast (b :: u8) :: u64) AND 128 = 0) \<longleftrightarrow> unat b < 128"
proof -
  have "(ucast b :: u64) AND 128 = ucast (b AND 128)"
    by (simp add: unsigned_and_eq)
  moreover have "(ucast (b AND 128) :: u64) = 0 \<longleftrightarrow> b AND 128 = 0"
    by (simp add: word_unat_eq_iff)
  ultimately show ?thesis by (simp add: byte_top_bit)
qed

lemma loop_reads_prefix:
  assumes "varint_prefix bs = Some p" and "i + length p \<le> 10" and "length pre = ptr + i"
  shows "(decode_longvarint_loop (pre @ bs) ptr i val :: ('e, (nat \<times> u64) option) res) =
           Ret (Some (ptr + i + length p, val - 2 ^ (i * 7) + 2 ^ (i * 7) * varint_value p))"
  using assms
proof (induction bs arbitrary: p i pre val)
  case Nil
  then show ?case by simp
next
  case (Cons b bs)
  have i: "i < 10" using Cons.prems varint_prefix_nonempty [of "b # bs" p] by (cases p) auto
  note rd = rd_append_at [OF Cons.prems(3)]
  show ?case
  proof (cases "unat b < 128")
    case True
    with Cons.prems(1) have p: "p = [b]" by simp
    from True i show ?thesis unfolding p
      by (subst decode_longvarint_loop.simps, simp add: rd ucast_top_bit ucast_low7_clear ring_word)
         (simp add: algebra_simps)
  next
    case False
    with Cons.prems(1) obtain q where q: "varint_prefix bs = Some q" "p = b # q" by auto
    have "(decode_longvarint_loop ((pre @ [b]) @ bs) ptr (i + 1)
          (val + push_bit (i * 7) (ucast b - 1)) :: ('e, (nat \<times> u64) option) res)
        = Ret (Some (ptr + (i + 1) + length q,
            val + push_bit (i * 7) (ucast b - 1) - 2 ^ ((i + 1) * 7)
              + 2 ^ ((i + 1) * 7) * varint_value q))"
      using Cons.prems q by (intro Cons.IH) auto
    with False i q show ?thesis
      by (subst decode_longvarint_loop.simps, simp add: rd ucast_top_bit ucast_low7_set ring_word)
         (simp add: power_add algebra_simps)
  qed
qed

lemma loop_too_long:
  assumes "varint_prefix (take (10 - i) bs) = None" and "10 - i \<le> length bs"
    and "length pre = ptr + i"
  shows "(decode_longvarint_loop (pre @ bs) ptr i val :: ('e, (nat \<times> u64) option) res) = Ret None"
  using assms
proof (induction bs arbitrary: i pre val)
  case Nil
  then show ?case by (subst decode_longvarint_loop.simps) simp
next
  case (Cons b bs)
  show ?case
  proof (cases "i < 10")
    case False
    then show ?thesis by (subst decode_longvarint_loop.simps) simp
  next
    case True
    note rd = rd_append_at [OF Cons.prems(3)]
    from True obtain k where k: "10 - i = Suc k" by (cases "10 - i") auto
    with Cons.prems(1) have b: "\<not> unat b < 128" and none: "varint_prefix (take k bs) = None"
      by (auto split: if_splits)
    have "(decode_longvarint_loop ((pre @ [b]) @ bs) ptr (i + 1) v :: ('e, (nat \<times> u64) option) res)
        = Ret None" for v
      using Cons.prems k none by (intro Cons.IH) (auto simp: diff_Suc split: nat.splits)
    with True b show ?thesis
      by (subst decode_longvarint_loop.simps) (simp add: rd ucast_top_bit)
  qed
qed

section \<open>Varint readers against the reference\<close>

lemma DecodeVarint_prefix:
  assumes p: "varint_prefix bs = Some p" and len: "length p \<le> 10"
  shows "upb_Decoder_DecodeVarint (pre @ bs) (length pre) = Ret (length pre + length p, varint_value p)"
proof (cases bs)
  case Nil
  with p show ?thesis by simp
next
  case (Cons b cs)
  show ?thesis
  proof (cases "unat b < 128")
    case True
    with p Cons have "p = [b]" by simp
    with True Cons show ?thesis
      by (simp add: upb_Decoder_DecodeVarint_def ucast_top_bit ucast_low7_clear)
  next
    case False
    with p Cons obtain q where q: "varint_prefix cs = Some q" "p = b # q" by auto
    with len have "decode_longvarint_loop ((pre @ [b]) @ cs) (length pre) 1 (ucast b)
        = (Ret (Some (length pre + 1 + length q, ucast b - 2 ^ (1 * 7) + 2 ^ (1 * 7) * varint_value q))
           :: (upb_DecodeStatus, _) res)"
      by (intro loop_reads_prefix) auto
    with False Cons q show ?thesis
      by (simp add: upb_Decoder_DecodeVarint_def upb_Decoder_DecodeLongVarint_def ucast_top_bit
          ucast_low7_set)
  qed
qed

lemma DecodeVarint_too_long:
  assumes "varint_prefix (take 10 bs) = None" and "10 \<le> length bs"
  shows "upb_Decoder_DecodeVarint (pre @ bs) (length pre) = Raise kUpb_DecodeStatus_Malformed"
proof (cases bs)
  case Nil
  with assms show ?thesis by simp
next
  case (Cons b cs)
  with assms have b: "\<not> unat b < 128" and none: "varint_prefix (take (10 - 1) cs) = None"
    by (auto split: if_splits)
  with assms Cons have "(decode_longvarint_loop ((pre @ [b]) @ cs) (length pre) 1 (ucast b)
        :: (upb_DecodeStatus, _) res) = Ret None"
    by (intro loop_too_long) auto
  with b Cons show ?thesis
    by (simp add: upb_Decoder_DecodeVarint_def upb_Decoder_DecodeLongVarint_def ucast_top_bit)
qed

lemma drop_split_at: "ptr \<le> length buf \<Longrightarrow> buf = take ptr buf @ drop ptr buf \<and> length (take ptr buf) = ptr"
  by simp

lemma DecodeVarint_spec:
  assumes "ptr + 10 \<le> length buf"
  shows "upb_Decoder_DecodeVarint buf ptr =
           (case varint_prefix (take 10 (drop ptr buf)) of
              None \<Rightarrow> Raise kUpb_DecodeStatus_Malformed
            | Some p \<Rightarrow> Ret (ptr + length p, varint_value p))"
proof -
  let ?pre = "take ptr buf" and ?bs = "drop ptr buf"
  have buf: "?pre @ ?bs = buf" and len: "length ?pre = ptr" using assms by auto
  show ?thesis
  proof (cases "varint_prefix (take 10 ?bs)")
    case None
    with assms DecodeVarint_too_long [of ?bs ?pre] buf len show ?thesis by simp
  next
    case (Some p)
    then have "varint_prefix ?bs = Some p"
      using varint_prefix_append [of "take 10 ?bs" p "drop 10 ?bs"] by (simp only: append_take_drop_id)
    moreover from Some have "length p \<le> 10"
      using varint_prefix_length by fastforce
    ultimately show ?thesis
      using DecodeVarint_prefix [of ?bs p ?pre] Some buf len by simp
  qed
qed

section \<open>Encoding\<close>

lemma low7_with_top: "((ucast (v AND 127) :: u8) OR 128) AND 127 = ucast ((v :: u64) AND 127)"
  by (rule bit_eqI) (auto simp: bit_simps bit_consts)

lemma top_set: "\<not> unat ((x :: u8) OR 128) < 128"
proof -
  have "(x OR 128) AND 128 = 128" by (rule bit_eqI) (auto simp: bit_simps)
  then show ?thesis using byte_top_bit [of "x OR 128"] by simp
qed

lemma ucast_low7_small: "unat (ucast ((v :: u64) AND 127) :: u8) = unat v mod 128"
  by (simp add: unsigned_ucast_eq unat_and_127 take_bit_eq_mod)

lemma low7_join: "(v AND 127) + 128 * drop_bit 7 v = (v :: u64)"
  using bits_ident [of 7 v] by (simp add: push_bit_as_mult take_bit_eq_mask algebra_simps)

lemma ucast_low7_back: "(ucast (ucast ((v :: u64) AND 127) :: u8) :: u64) = v AND 127"
  by (rule bit_eqI) (auto simp: bit_simps bit_consts)

lemma encode_varint64_prefix: "varint_prefix (encode_varint64 v) = Some (encode_varint64 v)"
proof (induction v rule: encode_varint64.induct)
  case (1 v)
  show ?case
  proof (cases "drop_bit 7 v = 0")
    case True
    then show ?thesis
      by (subst (1 2) encode_varint64.simps) (simp add: ucast_low7_small)
  next
    case False
    with "1.IH" show ?thesis
      by (subst (1 2) encode_varint64.simps) (simp add: top_set)
  qed
qed

lemma encode_varint64_value: "varint_value (encode_varint64 v) = v"
proof (induction v rule: encode_varint64.induct)
  case (1 v)
  show ?case
  proof (cases "drop_bit 7 v = 0")
    case True
    then have v: "v AND 127 = v" using low7_join [of v] by simp
    have "varint_value [ucast (v AND 127)] = v"
      by (simp add: ucast_low7_clear ucast_low7_small ucast_low7_back del: unsigned_and_eq)
         (simp add: v)
    with True show ?thesis
      by (subst encode_varint64.simps) simp
  next
    case False
    with "1.IH" show ?thesis
      by (subst encode_varint64.simps)
         (simp add: low7_with_top ucast_low7_back low7_join)
  qed
qed

lemma encode_varint64_nonempty: "encode_varint64 v \<noteq> []"
  using varint_prefix_nonempty [OF encode_varint64_prefix] .

lemma encode_varint64_length:
  "0 < k \<Longrightarrow> length (encode_varint64 v) \<le> k \<longleftrightarrow> unat v < 128 ^ k"
proof (induction v arbitrary: k rule: encode_varint64.induct)
  case (1 v)
  have div: "unat (drop_bit 7 v) = unat v div 128" by (simp add: unat_drop_bit)
  from \<open>0 < k\<close> obtain j where k: "k = Suc j" by (cases k) auto
  show ?case
  proof (cases "drop_bit 7 v = 0")
    case True
    then have "unat v < 128" using div by (simp add: div_eq_0_iff)
    also have "(128::nat) \<le> 128 ^ k" using k by simp
    finally show ?thesis using True k
      by (subst encode_varint64.simps) simp
  next
    case False
    then have big: "128 \<le> unat v" using div by (metis div_less not_le unsigned_eq_0_iff)
    show ?thesis
    proof (cases j)
      case 0
      with False k big show ?thesis
        by (subst encode_varint64.simps) (simp add: encode_varint64_nonempty)
    next
      case (Suc i)
      then have "length (encode_varint64 (drop_bit 7 v)) \<le> j \<longleftrightarrow> unat v div 128 < 128 ^ j"
        using "1.IH" [OF refl refl False, of j] div by simp
      also have "\<dots> \<longleftrightarrow> unat v < 128 ^ k"
        using k by (simp add: div_less_iff_less_mult algebra_simps)
      finally show ?thesis using False k
        by (subst encode_varint64.simps) simp
    qed
  qed
qed

lemma encode_varint64_length_10: "length (encode_varint64 v) \<le> 10"
proof -
  have "unat v < 2 ^ 64" using unat_bound [of v] by simp
  also have "(2::nat) ^ 64 \<le> 128 ^ 10" by simp
  finally show ?thesis by (simp add: encode_varint64_length)
qed

lemma EncodeVarint32_64: "upb_Decoder_EncodeVarint32 v = encode_varint64 (ucast v)"
proof (induction v rule: upb_Decoder_EncodeVarint32.induct)
  case (1 v)
  have d: "drop_bit 7 (ucast v :: u64) = ucast (drop_bit 7 v)"
    and m: "(ucast ((ucast v :: u64) AND 127) :: u8) = ucast (v AND 127)"
    by (rule bit_eqI, auto simp: bit_simps bit_consts dest: bit_imp_le_length)+
  have z: "(ucast (drop_bit 7 v) :: u64) = 0 \<longleftrightarrow> drop_bit 7 v = 0"
    unfolding word_unat_eq_iff by simp
  show ?case
    using "1.IH" [OF refl refl]
    by (subst encode_varint64.simps, subst upb_Decoder_EncodeVarint32.simps)
       (simp add: d m z Let_def)
qed

lemma encode_varint64_length_5: "length (encode_varint64 (ucast (v :: u32))) \<le> 5"
proof -
  have "unat v < 2 ^ 32" using unat_bound [of v] by simp
  also have "(2::nat) ^ 32 \<le> 128 ^ 5" by simp
  finally show ?thesis by (simp add: encode_varint64_length)
qed

section \<open>Zigzag\<close>

lemma zz32_cases: "encode_zz32 n = (if bit n 31 then NOT (n * 2) else n * 2)"
  unfolding encode_zz32_def
  by (rule bit_eqI) (auto simp: bit_simps bit_word_double min_def push_bit_as_mult not_le)

lemma zz64_cases: "encode_zz64 n = (if bit n 63 then NOT (n * 2) else n * 2)"
  unfolding encode_zz64_def
  by (rule bit_eqI) (auto simp: bit_simps bit_word_double min_def push_bit_as_mult not_le)

lemma zz32_inverse: "decode_zz32 (ucast (encode_zz32 n)) = n"
  using word_double_halve [of n]
  by (auto simp: zz32_cases decode_zz32_def Let_def word_and_one bit_simps bit_word_double
      ucast_up_ucast_id is_up split: if_splits)

lemma zz64_inverse: "decode_zz64 (encode_zz64 n) = n"
  using word_double_halve [of n]
  by (auto simp: zz64_cases decode_zz64_def Let_def word_and_one bit_simps bit_word_double
      split: if_splits)

section \<open>Tags and the wire reader\<close>

lemma DecodeTag_prefix:
  assumes p: "varint_prefix bs = Some p" and len: "length p \<le> 10"
  shows "upb_Decoder_DecodeTag (pre @ bs) (length pre) =
           (if length p > 5 \<or> varint_value p > 0xFFFFFFFF
            then Raise kUpb_DecodeStatus_Malformed
            else Ret (length pre + length p, ucast (varint_value p)))"
proof (cases bs)
  case Nil
  with p show ?thesis by simp
next
  case (Cons b cs)
  show ?thesis
  proof (cases "unat b < 128")
    case True
    with p Cons have "p = [b]" by simp
    moreover have "\<not> (ucast b :: u64) > 0xFFFFFFFF"
      using True by (simp add: word_less_nat_alt)
    ultimately show ?thesis using True Cons
      by (simp add: upb_Decoder_DecodeTag_def ucast_top_bit ucast_low7_clear)
  next
    case False
    with p Cons obtain q where q: "varint_prefix cs = Some q" "p = b # q" by auto
    with len have "decode_longvarint_loop ((pre @ [b]) @ cs) (length pre) 1 (ucast b)
        = (Ret (Some (length pre + 1 + length q, ucast b - 2 ^ (1 * 7) + 2 ^ (1 * 7) * varint_value q))
           :: (upb_DecodeStatus, _) res)"
      by (intro loop_reads_prefix) auto
    with False Cons q show ?thesis
      by (simp add: upb_Decoder_DecodeTag_def upb_Decoder_DecodeLongVarint_def ucast_top_bit
          ucast_low7_set)
  qed
qed

lemma read_loop_eq:
  "(read_longvarint_loop buf ptr i val :: ('e, _) res) = decode_longvarint_loop buf ptr i val"
proof (induction buf ptr i val rule: read_longvarint_loop.induct [where 'a = 'e])
  case (1 buf ptr i val)
  have step: "i < 10 \<Longrightarrow> (ucast b :: u64) AND 128 \<noteq> 0 \<Longrightarrow>
      (read_longvarint_loop buf ptr (i + 1) (val + push_bit (i * 7) (ucast b - 1)) :: ('e, _) res)
        = decode_longvarint_loop buf ptr (i + 1) (val + push_bit (i * 7) (ucast b - 1))" 
    if "rd buf (ptr + i) = (Ret b :: ('e, u8) res)" for b
    by (rule "1.IH" [OF _ that refl refl])
  show ?case
  proof (cases "rd buf (ptr + i) :: ('e, u8) res")
    case (Ret b)
    then show ?thesis using step [of b]
      by (subst read_longvarint_loop.simps, subst decode_longvarint_loop.simps) (simp add: Let_def)
  qed (subst read_longvarint_loop.simps, subst decode_longvarint_loop.simps, simp)+
qed

lemma ReadVarintMax_prefix:
  assumes p: "varint_prefix bs = Some p" and len: "length p \<le> 10"
    and bounds: "5 \<le> maxlen" "0xFF \<le> maxval"
  shows "upb_WireReader_ReadVarintMax (pre @ bs) (length pre) maxlen maxval =
           (if maxlen < 10 \<and> length p > maxlen \<or> varint_value p > maxval then Raise ()
            else Ret (length pre + length p, varint_value p))"
proof (cases bs)
  case Nil
  with p show ?thesis by simp
next
  case (Cons b cs)
  show ?thesis
  proof (cases "unat b < 128")
    case True
    with p Cons have "p = [b]" by simp
    moreover have "\<not> (ucast b :: u64) > maxval"
      using True bounds(2) by (simp add: word_less_nat_alt word_le_nat_alt)
    moreover have "(ucast (ucast (ucast b :: u64) :: u32) :: u64) = ucast b"
      by (rule bit_eqI) (auto simp: bit_simps dest: bit_imp_le_length)
    ultimately show ?thesis using True Cons bounds(1)
      by (simp add: upb_WireReader_ReadVarintMax_def ucast_top_bit ucast_low7_clear)
  next
    case False
    with p Cons obtain q where q: "varint_prefix cs = Some q" "p = b # q" by auto
    with len have "decode_longvarint_loop ((pre @ [b]) @ cs) (length pre) 1 (ucast b)
        = (Ret (Some (length pre + 1 + length q, ucast b - 2 ^ (1 * 7) + 2 ^ (1 * 7) * varint_value q))
           :: (unit, _) res)"
      by (intro loop_reads_prefix) auto
    with False Cons q show ?thesis
      by (simp add: upb_WireReader_ReadVarintMax_def upb_WireReader_ReadLongVarint_def
          read_loop_eq ucast_top_bit ucast_low7_set)
  qed
qed

lemma ReadVarint_encode:
  "upb_WireReader_ReadVarint (pre @ encode_varint64 v @ post) (length pre)
     = Ret (length pre + length (encode_varint64 v), v)"
  using ReadVarintMax_prefix [of "encode_varint64 v @ post" "encode_varint64 v" 10 "- 1" pre]
    varint_prefix_append [OF encode_varint64_prefix] encode_varint64_length_10 [of v]
  by (simp add: upb_WireReader_ReadVarint_def encode_varint64_value)

section \<open>Finding a tag backwards\<close>

lemma loop_success:
  "decode_longvarint_loop buf ptr i val = (Ret (Some (q, v)) :: ('e, _) res) \<Longrightarrow>
     \<exists>p. varint_prefix (drop (ptr + i) buf) = Some p \<and> i + length p \<le> 10"
proof (induction buf ptr i val rule: decode_longvarint_loop.induct [where 'a = 'e])
  case (1 buf ptr i val)
  from "1.prems" have i: "i < 10"
    by (subst (asm) decode_longvarint_loop.simps) (auto split: if_splits)
  show ?case
  proof (cases "rd buf (ptr + i) :: ('e, u8) res")
    case (Ret b)
    then have drop: "drop (ptr + i) buf = b # drop (Suc (ptr + i)) buf"
      by (auto simp: rd_def Cons_nth_drop_Suc split: if_splits)
    show ?thesis
    proof (cases "unat b < 128")
      case True
      with i drop show ?thesis by simp
    next
      case False
      then have "decode_longvarint_loop buf ptr (i + 1) (val + push_bit (i * 7) (ucast b - 1))
          = (Ret (Some (q, v)) :: ('e, _) res)"
        using "1.prems" i Ret
        by (subst (asm) decode_longvarint_loop.simps) (simp add: ucast_top_bit Let_def)
      from "1.IH" [OF i Ret refl refl _ this] False drop show ?thesis
        by (auto simp: ucast_top_bit)
    qed
  qed (use "1.prems" i in \<open>subst (asm) decode_longvarint_loop.simps, simp\<close>)+
qed

lemma DecodeTag_success:
  assumes "upb_Decoder_DecodeTag buf ptr = Ret (q, tag)"
  shows "\<exists>p. varint_prefix (drop ptr buf) = Some p \<and> length p \<le> 5 \<and> q = ptr + length p
           \<and> varint_value p \<le> 0xFFFFFFFF \<and> tag = ucast (varint_value p)"
proof -
  from assms have len: "ptr < length buf"
    by (auto simp: upb_Decoder_DecodeTag_def rd_def split: if_splits)
  then have drop: "drop ptr buf = buf ! ptr # drop (Suc ptr) buf" by (simp add: Cons_nth_drop_Suc)
  have "\<exists>p. varint_prefix (drop ptr buf) = Some p \<and> length p \<le> 10"
  proof (cases "unat (buf ! ptr) < 128")
    case True
    with drop show ?thesis by simp
  next
    case False
    with assms len obtain r w where
      "(decode_longvarint_loop buf ptr 1 (ucast (buf ! ptr)) :: (upb_DecodeStatus, _) res)
         = Ret (Some (r, w))"
      by (auto simp: upb_Decoder_DecodeTag_def upb_Decoder_DecodeLongVarint_def ucast_top_bit
          res_simps split: option.splits if_splits)
    with loop_success False drop show ?thesis by fastforce
  qed
  then obtain p where p: "varint_prefix (drop ptr buf) = Some p" "length p \<le> 10" by blast
  with DecodeTag_prefix [OF p, of "take ptr buf"] assms len show ?thesis
    by (auto simp: not_less split: if_splits)
qed

fun varint_nat :: "bytes \<Rightarrow> nat" where
  "varint_nat [] = 0"
| "varint_nat (b # bs) = unat b mod 128 + 128 * varint_nat bs"

lemma varint_value_nat: "varint_value p = of_nat (varint_nat p)"
  by (induction p) (simp_all add: ucast_as_of_nat unat_and_127 del: of_nat_unat unsigned_and_eq)

lemma varint_nat_append: "varint_nat (p @ q) = varint_nat p + 128 ^ length p * varint_nat q"
  by (induction p) (auto simp: algebra_simps)

lemma varint_nat_bound: "varint_nat p < 128 ^ length p"
proof (induction p)
  case (Cons b p)
  have "unat b mod 128 < 128" by simp
  with Cons show ?case by simp
qed simp

lemma seen_step:
  "push_bit 7 (of_nat n :: u32) OR (ucast (b :: u8) AND 127) = of_nat (unat b mod 128 + 128 * n)"
proof -
  have "push_bit 7 (of_nat n :: u32) AND (ucast b AND 127) = 0"
    by (rule bit_eqI) (auto simp: bit_simps bit_consts)
  then have "push_bit 7 (of_nat n :: u32) OR (ucast b AND 127)
      = push_bit 7 (of_nat n) + (ucast b AND 127)"
    by (simp only: disjunctive_add_eq_or)
  moreover have "(ucast b AND 127 :: u32) = of_nat (unat b mod 128)"
    by (simp add: word_unat_eq_iff unat_and_127 unsigned_of_nat take_bit_nat_eq_self)
  ultimately show ?thesis by (simp add: push_bit_as_mult)
qed

lemma reverse_loop:
  assumes "varint_nat (p @ q) < 2 ^ 32" and "varint_nat (p @ q) \<noteq> 0" and "p \<noteq> []"
  shows "(upb_Decoder_ReverseSkipVarint_loop (pre @ p @ rest) (length pre + length p)
           (of_nat (varint_nat q)) (of_nat (varint_nat (p @ q))) :: ('e, nat) res) = Ret (length pre)"
  using assms
proof (induction p arbitrary: q rest rule: rev_induct)
  case Nil
  then show ?case by simp
next
  case (snoc b p)
  let ?v = "varint_nat (p @ b # q)"
  have v: "?v < 2 ^ 32" "?v \<noteq> 0" using snoc.prems by simp_all
  have le: "varint_nat (b # q) \<le> ?v"
  proof -
    have "1 * varint_nat (b # q) \<le> 128 ^ length p * varint_nat (b # q)" by (rule mult_le_mono1) simp
    then show ?thesis unfolding varint_nat_append by linarith
  qed
  have rd: "(rd (pre @ (p @ [b]) @ rest) (length pre + length p) :: ('e, u8) res) = Ret b"
    using rd_append_at [of "pre @ p" _ b rest] by simp
  have seen: "push_bit 7 (of_nat (varint_nat q) :: u32) OR (ucast b AND 127)
      = of_nat (varint_nat (b # q))"
    by (simp add: seen_step)
  show ?case
  proof (cases "p = []")
    case True
    with rd show ?thesis by (simp add: seen Let_def)
  next
    case False
    have "varint_nat (b # q) \<noteq> ?v"
    proof
      assume eq: "varint_nat (b # q) = ?v"
      have "(128::nat) ^ 1 \<le> 128 ^ length p" using False by (intro power_increasing) (auto simp: Suc_le_eq)
      then have "128 * varint_nat (b # q) \<le> 128 ^ length p * varint_nat (b # q)"
        by (intro mult_le_mono1) simp
      also have "\<dots> \<le> ?v" unfolding varint_nat_append by simp
      finally show False using eq v by simp
    qed
    moreover have "varint_nat (b # q) < 2 ^ 32" using le v by simp
    ultimately have ne: "(of_nat (varint_nat (b # q)) :: u32) \<noteq> of_nat ?v"
      using v of_nat_word_inj [where 'a = 32, of "varint_nat (b # q)" ?v] by simp
    have "(upb_Decoder_ReverseSkipVarint_loop (pre @ p @ b # rest) (length pre + length p)
        (of_nat (varint_nat (b # q))) (of_nat ?v) :: ('e, nat) res) = Ret (length pre)"
      using snoc.IH [of "b # q" "b # rest"] False v by simp
    with rd ne show ?thesis by (simp add: seen Let_def)
  qed
qed

lemma ReverseSkip_after_tag:
  assumes "upb_Decoder_DecodeTag buf ptr = Ret (q, tag)" and "tag \<noteq> 0"
  shows "(upb_Decoder_ReverseSkipVarint buf q tag :: ('e, nat) res) = Ret ptr"
proof -
  from DecodeTag_success [OF assms(1)] obtain p where
    p: "varint_prefix (drop ptr buf) = Some p" "length p \<le> 5" "q = ptr + length p"
      "varint_value p \<le> 0xFFFFFFFF" and tag: "tag = ucast (varint_value p)" by blast
  from p(1) varint_prefix_nonempty have ne: "p \<noteq> []" by blast
  from p(1) have "ptr < length buf" by (cases "ptr < length buf") auto
  with ne have buf: "buf = take ptr buf @ p @ drop (length p) (drop ptr buf)" "length (take ptr buf) = ptr"
    using varint_prefix_split [OF p(1)] by (metis append_take_drop_id, simp)
  have "varint_nat p < 128 ^ 5"
    using varint_nat_bound [of p] p(2) by (meson less_le_trans one_le_numeral power_increasing)
  then have n: "unat (varint_value p) = varint_nat p"
    by (simp add: varint_value_nat unsigned_of_nat take_bit_nat_eq_self)
  with p(4) have lt: "varint_nat p < 2 ^ 32" by (simp add: word_le_nat_alt)
  have tag': "tag = of_nat (varint_nat p)"
    by (simp only: tag ucast_as_of_nat n)
  from assms(2) have "varint_nat p \<noteq> 0"
    unfolding tag' by (cases "varint_nat p = 0") simp_all
  with lt ne have "(upb_Decoder_ReverseSkipVarint_loop
      (take ptr buf @ p @ drop (length p) (drop ptr buf)) (length (take ptr buf) + length p)
      (of_nat (varint_nat [])) (of_nat (varint_nat (p @ []))) :: ('e, nat) res)
        = Ret (length (take ptr buf))"
    by (intro reverse_loop) simp_all
  then have "(upb_Decoder_ReverseSkipVarint_loop buf (ptr + length p) 0 tag :: ('e, nat) res) = Ret ptr"
    by (simp only: buf(1) [symmetric] buf(2) tag' varint_nat.simps of_nat_simps append_Nil2)
  with p(3) show ?thesis by (simp add: upb_Decoder_ReverseSkipVarint_def)
qed

section \<open>Properties\<close>

text \<open>
  C7. The decoder's varint reader, with its loop that adds \<^verbatim>\<open>(byte - 1) << (7 * i)\<close> so that each
  byte cancels the continuation bit of the one before, computes the reference value: wherever
  the ten bytes the stream guarantees are readable, it returns the value of the first byte run
  that ends in a clear top bit together with the position after it, and reports a malformed
  message exactly when ten bytes hold no such run. It never reads outside the buffer.
\<close>

theorem decode_varint_reference:
  assumes "ptr + 10 \<le> length buf"
  shows "upb_Decoder_DecodeVarint buf ptr =
           (case varint_prefix (take 10 (drop ptr buf)) of
              None \<Rightarrow> Raise kUpb_DecodeStatus_Malformed
            | Some p \<Rightarrow> Ret (ptr + length p, varint_value p))"
  using assms by (rule DecodeVarint_spec)

theorem decode_varint_reference_witness:
  "upb_Decoder_DecodeVarint [0xFF, 0xAC, 0x02, 0, 0, 0, 0, 0, 0, 0, 0] 1 = Ret (3, 300)
   \<and> upb_Decoder_DecodeVarint [0x80, 0x80, 0x80, 0x80, 0x80, 0x80, 0x80, 0x80, 0x80, 0x80] 0 = Raise kUpb_DecodeStatus_Malformed"
proof -
  have "upb_Decoder_DecodeVarint [0xFF, 0xAC, 0x02, 0, 0, 0, 0, 0, 0, 0, 0] 1 = Ret (3, 300)"
    using decode_varint_reference [of 1 "[0xFF, 0xAC, 0x02, 0, 0, 0, 0, 0, 0, 0, 0]"] by simp
  moreover have "upb_Decoder_DecodeVarint [0x80, 0x80, 0x80, 0x80, 0x80, 0x80, 0x80, 0x80, 0x80, 0x80] 0 = Raise kUpb_DecodeStatus_Malformed"
    using decode_varint_reference [of 0 "[0x80, 0x80, 0x80, 0x80, 0x80, 0x80, 0x80, 0x80, 0x80, 0x80]"] by simp
  ultimately show ?thesis ..
qed

text \<open>
  C10. Varint round trip: what the encoder's \<^verbatim>\<open>encode_varint64\<close> writes, at any place in a buffer,
  is read back by the decoder and by the wire reader as the same value with exactly the written
  bytes consumed, the encoding takes at most the ten bytes that \<^verbatim>\<open>UPB_PB_VARINT_MAX_LEN\<close>
  reserves, and it is the shortest one (\<open>k\<close> bytes suffice exactly for values below \<open>128 ^ k\<close>).
\<close>

theorem varint_roundtrip:
  "upb_Decoder_DecodeVarint (pre @ encode_varint64 v @ post) (length pre)
     = Ret (length pre + length (encode_varint64 v), v)
   \<and> upb_WireReader_ReadVarint (pre @ encode_varint64 v @ post) (length pre)
     = Ret (length pre + length (encode_varint64 v), v)
   \<and> length (encode_varint64 v) \<le> 10
   \<and> (length (encode_varint64 v) \<le> Suc k \<longleftrightarrow> unat v < 128 ^ Suc k)"
proof (intro conjI)
  show "upb_Decoder_DecodeVarint (pre @ encode_varint64 v @ post) (length pre)
     = Ret (length pre + length (encode_varint64 v), v)"
    using DecodeVarint_prefix [OF varint_prefix_append [OF encode_varint64_prefix], of v pre post]
    by (simp add: encode_varint64_value encode_varint64_length_10)
qed (simp_all add: ReadVarint_encode encode_varint64_length_10 encode_varint64_length del: power_Suc)

text \<open>
  C20. The backward scan that recovers the start of an unknown field: from the position after any
  tag the decoder accepted (also one in a longer than necessary encoding), scanning back for the
  tag's value stops exactly at the first byte of that tag, whatever precedes it in the buffer.
  The decoder guards the call by rejecting field number 0, which gives a non-zero tag.
\<close>

theorem reverse_skip_finds_tag_start:
  assumes "upb_Decoder_DecodeTag buf ptr = Ret (ptr', tag)" and "tag \<noteq> 0"
  shows "upb_Decoder_ReverseSkipVarint buf ptr' tag = (Ret ptr :: (unit, nat) res)"
  using assms by (rule ReverseSkip_after_tag)

theorem reverse_skip_finds_tag_start_witness:
  "upb_Decoder_DecodeTag [0x08, 0x88, 0x80, 0x00] 1 = Ret (4, 8)
   \<and> upb_Decoder_ReverseSkipVarint [0x08, 0x88, 0x80, 0x00] 4 8 = (Ret 1 :: (unit, nat) res)"
proof -
  have h: "upb_Decoder_DecodeTag [0x08, 0x88, 0x80, 0x00] 1 = Ret (4, 8)"
    using DecodeTag_prefix [of "[0x88, 0x80, 0x00]" "[0x88, 0x80, 0x00]" "[0x08]"] by simp
  from reverse_skip_finds_tag_start [OF h] h show ?thesis by simp
qed

text \<open>
  C22. Zigzag coding: the encoder's bit trick maps a signed value \<open>n\<close> to \<open>2 n\<close> or \<open>- 2 n - 1\<close>,
  so that small magnitudes have short varints, and the decoder's \<^verbatim>\<open>_upb_Decoder_Munge\<close> inverts
  it, for both widths.
\<close>

theorem zigzag_roundtrip:
  "decode_zz32 (ucast (encode_zz32 n)) = n \<and> decode_zz64 (encode_zz64 m) = m
   \<and> int (unat (encode_zz32 n)) = (if 0 \<le> sint n then 2 * sint n else - 2 * sint n - 1)
   \<and> int (unat (encode_zz64 m)) = (if 0 \<le> sint m then 2 * sint m else - 2 * sint m - 1)"
proof (intro conjI)
  show "int (unat (encode_zz32 n)) = (if 0 \<le> sint n then 2 * sint n else - 2 * sint n - 1)"
    using zz_value [of n] by (simp add: zz32_cases)
  show "int (unat (encode_zz64 m)) = (if 0 \<le> sint m then 2 * sint m else - 2 * sint m - 1)"
    using zz_value [of m] by (simp add: zz64_cases)
qed (simp_all add: zz32_inverse zz64_inverse)

end
