(* ===== verification/Utf8_Range.thy ===== *)
theory Utf8_Range
  imports Upb_Prelude
begin

unbundle bit_operations_syntax

text \<open>
  UTF-8 in the C code: the encoder of \<^verbatim>\<open>upb/lex/unicode.c\<close> with the surrogate helpers of
  \<^verbatim>\<open>upb/lex/unicode.h\<close>, and the validator of \<^verbatim>\<open>utf8_range/utf8_range.c\<close> that the wire decoder
  calls on every proto3 string. The validator is modelled in its portable configuration (no
  SSE 4.1, no NEON). The memory between \<^verbatim>\<open>data\<close> and \<^verbatim>\<open>end\<close> is a list of bytes, and advancing
  \<^verbatim>\<open>data\<close> drops from it.
\<close>

section \<open>Definitions\<close>

subsection \<open>Encoding a code point\<close>

text \<open>The bytes written to \<^verbatim>\<open>out\<close>; the returned count is their number (0 when out of range).\<close>

definition upb_Unicode_ToUTF8 :: "u32 \<Rightarrow> bytes" where
  "upb_Unicode_ToUTF8 cp =
     (if cp \<le> 0x7f then [ucast cp]
      else if cp \<le> 0x07ff then
        [ucast (drop_bit 6 cp OR 0xc0), ucast ((cp AND 0x3f) OR 0x80)]
      else if cp \<le> 0xffff then
        [ucast (drop_bit 12 cp OR 0xe0), ucast ((drop_bit 6 cp AND 0x3f) OR 0x80),
         ucast ((cp AND 0x3f) OR 0x80)]
      else if cp \<le> 0x10ffff then
        [ucast (drop_bit 18 cp OR 0xf0), ucast ((drop_bit 12 cp AND 0x3f) OR 0x80),
         ucast ((drop_bit 6 cp AND 0x3f) OR 0x80), ucast ((cp AND 0x3f) OR 0x80)]
      else [])"

definition upb_Unicode_IsHigh :: "u32 \<Rightarrow> bool" where
  "upb_Unicode_IsHigh cp \<longleftrightarrow> cp \<ge> 0xd800 \<and> cp \<le> 0xdbff"

definition upb_Unicode_IsLow :: "u32 \<Rightarrow> bool" where
  "upb_Unicode_IsLow cp \<longleftrightarrow> cp \<ge> 0xdc00 \<and> cp \<le> 0xdfff"

definition upb_Unicode_ToHigh :: "u32 \<Rightarrow> u16" where
  "upb_Unicode_ToHigh cp = ucast (drop_bit 10 cp + 0xd7c0)"

definition upb_Unicode_ToLow :: "u32 \<Rightarrow> u16" where
  "upb_Unicode_ToLow cp = ucast ((cp AND 0x3ff) OR 0xdc00)"

definition upb_Unicode_FromPair :: "u32 \<Rightarrow> u32 \<Rightarrow> u32" where
  "upb_Unicode_FromPair high low = push_bit 10 (high AND 0x3ff) + (low AND 0x3ff) + 0x10000"

subsection \<open>The validator\<close>

definition utf8_range_AsciiIsAscii :: "u8 \<Rightarrow> bool" where
  "utf8_range_AsciiIsAscii c \<longleftrightarrow> c < 128"

text \<open>\<^verbatim>\<open>(int8_t)(c) <= (int8_t)(0xBF)\<close>: a comparison of signed bytes.\<close>

definition utf8_range_IsTrailByteOk :: "u8 \<Rightarrow> bool" where
  "utf8_range_IsTrailByteOk c \<longleftrightarrow> sint c \<le> sint (0xBF :: u8)"

text \<open>
  The body of the loop of \<^verbatim>\<open>utf8_range_ValidateUTF8Naive\<close>: the number of bytes of the code point
  at the front of \<open>data\<close> (the value \<^verbatim>\<open>codepoint_bytes\<close> gets before \<^verbatim>\<open>continue\<close>), or \<open>None\<close> where
  the function returns \<^verbatim>\<open>err_pos\<close>. Every \<open>data ! i\<close> is behind the length test that guards it
  in the source.
\<close>

definition utf8_naive_codepoint :: "bytes \<Rightarrow> nat option" where
  "utf8_naive_codepoint data =
     (let len = length data; byte1 = data ! 0 in
      if utf8_range_AsciiIsAscii byte1 then Some 1
      else if len \<ge> 2 \<and> byte1 \<ge> 0xC2 \<and> byte1 \<le> 0xDF \<and> utf8_range_IsTrailByteOk (data ! 1)
      then Some 2
      else if len \<ge> 3 then
        (let byte2 = data ! 1; byte3 = data ! 2 in
         if \<not> utf8_range_IsTrailByteOk byte2 \<or> \<not> utf8_range_IsTrailByteOk byte3 then None
         else if (byte1 = 0xE0 \<and> byte2 \<ge> 0xA0) \<or> (byte1 \<ge> 0xE1 \<and> byte1 \<le> 0xEC)
               \<or> (byte1 = 0xED \<and> byte2 \<le> 0x9F) \<or> (byte1 \<ge> 0xEE \<and> byte1 \<le> 0xEF)
         then Some 3
         else if len \<ge> 4 then
           (let byte4 = data ! 3 in
            if \<not> utf8_range_IsTrailByteOk byte4 then None
            else if (byte1 = 0xF0 \<and> byte2 \<ge> 0x90) \<or> (byte1 \<ge> 0xF1 \<and> byte1 \<le> 0xF3)
                  \<or> (byte1 = 0xF4 \<and> byte2 \<le> 0x8F)
            then Some 4 else None)
         else None)
      else None)"

lemma utf8_naive_codepoint_pos: "utf8_naive_codepoint data = Some n \<Longrightarrow> 0 < n"
  by (auto simp: utf8_naive_codepoint_def Let_def split: if_splits)

function utf8_naive_loop :: "bytes \<Rightarrow> bool \<Rightarrow> nat \<Rightarrow> nat \<Rightarrow> nat" where
  "utf8_naive_loop data return_position err_pos codepoint_bytes =
     (if codepoint_bytes < length data then
        (let err_pos' = (if return_position then err_pos + codepoint_bytes else err_pos);
             data' = drop codepoint_bytes data
         in case utf8_naive_codepoint data' of
              None \<Rightarrow> err_pos'
            | Some n \<Rightarrow> utf8_naive_loop data' return_position err_pos' n)
      else (if return_position then err_pos + codepoint_bytes else err_pos)
             + (1 - (if return_position then 1 else 0)))"
  by pat_completeness auto
termination
  by (relation "measure (\<lambda>(data, rp, e, c). length data - c)")
     (auto dest: utf8_naive_codepoint_pos)

declare utf8_naive_loop.simps [simp del]

definition utf8_range_ValidateUTF8Naive :: "bytes \<Rightarrow> bool \<Rightarrow> nat" where
  "utf8_range_ValidateUTF8Naive data return_position = utf8_naive_loop data return_position 0 0"

text \<open>Eight bytes as the little-endian word \<^verbatim>\<open>memcpy\<close> gives on the target platforms.\<close>

fun load_le :: "bytes \<Rightarrow> u64" where
  "load_le [] = 0"
| "load_le (b # bs) = ucast b OR push_bit 8 (load_le bs)"

definition utf8_range_UnalignedLoad64 :: "bytes \<Rightarrow> u64" where
  "utf8_range_UnalignedLoad64 data = load_le (take 8 data)"

function skip_ascii_words :: "bytes \<Rightarrow> bytes" where
  "skip_ascii_words data =
     (if 8 \<le> length data \<and> utf8_range_UnalignedLoad64 data AND 0x8080808080808080 = 0
      then skip_ascii_words (drop 8 data) else data)"
  by pat_completeness auto
termination
  by (relation "measure length") auto

declare skip_ascii_words.simps [simp del]

fun skip_ascii_bytes :: "bytes \<Rightarrow> bytes" where
  "skip_ascii_bytes [] = []"
| "skip_ascii_bytes (b # bs) = (if utf8_range_AsciiIsAscii b then skip_ascii_bytes bs else b # bs)"

definition utf8_range_SkipAscii :: "bytes \<Rightarrow> bytes" where
  "utf8_range_SkipAscii data = skip_ascii_bytes (skip_ascii_words data)"

definition utf8_range_Validate :: "bytes \<Rightarrow> bool \<Rightarrow> nat" where
  "utf8_range_Validate data_original return_position =
     (if length data_original = 0 then 1 - (if return_position then 1 else 0)
      else
        let data = utf8_range_SkipAscii data_original;
            skipped = length data_original - length data
        in if length data < 16
           then (if return_position then skipped else 0)
                  + utf8_range_ValidateUTF8Naive data return_position
           else (if return_position then skipped else 0)
                  + utf8_range_ValidateUTF8Naive data return_position)"

definition utf8_range_IsValid :: "bytes \<Rightarrow> bool" where
  "utf8_range_IsValid data \<longleftrightarrow> utf8_range_Validate data False \<noteq> 0"

definition utf8_range_ValidPrefix :: "bytes \<Rightarrow> nat" where
  "utf8_range_ValidPrefix data = utf8_range_Validate data True"

section \<open>The specification\<close>

text \<open>
  A Unicode scalar value is a code point up to \<open>0x10FFFF\<close> that is no surrogate, and valid UTF-8 is
  a concatenation of encodings of scalar values. The validator never decodes; the specification
  never looks at byte ranges.
\<close>

definition scalar_value :: "u32 \<Rightarrow> bool" where
  "scalar_value cp \<longleftrightarrow> cp \<le> 0x10ffff \<and> \<not> upb_Unicode_IsHigh cp \<and> \<not> upb_Unicode_IsLow cp"

definition utf8_text :: "bytes \<Rightarrow> bool" where
  "utf8_text data \<longleftrightarrow>
     (\<exists>cps. list_all scalar_value cps \<and> data = concat (map upb_Unicode_ToUTF8 cps))"

section \<open>Encodings as numbers\<close>

lemma mask_6 [simp]: "(mask 6 :: 'a::len word) = 63"
  by (simp add: mask_eq_exp_minus_1)

lemma unat_and_63: "unat ((w :: 'a::len word) AND 63) = unat w mod 64"
  using unat_and_mask [of w 6] by simp

lemma unat_byte_of: "unat (w :: u32) < 256 \<Longrightarrow> unat (ucast w :: u8) = unat w"
  by (simp add: unsigned_ucast_eq take_bit_nat_eq_self)

lemma unat_trail: "unat (ucast ((w AND 63) OR 128 :: u32) :: u8) = 128 + unat w mod 64"
proof -
  have "(128 :: u32) = push_bit 6 2" by simp
  then have "unat ((w AND 63) OR 128 :: u32) = 128 + unat w mod 64"
    using unat_or_high [of "w AND 63" 6 2] by (simp add: unat_and_63)
  then show ?thesis by (simp add: unat_byte_of)
qed

lemma unat_lead:
  assumes "c = push_bit k y" and "unat (w :: u32) < 2 ^ k" and "unat y * 2 ^ k + 2 ^ k \<le> 256"
  shows "unat (ucast (w OR c) :: u8) = unat y * 2 ^ k + unat w"
proof -
  have "unat y * 2 ^ k + unat w < 256" using assms(2,3) by linarith
  then show ?thesis using assms unat_or_high [of w k y] by (simp add: unat_byte_of)
qed

fun utf8_nat :: "nat \<Rightarrow> nat list" where
  "utf8_nat n =
     (if n < 0x80 then [n]
      else if n < 0x800 then [192 + n div 64, 128 + n mod 64]
      else if n < 0x10000 then [224 + n div 4096, 128 + n div 64 mod 64, 128 + n mod 64]
      else if n < 0x110000
      then [240 + n div 262144, 128 + n div 4096 mod 64, 128 + n div 64 mod 64, 128 + n mod 64]
      else [])"

lemma ToUTF8_nat: "map unat (upb_Unicode_ToUTF8 cp) = utf8_nat (unat cp)"
proof -
  let ?n = "unat cp"
  have lead2: "unat (ucast (drop_bit 6 cp OR 0xc0) :: u8) = 192 + ?n div 64" if "?n < 0x800"
    using that unat_lead [of "0xc0" 6 3 "drop_bit 6 cp"] by (simp add: unat_drop_bit)
  have lead3: "unat (ucast (drop_bit 12 cp OR 0xe0) :: u8) = 224 + ?n div 4096" if "?n < 0x10000"
    using that unat_lead [of "0xe0" 4 14 "drop_bit 12 cp"] by (simp add: unat_drop_bit)
  have lead4: "unat (ucast (drop_bit 18 cp OR 0xf0) :: u8) = 240 + ?n div 262144" if "?n < 0x110000"
    using that unat_lead [of "0xf0" 3 30 "drop_bit 18 cp"] by (simp add: unat_drop_bit)
  show ?thesis
    by (simp add: upb_Unicode_ToUTF8_def word_le_nat_alt unat_byte_of lead2 lead3 lead4 unat_trail
        unat_drop_bit)
qed

lemma scalar_value_nat:
  "scalar_value cp \<longleftrightarrow> unat cp < 0xd800 \<or> 0xdfff < unat cp \<and> unat cp < 0x110000"
  by (auto simp: scalar_value_def upb_Unicode_IsHigh_def upb_Unicode_IsLow_def word_le_nat_alt)

lemma mod_256_signed:
  assumes "- 128 \<le> s" and "s < 128"
  shows "(s :: int) mod 256 = (if s < 0 then s + 256 else s)"
proof (cases "s < 0")
  case True
  have "s mod 256 = (s + 256) mod 256" by simp
  also have "\<dots> = s + 256" using assms True by (intro mod_pos_pos_trivial) auto
  finally show ?thesis using True by simp
qed (use assms in simp)

lemma trail_ok_nat: "utf8_range_IsTrailByteOk c \<longleftrightarrow> 128 \<le> unat c \<and> unat c < 192"
proof -
  obtain s where s: "sint c = s" by blast
  obtain n where n: "unat c = n" by blast
  have "int n = s mod 256" using unat_sint_mod [of c] unfolding n s by simp
  moreover have r: "- 128 \<le> s" "s < 128"
    using sint_greater_eq [of c] sint_less [of c] unfolding s by simp_all
  ultimately have "int n = (if s < 0 then s + 256 else s)" by (simp only: mod_256_signed [OF r])
  then have "s \<le> - 65 \<longleftrightarrow> 128 \<le> n \<and> n < 192" using r by (auto split: if_splits)
  then show ?thesis unfolding utf8_range_IsTrailByteOk_def n s by simp
qed

lemmas byte_range_nat = word_le_nat_alt word_less_nat_alt trail_ok_nat utf8_range_AsciiIsAscii_def
  word_unat_eq_iff

lemma digit_64: "(z::nat) < 64 \<Longrightarrow> (64 * q + z) div 64 = q \<and> (64 * q + z) mod 64 = z"
  by auto

lemma utf8_nat_2:
  assumes "194 \<le> a" "a \<le> 223" "128 \<le> b" "b < 192"
  shows "utf8_nat ((a - 192) * 64 + (b - 128)) = [a, b]"
proof -
  define x y where "x = a - 192" and "y = b - 128"
  with assms have e: "a = 192 + x" "b = 128 + y" and r: "2 \<le> x" "x < 32" "y < 64" by auto
  then show ?thesis using digit_64 [OF r(3), of x] by (simp add: algebra_simps)
qed

lemma utf8_nat_3:
  assumes "224 \<le> a" "a \<le> 239" "128 \<le> b" "b < 192" "128 \<le> c" "c < 192" "a = 224 \<longrightarrow> 160 \<le> b"
  shows "utf8_nat ((a - 224) * 4096 + (b - 128) * 64 + (c - 128)) = [a, b, c]"
proof -
  from assms obtain x y z where e: "a = 224 + x" "b = 128 + y" "c = 128 + z"
    by (meson nat_le_iff_add)
  with assms have r: "x < 16" "y < 64" "z < 64" "x = 0 \<longrightarrow> 32 \<le> y" by auto
  let ?m = "x * 4096 + y * 64 + z"
  have "?m = 64 * (x * 64 + y) + z" by simp
  then have "?m div 64 = x * 64 + y" "?m mod 64 = z" using digit_64 [OF r(3)] by metis+
  moreover have "?m div 4096 = x" using r by (auto intro!: div_nat_eqI)
  moreover have "0x800 \<le> ?m" "?m < 0x10000" using r by (cases "x = 0"; simp)+
  ultimately show ?thesis using r e by simp
qed

lemma utf8_nat_4:
  assumes "240 \<le> a" "a \<le> 244" "128 \<le> b" "b < 192" "128 \<le> c" "c < 192" "128 \<le> d" "d < 192"
    "a = 240 \<longrightarrow> 144 \<le> b" "a = 244 \<longrightarrow> b \<le> 143"
  shows "utf8_nat ((a - 240) * 262144 + (b - 128) * 4096 + (c - 128) * 64 + (d - 128)) = [a, b, c, d]
     \<and> 0x10000 \<le> (a - 240) * 262144 + (b - 128) * 4096 + (c - 128) * 64 + (d - 128)
     \<and> (a - 240) * 262144 + (b - 128) * 4096 + (c - 128) * 64 + (d - 128) < 0x110000"
proof -
  from assms obtain x y z w where e: "a = 240 + x" "b = 128 + y" "c = 128 + z" "d = 128 + w"
    by (meson nat_le_iff_add)
  with assms have r: "x < 5" "y < 64" "z < 64" "w < 64" "x = 0 \<longrightarrow> 16 \<le> y" "x = 4 \<longrightarrow> y \<le> 15" by auto
  let ?m = "x * 262144 + y * 4096 + z * 64 + w"
  have "?m = 64 * (x * 4096 + y * 64 + z) + w" by simp
  then have "?m div 64 = x * 4096 + y * 64 + z" "?m mod 64 = w" using digit_64 [OF r(4)] by metis+
  moreover have "x * 4096 + y * 64 + z = 64 * (x * 64 + y) + z" by simp
  then have "(x * 4096 + y * 64 + z) mod 64 = z" using digit_64 [OF r(3)] by metis
  moreover have "?m div 262144 = x" "?m div 4096 = x * 64 + y" using r by (auto intro!: div_nat_eqI)
  moreover have "0x10000 \<le> ?m" "?m < 0x110000" using r by (cases "x = 0"; simp; fail | cases "x = 4"; simp)+
  ultimately show ?thesis using r e by simp
qed

declare utf8_nat.simps [simp del]

text \<open>A list of bytes that spells the numbers of an encoding is the encoding of a scalar value.\<close>

lemma encoding_of_nat:
  assumes "map unat xs = utf8_nat m" and "m < 0xd800 \<or> 0xdfff < m \<and> m < 0x110000"
  shows "\<exists>cp. scalar_value cp \<and> xs = upb_Unicode_ToUTF8 cp"
proof (intro exI conjI)
  have m: "unat (of_nat m :: u32) = m" using assms(2) by (auto simp: unsigned_of_nat take_bit_nat_eq_self)
  then show "scalar_value (of_nat m)" using assms(2) by (auto simp: scalar_value_nat)
  show "xs = upb_Unicode_ToUTF8 (of_nat m)"
    by (rule map_unat_inj) (simp only: ToUTF8_nat m assms(1))
qed

lemma codepoint_sound:
  assumes "utf8_naive_codepoint data = Some n" and "data \<noteq> []"
  shows "n \<le> length data \<and> (\<exists>cp. scalar_value cp \<and> take n data = upb_Unicode_ToUTF8 cp)"
proof -
  from assms(1) consider
      (1) "n = 1" "unat (data ! 0) < 128"
    | (2) "n = 2" "2 \<le> length data" "194 \<le> unat (data ! 0)" "unat (data ! 0) \<le> 223"
          "128 \<le> unat (data ! 1)" "unat (data ! 1) < 192"
    | (3) "n = 3" "3 \<le> length data" "224 \<le> unat (data ! 0)" "unat (data ! 0) \<le> 239"
          "128 \<le> unat (data ! 1)" "unat (data ! 1) < 192" "128 \<le> unat (data ! 2)" "unat (data ! 2) < 192"
          "unat (data ! 0) = 224 \<longrightarrow> 160 \<le> unat (data ! 1)" "unat (data ! 0) = 237 \<longrightarrow> unat (data ! 1) \<le> 159"
    | (4) "n = 4" "4 \<le> length data" "240 \<le> unat (data ! 0)" "unat (data ! 0) \<le> 244"
          "128 \<le> unat (data ! 1)" "unat (data ! 1) < 192" "128 \<le> unat (data ! 2)" "unat (data ! 2) < 192"
          "128 \<le> unat (data ! 3)" "unat (data ! 3) < 192"
          "unat (data ! 0) = 240 \<longrightarrow> 144 \<le> unat (data ! 1)" "unat (data ! 0) = 244 \<longrightarrow> unat (data ! 1) \<le> 143"
    by (auto simp: utf8_naive_codepoint_def Let_def byte_range_nat split: if_splits)
  then show ?thesis
  proof cases
    case 1
    with assms(2) obtain b bs where "data = b # bs" by (cases data) auto
    with 1 show ?thesis by (auto intro!: encoding_of_nat [where m = "unat b"] simp: utf8_nat.simps)
  next
    case 2
    then obtain a b bs where d: "data = a # b # bs" by (auto simp: numeral_2_eq_2 Suc_le_length_iff)
    let ?m = "(unat a - 192) * 64 + (unat b - 128)"
    have "map unat [a, b] = utf8_nat ?m" using 2 d by (subst utf8_nat_2) auto
    moreover have "?m < 0xd800" using 2 d by simp
    ultimately show ?thesis using 2 d encoding_of_nat [of "[a, b]" ?m] by simp
  next
    case 3
    then obtain a b c bs where d: "data = a # b # c # bs" by (auto simp: numeral_3_eq_3 Suc_le_length_iff)
    let ?m = "(unat a - 224) * 4096 + (unat b - 128) * 64 + (unat c - 128)"
    have "map unat [a, b, c] = utf8_nat ?m" using 3 d by (subst utf8_nat_3) auto
    moreover have "?m < 0xd800 \<or> 0xdfff < ?m \<and> ?m < 0x110000"
      using 3 d by (cases "unat a < 237"; cases "unat a = 237") auto
    ultimately show ?thesis using 3 d encoding_of_nat [of "[a, b, c]" ?m] by simp
  next
    case 4
    then obtain a b c e bs where d: "data = a # b # c # e # bs"
      by (auto simp: numeral_eq_Suc Suc_le_length_iff)
    let ?m = "(unat a - 240) * 262144 + (unat b - 128) * 4096 + (unat c - 128) * 64 + (unat e - 128)"
    have "utf8_nat ?m = [unat a, unat b, unat c, unat e] \<and> 0x10000 \<le> ?m \<and> ?m < 0x110000"
      using 4 d by (intro utf8_nat_4) auto
    then show ?thesis using 4 d encoding_of_nat [of "[a, b, c, e]" ?m] by simp
  qed
qed

lemma codepoint_complete:
  assumes "scalar_value cp"
  shows "utf8_naive_codepoint (upb_Unicode_ToUTF8 cp @ rest) = Some (length (upb_Unicode_ToUTF8 cp))
     \<and> upb_Unicode_ToUTF8 cp \<noteq> []"
proof -
  obtain m where m: "unat cp = m" by blast
  note nat = ToUTF8_nat [of cp, unfolded m]
  note sv = assms [unfolded scalar_value_nat m]
  consider "m < 0x80" | "0x80 \<le> m" "m < 0x800" | "0x800 \<le> m" "m < 0x10000" | "0x10000 \<le> m" "m < 0x110000"
    using sv by linarith
  then show ?thesis
  proof cases
    case 1
    with nat obtain a where "upb_Unicode_ToUTF8 cp = [a]" "unat a = m"
      by (auto simp: utf8_nat.simps map_eq_Cons_conv)
    with 1 show ?thesis by (simp add: utf8_naive_codepoint_def byte_range_nat)
  next
    case 2
    then have "utf8_nat m = [192 + m div 64, 128 + m mod 64]" by (simp add: utf8_nat.simps)
    with nat obtain a b where "upb_Unicode_ToUTF8 cp = [a, b]" "unat a = 192 + m div 64" "unat b = 128 + m mod 64"
      by (auto simp: map_eq_Cons_conv)
    moreover have "2 \<le> m div 64" "m div 64 < 32" using 2 by (auto simp: less_eq_div_iff_mult_less_eq)
    ultimately show ?thesis by (simp add: utf8_naive_codepoint_def byte_range_nat)
  next
    case 3
    define q where "q = m div 64"
    define x y where xy: "x = q div 64" "y = q mod 64"
    from 3 have "utf8_nat m = [224 + x, 128 + y, 128 + m mod 64]"
      by (simp add: utf8_nat.simps xy q_def flip: div_mult2_eq)
    with nat obtain a b c where e: "upb_Unicode_ToUTF8 cp = [a, b, c]" "unat a = 224 + x"
      "unat b = 128 + y" "unat c = 128 + m mod 64"
      by (auto simp: map_eq_Cons_conv)
    have q: "32 \<le> q" "q < 1024" "q < 864 \<or> 896 \<le> q"
      using 3 sv by (auto simp: q_def less_eq_div_iff_mult_less_eq div_less_iff_less_mult)
    have "q = 64 * x + y" "y < 64" by (simp_all add: xy)
    with q have "x < 16" "x = 0 \<Longrightarrow> 32 \<le> y" "x = 13 \<Longrightarrow> y < 32" "y < 64" by auto
    with e show ?thesis by (auto simp add: utf8_naive_codepoint_def byte_range_nat Let_def)
  next
    case 4
    define q where "q = m div 4096"
    define x y where xy: "x = q div 64" "y = q mod 64"
    from 4 have "utf8_nat m = [240 + x, 128 + y, 128 + m div 64 mod 64, 128 + m mod 64]"
      by (simp add: utf8_nat.simps xy q_def flip: div_mult2_eq)
    with nat obtain a b c d where e: "upb_Unicode_ToUTF8 cp = [a, b, c, d]" "unat a = 240 + x"
      "unat b = 128 + y" "unat c = 128 + m div 64 mod 64" "unat d = 128 + m mod 64"
      by (auto simp: map_eq_Cons_conv)
    have q: "16 \<le> q" "q < 272"
      using 4 by (auto simp: q_def less_eq_div_iff_mult_less_eq div_less_iff_less_mult)
    have "q = 64 * x + y" "y < 64" by (simp_all add: xy)
    with q have "x < 5" "1 \<le> x \<or> 16 \<le> y" "x \<le> 3 \<or> y < 16" "y < 64" by auto
    with e show ?thesis by (auto simp add: utf8_naive_codepoint_def byte_range_nat Let_def)
  qed
qed

section \<open>The byte loop\<close>

lemma utf8_text_Nil [simp]: "utf8_text []"
  unfolding utf8_text_def by (rule exI [of _ "[]"]) simp

lemma utf8_text_step:
  assumes "data \<noteq> []"
  shows "utf8_text data \<longleftrightarrow>
    (case utf8_naive_codepoint data of None \<Rightarrow> False | Some n \<Rightarrow> n \<le> length data \<and> utf8_text (drop n data))"
proof (cases "utf8_text data")
  case True
  then obtain cps where cps: "list_all scalar_value cps" "data = concat (map upb_Unicode_ToUTF8 cps)"
    unfolding utf8_text_def by blast
  with assms obtain c cs where "cps = c # cs" by (cases cps) auto
  moreover from this cps have "utf8_text (concat (map upb_Unicode_ToUTF8 cs))" by (auto simp: utf8_text_def)
  ultimately show ?thesis using True cps codepoint_complete [of c] by simp
next
  case False
  have "\<not> utf8_text (drop n data)" if "utf8_naive_codepoint data = Some n" for n
  proof
    assume "utf8_text (drop n data)"
    then obtain cps where cps: "list_all scalar_value cps" "drop n data = concat (map upb_Unicode_ToUTF8 cps)"
      unfolding utf8_text_def by blast
    from codepoint_sound [OF that assms] obtain c where "scalar_value c" "take n data = upb_Unicode_ToUTF8 c"
      by blast
    with cps have "list_all scalar_value (c # cps)" "data = concat (map upb_Unicode_ToUTF8 (c # cps))"
      using append_take_drop_id [of n data] by (simp_all del: append_take_drop_id)
    with False show False unfolding utf8_text_def by blast
  qed
  with False show ?thesis by (auto split: option.splits)
qed

lemma codepoint_length: "utf8_naive_codepoint data = Some n \<Longrightarrow> data \<noteq> [] \<Longrightarrow> n \<le> length data"
  using codepoint_sound by blast

lemma naive_loop_valid:
  "c \<le> length data \<Longrightarrow> utf8_naive_loop data False e c = (if utf8_text (drop c data) then e + 1 else e)"
proof (induction data "False" e c rule: utf8_naive_loop.induct)
  case (1 data e c)
  show ?case
  proof (cases "c < length data")
    case True
    then have ne: "drop c data \<noteq> []" by simp
    show ?thesis
    proof (cases "utf8_naive_codepoint (drop c data)")
      case None
      with True ne show ?thesis by (subst utf8_naive_loop.simps) (simp add: utf8_text_step Let_def)
    next
      case (Some n)
      with True ne 1(1) [OF True refl refl Some] codepoint_length [OF Some ne] utf8_text_step [OF ne]
      show ?thesis by (subst utf8_naive_loop.simps) (simp add: Let_def)
    qed
  qed (use 1 in \<open>subst utf8_naive_loop.simps, simp\<close>)
qed

text \<open>The longest valid prefix of a byte string.\<close>

definition longest_prefix :: "bytes \<Rightarrow> nat \<Rightarrow> bool" where
  "longest_prefix data n \<longleftrightarrow> n \<le> length data \<and> utf8_text (take n data)
     \<and> (\<forall>k \<le> length data. utf8_text (take k data) \<longrightarrow> k \<le> n)"

lemma longest_prefix_Nil [simp]: "longest_prefix [] n \<longleftrightarrow> n = 0"
  by (auto simp: longest_prefix_def)

text \<open>A prefix that ends inside or after the first code point is looked at through that code point.\<close>

lemma prefix_text_step:
  assumes "data \<noteq> []" and "0 < k" and "k \<le> length data"
  shows "utf8_text (take k data) \<longleftrightarrow>
    (\<exists>n. utf8_naive_codepoint data = Some n \<and> n \<le> k \<and> utf8_text (take (k - n) (drop n data)))"
proof
  assume "utf8_text (take k data)"
  then obtain cps where cps: "list_all scalar_value cps" "take k data = concat (map upb_Unicode_ToUTF8 cps)"
    unfolding utf8_text_def by blast
  moreover have "take k data \<noteq> []" using assms by simp
  ultimately obtain c cs where c: "cps = c # cs" by (cases cps) auto
  let ?u = "upb_Unicode_ToUTF8 c"
  have data: "data = ?u @ concat (map upb_Unicode_ToUTF8 cs) @ drop k data"
    using append_take_drop_id [of k data] cps(2) c by simp
  have "length (take k data) = length ?u + length (concat (map upb_Unicode_ToUTF8 cs))" using cps(2) c by simp
  then have len: "length ?u \<le> k" using assms(3) by simp
  have cp: "utf8_naive_codepoint data = Some (length ?u)"
    using codepoint_complete [of c "concat (map upb_Unicode_ToUTF8 cs) @ drop k data"] cps(1) c
    by (simp flip: data)
  have "take (k - length ?u) (drop (length ?u) data) = drop (length ?u) (take k data)"
    by (simp add: drop_take)
  also have "\<dots> = concat (map upb_Unicode_ToUTF8 cs)" using cps(2) c by simp
  finally have "utf8_text (take (k - length ?u) (drop (length ?u) data))"
    using cps(1) c unfolding utf8_text_def by auto
  with cp len show "\<exists>n. utf8_naive_codepoint data = Some n \<and> n \<le> k \<and> utf8_text (take (k - n) (drop n data))"
    by blast
next
  assume "\<exists>n. utf8_naive_codepoint data = Some n \<and> n \<le> k \<and> utf8_text (take (k - n) (drop n data))"
  then obtain n where n: "utf8_naive_codepoint data = Some n" "n \<le> k" "utf8_text (take (k - n) (drop n data))"
    by blast
  from codepoint_sound [OF n(1) assms(1)] obtain c where "scalar_value c" "take n data = upb_Unicode_ToUTF8 c"
    by blast
  moreover from n(3) obtain cps where "list_all scalar_value cps"
      "take (k - n) (drop n data) = concat (map upb_Unicode_ToUTF8 cps)"
    unfolding utf8_text_def by blast
  moreover have "take k data = take n data @ take (k - n) (drop n data)"
    using n(2) by (metis le_add_diff_inverse take_add)
  ultimately show "utf8_text (take k data)"
    unfolding utf8_text_def by (intro exI [of _ "c # cps"]) simp
qed

lemma longest_prefix_None:
  assumes "data \<noteq> []" and "utf8_naive_codepoint data = None"
  shows "longest_prefix data 0"
  using assms prefix_text_step [of data] by (auto simp: longest_prefix_def)

lemma longest_prefix_Some:
  assumes "data \<noteq> []" and "utf8_naive_codepoint data = Some n" and "longest_prefix (drop n data) m"
  shows "longest_prefix data (n + m)"
proof -
  have len: "n \<le> length data" by (rule codepoint_length [OF assms(2,1)])
  have "0 < n" by (rule utf8_naive_codepoint_pos [OF assms(2)])
  with assms(2,3) len have "utf8_text (take (n + m) data)"
    by (subst prefix_text_step [OF assms(1)]) (auto simp: longest_prefix_def)
  moreover have "k \<le> n + m" if k: "k \<le> length data" "utf8_text (take k data)" for k
  proof (cases "k = 0")
    case False
    with k prefix_text_step [OF assms(1), of k] assms(2) have "utf8_text (take (k - n) (drop n data))" by auto
    moreover have "k - n \<le> length (drop n data)" using k by simp
    ultimately show ?thesis using assms(3) unfolding longest_prefix_def by fastforce
  qed simp
  ultimately show ?thesis using assms(3) len by (auto simp: longest_prefix_def)
qed

lemma naive_loop_prefix:
  "c \<le> length data \<Longrightarrow>
     \<exists>m. utf8_naive_loop data True e c = e + c + m \<and> longest_prefix (drop c data) m"
proof (induction data "True" e c rule: utf8_naive_loop.induct)
  case (1 data e c)
  show ?case
  proof (cases "c < length data")
    case True
    then have ne: "drop c data \<noteq> []" by simp
    show ?thesis
    proof (cases "utf8_naive_codepoint (drop c data)")
      case None
      with True ne longest_prefix_None [OF ne None] show ?thesis
        by (intro exI [of _ 0]) (subst utf8_naive_loop.simps, simp)
    next
      case (Some n)
      with 1(1) [OF True refl refl Some] codepoint_length [OF Some ne] obtain m
        where m: "utf8_naive_loop (drop c data) True (e + c) n = e + c + n + m"
          "longest_prefix (drop n (drop c data)) m" by auto
      from True Some m(1) longest_prefix_Some [OF ne Some m(2)] show ?thesis
        by (intro exI [of _ "n + m"]) (subst utf8_naive_loop.simps, simp add: Let_def)
    qed
  next
    case False
    with 1(2) show ?thesis by (intro exI [of _ 0]) (subst utf8_naive_loop.simps, simp)
  qed
qed

section \<open>Skipping ASCII\<close>

lemma bit_load_le:
  "i < length xs \<Longrightarrow> length xs \<le> 8 \<Longrightarrow> bit (load_le xs) (8 * i + 7) \<longleftrightarrow> bit (xs ! i) 7"
proof (induction xs arbitrary: i)
  case (Cons b bs)
  show ?case
  proof (cases i)
    case 0
    then show ?thesis by (simp add: bit_simps)
  next
    case (Suc j)
    moreover have "\<not> bit b (8 * j + 15)" by (simp add: bit_simps impossible_bit)
    ultimately show ?thesis using Cons by (simp add: bit_simps add.commute [of _ "8 * j"])
  qed
qed simp

lemma high_bits_mask: "i < 8 \<Longrightarrow> bit (0x8080808080808080 :: u64) (8 * i + 7)"
  by (simp add: less_Suc_eq numeral_eq_Suc) auto

lemma ascii_word:
  assumes "8 \<le> length data" and "utf8_range_UnalignedLoad64 data AND 0x8080808080808080 = 0"
  shows "list_all utf8_range_AsciiIsAscii (take 8 data)"
proof (unfold list_all_length, intro allI impI)
  fix i assume i: "i < length (take 8 data)"
  then have i8: "i < 8" by simp
  have "\<not> bit (utf8_range_UnalignedLoad64 data AND 0x8080808080808080) (8 * i + 7)"
    unfolding assms(2) by simp
  then have "\<not> bit (load_le (take 8 data)) (8 * i + 7)"
    using high_bits_mask [OF i8] by (simp add: bit_and_iff utf8_range_UnalignedLoad64_def)
  then have "\<not> bit (take 8 data ! i) 7" using i bit_load_le [of i "take 8 data"] by simp
  then have "take 8 data ! i AND 128 = 0" using and_exp_eq_0_iff_not_bit [of "take 8 data ! i" 7] by simp
  then show "utf8_range_AsciiIsAscii (take 8 data ! i)"
    by (simp only: byte_top_bit utf8_range_AsciiIsAscii_def word_less_nat_alt) simp
qed

lemma skip_ascii_words_split:
  "\<exists>asc. list_all utf8_range_AsciiIsAscii asc \<and> data = asc @ skip_ascii_words data"
proof (induction data rule: skip_ascii_words.induct)
  case (1 data)
  show ?case
  proof (cases "8 \<le> length data \<and> utf8_range_UnalignedLoad64 data AND 0x8080808080808080 = 0")
    case True
    with 1 obtain asc where "list_all utf8_range_AsciiIsAscii asc" "drop 8 data = asc @ skip_ascii_words (drop 8 data)"
      by blast
    moreover have "data = take 8 data @ drop 8 data" by simp
    moreover have "skip_ascii_words data = skip_ascii_words (drop 8 data)"
      using True by (subst skip_ascii_words.simps) simp
    ultimately have "data = (take 8 data @ asc) @ skip_ascii_words data" by (metis append.assoc)
    moreover have "list_all utf8_range_AsciiIsAscii (take 8 data @ asc)"
      using True ascii_word [of data] \<open>list_all utf8_range_AsciiIsAscii asc\<close> by simp
    ultimately show ?thesis by blast
  next
    case False
    then show ?thesis by (intro exI [of _ "[]"]) (subst skip_ascii_words.simps, auto)
  qed
qed

lemma skip_ascii_bytes_split:
  "\<exists>asc. list_all utf8_range_AsciiIsAscii asc \<and> data = asc @ skip_ascii_bytes data"
proof (induction data)
  case (Cons b bs)
  then show ?case by (cases "utf8_range_AsciiIsAscii b") (auto intro: exI [of _ "b # _"])
qed simp

lemma SkipAscii_split:
  "\<exists>asc. list_all utf8_range_AsciiIsAscii asc \<and> data = asc @ utf8_range_SkipAscii data"
  using skip_ascii_words_split [of data] skip_ascii_bytes_split [of "skip_ascii_words data"]
  unfolding utf8_range_SkipAscii_def by (metis append.assoc list_all_append)

lemma codepoint_ascii: "utf8_range_AsciiIsAscii b \<Longrightarrow> utf8_naive_codepoint (b # bs) = Some 1"
  by (simp add: utf8_naive_codepoint_def)

lemma utf8_text_ascii:
  "list_all utf8_range_AsciiIsAscii asc \<Longrightarrow> utf8_text (asc @ data) \<longleftrightarrow> utf8_text data"
  by (induction asc) (simp_all add: utf8_text_step codepoint_ascii)

lemma longest_prefix_ascii:
  "list_all utf8_range_AsciiIsAscii asc \<Longrightarrow> longest_prefix data m \<Longrightarrow> longest_prefix (asc @ data) (length asc + m)"
proof (induction asc)
  case (Cons b asc)
  then show ?case using longest_prefix_Some [of "b # asc @ data" 1] by (simp add: codepoint_ascii)
qed simp

lemma IsValid_text: "utf8_range_IsValid data \<longleftrightarrow> utf8_text data"
proof -
  obtain asc where asc: "list_all utf8_range_AsciiIsAscii asc" "data = asc @ utf8_range_SkipAscii data"
    using SkipAscii_split by blast
  then have "utf8_text data \<longleftrightarrow> utf8_text (utf8_range_SkipAscii data)" by (metis utf8_text_ascii)
  then show ?thesis
    by (auto simp: utf8_range_IsValid_def utf8_range_Validate_def utf8_range_ValidateUTF8Naive_def
        naive_loop_valid Let_def)
qed

lemma ValidPrefix_longest: "longest_prefix data (utf8_range_ValidPrefix data)"
proof (cases "data = []")
  case True
  then show ?thesis by (simp add: utf8_range_ValidPrefix_def utf8_range_Validate_def)
next
  case False
  let ?rest = "utf8_range_SkipAscii data"
  obtain asc where asc: "list_all utf8_range_AsciiIsAscii asc" "data = asc @ ?rest"
    using SkipAscii_split by blast
  obtain m where m: "utf8_naive_loop ?rest True 0 0 = m" "longest_prefix ?rest m"
    using naive_loop_prefix [of 0 ?rest 0] by auto
  have "length data = length asc + length ?rest" using asc(2) by (metis length_append)
  moreover have "0 < length data" using False by simp
  ultimately have "utf8_range_ValidPrefix data = length asc + m"
    using m(1) by (simp only: utf8_range_ValidPrefix_def utf8_range_Validate_def
        utf8_range_ValidateUTF8Naive_def Let_def) auto
  with longest_prefix_ascii [OF asc(1) m(2)] asc(2) show ?thesis by simp
qed

section \<open>Surrogate pairs\<close>

lemma mask_10 [simp]: "(mask 10 :: 'a::len word) = 1023"
  by (simp add: mask_eq_exp_minus_1)

lemma unat_and_1023: "unat ((w :: 'a::len word) AND 1023) = unat w mod 1024"
  using unat_and_mask [of w 10] by simp

lemma ToHigh_nat:
  assumes "0x10000 \<le> unat cp" and "unat cp < 0x110000"
  shows "unat (upb_Unicode_ToHigh cp) = unat cp div 1024 + 0xd7c0"
proof -
  have "unat cp div 1024 < 1088" using assms by (simp add: div_less_iff_less_mult)
  then show ?thesis
    by (simp add: upb_Unicode_ToHigh_def unsigned_ucast_eq unat_word_ariths unat_drop_bit take_bit_nat_eq_self)
qed

lemma ToLow_nat: "unat (upb_Unicode_ToLow cp) = unat cp mod 1024 + 0xdc00"
proof -
  have "unat ((cp AND 0x3ff) OR push_bit 10 55) = 55 * 1024 + unat cp mod 1024"
    using unat_or_high [of "cp AND 0x3ff" 10 55] by (simp add: unat_and_1023)
  then have "unat ((cp AND 0x3ff) OR 0xdc00) = unat cp mod 1024 + 0xdc00" by simp
  moreover have "unat cp mod 1024 < 1024" by simp
  then have "unat cp mod 1024 + 0xdc00 < 2 ^ 16" by simp
  ultimately show ?thesis
    by (simp only: upb_Unicode_ToLow_def unsigned_ucast_eq) (simp add: take_bit_nat_eq_self)
qed

lemma FromPair_nat:
  "unat (upb_Unicode_FromPair h l) = unat h mod 1024 * 1024 + unat l mod 1024 + 0x10000"
proof -
  have r: "unat h mod 1024 < 1024" "unat l mod 1024 < 1024" by simp_all
  have "upb_Unicode_FromPair h l = of_nat (unat h mod 1024 * 1024 + unat l mod 1024 + 0x10000)"
    unfolding upb_Unicode_FromPair_def push_bit_as_mult
    by (simp add: word_unat_eq_iff flip: unat_and_1023)
  then show ?thesis using r by (simp only: unsigned_of_nat) (simp add: take_bit_nat_eq_self)
qed

section \<open>Properties\<close>

text \<open>
  C8. The string validator accepts exactly the well-formed UTF-8 texts: \<^verbatim>\<open>utf8_range_IsValid\<close>, with
  its eight-bytes-at-a-time skipping of ASCII and its table of byte ranges, returns true on a byte
  string if and only if that string is a concatenation of encodings, as \<^verbatim>\<open>upb_Unicode_ToUTF8\<close>
  writes them, of code points up to \<open>0x10FFFF\<close> that are no surrogates. In particular overlong forms,
  surrogates, truncated sequences and stray trail bytes are all rejected.
\<close>

theorem utf8_IsValid_correct:
  "utf8_range_IsValid data \<longleftrightarrow>
     (\<exists>cps. list_all scalar_value cps \<and> data = concat (map upb_Unicode_ToUTF8 cps))"
  using IsValid_text unfolding utf8_text_def .

text \<open>
  C21. \<^verbatim>\<open>utf8_range_ValidPrefix\<close> returns the length of the longest prefix that is well-formed UTF-8,
  never more than the length of its input.
\<close>

theorem utf8_ValidPrefix_longest:
  "utf8_range_ValidPrefix data = Max {k. k \<le> length data \<and> utf8_text (take k data)}"
proof (rule sym, rule Max_eqI)
  show "finite {k. k \<le> length data \<and> utf8_text (take k data)}" by simp
qed (use ValidPrefix_longest [of data] in \<open>auto simp: longest_prefix_def\<close>)

text \<open>
  Surrogate pairs round trip: splitting a supplementary code point with \<^verbatim>\<open>upb_Unicode_ToHigh\<close>
  and \<^verbatim>\<open>upb_Unicode_ToLow\<close> gives a high and a low surrogate, from which \<^verbatim>\<open>upb_Unicode_FromPair\<close>
  recovers the code point.
\<close>

theorem surrogate_roundtrip:
  assumes "0x10000 \<le> cp" and "cp \<le> 0x10ffff"
  shows "upb_Unicode_IsHigh (ucast (upb_Unicode_ToHigh cp))
    \<and> upb_Unicode_IsLow (ucast (upb_Unicode_ToLow cp))
    \<and> upb_Unicode_FromPair (ucast (upb_Unicode_ToHigh cp)) (ucast (upb_Unicode_ToLow cp)) = cp"
proof -
  define q r where qr: "q = unat cp div 1024" "r = unat cp mod 1024"
  have cp: "0x10000 \<le> unat cp" "unat cp < 0x110000" using assms by (simp_all add: word_le_nat_alt)
  have m: "unat cp = q * 1024 + r" and r: "r < 1024" by (simp_all add: qr)
  have q: "64 \<le> q" "q < 1088" using cp m r by linarith+
  have h: "unat (upb_Unicode_ToHigh cp) = q + 0xd7c0" using ToHigh_nat [OF cp] by (simp add: qr)
  have l: "unat (upb_Unicode_ToLow cp) = r + 0xdc00" by (simp add: ToLow_nat qr)
  have "q + 0xd7c0 = (q - 64) + 54 * 1024" "r + 0xdc00 = r + 55 * 1024" using q by simp_all
  then have "(q + 0xd7c0) mod 1024 = q - 64" "(r + 0xdc00) mod 1024 = r"
    using q r by (simp_all only: mod_mult_self1) simp_all
  with q r m have "unat (upb_Unicode_FromPair (ucast (upb_Unicode_ToHigh cp)) (ucast (upb_Unicode_ToLow cp))) = unat cp"
    by (simp add: FromPair_nat h l)
  then show ?thesis using q r h l
    by (simp add: upb_Unicode_IsHigh_def upb_Unicode_IsLow_def word_le_nat_alt word_unat_eq_iff)
qed

end
