(* ===== verification/Mini_Table.thy ===== *)
theory Mini_Table
  imports Upb_Prelude
begin

unbundle bit_operations_syntax

text \<open>
  The mini tables of \<^verbatim>\<open>upb/mini_table\<close>: the description of a message type (field numbers, storage
  offsets, presence, representation) that the wire decoder and encoder interpret. The theory has
  the records of \<^verbatim>\<open>internal/field.h\<close>, \<^verbatim>\<open>internal/message.h\<close>, \<^verbatim>\<open>internal/enum.h\<close> and \<^verbatim>\<open>internal/sub.h\<close>,
  their accessors, the field lookup and oneof iteration of \<^verbatim>\<open>message.c\<close>, and the well-formedness
  of a table that these rely on. Sizes are those of the 64-bit platforms the pod is built for
  (\<^verbatim>\<open>UPB_SIZE(a, b)\<close> is \<open>b\<close>). A pointer to a field is its index in the field array, a pointer to a
  message table is an index in a list of tables.
\<close>

section \<open>Definitions\<close>

subsection \<open>Field types\<close>

datatype upb_CType =
    kUpb_CType_Bool | kUpb_CType_Float | kUpb_CType_Int32 | kUpb_CType_UInt32 | kUpb_CType_Enum
  | kUpb_CType_Message | kUpb_CType_Double | kUpb_CType_Int64 | kUpb_CType_UInt64
  | kUpb_CType_String | kUpb_CType_Bytes

datatype upb_FieldType =
    kUpb_FieldType_Double | kUpb_FieldType_Float | kUpb_FieldType_Int64 | kUpb_FieldType_UInt64
  | kUpb_FieldType_Int32 | kUpb_FieldType_Fixed64 | kUpb_FieldType_Fixed32 | kUpb_FieldType_Bool
  | kUpb_FieldType_String | kUpb_FieldType_Group | kUpb_FieldType_Message | kUpb_FieldType_Bytes
  | kUpb_FieldType_UInt32 | kUpb_FieldType_Enum | kUpb_FieldType_SFixed32 | kUpb_FieldType_SFixed64
  | kUpb_FieldType_SInt32 | kUpb_FieldType_SInt64

fun upb_FieldType_CType :: "upb_FieldType \<Rightarrow> upb_CType" where
  "upb_FieldType_CType kUpb_FieldType_Double = kUpb_CType_Double"
| "upb_FieldType_CType kUpb_FieldType_Float = kUpb_CType_Float"
| "upb_FieldType_CType kUpb_FieldType_Int64 = kUpb_CType_Int64"
| "upb_FieldType_CType kUpb_FieldType_UInt64 = kUpb_CType_UInt64"
| "upb_FieldType_CType kUpb_FieldType_Int32 = kUpb_CType_Int32"
| "upb_FieldType_CType kUpb_FieldType_Fixed64 = kUpb_CType_UInt64"
| "upb_FieldType_CType kUpb_FieldType_Fixed32 = kUpb_CType_UInt32"
| "upb_FieldType_CType kUpb_FieldType_Bool = kUpb_CType_Bool"
| "upb_FieldType_CType kUpb_FieldType_String = kUpb_CType_String"
| "upb_FieldType_CType kUpb_FieldType_Group = kUpb_CType_Message"
| "upb_FieldType_CType kUpb_FieldType_Message = kUpb_CType_Message"
| "upb_FieldType_CType kUpb_FieldType_Bytes = kUpb_CType_Bytes"
| "upb_FieldType_CType kUpb_FieldType_UInt32 = kUpb_CType_UInt32"
| "upb_FieldType_CType kUpb_FieldType_Enum = kUpb_CType_Enum"
| "upb_FieldType_CType kUpb_FieldType_SFixed32 = kUpb_CType_Int32"
| "upb_FieldType_CType kUpb_FieldType_SFixed64 = kUpb_CType_Int64"
| "upb_FieldType_CType kUpb_FieldType_SInt32 = kUpb_CType_Int32"
| "upb_FieldType_CType kUpb_FieldType_SInt64 = kUpb_CType_Int64"

fun upb_FieldType_SizeLg2 :: "upb_FieldType \<Rightarrow> nat" where
  "upb_FieldType_SizeLg2 kUpb_FieldType_Double = 3"
| "upb_FieldType_SizeLg2 kUpb_FieldType_Float = 2"
| "upb_FieldType_SizeLg2 kUpb_FieldType_Int64 = 3"
| "upb_FieldType_SizeLg2 kUpb_FieldType_UInt64 = 3"
| "upb_FieldType_SizeLg2 kUpb_FieldType_Int32 = 2"
| "upb_FieldType_SizeLg2 kUpb_FieldType_Fixed64 = 3"
| "upb_FieldType_SizeLg2 kUpb_FieldType_Fixed32 = 2"
| "upb_FieldType_SizeLg2 kUpb_FieldType_Bool = 0"
| "upb_FieldType_SizeLg2 kUpb_FieldType_String = 4"
| "upb_FieldType_SizeLg2 kUpb_FieldType_Group = 3"
| "upb_FieldType_SizeLg2 kUpb_FieldType_Message = 3"
| "upb_FieldType_SizeLg2 kUpb_FieldType_Bytes = 4"
| "upb_FieldType_SizeLg2 kUpb_FieldType_UInt32 = 2"
| "upb_FieldType_SizeLg2 kUpb_FieldType_Enum = 2"
| "upb_FieldType_SizeLg2 kUpb_FieldType_SFixed32 = 2"
| "upb_FieldType_SizeLg2 kUpb_FieldType_SFixed64 = 3"
| "upb_FieldType_SizeLg2 kUpb_FieldType_SInt32 = 2"
| "upb_FieldType_SizeLg2 kUpb_FieldType_SInt64 = 3"

fun upb_CType_SizeLg2 :: "upb_CType \<Rightarrow> nat" where
  "upb_CType_SizeLg2 kUpb_CType_Bool = 0"
| "upb_CType_SizeLg2 kUpb_CType_Float = 2"
| "upb_CType_SizeLg2 kUpb_CType_Int32 = 2"
| "upb_CType_SizeLg2 kUpb_CType_UInt32 = 2"
| "upb_CType_SizeLg2 kUpb_CType_Enum = 2"
| "upb_CType_SizeLg2 kUpb_CType_Message = 3"
| "upb_CType_SizeLg2 kUpb_CType_Double = 3"
| "upb_CType_SizeLg2 kUpb_CType_Int64 = 3"
| "upb_CType_SizeLg2 kUpb_CType_UInt64 = 3"
| "upb_CType_SizeLg2 kUpb_CType_String = 4"
| "upb_CType_SizeLg2 kUpb_CType_Bytes = 4"

text \<open>\<^verbatim>\<open>(1 << field_type) & ~kUnpackableTypes\<close>.\<close>

definition upb_FieldType_IsPackable :: "upb_FieldType \<Rightarrow> bool" where
  "upb_FieldType_IsPackable t \<longleftrightarrow>
     t \<noteq> kUpb_FieldType_String \<and> t \<noteq> kUpb_FieldType_Bytes \<and> t \<noteq> kUpb_FieldType_Message \<and> t \<noteq> kUpb_FieldType_Group"

subsection \<open>Fields\<close>

record upb_MiniTableField =
  number :: nat
  offset :: nat
  presence :: int
  submsg_index :: nat
  descriptortype :: upb_FieldType
  mode :: u8

abbreviation (input) kUpb_NoSub :: nat where "kUpb_NoSub \<equiv> 65535"

abbreviation (input) kUpb_FieldMode_Map :: u8 where "kUpb_FieldMode_Map \<equiv> 0"
abbreviation (input) kUpb_FieldMode_Array :: u8 where "kUpb_FieldMode_Array \<equiv> 1"
abbreviation (input) kUpb_FieldMode_Scalar :: u8 where "kUpb_FieldMode_Scalar \<equiv> 2"
abbreviation (input) kUpb_FieldMode_Mask :: u8 where "kUpb_FieldMode_Mask \<equiv> 3"

abbreviation (input) kUpb_LabelFlags_IsPacked :: u8 where "kUpb_LabelFlags_IsPacked \<equiv> 4"
abbreviation (input) kUpb_LabelFlags_IsExtension :: u8 where "kUpb_LabelFlags_IsExtension \<equiv> 8"
abbreviation (input) kUpb_LabelFlags_IsAlternate :: u8 where "kUpb_LabelFlags_IsAlternate \<equiv> 16"

abbreviation (input) kUpb_FieldRep_1Byte :: u8 where "kUpb_FieldRep_1Byte \<equiv> 0"
abbreviation (input) kUpb_FieldRep_4Byte :: u8 where "kUpb_FieldRep_4Byte \<equiv> 1"
abbreviation (input) kUpb_FieldRep_StringView :: u8 where "kUpb_FieldRep_StringView \<equiv> 2"
abbreviation (input) kUpb_FieldRep_8Byte :: u8 where "kUpb_FieldRep_8Byte \<equiv> 3"
abbreviation (input) kUpb_FieldRep_NativePointer :: u8 where "kUpb_FieldRep_NativePointer \<equiv> 3"
abbreviation (input) kUpb_FieldRep_Shift :: nat where "kUpb_FieldRep_Shift \<equiv> 6"

definition upb_MiniTableField_Mode :: "upb_MiniTableField \<Rightarrow> u8" where
  "upb_MiniTableField_Mode f = mode f AND kUpb_FieldMode_Mask"

definition upb_MiniTableField_GetRep :: "upb_MiniTableField \<Rightarrow> u8" where
  "upb_MiniTableField_GetRep f = drop_bit kUpb_FieldRep_Shift (mode f)"

definition upb_MiniTableField_IsArray :: "upb_MiniTableField \<Rightarrow> bool" where
  "upb_MiniTableField_IsArray f \<longleftrightarrow> upb_MiniTableField_Mode f = kUpb_FieldMode_Array"

definition upb_MiniTableField_IsMap :: "upb_MiniTableField \<Rightarrow> bool" where
  "upb_MiniTableField_IsMap f \<longleftrightarrow> upb_MiniTableField_Mode f = kUpb_FieldMode_Map"

definition upb_MiniTableField_IsScalar :: "upb_MiniTableField \<Rightarrow> bool" where
  "upb_MiniTableField_IsScalar f \<longleftrightarrow> upb_MiniTableField_Mode f = kUpb_FieldMode_Scalar"

definition upb_MiniTableField_IsAlternate :: "upb_MiniTableField \<Rightarrow> bool" where
  "upb_MiniTableField_IsAlternate f \<longleftrightarrow> mode f AND kUpb_LabelFlags_IsAlternate \<noteq> 0"

definition upb_MiniTableField_IsExtension :: "upb_MiniTableField \<Rightarrow> bool" where
  "upb_MiniTableField_IsExtension f \<longleftrightarrow> mode f AND kUpb_LabelFlags_IsExtension \<noteq> 0"

definition upb_MiniTableField_IsPacked :: "upb_MiniTableField \<Rightarrow> bool" where
  "upb_MiniTableField_IsPacked f \<longleftrightarrow> mode f AND kUpb_LabelFlags_IsPacked \<noteq> 0"

definition upb_MiniTableField_Type :: "upb_MiniTableField \<Rightarrow> (unit, upb_FieldType) res" where
  "upb_MiniTableField_Type f =
     (let type = descriptortype f in
      if upb_MiniTableField_IsAlternate f then
        if type = kUpb_FieldType_Int32 then Ret kUpb_FieldType_Enum
        else if type = kUpb_FieldType_Bytes then Ret kUpb_FieldType_String
        else Fault
      else Ret type)"

definition upb_MiniTableField_CType :: "upb_MiniTableField \<Rightarrow> (unit, upb_CType) res" where
  "upb_MiniTableField_CType f = bindR (upb_MiniTableField_Type f) (\<lambda>t. Ret (upb_FieldType_CType t))"

definition upb_MiniTableField_HasHasbit :: "upb_MiniTableField \<Rightarrow> bool" where
  "upb_MiniTableField_HasHasbit f \<longleftrightarrow> presence f > 0"

definition upb_MiniTableField_HasbitMask :: "upb_MiniTableField \<Rightarrow> (unit, u8) res" where
  "upb_MiniTableField_HasbitMask f =
     (if upb_MiniTableField_HasHasbit f then Ret (push_bit (nat (presence f) mod 8) 1) else Fault)"

definition upb_MiniTableField_HasbitOffset :: "upb_MiniTableField \<Rightarrow> (unit, nat) res" where
  "upb_MiniTableField_HasbitOffset f =
     (if upb_MiniTableField_HasHasbit f then Ret (nat (presence f) div 8) else Fault)"

definition upb_MiniTableField_IsClosedEnum :: "upb_MiniTableField \<Rightarrow> bool" where
  "upb_MiniTableField_IsClosedEnum f \<longleftrightarrow> descriptortype f = kUpb_FieldType_Enum"

definition upb_MiniTableField_IsInOneof :: "upb_MiniTableField \<Rightarrow> bool" where
  "upb_MiniTableField_IsInOneof f \<longleftrightarrow> presence f < 0"

definition upb_MiniTableField_IsSubMessage :: "upb_MiniTableField \<Rightarrow> bool" where
  "upb_MiniTableField_IsSubMessage f \<longleftrightarrow>
     descriptortype f = kUpb_FieldType_Message \<or> descriptortype f = kUpb_FieldType_Group"

definition upb_MiniTableField_HasPresence :: "upb_MiniTableField \<Rightarrow> bool" where
  "upb_MiniTableField_HasPresence f \<longleftrightarrow>
     (if upb_MiniTableField_IsExtension f then upb_MiniTableField_IsScalar f else presence f \<noteq> 0)"

text \<open>\<^verbatim>\<open>~(ptrdiff_t)f->presence\<close>.\<close>

definition upb_MiniTableField_OneofOffset :: "upb_MiniTableField \<Rightarrow> (unit, nat) res" where
  "upb_MiniTableField_OneofOffset f =
     (if upb_MiniTableField_IsInOneof f then Ret (nat (- presence f - 1)) else Fault)"

definition upb_MiniTableField_ElemSizeLg2 :: "upb_MiniTableField \<Rightarrow> (unit, nat) res" where
  "upb_MiniTableField_ElemSizeLg2 f =
     bindR (upb_MiniTableField_Type f) (\<lambda>t. Ret (upb_FieldType_SizeLg2 t))"

subsection \<open>Enums\<close>

text \<open>The flexible array \<^verbatim>\<open>data\<close>: the bit mask, then the values.\<close>

record upb_MiniTableEnum =
  mask_limit :: nat
  value_count :: nat
  enum_data :: "u32 list"

fun enum_scan :: "u32 list \<Rightarrow> nat \<Rightarrow> nat \<Rightarrow> u32 \<Rightarrow> (unit, bool) res" where
  "enum_scan xs p 0 val = Ret False"
| "enum_scan xs p (Suc n) val =
     bindR (rd xs p) (\<lambda>x. if x = val then Ret True else enum_scan xs (p + 1) n val)"

definition upb_MiniTableEnum_CheckValue :: "upb_MiniTableEnum \<Rightarrow> u32 \<Rightarrow> (unit, bool) res" where
  "upb_MiniTableEnum_CheckValue e val =
     (if val < 64 then
        bindR (rd (enum_data e) 0) (\<lambda>d0. bindR (rd (enum_data e) 1) (\<lambda>d1.
          let mask = ucast d0 OR push_bit 32 (ucast d1) :: u64;
              bit = push_bit (unat val) 1 :: u64
          in Ret (mask AND bit \<noteq> 0)))
      else if unat val < mask_limit e then
        bindR (rd (enum_data e) (unat val div 32)) (\<lambda>mask.
          let bit = ucast (push_bit (unat val mod 32) 1 :: u64) :: u32
          in Ret (mask AND bit \<noteq> 0))
      else enum_scan (enum_data e) (mask_limit e div 32) (value_count e) val)"

subsection \<open>Message tables\<close>

text \<open>
  A reference to a message table: \<open>MtEmpty\<close> is the address of \<^verbatim>\<open>_kUpb_MiniTable_Empty\<close>, the
  placeholder of a sub-message that is not linked.
\<close>

datatype mt_ref = MtEmpty | Mt nat

datatype upb_MiniTableSub = Submsg mt_ref | Subenum upb_MiniTableEnum

datatype upb_ExtMode =
    kUpb_ExtMode_NonExtendable | kUpb_ExtMode_Extendable | kUpb_ExtMode_IsMessageSet
  | kUpb_ExtMode_IsMessageSet_ITEM | kUpb_ExtMode_IsMapEntry

record upb_MiniTable =
  subs :: "upb_MiniTableSub list"
  mt_fields :: "upb_MiniTableField list"
  mt_size :: nat
  field_count :: nat
  ext :: upb_ExtMode
  dense_below :: nat
  required_count :: nat

definition kUpb_MiniTable_Empty :: upb_MiniTable where
  "kUpb_MiniTable_Empty =
     \<lparr> subs = [], mt_fields = [], mt_size = 8, field_count = 0, ext = kUpb_ExtMode_NonExtendable,
       dense_below = 0, required_count = 0 \<rparr>"

definition upb_MiniTable_SubMessage ::
  "upb_MiniTable \<Rightarrow> upb_MiniTableField \<Rightarrow> (unit, mt_ref option) res" where
  "upb_MiniTable_SubMessage m f =
     bindR (upb_MiniTableField_CType f) (\<lambda>t.
       if t \<noteq> kUpb_CType_Message then Ret None
       else bindR (rd (subs m) (submsg_index f)) (\<lambda>s.
         case s of Submsg r \<Rightarrow> Ret (Some r) | Subenum _ \<Rightarrow> Fault))"

definition upb_MiniTable_GetSubMessageTable ::
  "upb_MiniTable \<Rightarrow> upb_MiniTableField \<Rightarrow> (unit, nat option) res" where
  "upb_MiniTable_GetSubMessageTable m f =
     bindR (upb_MiniTable_SubMessage m f) (\<lambda>r.
       case r of None \<Rightarrow> Fault | Some MtEmpty \<Rightarrow> Ret None | Some (Mt i) \<Rightarrow> Ret (Some i))"

definition upb_MiniTable_GetSubEnumTable ::
  "upb_MiniTable \<Rightarrow> upb_MiniTableField \<Rightarrow> (unit, upb_MiniTableEnum) res" where
  "upb_MiniTable_GetSubEnumTable m f =
     bindR (upb_MiniTableField_CType f) (\<lambda>t.
       if t \<noteq> kUpb_CType_Enum then Fault
       else bindR (rd (subs m) (submsg_index f)) (\<lambda>s.
         case s of Subenum e \<Rightarrow> Ret e | Submsg _ \<Rightarrow> Fault))"

definition upb_MiniTable_MapKey :: "upb_MiniTable \<Rightarrow> (unit, upb_MiniTableField) res" where
  "upb_MiniTable_MapKey m =
     (if field_count m \<noteq> 2 then Fault
      else bindR (rd (mt_fields m) 0) (\<lambda>f. if number f = 1 then Ret f else Fault))"

definition upb_MiniTable_MapValue :: "upb_MiniTable \<Rightarrow> (unit, upb_MiniTableField) res" where
  "upb_MiniTable_MapValue m =
     (if field_count m \<noteq> 2 then Fault
      else bindR (rd (mt_fields m) 1) (\<lambda>f. if number f = 2 then Ret f else Fault))"

definition upb_MiniTable_RequiredMask :: "upb_MiniTable \<Rightarrow> (unit, u64) res" where
  "upb_MiniTable_RequiredMask m =
     (let n = required_count m in
      if 0 < n \<and> n \<le> 64 then Ret (push_bit n 1 - 1) else Fault)"

text \<open>The layout of an extension field: the field, the message it extends and its sub-table.\<close>

record upb_MiniTableExtension =
  ext_field :: upb_MiniTableField
  extendee :: mt_ref
  ext_sub :: "upb_MiniTableSub option"

text \<open>Tables and fields in the order of the C initialisers.\<close>

definition mini_table_field ::
  "nat \<Rightarrow> nat \<Rightarrow> int \<Rightarrow> nat \<Rightarrow> upb_FieldType \<Rightarrow> u8 \<Rightarrow> upb_MiniTableField" where
  "mini_table_field n off p sub ty md =
     \<lparr> number = n, offset = off, presence = p, submsg_index = sub, descriptortype = ty, mode = md \<rparr>"

definition mini_table ::
  "upb_MiniTableSub list \<Rightarrow> upb_MiniTableField list \<Rightarrow> nat \<Rightarrow> nat \<Rightarrow> upb_ExtMode \<Rightarrow> nat \<Rightarrow> nat \<Rightarrow> upb_MiniTable" where
  "mini_table ss fs sz n x dense req =
     \<lparr> subs = ss, mt_fields = fs, mt_size = sz, field_count = n, ext = x, dense_below = dense,
       required_count = req \<rparr>"

subsection \<open>Finding a field\<close>

text \<open>
  The binary search of \<^verbatim>\<open>upb_MiniTable_FindFieldByNumber\<close>. \<^verbatim>\<open>dense_below\<close> is a \<^verbatim>\<open>uint8_t\<close> and
  \<^verbatim>\<open>field_count\<close> a \<^verbatim>\<open>uint16_t\<close>, so \<open>lo\<close> stays below \<open>65536\<close> and \<open>hi\<close> between \<open>-1\<close> and \<open>65534\<close>: the
  32-bit additions do not wrap, and \<open>hi\<close> is signed because \<open>mid - 1\<close> may be \<open>-1\<close>.
\<close>

function find_field_search ::
  "upb_MiniTableField list \<Rightarrow> nat \<Rightarrow> int \<Rightarrow> int \<Rightarrow> (unit, nat option) res" where
  "find_field_search base n lo hi =
     (if hi \<ge> lo then
        (let mid = (hi + lo) div 2 in
         bindR (rd base (nat mid)) (\<lambda>f.
           let num = number f; hi_mid = mid - 1; lo_mid = mid + 1 in
           if num = n then Ret (Some (nat mid))
           else if num < n then find_field_search base n lo_mid hi
           else find_field_search base n lo hi_mid))
      else Ret None)"
  by pat_completeness auto
termination
  by (relation "measure (\<lambda>(base, n, lo, hi). nat (hi - lo + 1))") auto

declare find_field_search.simps [simp del]

text \<open>\<open>number - 1\<close> is computed at the width of \<^verbatim>\<open>size_t\<close>: \<open>0\<close> wraps to \<^verbatim>\<open>SIZE_MAX\<close>.\<close>

definition upb_MiniTable_FindFieldByNumber ::
  "upb_MiniTable \<Rightarrow> nat \<Rightarrow> (unit, nat option) res" where
  "upb_MiniTable_FindFieldByNumber m n =
     (let i = (n + (2 ^ 64 - 1)) mod 2 ^ 64 in
      if i < dense_below m then
        bindR (rd (mt_fields m) i) (\<lambda>f. if number f = n then Ret (Some i) else Fault)
      else find_field_search (mt_fields m) n (int (dense_below m)) (int (field_count m) - 1))"

subsection \<open>Oneofs\<close>

text \<open>The scan both oneof functions make: the first field from \<open>ptr\<close> on with the presence \<open>p\<close>.\<close>

function oneof_scan :: "upb_MiniTable \<Rightarrow> int \<Rightarrow> nat \<Rightarrow> (unit, nat option) res" where
  "oneof_scan m p ptr =
     (if ptr < field_count m then
        bindR (rd (mt_fields m) ptr) (\<lambda>f.
          if presence f = p then Ret (Some ptr) else oneof_scan m p (ptr + 1))
      else Ret None)"
  by pat_completeness auto
termination
  by (relation "measure (\<lambda>(m, p, ptr). field_count m - ptr)") auto

declare oneof_scan.simps [simp del]

definition upb_MiniTable_GetOneof :: "upb_MiniTable \<Rightarrow> upb_MiniTableField \<Rightarrow> (unit, nat option) res" where
  "upb_MiniTable_GetOneof m f =
     (if \<not> upb_MiniTableField_IsInOneof f then Ret None else oneof_scan m (presence f) 0)"

definition upb_MiniTable_NextOneofField :: "upb_MiniTable \<Rightarrow> nat \<Rightarrow> (unit, nat option) res" where
  "upb_MiniTable_NextOneofField m f =
     bindR (rd (mt_fields m) f) (\<lambda>fld. oneof_scan m (presence fld) (f + 1))"

section \<open>Well-formed tables\<close>

text \<open>
  What \<^verbatim>\<open>FindFieldByNumber\<close> relies on: the fields are in ascending order of their numbers, and the
  first \<^verbatim>\<open>dense_below\<close> of them have the numbers \<open>1, 2, ...\<close>.
\<close>

fun dense_from :: "nat \<Rightarrow> nat \<Rightarrow> upb_MiniTableField list \<Rightarrow> bool" where
  "dense_from k d [] \<longleftrightarrow> d = 0"
| "dense_from k d (f # fs) \<longleftrightarrow> d = 0 \<or> number f = k \<and> dense_from (k + 1) (d - 1) fs"

definition mt_fields_wf :: "upb_MiniTable \<Rightarrow> bool" where
  "mt_fields_wf m \<longleftrightarrow>
     field_count m = length (mt_fields m) \<and> field_count m < 65536 \<and> dense_below m < 256
     \<and> sorted_wrt (<) (0 # map number (mt_fields m))
     \<and> dense_below m \<le> field_count m
     \<and> dense_from 1 (dense_below m) (mt_fields m)"

lemma mt_fields_wf_sorted:
  assumes "mt_fields_wf m" and "i < j" and "j < length (mt_fields m)"
  shows "number (mt_fields m ! i) < number (mt_fields m ! j)"
proof -
  have "sorted_wrt (<) (map number (mt_fields m))" using assms(1) by (simp add: mt_fields_wf_def)
  with assms(2,3) show ?thesis by (simp add: sorted_wrt_iff_nth_less)
qed

lemma mt_fields_wf_pos: "mt_fields_wf m \<Longrightarrow> f \<in> set (mt_fields m) \<Longrightarrow> 0 < number f"
  by (simp add: mt_fields_wf_def)

lemma dense_from_nth: "dense_from k d fs \<Longrightarrow> i < d \<Longrightarrow> number (fs ! i) = k + i"
proof (induction k d fs arbitrary: i rule: dense_from.induct)
  case (2 k d f fs)
  then show ?case by (cases i) auto
qed simp

lemma mt_fields_wf_dense:
  "mt_fields_wf m \<Longrightarrow> i < dense_below m \<Longrightarrow> number (mt_fields m ! i) = Suc i"
  using dense_from_nth [of 1 "dense_below m" "mt_fields m" i] by (simp add: mt_fields_wf_def)

lemma find_field_search_correct:
  assumes "\<And>i j. i < j \<Longrightarrow> j < length base \<Longrightarrow> number (base ! i) < number (base ! j)"
    and "0 \<le> lo" and "hi < int (length base)"
  shows "\<exists>r. find_field_search base n lo hi = Ret r
    \<and> (case r of None \<Rightarrow> (\<forall>i. lo \<le> int i \<and> int i \<le> hi \<longrightarrow> number (base ! i) \<noteq> n)
        | Some i \<Rightarrow> i < length base \<and> number (base ! i) = n)"
  using assms
proof (induction base n lo hi rule: find_field_search.induct)
  case (1 base n lo hi)
  note sorted = "1.prems"(1)
  show ?case
  proof (cases "lo \<le> hi")
    case False
    then show ?thesis by (subst find_field_search.simps) auto
  next
    case True
    define mid where "mid = (hi + lo) div 2"
    have mid: "lo \<le> mid" "mid \<le> hi" "0 \<le> mid" "nat mid < length base"
      using True "1.prems"(2,3) by (auto simp: mid_def)
    let ?num = "number (base ! nat mid)"
    have step: "find_field_search base n lo hi =
        (if ?num = n then Ret (Some (nat mid))
         else if ?num < n then find_field_search base n (mid + 1) hi
         else find_field_search base n lo (mid - 1))"
      using True mid(4) by (subst find_field_search.simps) (simp add: Let_def mid_def)
    consider "?num = n" | "?num < n" | "n < ?num" by linarith
    then show ?thesis
    proof cases
      case 1
      with mid(4) step show ?thesis by simp
    next
      case 2
      obtain r where r: "find_field_search base n (mid + 1) hi = Ret r"
        "case r of None \<Rightarrow> (\<forall>i. mid + 1 \<le> int i \<and> int i \<le> hi \<longrightarrow> number (base ! i) \<noteq> n)
          | Some i \<Rightarrow> i < length base \<and> number (base ! i) = n"
        using "1.IH"(1) [OF True mid_def rd_in_range [OF mid(4)] refl refl refl] 2 sorted mid(3) "1.prems"(3) by auto
      have "number (base ! i) \<noteq> n" if "int i \<le> mid" for i
        using that 2 sorted [of i "nat mid"] mid(4) zless_nat_eq_int_zless [of i mid] by (cases "int i = mid") auto
      with r 2 show ?thesis unfolding step
        by (intro exI [of _ r]) (auto split: option.splits, metis linorder_not_less zle_iff_zadd zless_imp_add1_zle)
    next
      case 3
      obtain r where r: "find_field_search base n lo (mid - 1) = Ret r"
        "case r of None \<Rightarrow> (\<forall>i. lo \<le> int i \<and> int i \<le> mid - 1 \<longrightarrow> number (base ! i) \<noteq> n)
          | Some i \<Rightarrow> i < length base \<and> number (base ! i) = n"
        using "1.IH"(2) [OF True mid_def rd_in_range [OF mid(4)] refl refl refl] 3 sorted mid(2) "1.prems" by auto
      have above: "number (base ! i) \<noteq> n" if "mid \<le> int i" "int i \<le> hi" for i
        using that 3 sorted [of "nat mid" i] mid(3) "1.prems"(3) by (cases "int i = mid") (auto simp: nat_less_iff)
      have "number (base ! i) \<noteq> n" if "lo \<le> int i" "int i \<le> hi" "r = None" for i
        using r(2) above that by (cases "mid \<le> int i") auto
      with r 3 show ?thesis unfolding step by (intro exI [of _ r]) (auto split: option.splits)
    qed
  qed
qed

lemma FindFieldByNumber_cases:
  assumes "mt_fields_wf m" and "n < 2 ^ 32"
  shows "\<exists>r. upb_MiniTable_FindFieldByNumber m n = Ret r
    \<and> (case r of None \<Rightarrow> (\<forall>i < length (mt_fields m). number (mt_fields m ! i) \<noteq> n)
        | Some i \<Rightarrow> i < length (mt_fields m) \<and> number (mt_fields m ! i) = n)"
proof -
  have wf: "field_count m = length (mt_fields m)" "dense_below m \<le> field_count m" "dense_below m < 256"
    using assms(1) by (simp_all add: mt_fields_wf_def)
  show ?thesis
  proof (cases "0 < n \<and> n \<le> dense_below m")
    case True
    then have "(n + (2 ^ 64 - 1)) mod 2 ^ 64 = n - 1" using assms(2) by (cases n) simp_all
    moreover have "n - 1 < dense_below m" using True by auto
    ultimately show ?thesis using True mt_fields_wf_dense [OF assms(1), of "n - 1"] wf
      by (simp add: upb_MiniTable_FindFieldByNumber_def Let_def)
  next
    case False
    have "dense_below m \<le> (n + (2 ^ 64 - 1)) mod 2 ^ 64"
      using False assms(2) wf(3) by (cases n) simp_all
    then have search: "upb_MiniTable_FindFieldByNumber m n =
        find_field_search (mt_fields m) n (int (dense_below m)) (int (field_count m) - 1)"
      by (simp add: upb_MiniTable_FindFieldByNumber_def Let_def)
    obtain r where r:
      "find_field_search (mt_fields m) n (int (dense_below m)) (int (field_count m) - 1) = Ret r"
      "case r of None \<Rightarrow> (\<forall>i. int (dense_below m) \<le> int i \<and> int i \<le> int (field_count m) - 1
            \<longrightarrow> number (mt_fields m ! i) \<noteq> n)
        | Some i \<Rightarrow> i < length (mt_fields m) \<and> number (mt_fields m ! i) = n"
      using find_field_search_correct [of "mt_fields m" "int (dense_below m)" "int (field_count m) - 1" n]
        mt_fields_wf_sorted [OF assms(1)] wf by auto
    have dense: "number (mt_fields m ! i) \<noteq> n" if "i < dense_below m" for i
      using that False mt_fields_wf_dense [OF assms(1) that] by auto
    have "number (mt_fields m ! i) \<noteq> n" if "i < length (mt_fields m)" "r = None" for i
      using r(2) dense that wf by (cases "i < dense_below m") auto
    with r(2) have "case r of None \<Rightarrow> (\<forall>i < length (mt_fields m). number (mt_fields m ! i) \<noteq> n)
        | Some i \<Rightarrow> i < length (mt_fields m) \<and> number (mt_fields m ! i) = n"
      by (auto split: option.splits)
    with search r show ?thesis by simp
  qed
qed

lemma FindFieldByNumber_find:
  assumes "mt_fields_wf m" and "n < 2 ^ 32"
  shows "upb_MiniTable_FindFieldByNumber m n
    = Ret (find (\<lambda>i. number (mt_fields m ! i) = n) [0 ..< length (mt_fields m)])"
proof -
  obtain r where r: "upb_MiniTable_FindFieldByNumber m n = Ret r"
    "case r of None \<Rightarrow> (\<forall>i < length (mt_fields m). number (mt_fields m ! i) \<noteq> n)
      | Some i \<Rightarrow> i < length (mt_fields m) \<and> number (mt_fields m ! i) = n"
    using FindFieldByNumber_cases [OF assms] by blast
  show ?thesis
  proof (cases r)
    case None
    with r show ?thesis by (auto simp: find_None_iff intro!: sym [of "find _ _" None])
  next
    case (Some i)
    with r have i: "i < length (mt_fields m)" "number (mt_fields m ! i) = n" by auto
    have "number (mt_fields m ! j) \<noteq> n" if "j < i" for j
      using mt_fields_wf_sorted [OF assms(1) that i(1)] i(2) by simp
    with i have "find (\<lambda>i. number (mt_fields m ! i) = n) [0 ..< length (mt_fields m)] = Some i"
      by (auto simp: find_Some_iff intro!: exI [of _ i])
    with r Some show ?thesis by simp
  qed
qed

subsection \<open>Storage\<close>

text \<open>
  What the accessors rely on: every field owns a storage cell inside the message, after the eight
  bytes of \<^verbatim>\<open>upb_Message\<close>; hasbits and oneof cases have cells of their own; two cells overlap only
  when they belong to members of the same oneof.
\<close>

definition rep_size :: "u8 \<Rightarrow> nat" where
  "rep_size r = (if r = kUpb_FieldRep_1Byte then 1 else if r = kUpb_FieldRep_4Byte then 4
                 else if r = kUpb_FieldRep_StringView then 16 else 8)"

definition rep_align :: "u8 \<Rightarrow> nat" where
  "rep_align r = (if r = kUpb_FieldRep_1Byte then 1 else if r = kUpb_FieldRep_4Byte then 4 else 8)"

text \<open>A cell is its first byte and its length.\<close>

type_synonym cell = "nat \<times> nat"

fun disjoint :: "cell \<Rightarrow> cell \<Rightarrow> bool" where
  "disjoint (a, m) (b, n) \<longleftrightarrow> a + m \<le> b \<or> b + n \<le> a"

definition field_cell :: "upb_MiniTableField \<Rightarrow> cell" where
  "field_cell f = (offset f, rep_size (upb_MiniTableField_GetRep f))"

text \<open>The byte of the hasbit or the word of the oneof case.\<close>

definition presence_cell :: "upb_MiniTableField \<Rightarrow> cell option" where
  "presence_cell f =
     (if 0 < presence f then Some (nat (presence f) div 8, 1)
      else if presence f < 0 then Some (nat (- presence f - 1), 4)
      else None)"

definition cell_in_message :: "upb_MiniTable \<Rightarrow> cell \<Rightarrow> bool" where
  "cell_in_message m c \<longleftrightarrow> 8 \<le> fst c \<and> fst c + snd c \<le> mt_size m"

definition cells_apart :: "upb_MiniTableField \<Rightarrow> upb_MiniTableField \<Rightarrow> bool" where
  "cells_apart f g \<longleftrightarrow>
     (disjoint (field_cell f) (field_cell g) \<or> presence f < 0 \<and> presence f = presence g)
     \<and> (case presence_cell f of None \<Rightarrow> True | Some c \<Rightarrow> disjoint c (field_cell g))
     \<and> (case presence_cell g of None \<Rightarrow> True | Some d \<Rightarrow> disjoint (field_cell f) d)
     \<and> (case presence_cell f of None \<Rightarrow> True | Some c \<Rightarrow>
          (case presence_cell g of None \<Rightarrow> True | Some d \<Rightarrow>
             disjoint c d \<or> 0 < presence f \<and> 0 < presence g \<and> presence f \<noteq> presence g
             \<or> presence f < 0 \<and> presence f = presence g))"

text \<open>The type of a field and its representation agree, and its sub-table is of the right kind.\<close>

definition field_wf :: "upb_MiniTable \<Rightarrow> upb_MiniTableField \<Rightarrow> bool" where
  "field_wf m f \<longleftrightarrow>
     cell_in_message m (field_cell f)
     \<and> rep_align (upb_MiniTableField_GetRep f) dvd offset f
     \<and> (case presence_cell f of None \<Rightarrow> True | Some c \<Rightarrow> cell_in_message m c \<and> disjoint c (field_cell f))
     \<and> \<not> upb_MiniTableField_IsExtension f
     \<and> (upb_MiniTableField_IsAlternate f \<longrightarrow>
          descriptortype f = kUpb_FieldType_Int32 \<or> descriptortype f = kUpb_FieldType_Bytes)
     \<and> (if upb_MiniTableField_IsScalar f
        then rep_size (upb_MiniTableField_GetRep f) = 2 ^ upb_FieldType_SizeLg2 (descriptortype f)
        else (upb_MiniTableField_IsArray f \<or> upb_MiniTableField_IsMap f)
          \<and> upb_MiniTableField_GetRep f = kUpb_FieldRep_NativePointer \<and> presence f = 0)
     \<and> (upb_MiniTableField_IsMap f \<longrightarrow> descriptortype f = kUpb_FieldType_Message)
     \<and> (upb_MiniTableField_IsPacked f \<longrightarrow>
          upb_MiniTableField_IsArray f \<and> upb_FieldType_IsPackable (descriptortype f))
     \<and> (if upb_MiniTableField_IsSubMessage f
        then submsg_index f < length (subs m)
          \<and> (case subs m ! submsg_index f of Submsg _ \<Rightarrow> True | Subenum _ \<Rightarrow> False)
        else if upb_MiniTableField_IsClosedEnum f
        then submsg_index f < length (subs m)
          \<and> (case subs m ! submsg_index f of Submsg _ \<Rightarrow> False | Subenum e \<Rightarrow> True)
        else submsg_index f = kUpb_NoSub)"

text \<open>Required fields have the lowest hasbits.\<close>

definition required_wf :: "upb_MiniTable \<Rightarrow> bool" where
  "required_wf m \<longleftrightarrow> required_count m \<le> 63
     \<and> list_all (\<lambda>k. list_ex (\<lambda>f. presence f = 64 + int k) (mt_fields m)) [0 ..< required_count m]"

definition mt_layout_wf :: "upb_MiniTable \<Rightarrow> bool" where
  "mt_layout_wf m \<longleftrightarrow>
     list_all (field_wf m) (mt_fields m) \<and> sorted_wrt cells_apart (mt_fields m)
     \<and> 8 \<le> mt_size m \<and> 8 dvd mt_size m \<and> mt_size m < 65536 \<and> required_wf m"

text \<open>Links to message tables stay inside a list of \<open>n\<close> tables.\<close>

definition mt_links_wf :: "nat \<Rightarrow> upb_MiniTable \<Rightarrow> bool" where
  "mt_links_wf n m \<longleftrightarrow>
     list_all (\<lambda>s. case s of Submsg (Mt i) \<Rightarrow> i < n | _ \<Rightarrow> True) (subs m)"

section \<open>Iterating over a oneof\<close>

text \<open>The indexes of the fields that share a presence value, in table order.\<close>

definition oneof_members :: "upb_MiniTable \<Rightarrow> int \<Rightarrow> nat list" where
  "oneof_members m p = filter (\<lambda>i. presence (mt_fields m ! i) = p) [0 ..< length (mt_fields m)]"

lemma oneof_scan_filter:
  assumes "field_count m = length (mt_fields m)"
  shows "oneof_scan m p ptr =
    Ret (case filter (\<lambda>i. presence (mt_fields m ! i) = p) [ptr ..< length (mt_fields m)] of
           [] \<Rightarrow> None | i # _ \<Rightarrow> Some i)"
  using assms
proof (induction m p ptr rule: oneof_scan.induct)
  case (1 m p ptr)
  show ?case
  proof (cases "ptr < length (mt_fields m)")
    case True
    with "1.IH" "1.prems" show ?thesis by (subst oneof_scan.simps) (simp add: upt_conv_Cons)
  next
    case False
    with "1.prems" show ?thesis by (subst oneof_scan.simps) simp
  qed
qed

lemma filter_upt_tail: "filter P [a ..< n] = x # xs \<Longrightarrow> filter P [Suc x ..< n] = xs"
proof (induction "n - a" arbitrary: a)
  case (Suc k)
  then have "[a ..< n] = a # [Suc a ..< n]" "k = n - Suc a" by (auto simp: upt_conv_Cons)
  with Suc show ?case by (cases "P a") auto
qed simp

lemma filter_upt_drop:
  "k < length (filter P [a ..< n]) \<Longrightarrow>
     filter P [Suc (filter P [a ..< n] ! k) ..< n] = drop (Suc k) (filter P [a ..< n])"
proof (induction k)
  case 0
  then show ?case by (cases "filter P [a ..< n]") (auto simp: filter_upt_tail)
next
  case (Suc k)
  let ?l = "filter P [a ..< n]"
  from Suc have "filter P [Suc (?l ! k) ..< n] = ?l ! Suc k # drop (Suc (Suc k)) ?l"
    by (simp add: Cons_nth_drop_Suc)
  then show ?case by (rule filter_upt_tail)
qed

section \<open>Closed enums\<close>

text \<open>The values an enum table lists: the set bits of its mask and the words after it.\<close>

definition enum_values :: "upb_MiniTableEnum \<Rightarrow> u32 set" where
  "enum_values e =
     {v. unat v < mask_limit e \<and> bit (enum_data e ! (unat v div 32)) (unat v mod 32)}
     \<union> set (take (value_count e) (drop (mask_limit e div 32) (enum_data e)))"

definition enum_wf :: "upb_MiniTableEnum \<Rightarrow> bool" where
  "enum_wf e \<longleftrightarrow> 64 \<le> mask_limit e \<and> mask_limit e < 2 ^ 32 \<and> 32 dvd mask_limit e
     \<and> length (enum_data e) = mask_limit e div 32 + value_count e
     \<and> (\<forall>v \<in> set (drop (mask_limit e div 32) (enum_data e)). mask_limit e \<le> unat v)"

lemma enum_scan_set:
  "p + n \<le> length xs \<Longrightarrow> enum_scan xs p n v = Ret (v \<in> set (take n (drop p xs)))"
proof (induction n arbitrary: p)
  case (Suc n)
  then have "drop p xs = xs ! p # drop (Suc p) xs" by (simp add: Cons_nth_drop_Suc)
  with Suc show ?case by auto
qed simp

lemma bit_test_64:
  assumes "v < 64"
  shows "((ucast (d0 :: u32) OR push_bit 32 (ucast d1) :: u64) AND push_bit v 1 \<noteq> 0)
    \<longleftrightarrow> bit (if v < 32 then d0 else d1) (v mod 32)"
proof -
  have "(x AND push_bit v 1 \<noteq> 0) \<longleftrightarrow> bit x v" for x :: u64
    using and_exp_eq_0_iff_not_bit [of x v] by (simp add: push_bit_as_mult)
  then have "((ucast d0 OR push_bit 32 (ucast d1) :: u64) AND push_bit v 1 \<noteq> 0)
    \<longleftrightarrow> bit (ucast d0 OR push_bit 32 (ucast d1) :: u64) v" .
  also have "\<dots> \<longleftrightarrow> bit (if v < 32 then d0 else d1) (v mod 32)"
    using assms by (auto simp: bit_simps mod_if impossible_bit)
  finally show ?thesis .
qed

lemma bit_test_32:
  assumes "v < 32"
  shows "(d AND (ucast (push_bit v 1 :: u64) :: u32) \<noteq> 0) \<longleftrightarrow> bit d v"
proof -
  have "(ucast (push_bit v 1 :: u64) :: u32) = push_bit v 1"
    using assms by (intro bit_eqI) (auto simp: bit_simps)
  then show ?thesis using and_exp_eq_0_iff_not_bit [of d v] by (simp add: push_bit_as_mult)
qed

lemma CheckValue_values:
  assumes "enum_wf e"
  shows "upb_MiniTableEnum_CheckValue e v = Ret (v \<in> enum_values e)"
proof -
  let ?L = "mask_limit e"
  have wf: "64 \<le> ?L" "2 \<le> ?L div 32" "length (enum_data e) = ?L div 32 + value_count e" "32 dvd ?L"
    "\<And>w. w \<in> set (drop (?L div 32) (enum_data e)) \<Longrightarrow> ?L \<le> unat w"
    using assms by (auto simp: enum_wf_def)
  have small: "v \<in> enum_values e \<longleftrightarrow> bit (enum_data e ! (unat v div 32)) (unat v mod 32)" if "unat v < ?L"
    using that wf(5) [of v] by (auto simp: enum_values_def dest: in_set_takeD)
  consider "unat v < 64" | "64 \<le> unat v" "unat v < ?L" | "?L \<le> unat v" by linarith
  then show ?thesis
  proof cases
    case 1
    then have "unat v div 32 = (if unat v < 32 then 0 else 1)" by auto
    with 1 wf(1,2,3) small show ?thesis
      by (simp add: upb_MiniTableEnum_CheckValue_def word_less_nat_alt Let_def bit_test_64 del: push_bit_of_1)
  next
    case 2
    then have "unat v div 32 < ?L div 32" using wf(4) by (auto elim!: dvdE intro: less_mult_imp_div_less)
    with 2 wf(3) small show ?thesis
      by (simp add: upb_MiniTableEnum_CheckValue_def word_less_nat_alt Let_def bit_test_32 del: push_bit_of_1)
  next
    case 3
    with wf show ?thesis
      by (simp add: upb_MiniTableEnum_CheckValue_def word_less_nat_alt enum_scan_set enum_values_def)
  qed
qed

section \<open>Properties\<close>

text \<open>
  C9. Field lookup: on a well-formed table, \<^verbatim>\<open>upb_MiniTable_FindFieldByNumber\<close> returns the field with
  the given number when there is one and \<^verbatim>\<open>NULL\<close> when there is none, for every 32-bit number, 0
  included. The dense index never meets its assertion and the binary search never reads outside
  the field array.
\<close>

theorem find_field_by_number_correct:
  assumes "mt_fields_wf m" and "n < 2 ^ 32"
  shows "upb_MiniTable_FindFieldByNumber m n
    = Ret (find (\<lambda>i. number (mt_fields m ! i) = n) [0 ..< length (mt_fields m)])"
  using assms by (rule FindFieldByNumber_find)

theorem find_field_by_number_correct_witness:
  "upb_MiniTable_FindFieldByNumber
     (mini_table [] (map (\<lambda>n. mini_table_field n 8 0 kUpb_NoSub kUpb_FieldType_Int32 0) [1, 2, 5, 9, 12])
        16 5 kUpb_ExtMode_NonExtendable 2 0) 9 = Ret (Some 3)"
proof -
  let ?m = "mini_table [] (map (\<lambda>n. mini_table_field n 8 0 kUpb_NoSub kUpb_FieldType_Int32 0) [1, 2, 5, 9, 12])
      16 5 kUpb_ExtMode_NonExtendable 2 0"
  have "mt_fields_wf ?m" by (simp add: mt_fields_wf_def mini_table_def mini_table_field_def)
  from find_field_by_number_correct [OF this, of 9] show ?thesis
    by (simp add: mini_table_def mini_table_field_def upt_rec)
qed

text \<open>
  C24. Oneof iteration: starting at \<^verbatim>\<open>upb_MiniTable_GetOneof\<close> and calling
  \<^verbatim>\<open>upb_MiniTable_NextOneofField\<close> until it returns false visits exactly the fields of the oneof of
  \<open>f\<close>, each once, in table order.
\<close>

theorem oneof_iteration_complete:
  assumes "mt_fields_wf m" and "f \<in> set (mt_fields m)" and "upb_MiniTableField_IsInOneof f"
    and "k < length (oneof_members m (presence f))"
  shows "upb_MiniTable_GetOneof m f = Ret (Some (oneof_members m (presence f) ! 0))
    \<and> upb_MiniTable_NextOneofField m (oneof_members m (presence f) ! k) =
        Ret (if Suc k < length (oneof_members m (presence f))
             then Some (oneof_members m (presence f) ! Suc k) else None)"
proof
  let ?ms = "oneof_members m (presence f)"
  let ?P = "\<lambda>i. presence (mt_fields m ! i) = presence f"
  have cnt: "field_count m = length (mt_fields m)" using assms(1) by (simp add: mt_fields_wf_def)
  show "upb_MiniTable_GetOneof m f = Ret (Some (?ms ! 0))"
    using assms(3,4) cnt by (cases ?ms) (auto simp: upb_MiniTable_GetOneof_def oneof_scan_filter oneof_members_def)
  have "?ms ! k \<in> set ?ms" using assms(4) by simp
  then have at: "?ms ! k < length (mt_fields m)" "?P (?ms ! k)" by (auto simp: oneof_members_def)
  have "filter ?P [Suc (?ms ! k) ..< length (mt_fields m)] = drop (Suc k) ?ms"
    using assms(4) filter_upt_drop [of k ?P 0] by (simp add: oneof_members_def)
  with at cnt show "upb_MiniTable_NextOneofField m (?ms ! k)
      = Ret (if Suc k < length ?ms then Some (?ms ! Suc k) else None)"
    by (auto simp: upb_MiniTable_NextOneofField_def oneof_scan_filter Cons_nth_drop_Suc [symmetric])
qed

theorem oneof_iteration_complete_witness:
  "upb_MiniTable_NextOneofField
     (mini_table [] [mini_table_field 1 16 (- 13) kUpb_NoSub kUpb_FieldType_Int32 0,
                     mini_table_field 2 8 0 kUpb_NoSub kUpb_FieldType_Int32 0,
                     mini_table_field 3 16 (- 13) kUpb_NoSub kUpb_FieldType_Int32 0]
        24 3 kUpb_ExtMode_NonExtendable 3 0) 0 = Ret (Some 2)"
proof -
  let ?f = "mini_table_field 1 16 (- 13) kUpb_NoSub kUpb_FieldType_Int32 0"
  let ?m = "mini_table [] [?f, mini_table_field 2 8 0 kUpb_NoSub kUpb_FieldType_Int32 0,
                     mini_table_field 3 16 (- 13) kUpb_NoSub kUpb_FieldType_Int32 0]
        24 3 kUpb_ExtMode_NonExtendable 3 0"
  have "mt_fields_wf ?m" by (simp add: mt_fields_wf_def mini_table_def mini_table_field_def numeral_3_eq_3)
  moreover have "oneof_members ?m (presence ?f) = [0, 2]"
    by (simp add: oneof_members_def mini_table_def mini_table_field_def upt_rec)
  moreover have "?f \<in> set (mt_fields ?m)" by (simp add: mini_table_def)
  moreover have "upb_MiniTableField_IsInOneof ?f"
    by (simp add: upb_MiniTableField_IsInOneof_def mini_table_field_def)
  ultimately show ?thesis using oneof_iteration_complete [of ?m ?f 0] by simp
qed

text \<open>
  C23. Closed enums: on a well-formed enum table, \<^verbatim>\<open>upb_MiniTableEnum_CheckValue\<close> accepts a 32-bit
  value exactly when it is one of the values the table lists, through whichever of its three
  branches (the first 64 bits, the rest of the bit mask, the list after it) the value goes, and
  never reads outside the table.
\<close>

theorem enum_check_value_correct:
  assumes "enum_wf e"
  shows "upb_MiniTableEnum_CheckValue e v = Ret (v \<in> enum_values e)"
  using assms by (rule CheckValue_values)

theorem enum_check_value_correct_witness:
  "upb_MiniTableEnum_CheckValue \<lparr> mask_limit = 64, value_count = 1, enum_data = [6, 0, 1000] \<rparr> 1000 = Ret True"
  using enum_check_value_correct [of "\<lparr> mask_limit = 64, value_count = 1, enum_data = [6, 0, 1000] \<rparr>" 1000]
  by (simp add: enum_wf_def enum_values_def)

end
