(* ===== verification/Mini_Table_Refs.thy ===== *)
theory Mini_Table_Refs
  imports Mini_Table
begin

text \<open>
  The addresses of the generated message tables: the \<^verbatim>\<open>..._msg_init_ptr\<close> variables through which the
  tables refer to each other are positions in the list of all modelled tables. The theory also has
  the simplification rules that evaluate the well-formedness of a concrete table.
\<close>

section \<open>Definitions\<close>

abbreviation google__protobuf__FileDescriptorSet_msg_init_ptr :: mt_ref where "google__protobuf__FileDescriptorSet_msg_init_ptr \<equiv> Mt 0"
abbreviation google__protobuf__FileDescriptorProto_msg_init_ptr :: mt_ref where "google__protobuf__FileDescriptorProto_msg_init_ptr \<equiv> Mt 1"
abbreviation google__protobuf__DescriptorProto_msg_init_ptr :: mt_ref where "google__protobuf__DescriptorProto_msg_init_ptr \<equiv> Mt 2"
abbreviation google__protobuf__DescriptorProto__ExtensionRange_msg_init_ptr :: mt_ref where "google__protobuf__DescriptorProto__ExtensionRange_msg_init_ptr \<equiv> Mt 3"
abbreviation google__protobuf__DescriptorProto__ReservedRange_msg_init_ptr :: mt_ref where "google__protobuf__DescriptorProto__ReservedRange_msg_init_ptr \<equiv> Mt 4"
abbreviation google__protobuf__ExtensionRangeOptions_msg_init_ptr :: mt_ref where "google__protobuf__ExtensionRangeOptions_msg_init_ptr \<equiv> Mt 5"
abbreviation google__protobuf__ExtensionRangeOptions__Declaration_msg_init_ptr :: mt_ref where "google__protobuf__ExtensionRangeOptions__Declaration_msg_init_ptr \<equiv> Mt 6"
abbreviation google__protobuf__FieldDescriptorProto_msg_init_ptr :: mt_ref where "google__protobuf__FieldDescriptorProto_msg_init_ptr \<equiv> Mt 7"
abbreviation google__protobuf__OneofDescriptorProto_msg_init_ptr :: mt_ref where "google__protobuf__OneofDescriptorProto_msg_init_ptr \<equiv> Mt 8"
abbreviation google__protobuf__EnumDescriptorProto_msg_init_ptr :: mt_ref where "google__protobuf__EnumDescriptorProto_msg_init_ptr \<equiv> Mt 9"
abbreviation google__protobuf__EnumDescriptorProto__EnumReservedRange_msg_init_ptr :: mt_ref where "google__protobuf__EnumDescriptorProto__EnumReservedRange_msg_init_ptr \<equiv> Mt 10"
abbreviation google__protobuf__EnumValueDescriptorProto_msg_init_ptr :: mt_ref where "google__protobuf__EnumValueDescriptorProto_msg_init_ptr \<equiv> Mt 11"
abbreviation google__protobuf__ServiceDescriptorProto_msg_init_ptr :: mt_ref where "google__protobuf__ServiceDescriptorProto_msg_init_ptr \<equiv> Mt 12"
abbreviation google__protobuf__MethodDescriptorProto_msg_init_ptr :: mt_ref where "google__protobuf__MethodDescriptorProto_msg_init_ptr \<equiv> Mt 13"
abbreviation google__protobuf__FileOptions_msg_init_ptr :: mt_ref where "google__protobuf__FileOptions_msg_init_ptr \<equiv> Mt 14"
abbreviation google__protobuf__MessageOptions_msg_init_ptr :: mt_ref where "google__protobuf__MessageOptions_msg_init_ptr \<equiv> Mt 15"
abbreviation google__protobuf__FieldOptions_msg_init_ptr :: mt_ref where "google__protobuf__FieldOptions_msg_init_ptr \<equiv> Mt 16"
abbreviation google__protobuf__FieldOptions__EditionDefault_msg_init_ptr :: mt_ref where "google__protobuf__FieldOptions__EditionDefault_msg_init_ptr \<equiv> Mt 17"
abbreviation google__protobuf__FieldOptions__FeatureSupport_msg_init_ptr :: mt_ref where "google__protobuf__FieldOptions__FeatureSupport_msg_init_ptr \<equiv> Mt 18"
abbreviation google__protobuf__OneofOptions_msg_init_ptr :: mt_ref where "google__protobuf__OneofOptions_msg_init_ptr \<equiv> Mt 19"
abbreviation google__protobuf__EnumOptions_msg_init_ptr :: mt_ref where "google__protobuf__EnumOptions_msg_init_ptr \<equiv> Mt 20"
abbreviation google__protobuf__EnumValueOptions_msg_init_ptr :: mt_ref where "google__protobuf__EnumValueOptions_msg_init_ptr \<equiv> Mt 21"
abbreviation google__protobuf__ServiceOptions_msg_init_ptr :: mt_ref where "google__protobuf__ServiceOptions_msg_init_ptr \<equiv> Mt 22"
abbreviation google__protobuf__MethodOptions_msg_init_ptr :: mt_ref where "google__protobuf__MethodOptions_msg_init_ptr \<equiv> Mt 23"
abbreviation google__protobuf__UninterpretedOption_msg_init_ptr :: mt_ref where "google__protobuf__UninterpretedOption_msg_init_ptr \<equiv> Mt 24"
abbreviation google__protobuf__UninterpretedOption__NamePart_msg_init_ptr :: mt_ref where "google__protobuf__UninterpretedOption__NamePart_msg_init_ptr \<equiv> Mt 25"
abbreviation google__protobuf__FeatureSet_msg_init_ptr :: mt_ref where "google__protobuf__FeatureSet_msg_init_ptr \<equiv> Mt 26"
abbreviation google__protobuf__FeatureSetDefaults_msg_init_ptr :: mt_ref where "google__protobuf__FeatureSetDefaults_msg_init_ptr \<equiv> Mt 27"
abbreviation google__protobuf__FeatureSetDefaults__FeatureSetEditionDefault_msg_init_ptr :: mt_ref where "google__protobuf__FeatureSetDefaults__FeatureSetEditionDefault_msg_init_ptr \<equiv> Mt 28"
abbreviation google__protobuf__SourceCodeInfo_msg_init_ptr :: mt_ref where "google__protobuf__SourceCodeInfo_msg_init_ptr \<equiv> Mt 29"
abbreviation google__protobuf__SourceCodeInfo__Location_msg_init_ptr :: mt_ref where "google__protobuf__SourceCodeInfo__Location_msg_init_ptr \<equiv> Mt 30"
abbreviation google__protobuf__GeneratedCodeInfo_msg_init_ptr :: mt_ref where "google__protobuf__GeneratedCodeInfo_msg_init_ptr \<equiv> Mt 31"
abbreviation google__protobuf__GeneratedCodeInfo__Annotation_msg_init_ptr :: mt_ref where "google__protobuf__GeneratedCodeInfo__Annotation_msg_init_ptr \<equiv> Mt 32"
abbreviation google__protobuf__Any_msg_init_ptr :: mt_ref where "google__protobuf__Any_msg_init_ptr \<equiv> Mt 33"
abbreviation google__protobuf__Duration_msg_init_ptr :: mt_ref where "google__protobuf__Duration_msg_init_ptr \<equiv> Mt 34"
abbreviation google__protobuf__Empty_msg_init_ptr :: mt_ref where "google__protobuf__Empty_msg_init_ptr \<equiv> Mt 35"
abbreviation google__protobuf__Struct_msg_init_ptr :: mt_ref where "google__protobuf__Struct_msg_init_ptr \<equiv> Mt 36"
abbreviation google__protobuf__Struct__FieldsEntry_msg_init_ptr :: mt_ref where "google__protobuf__Struct__FieldsEntry_msg_init_ptr \<equiv> Mt 37"
abbreviation google__protobuf__Value_msg_init_ptr :: mt_ref where "google__protobuf__Value_msg_init_ptr \<equiv> Mt 38"
abbreviation google__protobuf__ListValue_msg_init_ptr :: mt_ref where "google__protobuf__ListValue_msg_init_ptr \<equiv> Mt 39"
abbreviation google__protobuf__Timestamp_msg_init_ptr :: mt_ref where "google__protobuf__Timestamp_msg_init_ptr \<equiv> Mt 40"
abbreviation google__protobuf__DoubleValue_msg_init_ptr :: mt_ref where "google__protobuf__DoubleValue_msg_init_ptr \<equiv> Mt 41"
abbreviation google__protobuf__FloatValue_msg_init_ptr :: mt_ref where "google__protobuf__FloatValue_msg_init_ptr \<equiv> Mt 42"
abbreviation google__protobuf__Int64Value_msg_init_ptr :: mt_ref where "google__protobuf__Int64Value_msg_init_ptr \<equiv> Mt 43"
abbreviation google__protobuf__UInt64Value_msg_init_ptr :: mt_ref where "google__protobuf__UInt64Value_msg_init_ptr \<equiv> Mt 44"
abbreviation google__protobuf__Int32Value_msg_init_ptr :: mt_ref where "google__protobuf__Int32Value_msg_init_ptr \<equiv> Mt 45"
abbreviation google__protobuf__UInt32Value_msg_init_ptr :: mt_ref where "google__protobuf__UInt32Value_msg_init_ptr \<equiv> Mt 46"
abbreviation google__protobuf__BoolValue_msg_init_ptr :: mt_ref where "google__protobuf__BoolValue_msg_init_ptr \<equiv> Mt 47"
abbreviation google__protobuf__StringValue_msg_init_ptr :: mt_ref where "google__protobuf__StringValue_msg_init_ptr \<equiv> Mt 48"
abbreviation google__protobuf__BytesValue_msg_init_ptr :: mt_ref where "google__protobuf__BytesValue_msg_init_ptr \<equiv> Mt 49"
abbreviation google__rpc__Status_msg_init_ptr :: mt_ref where "google__rpc__Status_msg_init_ptr \<equiv> Mt 50"
abbreviation google__api__Http_msg_init_ptr :: mt_ref where "google__api__Http_msg_init_ptr \<equiv> Mt 51"
abbreviation google__api__HttpRule_msg_init_ptr :: mt_ref where "google__api__HttpRule_msg_init_ptr \<equiv> Mt 52"
abbreviation google__api__CustomHttpPattern_msg_init_ptr :: mt_ref where "google__api__CustomHttpPattern_msg_init_ptr \<equiv> Mt 53"
abbreviation google__api__HttpBody_msg_init_ptr :: mt_ref where "google__api__HttpBody_msg_init_ptr \<equiv> Mt 54"
abbreviation grpc__gcp__AltsContext_msg_init_ptr :: mt_ref where "grpc__gcp__AltsContext_msg_init_ptr \<equiv> Mt 55"
abbreviation grpc__gcp__AltsContext__PeerAttributesEntry_msg_init_ptr :: mt_ref where "grpc__gcp__AltsContext__PeerAttributesEntry_msg_init_ptr \<equiv> Mt 56"
abbreviation grpc__gcp__Endpoint_msg_init_ptr :: mt_ref where "grpc__gcp__Endpoint_msg_init_ptr \<equiv> Mt 57"
abbreviation grpc__gcp__Identity_msg_init_ptr :: mt_ref where "grpc__gcp__Identity_msg_init_ptr \<equiv> Mt 58"
abbreviation grpc__gcp__Identity__AttributesEntry_msg_init_ptr :: mt_ref where "grpc__gcp__Identity__AttributesEntry_msg_init_ptr \<equiv> Mt 59"
abbreviation grpc__gcp__StartClientHandshakeReq_msg_init_ptr :: mt_ref where "grpc__gcp__StartClientHandshakeReq_msg_init_ptr \<equiv> Mt 60"
abbreviation grpc__gcp__ServerHandshakeParameters_msg_init_ptr :: mt_ref where "grpc__gcp__ServerHandshakeParameters_msg_init_ptr \<equiv> Mt 61"
abbreviation grpc__gcp__StartServerHandshakeReq_msg_init_ptr :: mt_ref where "grpc__gcp__StartServerHandshakeReq_msg_init_ptr \<equiv> Mt 62"
abbreviation grpc__gcp__StartServerHandshakeReq__HandshakeParametersEntry_msg_init_ptr :: mt_ref where "grpc__gcp__StartServerHandshakeReq__HandshakeParametersEntry_msg_init_ptr \<equiv> Mt 63"
abbreviation grpc__gcp__NextHandshakeMessageReq_msg_init_ptr :: mt_ref where "grpc__gcp__NextHandshakeMessageReq_msg_init_ptr \<equiv> Mt 64"
abbreviation grpc__gcp__HandshakerReq_msg_init_ptr :: mt_ref where "grpc__gcp__HandshakerReq_msg_init_ptr \<equiv> Mt 65"
abbreviation grpc__gcp__HandshakerResult_msg_init_ptr :: mt_ref where "grpc__gcp__HandshakerResult_msg_init_ptr \<equiv> Mt 66"
abbreviation grpc__gcp__HandshakerStatus_msg_init_ptr :: mt_ref where "grpc__gcp__HandshakerStatus_msg_init_ptr \<equiv> Mt 67"
abbreviation grpc__gcp__HandshakerResp_msg_init_ptr :: mt_ref where "grpc__gcp__HandshakerResp_msg_init_ptr \<equiv> Mt 68"
abbreviation grpc__gcp__RpcProtocolVersions_msg_init_ptr :: mt_ref where "grpc__gcp__RpcProtocolVersions_msg_init_ptr \<equiv> Mt 69"
abbreviation grpc__gcp__RpcProtocolVersions__Version_msg_init_ptr :: mt_ref where "grpc__gcp__RpcProtocolVersions__Version_msg_init_ptr \<equiv> Mt 70"
abbreviation grpc__health__v1__HealthCheckRequest_msg_init_ptr :: mt_ref where "grpc__health__v1__HealthCheckRequest_msg_init_ptr \<equiv> Mt 71"
abbreviation grpc__health__v1__HealthCheckResponse_msg_init_ptr :: mt_ref where "grpc__health__v1__HealthCheckResponse_msg_init_ptr \<equiv> Mt 72"
abbreviation grpc__lb__v1__LoadBalanceRequest_msg_init_ptr :: mt_ref where "grpc__lb__v1__LoadBalanceRequest_msg_init_ptr \<equiv> Mt 73"
abbreviation grpc__lb__v1__InitialLoadBalanceRequest_msg_init_ptr :: mt_ref where "grpc__lb__v1__InitialLoadBalanceRequest_msg_init_ptr \<equiv> Mt 74"
abbreviation grpc__lb__v1__ClientStatsPerToken_msg_init_ptr :: mt_ref where "grpc__lb__v1__ClientStatsPerToken_msg_init_ptr \<equiv> Mt 75"
abbreviation grpc__lb__v1__ClientStats_msg_init_ptr :: mt_ref where "grpc__lb__v1__ClientStats_msg_init_ptr \<equiv> Mt 76"
abbreviation grpc__lb__v1__LoadBalanceResponse_msg_init_ptr :: mt_ref where "grpc__lb__v1__LoadBalanceResponse_msg_init_ptr \<equiv> Mt 77"
abbreviation grpc__lb__v1__FallbackResponse_msg_init_ptr :: mt_ref where "grpc__lb__v1__FallbackResponse_msg_init_ptr \<equiv> Mt 78"
abbreviation grpc__lb__v1__InitialLoadBalanceResponse_msg_init_ptr :: mt_ref where "grpc__lb__v1__InitialLoadBalanceResponse_msg_init_ptr \<equiv> Mt 79"
abbreviation grpc__lb__v1__ServerList_msg_init_ptr :: mt_ref where "grpc__lb__v1__ServerList_msg_init_ptr \<equiv> Mt 80"
abbreviation grpc__lb__v1__Server_msg_init_ptr :: mt_ref where "grpc__lb__v1__Server_msg_init_ptr \<equiv> Mt 81"
abbreviation grpc__lookup__v1__RouteLookupRequest_msg_init_ptr :: mt_ref where "grpc__lookup__v1__RouteLookupRequest_msg_init_ptr \<equiv> Mt 82"
abbreviation grpc__lookup__v1__RouteLookupRequest__KeyMapEntry_msg_init_ptr :: mt_ref where "grpc__lookup__v1__RouteLookupRequest__KeyMapEntry_msg_init_ptr \<equiv> Mt 83"
abbreviation grpc__lookup__v1__RouteLookupResponse_msg_init_ptr :: mt_ref where "grpc__lookup__v1__RouteLookupResponse_msg_init_ptr \<equiv> Mt 84"
abbreviation grpc__lookup__v1__NameMatcher_msg_init_ptr :: mt_ref where "grpc__lookup__v1__NameMatcher_msg_init_ptr \<equiv> Mt 85"
abbreviation grpc__lookup__v1__GrpcKeyBuilder_msg_init_ptr :: mt_ref where "grpc__lookup__v1__GrpcKeyBuilder_msg_init_ptr \<equiv> Mt 86"
abbreviation grpc__lookup__v1__GrpcKeyBuilder__Name_msg_init_ptr :: mt_ref where "grpc__lookup__v1__GrpcKeyBuilder__Name_msg_init_ptr \<equiv> Mt 87"
abbreviation grpc__lookup__v1__GrpcKeyBuilder__ExtraKeys_msg_init_ptr :: mt_ref where "grpc__lookup__v1__GrpcKeyBuilder__ExtraKeys_msg_init_ptr \<equiv> Mt 88"
abbreviation grpc__lookup__v1__GrpcKeyBuilder__ConstantKeysEntry_msg_init_ptr :: mt_ref where "grpc__lookup__v1__GrpcKeyBuilder__ConstantKeysEntry_msg_init_ptr \<equiv> Mt 89"
abbreviation grpc__lookup__v1__HttpKeyBuilder_msg_init_ptr :: mt_ref where "grpc__lookup__v1__HttpKeyBuilder_msg_init_ptr \<equiv> Mt 90"
abbreviation grpc__lookup__v1__HttpKeyBuilder__ConstantKeysEntry_msg_init_ptr :: mt_ref where "grpc__lookup__v1__HttpKeyBuilder__ConstantKeysEntry_msg_init_ptr \<equiv> Mt 91"
abbreviation grpc__lookup__v1__RouteLookupConfig_msg_init_ptr :: mt_ref where "grpc__lookup__v1__RouteLookupConfig_msg_init_ptr \<equiv> Mt 92"
abbreviation grpc__lookup__v1__RouteLookupClusterSpecifier_msg_init_ptr :: mt_ref where "grpc__lookup__v1__RouteLookupClusterSpecifier_msg_init_ptr \<equiv> Mt 93"
abbreviation google__api__expr__v1alpha1__ParsedExpr_msg_init_ptr :: mt_ref where "google__api__expr__v1alpha1__ParsedExpr_msg_init_ptr \<equiv> Mt 94"
abbreviation google__api__expr__v1alpha1__Expr_msg_init_ptr :: mt_ref where "google__api__expr__v1alpha1__Expr_msg_init_ptr \<equiv> Mt 95"
abbreviation google__api__expr__v1alpha1__Expr__Ident_msg_init_ptr :: mt_ref where "google__api__expr__v1alpha1__Expr__Ident_msg_init_ptr \<equiv> Mt 96"
abbreviation google__api__expr__v1alpha1__Expr__Select_msg_init_ptr :: mt_ref where "google__api__expr__v1alpha1__Expr__Select_msg_init_ptr \<equiv> Mt 97"
abbreviation google__api__expr__v1alpha1__Expr__Call_msg_init_ptr :: mt_ref where "google__api__expr__v1alpha1__Expr__Call_msg_init_ptr \<equiv> Mt 98"
abbreviation google__api__expr__v1alpha1__Expr__CreateList_msg_init_ptr :: mt_ref where "google__api__expr__v1alpha1__Expr__CreateList_msg_init_ptr \<equiv> Mt 99"
abbreviation google__api__expr__v1alpha1__Expr__CreateStruct_msg_init_ptr :: mt_ref where "google__api__expr__v1alpha1__Expr__CreateStruct_msg_init_ptr \<equiv> Mt 100"
abbreviation google__api__expr__v1alpha1__Expr__CreateStruct__Entry_msg_init_ptr :: mt_ref where "google__api__expr__v1alpha1__Expr__CreateStruct__Entry_msg_init_ptr \<equiv> Mt 101"
abbreviation google__api__expr__v1alpha1__Expr__Comprehension_msg_init_ptr :: mt_ref where "google__api__expr__v1alpha1__Expr__Comprehension_msg_init_ptr \<equiv> Mt 102"
abbreviation google__api__expr__v1alpha1__Constant_msg_init_ptr :: mt_ref where "google__api__expr__v1alpha1__Constant_msg_init_ptr \<equiv> Mt 103"
abbreviation google__api__expr__v1alpha1__SourceInfo_msg_init_ptr :: mt_ref where "google__api__expr__v1alpha1__SourceInfo_msg_init_ptr \<equiv> Mt 104"
abbreviation google__api__expr__v1alpha1__SourceInfo__Extension_msg_init_ptr :: mt_ref where "google__api__expr__v1alpha1__SourceInfo__Extension_msg_init_ptr \<equiv> Mt 105"
abbreviation google__api__expr__v1alpha1__SourceInfo__Extension__Version_msg_init_ptr :: mt_ref where "google__api__expr__v1alpha1__SourceInfo__Extension__Version_msg_init_ptr \<equiv> Mt 106"
abbreviation google__api__expr__v1alpha1__SourceInfo__PositionsEntry_msg_init_ptr :: mt_ref where "google__api__expr__v1alpha1__SourceInfo__PositionsEntry_msg_init_ptr \<equiv> Mt 107"
abbreviation google__api__expr__v1alpha1__SourceInfo__MacroCallsEntry_msg_init_ptr :: mt_ref where "google__api__expr__v1alpha1__SourceInfo__MacroCallsEntry_msg_init_ptr \<equiv> Mt 108"
abbreviation google__api__expr__v1alpha1__SourcePosition_msg_init_ptr :: mt_ref where "google__api__expr__v1alpha1__SourcePosition_msg_init_ptr \<equiv> Mt 109"
abbreviation google__api__expr__v1alpha1__CheckedExpr_msg_init_ptr :: mt_ref where "google__api__expr__v1alpha1__CheckedExpr_msg_init_ptr \<equiv> Mt 110"
abbreviation google__api__expr__v1alpha1__CheckedExpr__ReferenceMapEntry_msg_init_ptr :: mt_ref where "google__api__expr__v1alpha1__CheckedExpr__ReferenceMapEntry_msg_init_ptr \<equiv> Mt 111"
abbreviation google__api__expr__v1alpha1__CheckedExpr__TypeMapEntry_msg_init_ptr :: mt_ref where "google__api__expr__v1alpha1__CheckedExpr__TypeMapEntry_msg_init_ptr \<equiv> Mt 112"
abbreviation google__api__expr__v1alpha1__Type_msg_init_ptr :: mt_ref where "google__api__expr__v1alpha1__Type_msg_init_ptr \<equiv> Mt 113"
abbreviation google__api__expr__v1alpha1__Type__ListType_msg_init_ptr :: mt_ref where "google__api__expr__v1alpha1__Type__ListType_msg_init_ptr \<equiv> Mt 114"
abbreviation google__api__expr__v1alpha1__Type__MapType_msg_init_ptr :: mt_ref where "google__api__expr__v1alpha1__Type__MapType_msg_init_ptr \<equiv> Mt 115"
abbreviation google__api__expr__v1alpha1__Type__FunctionType_msg_init_ptr :: mt_ref where "google__api__expr__v1alpha1__Type__FunctionType_msg_init_ptr \<equiv> Mt 116"
abbreviation google__api__expr__v1alpha1__Type__AbstractType_msg_init_ptr :: mt_ref where "google__api__expr__v1alpha1__Type__AbstractType_msg_init_ptr \<equiv> Mt 117"
abbreviation google__api__expr__v1alpha1__Decl_msg_init_ptr :: mt_ref where "google__api__expr__v1alpha1__Decl_msg_init_ptr \<equiv> Mt 118"
abbreviation google__api__expr__v1alpha1__Decl__IdentDecl_msg_init_ptr :: mt_ref where "google__api__expr__v1alpha1__Decl__IdentDecl_msg_init_ptr \<equiv> Mt 119"
abbreviation google__api__expr__v1alpha1__Decl__FunctionDecl_msg_init_ptr :: mt_ref where "google__api__expr__v1alpha1__Decl__FunctionDecl_msg_init_ptr \<equiv> Mt 120"
abbreviation google__api__expr__v1alpha1__Decl__FunctionDecl__Overload_msg_init_ptr :: mt_ref where "google__api__expr__v1alpha1__Decl__FunctionDecl__Overload_msg_init_ptr \<equiv> Mt 121"
abbreviation google__api__expr__v1alpha1__Reference_msg_init_ptr :: mt_ref where "google__api__expr__v1alpha1__Reference_msg_init_ptr \<equiv> Mt 122"
abbreviation validate__FieldRules_msg_init_ptr :: mt_ref where "validate__FieldRules_msg_init_ptr \<equiv> Mt 123"
abbreviation validate__FloatRules_msg_init_ptr :: mt_ref where "validate__FloatRules_msg_init_ptr \<equiv> Mt 124"
abbreviation validate__DoubleRules_msg_init_ptr :: mt_ref where "validate__DoubleRules_msg_init_ptr \<equiv> Mt 125"
abbreviation validate__Int32Rules_msg_init_ptr :: mt_ref where "validate__Int32Rules_msg_init_ptr \<equiv> Mt 126"
abbreviation validate__Int64Rules_msg_init_ptr :: mt_ref where "validate__Int64Rules_msg_init_ptr \<equiv> Mt 127"
abbreviation validate__UInt32Rules_msg_init_ptr :: mt_ref where "validate__UInt32Rules_msg_init_ptr \<equiv> Mt 128"
abbreviation validate__UInt64Rules_msg_init_ptr :: mt_ref where "validate__UInt64Rules_msg_init_ptr \<equiv> Mt 129"
abbreviation validate__SInt32Rules_msg_init_ptr :: mt_ref where "validate__SInt32Rules_msg_init_ptr \<equiv> Mt 130"
abbreviation validate__SInt64Rules_msg_init_ptr :: mt_ref where "validate__SInt64Rules_msg_init_ptr \<equiv> Mt 131"
abbreviation validate__Fixed32Rules_msg_init_ptr :: mt_ref where "validate__Fixed32Rules_msg_init_ptr \<equiv> Mt 132"
abbreviation validate__Fixed64Rules_msg_init_ptr :: mt_ref where "validate__Fixed64Rules_msg_init_ptr \<equiv> Mt 133"
abbreviation validate__SFixed32Rules_msg_init_ptr :: mt_ref where "validate__SFixed32Rules_msg_init_ptr \<equiv> Mt 134"
abbreviation validate__SFixed64Rules_msg_init_ptr :: mt_ref where "validate__SFixed64Rules_msg_init_ptr \<equiv> Mt 135"
abbreviation validate__BoolRules_msg_init_ptr :: mt_ref where "validate__BoolRules_msg_init_ptr \<equiv> Mt 136"
abbreviation validate__StringRules_msg_init_ptr :: mt_ref where "validate__StringRules_msg_init_ptr \<equiv> Mt 137"
abbreviation validate__BytesRules_msg_init_ptr :: mt_ref where "validate__BytesRules_msg_init_ptr \<equiv> Mt 138"
abbreviation validate__EnumRules_msg_init_ptr :: mt_ref where "validate__EnumRules_msg_init_ptr \<equiv> Mt 139"
abbreviation validate__MessageRules_msg_init_ptr :: mt_ref where "validate__MessageRules_msg_init_ptr \<equiv> Mt 140"
abbreviation validate__RepeatedRules_msg_init_ptr :: mt_ref where "validate__RepeatedRules_msg_init_ptr \<equiv> Mt 141"
abbreviation validate__MapRules_msg_init_ptr :: mt_ref where "validate__MapRules_msg_init_ptr \<equiv> Mt 142"
abbreviation validate__AnyRules_msg_init_ptr :: mt_ref where "validate__AnyRules_msg_init_ptr \<equiv> Mt 143"
abbreviation validate__DurationRules_msg_init_ptr :: mt_ref where "validate__DurationRules_msg_init_ptr \<equiv> Mt 144"
abbreviation validate__TimestampRules_msg_init_ptr :: mt_ref where "validate__TimestampRules_msg_init_ptr \<equiv> Mt 145"

abbreviation generated_table_count :: nat where "generated_table_count \<equiv> 146"

definition mt_wf :: "upb_MiniTable \<Rightarrow> bool" where
  "mt_wf m \<longleftrightarrow> mt_fields_wf m \<and> mt_layout_wf m \<and> mt_links_wf generated_table_count m"

text \<open>
  An extension is a field that lives in a table of its own, not in a message: it has no offset and
  no presence there, carries the extension flag, and has a sub-table exactly when its type asks for
  one.
\<close>

definition extension_wf :: "upb_MiniTableExtension \<Rightarrow> bool" where
  "extension_wf e \<longleftrightarrow>
     (let f = ext_field e in
      upb_MiniTableField_IsExtension f \<and> 0 < number f \<and> offset f = 0 \<and> presence f = 0
      \<and> (case ext_sub e of
            None \<Rightarrow> \<not> upb_MiniTableField_IsSubMessage f \<and> \<not> upb_MiniTableField_IsClosedEnum f
          | Some (Submsg _) \<Rightarrow> upb_MiniTableField_IsSubMessage f
          | Some (Subenum _) \<Rightarrow> upb_MiniTableField_IsClosedEnum f))"

section \<open>Evaluation\<close>

named_theorems table_wf \<open>well-formedness of the generated tables\<close>

lemmas table_simps =
  mt_wf_def mt_fields_wf_def mt_layout_wf_def mt_links_wf_def field_wf_def required_wf_def
  extension_wf_def mini_table_def mini_table_field_def cells_apart_def cell_in_message_def field_cell_def
  presence_cell_def rep_size_def rep_align_def upb_MiniTableField_GetRep_def
  upb_MiniTableField_IsExtension_def upb_MiniTableField_IsAlternate_def upb_MiniTableField_IsScalar_def
  upb_MiniTableField_IsArray_def upb_MiniTableField_IsMap_def upb_MiniTableField_IsPacked_def
  upb_MiniTableField_IsSubMessage_def upb_MiniTableField_IsClosedEnum_def upb_MiniTableField_Mode_def
  upb_FieldType_IsPackable_def upt_conv_Cons

end
