(* ===== verification/Gen_Descriptor.thy ===== *)
theory Gen_Descriptor
  imports Mini_Table_Refs
begin

unbundle bit_operations_syntax

text \<open>
  The generated mini tables of google/protobuf/descriptor.proto
  (\<^verbatim>\<open>descriptor.upb_minitable.c\<close>), initialiser by initialiser,
  in the 64-bit configuration and without the optional fast-decoder tables, and the check that each
  of them is well formed.
\<close>

section \<open>Definitions\<close>

definition google__protobuf__Edition_enum_init :: upb_MiniTableEnum where
  "google__protobuf__Edition_enum_init = \<lparr> mask_limit = 64, value_count = 9, enum_data = [0x7, 0x0, 0x384, 0x3e6, 0x3e7, 0x3e8, 0x3e9, 0x1869d, 0x1869e, 0x1869f, 0x7fffffff] \<rparr>"

definition google__protobuf__ExtensionRangeOptions__VerificationState_enum_init :: upb_MiniTableEnum where
  "google__protobuf__ExtensionRangeOptions__VerificationState_enum_init = \<lparr> mask_limit = 64, value_count = 0, enum_data = [0x3, 0x0] \<rparr>"

definition google__protobuf__FeatureSet__EnforceNamingStyle_enum_init :: upb_MiniTableEnum where
  "google__protobuf__FeatureSet__EnforceNamingStyle_enum_init = \<lparr> mask_limit = 64, value_count = 0, enum_data = [0x7, 0x0] \<rparr>"

definition google__protobuf__FeatureSet__EnumType_enum_init :: upb_MiniTableEnum where
  "google__protobuf__FeatureSet__EnumType_enum_init = \<lparr> mask_limit = 64, value_count = 0, enum_data = [0x7, 0x0] \<rparr>"

definition google__protobuf__FeatureSet__FieldPresence_enum_init :: upb_MiniTableEnum where
  "google__protobuf__FeatureSet__FieldPresence_enum_init = \<lparr> mask_limit = 64, value_count = 0, enum_data = [0xf, 0x0] \<rparr>"

definition google__protobuf__FeatureSet__JsonFormat_enum_init :: upb_MiniTableEnum where
  "google__protobuf__FeatureSet__JsonFormat_enum_init = \<lparr> mask_limit = 64, value_count = 0, enum_data = [0x7, 0x0] \<rparr>"

definition google__protobuf__FeatureSet__MessageEncoding_enum_init :: upb_MiniTableEnum where
  "google__protobuf__FeatureSet__MessageEncoding_enum_init = \<lparr> mask_limit = 64, value_count = 0, enum_data = [0x7, 0x0] \<rparr>"

definition google__protobuf__FeatureSet__RepeatedFieldEncoding_enum_init :: upb_MiniTableEnum where
  "google__protobuf__FeatureSet__RepeatedFieldEncoding_enum_init = \<lparr> mask_limit = 64, value_count = 0, enum_data = [0x7, 0x0] \<rparr>"

definition google__protobuf__FeatureSet__Utf8Validation_enum_init :: upb_MiniTableEnum where
  "google__protobuf__FeatureSet__Utf8Validation_enum_init = \<lparr> mask_limit = 64, value_count = 0, enum_data = [0xd, 0x0] \<rparr>"

definition google__protobuf__FieldDescriptorProto__Label_enum_init :: upb_MiniTableEnum where
  "google__protobuf__FieldDescriptorProto__Label_enum_init = \<lparr> mask_limit = 64, value_count = 0, enum_data = [0xe, 0x0] \<rparr>"

definition google__protobuf__FieldDescriptorProto__Type_enum_init :: upb_MiniTableEnum where
  "google__protobuf__FieldDescriptorProto__Type_enum_init = \<lparr> mask_limit = 64, value_count = 0, enum_data = [0x7fffe, 0x0] \<rparr>"

definition google__protobuf__FieldOptions__CType_enum_init :: upb_MiniTableEnum where
  "google__protobuf__FieldOptions__CType_enum_init = \<lparr> mask_limit = 64, value_count = 0, enum_data = [0x7, 0x0] \<rparr>"

definition google__protobuf__FieldOptions__JSType_enum_init :: upb_MiniTableEnum where
  "google__protobuf__FieldOptions__JSType_enum_init = \<lparr> mask_limit = 64, value_count = 0, enum_data = [0x7, 0x0] \<rparr>"

definition google__protobuf__FieldOptions__OptionRetention_enum_init :: upb_MiniTableEnum where
  "google__protobuf__FieldOptions__OptionRetention_enum_init = \<lparr> mask_limit = 64, value_count = 0, enum_data = [0x7, 0x0] \<rparr>"

definition google__protobuf__FieldOptions__OptionTargetType_enum_init :: upb_MiniTableEnum where
  "google__protobuf__FieldOptions__OptionTargetType_enum_init = \<lparr> mask_limit = 64, value_count = 0, enum_data = [0x3ff, 0x0] \<rparr>"

definition google__protobuf__FileOptions__OptimizeMode_enum_init :: upb_MiniTableEnum where
  "google__protobuf__FileOptions__OptimizeMode_enum_init = \<lparr> mask_limit = 64, value_count = 0, enum_data = [0xe, 0x0] \<rparr>"

definition google__protobuf__GeneratedCodeInfo__Annotation__Semantic_enum_init :: upb_MiniTableEnum where
  "google__protobuf__GeneratedCodeInfo__Annotation__Semantic_enum_init = \<lparr> mask_limit = 64, value_count = 0, enum_data = [0x7, 0x0] \<rparr>"

definition google__protobuf__MethodOptions__IdempotencyLevel_enum_init :: upb_MiniTableEnum where
  "google__protobuf__MethodOptions__IdempotencyLevel_enum_init = \<lparr> mask_limit = 64, value_count = 0, enum_data = [0x7, 0x0] \<rparr>"

definition google__protobuf__FileDescriptorSet_msg_init :: upb_MiniTable where
  "google__protobuf__FileDescriptorSet_msg_init = mini_table
     [Submsg google__protobuf__FileDescriptorProto_msg_init_ptr]
     [mini_table_field 1 8 0 0 kUpb_FieldType_Message
        (kUpb_FieldMode_Array OR push_bit kUpb_FieldRep_Shift kUpb_FieldRep_8Byte)]
     16 1 kUpb_ExtMode_Extendable 1 0"

definition google__protobuf__FileDescriptorProto_msg_init :: upb_MiniTable where
  "google__protobuf__FileDescriptorProto_msg_init = mini_table
     [Submsg google__protobuf__DescriptorProto_msg_init_ptr,
      Submsg google__protobuf__EnumDescriptorProto_msg_init_ptr,
      Submsg google__protobuf__ServiceDescriptorProto_msg_init_ptr,
      Submsg google__protobuf__FieldDescriptorProto_msg_init_ptr,
      Submsg google__protobuf__FileOptions_msg_init_ptr,
      Submsg google__protobuf__SourceCodeInfo_msg_init_ptr,
      Subenum google__protobuf__Edition_enum_init]
     [mini_table_field 1 16 64 kUpb_NoSub kUpb_FieldType_Bytes
        (kUpb_FieldMode_Scalar OR kUpb_LabelFlags_IsAlternate OR push_bit kUpb_FieldRep_Shift kUpb_FieldRep_StringView),
      mini_table_field 2 32 65 kUpb_NoSub kUpb_FieldType_Bytes
        (kUpb_FieldMode_Scalar OR kUpb_LabelFlags_IsAlternate OR push_bit kUpb_FieldRep_Shift kUpb_FieldRep_StringView),
      mini_table_field 3 64 0 kUpb_NoSub kUpb_FieldType_Bytes
        (kUpb_FieldMode_Array OR kUpb_LabelFlags_IsAlternate OR push_bit kUpb_FieldRep_Shift kUpb_FieldRep_8Byte),
      mini_table_field 4 72 0 0 kUpb_FieldType_Message
        (kUpb_FieldMode_Array OR push_bit kUpb_FieldRep_Shift kUpb_FieldRep_8Byte),
      mini_table_field 5 80 0 1 kUpb_FieldType_Message
        (kUpb_FieldMode_Array OR push_bit kUpb_FieldRep_Shift kUpb_FieldRep_8Byte),
      mini_table_field 6 88 0 2 kUpb_FieldType_Message
        (kUpb_FieldMode_Array OR push_bit kUpb_FieldRep_Shift kUpb_FieldRep_8Byte),
      mini_table_field 7 96 0 3 kUpb_FieldType_Message
        (kUpb_FieldMode_Array OR push_bit kUpb_FieldRep_Shift kUpb_FieldRep_8Byte),
      mini_table_field 8 104 66 4 kUpb_FieldType_Message
        (kUpb_FieldMode_Scalar OR push_bit kUpb_FieldRep_Shift kUpb_FieldRep_8Byte),
      mini_table_field 9 112 67 5 kUpb_FieldType_Message
        (kUpb_FieldMode_Scalar OR push_bit kUpb_FieldRep_Shift kUpb_FieldRep_8Byte),
      mini_table_field 10 120 0 kUpb_NoSub kUpb_FieldType_Int32
        (kUpb_FieldMode_Array OR push_bit kUpb_FieldRep_Shift kUpb_FieldRep_8Byte),
      mini_table_field 11 128 0 kUpb_NoSub kUpb_FieldType_Int32
        (kUpb_FieldMode_Array OR push_bit kUpb_FieldRep_Shift kUpb_FieldRep_8Byte),
      mini_table_field 12 48 68 kUpb_NoSub kUpb_FieldType_Bytes
        (kUpb_FieldMode_Scalar OR kUpb_LabelFlags_IsAlternate OR push_bit kUpb_FieldRep_Shift kUpb_FieldRep_StringView),
      mini_table_field 14 12 69 6 kUpb_FieldType_Enum
        (kUpb_FieldMode_Scalar OR push_bit kUpb_FieldRep_Shift kUpb_FieldRep_4Byte)]
     136 13 kUpb_ExtMode_NonExtendable 12 0"

definition google__protobuf__DescriptorProto_msg_init :: upb_MiniTable where
  "google__protobuf__DescriptorProto_msg_init = mini_table
     [Submsg google__protobuf__FieldDescriptorProto_msg_init_ptr,
      Submsg google__protobuf__DescriptorProto_msg_init_ptr,
      Submsg google__protobuf__EnumDescriptorProto_msg_init_ptr,
      Submsg google__protobuf__DescriptorProto__ExtensionRange_msg_init_ptr,
      Submsg google__protobuf__FieldDescriptorProto_msg_init_ptr,
      Submsg google__protobuf__MessageOptions_msg_init_ptr,
      Submsg google__protobuf__OneofDescriptorProto_msg_init_ptr,
      Submsg google__protobuf__DescriptorProto__ReservedRange_msg_init_ptr]
     [mini_table_field 1 16 64 kUpb_NoSub kUpb_FieldType_Bytes
        (kUpb_FieldMode_Scalar OR kUpb_LabelFlags_IsAlternate OR push_bit kUpb_FieldRep_Shift kUpb_FieldRep_StringView),
      mini_table_field 2 32 0 0 kUpb_FieldType_Message
        (kUpb_FieldMode_Array OR push_bit kUpb_FieldRep_Shift kUpb_FieldRep_8Byte),
      mini_table_field 3 40 0 1 kUpb_FieldType_Message
        (kUpb_FieldMode_Array OR push_bit kUpb_FieldRep_Shift kUpb_FieldRep_8Byte),
      mini_table_field 4 48 0 2 kUpb_FieldType_Message
        (kUpb_FieldMode_Array OR push_bit kUpb_FieldRep_Shift kUpb_FieldRep_8Byte),
      mini_table_field 5 56 0 3 kUpb_FieldType_Message
        (kUpb_FieldMode_Array OR push_bit kUpb_FieldRep_Shift kUpb_FieldRep_8Byte),
      mini_table_field 6 64 0 4 kUpb_FieldType_Message
        (kUpb_FieldMode_Array OR push_bit kUpb_FieldRep_Shift kUpb_FieldRep_8Byte),
      mini_table_field 7 72 65 5 kUpb_FieldType_Message
        (kUpb_FieldMode_Scalar OR push_bit kUpb_FieldRep_Shift kUpb_FieldRep_8Byte),
      mini_table_field 8 80 0 6 kUpb_FieldType_Message
        (kUpb_FieldMode_Array OR push_bit kUpb_FieldRep_Shift kUpb_FieldRep_8Byte),
      mini_table_field 9 88 0 7 kUpb_FieldType_Message
        (kUpb_FieldMode_Array OR push_bit kUpb_FieldRep_Shift kUpb_FieldRep_8Byte),
      mini_table_field 10 96 0 kUpb_NoSub kUpb_FieldType_Bytes
        (kUpb_FieldMode_Array OR kUpb_LabelFlags_IsAlternate OR push_bit kUpb_FieldRep_Shift kUpb_FieldRep_8Byte)]
     104 10 kUpb_ExtMode_NonExtendable 10 0"

definition google__protobuf__DescriptorProto__ExtensionRange_msg_init :: upb_MiniTable where
  "google__protobuf__DescriptorProto__ExtensionRange_msg_init = mini_table
     [Submsg google__protobuf__ExtensionRangeOptions_msg_init_ptr]
     [mini_table_field 1 12 64 kUpb_NoSub kUpb_FieldType_Int32
        (kUpb_FieldMode_Scalar OR push_bit kUpb_FieldRep_Shift kUpb_FieldRep_4Byte),
      mini_table_field 2 16 65 kUpb_NoSub kUpb_FieldType_Int32
        (kUpb_FieldMode_Scalar OR push_bit kUpb_FieldRep_Shift kUpb_FieldRep_4Byte),
      mini_table_field 3 24 66 0 kUpb_FieldType_Message
        (kUpb_FieldMode_Scalar OR push_bit kUpb_FieldRep_Shift kUpb_FieldRep_8Byte)]
     32 3 kUpb_ExtMode_NonExtendable 3 0"

definition google__protobuf__DescriptorProto__ReservedRange_msg_init :: upb_MiniTable where
  "google__protobuf__DescriptorProto__ReservedRange_msg_init = mini_table
     []
     [mini_table_field 1 12 64 kUpb_NoSub kUpb_FieldType_Int32
        (kUpb_FieldMode_Scalar OR push_bit kUpb_FieldRep_Shift kUpb_FieldRep_4Byte),
      mini_table_field 2 16 65 kUpb_NoSub kUpb_FieldType_Int32
        (kUpb_FieldMode_Scalar OR push_bit kUpb_FieldRep_Shift kUpb_FieldRep_4Byte)]
     24 2 kUpb_ExtMode_NonExtendable 2 0"

definition google__protobuf__ExtensionRangeOptions_msg_init :: upb_MiniTable where
  "google__protobuf__ExtensionRangeOptions_msg_init = mini_table
     [Submsg google__protobuf__ExtensionRangeOptions__Declaration_msg_init_ptr,
      Submsg google__protobuf__FeatureSet_msg_init_ptr,
      Submsg google__protobuf__UninterpretedOption_msg_init_ptr,
      Subenum google__protobuf__ExtensionRangeOptions__VerificationState_enum_init]
     [mini_table_field 2 16 0 0 kUpb_FieldType_Message
        (kUpb_FieldMode_Array OR push_bit kUpb_FieldRep_Shift kUpb_FieldRep_8Byte),
      mini_table_field 3 12 64 3 kUpb_FieldType_Enum
        (kUpb_FieldMode_Scalar OR push_bit kUpb_FieldRep_Shift kUpb_FieldRep_4Byte),
      mini_table_field 50 24 65 1 kUpb_FieldType_Message
        (kUpb_FieldMode_Scalar OR push_bit kUpb_FieldRep_Shift kUpb_FieldRep_8Byte),
      mini_table_field 999 32 0 2 kUpb_FieldType_Message
        (kUpb_FieldMode_Array OR push_bit kUpb_FieldRep_Shift kUpb_FieldRep_8Byte)]
     40 4 kUpb_ExtMode_Extendable 0 0"

definition google__protobuf__ExtensionRangeOptions__Declaration_msg_init :: upb_MiniTable where
  "google__protobuf__ExtensionRangeOptions__Declaration_msg_init = mini_table
     []
     [mini_table_field 1 12 64 kUpb_NoSub kUpb_FieldType_Int32
        (kUpb_FieldMode_Scalar OR push_bit kUpb_FieldRep_Shift kUpb_FieldRep_4Byte),
      mini_table_field 2 16 65 kUpb_NoSub kUpb_FieldType_Bytes
        (kUpb_FieldMode_Scalar OR kUpb_LabelFlags_IsAlternate OR push_bit kUpb_FieldRep_Shift kUpb_FieldRep_StringView),
      mini_table_field 3 32 66 kUpb_NoSub kUpb_FieldType_Bytes
        (kUpb_FieldMode_Scalar OR kUpb_LabelFlags_IsAlternate OR push_bit kUpb_FieldRep_Shift kUpb_FieldRep_StringView),
      mini_table_field 5 9 67 kUpb_NoSub kUpb_FieldType_Bool
        (kUpb_FieldMode_Scalar OR push_bit kUpb_FieldRep_Shift kUpb_FieldRep_1Byte),
      mini_table_field 6 10 68 kUpb_NoSub kUpb_FieldType_Bool
        (kUpb_FieldMode_Scalar OR push_bit kUpb_FieldRep_Shift kUpb_FieldRep_1Byte)]
     48 5 kUpb_ExtMode_NonExtendable 3 0"

definition google__protobuf__FieldDescriptorProto_msg_init :: upb_MiniTable where
  "google__protobuf__FieldDescriptorProto_msg_init = mini_table
     [Submsg google__protobuf__FieldOptions_msg_init_ptr,
      Subenum google__protobuf__FieldDescriptorProto__Label_enum_init,
      Subenum google__protobuf__FieldDescriptorProto__Type_enum_init]
     [mini_table_field 1 32 64 kUpb_NoSub kUpb_FieldType_Bytes
        (kUpb_FieldMode_Scalar OR kUpb_LabelFlags_IsAlternate OR push_bit kUpb_FieldRep_Shift kUpb_FieldRep_StringView),
      mini_table_field 2 48 65 kUpb_NoSub kUpb_FieldType_Bytes
        (kUpb_FieldMode_Scalar OR kUpb_LabelFlags_IsAlternate OR push_bit kUpb_FieldRep_Shift kUpb_FieldRep_StringView),
      mini_table_field 3 12 66 kUpb_NoSub kUpb_FieldType_Int32
        (kUpb_FieldMode_Scalar OR push_bit kUpb_FieldRep_Shift kUpb_FieldRep_4Byte),
      mini_table_field 4 16 67 1 kUpb_FieldType_Enum
        (kUpb_FieldMode_Scalar OR push_bit kUpb_FieldRep_Shift kUpb_FieldRep_4Byte),
      mini_table_field 5 20 68 2 kUpb_FieldType_Enum
        (kUpb_FieldMode_Scalar OR push_bit kUpb_FieldRep_Shift kUpb_FieldRep_4Byte),
      mini_table_field 6 64 69 kUpb_NoSub kUpb_FieldType_Bytes
        (kUpb_FieldMode_Scalar OR kUpb_LabelFlags_IsAlternate OR push_bit kUpb_FieldRep_Shift kUpb_FieldRep_StringView),
      mini_table_field 7 80 70 kUpb_NoSub kUpb_FieldType_Bytes
        (kUpb_FieldMode_Scalar OR kUpb_LabelFlags_IsAlternate OR push_bit kUpb_FieldRep_Shift kUpb_FieldRep_StringView),
      mini_table_field 8 112 71 0 kUpb_FieldType_Message
        (kUpb_FieldMode_Scalar OR push_bit kUpb_FieldRep_Shift kUpb_FieldRep_8Byte),
      mini_table_field 9 24 72 kUpb_NoSub kUpb_FieldType_Int32
        (kUpb_FieldMode_Scalar OR push_bit kUpb_FieldRep_Shift kUpb_FieldRep_4Byte),
      mini_table_field 10 96 73 kUpb_NoSub kUpb_FieldType_Bytes
        (kUpb_FieldMode_Scalar OR kUpb_LabelFlags_IsAlternate OR push_bit kUpb_FieldRep_Shift kUpb_FieldRep_StringView),
      mini_table_field 17 10 74 kUpb_NoSub kUpb_FieldType_Bool
        (kUpb_FieldMode_Scalar OR push_bit kUpb_FieldRep_Shift kUpb_FieldRep_1Byte)]
     120 11 kUpb_ExtMode_NonExtendable 10 0"

definition google__protobuf__OneofDescriptorProto_msg_init :: upb_MiniTable where
  "google__protobuf__OneofDescriptorProto_msg_init = mini_table
     [Submsg google__protobuf__OneofOptions_msg_init_ptr]
     [mini_table_field 1 16 64 kUpb_NoSub kUpb_FieldType_Bytes
        (kUpb_FieldMode_Scalar OR kUpb_LabelFlags_IsAlternate OR push_bit kUpb_FieldRep_Shift kUpb_FieldRep_StringView),
      mini_table_field 2 32 65 0 kUpb_FieldType_Message
        (kUpb_FieldMode_Scalar OR push_bit kUpb_FieldRep_Shift kUpb_FieldRep_8Byte)]
     40 2 kUpb_ExtMode_NonExtendable 2 0"

definition google__protobuf__EnumDescriptorProto_msg_init :: upb_MiniTable where
  "google__protobuf__EnumDescriptorProto_msg_init = mini_table
     [Submsg google__protobuf__EnumValueDescriptorProto_msg_init_ptr,
      Submsg google__protobuf__EnumOptions_msg_init_ptr,
      Submsg google__protobuf__EnumDescriptorProto__EnumReservedRange_msg_init_ptr]
     [mini_table_field 1 16 64 kUpb_NoSub kUpb_FieldType_Bytes
        (kUpb_FieldMode_Scalar OR kUpb_LabelFlags_IsAlternate OR push_bit kUpb_FieldRep_Shift kUpb_FieldRep_StringView),
      mini_table_field 2 32 0 0 kUpb_FieldType_Message
        (kUpb_FieldMode_Array OR push_bit kUpb_FieldRep_Shift kUpb_FieldRep_8Byte),
      mini_table_field 3 40 65 1 kUpb_FieldType_Message
        (kUpb_FieldMode_Scalar OR push_bit kUpb_FieldRep_Shift kUpb_FieldRep_8Byte),
      mini_table_field 4 48 0 2 kUpb_FieldType_Message
        (kUpb_FieldMode_Array OR push_bit kUpb_FieldRep_Shift kUpb_FieldRep_8Byte),
      mini_table_field 5 56 0 kUpb_NoSub kUpb_FieldType_Bytes
        (kUpb_FieldMode_Array OR kUpb_LabelFlags_IsAlternate OR push_bit kUpb_FieldRep_Shift kUpb_FieldRep_8Byte)]
     64 5 kUpb_ExtMode_NonExtendable 5 0"

definition google__protobuf__EnumDescriptorProto__EnumReservedRange_msg_init :: upb_MiniTable where
  "google__protobuf__EnumDescriptorProto__EnumReservedRange_msg_init = mini_table
     []
     [mini_table_field 1 12 64 kUpb_NoSub kUpb_FieldType_Int32
        (kUpb_FieldMode_Scalar OR push_bit kUpb_FieldRep_Shift kUpb_FieldRep_4Byte),
      mini_table_field 2 16 65 kUpb_NoSub kUpb_FieldType_Int32
        (kUpb_FieldMode_Scalar OR push_bit kUpb_FieldRep_Shift kUpb_FieldRep_4Byte)]
     24 2 kUpb_ExtMode_NonExtendable 2 0"

definition google__protobuf__EnumValueDescriptorProto_msg_init :: upb_MiniTable where
  "google__protobuf__EnumValueDescriptorProto_msg_init = mini_table
     [Submsg google__protobuf__EnumValueOptions_msg_init_ptr]
     [mini_table_field 1 16 64 kUpb_NoSub kUpb_FieldType_Bytes
        (kUpb_FieldMode_Scalar OR kUpb_LabelFlags_IsAlternate OR push_bit kUpb_FieldRep_Shift kUpb_FieldRep_StringView),
      mini_table_field 2 12 65 kUpb_NoSub kUpb_FieldType_Int32
        (kUpb_FieldMode_Scalar OR push_bit kUpb_FieldRep_Shift kUpb_FieldRep_4Byte),
      mini_table_field 3 32 66 0 kUpb_FieldType_Message
        (kUpb_FieldMode_Scalar OR push_bit kUpb_FieldRep_Shift kUpb_FieldRep_8Byte)]
     40 3 kUpb_ExtMode_NonExtendable 3 0"

definition google__protobuf__ServiceDescriptorProto_msg_init :: upb_MiniTable where
  "google__protobuf__ServiceDescriptorProto_msg_init = mini_table
     [Submsg google__protobuf__MethodDescriptorProto_msg_init_ptr,
      Submsg google__protobuf__ServiceOptions_msg_init_ptr]
     [mini_table_field 1 16 64 kUpb_NoSub kUpb_FieldType_Bytes
        (kUpb_FieldMode_Scalar OR kUpb_LabelFlags_IsAlternate OR push_bit kUpb_FieldRep_Shift kUpb_FieldRep_StringView),
      mini_table_field 2 32 0 0 kUpb_FieldType_Message
        (kUpb_FieldMode_Array OR push_bit kUpb_FieldRep_Shift kUpb_FieldRep_8Byte),
      mini_table_field 3 40 65 1 kUpb_FieldType_Message
        (kUpb_FieldMode_Scalar OR push_bit kUpb_FieldRep_Shift kUpb_FieldRep_8Byte)]
     48 3 kUpb_ExtMode_NonExtendable 3 0"

definition google__protobuf__MethodDescriptorProto_msg_init :: upb_MiniTable where
  "google__protobuf__MethodDescriptorProto_msg_init = mini_table
     [Submsg google__protobuf__MethodOptions_msg_init_ptr]
     [mini_table_field 1 16 64 kUpb_NoSub kUpb_FieldType_Bytes
        (kUpb_FieldMode_Scalar OR kUpb_LabelFlags_IsAlternate OR push_bit kUpb_FieldRep_Shift kUpb_FieldRep_StringView),
      mini_table_field 2 32 65 kUpb_NoSub kUpb_FieldType_Bytes
        (kUpb_FieldMode_Scalar OR kUpb_LabelFlags_IsAlternate OR push_bit kUpb_FieldRep_Shift kUpb_FieldRep_StringView),
      mini_table_field 3 48 66 kUpb_NoSub kUpb_FieldType_Bytes
        (kUpb_FieldMode_Scalar OR kUpb_LabelFlags_IsAlternate OR push_bit kUpb_FieldRep_Shift kUpb_FieldRep_StringView),
      mini_table_field 4 64 67 0 kUpb_FieldType_Message
        (kUpb_FieldMode_Scalar OR push_bit kUpb_FieldRep_Shift kUpb_FieldRep_8Byte),
      mini_table_field 5 9 68 kUpb_NoSub kUpb_FieldType_Bool
        (kUpb_FieldMode_Scalar OR push_bit kUpb_FieldRep_Shift kUpb_FieldRep_1Byte),
      mini_table_field 6 10 69 kUpb_NoSub kUpb_FieldType_Bool
        (kUpb_FieldMode_Scalar OR push_bit kUpb_FieldRep_Shift kUpb_FieldRep_1Byte)]
     72 6 kUpb_ExtMode_NonExtendable 6 0"

definition google__protobuf__FileOptions_msg_init :: upb_MiniTable where
  "google__protobuf__FileOptions_msg_init = mini_table
     [Submsg google__protobuf__FeatureSet_msg_init_ptr,
      Submsg google__protobuf__UninterpretedOption_msg_init_ptr,
      Subenum google__protobuf__FileOptions__OptimizeMode_enum_init]
     [mini_table_field 1 24 64 kUpb_NoSub kUpb_FieldType_Bytes
        (kUpb_FieldMode_Scalar OR kUpb_LabelFlags_IsAlternate OR push_bit kUpb_FieldRep_Shift kUpb_FieldRep_StringView),
      mini_table_field 8 40 65 kUpb_NoSub kUpb_FieldType_Bytes
        (kUpb_FieldMode_Scalar OR kUpb_LabelFlags_IsAlternate OR push_bit kUpb_FieldRep_Shift kUpb_FieldRep_StringView),
      mini_table_field 9 20 66 2 kUpb_FieldType_Enum
        (kUpb_FieldMode_Scalar OR push_bit kUpb_FieldRep_Shift kUpb_FieldRep_4Byte),
      mini_table_field 10 11 67 kUpb_NoSub kUpb_FieldType_Bool
        (kUpb_FieldMode_Scalar OR push_bit kUpb_FieldRep_Shift kUpb_FieldRep_1Byte),
      mini_table_field 11 56 68 kUpb_NoSub kUpb_FieldType_Bytes
        (kUpb_FieldMode_Scalar OR kUpb_LabelFlags_IsAlternate OR push_bit kUpb_FieldRep_Shift kUpb_FieldRep_StringView),
      mini_table_field 16 12 69 kUpb_NoSub kUpb_FieldType_Bool
        (kUpb_FieldMode_Scalar OR push_bit kUpb_FieldRep_Shift kUpb_FieldRep_1Byte),
      mini_table_field 17 13 70 kUpb_NoSub kUpb_FieldType_Bool
        (kUpb_FieldMode_Scalar OR push_bit kUpb_FieldRep_Shift kUpb_FieldRep_1Byte),
      mini_table_field 18 14 71 kUpb_NoSub kUpb_FieldType_Bool
        (kUpb_FieldMode_Scalar OR push_bit kUpb_FieldRep_Shift kUpb_FieldRep_1Byte),
      mini_table_field 20 15 72 kUpb_NoSub kUpb_FieldType_Bool
        (kUpb_FieldMode_Scalar OR push_bit kUpb_FieldRep_Shift kUpb_FieldRep_1Byte),
      mini_table_field 23 16 73 kUpb_NoSub kUpb_FieldType_Bool
        (kUpb_FieldMode_Scalar OR push_bit kUpb_FieldRep_Shift kUpb_FieldRep_1Byte),
      mini_table_field 27 17 74 kUpb_NoSub kUpb_FieldType_Bool
        (kUpb_FieldMode_Scalar OR push_bit kUpb_FieldRep_Shift kUpb_FieldRep_1Byte),
      mini_table_field 31 18 75 kUpb_NoSub kUpb_FieldType_Bool
        (kUpb_FieldMode_Scalar OR push_bit kUpb_FieldRep_Shift kUpb_FieldRep_1Byte),
      mini_table_field 36 72 76 kUpb_NoSub kUpb_FieldType_Bytes
        (kUpb_FieldMode_Scalar OR kUpb_LabelFlags_IsAlternate OR push_bit kUpb_FieldRep_Shift kUpb_FieldRep_StringView),
      mini_table_field 37 88 77 kUpb_NoSub kUpb_FieldType_Bytes
        (kUpb_FieldMode_Scalar OR kUpb_LabelFlags_IsAlternate OR push_bit kUpb_FieldRep_Shift kUpb_FieldRep_StringView),
      mini_table_field 39 104 78 kUpb_NoSub kUpb_FieldType_Bytes
        (kUpb_FieldMode_Scalar OR kUpb_LabelFlags_IsAlternate OR push_bit kUpb_FieldRep_Shift kUpb_FieldRep_StringView),
      mini_table_field 40 120 79 kUpb_NoSub kUpb_FieldType_Bytes
        (kUpb_FieldMode_Scalar OR kUpb_LabelFlags_IsAlternate OR push_bit kUpb_FieldRep_Shift kUpb_FieldRep_StringView),
      mini_table_field 41 136 80 kUpb_NoSub kUpb_FieldType_Bytes
        (kUpb_FieldMode_Scalar OR kUpb_LabelFlags_IsAlternate OR push_bit kUpb_FieldRep_Shift kUpb_FieldRep_StringView),
      mini_table_field 44 152 81 kUpb_NoSub kUpb_FieldType_Bytes
        (kUpb_FieldMode_Scalar OR kUpb_LabelFlags_IsAlternate OR push_bit kUpb_FieldRep_Shift kUpb_FieldRep_StringView),
      mini_table_field 45 168 82 kUpb_NoSub kUpb_FieldType_Bytes
        (kUpb_FieldMode_Scalar OR kUpb_LabelFlags_IsAlternate OR push_bit kUpb_FieldRep_Shift kUpb_FieldRep_StringView),
      mini_table_field 50 184 83 0 kUpb_FieldType_Message
        (kUpb_FieldMode_Scalar OR push_bit kUpb_FieldRep_Shift kUpb_FieldRep_8Byte),
      mini_table_field 999 192 0 1 kUpb_FieldType_Message
        (kUpb_FieldMode_Array OR push_bit kUpb_FieldRep_Shift kUpb_FieldRep_8Byte)]
     200 21 kUpb_ExtMode_Extendable 1 0"

definition google__protobuf__MessageOptions_msg_init :: upb_MiniTable where
  "google__protobuf__MessageOptions_msg_init = mini_table
     [Submsg google__protobuf__FeatureSet_msg_init_ptr,
      Submsg google__protobuf__UninterpretedOption_msg_init_ptr]
     [mini_table_field 1 9 64 kUpb_NoSub kUpb_FieldType_Bool
        (kUpb_FieldMode_Scalar OR push_bit kUpb_FieldRep_Shift kUpb_FieldRep_1Byte),
      mini_table_field 2 10 65 kUpb_NoSub kUpb_FieldType_Bool
        (kUpb_FieldMode_Scalar OR push_bit kUpb_FieldRep_Shift kUpb_FieldRep_1Byte),
      mini_table_field 3 11 66 kUpb_NoSub kUpb_FieldType_Bool
        (kUpb_FieldMode_Scalar OR push_bit kUpb_FieldRep_Shift kUpb_FieldRep_1Byte),
      mini_table_field 7 12 67 kUpb_NoSub kUpb_FieldType_Bool
        (kUpb_FieldMode_Scalar OR push_bit kUpb_FieldRep_Shift kUpb_FieldRep_1Byte),
      mini_table_field 11 13 68 kUpb_NoSub kUpb_FieldType_Bool
        (kUpb_FieldMode_Scalar OR push_bit kUpb_FieldRep_Shift kUpb_FieldRep_1Byte),
      mini_table_field 12 16 69 0 kUpb_FieldType_Message
        (kUpb_FieldMode_Scalar OR push_bit kUpb_FieldRep_Shift kUpb_FieldRep_8Byte),
      mini_table_field 999 24 0 1 kUpb_FieldType_Message
        (kUpb_FieldMode_Array OR push_bit kUpb_FieldRep_Shift kUpb_FieldRep_8Byte)]
     32 7 kUpb_ExtMode_Extendable 3 0"

definition google__protobuf__FieldOptions_msg_init :: upb_MiniTable where
  "google__protobuf__FieldOptions_msg_init = mini_table
     [Submsg google__protobuf__FieldOptions__EditionDefault_msg_init_ptr,
      Submsg google__protobuf__FeatureSet_msg_init_ptr,
      Submsg google__protobuf__FieldOptions__FeatureSupport_msg_init_ptr,
      Submsg google__protobuf__UninterpretedOption_msg_init_ptr,
      Subenum google__protobuf__FieldOptions__CType_enum_init,
      Subenum google__protobuf__FieldOptions__JSType_enum_init,
      Subenum google__protobuf__FieldOptions__OptionRetention_enum_init,
      Subenum google__protobuf__FieldOptions__OptionTargetType_enum_init]
     [mini_table_field 1 16 64 4 kUpb_FieldType_Enum
        (kUpb_FieldMode_Scalar OR push_bit kUpb_FieldRep_Shift kUpb_FieldRep_4Byte),
      mini_table_field 2 10 65 kUpb_NoSub kUpb_FieldType_Bool
        (kUpb_FieldMode_Scalar OR push_bit kUpb_FieldRep_Shift kUpb_FieldRep_1Byte),
      mini_table_field 3 11 66 kUpb_NoSub kUpb_FieldType_Bool
        (kUpb_FieldMode_Scalar OR push_bit kUpb_FieldRep_Shift kUpb_FieldRep_1Byte),
      mini_table_field 5 12 67 kUpb_NoSub kUpb_FieldType_Bool
        (kUpb_FieldMode_Scalar OR push_bit kUpb_FieldRep_Shift kUpb_FieldRep_1Byte),
      mini_table_field 6 20 68 5 kUpb_FieldType_Enum
        (kUpb_FieldMode_Scalar OR push_bit kUpb_FieldRep_Shift kUpb_FieldRep_4Byte),
      mini_table_field 10 13 69 kUpb_NoSub kUpb_FieldType_Bool
        (kUpb_FieldMode_Scalar OR push_bit kUpb_FieldRep_Shift kUpb_FieldRep_1Byte),
      mini_table_field 15 14 70 kUpb_NoSub kUpb_FieldType_Bool
        (kUpb_FieldMode_Scalar OR push_bit kUpb_FieldRep_Shift kUpb_FieldRep_1Byte),
      mini_table_field 16 15 71 kUpb_NoSub kUpb_FieldType_Bool
        (kUpb_FieldMode_Scalar OR push_bit kUpb_FieldRep_Shift kUpb_FieldRep_1Byte),
      mini_table_field 17 24 72 6 kUpb_FieldType_Enum
        (kUpb_FieldMode_Scalar OR push_bit kUpb_FieldRep_Shift kUpb_FieldRep_4Byte),
      mini_table_field 19 32 0 7 kUpb_FieldType_Enum
        (kUpb_FieldMode_Array OR push_bit kUpb_FieldRep_Shift kUpb_FieldRep_8Byte),
      mini_table_field 20 40 0 0 kUpb_FieldType_Message
        (kUpb_FieldMode_Array OR push_bit kUpb_FieldRep_Shift kUpb_FieldRep_8Byte),
      mini_table_field 21 48 73 1 kUpb_FieldType_Message
        (kUpb_FieldMode_Scalar OR push_bit kUpb_FieldRep_Shift kUpb_FieldRep_8Byte),
      mini_table_field 22 56 74 2 kUpb_FieldType_Message
        (kUpb_FieldMode_Scalar OR push_bit kUpb_FieldRep_Shift kUpb_FieldRep_8Byte),
      mini_table_field 999 64 0 3 kUpb_FieldType_Message
        (kUpb_FieldMode_Array OR push_bit kUpb_FieldRep_Shift kUpb_FieldRep_8Byte)]
     72 14 kUpb_ExtMode_Extendable 3 0"

definition google__protobuf__FieldOptions__EditionDefault_msg_init :: upb_MiniTable where
  "google__protobuf__FieldOptions__EditionDefault_msg_init = mini_table
     [Subenum google__protobuf__Edition_enum_init]
     [mini_table_field 2 16 64 kUpb_NoSub kUpb_FieldType_Bytes
        (kUpb_FieldMode_Scalar OR kUpb_LabelFlags_IsAlternate OR push_bit kUpb_FieldRep_Shift kUpb_FieldRep_StringView),
      mini_table_field 3 12 65 0 kUpb_FieldType_Enum
        (kUpb_FieldMode_Scalar OR push_bit kUpb_FieldRep_Shift kUpb_FieldRep_4Byte)]
     32 2 kUpb_ExtMode_NonExtendable 0 0"

definition google__protobuf__FieldOptions__FeatureSupport_msg_init :: upb_MiniTable where
  "google__protobuf__FieldOptions__FeatureSupport_msg_init = mini_table
     [Subenum google__protobuf__Edition_enum_init,
      Subenum google__protobuf__Edition_enum_init,
      Subenum google__protobuf__Edition_enum_init]
     [mini_table_field 1 12 64 0 kUpb_FieldType_Enum
        (kUpb_FieldMode_Scalar OR push_bit kUpb_FieldRep_Shift kUpb_FieldRep_4Byte),
      mini_table_field 2 16 65 1 kUpb_FieldType_Enum
        (kUpb_FieldMode_Scalar OR push_bit kUpb_FieldRep_Shift kUpb_FieldRep_4Byte),
      mini_table_field 3 24 66 kUpb_NoSub kUpb_FieldType_Bytes
        (kUpb_FieldMode_Scalar OR kUpb_LabelFlags_IsAlternate OR push_bit kUpb_FieldRep_Shift kUpb_FieldRep_StringView),
      mini_table_field 4 20 67 2 kUpb_FieldType_Enum
        (kUpb_FieldMode_Scalar OR push_bit kUpb_FieldRep_Shift kUpb_FieldRep_4Byte)]
     40 4 kUpb_ExtMode_NonExtendable 4 0"

definition google__protobuf__OneofOptions_msg_init :: upb_MiniTable where
  "google__protobuf__OneofOptions_msg_init = mini_table
     [Submsg google__protobuf__FeatureSet_msg_init_ptr,
      Submsg google__protobuf__UninterpretedOption_msg_init_ptr]
     [mini_table_field 1 16 64 0 kUpb_FieldType_Message
        (kUpb_FieldMode_Scalar OR push_bit kUpb_FieldRep_Shift kUpb_FieldRep_8Byte),
      mini_table_field 999 24 0 1 kUpb_FieldType_Message
        (kUpb_FieldMode_Array OR push_bit kUpb_FieldRep_Shift kUpb_FieldRep_8Byte)]
     32 2 kUpb_ExtMode_Extendable 1 0"

definition google__protobuf__EnumOptions_msg_init :: upb_MiniTable where
  "google__protobuf__EnumOptions_msg_init = mini_table
     [Submsg google__protobuf__FeatureSet_msg_init_ptr,
      Submsg google__protobuf__UninterpretedOption_msg_init_ptr]
     [mini_table_field 2 9 64 kUpb_NoSub kUpb_FieldType_Bool
        (kUpb_FieldMode_Scalar OR push_bit kUpb_FieldRep_Shift kUpb_FieldRep_1Byte),
      mini_table_field 3 10 65 kUpb_NoSub kUpb_FieldType_Bool
        (kUpb_FieldMode_Scalar OR push_bit kUpb_FieldRep_Shift kUpb_FieldRep_1Byte),
      mini_table_field 6 11 66 kUpb_NoSub kUpb_FieldType_Bool
        (kUpb_FieldMode_Scalar OR push_bit kUpb_FieldRep_Shift kUpb_FieldRep_1Byte),
      mini_table_field 7 16 67 0 kUpb_FieldType_Message
        (kUpb_FieldMode_Scalar OR push_bit kUpb_FieldRep_Shift kUpb_FieldRep_8Byte),
      mini_table_field 999 24 0 1 kUpb_FieldType_Message
        (kUpb_FieldMode_Array OR push_bit kUpb_FieldRep_Shift kUpb_FieldRep_8Byte)]
     32 5 kUpb_ExtMode_Extendable 0 0"

definition google__protobuf__EnumValueOptions_msg_init :: upb_MiniTable where
  "google__protobuf__EnumValueOptions_msg_init = mini_table
     [Submsg google__protobuf__FeatureSet_msg_init_ptr,
      Submsg google__protobuf__FieldOptions__FeatureSupport_msg_init_ptr,
      Submsg google__protobuf__UninterpretedOption_msg_init_ptr]
     [mini_table_field 1 9 64 kUpb_NoSub kUpb_FieldType_Bool
        (kUpb_FieldMode_Scalar OR push_bit kUpb_FieldRep_Shift kUpb_FieldRep_1Byte),
      mini_table_field 2 16 65 0 kUpb_FieldType_Message
        (kUpb_FieldMode_Scalar OR push_bit kUpb_FieldRep_Shift kUpb_FieldRep_8Byte),
      mini_table_field 3 10 66 kUpb_NoSub kUpb_FieldType_Bool
        (kUpb_FieldMode_Scalar OR push_bit kUpb_FieldRep_Shift kUpb_FieldRep_1Byte),
      mini_table_field 4 24 67 1 kUpb_FieldType_Message
        (kUpb_FieldMode_Scalar OR push_bit kUpb_FieldRep_Shift kUpb_FieldRep_8Byte),
      mini_table_field 999 32 0 2 kUpb_FieldType_Message
        (kUpb_FieldMode_Array OR push_bit kUpb_FieldRep_Shift kUpb_FieldRep_8Byte)]
     40 5 kUpb_ExtMode_Extendable 4 0"

definition google__protobuf__ServiceOptions_msg_init :: upb_MiniTable where
  "google__protobuf__ServiceOptions_msg_init = mini_table
     [Submsg google__protobuf__FeatureSet_msg_init_ptr,
      Submsg google__protobuf__UninterpretedOption_msg_init_ptr]
     [mini_table_field 33 9 64 kUpb_NoSub kUpb_FieldType_Bool
        (kUpb_FieldMode_Scalar OR push_bit kUpb_FieldRep_Shift kUpb_FieldRep_1Byte),
      mini_table_field 34 16 65 0 kUpb_FieldType_Message
        (kUpb_FieldMode_Scalar OR push_bit kUpb_FieldRep_Shift kUpb_FieldRep_8Byte),
      mini_table_field 999 24 0 1 kUpb_FieldType_Message
        (kUpb_FieldMode_Array OR push_bit kUpb_FieldRep_Shift kUpb_FieldRep_8Byte)]
     32 3 kUpb_ExtMode_Extendable 0 0"

definition google__protobuf__MethodOptions_msg_init :: upb_MiniTable where
  "google__protobuf__MethodOptions_msg_init = mini_table
     [Submsg google__protobuf__FeatureSet_msg_init_ptr,
      Submsg google__protobuf__UninterpretedOption_msg_init_ptr,
      Subenum google__protobuf__MethodOptions__IdempotencyLevel_enum_init]
     [mini_table_field 33 9 64 kUpb_NoSub kUpb_FieldType_Bool
        (kUpb_FieldMode_Scalar OR push_bit kUpb_FieldRep_Shift kUpb_FieldRep_1Byte),
      mini_table_field 34 12 65 2 kUpb_FieldType_Enum
        (kUpb_FieldMode_Scalar OR push_bit kUpb_FieldRep_Shift kUpb_FieldRep_4Byte),
      mini_table_field 35 16 66 0 kUpb_FieldType_Message
        (kUpb_FieldMode_Scalar OR push_bit kUpb_FieldRep_Shift kUpb_FieldRep_8Byte),
      mini_table_field 999 24 0 1 kUpb_FieldType_Message
        (kUpb_FieldMode_Array OR push_bit kUpb_FieldRep_Shift kUpb_FieldRep_8Byte)]
     32 4 kUpb_ExtMode_Extendable 0 0"

definition google__protobuf__UninterpretedOption_msg_init :: upb_MiniTable where
  "google__protobuf__UninterpretedOption_msg_init = mini_table
     [Submsg google__protobuf__UninterpretedOption__NamePart_msg_init_ptr]
     [mini_table_field 2 64 0 0 kUpb_FieldType_Message
        (kUpb_FieldMode_Array OR push_bit kUpb_FieldRep_Shift kUpb_FieldRep_8Byte),
      mini_table_field 3 16 64 kUpb_NoSub kUpb_FieldType_Bytes
        (kUpb_FieldMode_Scalar OR kUpb_LabelFlags_IsAlternate OR push_bit kUpb_FieldRep_Shift kUpb_FieldRep_StringView),
      mini_table_field 4 72 65 kUpb_NoSub kUpb_FieldType_UInt64
        (kUpb_FieldMode_Scalar OR push_bit kUpb_FieldRep_Shift kUpb_FieldRep_8Byte),
      mini_table_field 5 80 66 kUpb_NoSub kUpb_FieldType_Int64
        (kUpb_FieldMode_Scalar OR push_bit kUpb_FieldRep_Shift kUpb_FieldRep_8Byte),
      mini_table_field 6 88 67 kUpb_NoSub kUpb_FieldType_Double
        (kUpb_FieldMode_Scalar OR push_bit kUpb_FieldRep_Shift kUpb_FieldRep_8Byte),
      mini_table_field 7 32 68 kUpb_NoSub kUpb_FieldType_Bytes
        (kUpb_FieldMode_Scalar OR push_bit kUpb_FieldRep_Shift kUpb_FieldRep_StringView),
      mini_table_field 8 48 69 kUpb_NoSub kUpb_FieldType_Bytes
        (kUpb_FieldMode_Scalar OR kUpb_LabelFlags_IsAlternate OR push_bit kUpb_FieldRep_Shift kUpb_FieldRep_StringView)]
     96 7 kUpb_ExtMode_NonExtendable 0 0"

definition google__protobuf__UninterpretedOption__NamePart_msg_init :: upb_MiniTable where
  "google__protobuf__UninterpretedOption__NamePart_msg_init = mini_table
     []
     [mini_table_field 1 16 64 kUpb_NoSub kUpb_FieldType_Bytes
        (kUpb_FieldMode_Scalar OR kUpb_LabelFlags_IsAlternate OR push_bit kUpb_FieldRep_Shift kUpb_FieldRep_StringView),
      mini_table_field 2 9 65 kUpb_NoSub kUpb_FieldType_Bool
        (kUpb_FieldMode_Scalar OR push_bit kUpb_FieldRep_Shift kUpb_FieldRep_1Byte)]
     32 2 kUpb_ExtMode_NonExtendable 2 2"

definition google__protobuf__FeatureSet_msg_init :: upb_MiniTable where
  "google__protobuf__FeatureSet_msg_init = mini_table
     [Subenum google__protobuf__FeatureSet__FieldPresence_enum_init,
      Subenum google__protobuf__FeatureSet__EnumType_enum_init,
      Subenum google__protobuf__FeatureSet__RepeatedFieldEncoding_enum_init,
      Subenum google__protobuf__FeatureSet__Utf8Validation_enum_init,
      Subenum google__protobuf__FeatureSet__MessageEncoding_enum_init,
      Subenum google__protobuf__FeatureSet__JsonFormat_enum_init,
      Subenum google__protobuf__FeatureSet__EnforceNamingStyle_enum_init]
     [mini_table_field 1 12 64 0 kUpb_FieldType_Enum
        (kUpb_FieldMode_Scalar OR push_bit kUpb_FieldRep_Shift kUpb_FieldRep_4Byte),
      mini_table_field 2 16 65 1 kUpb_FieldType_Enum
        (kUpb_FieldMode_Scalar OR push_bit kUpb_FieldRep_Shift kUpb_FieldRep_4Byte),
      mini_table_field 3 20 66 2 kUpb_FieldType_Enum
        (kUpb_FieldMode_Scalar OR push_bit kUpb_FieldRep_Shift kUpb_FieldRep_4Byte),
      mini_table_field 4 24 67 3 kUpb_FieldType_Enum
        (kUpb_FieldMode_Scalar OR push_bit kUpb_FieldRep_Shift kUpb_FieldRep_4Byte),
      mini_table_field 5 28 68 4 kUpb_FieldType_Enum
        (kUpb_FieldMode_Scalar OR push_bit kUpb_FieldRep_Shift kUpb_FieldRep_4Byte),
      mini_table_field 6 32 69 5 kUpb_FieldType_Enum
        (kUpb_FieldMode_Scalar OR push_bit kUpb_FieldRep_Shift kUpb_FieldRep_4Byte),
      mini_table_field 7 36 70 6 kUpb_FieldType_Enum
        (kUpb_FieldMode_Scalar OR push_bit kUpb_FieldRep_Shift kUpb_FieldRep_4Byte)]
     40 7 kUpb_ExtMode_Extendable 7 0"

definition google__protobuf__FeatureSetDefaults_msg_init :: upb_MiniTable where
  "google__protobuf__FeatureSetDefaults_msg_init = mini_table
     [Submsg google__protobuf__FeatureSetDefaults__FeatureSetEditionDefault_msg_init_ptr,
      Subenum google__protobuf__Edition_enum_init,
      Subenum google__protobuf__Edition_enum_init]
     [mini_table_field 1 24 0 0 kUpb_FieldType_Message
        (kUpb_FieldMode_Array OR push_bit kUpb_FieldRep_Shift kUpb_FieldRep_8Byte),
      mini_table_field 4 12 64 1 kUpb_FieldType_Enum
        (kUpb_FieldMode_Scalar OR push_bit kUpb_FieldRep_Shift kUpb_FieldRep_4Byte),
      mini_table_field 5 16 65 2 kUpb_FieldType_Enum
        (kUpb_FieldMode_Scalar OR push_bit kUpb_FieldRep_Shift kUpb_FieldRep_4Byte)]
     32 3 kUpb_ExtMode_NonExtendable 1 0"

definition google__protobuf__FeatureSetDefaults__FeatureSetEditionDefault_msg_init :: upb_MiniTable where
  "google__protobuf__FeatureSetDefaults__FeatureSetEditionDefault_msg_init = mini_table
     [Submsg google__protobuf__FeatureSet_msg_init_ptr,
      Submsg google__protobuf__FeatureSet_msg_init_ptr,
      Subenum google__protobuf__Edition_enum_init]
     [mini_table_field 3 12 64 2 kUpb_FieldType_Enum
        (kUpb_FieldMode_Scalar OR push_bit kUpb_FieldRep_Shift kUpb_FieldRep_4Byte),
      mini_table_field 4 16 65 0 kUpb_FieldType_Message
        (kUpb_FieldMode_Scalar OR push_bit kUpb_FieldRep_Shift kUpb_FieldRep_8Byte),
      mini_table_field 5 24 66 1 kUpb_FieldType_Message
        (kUpb_FieldMode_Scalar OR push_bit kUpb_FieldRep_Shift kUpb_FieldRep_8Byte)]
     32 3 kUpb_ExtMode_NonExtendable 0 0"

definition google__protobuf__SourceCodeInfo_msg_init :: upb_MiniTable where
  "google__protobuf__SourceCodeInfo_msg_init = mini_table
     [Submsg google__protobuf__SourceCodeInfo__Location_msg_init_ptr]
     [mini_table_field 1 8 0 0 kUpb_FieldType_Message
        (kUpb_FieldMode_Array OR push_bit kUpb_FieldRep_Shift kUpb_FieldRep_8Byte)]
     16 1 kUpb_ExtMode_Extendable 1 0"

definition google__protobuf__SourceCodeInfo__Location_msg_init :: upb_MiniTable where
  "google__protobuf__SourceCodeInfo__Location_msg_init = mini_table
     []
     [mini_table_field 1 48 0 kUpb_NoSub kUpb_FieldType_Int32
        (kUpb_FieldMode_Array OR kUpb_LabelFlags_IsPacked OR push_bit kUpb_FieldRep_Shift kUpb_FieldRep_8Byte),
      mini_table_field 2 56 0 kUpb_NoSub kUpb_FieldType_Int32
        (kUpb_FieldMode_Array OR kUpb_LabelFlags_IsPacked OR push_bit kUpb_FieldRep_Shift kUpb_FieldRep_8Byte),
      mini_table_field 3 16 64 kUpb_NoSub kUpb_FieldType_Bytes
        (kUpb_FieldMode_Scalar OR kUpb_LabelFlags_IsAlternate OR push_bit kUpb_FieldRep_Shift kUpb_FieldRep_StringView),
      mini_table_field 4 32 65 kUpb_NoSub kUpb_FieldType_Bytes
        (kUpb_FieldMode_Scalar OR kUpb_LabelFlags_IsAlternate OR push_bit kUpb_FieldRep_Shift kUpb_FieldRep_StringView),
      mini_table_field 6 64 0 kUpb_NoSub kUpb_FieldType_Bytes
        (kUpb_FieldMode_Array OR kUpb_LabelFlags_IsAlternate OR push_bit kUpb_FieldRep_Shift kUpb_FieldRep_8Byte)]
     72 5 kUpb_ExtMode_NonExtendable 4 0"

definition google__protobuf__GeneratedCodeInfo_msg_init :: upb_MiniTable where
  "google__protobuf__GeneratedCodeInfo_msg_init = mini_table
     [Submsg google__protobuf__GeneratedCodeInfo__Annotation_msg_init_ptr]
     [mini_table_field 1 8 0 0 kUpb_FieldType_Message
        (kUpb_FieldMode_Array OR push_bit kUpb_FieldRep_Shift kUpb_FieldRep_8Byte)]
     16 1 kUpb_ExtMode_NonExtendable 1 0"

definition google__protobuf__GeneratedCodeInfo__Annotation_msg_init :: upb_MiniTable where
  "google__protobuf__GeneratedCodeInfo__Annotation_msg_init = mini_table
     [Subenum google__protobuf__GeneratedCodeInfo__Annotation__Semantic_enum_init]
     [mini_table_field 1 40 0 kUpb_NoSub kUpb_FieldType_Int32
        (kUpb_FieldMode_Array OR kUpb_LabelFlags_IsPacked OR push_bit kUpb_FieldRep_Shift kUpb_FieldRep_8Byte),
      mini_table_field 2 24 64 kUpb_NoSub kUpb_FieldType_Bytes
        (kUpb_FieldMode_Scalar OR kUpb_LabelFlags_IsAlternate OR push_bit kUpb_FieldRep_Shift kUpb_FieldRep_StringView),
      mini_table_field 3 12 65 kUpb_NoSub kUpb_FieldType_Int32
        (kUpb_FieldMode_Scalar OR push_bit kUpb_FieldRep_Shift kUpb_FieldRep_4Byte),
      mini_table_field 4 16 66 kUpb_NoSub kUpb_FieldType_Int32
        (kUpb_FieldMode_Scalar OR push_bit kUpb_FieldRep_Shift kUpb_FieldRep_4Byte),
      mini_table_field 5 20 67 0 kUpb_FieldType_Enum
        (kUpb_FieldMode_Scalar OR push_bit kUpb_FieldRep_Shift kUpb_FieldRep_4Byte)]
     48 5 kUpb_ExtMode_NonExtendable 5 0"

definition gen_descriptor_tables :: "upb_MiniTable list" where
  "gen_descriptor_tables = [google__protobuf__FileDescriptorSet_msg_init,
     google__protobuf__FileDescriptorProto_msg_init,
     google__protobuf__DescriptorProto_msg_init,
     google__protobuf__DescriptorProto__ExtensionRange_msg_init,
     google__protobuf__DescriptorProto__ReservedRange_msg_init,
     google__protobuf__ExtensionRangeOptions_msg_init,
     google__protobuf__ExtensionRangeOptions__Declaration_msg_init,
     google__protobuf__FieldDescriptorProto_msg_init,
     google__protobuf__OneofDescriptorProto_msg_init,
     google__protobuf__EnumDescriptorProto_msg_init,
     google__protobuf__EnumDescriptorProto__EnumReservedRange_msg_init,
     google__protobuf__EnumValueDescriptorProto_msg_init,
     google__protobuf__ServiceDescriptorProto_msg_init,
     google__protobuf__MethodDescriptorProto_msg_init,
     google__protobuf__FileOptions_msg_init,
     google__protobuf__MessageOptions_msg_init,
     google__protobuf__FieldOptions_msg_init,
     google__protobuf__FieldOptions__EditionDefault_msg_init,
     google__protobuf__FieldOptions__FeatureSupport_msg_init,
     google__protobuf__OneofOptions_msg_init,
     google__protobuf__EnumOptions_msg_init,
     google__protobuf__EnumValueOptions_msg_init,
     google__protobuf__ServiceOptions_msg_init,
     google__protobuf__MethodOptions_msg_init,
     google__protobuf__UninterpretedOption_msg_init,
     google__protobuf__UninterpretedOption__NamePart_msg_init,
     google__protobuf__FeatureSet_msg_init,
     google__protobuf__FeatureSetDefaults_msg_init,
     google__protobuf__FeatureSetDefaults__FeatureSetEditionDefault_msg_init,
     google__protobuf__SourceCodeInfo_msg_init,
     google__protobuf__SourceCodeInfo__Location_msg_init,
     google__protobuf__GeneratedCodeInfo_msg_init,
     google__protobuf__GeneratedCodeInfo__Annotation_msg_init]"

section \<open>Every table is well formed\<close>

lemma google__protobuf__FileDescriptorSet_msg_init_wf [table_wf]:
  "mt_wf google__protobuf__FileDescriptorSet_msg_init"
  by (simp add: google__protobuf__FileDescriptorSet_msg_init_def table_simps)

lemma google__protobuf__FileDescriptorProto_msg_init_wf [table_wf]:
  "mt_wf google__protobuf__FileDescriptorProto_msg_init"
  by (simp add: google__protobuf__FileDescriptorProto_msg_init_def table_simps)

lemma google__protobuf__DescriptorProto_msg_init_wf [table_wf]:
  "mt_wf google__protobuf__DescriptorProto_msg_init"
  by (simp add: google__protobuf__DescriptorProto_msg_init_def table_simps)

lemma google__protobuf__DescriptorProto__ExtensionRange_msg_init_wf [table_wf]:
  "mt_wf google__protobuf__DescriptorProto__ExtensionRange_msg_init"
  by (simp add: google__protobuf__DescriptorProto__ExtensionRange_msg_init_def table_simps)

lemma google__protobuf__DescriptorProto__ReservedRange_msg_init_wf [table_wf]:
  "mt_wf google__protobuf__DescriptorProto__ReservedRange_msg_init"
  by (simp add: google__protobuf__DescriptorProto__ReservedRange_msg_init_def table_simps)

lemma google__protobuf__ExtensionRangeOptions_msg_init_wf [table_wf]:
  "mt_wf google__protobuf__ExtensionRangeOptions_msg_init"
  by (simp add: google__protobuf__ExtensionRangeOptions_msg_init_def table_simps)

lemma google__protobuf__ExtensionRangeOptions__Declaration_msg_init_wf [table_wf]:
  "mt_wf google__protobuf__ExtensionRangeOptions__Declaration_msg_init"
  by (simp add: google__protobuf__ExtensionRangeOptions__Declaration_msg_init_def table_simps)

lemma google__protobuf__FieldDescriptorProto_msg_init_wf [table_wf]:
  "mt_wf google__protobuf__FieldDescriptorProto_msg_init"
  by (simp add: google__protobuf__FieldDescriptorProto_msg_init_def table_simps)

lemma google__protobuf__OneofDescriptorProto_msg_init_wf [table_wf]:
  "mt_wf google__protobuf__OneofDescriptorProto_msg_init"
  by (simp add: google__protobuf__OneofDescriptorProto_msg_init_def table_simps)

lemma google__protobuf__EnumDescriptorProto_msg_init_wf [table_wf]:
  "mt_wf google__protobuf__EnumDescriptorProto_msg_init"
  by (simp add: google__protobuf__EnumDescriptorProto_msg_init_def table_simps)

lemma google__protobuf__EnumDescriptorProto__EnumReservedRange_msg_init_wf [table_wf]:
  "mt_wf google__protobuf__EnumDescriptorProto__EnumReservedRange_msg_init"
  by (simp add: google__protobuf__EnumDescriptorProto__EnumReservedRange_msg_init_def table_simps)

lemma google__protobuf__EnumValueDescriptorProto_msg_init_wf [table_wf]:
  "mt_wf google__protobuf__EnumValueDescriptorProto_msg_init"
  by (simp add: google__protobuf__EnumValueDescriptorProto_msg_init_def table_simps)

lemma google__protobuf__ServiceDescriptorProto_msg_init_wf [table_wf]:
  "mt_wf google__protobuf__ServiceDescriptorProto_msg_init"
  by (simp add: google__protobuf__ServiceDescriptorProto_msg_init_def table_simps)

lemma google__protobuf__MethodDescriptorProto_msg_init_wf [table_wf]:
  "mt_wf google__protobuf__MethodDescriptorProto_msg_init"
  by (simp add: google__protobuf__MethodDescriptorProto_msg_init_def table_simps)

lemma google__protobuf__FileOptions_msg_init_wf [table_wf]:
  "mt_wf google__protobuf__FileOptions_msg_init"
  by (simp add: google__protobuf__FileOptions_msg_init_def table_simps)

lemma google__protobuf__MessageOptions_msg_init_wf [table_wf]:
  "mt_wf google__protobuf__MessageOptions_msg_init"
  by (simp add: google__protobuf__MessageOptions_msg_init_def table_simps)

lemma google__protobuf__FieldOptions_msg_init_wf [table_wf]:
  "mt_wf google__protobuf__FieldOptions_msg_init"
  by (simp add: google__protobuf__FieldOptions_msg_init_def table_simps)

lemma google__protobuf__FieldOptions__EditionDefault_msg_init_wf [table_wf]:
  "mt_wf google__protobuf__FieldOptions__EditionDefault_msg_init"
  by (simp add: google__protobuf__FieldOptions__EditionDefault_msg_init_def table_simps)

lemma google__protobuf__FieldOptions__FeatureSupport_msg_init_wf [table_wf]:
  "mt_wf google__protobuf__FieldOptions__FeatureSupport_msg_init"
  by (simp add: google__protobuf__FieldOptions__FeatureSupport_msg_init_def table_simps)

lemma google__protobuf__OneofOptions_msg_init_wf [table_wf]:
  "mt_wf google__protobuf__OneofOptions_msg_init"
  by (simp add: google__protobuf__OneofOptions_msg_init_def table_simps)

lemma google__protobuf__EnumOptions_msg_init_wf [table_wf]:
  "mt_wf google__protobuf__EnumOptions_msg_init"
  by (simp add: google__protobuf__EnumOptions_msg_init_def table_simps)

lemma google__protobuf__EnumValueOptions_msg_init_wf [table_wf]:
  "mt_wf google__protobuf__EnumValueOptions_msg_init"
  by (simp add: google__protobuf__EnumValueOptions_msg_init_def table_simps)

lemma google__protobuf__ServiceOptions_msg_init_wf [table_wf]:
  "mt_wf google__protobuf__ServiceOptions_msg_init"
  by (simp add: google__protobuf__ServiceOptions_msg_init_def table_simps)

lemma google__protobuf__MethodOptions_msg_init_wf [table_wf]:
  "mt_wf google__protobuf__MethodOptions_msg_init"
  by (simp add: google__protobuf__MethodOptions_msg_init_def table_simps)

lemma google__protobuf__UninterpretedOption_msg_init_wf [table_wf]:
  "mt_wf google__protobuf__UninterpretedOption_msg_init"
  by (simp add: google__protobuf__UninterpretedOption_msg_init_def table_simps)

lemma google__protobuf__UninterpretedOption__NamePart_msg_init_wf [table_wf]:
  "mt_wf google__protobuf__UninterpretedOption__NamePart_msg_init"
  by (simp add: google__protobuf__UninterpretedOption__NamePart_msg_init_def table_simps)

lemma google__protobuf__FeatureSet_msg_init_wf [table_wf]:
  "mt_wf google__protobuf__FeatureSet_msg_init"
  by (simp add: google__protobuf__FeatureSet_msg_init_def table_simps)

lemma google__protobuf__FeatureSetDefaults_msg_init_wf [table_wf]:
  "mt_wf google__protobuf__FeatureSetDefaults_msg_init"
  by (simp add: google__protobuf__FeatureSetDefaults_msg_init_def table_simps)

lemma google__protobuf__FeatureSetDefaults__FeatureSetEditionDefault_msg_init_wf [table_wf]:
  "mt_wf google__protobuf__FeatureSetDefaults__FeatureSetEditionDefault_msg_init"
  by (simp add: google__protobuf__FeatureSetDefaults__FeatureSetEditionDefault_msg_init_def table_simps)

lemma google__protobuf__SourceCodeInfo_msg_init_wf [table_wf]:
  "mt_wf google__protobuf__SourceCodeInfo_msg_init"
  by (simp add: google__protobuf__SourceCodeInfo_msg_init_def table_simps)

lemma google__protobuf__SourceCodeInfo__Location_msg_init_wf [table_wf]:
  "mt_wf google__protobuf__SourceCodeInfo__Location_msg_init"
  by (simp add: google__protobuf__SourceCodeInfo__Location_msg_init_def table_simps)

lemma google__protobuf__GeneratedCodeInfo_msg_init_wf [table_wf]:
  "mt_wf google__protobuf__GeneratedCodeInfo_msg_init"
  by (simp add: google__protobuf__GeneratedCodeInfo_msg_init_def table_simps)

lemma google__protobuf__GeneratedCodeInfo__Annotation_msg_init_wf [table_wf]:
  "mt_wf google__protobuf__GeneratedCodeInfo__Annotation_msg_init"
  by (simp add: google__protobuf__GeneratedCodeInfo__Annotation_msg_init_def table_simps)

lemma google__protobuf__Edition_enum_init_wf [table_wf]: "enum_wf google__protobuf__Edition_enum_init"
  by (simp add: enum_wf_def google__protobuf__Edition_enum_init_def)

lemma google__protobuf__ExtensionRangeOptions__VerificationState_enum_init_wf [table_wf]: "enum_wf google__protobuf__ExtensionRangeOptions__VerificationState_enum_init"
  by (simp add: enum_wf_def google__protobuf__ExtensionRangeOptions__VerificationState_enum_init_def)

lemma google__protobuf__FeatureSet__EnforceNamingStyle_enum_init_wf [table_wf]: "enum_wf google__protobuf__FeatureSet__EnforceNamingStyle_enum_init"
  by (simp add: enum_wf_def google__protobuf__FeatureSet__EnforceNamingStyle_enum_init_def)

lemma google__protobuf__FeatureSet__EnumType_enum_init_wf [table_wf]: "enum_wf google__protobuf__FeatureSet__EnumType_enum_init"
  by (simp add: enum_wf_def google__protobuf__FeatureSet__EnumType_enum_init_def)

lemma google__protobuf__FeatureSet__FieldPresence_enum_init_wf [table_wf]: "enum_wf google__protobuf__FeatureSet__FieldPresence_enum_init"
  by (simp add: enum_wf_def google__protobuf__FeatureSet__FieldPresence_enum_init_def)

lemma google__protobuf__FeatureSet__JsonFormat_enum_init_wf [table_wf]: "enum_wf google__protobuf__FeatureSet__JsonFormat_enum_init"
  by (simp add: enum_wf_def google__protobuf__FeatureSet__JsonFormat_enum_init_def)

lemma google__protobuf__FeatureSet__MessageEncoding_enum_init_wf [table_wf]: "enum_wf google__protobuf__FeatureSet__MessageEncoding_enum_init"
  by (simp add: enum_wf_def google__protobuf__FeatureSet__MessageEncoding_enum_init_def)

lemma google__protobuf__FeatureSet__RepeatedFieldEncoding_enum_init_wf [table_wf]: "enum_wf google__protobuf__FeatureSet__RepeatedFieldEncoding_enum_init"
  by (simp add: enum_wf_def google__protobuf__FeatureSet__RepeatedFieldEncoding_enum_init_def)

lemma google__protobuf__FeatureSet__Utf8Validation_enum_init_wf [table_wf]: "enum_wf google__protobuf__FeatureSet__Utf8Validation_enum_init"
  by (simp add: enum_wf_def google__protobuf__FeatureSet__Utf8Validation_enum_init_def)

lemma google__protobuf__FieldDescriptorProto__Label_enum_init_wf [table_wf]: "enum_wf google__protobuf__FieldDescriptorProto__Label_enum_init"
  by (simp add: enum_wf_def google__protobuf__FieldDescriptorProto__Label_enum_init_def)

lemma google__protobuf__FieldDescriptorProto__Type_enum_init_wf [table_wf]: "enum_wf google__protobuf__FieldDescriptorProto__Type_enum_init"
  by (simp add: enum_wf_def google__protobuf__FieldDescriptorProto__Type_enum_init_def)

lemma google__protobuf__FieldOptions__CType_enum_init_wf [table_wf]: "enum_wf google__protobuf__FieldOptions__CType_enum_init"
  by (simp add: enum_wf_def google__protobuf__FieldOptions__CType_enum_init_def)

lemma google__protobuf__FieldOptions__JSType_enum_init_wf [table_wf]: "enum_wf google__protobuf__FieldOptions__JSType_enum_init"
  by (simp add: enum_wf_def google__protobuf__FieldOptions__JSType_enum_init_def)

lemma google__protobuf__FieldOptions__OptionRetention_enum_init_wf [table_wf]: "enum_wf google__protobuf__FieldOptions__OptionRetention_enum_init"
  by (simp add: enum_wf_def google__protobuf__FieldOptions__OptionRetention_enum_init_def)

lemma google__protobuf__FieldOptions__OptionTargetType_enum_init_wf [table_wf]: "enum_wf google__protobuf__FieldOptions__OptionTargetType_enum_init"
  by (simp add: enum_wf_def google__protobuf__FieldOptions__OptionTargetType_enum_init_def)

lemma google__protobuf__FileOptions__OptimizeMode_enum_init_wf [table_wf]: "enum_wf google__protobuf__FileOptions__OptimizeMode_enum_init"
  by (simp add: enum_wf_def google__protobuf__FileOptions__OptimizeMode_enum_init_def)

lemma google__protobuf__GeneratedCodeInfo__Annotation__Semantic_enum_init_wf [table_wf]: "enum_wf google__protobuf__GeneratedCodeInfo__Annotation__Semantic_enum_init"
  by (simp add: enum_wf_def google__protobuf__GeneratedCodeInfo__Annotation__Semantic_enum_init_def)

lemma google__protobuf__MethodOptions__IdempotencyLevel_enum_init_wf [table_wf]: "enum_wf google__protobuf__MethodOptions__IdempotencyLevel_enum_init"
  by (simp add: enum_wf_def google__protobuf__MethodOptions__IdempotencyLevel_enum_init_def)

lemma gen_descriptor_tables_wf: "list_all mt_wf gen_descriptor_tables"
  by (simp add: gen_descriptor_tables_def table_wf)

end
