(* ===== verification/Gen_Wellknown.thy ===== *)
theory Gen_Wellknown
  imports Mini_Table_Refs
begin

unbundle bit_operations_syntax

text \<open>
  The generated mini tables of the well-known types and google.rpc.Status, google.api.http
  (\<^verbatim>\<open>any.upb_minitable.c\<close>,
  \<^verbatim>\<open>duration.upb_minitable.c\<close>,
  \<^verbatim>\<open>empty.upb_minitable.c\<close>,
  \<^verbatim>\<open>struct.upb_minitable.c\<close>,
  \<^verbatim>\<open>timestamp.upb_minitable.c\<close>,
  \<^verbatim>\<open>wrappers.upb_minitable.c\<close>,
  \<^verbatim>\<open>status.upb_minitable.c\<close>,
  \<^verbatim>\<open>http.upb_minitable.c\<close>,
  \<^verbatim>\<open>httpbody.upb_minitable.c\<close>,
  \<^verbatim>\<open>annotations.upb_minitable.c\<close>), initialiser by initialiser,
  in the 64-bit configuration and without the optional fast-decoder tables, and the check that each
  of them is well formed.
\<close>

section \<open>Definitions\<close>

definition google__protobuf__Any_msg_init :: upb_MiniTable where
  "google__protobuf__Any_msg_init = mini_table
     []
     [mini_table_field 1 8 0 kUpb_NoSub kUpb_FieldType_String
        (kUpb_FieldMode_Scalar OR push_bit kUpb_FieldRep_Shift kUpb_FieldRep_StringView),
      mini_table_field 2 24 0 kUpb_NoSub kUpb_FieldType_Bytes
        (kUpb_FieldMode_Scalar OR push_bit kUpb_FieldRep_Shift kUpb_FieldRep_StringView)]
     40 2 kUpb_ExtMode_NonExtendable 2 0"

definition google__protobuf__Duration_msg_init :: upb_MiniTable where
  "google__protobuf__Duration_msg_init = mini_table
     []
     [mini_table_field 1 16 0 kUpb_NoSub kUpb_FieldType_Int64
        (kUpb_FieldMode_Scalar OR push_bit kUpb_FieldRep_Shift kUpb_FieldRep_8Byte),
      mini_table_field 2 8 0 kUpb_NoSub kUpb_FieldType_Int32
        (kUpb_FieldMode_Scalar OR push_bit kUpb_FieldRep_Shift kUpb_FieldRep_4Byte)]
     24 2 kUpb_ExtMode_NonExtendable 2 0"

definition google__protobuf__Empty_msg_init :: upb_MiniTable where
  "google__protobuf__Empty_msg_init = mini_table
     []
     []
     8 0 kUpb_ExtMode_NonExtendable 0 0"

definition google__protobuf__Struct_msg_init :: upb_MiniTable where
  "google__protobuf__Struct_msg_init = mini_table
     [Submsg google__protobuf__Struct__FieldsEntry_msg_init_ptr]
     [mini_table_field 1 8 0 0 kUpb_FieldType_Message
        (kUpb_FieldMode_Map OR push_bit kUpb_FieldRep_Shift kUpb_FieldRep_8Byte)]
     16 1 kUpb_ExtMode_NonExtendable 1 0"

definition google__protobuf__Struct__FieldsEntry_msg_init :: upb_MiniTable where
  "google__protobuf__Struct__FieldsEntry_msg_init = mini_table
     [Submsg google__protobuf__Value_msg_init_ptr]
     [mini_table_field 1 16 0 kUpb_NoSub kUpb_FieldType_String
        (kUpb_FieldMode_Scalar OR push_bit kUpb_FieldRep_Shift kUpb_FieldRep_StringView),
      mini_table_field 2 32 64 0 kUpb_FieldType_Message
        (kUpb_FieldMode_Scalar OR push_bit kUpb_FieldRep_Shift kUpb_FieldRep_8Byte)]
     48 2 kUpb_ExtMode_NonExtendable 2 0"

definition google__protobuf__Value_msg_init :: upb_MiniTable where
  "google__protobuf__Value_msg_init = mini_table
     [Submsg google__protobuf__Struct_msg_init_ptr,
      Submsg google__protobuf__ListValue_msg_init_ptr]
     [mini_table_field 1 16 (- 9) kUpb_NoSub kUpb_FieldType_Int32
        (kUpb_FieldMode_Scalar OR kUpb_LabelFlags_IsAlternate OR push_bit kUpb_FieldRep_Shift kUpb_FieldRep_4Byte),
      mini_table_field 2 16 (- 9) kUpb_NoSub kUpb_FieldType_Double
        (kUpb_FieldMode_Scalar OR push_bit kUpb_FieldRep_Shift kUpb_FieldRep_8Byte),
      mini_table_field 3 16 (- 9) kUpb_NoSub kUpb_FieldType_String
        (kUpb_FieldMode_Scalar OR push_bit kUpb_FieldRep_Shift kUpb_FieldRep_StringView),
      mini_table_field 4 16 (- 9) kUpb_NoSub kUpb_FieldType_Bool
        (kUpb_FieldMode_Scalar OR push_bit kUpb_FieldRep_Shift kUpb_FieldRep_1Byte),
      mini_table_field 5 16 (- 9) 0 kUpb_FieldType_Message
        (kUpb_FieldMode_Scalar OR push_bit kUpb_FieldRep_Shift kUpb_FieldRep_8Byte),
      mini_table_field 6 16 (- 9) 1 kUpb_FieldType_Message
        (kUpb_FieldMode_Scalar OR push_bit kUpb_FieldRep_Shift kUpb_FieldRep_8Byte)]
     32 6 kUpb_ExtMode_NonExtendable 6 0"

definition google__protobuf__ListValue_msg_init :: upb_MiniTable where
  "google__protobuf__ListValue_msg_init = mini_table
     [Submsg google__protobuf__Value_msg_init_ptr]
     [mini_table_field 1 8 0 0 kUpb_FieldType_Message
        (kUpb_FieldMode_Array OR push_bit kUpb_FieldRep_Shift kUpb_FieldRep_8Byte)]
     16 1 kUpb_ExtMode_NonExtendable 1 0"

definition google__protobuf__Timestamp_msg_init :: upb_MiniTable where
  "google__protobuf__Timestamp_msg_init = mini_table
     []
     [mini_table_field 1 16 0 kUpb_NoSub kUpb_FieldType_Int64
        (kUpb_FieldMode_Scalar OR push_bit kUpb_FieldRep_Shift kUpb_FieldRep_8Byte),
      mini_table_field 2 8 0 kUpb_NoSub kUpb_FieldType_Int32
        (kUpb_FieldMode_Scalar OR push_bit kUpb_FieldRep_Shift kUpb_FieldRep_4Byte)]
     24 2 kUpb_ExtMode_NonExtendable 2 0"

definition google__protobuf__DoubleValue_msg_init :: upb_MiniTable where
  "google__protobuf__DoubleValue_msg_init = mini_table
     []
     [mini_table_field 1 8 0 kUpb_NoSub kUpb_FieldType_Double
        (kUpb_FieldMode_Scalar OR push_bit kUpb_FieldRep_Shift kUpb_FieldRep_8Byte)]
     16 1 kUpb_ExtMode_NonExtendable 1 0"

definition google__protobuf__FloatValue_msg_init :: upb_MiniTable where
  "google__protobuf__FloatValue_msg_init = mini_table
     []
     [mini_table_field 1 8 0 kUpb_NoSub kUpb_FieldType_Float
        (kUpb_FieldMode_Scalar OR push_bit kUpb_FieldRep_Shift kUpb_FieldRep_4Byte)]
     16 1 kUpb_ExtMode_NonExtendable 1 0"

definition google__protobuf__Int64Value_msg_init :: upb_MiniTable where
  "google__protobuf__Int64Value_msg_init = mini_table
     []
     [mini_table_field 1 8 0 kUpb_NoSub kUpb_FieldType_Int64
        (kUpb_FieldMode_Scalar OR push_bit kUpb_FieldRep_Shift kUpb_FieldRep_8Byte)]
     16 1 kUpb_ExtMode_NonExtendable 1 0"

definition google__protobuf__UInt64Value_msg_init :: upb_MiniTable where
  "google__protobuf__UInt64Value_msg_init = mini_table
     []
     [mini_table_field 1 8 0 kUpb_NoSub kUpb_FieldType_UInt64
        (kUpb_FieldMode_Scalar OR push_bit kUpb_FieldRep_Shift kUpb_FieldRep_8Byte)]
     16 1 kUpb_ExtMode_NonExtendable 1 0"

definition google__protobuf__Int32Value_msg_init :: upb_MiniTable where
  "google__protobuf__Int32Value_msg_init = mini_table
     []
     [mini_table_field 1 8 0 kUpb_NoSub kUpb_FieldType_Int32
        (kUpb_FieldMode_Scalar OR push_bit kUpb_FieldRep_Shift kUpb_FieldRep_4Byte)]
     16 1 kUpb_ExtMode_NonExtendable 1 0"

definition google__protobuf__UInt32Value_msg_init :: upb_MiniTable where
  "google__protobuf__UInt32Value_msg_init = mini_table
     []
     [mini_table_field 1 8 0 kUpb_NoSub kUpb_FieldType_UInt32
        (kUpb_FieldMode_Scalar OR push_bit kUpb_FieldRep_Shift kUpb_FieldRep_4Byte)]
     16 1 kUpb_ExtMode_NonExtendable 1 0"

definition google__protobuf__BoolValue_msg_init :: upb_MiniTable where
  "google__protobuf__BoolValue_msg_init = mini_table
     []
     [mini_table_field 1 8 0 kUpb_NoSub kUpb_FieldType_Bool
        (kUpb_FieldMode_Scalar OR push_bit kUpb_FieldRep_Shift kUpb_FieldRep_1Byte)]
     16 1 kUpb_ExtMode_NonExtendable 1 0"

definition google__protobuf__StringValue_msg_init :: upb_MiniTable where
  "google__protobuf__StringValue_msg_init = mini_table
     []
     [mini_table_field 1 8 0 kUpb_NoSub kUpb_FieldType_String
        (kUpb_FieldMode_Scalar OR push_bit kUpb_FieldRep_Shift kUpb_FieldRep_StringView)]
     24 1 kUpb_ExtMode_NonExtendable 1 0"

definition google__protobuf__BytesValue_msg_init :: upb_MiniTable where
  "google__protobuf__BytesValue_msg_init = mini_table
     []
     [mini_table_field 1 8 0 kUpb_NoSub kUpb_FieldType_Bytes
        (kUpb_FieldMode_Scalar OR push_bit kUpb_FieldRep_Shift kUpb_FieldRep_StringView)]
     24 1 kUpb_ExtMode_NonExtendable 1 0"

definition google__rpc__Status_msg_init :: upb_MiniTable where
  "google__rpc__Status_msg_init = mini_table
     [Submsg google__protobuf__Any_msg_init_ptr]
     [mini_table_field 1 8 0 kUpb_NoSub kUpb_FieldType_Int32
        (kUpb_FieldMode_Scalar OR push_bit kUpb_FieldRep_Shift kUpb_FieldRep_4Byte),
      mini_table_field 2 16 0 kUpb_NoSub kUpb_FieldType_String
        (kUpb_FieldMode_Scalar OR push_bit kUpb_FieldRep_Shift kUpb_FieldRep_StringView),
      mini_table_field 3 32 0 0 kUpb_FieldType_Message
        (kUpb_FieldMode_Array OR push_bit kUpb_FieldRep_Shift kUpb_FieldRep_8Byte)]
     40 3 kUpb_ExtMode_NonExtendable 3 0"

definition google__api__Http_msg_init :: upb_MiniTable where
  "google__api__Http_msg_init = mini_table
     [Submsg google__api__HttpRule_msg_init_ptr]
     [mini_table_field 1 16 0 0 kUpb_FieldType_Message
        (kUpb_FieldMode_Array OR push_bit kUpb_FieldRep_Shift kUpb_FieldRep_8Byte),
      mini_table_field 2 8 0 kUpb_NoSub kUpb_FieldType_Bool
        (kUpb_FieldMode_Scalar OR push_bit kUpb_FieldRep_Shift kUpb_FieldRep_1Byte)]
     24 2 kUpb_ExtMode_NonExtendable 2 0"

definition google__api__HttpRule_msg_init :: upb_MiniTable where
  "google__api__HttpRule_msg_init = mini_table
     [Submsg google__api__CustomHttpPattern_msg_init_ptr,
      Submsg google__api__HttpRule_msg_init_ptr]
     [mini_table_field 1 16 0 kUpb_NoSub kUpb_FieldType_String
        (kUpb_FieldMode_Scalar OR push_bit kUpb_FieldRep_Shift kUpb_FieldRep_StringView),
      mini_table_field 2 64 (- 9) kUpb_NoSub kUpb_FieldType_String
        (kUpb_FieldMode_Scalar OR push_bit kUpb_FieldRep_Shift kUpb_FieldRep_StringView),
      mini_table_field 3 64 (- 9) kUpb_NoSub kUpb_FieldType_String
        (kUpb_FieldMode_Scalar OR push_bit kUpb_FieldRep_Shift kUpb_FieldRep_StringView),
      mini_table_field 4 64 (- 9) kUpb_NoSub kUpb_FieldType_String
        (kUpb_FieldMode_Scalar OR push_bit kUpb_FieldRep_Shift kUpb_FieldRep_StringView),
      mini_table_field 5 64 (- 9) kUpb_NoSub kUpb_FieldType_String
        (kUpb_FieldMode_Scalar OR push_bit kUpb_FieldRep_Shift kUpb_FieldRep_StringView),
      mini_table_field 6 64 (- 9) kUpb_NoSub kUpb_FieldType_String
        (kUpb_FieldMode_Scalar OR push_bit kUpb_FieldRep_Shift kUpb_FieldRep_StringView),
      mini_table_field 7 32 0 kUpb_NoSub kUpb_FieldType_String
        (kUpb_FieldMode_Scalar OR push_bit kUpb_FieldRep_Shift kUpb_FieldRep_StringView),
      mini_table_field 8 64 (- 9) 0 kUpb_FieldType_Message
        (kUpb_FieldMode_Scalar OR push_bit kUpb_FieldRep_Shift kUpb_FieldRep_8Byte),
      mini_table_field 11 80 0 1 kUpb_FieldType_Message
        (kUpb_FieldMode_Array OR push_bit kUpb_FieldRep_Shift kUpb_FieldRep_8Byte),
      mini_table_field 12 48 0 kUpb_NoSub kUpb_FieldType_String
        (kUpb_FieldMode_Scalar OR push_bit kUpb_FieldRep_Shift kUpb_FieldRep_StringView)]
     88 10 kUpb_ExtMode_NonExtendable 8 0"

definition google__api__CustomHttpPattern_msg_init :: upb_MiniTable where
  "google__api__CustomHttpPattern_msg_init = mini_table
     []
     [mini_table_field 1 8 0 kUpb_NoSub kUpb_FieldType_String
        (kUpb_FieldMode_Scalar OR push_bit kUpb_FieldRep_Shift kUpb_FieldRep_StringView),
      mini_table_field 2 24 0 kUpb_NoSub kUpb_FieldType_String
        (kUpb_FieldMode_Scalar OR push_bit kUpb_FieldRep_Shift kUpb_FieldRep_StringView)]
     40 2 kUpb_ExtMode_NonExtendable 2 0"

definition google__api__HttpBody_msg_init :: upb_MiniTable where
  "google__api__HttpBody_msg_init = mini_table
     [Submsg google__protobuf__Any_msg_init_ptr]
     [mini_table_field 1 8 0 kUpb_NoSub kUpb_FieldType_String
        (kUpb_FieldMode_Scalar OR push_bit kUpb_FieldRep_Shift kUpb_FieldRep_StringView),
      mini_table_field 2 24 0 kUpb_NoSub kUpb_FieldType_Bytes
        (kUpb_FieldMode_Scalar OR push_bit kUpb_FieldRep_Shift kUpb_FieldRep_StringView),
      mini_table_field 3 40 0 0 kUpb_FieldType_Message
        (kUpb_FieldMode_Array OR push_bit kUpb_FieldRep_Shift kUpb_FieldRep_8Byte)]
     48 3 kUpb_ExtMode_NonExtendable 3 0"

definition google_api_http_ext :: upb_MiniTableExtension where
  "google_api_http_ext = \<lparr> ext_field =
       mini_table_field 72295728 0 0 0 kUpb_FieldType_Message
        (kUpb_FieldMode_Scalar OR kUpb_LabelFlags_IsExtension OR push_bit kUpb_FieldRep_Shift kUpb_FieldRep_8Byte),
     extendee = google__protobuf__MethodOptions_msg_init_ptr, ext_sub = Some (Submsg google__api__HttpRule_msg_init_ptr) \<rparr>"

definition gen_wellknown_tables :: "upb_MiniTable list" where
  "gen_wellknown_tables = [google__protobuf__Any_msg_init,
     google__protobuf__Duration_msg_init,
     google__protobuf__Empty_msg_init,
     google__protobuf__Struct_msg_init,
     google__protobuf__Struct__FieldsEntry_msg_init,
     google__protobuf__Value_msg_init,
     google__protobuf__ListValue_msg_init,
     google__protobuf__Timestamp_msg_init,
     google__protobuf__DoubleValue_msg_init,
     google__protobuf__FloatValue_msg_init,
     google__protobuf__Int64Value_msg_init,
     google__protobuf__UInt64Value_msg_init,
     google__protobuf__Int32Value_msg_init,
     google__protobuf__UInt32Value_msg_init,
     google__protobuf__BoolValue_msg_init,
     google__protobuf__StringValue_msg_init,
     google__protobuf__BytesValue_msg_init,
     google__rpc__Status_msg_init,
     google__api__Http_msg_init,
     google__api__HttpRule_msg_init,
     google__api__CustomHttpPattern_msg_init,
     google__api__HttpBody_msg_init]"

section \<open>Every table is well formed\<close>

lemma google__protobuf__Any_msg_init_wf [table_wf]:
  "mt_wf google__protobuf__Any_msg_init"
  by (simp add: google__protobuf__Any_msg_init_def table_simps)

lemma google__protobuf__Duration_msg_init_wf [table_wf]:
  "mt_wf google__protobuf__Duration_msg_init"
  by (simp add: google__protobuf__Duration_msg_init_def table_simps)

lemma google__protobuf__Empty_msg_init_wf [table_wf]:
  "mt_wf google__protobuf__Empty_msg_init"
  by (simp add: google__protobuf__Empty_msg_init_def table_simps)

lemma google__protobuf__Struct_msg_init_wf [table_wf]:
  "mt_wf google__protobuf__Struct_msg_init"
  by (simp add: google__protobuf__Struct_msg_init_def table_simps)

lemma google__protobuf__Struct__FieldsEntry_msg_init_wf [table_wf]:
  "mt_wf google__protobuf__Struct__FieldsEntry_msg_init"
  by (simp add: google__protobuf__Struct__FieldsEntry_msg_init_def table_simps)

lemma google__protobuf__Value_msg_init_wf [table_wf]:
  "mt_wf google__protobuf__Value_msg_init"
  by (simp add: google__protobuf__Value_msg_init_def table_simps)

lemma google__protobuf__ListValue_msg_init_wf [table_wf]:
  "mt_wf google__protobuf__ListValue_msg_init"
  by (simp add: google__protobuf__ListValue_msg_init_def table_simps)

lemma google__protobuf__Timestamp_msg_init_wf [table_wf]:
  "mt_wf google__protobuf__Timestamp_msg_init"
  by (simp add: google__protobuf__Timestamp_msg_init_def table_simps)

lemma google__protobuf__DoubleValue_msg_init_wf [table_wf]:
  "mt_wf google__protobuf__DoubleValue_msg_init"
  by (simp add: google__protobuf__DoubleValue_msg_init_def table_simps)

lemma google__protobuf__FloatValue_msg_init_wf [table_wf]:
  "mt_wf google__protobuf__FloatValue_msg_init"
  by (simp add: google__protobuf__FloatValue_msg_init_def table_simps)

lemma google__protobuf__Int64Value_msg_init_wf [table_wf]:
  "mt_wf google__protobuf__Int64Value_msg_init"
  by (simp add: google__protobuf__Int64Value_msg_init_def table_simps)

lemma google__protobuf__UInt64Value_msg_init_wf [table_wf]:
  "mt_wf google__protobuf__UInt64Value_msg_init"
  by (simp add: google__protobuf__UInt64Value_msg_init_def table_simps)

lemma google__protobuf__Int32Value_msg_init_wf [table_wf]:
  "mt_wf google__protobuf__Int32Value_msg_init"
  by (simp add: google__protobuf__Int32Value_msg_init_def table_simps)

lemma google__protobuf__UInt32Value_msg_init_wf [table_wf]:
  "mt_wf google__protobuf__UInt32Value_msg_init"
  by (simp add: google__protobuf__UInt32Value_msg_init_def table_simps)

lemma google__protobuf__BoolValue_msg_init_wf [table_wf]:
  "mt_wf google__protobuf__BoolValue_msg_init"
  by (simp add: google__protobuf__BoolValue_msg_init_def table_simps)

lemma google__protobuf__StringValue_msg_init_wf [table_wf]:
  "mt_wf google__protobuf__StringValue_msg_init"
  by (simp add: google__protobuf__StringValue_msg_init_def table_simps)

lemma google__protobuf__BytesValue_msg_init_wf [table_wf]:
  "mt_wf google__protobuf__BytesValue_msg_init"
  by (simp add: google__protobuf__BytesValue_msg_init_def table_simps)

lemma google__rpc__Status_msg_init_wf [table_wf]:
  "mt_wf google__rpc__Status_msg_init"
  by (simp add: google__rpc__Status_msg_init_def table_simps)

lemma google__api__Http_msg_init_wf [table_wf]:
  "mt_wf google__api__Http_msg_init"
  by (simp add: google__api__Http_msg_init_def table_simps)

lemma google__api__HttpRule_msg_init_wf [table_wf]:
  "mt_wf google__api__HttpRule_msg_init"
  by (simp add: google__api__HttpRule_msg_init_def table_simps)

lemma google__api__CustomHttpPattern_msg_init_wf [table_wf]:
  "mt_wf google__api__CustomHttpPattern_msg_init"
  by (simp add: google__api__CustomHttpPattern_msg_init_def table_simps)

lemma google__api__HttpBody_msg_init_wf [table_wf]:
  "mt_wf google__api__HttpBody_msg_init"
  by (simp add: google__api__HttpBody_msg_init_def table_simps)

lemma google_api_http_ext_wf [table_wf]: "extension_wf google_api_http_ext"
  by (simp add: google_api_http_ext_def table_simps)

lemma gen_wellknown_tables_wf: "list_all mt_wf gen_wellknown_tables"
  by (simp add: gen_wellknown_tables_def table_wf)

end
