(* ===== verification/Gen_Grpc.thy ===== *)
theory Gen_Grpc
  imports Mini_Table_Refs
begin

unbundle bit_operations_syntax

text \<open>
  The generated mini tables of the protocols of gRPC itself (ALTS handshaker, health checking, load balancing, route lookup)
  (\<^verbatim>\<open>altscontext.upb_minitable.c\<close>,
  \<^verbatim>\<open>handshaker.upb_minitable.c\<close>,
  \<^verbatim>\<open>transport_security_common.upb_minitable.c\<close>,
  \<^verbatim>\<open>health.upb_minitable.c\<close>,
  \<^verbatim>\<open>load_balancer.upb_minitable.c\<close>,
  \<^verbatim>\<open>rls.upb_minitable.c\<close>,
  \<^verbatim>\<open>rls_config.upb_minitable.c\<close>), initialiser by initialiser,
  in the 64-bit configuration and without the optional fast-decoder tables, and the check that each
  of them is well formed.
\<close>

section \<open>Definitions\<close>

definition grpc__gcp__AltsContext_msg_init :: upb_MiniTable where
  "grpc__gcp__AltsContext_msg_init = mini_table
     [Submsg grpc__gcp__RpcProtocolVersions_msg_init_ptr,
      Submsg grpc__gcp__AltsContext__PeerAttributesEntry_msg_init_ptr]
     [mini_table_field 1 16 0 kUpb_NoSub kUpb_FieldType_String
        (kUpb_FieldMode_Scalar OR push_bit kUpb_FieldRep_Shift kUpb_FieldRep_StringView),
      mini_table_field 2 32 0 kUpb_NoSub kUpb_FieldType_String
        (kUpb_FieldMode_Scalar OR push_bit kUpb_FieldRep_Shift kUpb_FieldRep_StringView),
      mini_table_field 3 12 0 kUpb_NoSub kUpb_FieldType_Int32
        (kUpb_FieldMode_Scalar OR kUpb_LabelFlags_IsAlternate OR push_bit kUpb_FieldRep_Shift kUpb_FieldRep_4Byte),
      mini_table_field 4 48 0 kUpb_NoSub kUpb_FieldType_String
        (kUpb_FieldMode_Scalar OR push_bit kUpb_FieldRep_Shift kUpb_FieldRep_StringView),
      mini_table_field 5 64 0 kUpb_NoSub kUpb_FieldType_String
        (kUpb_FieldMode_Scalar OR push_bit kUpb_FieldRep_Shift kUpb_FieldRep_StringView),
      mini_table_field 6 80 64 0 kUpb_FieldType_Message
        (kUpb_FieldMode_Scalar OR push_bit kUpb_FieldRep_Shift kUpb_FieldRep_8Byte),
      mini_table_field 7 88 0 1 kUpb_FieldType_Message
        (kUpb_FieldMode_Map OR push_bit kUpb_FieldRep_Shift kUpb_FieldRep_8Byte)]
     96 7 kUpb_ExtMode_NonExtendable 7 0"

definition grpc__gcp__AltsContext__PeerAttributesEntry_msg_init :: upb_MiniTable where
  "grpc__gcp__AltsContext__PeerAttributesEntry_msg_init = mini_table
     []
     [mini_table_field 1 16 0 kUpb_NoSub kUpb_FieldType_String
        (kUpb_FieldMode_Scalar OR push_bit kUpb_FieldRep_Shift kUpb_FieldRep_StringView),
      mini_table_field 2 32 0 kUpb_NoSub kUpb_FieldType_String
        (kUpb_FieldMode_Scalar OR push_bit kUpb_FieldRep_Shift kUpb_FieldRep_StringView)]
     48 2 kUpb_ExtMode_NonExtendable 2 0"

definition grpc__gcp__Endpoint_msg_init :: upb_MiniTable where
  "grpc__gcp__Endpoint_msg_init = mini_table
     []
     [mini_table_field 1 16 0 kUpb_NoSub kUpb_FieldType_String
        (kUpb_FieldMode_Scalar OR push_bit kUpb_FieldRep_Shift kUpb_FieldRep_StringView),
      mini_table_field 2 8 0 kUpb_NoSub kUpb_FieldType_Int32
        (kUpb_FieldMode_Scalar OR push_bit kUpb_FieldRep_Shift kUpb_FieldRep_4Byte),
      mini_table_field 3 12 0 kUpb_NoSub kUpb_FieldType_Int32
        (kUpb_FieldMode_Scalar OR kUpb_LabelFlags_IsAlternate OR push_bit kUpb_FieldRep_Shift kUpb_FieldRep_4Byte)]
     32 3 kUpb_ExtMode_NonExtendable 3 0"

definition grpc__gcp__Identity_msg_init :: upb_MiniTable where
  "grpc__gcp__Identity_msg_init = mini_table
     [Submsg grpc__gcp__Identity__AttributesEntry_msg_init_ptr]
     [mini_table_field 1 16 (- 9) kUpb_NoSub kUpb_FieldType_String
        (kUpb_FieldMode_Scalar OR push_bit kUpb_FieldRep_Shift kUpb_FieldRep_StringView),
      mini_table_field 2 16 (- 9) kUpb_NoSub kUpb_FieldType_String
        (kUpb_FieldMode_Scalar OR push_bit kUpb_FieldRep_Shift kUpb_FieldRep_StringView),
      mini_table_field 3 32 0 0 kUpb_FieldType_Message
        (kUpb_FieldMode_Map OR push_bit kUpb_FieldRep_Shift kUpb_FieldRep_8Byte)]
     40 3 kUpb_ExtMode_NonExtendable 3 0"

definition grpc__gcp__Identity__AttributesEntry_msg_init :: upb_MiniTable where
  "grpc__gcp__Identity__AttributesEntry_msg_init = mini_table
     []
     [mini_table_field 1 16 0 kUpb_NoSub kUpb_FieldType_String
        (kUpb_FieldMode_Scalar OR push_bit kUpb_FieldRep_Shift kUpb_FieldRep_StringView),
      mini_table_field 2 32 0 kUpb_NoSub kUpb_FieldType_String
        (kUpb_FieldMode_Scalar OR push_bit kUpb_FieldRep_Shift kUpb_FieldRep_StringView)]
     48 2 kUpb_ExtMode_NonExtendable 2 0"

definition grpc__gcp__StartClientHandshakeReq_msg_init :: upb_MiniTable where
  "grpc__gcp__StartClientHandshakeReq_msg_init = mini_table
     [Submsg grpc__gcp__Identity_msg_init_ptr,
      Submsg grpc__gcp__Identity_msg_init_ptr,
      Submsg grpc__gcp__Endpoint_msg_init_ptr,
      Submsg grpc__gcp__Endpoint_msg_init_ptr,
      Submsg grpc__gcp__RpcProtocolVersions_msg_init_ptr]
     [mini_table_field 1 12 0 kUpb_NoSub kUpb_FieldType_Int32
        (kUpb_FieldMode_Scalar OR kUpb_LabelFlags_IsAlternate OR push_bit kUpb_FieldRep_Shift kUpb_FieldRep_4Byte),
      mini_table_field 2 40 0 kUpb_NoSub kUpb_FieldType_String
        (kUpb_FieldMode_Array OR push_bit kUpb_FieldRep_Shift kUpb_FieldRep_8Byte),
      mini_table_field 3 48 0 kUpb_NoSub kUpb_FieldType_String
        (kUpb_FieldMode_Array OR push_bit kUpb_FieldRep_Shift kUpb_FieldRep_8Byte),
      mini_table_field 4 56 0 0 kUpb_FieldType_Message
        (kUpb_FieldMode_Array OR push_bit kUpb_FieldRep_Shift kUpb_FieldRep_8Byte),
      mini_table_field 5 64 64 1 kUpb_FieldType_Message
        (kUpb_FieldMode_Scalar OR push_bit kUpb_FieldRep_Shift kUpb_FieldRep_8Byte),
      mini_table_field 6 72 65 2 kUpb_FieldType_Message
        (kUpb_FieldMode_Scalar OR push_bit kUpb_FieldRep_Shift kUpb_FieldRep_8Byte),
      mini_table_field 7 80 66 3 kUpb_FieldType_Message
        (kUpb_FieldMode_Scalar OR push_bit kUpb_FieldRep_Shift kUpb_FieldRep_8Byte),
      mini_table_field 8 24 0 kUpb_NoSub kUpb_FieldType_String
        (kUpb_FieldMode_Scalar OR push_bit kUpb_FieldRep_Shift kUpb_FieldRep_StringView),
      mini_table_field 9 88 67 4 kUpb_FieldType_Message
        (kUpb_FieldMode_Scalar OR push_bit kUpb_FieldRep_Shift kUpb_FieldRep_8Byte),
      mini_table_field 10 16 0 kUpb_NoSub kUpb_FieldType_UInt32
        (kUpb_FieldMode_Scalar OR push_bit kUpb_FieldRep_Shift kUpb_FieldRep_4Byte)]
     96 10 kUpb_ExtMode_NonExtendable 10 0"

definition grpc__gcp__ServerHandshakeParameters_msg_init :: upb_MiniTable where
  "grpc__gcp__ServerHandshakeParameters_msg_init = mini_table
     [Submsg grpc__gcp__Identity_msg_init_ptr]
     [mini_table_field 1 8 0 kUpb_NoSub kUpb_FieldType_String
        (kUpb_FieldMode_Array OR push_bit kUpb_FieldRep_Shift kUpb_FieldRep_8Byte),
      mini_table_field 2 16 0 0 kUpb_FieldType_Message
        (kUpb_FieldMode_Array OR push_bit kUpb_FieldRep_Shift kUpb_FieldRep_8Byte)]
     24 2 kUpb_ExtMode_NonExtendable 2 0"

definition grpc__gcp__StartServerHandshakeReq_msg_init :: upb_MiniTable where
  "grpc__gcp__StartServerHandshakeReq_msg_init = mini_table
     [Submsg grpc__gcp__StartServerHandshakeReq__HandshakeParametersEntry_msg_init_ptr,
      Submsg grpc__gcp__Endpoint_msg_init_ptr,
      Submsg grpc__gcp__Endpoint_msg_init_ptr,
      Submsg grpc__gcp__RpcProtocolVersions_msg_init_ptr]
     [mini_table_field 1 32 0 kUpb_NoSub kUpb_FieldType_String
        (kUpb_FieldMode_Array OR push_bit kUpb_FieldRep_Shift kUpb_FieldRep_8Byte),
      mini_table_field 2 40 0 0 kUpb_FieldType_Message
        (kUpb_FieldMode_Map OR push_bit kUpb_FieldRep_Shift kUpb_FieldRep_8Byte),
      mini_table_field 3 16 0 kUpb_NoSub kUpb_FieldType_Bytes
        (kUpb_FieldMode_Scalar OR push_bit kUpb_FieldRep_Shift kUpb_FieldRep_StringView),
      mini_table_field 4 48 64 1 kUpb_FieldType_Message
        (kUpb_FieldMode_Scalar OR push_bit kUpb_FieldRep_Shift kUpb_FieldRep_8Byte),
      mini_table_field 5 56 65 2 kUpb_FieldType_Message
        (kUpb_FieldMode_Scalar OR push_bit kUpb_FieldRep_Shift kUpb_FieldRep_8Byte),
      mini_table_field 6 64 66 3 kUpb_FieldType_Message
        (kUpb_FieldMode_Scalar OR push_bit kUpb_FieldRep_Shift kUpb_FieldRep_8Byte),
      mini_table_field 7 12 0 kUpb_NoSub kUpb_FieldType_UInt32
        (kUpb_FieldMode_Scalar OR push_bit kUpb_FieldRep_Shift kUpb_FieldRep_4Byte)]
     72 7 kUpb_ExtMode_NonExtendable 7 0"

definition grpc__gcp__StartServerHandshakeReq__HandshakeParametersEntry_msg_init :: upb_MiniTable where
  "grpc__gcp__StartServerHandshakeReq__HandshakeParametersEntry_msg_init = mini_table
     [Submsg grpc__gcp__ServerHandshakeParameters_msg_init_ptr]
     [mini_table_field 1 16 0 kUpb_NoSub kUpb_FieldType_Int32
        (kUpb_FieldMode_Scalar OR push_bit kUpb_FieldRep_Shift kUpb_FieldRep_4Byte),
      mini_table_field 2 32 64 0 kUpb_FieldType_Message
        (kUpb_FieldMode_Scalar OR push_bit kUpb_FieldRep_Shift kUpb_FieldRep_8Byte)]
     48 2 kUpb_ExtMode_NonExtendable 2 0"

definition grpc__gcp__NextHandshakeMessageReq_msg_init :: upb_MiniTable where
  "grpc__gcp__NextHandshakeMessageReq_msg_init = mini_table
     []
     [mini_table_field 1 8 0 kUpb_NoSub kUpb_FieldType_Bytes
        (kUpb_FieldMode_Scalar OR push_bit kUpb_FieldRep_Shift kUpb_FieldRep_StringView)]
     24 1 kUpb_ExtMode_NonExtendable 1 0"

definition grpc__gcp__HandshakerReq_msg_init :: upb_MiniTable where
  "grpc__gcp__HandshakerReq_msg_init = mini_table
     [Submsg grpc__gcp__StartClientHandshakeReq_msg_init_ptr,
      Submsg grpc__gcp__StartServerHandshakeReq_msg_init_ptr,
      Submsg grpc__gcp__NextHandshakeMessageReq_msg_init_ptr]
     [mini_table_field 1 16 (- 9) 0 kUpb_FieldType_Message
        (kUpb_FieldMode_Scalar OR push_bit kUpb_FieldRep_Shift kUpb_FieldRep_8Byte),
      mini_table_field 2 16 (- 9) 1 kUpb_FieldType_Message
        (kUpb_FieldMode_Scalar OR push_bit kUpb_FieldRep_Shift kUpb_FieldRep_8Byte),
      mini_table_field 3 16 (- 9) 2 kUpb_FieldType_Message
        (kUpb_FieldMode_Scalar OR push_bit kUpb_FieldRep_Shift kUpb_FieldRep_8Byte)]
     24 3 kUpb_ExtMode_NonExtendable 3 0"

definition grpc__gcp__HandshakerResult_msg_init :: upb_MiniTable where
  "grpc__gcp__HandshakerResult_msg_init = mini_table
     [Submsg grpc__gcp__Identity_msg_init_ptr,
      Submsg grpc__gcp__Identity_msg_init_ptr,
      Submsg grpc__gcp__RpcProtocolVersions_msg_init_ptr]
     [mini_table_field 1 16 0 kUpb_NoSub kUpb_FieldType_String
        (kUpb_FieldMode_Scalar OR push_bit kUpb_FieldRep_Shift kUpb_FieldRep_StringView),
      mini_table_field 2 32 0 kUpb_NoSub kUpb_FieldType_String
        (kUpb_FieldMode_Scalar OR push_bit kUpb_FieldRep_Shift kUpb_FieldRep_StringView),
      mini_table_field 3 48 0 kUpb_NoSub kUpb_FieldType_Bytes
        (kUpb_FieldMode_Scalar OR push_bit kUpb_FieldRep_Shift kUpb_FieldRep_StringView),
      mini_table_field 4 64 64 0 kUpb_FieldType_Message
        (kUpb_FieldMode_Scalar OR push_bit kUpb_FieldRep_Shift kUpb_FieldRep_8Byte),
      mini_table_field 5 72 65 1 kUpb_FieldType_Message
        (kUpb_FieldMode_Scalar OR push_bit kUpb_FieldRep_Shift kUpb_FieldRep_8Byte),
      mini_table_field 6 9 0 kUpb_NoSub kUpb_FieldType_Bool
        (kUpb_FieldMode_Scalar OR push_bit kUpb_FieldRep_Shift kUpb_FieldRep_1Byte),
      mini_table_field 7 80 66 2 kUpb_FieldType_Message
        (kUpb_FieldMode_Scalar OR push_bit kUpb_FieldRep_Shift kUpb_FieldRep_8Byte),
      mini_table_field 8 12 0 kUpb_NoSub kUpb_FieldType_UInt32
        (kUpb_FieldMode_Scalar OR push_bit kUpb_FieldRep_Shift kUpb_FieldRep_4Byte)]
     88 8 kUpb_ExtMode_NonExtendable 8 0"

definition grpc__gcp__HandshakerStatus_msg_init :: upb_MiniTable where
  "grpc__gcp__HandshakerStatus_msg_init = mini_table
     []
     [mini_table_field 1 8 0 kUpb_NoSub kUpb_FieldType_UInt32
        (kUpb_FieldMode_Scalar OR push_bit kUpb_FieldRep_Shift kUpb_FieldRep_4Byte),
      mini_table_field 2 16 0 kUpb_NoSub kUpb_FieldType_String
        (kUpb_FieldMode_Scalar OR push_bit kUpb_FieldRep_Shift kUpb_FieldRep_StringView)]
     32 2 kUpb_ExtMode_NonExtendable 2 0"

definition grpc__gcp__HandshakerResp_msg_init :: upb_MiniTable where
  "grpc__gcp__HandshakerResp_msg_init = mini_table
     [Submsg grpc__gcp__HandshakerResult_msg_init_ptr,
      Submsg grpc__gcp__HandshakerStatus_msg_init_ptr]
     [mini_table_field 1 16 0 kUpb_NoSub kUpb_FieldType_Bytes
        (kUpb_FieldMode_Scalar OR push_bit kUpb_FieldRep_Shift kUpb_FieldRep_StringView),
      mini_table_field 2 12 0 kUpb_NoSub kUpb_FieldType_UInt32
        (kUpb_FieldMode_Scalar OR push_bit kUpb_FieldRep_Shift kUpb_FieldRep_4Byte),
      mini_table_field 3 32 64 0 kUpb_FieldType_Message
        (kUpb_FieldMode_Scalar OR push_bit kUpb_FieldRep_Shift kUpb_FieldRep_8Byte),
      mini_table_field 4 40 65 1 kUpb_FieldType_Message
        (kUpb_FieldMode_Scalar OR push_bit kUpb_FieldRep_Shift kUpb_FieldRep_8Byte)]
     48 4 kUpb_ExtMode_NonExtendable 4 0"

definition grpc__gcp__RpcProtocolVersions_msg_init :: upb_MiniTable where
  "grpc__gcp__RpcProtocolVersions_msg_init = mini_table
     [Submsg grpc__gcp__RpcProtocolVersions__Version_msg_init_ptr,
      Submsg grpc__gcp__RpcProtocolVersions__Version_msg_init_ptr]
     [mini_table_field 1 16 64 0 kUpb_FieldType_Message
        (kUpb_FieldMode_Scalar OR push_bit kUpb_FieldRep_Shift kUpb_FieldRep_8Byte),
      mini_table_field 2 24 65 1 kUpb_FieldType_Message
        (kUpb_FieldMode_Scalar OR push_bit kUpb_FieldRep_Shift kUpb_FieldRep_8Byte)]
     32 2 kUpb_ExtMode_NonExtendable 2 0"

definition grpc__gcp__RpcProtocolVersions__Version_msg_init :: upb_MiniTable where
  "grpc__gcp__RpcProtocolVersions__Version_msg_init = mini_table
     []
     [mini_table_field 1 8 0 kUpb_NoSub kUpb_FieldType_UInt32
        (kUpb_FieldMode_Scalar OR push_bit kUpb_FieldRep_Shift kUpb_FieldRep_4Byte),
      mini_table_field 2 12 0 kUpb_NoSub kUpb_FieldType_UInt32
        (kUpb_FieldMode_Scalar OR push_bit kUpb_FieldRep_Shift kUpb_FieldRep_4Byte)]
     16 2 kUpb_ExtMode_NonExtendable 2 0"

definition grpc__health__v1__HealthCheckRequest_msg_init :: upb_MiniTable where
  "grpc__health__v1__HealthCheckRequest_msg_init = mini_table
     []
     [mini_table_field 1 8 0 kUpb_NoSub kUpb_FieldType_String
        (kUpb_FieldMode_Scalar OR push_bit kUpb_FieldRep_Shift kUpb_FieldRep_StringView)]
     24 1 kUpb_ExtMode_NonExtendable 1 0"

definition grpc__health__v1__HealthCheckResponse_msg_init :: upb_MiniTable where
  "grpc__health__v1__HealthCheckResponse_msg_init = mini_table
     []
     [mini_table_field 1 8 0 kUpb_NoSub kUpb_FieldType_Int32
        (kUpb_FieldMode_Scalar OR kUpb_LabelFlags_IsAlternate OR push_bit kUpb_FieldRep_Shift kUpb_FieldRep_4Byte)]
     16 1 kUpb_ExtMode_NonExtendable 1 0"

definition grpc__lb__v1__LoadBalanceRequest_msg_init :: upb_MiniTable where
  "grpc__lb__v1__LoadBalanceRequest_msg_init = mini_table
     [Submsg grpc__lb__v1__InitialLoadBalanceRequest_msg_init_ptr,
      Submsg grpc__lb__v1__ClientStats_msg_init_ptr]
     [mini_table_field 1 16 (- 9) 0 kUpb_FieldType_Message
        (kUpb_FieldMode_Scalar OR push_bit kUpb_FieldRep_Shift kUpb_FieldRep_8Byte),
      mini_table_field 2 16 (- 9) 1 kUpb_FieldType_Message
        (kUpb_FieldMode_Scalar OR push_bit kUpb_FieldRep_Shift kUpb_FieldRep_8Byte)]
     24 2 kUpb_ExtMode_NonExtendable 2 0"

definition grpc__lb__v1__InitialLoadBalanceRequest_msg_init :: upb_MiniTable where
  "grpc__lb__v1__InitialLoadBalanceRequest_msg_init = mini_table
     []
     [mini_table_field 1 8 0 kUpb_NoSub kUpb_FieldType_String
        (kUpb_FieldMode_Scalar OR push_bit kUpb_FieldRep_Shift kUpb_FieldRep_StringView)]
     24 1 kUpb_ExtMode_NonExtendable 1 0"

definition grpc__lb__v1__ClientStatsPerToken_msg_init :: upb_MiniTable where
  "grpc__lb__v1__ClientStatsPerToken_msg_init = mini_table
     []
     [mini_table_field 1 8 0 kUpb_NoSub kUpb_FieldType_String
        (kUpb_FieldMode_Scalar OR push_bit kUpb_FieldRep_Shift kUpb_FieldRep_StringView),
      mini_table_field 2 24 0 kUpb_NoSub kUpb_FieldType_Int64
        (kUpb_FieldMode_Scalar OR push_bit kUpb_FieldRep_Shift kUpb_FieldRep_8Byte)]
     32 2 kUpb_ExtMode_NonExtendable 2 0"

definition grpc__lb__v1__ClientStats_msg_init :: upb_MiniTable where
  "grpc__lb__v1__ClientStats_msg_init = mini_table
     [Submsg google__protobuf__Timestamp_msg_init_ptr,
      Submsg grpc__lb__v1__ClientStatsPerToken_msg_init_ptr]
     [mini_table_field 1 16 64 0 kUpb_FieldType_Message
        (kUpb_FieldMode_Scalar OR push_bit kUpb_FieldRep_Shift kUpb_FieldRep_8Byte),
      mini_table_field 2 24 0 kUpb_NoSub kUpb_FieldType_Int64
        (kUpb_FieldMode_Scalar OR push_bit kUpb_FieldRep_Shift kUpb_FieldRep_8Byte),
      mini_table_field 3 32 0 kUpb_NoSub kUpb_FieldType_Int64
        (kUpb_FieldMode_Scalar OR push_bit kUpb_FieldRep_Shift kUpb_FieldRep_8Byte),
      mini_table_field 6 40 0 kUpb_NoSub kUpb_FieldType_Int64
        (kUpb_FieldMode_Scalar OR push_bit kUpb_FieldRep_Shift kUpb_FieldRep_8Byte),
      mini_table_field 7 48 0 kUpb_NoSub kUpb_FieldType_Int64
        (kUpb_FieldMode_Scalar OR push_bit kUpb_FieldRep_Shift kUpb_FieldRep_8Byte),
      mini_table_field 8 56 0 1 kUpb_FieldType_Message
        (kUpb_FieldMode_Array OR push_bit kUpb_FieldRep_Shift kUpb_FieldRep_8Byte)]
     64 6 kUpb_ExtMode_NonExtendable 3 0"

definition grpc__lb__v1__LoadBalanceResponse_msg_init :: upb_MiniTable where
  "grpc__lb__v1__LoadBalanceResponse_msg_init = mini_table
     [Submsg grpc__lb__v1__InitialLoadBalanceResponse_msg_init_ptr,
      Submsg grpc__lb__v1__ServerList_msg_init_ptr,
      Submsg grpc__lb__v1__FallbackResponse_msg_init_ptr]
     [mini_table_field 1 16 (- 9) 0 kUpb_FieldType_Message
        (kUpb_FieldMode_Scalar OR push_bit kUpb_FieldRep_Shift kUpb_FieldRep_8Byte),
      mini_table_field 2 16 (- 9) 1 kUpb_FieldType_Message
        (kUpb_FieldMode_Scalar OR push_bit kUpb_FieldRep_Shift kUpb_FieldRep_8Byte),
      mini_table_field 3 16 (- 9) 2 kUpb_FieldType_Message
        (kUpb_FieldMode_Scalar OR push_bit kUpb_FieldRep_Shift kUpb_FieldRep_8Byte)]
     24 3 kUpb_ExtMode_NonExtendable 3 0"

definition grpc__lb__v1__FallbackResponse_msg_init :: upb_MiniTable where
  "grpc__lb__v1__FallbackResponse_msg_init = mini_table
     []
     []
     8 0 kUpb_ExtMode_NonExtendable 0 0"

definition grpc__lb__v1__InitialLoadBalanceResponse_msg_init :: upb_MiniTable where
  "grpc__lb__v1__InitialLoadBalanceResponse_msg_init = mini_table
     [Submsg google__protobuf__Duration_msg_init_ptr]
     [mini_table_field 2 16 64 0 kUpb_FieldType_Message
        (kUpb_FieldMode_Scalar OR push_bit kUpb_FieldRep_Shift kUpb_FieldRep_8Byte)]
     24 1 kUpb_ExtMode_NonExtendable 0 0"

definition grpc__lb__v1__ServerList_msg_init :: upb_MiniTable where
  "grpc__lb__v1__ServerList_msg_init = mini_table
     [Submsg grpc__lb__v1__Server_msg_init_ptr]
     [mini_table_field 1 8 0 0 kUpb_FieldType_Message
        (kUpb_FieldMode_Array OR push_bit kUpb_FieldRep_Shift kUpb_FieldRep_8Byte)]
     16 1 kUpb_ExtMode_NonExtendable 1 0"

definition grpc__lb__v1__Server_msg_init :: upb_MiniTable where
  "grpc__lb__v1__Server_msg_init = mini_table
     []
     [mini_table_field 1 16 0 kUpb_NoSub kUpb_FieldType_Bytes
        (kUpb_FieldMode_Scalar OR push_bit kUpb_FieldRep_Shift kUpb_FieldRep_StringView),
      mini_table_field 2 12 0 kUpb_NoSub kUpb_FieldType_Int32
        (kUpb_FieldMode_Scalar OR push_bit kUpb_FieldRep_Shift kUpb_FieldRep_4Byte),
      mini_table_field 3 32 0 kUpb_NoSub kUpb_FieldType_String
        (kUpb_FieldMode_Scalar OR push_bit kUpb_FieldRep_Shift kUpb_FieldRep_StringView),
      mini_table_field 4 8 0 kUpb_NoSub kUpb_FieldType_Bool
        (kUpb_FieldMode_Scalar OR push_bit kUpb_FieldRep_Shift kUpb_FieldRep_1Byte)]
     48 4 kUpb_ExtMode_NonExtendable 4 0"

definition grpc__lookup__v1__RouteLookupRequest_msg_init :: upb_MiniTable where
  "grpc__lookup__v1__RouteLookupRequest_msg_init = mini_table
     [Submsg grpc__lookup__v1__RouteLookupRequest__KeyMapEntry_msg_init_ptr]
     [mini_table_field 3 16 0 kUpb_NoSub kUpb_FieldType_String
        (kUpb_FieldMode_Scalar OR push_bit kUpb_FieldRep_Shift kUpb_FieldRep_StringView),
      mini_table_field 4 48 0 0 kUpb_FieldType_Message
        (kUpb_FieldMode_Map OR push_bit kUpb_FieldRep_Shift kUpb_FieldRep_8Byte),
      mini_table_field 5 8 0 kUpb_NoSub kUpb_FieldType_Int32
        (kUpb_FieldMode_Scalar OR kUpb_LabelFlags_IsAlternate OR push_bit kUpb_FieldRep_Shift kUpb_FieldRep_4Byte),
      mini_table_field 6 32 0 kUpb_NoSub kUpb_FieldType_String
        (kUpb_FieldMode_Scalar OR push_bit kUpb_FieldRep_Shift kUpb_FieldRep_StringView)]
     56 4 kUpb_ExtMode_NonExtendable 0 0"

definition grpc__lookup__v1__RouteLookupRequest__KeyMapEntry_msg_init :: upb_MiniTable where
  "grpc__lookup__v1__RouteLookupRequest__KeyMapEntry_msg_init = mini_table
     []
     [mini_table_field 1 16 0 kUpb_NoSub kUpb_FieldType_String
        (kUpb_FieldMode_Scalar OR push_bit kUpb_FieldRep_Shift kUpb_FieldRep_StringView),
      mini_table_field 2 32 0 kUpb_NoSub kUpb_FieldType_String
        (kUpb_FieldMode_Scalar OR push_bit kUpb_FieldRep_Shift kUpb_FieldRep_StringView)]
     48 2 kUpb_ExtMode_NonExtendable 2 0"

definition grpc__lookup__v1__RouteLookupResponse_msg_init :: upb_MiniTable where
  "grpc__lookup__v1__RouteLookupResponse_msg_init = mini_table
     []
     [mini_table_field 2 8 0 kUpb_NoSub kUpb_FieldType_String
        (kUpb_FieldMode_Scalar OR push_bit kUpb_FieldRep_Shift kUpb_FieldRep_StringView),
      mini_table_field 3 24 0 kUpb_NoSub kUpb_FieldType_String
        (kUpb_FieldMode_Array OR push_bit kUpb_FieldRep_Shift kUpb_FieldRep_8Byte)]
     32 2 kUpb_ExtMode_NonExtendable 0 0"

definition grpc__lookup__v1__NameMatcher_msg_init :: upb_MiniTable where
  "grpc__lookup__v1__NameMatcher_msg_init = mini_table
     []
     [mini_table_field 1 16 0 kUpb_NoSub kUpb_FieldType_String
        (kUpb_FieldMode_Scalar OR push_bit kUpb_FieldRep_Shift kUpb_FieldRep_StringView),
      mini_table_field 2 32 0 kUpb_NoSub kUpb_FieldType_String
        (kUpb_FieldMode_Array OR push_bit kUpb_FieldRep_Shift kUpb_FieldRep_8Byte),
      mini_table_field 3 8 0 kUpb_NoSub kUpb_FieldType_Bool
        (kUpb_FieldMode_Scalar OR push_bit kUpb_FieldRep_Shift kUpb_FieldRep_1Byte)]
     40 3 kUpb_ExtMode_NonExtendable 3 0"

definition grpc__lookup__v1__GrpcKeyBuilder_msg_init :: upb_MiniTable where
  "grpc__lookup__v1__GrpcKeyBuilder_msg_init = mini_table
     [Submsg grpc__lookup__v1__GrpcKeyBuilder__Name_msg_init_ptr,
      Submsg grpc__lookup__v1__NameMatcher_msg_init_ptr,
      Submsg grpc__lookup__v1__GrpcKeyBuilder__ExtraKeys_msg_init_ptr,
      Submsg grpc__lookup__v1__GrpcKeyBuilder__ConstantKeysEntry_msg_init_ptr]
     [mini_table_field 1 16 0 0 kUpb_FieldType_Message
        (kUpb_FieldMode_Array OR push_bit kUpb_FieldRep_Shift kUpb_FieldRep_8Byte),
      mini_table_field 2 24 0 1 kUpb_FieldType_Message
        (kUpb_FieldMode_Array OR push_bit kUpb_FieldRep_Shift kUpb_FieldRep_8Byte),
      mini_table_field 3 32 64 2 kUpb_FieldType_Message
        (kUpb_FieldMode_Scalar OR push_bit kUpb_FieldRep_Shift kUpb_FieldRep_8Byte),
      mini_table_field 4 40 0 3 kUpb_FieldType_Message
        (kUpb_FieldMode_Map OR push_bit kUpb_FieldRep_Shift kUpb_FieldRep_8Byte)]
     48 4 kUpb_ExtMode_NonExtendable 4 0"

definition grpc__lookup__v1__GrpcKeyBuilder__Name_msg_init :: upb_MiniTable where
  "grpc__lookup__v1__GrpcKeyBuilder__Name_msg_init = mini_table
     []
     [mini_table_field 1 8 0 kUpb_NoSub kUpb_FieldType_String
        (kUpb_FieldMode_Scalar OR push_bit kUpb_FieldRep_Shift kUpb_FieldRep_StringView),
      mini_table_field 2 24 0 kUpb_NoSub kUpb_FieldType_String
        (kUpb_FieldMode_Scalar OR push_bit kUpb_FieldRep_Shift kUpb_FieldRep_StringView)]
     40 2 kUpb_ExtMode_NonExtendable 2 0"

definition grpc__lookup__v1__GrpcKeyBuilder__ExtraKeys_msg_init :: upb_MiniTable where
  "grpc__lookup__v1__GrpcKeyBuilder__ExtraKeys_msg_init = mini_table
     []
     [mini_table_field 1 8 0 kUpb_NoSub kUpb_FieldType_String
        (kUpb_FieldMode_Scalar OR push_bit kUpb_FieldRep_Shift kUpb_FieldRep_StringView),
      mini_table_field 2 24 0 kUpb_NoSub kUpb_FieldType_String
        (kUpb_FieldMode_Scalar OR push_bit kUpb_FieldRep_Shift kUpb_FieldRep_StringView),
      mini_table_field 3 40 0 kUpb_NoSub kUpb_FieldType_String
        (kUpb_FieldMode_Scalar OR push_bit kUpb_FieldRep_Shift kUpb_FieldRep_StringView)]
     56 3 kUpb_ExtMode_NonExtendable 3 0"

definition grpc__lookup__v1__GrpcKeyBuilder__ConstantKeysEntry_msg_init :: upb_MiniTable where
  "grpc__lookup__v1__GrpcKeyBuilder__ConstantKeysEntry_msg_init = mini_table
     []
     [mini_table_field 1 16 0 kUpb_NoSub kUpb_FieldType_String
        (kUpb_FieldMode_Scalar OR push_bit kUpb_FieldRep_Shift kUpb_FieldRep_StringView),
      mini_table_field 2 32 0 kUpb_NoSub kUpb_FieldType_String
        (kUpb_FieldMode_Scalar OR push_bit kUpb_FieldRep_Shift kUpb_FieldRep_StringView)]
     48 2 kUpb_ExtMode_NonExtendable 2 0"

definition grpc__lookup__v1__HttpKeyBuilder_msg_init :: upb_MiniTable where
  "grpc__lookup__v1__HttpKeyBuilder_msg_init = mini_table
     [Submsg grpc__lookup__v1__NameMatcher_msg_init_ptr,
      Submsg grpc__lookup__v1__NameMatcher_msg_init_ptr,
      Submsg grpc__lookup__v1__HttpKeyBuilder__ConstantKeysEntry_msg_init_ptr]
     [mini_table_field 1 8 0 kUpb_NoSub kUpb_FieldType_String
        (kUpb_FieldMode_Array OR push_bit kUpb_FieldRep_Shift kUpb_FieldRep_8Byte),
      mini_table_field 2 16 0 kUpb_NoSub kUpb_FieldType_String
        (kUpb_FieldMode_Array OR push_bit kUpb_FieldRep_Shift kUpb_FieldRep_8Byte),
      mini_table_field 3 24 0 0 kUpb_FieldType_Message
        (kUpb_FieldMode_Array OR push_bit kUpb_FieldRep_Shift kUpb_FieldRep_8Byte),
      mini_table_field 4 32 0 1 kUpb_FieldType_Message
        (kUpb_FieldMode_Array OR push_bit kUpb_FieldRep_Shift kUpb_FieldRep_8Byte),
      mini_table_field 5 40 0 2 kUpb_FieldType_Message
        (kUpb_FieldMode_Map OR push_bit kUpb_FieldRep_Shift kUpb_FieldRep_8Byte)]
     48 5 kUpb_ExtMode_NonExtendable 5 0"

definition grpc__lookup__v1__HttpKeyBuilder__ConstantKeysEntry_msg_init :: upb_MiniTable where
  "grpc__lookup__v1__HttpKeyBuilder__ConstantKeysEntry_msg_init = mini_table
     []
     [mini_table_field 1 16 0 kUpb_NoSub kUpb_FieldType_String
        (kUpb_FieldMode_Scalar OR push_bit kUpb_FieldRep_Shift kUpb_FieldRep_StringView),
      mini_table_field 2 32 0 kUpb_NoSub kUpb_FieldType_String
        (kUpb_FieldMode_Scalar OR push_bit kUpb_FieldRep_Shift kUpb_FieldRep_StringView)]
     48 2 kUpb_ExtMode_NonExtendable 2 0"

definition grpc__lookup__v1__RouteLookupConfig_msg_init :: upb_MiniTable where
  "grpc__lookup__v1__RouteLookupConfig_msg_init = mini_table
     [Submsg grpc__lookup__v1__HttpKeyBuilder_msg_init_ptr,
      Submsg grpc__lookup__v1__GrpcKeyBuilder_msg_init_ptr,
      Submsg google__protobuf__Duration_msg_init_ptr,
      Submsg google__protobuf__Duration_msg_init_ptr,
      Submsg google__protobuf__Duration_msg_init_ptr]
     [mini_table_field 1 48 0 0 kUpb_FieldType_Message
        (kUpb_FieldMode_Array OR push_bit kUpb_FieldRep_Shift kUpb_FieldRep_8Byte),
      mini_table_field 2 56 0 1 kUpb_FieldType_Message
        (kUpb_FieldMode_Array OR push_bit kUpb_FieldRep_Shift kUpb_FieldRep_8Byte),
      mini_table_field 3 16 0 kUpb_NoSub kUpb_FieldType_String
        (kUpb_FieldMode_Scalar OR push_bit kUpb_FieldRep_Shift kUpb_FieldRep_StringView),
      mini_table_field 4 64 64 2 kUpb_FieldType_Message
        (kUpb_FieldMode_Scalar OR push_bit kUpb_FieldRep_Shift kUpb_FieldRep_8Byte),
      mini_table_field 5 72 65 3 kUpb_FieldType_Message
        (kUpb_FieldMode_Scalar OR push_bit kUpb_FieldRep_Shift kUpb_FieldRep_8Byte),
      mini_table_field 6 80 66 4 kUpb_FieldType_Message
        (kUpb_FieldMode_Scalar OR push_bit kUpb_FieldRep_Shift kUpb_FieldRep_8Byte),
      mini_table_field 7 88 0 kUpb_NoSub kUpb_FieldType_Int64
        (kUpb_FieldMode_Scalar OR push_bit kUpb_FieldRep_Shift kUpb_FieldRep_8Byte),
      mini_table_field 8 96 0 kUpb_NoSub kUpb_FieldType_String
        (kUpb_FieldMode_Array OR push_bit kUpb_FieldRep_Shift kUpb_FieldRep_8Byte),
      mini_table_field 9 32 0 kUpb_NoSub kUpb_FieldType_String
        (kUpb_FieldMode_Scalar OR push_bit kUpb_FieldRep_Shift kUpb_FieldRep_StringView)]
     104 9 kUpb_ExtMode_NonExtendable 9 0"

definition grpc__lookup__v1__RouteLookupClusterSpecifier_msg_init :: upb_MiniTable where
  "grpc__lookup__v1__RouteLookupClusterSpecifier_msg_init = mini_table
     [Submsg grpc__lookup__v1__RouteLookupConfig_msg_init_ptr]
     [mini_table_field 1 16 64 0 kUpb_FieldType_Message
        (kUpb_FieldMode_Scalar OR push_bit kUpb_FieldRep_Shift kUpb_FieldRep_8Byte)]
     24 1 kUpb_ExtMode_NonExtendable 1 0"

definition gen_grpc_tables :: "upb_MiniTable list" where
  "gen_grpc_tables = [grpc__gcp__AltsContext_msg_init,
     grpc__gcp__AltsContext__PeerAttributesEntry_msg_init,
     grpc__gcp__Endpoint_msg_init,
     grpc__gcp__Identity_msg_init,
     grpc__gcp__Identity__AttributesEntry_msg_init,
     grpc__gcp__StartClientHandshakeReq_msg_init,
     grpc__gcp__ServerHandshakeParameters_msg_init,
     grpc__gcp__StartServerHandshakeReq_msg_init,
     grpc__gcp__StartServerHandshakeReq__HandshakeParametersEntry_msg_init,
     grpc__gcp__NextHandshakeMessageReq_msg_init,
     grpc__gcp__HandshakerReq_msg_init,
     grpc__gcp__HandshakerResult_msg_init,
     grpc__gcp__HandshakerStatus_msg_init,
     grpc__gcp__HandshakerResp_msg_init,
     grpc__gcp__RpcProtocolVersions_msg_init,
     grpc__gcp__RpcProtocolVersions__Version_msg_init,
     grpc__health__v1__HealthCheckRequest_msg_init,
     grpc__health__v1__HealthCheckResponse_msg_init,
     grpc__lb__v1__LoadBalanceRequest_msg_init,
     grpc__lb__v1__InitialLoadBalanceRequest_msg_init,
     grpc__lb__v1__ClientStatsPerToken_msg_init,
     grpc__lb__v1__ClientStats_msg_init,
     grpc__lb__v1__LoadBalanceResponse_msg_init,
     grpc__lb__v1__FallbackResponse_msg_init,
     grpc__lb__v1__InitialLoadBalanceResponse_msg_init,
     grpc__lb__v1__ServerList_msg_init,
     grpc__lb__v1__Server_msg_init,
     grpc__lookup__v1__RouteLookupRequest_msg_init,
     grpc__lookup__v1__RouteLookupRequest__KeyMapEntry_msg_init,
     grpc__lookup__v1__RouteLookupResponse_msg_init,
     grpc__lookup__v1__NameMatcher_msg_init,
     grpc__lookup__v1__GrpcKeyBuilder_msg_init,
     grpc__lookup__v1__GrpcKeyBuilder__Name_msg_init,
     grpc__lookup__v1__GrpcKeyBuilder__ExtraKeys_msg_init,
     grpc__lookup__v1__GrpcKeyBuilder__ConstantKeysEntry_msg_init,
     grpc__lookup__v1__HttpKeyBuilder_msg_init,
     grpc__lookup__v1__HttpKeyBuilder__ConstantKeysEntry_msg_init,
     grpc__lookup__v1__RouteLookupConfig_msg_init,
     grpc__lookup__v1__RouteLookupClusterSpecifier_msg_init]"

section \<open>Every table is well formed\<close>

lemma grpc__gcp__AltsContext_msg_init_wf [table_wf]:
  "mt_wf grpc__gcp__AltsContext_msg_init"
  by (simp add: grpc__gcp__AltsContext_msg_init_def table_simps)

lemma grpc__gcp__AltsContext__PeerAttributesEntry_msg_init_wf [table_wf]:
  "mt_wf grpc__gcp__AltsContext__PeerAttributesEntry_msg_init"
  by (simp add: grpc__gcp__AltsContext__PeerAttributesEntry_msg_init_def table_simps)

lemma grpc__gcp__Endpoint_msg_init_wf [table_wf]:
  "mt_wf grpc__gcp__Endpoint_msg_init"
  by (simp add: grpc__gcp__Endpoint_msg_init_def table_simps)

lemma grpc__gcp__Identity_msg_init_wf [table_wf]:
  "mt_wf grpc__gcp__Identity_msg_init"
  by (simp add: grpc__gcp__Identity_msg_init_def table_simps)

lemma grpc__gcp__Identity__AttributesEntry_msg_init_wf [table_wf]:
  "mt_wf grpc__gcp__Identity__AttributesEntry_msg_init"
  by (simp add: grpc__gcp__Identity__AttributesEntry_msg_init_def table_simps)

lemma grpc__gcp__StartClientHandshakeReq_msg_init_wf [table_wf]:
  "mt_wf grpc__gcp__StartClientHandshakeReq_msg_init"
  by (simp add: grpc__gcp__StartClientHandshakeReq_msg_init_def table_simps)

lemma grpc__gcp__ServerHandshakeParameters_msg_init_wf [table_wf]:
  "mt_wf grpc__gcp__ServerHandshakeParameters_msg_init"
  by (simp add: grpc__gcp__ServerHandshakeParameters_msg_init_def table_simps)

lemma grpc__gcp__StartServerHandshakeReq_msg_init_wf [table_wf]:
  "mt_wf grpc__gcp__StartServerHandshakeReq_msg_init"
  by (simp add: grpc__gcp__StartServerHandshakeReq_msg_init_def table_simps)

lemma grpc__gcp__StartServerHandshakeReq__HandshakeParametersEntry_msg_init_wf [table_wf]:
  "mt_wf grpc__gcp__StartServerHandshakeReq__HandshakeParametersEntry_msg_init"
  by (simp add: grpc__gcp__StartServerHandshakeReq__HandshakeParametersEntry_msg_init_def table_simps)

lemma grpc__gcp__NextHandshakeMessageReq_msg_init_wf [table_wf]:
  "mt_wf grpc__gcp__NextHandshakeMessageReq_msg_init"
  by (simp add: grpc__gcp__NextHandshakeMessageReq_msg_init_def table_simps)

lemma grpc__gcp__HandshakerReq_msg_init_wf [table_wf]:
  "mt_wf grpc__gcp__HandshakerReq_msg_init"
  by (simp add: grpc__gcp__HandshakerReq_msg_init_def table_simps)

lemma grpc__gcp__HandshakerResult_msg_init_wf [table_wf]:
  "mt_wf grpc__gcp__HandshakerResult_msg_init"
  by (simp add: grpc__gcp__HandshakerResult_msg_init_def table_simps)

lemma grpc__gcp__HandshakerStatus_msg_init_wf [table_wf]:
  "mt_wf grpc__gcp__HandshakerStatus_msg_init"
  by (simp add: grpc__gcp__HandshakerStatus_msg_init_def table_simps)

lemma grpc__gcp__HandshakerResp_msg_init_wf [table_wf]:
  "mt_wf grpc__gcp__HandshakerResp_msg_init"
  by (simp add: grpc__gcp__HandshakerResp_msg_init_def table_simps)

lemma grpc__gcp__RpcProtocolVersions_msg_init_wf [table_wf]:
  "mt_wf grpc__gcp__RpcProtocolVersions_msg_init"
  by (simp add: grpc__gcp__RpcProtocolVersions_msg_init_def table_simps)

lemma grpc__gcp__RpcProtocolVersions__Version_msg_init_wf [table_wf]:
  "mt_wf grpc__gcp__RpcProtocolVersions__Version_msg_init"
  by (simp add: grpc__gcp__RpcProtocolVersions__Version_msg_init_def table_simps)

lemma grpc__health__v1__HealthCheckRequest_msg_init_wf [table_wf]:
  "mt_wf grpc__health__v1__HealthCheckRequest_msg_init"
  by (simp add: grpc__health__v1__HealthCheckRequest_msg_init_def table_simps)

lemma grpc__health__v1__HealthCheckResponse_msg_init_wf [table_wf]:
  "mt_wf grpc__health__v1__HealthCheckResponse_msg_init"
  by (simp add: grpc__health__v1__HealthCheckResponse_msg_init_def table_simps)

lemma grpc__lb__v1__LoadBalanceRequest_msg_init_wf [table_wf]:
  "mt_wf grpc__lb__v1__LoadBalanceRequest_msg_init"
  by (simp add: grpc__lb__v1__LoadBalanceRequest_msg_init_def table_simps)

lemma grpc__lb__v1__InitialLoadBalanceRequest_msg_init_wf [table_wf]:
  "mt_wf grpc__lb__v1__InitialLoadBalanceRequest_msg_init"
  by (simp add: grpc__lb__v1__InitialLoadBalanceRequest_msg_init_def table_simps)

lemma grpc__lb__v1__ClientStatsPerToken_msg_init_wf [table_wf]:
  "mt_wf grpc__lb__v1__ClientStatsPerToken_msg_init"
  by (simp add: grpc__lb__v1__ClientStatsPerToken_msg_init_def table_simps)

lemma grpc__lb__v1__ClientStats_msg_init_wf [table_wf]:
  "mt_wf grpc__lb__v1__ClientStats_msg_init"
  by (simp add: grpc__lb__v1__ClientStats_msg_init_def table_simps)

lemma grpc__lb__v1__LoadBalanceResponse_msg_init_wf [table_wf]:
  "mt_wf grpc__lb__v1__LoadBalanceResponse_msg_init"
  by (simp add: grpc__lb__v1__LoadBalanceResponse_msg_init_def table_simps)

lemma grpc__lb__v1__FallbackResponse_msg_init_wf [table_wf]:
  "mt_wf grpc__lb__v1__FallbackResponse_msg_init"
  by (simp add: grpc__lb__v1__FallbackResponse_msg_init_def table_simps)

lemma grpc__lb__v1__InitialLoadBalanceResponse_msg_init_wf [table_wf]:
  "mt_wf grpc__lb__v1__InitialLoadBalanceResponse_msg_init"
  by (simp add: grpc__lb__v1__InitialLoadBalanceResponse_msg_init_def table_simps)

lemma grpc__lb__v1__ServerList_msg_init_wf [table_wf]:
  "mt_wf grpc__lb__v1__ServerList_msg_init"
  by (simp add: grpc__lb__v1__ServerList_msg_init_def table_simps)

lemma grpc__lb__v1__Server_msg_init_wf [table_wf]:
  "mt_wf grpc__lb__v1__Server_msg_init"
  by (simp add: grpc__lb__v1__Server_msg_init_def table_simps)

lemma grpc__lookup__v1__RouteLookupRequest_msg_init_wf [table_wf]:
  "mt_wf grpc__lookup__v1__RouteLookupRequest_msg_init"
  by (simp add: grpc__lookup__v1__RouteLookupRequest_msg_init_def table_simps)

lemma grpc__lookup__v1__RouteLookupRequest__KeyMapEntry_msg_init_wf [table_wf]:
  "mt_wf grpc__lookup__v1__RouteLookupRequest__KeyMapEntry_msg_init"
  by (simp add: grpc__lookup__v1__RouteLookupRequest__KeyMapEntry_msg_init_def table_simps)

lemma grpc__lookup__v1__RouteLookupResponse_msg_init_wf [table_wf]:
  "mt_wf grpc__lookup__v1__RouteLookupResponse_msg_init"
  by (simp add: grpc__lookup__v1__RouteLookupResponse_msg_init_def table_simps)

lemma grpc__lookup__v1__NameMatcher_msg_init_wf [table_wf]:
  "mt_wf grpc__lookup__v1__NameMatcher_msg_init"
  by (simp add: grpc__lookup__v1__NameMatcher_msg_init_def table_simps)

lemma grpc__lookup__v1__GrpcKeyBuilder_msg_init_wf [table_wf]:
  "mt_wf grpc__lookup__v1__GrpcKeyBuilder_msg_init"
  by (simp add: grpc__lookup__v1__GrpcKeyBuilder_msg_init_def table_simps)

lemma grpc__lookup__v1__GrpcKeyBuilder__Name_msg_init_wf [table_wf]:
  "mt_wf grpc__lookup__v1__GrpcKeyBuilder__Name_msg_init"
  by (simp add: grpc__lookup__v1__GrpcKeyBuilder__Name_msg_init_def table_simps)

lemma grpc__lookup__v1__GrpcKeyBuilder__ExtraKeys_msg_init_wf [table_wf]:
  "mt_wf grpc__lookup__v1__GrpcKeyBuilder__ExtraKeys_msg_init"
  by (simp add: grpc__lookup__v1__GrpcKeyBuilder__ExtraKeys_msg_init_def table_simps)

lemma grpc__lookup__v1__GrpcKeyBuilder__ConstantKeysEntry_msg_init_wf [table_wf]:
  "mt_wf grpc__lookup__v1__GrpcKeyBuilder__ConstantKeysEntry_msg_init"
  by (simp add: grpc__lookup__v1__GrpcKeyBuilder__ConstantKeysEntry_msg_init_def table_simps)

lemma grpc__lookup__v1__HttpKeyBuilder_msg_init_wf [table_wf]:
  "mt_wf grpc__lookup__v1__HttpKeyBuilder_msg_init"
  by (simp add: grpc__lookup__v1__HttpKeyBuilder_msg_init_def table_simps)

lemma grpc__lookup__v1__HttpKeyBuilder__ConstantKeysEntry_msg_init_wf [table_wf]:
  "mt_wf grpc__lookup__v1__HttpKeyBuilder__ConstantKeysEntry_msg_init"
  by (simp add: grpc__lookup__v1__HttpKeyBuilder__ConstantKeysEntry_msg_init_def table_simps)

lemma grpc__lookup__v1__RouteLookupConfig_msg_init_wf [table_wf]:
  "mt_wf grpc__lookup__v1__RouteLookupConfig_msg_init"
  by (simp add: grpc__lookup__v1__RouteLookupConfig_msg_init_def table_simps)

lemma grpc__lookup__v1__RouteLookupClusterSpecifier_msg_init_wf [table_wf]:
  "mt_wf grpc__lookup__v1__RouteLookupClusterSpecifier_msg_init"
  by (simp add: grpc__lookup__v1__RouteLookupClusterSpecifier_msg_init_def table_simps)

lemma gen_grpc_tables_wf: "list_all mt_wf gen_grpc_tables"
  by (simp add: gen_grpc_tables_def table_wf)

end
