(* ===== verification/Gen_Expr.thy ===== *)
theory Gen_Expr
  imports Mini_Table_Refs
begin

unbundle bit_operations_syntax

text \<open>
  The generated mini tables of google.api.expr.v1alpha1
  (\<^verbatim>\<open>syntax.upb_minitable.c\<close>,
  \<^verbatim>\<open>checked.upb_minitable.c\<close>), initialiser by initialiser,
  in the 64-bit configuration and without the optional fast-decoder tables, and the check that each
  of them is well formed.
\<close>

section \<open>Definitions\<close>

definition google__api__expr__v1alpha1__ParsedExpr_msg_init :: upb_MiniTable where
  "google__api__expr__v1alpha1__ParsedExpr_msg_init = mini_table
     [Submsg google__api__expr__v1alpha1__Expr_msg_init_ptr,
      Submsg google__api__expr__v1alpha1__SourceInfo_msg_init_ptr]
     [mini_table_field 2 16 64 0 kUpb_FieldType_Message
        (kUpb_FieldMode_Scalar OR push_bit kUpb_FieldRep_Shift kUpb_FieldRep_8Byte),
      mini_table_field 3 24 65 1 kUpb_FieldType_Message
        (kUpb_FieldMode_Scalar OR push_bit kUpb_FieldRep_Shift kUpb_FieldRep_8Byte)]
     32 2 kUpb_ExtMode_NonExtendable 0 0"

definition google__api__expr__v1alpha1__Expr_msg_init :: upb_MiniTable where
  "google__api__expr__v1alpha1__Expr_msg_init = mini_table
     [Submsg google__api__expr__v1alpha1__Constant_msg_init_ptr,
      Submsg google__api__expr__v1alpha1__Expr__Ident_msg_init_ptr,
      Submsg google__api__expr__v1alpha1__Expr__Select_msg_init_ptr,
      Submsg google__api__expr__v1alpha1__Expr__Call_msg_init_ptr,
      Submsg google__api__expr__v1alpha1__Expr__CreateList_msg_init_ptr,
      Submsg google__api__expr__v1alpha1__Expr__CreateStruct_msg_init_ptr,
      Submsg google__api__expr__v1alpha1__Expr__Comprehension_msg_init_ptr]
     [mini_table_field 2 16 0 kUpb_NoSub kUpb_FieldType_Int64
        (kUpb_FieldMode_Scalar OR push_bit kUpb_FieldRep_Shift kUpb_FieldRep_8Byte),
      mini_table_field 3 24 (- 9) 0 kUpb_FieldType_Message
        (kUpb_FieldMode_Scalar OR push_bit kUpb_FieldRep_Shift kUpb_FieldRep_8Byte),
      mini_table_field 4 24 (- 9) 1 kUpb_FieldType_Message
        (kUpb_FieldMode_Scalar OR push_bit kUpb_FieldRep_Shift kUpb_FieldRep_8Byte),
      mini_table_field 5 24 (- 9) 2 kUpb_FieldType_Message
        (kUpb_FieldMode_Scalar OR push_bit kUpb_FieldRep_Shift kUpb_FieldRep_8Byte),
      mini_table_field 6 24 (- 9) 3 kUpb_FieldType_Message
        (kUpb_FieldMode_Scalar OR push_bit kUpb_FieldRep_Shift kUpb_FieldRep_8Byte),
      mini_table_field 7 24 (- 9) 4 kUpb_FieldType_Message
        (kUpb_FieldMode_Scalar OR push_bit kUpb_FieldRep_Shift kUpb_FieldRep_8Byte),
      mini_table_field 8 24 (- 9) 5 kUpb_FieldType_Message
        (kUpb_FieldMode_Scalar OR push_bit kUpb_FieldRep_Shift kUpb_FieldRep_8Byte),
      mini_table_field 9 24 (- 9) 6 kUpb_FieldType_Message
        (kUpb_FieldMode_Scalar OR push_bit kUpb_FieldRep_Shift kUpb_FieldRep_8Byte)]
     32 8 kUpb_ExtMode_NonExtendable 0 0"

definition google__api__expr__v1alpha1__Expr__Ident_msg_init :: upb_MiniTable where
  "google__api__expr__v1alpha1__Expr__Ident_msg_init = mini_table
     []
     [mini_table_field 1 8 0 kUpb_NoSub kUpb_FieldType_String
        (kUpb_FieldMode_Scalar OR push_bit kUpb_FieldRep_Shift kUpb_FieldRep_StringView)]
     24 1 kUpb_ExtMode_NonExtendable 1 0"

definition google__api__expr__v1alpha1__Expr__Select_msg_init :: upb_MiniTable where
  "google__api__expr__v1alpha1__Expr__Select_msg_init = mini_table
     [Submsg google__api__expr__v1alpha1__Expr_msg_init_ptr]
     [mini_table_field 1 32 64 0 kUpb_FieldType_Message
        (kUpb_FieldMode_Scalar OR push_bit kUpb_FieldRep_Shift kUpb_FieldRep_8Byte),
      mini_table_field 2 16 0 kUpb_NoSub kUpb_FieldType_String
        (kUpb_FieldMode_Scalar OR push_bit kUpb_FieldRep_Shift kUpb_FieldRep_StringView),
      mini_table_field 3 9 0 kUpb_NoSub kUpb_FieldType_Bool
        (kUpb_FieldMode_Scalar OR push_bit kUpb_FieldRep_Shift kUpb_FieldRep_1Byte)]
     40 3 kUpb_ExtMode_NonExtendable 3 0"

definition google__api__expr__v1alpha1__Expr__Call_msg_init :: upb_MiniTable where
  "google__api__expr__v1alpha1__Expr__Call_msg_init = mini_table
     [Submsg google__api__expr__v1alpha1__Expr_msg_init_ptr,
      Submsg google__api__expr__v1alpha1__Expr_msg_init_ptr]
     [mini_table_field 1 32 64 0 kUpb_FieldType_Message
        (kUpb_FieldMode_Scalar OR push_bit kUpb_FieldRep_Shift kUpb_FieldRep_8Byte),
      mini_table_field 2 16 0 kUpb_NoSub kUpb_FieldType_String
        (kUpb_FieldMode_Scalar OR push_bit kUpb_FieldRep_Shift kUpb_FieldRep_StringView),
      mini_table_field 3 40 0 1 kUpb_FieldType_Message
        (kUpb_FieldMode_Array OR push_bit kUpb_FieldRep_Shift kUpb_FieldRep_8Byte)]
     48 3 kUpb_ExtMode_NonExtendable 3 0"

definition google__api__expr__v1alpha1__Expr__CreateList_msg_init :: upb_MiniTable where
  "google__api__expr__v1alpha1__Expr__CreateList_msg_init = mini_table
     [Submsg google__api__expr__v1alpha1__Expr_msg_init_ptr]
     [mini_table_field 1 8 0 0 kUpb_FieldType_Message
        (kUpb_FieldMode_Array OR push_bit kUpb_FieldRep_Shift kUpb_FieldRep_8Byte),
      mini_table_field 2 16 0 kUpb_NoSub kUpb_FieldType_Int32
        (kUpb_FieldMode_Array OR kUpb_LabelFlags_IsPacked OR push_bit kUpb_FieldRep_Shift kUpb_FieldRep_8Byte)]
     24 2 kUpb_ExtMode_NonExtendable 2 0"

definition google__api__expr__v1alpha1__Expr__CreateStruct_msg_init :: upb_MiniTable where
  "google__api__expr__v1alpha1__Expr__CreateStruct_msg_init = mini_table
     [Submsg google__api__expr__v1alpha1__Expr__CreateStruct__Entry_msg_init_ptr]
     [mini_table_field 1 8 0 kUpb_NoSub kUpb_FieldType_String
        (kUpb_FieldMode_Scalar OR push_bit kUpb_FieldRep_Shift kUpb_FieldRep_StringView),
      mini_table_field 2 24 0 0 kUpb_FieldType_Message
        (kUpb_FieldMode_Array OR push_bit kUpb_FieldRep_Shift kUpb_FieldRep_8Byte)]
     32 2 kUpb_ExtMode_NonExtendable 2 0"

definition google__api__expr__v1alpha1__Expr__CreateStruct__Entry_msg_init :: upb_MiniTable where
  "google__api__expr__v1alpha1__Expr__CreateStruct__Entry_msg_init = mini_table
     [Submsg google__api__expr__v1alpha1__Expr_msg_init_ptr,
      Submsg google__api__expr__v1alpha1__Expr_msg_init_ptr]
     [mini_table_field 1 32 0 kUpb_NoSub kUpb_FieldType_Int64
        (kUpb_FieldMode_Scalar OR push_bit kUpb_FieldRep_Shift kUpb_FieldRep_8Byte),
      mini_table_field 2 16 (- 13) kUpb_NoSub kUpb_FieldType_String
        (kUpb_FieldMode_Scalar OR push_bit kUpb_FieldRep_Shift kUpb_FieldRep_StringView),
      mini_table_field 3 16 (- 13) 0 kUpb_FieldType_Message
        (kUpb_FieldMode_Scalar OR push_bit kUpb_FieldRep_Shift kUpb_FieldRep_8Byte),
      mini_table_field 4 40 64 1 kUpb_FieldType_Message
        (kUpb_FieldMode_Scalar OR push_bit kUpb_FieldRep_Shift kUpb_FieldRep_8Byte),
      mini_table_field 5 9 0 kUpb_NoSub kUpb_FieldType_Bool
        (kUpb_FieldMode_Scalar OR push_bit kUpb_FieldRep_Shift kUpb_FieldRep_1Byte)]
     48 5 kUpb_ExtMode_NonExtendable 5 0"

definition google__api__expr__v1alpha1__Expr__Comprehension_msg_init :: upb_MiniTable where
  "google__api__expr__v1alpha1__Expr__Comprehension_msg_init = mini_table
     [Submsg google__api__expr__v1alpha1__Expr_msg_init_ptr,
      Submsg google__api__expr__v1alpha1__Expr_msg_init_ptr,
      Submsg google__api__expr__v1alpha1__Expr_msg_init_ptr,
      Submsg google__api__expr__v1alpha1__Expr_msg_init_ptr,
      Submsg google__api__expr__v1alpha1__Expr_msg_init_ptr]
     [mini_table_field 1 16 0 kUpb_NoSub kUpb_FieldType_String
        (kUpb_FieldMode_Scalar OR push_bit kUpb_FieldRep_Shift kUpb_FieldRep_StringView),
      mini_table_field 2 64 64 0 kUpb_FieldType_Message
        (kUpb_FieldMode_Scalar OR push_bit kUpb_FieldRep_Shift kUpb_FieldRep_8Byte),
      mini_table_field 3 32 0 kUpb_NoSub kUpb_FieldType_String
        (kUpb_FieldMode_Scalar OR push_bit kUpb_FieldRep_Shift kUpb_FieldRep_StringView),
      mini_table_field 4 72 65 1 kUpb_FieldType_Message
        (kUpb_FieldMode_Scalar OR push_bit kUpb_FieldRep_Shift kUpb_FieldRep_8Byte),
      mini_table_field 5 80 66 2 kUpb_FieldType_Message
        (kUpb_FieldMode_Scalar OR push_bit kUpb_FieldRep_Shift kUpb_FieldRep_8Byte),
      mini_table_field 6 88 67 3 kUpb_FieldType_Message
        (kUpb_FieldMode_Scalar OR push_bit kUpb_FieldRep_Shift kUpb_FieldRep_8Byte),
      mini_table_field 7 96 68 4 kUpb_FieldType_Message
        (kUpb_FieldMode_Scalar OR push_bit kUpb_FieldRep_Shift kUpb_FieldRep_8Byte),
      mini_table_field 8 48 0 kUpb_NoSub kUpb_FieldType_String
        (kUpb_FieldMode_Scalar OR push_bit kUpb_FieldRep_Shift kUpb_FieldRep_StringView)]
     104 8 kUpb_ExtMode_NonExtendable 8 0"

definition google__api__expr__v1alpha1__Constant_msg_init :: upb_MiniTable where
  "google__api__expr__v1alpha1__Constant_msg_init = mini_table
     [Submsg google__protobuf__Duration_msg_init_ptr,
      Submsg google__protobuf__Timestamp_msg_init_ptr]
     [mini_table_field 1 16 (- 9) kUpb_NoSub kUpb_FieldType_Int32
        (kUpb_FieldMode_Scalar OR kUpb_LabelFlags_IsAlternate OR push_bit kUpb_FieldRep_Shift kUpb_FieldRep_4Byte),
      mini_table_field 2 16 (- 9) kUpb_NoSub kUpb_FieldType_Bool
        (kUpb_FieldMode_Scalar OR push_bit kUpb_FieldRep_Shift kUpb_FieldRep_1Byte),
      mini_table_field 3 16 (- 9) kUpb_NoSub kUpb_FieldType_Int64
        (kUpb_FieldMode_Scalar OR push_bit kUpb_FieldRep_Shift kUpb_FieldRep_8Byte),
      mini_table_field 4 16 (- 9) kUpb_NoSub kUpb_FieldType_UInt64
        (kUpb_FieldMode_Scalar OR push_bit kUpb_FieldRep_Shift kUpb_FieldRep_8Byte),
      mini_table_field 5 16 (- 9) kUpb_NoSub kUpb_FieldType_Double
        (kUpb_FieldMode_Scalar OR push_bit kUpb_FieldRep_Shift kUpb_FieldRep_8Byte),
      mini_table_field 6 16 (- 9) kUpb_NoSub kUpb_FieldType_String
        (kUpb_FieldMode_Scalar OR push_bit kUpb_FieldRep_Shift kUpb_FieldRep_StringView),
      mini_table_field 7 16 (- 9) kUpb_NoSub kUpb_FieldType_Bytes
        (kUpb_FieldMode_Scalar OR push_bit kUpb_FieldRep_Shift kUpb_FieldRep_StringView),
      mini_table_field 8 16 (- 9) 0 kUpb_FieldType_Message
        (kUpb_FieldMode_Scalar OR push_bit kUpb_FieldRep_Shift kUpb_FieldRep_8Byte),
      mini_table_field 9 16 (- 9) 1 kUpb_FieldType_Message
        (kUpb_FieldMode_Scalar OR push_bit kUpb_FieldRep_Shift kUpb_FieldRep_8Byte)]
     32 9 kUpb_ExtMode_NonExtendable 9 0"

definition google__api__expr__v1alpha1__SourceInfo_msg_init :: upb_MiniTable where
  "google__api__expr__v1alpha1__SourceInfo_msg_init = mini_table
     [Submsg google__api__expr__v1alpha1__SourceInfo__PositionsEntry_msg_init_ptr,
      Submsg google__api__expr__v1alpha1__SourceInfo__MacroCallsEntry_msg_init_ptr,
      Submsg google__api__expr__v1alpha1__SourceInfo__Extension_msg_init_ptr]
     [mini_table_field 1 8 0 kUpb_NoSub kUpb_FieldType_String
        (kUpb_FieldMode_Scalar OR push_bit kUpb_FieldRep_Shift kUpb_FieldRep_StringView),
      mini_table_field 2 24 0 kUpb_NoSub kUpb_FieldType_String
        (kUpb_FieldMode_Scalar OR push_bit kUpb_FieldRep_Shift kUpb_FieldRep_StringView),
      mini_table_field 3 40 0 kUpb_NoSub kUpb_FieldType_Int32
        (kUpb_FieldMode_Array OR kUpb_LabelFlags_IsPacked OR push_bit kUpb_FieldRep_Shift kUpb_FieldRep_8Byte),
      mini_table_field 4 48 0 0 kUpb_FieldType_Message
        (kUpb_FieldMode_Map OR push_bit kUpb_FieldRep_Shift kUpb_FieldRep_8Byte),
      mini_table_field 5 56 0 1 kUpb_FieldType_Message
        (kUpb_FieldMode_Map OR push_bit kUpb_FieldRep_Shift kUpb_FieldRep_8Byte),
      mini_table_field 6 64 0 2 kUpb_FieldType_Message
        (kUpb_FieldMode_Array OR push_bit kUpb_FieldRep_Shift kUpb_FieldRep_8Byte)]
     72 6 kUpb_ExtMode_NonExtendable 6 0"

definition google__api__expr__v1alpha1__SourceInfo__Extension_msg_init :: upb_MiniTable where
  "google__api__expr__v1alpha1__SourceInfo__Extension_msg_init = mini_table
     [Submsg google__api__expr__v1alpha1__SourceInfo__Extension__Version_msg_init_ptr]
     [mini_table_field 1 16 0 kUpb_NoSub kUpb_FieldType_String
        (kUpb_FieldMode_Scalar OR push_bit kUpb_FieldRep_Shift kUpb_FieldRep_StringView),
      mini_table_field 2 32 0 kUpb_NoSub kUpb_FieldType_Int32
        (kUpb_FieldMode_Array OR kUpb_LabelFlags_IsPacked OR kUpb_LabelFlags_IsAlternate OR push_bit kUpb_FieldRep_Shift kUpb_FieldRep_8Byte),
      mini_table_field 3 40 64 0 kUpb_FieldType_Message
        (kUpb_FieldMode_Scalar OR push_bit kUpb_FieldRep_Shift kUpb_FieldRep_8Byte)]
     48 3 kUpb_ExtMode_NonExtendable 3 0"

definition google__api__expr__v1alpha1__SourceInfo__Extension__Version_msg_init :: upb_MiniTable where
  "google__api__expr__v1alpha1__SourceInfo__Extension__Version_msg_init = mini_table
     []
     [mini_table_field 1 8 0 kUpb_NoSub kUpb_FieldType_Int64
        (kUpb_FieldMode_Scalar OR push_bit kUpb_FieldRep_Shift kUpb_FieldRep_8Byte),
      mini_table_field 2 16 0 kUpb_NoSub kUpb_FieldType_Int64
        (kUpb_FieldMode_Scalar OR push_bit kUpb_FieldRep_Shift kUpb_FieldRep_8Byte)]
     24 2 kUpb_ExtMode_NonExtendable 2 0"

definition google__api__expr__v1alpha1__SourceInfo__PositionsEntry_msg_init :: upb_MiniTable where
  "google__api__expr__v1alpha1__SourceInfo__PositionsEntry_msg_init = mini_table
     []
     [mini_table_field 1 16 0 kUpb_NoSub kUpb_FieldType_Int64
        (kUpb_FieldMode_Scalar OR push_bit kUpb_FieldRep_Shift kUpb_FieldRep_8Byte),
      mini_table_field 2 32 0 kUpb_NoSub kUpb_FieldType_Int32
        (kUpb_FieldMode_Scalar OR push_bit kUpb_FieldRep_Shift kUpb_FieldRep_4Byte)]
     48 2 kUpb_ExtMode_NonExtendable 2 0"

definition google__api__expr__v1alpha1__SourceInfo__MacroCallsEntry_msg_init :: upb_MiniTable where
  "google__api__expr__v1alpha1__SourceInfo__MacroCallsEntry_msg_init = mini_table
     [Submsg google__api__expr__v1alpha1__Expr_msg_init_ptr]
     [mini_table_field 1 16 0 kUpb_NoSub kUpb_FieldType_Int64
        (kUpb_FieldMode_Scalar OR push_bit kUpb_FieldRep_Shift kUpb_FieldRep_8Byte),
      mini_table_field 2 32 64 0 kUpb_FieldType_Message
        (kUpb_FieldMode_Scalar OR push_bit kUpb_FieldRep_Shift kUpb_FieldRep_8Byte)]
     48 2 kUpb_ExtMode_NonExtendable 2 0"

definition google__api__expr__v1alpha1__SourcePosition_msg_init :: upb_MiniTable where
  "google__api__expr__v1alpha1__SourcePosition_msg_init = mini_table
     []
     [mini_table_field 1 24 0 kUpb_NoSub kUpb_FieldType_String
        (kUpb_FieldMode_Scalar OR push_bit kUpb_FieldRep_Shift kUpb_FieldRep_StringView),
      mini_table_field 2 8 0 kUpb_NoSub kUpb_FieldType_Int32
        (kUpb_FieldMode_Scalar OR push_bit kUpb_FieldRep_Shift kUpb_FieldRep_4Byte),
      mini_table_field 3 12 0 kUpb_NoSub kUpb_FieldType_Int32
        (kUpb_FieldMode_Scalar OR push_bit kUpb_FieldRep_Shift kUpb_FieldRep_4Byte),
      mini_table_field 4 16 0 kUpb_NoSub kUpb_FieldType_Int32
        (kUpb_FieldMode_Scalar OR push_bit kUpb_FieldRep_Shift kUpb_FieldRep_4Byte)]
     40 4 kUpb_ExtMode_NonExtendable 4 0"

definition google__api__expr__v1alpha1__CheckedExpr_msg_init :: upb_MiniTable where
  "google__api__expr__v1alpha1__CheckedExpr_msg_init = mini_table
     [Submsg google__api__expr__v1alpha1__CheckedExpr__ReferenceMapEntry_msg_init_ptr,
      Submsg google__api__expr__v1alpha1__CheckedExpr__TypeMapEntry_msg_init_ptr,
      Submsg google__api__expr__v1alpha1__Expr_msg_init_ptr,
      Submsg google__api__expr__v1alpha1__SourceInfo_msg_init_ptr]
     [mini_table_field 2 32 0 0 kUpb_FieldType_Message
        (kUpb_FieldMode_Map OR push_bit kUpb_FieldRep_Shift kUpb_FieldRep_8Byte),
      mini_table_field 3 40 0 1 kUpb_FieldType_Message
        (kUpb_FieldMode_Map OR push_bit kUpb_FieldRep_Shift kUpb_FieldRep_8Byte),
      mini_table_field 4 48 64 2 kUpb_FieldType_Message
        (kUpb_FieldMode_Scalar OR push_bit kUpb_FieldRep_Shift kUpb_FieldRep_8Byte),
      mini_table_field 5 56 65 3 kUpb_FieldType_Message
        (kUpb_FieldMode_Scalar OR push_bit kUpb_FieldRep_Shift kUpb_FieldRep_8Byte),
      mini_table_field 6 16 0 kUpb_NoSub kUpb_FieldType_String
        (kUpb_FieldMode_Scalar OR push_bit kUpb_FieldRep_Shift kUpb_FieldRep_StringView)]
     64 5 kUpb_ExtMode_NonExtendable 0 0"

definition google__api__expr__v1alpha1__CheckedExpr__ReferenceMapEntry_msg_init :: upb_MiniTable where
  "google__api__expr__v1alpha1__CheckedExpr__ReferenceMapEntry_msg_init = mini_table
     [Submsg google__api__expr__v1alpha1__Reference_msg_init_ptr]
     [mini_table_field 1 16 0 kUpb_NoSub kUpb_FieldType_Int64
        (kUpb_FieldMode_Scalar OR push_bit kUpb_FieldRep_Shift kUpb_FieldRep_8Byte),
      mini_table_field 2 32 64 0 kUpb_FieldType_Message
        (kUpb_FieldMode_Scalar OR push_bit kUpb_FieldRep_Shift kUpb_FieldRep_8Byte)]
     48 2 kUpb_ExtMode_NonExtendable 2 0"

definition google__api__expr__v1alpha1__CheckedExpr__TypeMapEntry_msg_init :: upb_MiniTable where
  "google__api__expr__v1alpha1__CheckedExpr__TypeMapEntry_msg_init = mini_table
     [Submsg google__api__expr__v1alpha1__Type_msg_init_ptr]
     [mini_table_field 1 16 0 kUpb_NoSub kUpb_FieldType_Int64
        (kUpb_FieldMode_Scalar OR push_bit kUpb_FieldRep_Shift kUpb_FieldRep_8Byte),
      mini_table_field 2 32 64 0 kUpb_FieldType_Message
        (kUpb_FieldMode_Scalar OR push_bit kUpb_FieldRep_Shift kUpb_FieldRep_8Byte)]
     48 2 kUpb_ExtMode_NonExtendable 2 0"

definition google__api__expr__v1alpha1__Type_msg_init :: upb_MiniTable where
  "google__api__expr__v1alpha1__Type_msg_init = mini_table
     [Submsg google__protobuf__Empty_msg_init_ptr,
      Submsg google__api__expr__v1alpha1__Type__ListType_msg_init_ptr,
      Submsg google__api__expr__v1alpha1__Type__MapType_msg_init_ptr,
      Submsg google__api__expr__v1alpha1__Type__FunctionType_msg_init_ptr,
      Submsg google__api__expr__v1alpha1__Type_msg_init_ptr,
      Submsg google__protobuf__Empty_msg_init_ptr,
      Submsg google__api__expr__v1alpha1__Type__AbstractType_msg_init_ptr]
     [mini_table_field 1 16 (- 9) 0 kUpb_FieldType_Message
        (kUpb_FieldMode_Scalar OR push_bit kUpb_FieldRep_Shift kUpb_FieldRep_8Byte),
      mini_table_field 2 16 (- 9) kUpb_NoSub kUpb_FieldType_Int32
        (kUpb_FieldMode_Scalar OR kUpb_LabelFlags_IsAlternate OR push_bit kUpb_FieldRep_Shift kUpb_FieldRep_4Byte),
      mini_table_field 3 16 (- 9) kUpb_NoSub kUpb_FieldType_Int32
        (kUpb_FieldMode_Scalar OR kUpb_LabelFlags_IsAlternate OR push_bit kUpb_FieldRep_Shift kUpb_FieldRep_4Byte),
      mini_table_field 4 16 (- 9) kUpb_NoSub kUpb_FieldType_Int32
        (kUpb_FieldMode_Scalar OR kUpb_LabelFlags_IsAlternate OR push_bit kUpb_FieldRep_Shift kUpb_FieldRep_4Byte),
      mini_table_field 5 16 (- 9) kUpb_NoSub kUpb_FieldType_Int32
        (kUpb_FieldMode_Scalar OR kUpb_LabelFlags_IsAlternate OR push_bit kUpb_FieldRep_Shift kUpb_FieldRep_4Byte),
      mini_table_field 6 16 (- 9) 1 kUpb_FieldType_Message
        (kUpb_FieldMode_Scalar OR push_bit kUpb_FieldRep_Shift kUpb_FieldRep_8Byte),
      mini_table_field 7 16 (- 9) 2 kUpb_FieldType_Message
        (kUpb_FieldMode_Scalar OR push_bit kUpb_FieldRep_Shift kUpb_FieldRep_8Byte),
      mini_table_field 8 16 (- 9) 3 kUpb_FieldType_Message
        (kUpb_FieldMode_Scalar OR push_bit kUpb_FieldRep_Shift kUpb_FieldRep_8Byte),
      mini_table_field 9 16 (- 9) kUpb_NoSub kUpb_FieldType_String
        (kUpb_FieldMode_Scalar OR push_bit kUpb_FieldRep_Shift kUpb_FieldRep_StringView),
      mini_table_field 10 16 (- 9) kUpb_NoSub kUpb_FieldType_String
        (kUpb_FieldMode_Scalar OR push_bit kUpb_FieldRep_Shift kUpb_FieldRep_StringView),
      mini_table_field 11 16 (- 9) 4 kUpb_FieldType_Message
        (kUpb_FieldMode_Scalar OR push_bit kUpb_FieldRep_Shift kUpb_FieldRep_8Byte),
      mini_table_field 12 16 (- 9) 5 kUpb_FieldType_Message
        (kUpb_FieldMode_Scalar OR push_bit kUpb_FieldRep_Shift kUpb_FieldRep_8Byte),
      mini_table_field 14 16 (- 9) 6 kUpb_FieldType_Message
        (kUpb_FieldMode_Scalar OR push_bit kUpb_FieldRep_Shift kUpb_FieldRep_8Byte)]
     32 13 kUpb_ExtMode_NonExtendable 12 0"

definition google__api__expr__v1alpha1__Type__ListType_msg_init :: upb_MiniTable where
  "google__api__expr__v1alpha1__Type__ListType_msg_init = mini_table
     [Submsg google__api__expr__v1alpha1__Type_msg_init_ptr]
     [mini_table_field 1 16 64 0 kUpb_FieldType_Message
        (kUpb_FieldMode_Scalar OR push_bit kUpb_FieldRep_Shift kUpb_FieldRep_8Byte)]
     24 1 kUpb_ExtMode_NonExtendable 1 0"

definition google__api__expr__v1alpha1__Type__MapType_msg_init :: upb_MiniTable where
  "google__api__expr__v1alpha1__Type__MapType_msg_init = mini_table
     [Submsg google__api__expr__v1alpha1__Type_msg_init_ptr,
      Submsg google__api__expr__v1alpha1__Type_msg_init_ptr]
     [mini_table_field 1 16 64 0 kUpb_FieldType_Message
        (kUpb_FieldMode_Scalar OR push_bit kUpb_FieldRep_Shift kUpb_FieldRep_8Byte),
      mini_table_field 2 24 65 1 kUpb_FieldType_Message
        (kUpb_FieldMode_Scalar OR push_bit kUpb_FieldRep_Shift kUpb_FieldRep_8Byte)]
     32 2 kUpb_ExtMode_NonExtendable 2 0"

definition google__api__expr__v1alpha1__Type__FunctionType_msg_init :: upb_MiniTable where
  "google__api__expr__v1alpha1__Type__FunctionType_msg_init = mini_table
     [Submsg google__api__expr__v1alpha1__Type_msg_init_ptr,
      Submsg google__api__expr__v1alpha1__Type_msg_init_ptr]
     [mini_table_field 1 16 64 0 kUpb_FieldType_Message
        (kUpb_FieldMode_Scalar OR push_bit kUpb_FieldRep_Shift kUpb_FieldRep_8Byte),
      mini_table_field 2 24 0 1 kUpb_FieldType_Message
        (kUpb_FieldMode_Array OR push_bit kUpb_FieldRep_Shift kUpb_FieldRep_8Byte)]
     32 2 kUpb_ExtMode_NonExtendable 2 0"

definition google__api__expr__v1alpha1__Type__AbstractType_msg_init :: upb_MiniTable where
  "google__api__expr__v1alpha1__Type__AbstractType_msg_init = mini_table
     [Submsg google__api__expr__v1alpha1__Type_msg_init_ptr]
     [mini_table_field 1 8 0 kUpb_NoSub kUpb_FieldType_String
        (kUpb_FieldMode_Scalar OR push_bit kUpb_FieldRep_Shift kUpb_FieldRep_StringView),
      mini_table_field 2 24 0 0 kUpb_FieldType_Message
        (kUpb_FieldMode_Array OR push_bit kUpb_FieldRep_Shift kUpb_FieldRep_8Byte)]
     32 2 kUpb_ExtMode_NonExtendable 2 0"

definition google__api__expr__v1alpha1__Decl_msg_init :: upb_MiniTable where
  "google__api__expr__v1alpha1__Decl_msg_init = mini_table
     [Submsg google__api__expr__v1alpha1__Decl__IdentDecl_msg_init_ptr,
      Submsg google__api__expr__v1alpha1__Decl__FunctionDecl_msg_init_ptr]
     [mini_table_field 1 16 0 kUpb_NoSub kUpb_FieldType_String
        (kUpb_FieldMode_Scalar OR push_bit kUpb_FieldRep_Shift kUpb_FieldRep_StringView),
      mini_table_field 2 32 (- 9) 0 kUpb_FieldType_Message
        (kUpb_FieldMode_Scalar OR push_bit kUpb_FieldRep_Shift kUpb_FieldRep_8Byte),
      mini_table_field 3 32 (- 9) 1 kUpb_FieldType_Message
        (kUpb_FieldMode_Scalar OR push_bit kUpb_FieldRep_Shift kUpb_FieldRep_8Byte)]
     40 3 kUpb_ExtMode_NonExtendable 3 0"

definition google__api__expr__v1alpha1__Decl__IdentDecl_msg_init :: upb_MiniTable where
  "google__api__expr__v1alpha1__Decl__IdentDecl_msg_init = mini_table
     [Submsg google__api__expr__v1alpha1__Type_msg_init_ptr,
      Submsg google__api__expr__v1alpha1__Constant_msg_init_ptr]
     [mini_table_field 1 32 64 0 kUpb_FieldType_Message
        (kUpb_FieldMode_Scalar OR push_bit kUpb_FieldRep_Shift kUpb_FieldRep_8Byte),
      mini_table_field 2 40 65 1 kUpb_FieldType_Message
        (kUpb_FieldMode_Scalar OR push_bit kUpb_FieldRep_Shift kUpb_FieldRep_8Byte),
      mini_table_field 3 16 0 kUpb_NoSub kUpb_FieldType_String
        (kUpb_FieldMode_Scalar OR push_bit kUpb_FieldRep_Shift kUpb_FieldRep_StringView)]
     48 3 kUpb_ExtMode_NonExtendable 3 0"

definition google__api__expr__v1alpha1__Decl__FunctionDecl_msg_init :: upb_MiniTable where
  "google__api__expr__v1alpha1__Decl__FunctionDecl_msg_init = mini_table
     [Submsg google__api__expr__v1alpha1__Decl__FunctionDecl__Overload_msg_init_ptr]
     [mini_table_field 1 8 0 0 kUpb_FieldType_Message
        (kUpb_FieldMode_Array OR push_bit kUpb_FieldRep_Shift kUpb_FieldRep_8Byte)]
     16 1 kUpb_ExtMode_NonExtendable 1 0"

definition google__api__expr__v1alpha1__Decl__FunctionDecl__Overload_msg_init :: upb_MiniTable where
  "google__api__expr__v1alpha1__Decl__FunctionDecl__Overload_msg_init = mini_table
     [Submsg google__api__expr__v1alpha1__Type_msg_init_ptr,
      Submsg google__api__expr__v1alpha1__Type_msg_init_ptr]
     [mini_table_field 1 16 0 kUpb_NoSub kUpb_FieldType_String
        (kUpb_FieldMode_Scalar OR push_bit kUpb_FieldRep_Shift kUpb_FieldRep_StringView),
      mini_table_field 2 48 0 0 kUpb_FieldType_Message
        (kUpb_FieldMode_Array OR push_bit kUpb_FieldRep_Shift kUpb_FieldRep_8Byte),
      mini_table_field 3 56 0 kUpb_NoSub kUpb_FieldType_String
        (kUpb_FieldMode_Array OR push_bit kUpb_FieldRep_Shift kUpb_FieldRep_8Byte),
      mini_table_field 4 64 64 1 kUpb_FieldType_Message
        (kUpb_FieldMode_Scalar OR push_bit kUpb_FieldRep_Shift kUpb_FieldRep_8Byte),
      mini_table_field 5 9 0 kUpb_NoSub kUpb_FieldType_Bool
        (kUpb_FieldMode_Scalar OR push_bit kUpb_FieldRep_Shift kUpb_FieldRep_1Byte),
      mini_table_field 6 32 0 kUpb_NoSub kUpb_FieldType_String
        (kUpb_FieldMode_Scalar OR push_bit kUpb_FieldRep_Shift kUpb_FieldRep_StringView)]
     72 6 kUpb_ExtMode_NonExtendable 6 0"

definition google__api__expr__v1alpha1__Reference_msg_init :: upb_MiniTable where
  "google__api__expr__v1alpha1__Reference_msg_init = mini_table
     [Submsg google__api__expr__v1alpha1__Constant_msg_init_ptr]
     [mini_table_field 1 16 0 kUpb_NoSub kUpb_FieldType_String
        (kUpb_FieldMode_Scalar OR push_bit kUpb_FieldRep_Shift kUpb_FieldRep_StringView),
      mini_table_field 3 32 0 kUpb_NoSub kUpb_FieldType_String
        (kUpb_FieldMode_Array OR push_bit kUpb_FieldRep_Shift kUpb_FieldRep_8Byte),
      mini_table_field 4 40 64 0 kUpb_FieldType_Message
        (kUpb_FieldMode_Scalar OR push_bit kUpb_FieldRep_Shift kUpb_FieldRep_8Byte)]
     48 3 kUpb_ExtMode_NonExtendable 1 0"

definition gen_expr_tables :: "upb_MiniTable list" where
  "gen_expr_tables = [google__api__expr__v1alpha1__ParsedExpr_msg_init,
     google__api__expr__v1alpha1__Expr_msg_init,
     google__api__expr__v1alpha1__Expr__Ident_msg_init,
     google__api__expr__v1alpha1__Expr__Select_msg_init,
     google__api__expr__v1alpha1__Expr__Call_msg_init,
     google__api__expr__v1alpha1__Expr__CreateList_msg_init,
     google__api__expr__v1alpha1__Expr__CreateStruct_msg_init,
     google__api__expr__v1alpha1__Expr__CreateStruct__Entry_msg_init,
     google__api__expr__v1alpha1__Expr__Comprehension_msg_init,
     google__api__expr__v1alpha1__Constant_msg_init,
     google__api__expr__v1alpha1__SourceInfo_msg_init,
     google__api__expr__v1alpha1__SourceInfo__Extension_msg_init,
     google__api__expr__v1alpha1__SourceInfo__Extension__Version_msg_init,
     google__api__expr__v1alpha1__SourceInfo__PositionsEntry_msg_init,
     google__api__expr__v1alpha1__SourceInfo__MacroCallsEntry_msg_init,
     google__api__expr__v1alpha1__SourcePosition_msg_init,
     google__api__expr__v1alpha1__CheckedExpr_msg_init,
     google__api__expr__v1alpha1__CheckedExpr__ReferenceMapEntry_msg_init,
     google__api__expr__v1alpha1__CheckedExpr__TypeMapEntry_msg_init,
     google__api__expr__v1alpha1__Type_msg_init,
     google__api__expr__v1alpha1__Type__ListType_msg_init,
     google__api__expr__v1alpha1__Type__MapType_msg_init,
     google__api__expr__v1alpha1__Type__FunctionType_msg_init,
     google__api__expr__v1alpha1__Type__AbstractType_msg_init,
     google__api__expr__v1alpha1__Decl_msg_init,
     google__api__expr__v1alpha1__Decl__IdentDecl_msg_init,
     google__api__expr__v1alpha1__Decl__FunctionDecl_msg_init,
     google__api__expr__v1alpha1__Decl__FunctionDecl__Overload_msg_init,
     google__api__expr__v1alpha1__Reference_msg_init]"

section \<open>Every table is well formed\<close>

lemma google__api__expr__v1alpha1__ParsedExpr_msg_init_wf [table_wf]:
  "mt_wf google__api__expr__v1alpha1__ParsedExpr_msg_init"
  by (simp add: google__api__expr__v1alpha1__ParsedExpr_msg_init_def table_simps)

lemma google__api__expr__v1alpha1__Expr_msg_init_wf [table_wf]:
  "mt_wf google__api__expr__v1alpha1__Expr_msg_init"
  by (simp add: google__api__expr__v1alpha1__Expr_msg_init_def table_simps)

lemma google__api__expr__v1alpha1__Expr__Ident_msg_init_wf [table_wf]:
  "mt_wf google__api__expr__v1alpha1__Expr__Ident_msg_init"
  by (simp add: google__api__expr__v1alpha1__Expr__Ident_msg_init_def table_simps)

lemma google__api__expr__v1alpha1__Expr__Select_msg_init_wf [table_wf]:
  "mt_wf google__api__expr__v1alpha1__Expr__Select_msg_init"
  by (simp add: google__api__expr__v1alpha1__Expr__Select_msg_init_def table_simps)

lemma google__api__expr__v1alpha1__Expr__Call_msg_init_wf [table_wf]:
  "mt_wf google__api__expr__v1alpha1__Expr__Call_msg_init"
  by (simp add: google__api__expr__v1alpha1__Expr__Call_msg_init_def table_simps)

lemma google__api__expr__v1alpha1__Expr__CreateList_msg_init_wf [table_wf]:
  "mt_wf google__api__expr__v1alpha1__Expr__CreateList_msg_init"
  by (simp add: google__api__expr__v1alpha1__Expr__CreateList_msg_init_def table_simps)

lemma google__api__expr__v1alpha1__Expr__CreateStruct_msg_init_wf [table_wf]:
  "mt_wf google__api__expr__v1alpha1__Expr__CreateStruct_msg_init"
  by (simp add: google__api__expr__v1alpha1__Expr__CreateStruct_msg_init_def table_simps)

lemma google__api__expr__v1alpha1__Expr__CreateStruct__Entry_msg_init_wf [table_wf]:
  "mt_wf google__api__expr__v1alpha1__Expr__CreateStruct__Entry_msg_init"
  by (simp add: google__api__expr__v1alpha1__Expr__CreateStruct__Entry_msg_init_def table_simps)

lemma google__api__expr__v1alpha1__Expr__Comprehension_msg_init_wf [table_wf]:
  "mt_wf google__api__expr__v1alpha1__Expr__Comprehension_msg_init"
  by (simp add: google__api__expr__v1alpha1__Expr__Comprehension_msg_init_def table_simps)

lemma google__api__expr__v1alpha1__Constant_msg_init_wf [table_wf]:
  "mt_wf google__api__expr__v1alpha1__Constant_msg_init"
  by (simp add: google__api__expr__v1alpha1__Constant_msg_init_def table_simps)

lemma google__api__expr__v1alpha1__SourceInfo_msg_init_wf [table_wf]:
  "mt_wf google__api__expr__v1alpha1__SourceInfo_msg_init"
  by (simp add: google__api__expr__v1alpha1__SourceInfo_msg_init_def table_simps)

lemma google__api__expr__v1alpha1__SourceInfo__Extension_msg_init_wf [table_wf]:
  "mt_wf google__api__expr__v1alpha1__SourceInfo__Extension_msg_init"
  by (simp add: google__api__expr__v1alpha1__SourceInfo__Extension_msg_init_def table_simps)

lemma google__api__expr__v1alpha1__SourceInfo__Extension__Version_msg_init_wf [table_wf]:
  "mt_wf google__api__expr__v1alpha1__SourceInfo__Extension__Version_msg_init"
  by (simp add: google__api__expr__v1alpha1__SourceInfo__Extension__Version_msg_init_def table_simps)

lemma google__api__expr__v1alpha1__SourceInfo__PositionsEntry_msg_init_wf [table_wf]:
  "mt_wf google__api__expr__v1alpha1__SourceInfo__PositionsEntry_msg_init"
  by (simp add: google__api__expr__v1alpha1__SourceInfo__PositionsEntry_msg_init_def table_simps)

lemma google__api__expr__v1alpha1__SourceInfo__MacroCallsEntry_msg_init_wf [table_wf]:
  "mt_wf google__api__expr__v1alpha1__SourceInfo__MacroCallsEntry_msg_init"
  by (simp add: google__api__expr__v1alpha1__SourceInfo__MacroCallsEntry_msg_init_def table_simps)

lemma google__api__expr__v1alpha1__SourcePosition_msg_init_wf [table_wf]:
  "mt_wf google__api__expr__v1alpha1__SourcePosition_msg_init"
  by (simp add: google__api__expr__v1alpha1__SourcePosition_msg_init_def table_simps)

lemma google__api__expr__v1alpha1__CheckedExpr_msg_init_wf [table_wf]:
  "mt_wf google__api__expr__v1alpha1__CheckedExpr_msg_init"
  by (simp add: google__api__expr__v1alpha1__CheckedExpr_msg_init_def table_simps)

lemma google__api__expr__v1alpha1__CheckedExpr__ReferenceMapEntry_msg_init_wf [table_wf]:
  "mt_wf google__api__expr__v1alpha1__CheckedExpr__ReferenceMapEntry_msg_init"
  by (simp add: google__api__expr__v1alpha1__CheckedExpr__ReferenceMapEntry_msg_init_def table_simps)

lemma google__api__expr__v1alpha1__CheckedExpr__TypeMapEntry_msg_init_wf [table_wf]:
  "mt_wf google__api__expr__v1alpha1__CheckedExpr__TypeMapEntry_msg_init"
  by (simp add: google__api__expr__v1alpha1__CheckedExpr__TypeMapEntry_msg_init_def table_simps)

lemma google__api__expr__v1alpha1__Type_msg_init_wf [table_wf]:
  "mt_wf google__api__expr__v1alpha1__Type_msg_init"
  by (simp add: google__api__expr__v1alpha1__Type_msg_init_def table_simps)

lemma google__api__expr__v1alpha1__Type__ListType_msg_init_wf [table_wf]:
  "mt_wf google__api__expr__v1alpha1__Type__ListType_msg_init"
  by (simp add: google__api__expr__v1alpha1__Type__ListType_msg_init_def table_simps)

lemma google__api__expr__v1alpha1__Type__MapType_msg_init_wf [table_wf]:
  "mt_wf google__api__expr__v1alpha1__Type__MapType_msg_init"
  by (simp add: google__api__expr__v1alpha1__Type__MapType_msg_init_def table_simps)

lemma google__api__expr__v1alpha1__Type__FunctionType_msg_init_wf [table_wf]:
  "mt_wf google__api__expr__v1alpha1__Type__FunctionType_msg_init"
  by (simp add: google__api__expr__v1alpha1__Type__FunctionType_msg_init_def table_simps)

lemma google__api__expr__v1alpha1__Type__AbstractType_msg_init_wf [table_wf]:
  "mt_wf google__api__expr__v1alpha1__Type__AbstractType_msg_init"
  by (simp add: google__api__expr__v1alpha1__Type__AbstractType_msg_init_def table_simps)

lemma google__api__expr__v1alpha1__Decl_msg_init_wf [table_wf]:
  "mt_wf google__api__expr__v1alpha1__Decl_msg_init"
  by (simp add: google__api__expr__v1alpha1__Decl_msg_init_def table_simps)

lemma google__api__expr__v1alpha1__Decl__IdentDecl_msg_init_wf [table_wf]:
  "mt_wf google__api__expr__v1alpha1__Decl__IdentDecl_msg_init"
  by (simp add: google__api__expr__v1alpha1__Decl__IdentDecl_msg_init_def table_simps)

lemma google__api__expr__v1alpha1__Decl__FunctionDecl_msg_init_wf [table_wf]:
  "mt_wf google__api__expr__v1alpha1__Decl__FunctionDecl_msg_init"
  by (simp add: google__api__expr__v1alpha1__Decl__FunctionDecl_msg_init_def table_simps)

lemma google__api__expr__v1alpha1__Decl__FunctionDecl__Overload_msg_init_wf [table_wf]:
  "mt_wf google__api__expr__v1alpha1__Decl__FunctionDecl__Overload_msg_init"
  by (simp add: google__api__expr__v1alpha1__Decl__FunctionDecl__Overload_msg_init_def table_simps)

lemma google__api__expr__v1alpha1__Reference_msg_init_wf [table_wf]:
  "mt_wf google__api__expr__v1alpha1__Reference_msg_init"
  by (simp add: google__api__expr__v1alpha1__Reference_msg_init_def table_simps)

lemma gen_expr_tables_wf: "list_all mt_wf gen_expr_tables"
  by (simp add: gen_expr_tables_def table_wf)

end
