(* ===== verification/Gen_Validate.thy ===== *)
theory Gen_Validate
  imports Mini_Table_Refs
begin

unbundle bit_operations_syntax

text \<open>
  The generated mini tables of validate/validate.proto
  (\<^verbatim>\<open>validate.upb_minitable.c\<close>), initialiser by initialiser,
  in the 64-bit configuration and without the optional fast-decoder tables, and the check that each
  of them is well formed.
\<close>

section \<open>Definitions\<close>

definition validate__KnownRegex_enum_init :: upb_MiniTableEnum where
  "validate__KnownRegex_enum_init = \<lparr> mask_limit = 64, value_count = 0, enum_data = [0x7, 0x0] \<rparr>"

definition validate__FieldRules_msg_init :: upb_MiniTable where
  "validate__FieldRules_msg_init = mini_table
     [Submsg validate__FloatRules_msg_init_ptr,
      Submsg validate__DoubleRules_msg_init_ptr,
      Submsg validate__Int32Rules_msg_init_ptr,
      Submsg validate__Int64Rules_msg_init_ptr,
      Submsg validate__UInt32Rules_msg_init_ptr,
      Submsg validate__UInt64Rules_msg_init_ptr,
      Submsg validate__SInt32Rules_msg_init_ptr,
      Submsg validate__SInt64Rules_msg_init_ptr,
      Submsg validate__Fixed32Rules_msg_init_ptr,
      Submsg validate__Fixed64Rules_msg_init_ptr,
      Submsg validate__SFixed32Rules_msg_init_ptr,
      Submsg validate__SFixed64Rules_msg_init_ptr,
      Submsg validate__BoolRules_msg_init_ptr,
      Submsg validate__StringRules_msg_init_ptr,
      Submsg validate__BytesRules_msg_init_ptr,
      Submsg validate__EnumRules_msg_init_ptr,
      Submsg validate__MessageRules_msg_init_ptr,
      Submsg validate__RepeatedRules_msg_init_ptr,
      Submsg validate__MapRules_msg_init_ptr,
      Submsg validate__AnyRules_msg_init_ptr,
      Submsg validate__DurationRules_msg_init_ptr,
      Submsg validate__TimestampRules_msg_init_ptr]
     [mini_table_field 1 24 (- 13) 0 kUpb_FieldType_Message
        (kUpb_FieldMode_Scalar OR push_bit kUpb_FieldRep_Shift kUpb_FieldRep_8Byte),
      mini_table_field 2 24 (- 13) 1 kUpb_FieldType_Message
        (kUpb_FieldMode_Scalar OR push_bit kUpb_FieldRep_Shift kUpb_FieldRep_8Byte),
      mini_table_field 3 24 (- 13) 2 kUpb_FieldType_Message
        (kUpb_FieldMode_Scalar OR push_bit kUpb_FieldRep_Shift kUpb_FieldRep_8Byte),
      mini_table_field 4 24 (- 13) 3 kUpb_FieldType_Message
        (kUpb_FieldMode_Scalar OR push_bit kUpb_FieldRep_Shift kUpb_FieldRep_8Byte),
      mini_table_field 5 24 (- 13) 4 kUpb_FieldType_Message
        (kUpb_FieldMode_Scalar OR push_bit kUpb_FieldRep_Shift kUpb_FieldRep_8Byte),
      mini_table_field 6 24 (- 13) 5 kUpb_FieldType_Message
        (kUpb_FieldMode_Scalar OR push_bit kUpb_FieldRep_Shift kUpb_FieldRep_8Byte),
      mini_table_field 7 24 (- 13) 6 kUpb_FieldType_Message
        (kUpb_FieldMode_Scalar OR push_bit kUpb_FieldRep_Shift kUpb_FieldRep_8Byte),
      mini_table_field 8 24 (- 13) 7 kUpb_FieldType_Message
        (kUpb_FieldMode_Scalar OR push_bit kUpb_FieldRep_Shift kUpb_FieldRep_8Byte),
      mini_table_field 9 24 (- 13) 8 kUpb_FieldType_Message
        (kUpb_FieldMode_Scalar OR push_bit kUpb_FieldRep_Shift kUpb_FieldRep_8Byte),
      mini_table_field 10 24 (- 13) 9 kUpb_FieldType_Message
        (kUpb_FieldMode_Scalar OR push_bit kUpb_FieldRep_Shift kUpb_FieldRep_8Byte),
      mini_table_field 11 24 (- 13) 10 kUpb_FieldType_Message
        (kUpb_FieldMode_Scalar OR push_bit kUpb_FieldRep_Shift kUpb_FieldRep_8Byte),
      mini_table_field 12 24 (- 13) 11 kUpb_FieldType_Message
        (kUpb_FieldMode_Scalar OR push_bit kUpb_FieldRep_Shift kUpb_FieldRep_8Byte),
      mini_table_field 13 24 (- 13) 12 kUpb_FieldType_Message
        (kUpb_FieldMode_Scalar OR push_bit kUpb_FieldRep_Shift kUpb_FieldRep_8Byte),
      mini_table_field 14 24 (- 13) 13 kUpb_FieldType_Message
        (kUpb_FieldMode_Scalar OR push_bit kUpb_FieldRep_Shift kUpb_FieldRep_8Byte),
      mini_table_field 15 24 (- 13) 14 kUpb_FieldType_Message
        (kUpb_FieldMode_Scalar OR push_bit kUpb_FieldRep_Shift kUpb_FieldRep_8Byte),
      mini_table_field 16 24 (- 13) 15 kUpb_FieldType_Message
        (kUpb_FieldMode_Scalar OR push_bit kUpb_FieldRep_Shift kUpb_FieldRep_8Byte),
      mini_table_field 17 16 64 16 kUpb_FieldType_Message
        (kUpb_FieldMode_Scalar OR push_bit kUpb_FieldRep_Shift kUpb_FieldRep_8Byte),
      mini_table_field 18 24 (- 13) 17 kUpb_FieldType_Message
        (kUpb_FieldMode_Scalar OR push_bit kUpb_FieldRep_Shift kUpb_FieldRep_8Byte),
      mini_table_field 19 24 (- 13) 18 kUpb_FieldType_Message
        (kUpb_FieldMode_Scalar OR push_bit kUpb_FieldRep_Shift kUpb_FieldRep_8Byte),
      mini_table_field 20 24 (- 13) 19 kUpb_FieldType_Message
        (kUpb_FieldMode_Scalar OR push_bit kUpb_FieldRep_Shift kUpb_FieldRep_8Byte),
      mini_table_field 21 24 (- 13) 20 kUpb_FieldType_Message
        (kUpb_FieldMode_Scalar OR push_bit kUpb_FieldRep_Shift kUpb_FieldRep_8Byte),
      mini_table_field 22 24 (- 13) 21 kUpb_FieldType_Message
        (kUpb_FieldMode_Scalar OR push_bit kUpb_FieldRep_Shift kUpb_FieldRep_8Byte)]
     32 22 kUpb_ExtMode_NonExtendable 22 0"

definition validate__FloatRules_msg_init :: upb_MiniTable where
  "validate__FloatRules_msg_init = mini_table
     []
     [mini_table_field 1 12 64 kUpb_NoSub kUpb_FieldType_Float
        (kUpb_FieldMode_Scalar OR push_bit kUpb_FieldRep_Shift kUpb_FieldRep_4Byte),
      mini_table_field 2 16 65 kUpb_NoSub kUpb_FieldType_Float
        (kUpb_FieldMode_Scalar OR push_bit kUpb_FieldRep_Shift kUpb_FieldRep_4Byte),
      mini_table_field 3 20 66 kUpb_NoSub kUpb_FieldType_Float
        (kUpb_FieldMode_Scalar OR push_bit kUpb_FieldRep_Shift kUpb_FieldRep_4Byte),
      mini_table_field 4 24 67 kUpb_NoSub kUpb_FieldType_Float
        (kUpb_FieldMode_Scalar OR push_bit kUpb_FieldRep_Shift kUpb_FieldRep_4Byte),
      mini_table_field 5 28 68 kUpb_NoSub kUpb_FieldType_Float
        (kUpb_FieldMode_Scalar OR push_bit kUpb_FieldRep_Shift kUpb_FieldRep_4Byte),
      mini_table_field 6 32 0 kUpb_NoSub kUpb_FieldType_Float
        (kUpb_FieldMode_Array OR push_bit kUpb_FieldRep_Shift kUpb_FieldRep_8Byte),
      mini_table_field 7 40 0 kUpb_NoSub kUpb_FieldType_Float
        (kUpb_FieldMode_Array OR push_bit kUpb_FieldRep_Shift kUpb_FieldRep_8Byte),
      mini_table_field 8 9 69 kUpb_NoSub kUpb_FieldType_Bool
        (kUpb_FieldMode_Scalar OR push_bit kUpb_FieldRep_Shift kUpb_FieldRep_1Byte)]
     48 8 kUpb_ExtMode_NonExtendable 8 0"

definition validate__DoubleRules_msg_init :: upb_MiniTable where
  "validate__DoubleRules_msg_init = mini_table
     []
     [mini_table_field 1 16 64 kUpb_NoSub kUpb_FieldType_Double
        (kUpb_FieldMode_Scalar OR push_bit kUpb_FieldRep_Shift kUpb_FieldRep_8Byte),
      mini_table_field 2 24 65 kUpb_NoSub kUpb_FieldType_Double
        (kUpb_FieldMode_Scalar OR push_bit kUpb_FieldRep_Shift kUpb_FieldRep_8Byte),
      mini_table_field 3 32 66 kUpb_NoSub kUpb_FieldType_Double
        (kUpb_FieldMode_Scalar OR push_bit kUpb_FieldRep_Shift kUpb_FieldRep_8Byte),
      mini_table_field 4 40 67 kUpb_NoSub kUpb_FieldType_Double
        (kUpb_FieldMode_Scalar OR push_bit kUpb_FieldRep_Shift kUpb_FieldRep_8Byte),
      mini_table_field 5 48 68 kUpb_NoSub kUpb_FieldType_Double
        (kUpb_FieldMode_Scalar OR push_bit kUpb_FieldRep_Shift kUpb_FieldRep_8Byte),
      mini_table_field 6 56 0 kUpb_NoSub kUpb_FieldType_Double
        (kUpb_FieldMode_Array OR push_bit kUpb_FieldRep_Shift kUpb_FieldRep_8Byte),
      mini_table_field 7 64 0 kUpb_NoSub kUpb_FieldType_Double
        (kUpb_FieldMode_Array OR push_bit kUpb_FieldRep_Shift kUpb_FieldRep_8Byte),
      mini_table_field 8 9 69 kUpb_NoSub kUpb_FieldType_Bool
        (kUpb_FieldMode_Scalar OR push_bit kUpb_FieldRep_Shift kUpb_FieldRep_1Byte)]
     72 8 kUpb_ExtMode_NonExtendable 8 0"

definition validate__Int32Rules_msg_init :: upb_MiniTable where
  "validate__Int32Rules_msg_init = mini_table
     []
     [mini_table_field 1 12 64 kUpb_NoSub kUpb_FieldType_Int32
        (kUpb_FieldMode_Scalar OR push_bit kUpb_FieldRep_Shift kUpb_FieldRep_4Byte),
      mini_table_field 2 16 65 kUpb_NoSub kUpb_FieldType_Int32
        (kUpb_FieldMode_Scalar OR push_bit kUpb_FieldRep_Shift kUpb_FieldRep_4Byte),
      mini_table_field 3 20 66 kUpb_NoSub kUpb_FieldType_Int32
        (kUpb_FieldMode_Scalar OR push_bit kUpb_FieldRep_Shift kUpb_FieldRep_4Byte),
      mini_table_field 4 24 67 kUpb_NoSub kUpb_FieldType_Int32
        (kUpb_FieldMode_Scalar OR push_bit kUpb_FieldRep_Shift kUpb_FieldRep_4Byte),
      mini_table_field 5 28 68 kUpb_NoSub kUpb_FieldType_Int32
        (kUpb_FieldMode_Scalar OR push_bit kUpb_FieldRep_Shift kUpb_FieldRep_4Byte),
      mini_table_field 6 32 0 kUpb_NoSub kUpb_FieldType_Int32
        (kUpb_FieldMode_Array OR push_bit kUpb_FieldRep_Shift kUpb_FieldRep_8Byte),
      mini_table_field 7 40 0 kUpb_NoSub kUpb_FieldType_Int32
        (kUpb_FieldMode_Array OR push_bit kUpb_FieldRep_Shift kUpb_FieldRep_8Byte),
      mini_table_field 8 9 69 kUpb_NoSub kUpb_FieldType_Bool
        (kUpb_FieldMode_Scalar OR push_bit kUpb_FieldRep_Shift kUpb_FieldRep_1Byte)]
     48 8 kUpb_ExtMode_NonExtendable 8 0"

definition validate__Int64Rules_msg_init :: upb_MiniTable where
  "validate__Int64Rules_msg_init = mini_table
     []
     [mini_table_field 1 16 64 kUpb_NoSub kUpb_FieldType_Int64
        (kUpb_FieldMode_Scalar OR push_bit kUpb_FieldRep_Shift kUpb_FieldRep_8Byte),
      mini_table_field 2 24 65 kUpb_NoSub kUpb_FieldType_Int64
        (kUpb_FieldMode_Scalar OR push_bit kUpb_FieldRep_Shift kUpb_FieldRep_8Byte),
      mini_table_field 3 32 66 kUpb_NoSub kUpb_FieldType_Int64
        (kUpb_FieldMode_Scalar OR push_bit kUpb_FieldRep_Shift kUpb_FieldRep_8Byte),
      mini_table_field 4 40 67 kUpb_NoSub kUpb_FieldType_Int64
        (kUpb_FieldMode_Scalar OR push_bit kUpb_FieldRep_Shift kUpb_FieldRep_8Byte),
      mini_table_field 5 48 68 kUpb_NoSub kUpb_FieldType_Int64
        (kUpb_FieldMode_Scalar OR push_bit kUpb_FieldRep_Shift kUpb_FieldRep_8Byte),
      mini_table_field 6 56 0 kUpb_NoSub kUpb_FieldType_Int64
        (kUpb_FieldMode_Array OR push_bit kUpb_FieldRep_Shift kUpb_FieldRep_8Byte),
      mini_table_field 7 64 0 kUpb_NoSub kUpb_FieldType_Int64
        (kUpb_FieldMode_Array OR push_bit kUpb_FieldRep_Shift kUpb_FieldRep_8Byte),
      mini_table_field 8 9 69 kUpb_NoSub kUpb_FieldType_Bool
        (kUpb_FieldMode_Scalar OR push_bit kUpb_FieldRep_Shift kUpb_FieldRep_1Byte)]
     72 8 kUpb_ExtMode_NonExtendable 8 0"

definition validate__UInt32Rules_msg_init :: upb_MiniTable where
  "validate__UInt32Rules_msg_init = mini_table
     []
     [mini_table_field 1 12 64 kUpb_NoSub kUpb_FieldType_UInt32
        (kUpb_FieldMode_Scalar OR push_bit kUpb_FieldRep_Shift kUpb_FieldRep_4Byte),
      mini_table_field 2 16 65 kUpb_NoSub kUpb_FieldType_UInt32
        (kUpb_FieldMode_Scalar OR push_bit kUpb_FieldRep_Shift kUpb_FieldRep_4Byte),
      mini_table_field 3 20 66 kUpb_NoSub kUpb_FieldType_UInt32
        (kUpb_FieldMode_Scalar OR push_bit kUpb_FieldRep_Shift kUpb_FieldRep_4Byte),
      mini_table_field 4 24 67 kUpb_NoSub kUpb_FieldType_UInt32
        (kUpb_FieldMode_Scalar OR push_bit kUpb_FieldRep_Shift kUpb_FieldRep_4Byte),
      mini_table_field 5 28 68 kUpb_NoSub kUpb_FieldType_UInt32
        (kUpb_FieldMode_Scalar OR push_bit kUpb_FieldRep_Shift kUpb_FieldRep_4Byte),
      mini_table_field 6 32 0 kUpb_NoSub kUpb_FieldType_UInt32
        (kUpb_FieldMode_Array OR push_bit kUpb_FieldRep_Shift kUpb_FieldRep_8Byte),
      mini_table_field 7 40 0 kUpb_NoSub kUpb_FieldType_UInt32
        (kUpb_FieldMode_Array OR push_bit kUpb_FieldRep_Shift kUpb_FieldRep_8Byte),
      mini_table_field 8 9 69 kUpb_NoSub kUpb_FieldType_Bool
        (kUpb_FieldMode_Scalar OR push_bit kUpb_FieldRep_Shift kUpb_FieldRep_1Byte)]
     48 8 kUpb_ExtMode_NonExtendable 8 0"

definition validate__UInt64Rules_msg_init :: upb_MiniTable where
  "validate__UInt64Rules_msg_init = mini_table
     []
     [mini_table_field 1 16 64 kUpb_NoSub kUpb_FieldType_UInt64
        (kUpb_FieldMode_Scalar OR push_bit kUpb_FieldRep_Shift kUpb_FieldRep_8Byte),
      mini_table_field 2 24 65 kUpb_NoSub kUpb_FieldType_UInt64
        (kUpb_FieldMode_Scalar OR push_bit kUpb_FieldRep_Shift kUpb_FieldRep_8Byte),
      mini_table_field 3 32 66 kUpb_NoSub kUpb_FieldType_UInt64
        (kUpb_FieldMode_Scalar OR push_bit kUpb_FieldRep_Shift kUpb_FieldRep_8Byte),
      mini_table_field 4 40 67 kUpb_NoSub kUpb_FieldType_UInt64
        (kUpb_FieldMode_Scalar OR push_bit kUpb_FieldRep_Shift kUpb_FieldRep_8Byte),
      mini_table_field 5 48 68 kUpb_NoSub kUpb_FieldType_UInt64
        (kUpb_FieldMode_Scalar OR push_bit kUpb_FieldRep_Shift kUpb_FieldRep_8Byte),
      mini_table_field 6 56 0 kUpb_NoSub kUpb_FieldType_UInt64
        (kUpb_FieldMode_Array OR push_bit kUpb_FieldRep_Shift kUpb_FieldRep_8Byte),
      mini_table_field 7 64 0 kUpb_NoSub kUpb_FieldType_UInt64
        (kUpb_FieldMode_Array OR push_bit kUpb_FieldRep_Shift kUpb_FieldRep_8Byte),
      mini_table_field 8 9 69 kUpb_NoSub kUpb_FieldType_Bool
        (kUpb_FieldMode_Scalar OR push_bit kUpb_FieldRep_Shift kUpb_FieldRep_1Byte)]
     72 8 kUpb_ExtMode_NonExtendable 8 0"

definition validate__SInt32Rules_msg_init :: upb_MiniTable where
  "validate__SInt32Rules_msg_init = mini_table
     []
     [mini_table_field 1 12 64 kUpb_NoSub kUpb_FieldType_SInt32
        (kUpb_FieldMode_Scalar OR push_bit kUpb_FieldRep_Shift kUpb_FieldRep_4Byte),
      mini_table_field 2 16 65 kUpb_NoSub kUpb_FieldType_SInt32
        (kUpb_FieldMode_Scalar OR push_bit kUpb_FieldRep_Shift kUpb_FieldRep_4Byte),
      mini_table_field 3 20 66 kUpb_NoSub kUpb_FieldType_SInt32
        (kUpb_FieldMode_Scalar OR push_bit kUpb_FieldRep_Shift kUpb_FieldRep_4Byte),
      mini_table_field 4 24 67 kUpb_NoSub kUpb_FieldType_SInt32
        (kUpb_FieldMode_Scalar OR push_bit kUpb_FieldRep_Shift kUpb_FieldRep_4Byte),
      mini_table_field 5 28 68 kUpb_NoSub kUpb_FieldType_SInt32
        (kUpb_FieldMode_Scalar OR push_bit kUpb_FieldRep_Shift kUpb_FieldRep_4Byte),
      mini_table_field 6 32 0 kUpb_NoSub kUpb_FieldType_SInt32
        (kUpb_FieldMode_Array OR push_bit kUpb_FieldRep_Shift kUpb_FieldRep_8Byte),
      mini_table_field 7 40 0 kUpb_NoSub kUpb_FieldType_SInt32
        (kUpb_FieldMode_Array OR push_bit kUpb_FieldRep_Shift kUpb_FieldRep_8Byte),
      mini_table_field 8 9 69 kUpb_NoSub kUpb_FieldType_Bool
        (kUpb_FieldMode_Scalar OR push_bit kUpb_FieldRep_Shift kUpb_FieldRep_1Byte)]
     48 8 kUpb_ExtMode_NonExtendable 8 0"

definition validate__SInt64Rules_msg_init :: upb_MiniTable where
  "validate__SInt64Rules_msg_init = mini_table
     []
     [mini_table_field 1 16 64 kUpb_NoSub kUpb_FieldType_SInt64
        (kUpb_FieldMode_Scalar OR push_bit kUpb_FieldRep_Shift kUpb_FieldRep_8Byte),
      mini_table_field 2 24 65 kUpb_NoSub kUpb_FieldType_SInt64
        (kUpb_FieldMode_Scalar OR push_bit kUpb_FieldRep_Shift kUpb_FieldRep_8Byte),
      mini_table_field 3 32 66 kUpb_NoSub kUpb_FieldType_SInt64
        (kUpb_FieldMode_Scalar OR push_bit kUpb_FieldRep_Shift kUpb_FieldRep_8Byte),
      mini_table_field 4 40 67 kUpb_NoSub kUpb_FieldType_SInt64
        (kUpb_FieldMode_Scalar OR push_bit kUpb_FieldRep_Shift kUpb_FieldRep_8Byte),
      mini_table_field 5 48 68 kUpb_NoSub kUpb_FieldType_SInt64
        (kUpb_FieldMode_Scalar OR push_bit kUpb_FieldRep_Shift kUpb_FieldRep_8Byte),
      mini_table_field 6 56 0 kUpb_NoSub kUpb_FieldType_SInt64
        (kUpb_FieldMode_Array OR push_bit kUpb_FieldRep_Shift kUpb_FieldRep_8Byte),
      mini_table_field 7 64 0 kUpb_NoSub kUpb_FieldType_SInt64
        (kUpb_FieldMode_Array OR push_bit kUpb_FieldRep_Shift kUpb_FieldRep_8Byte),
      mini_table_field 8 9 69 kUpb_NoSub kUpb_FieldType_Bool
        (kUpb_FieldMode_Scalar OR push_bit kUpb_FieldRep_Shift kUpb_FieldRep_1Byte)]
     72 8 kUpb_ExtMode_NonExtendable 8 0"

definition validate__Fixed32Rules_msg_init :: upb_MiniTable where
  "validate__Fixed32Rules_msg_init = mini_table
     []
     [mini_table_field 1 12 64 kUpb_NoSub kUpb_FieldType_Fixed32
        (kUpb_FieldMode_Scalar OR push_bit kUpb_FieldRep_Shift kUpb_FieldRep_4Byte),
      mini_table_field 2 16 65 kUpb_NoSub kUpb_FieldType_Fixed32
        (kUpb_FieldMode_Scalar OR push_bit kUpb_FieldRep_Shift kUpb_FieldRep_4Byte),
      mini_table_field 3 20 66 kUpb_NoSub kUpb_FieldType_Fixed32
        (kUpb_FieldMode_Scalar OR push_bit kUpb_FieldRep_Shift kUpb_FieldRep_4Byte),
      mini_table_field 4 24 67 kUpb_NoSub kUpb_FieldType_Fixed32
        (kUpb_FieldMode_Scalar OR push_bit kUpb_FieldRep_Shift kUpb_FieldRep_4Byte),
      mini_table_field 5 28 68 kUpb_NoSub kUpb_FieldType_Fixed32
        (kUpb_FieldMode_Scalar OR push_bit kUpb_FieldRep_Shift kUpb_FieldRep_4Byte),
      mini_table_field 6 32 0 kUpb_NoSub kUpb_FieldType_Fixed32
        (kUpb_FieldMode_Array OR push_bit kUpb_FieldRep_Shift kUpb_FieldRep_8Byte),
      mini_table_field 7 40 0 kUpb_NoSub kUpb_FieldType_Fixed32
        (kUpb_FieldMode_Array OR push_bit kUpb_FieldRep_Shift kUpb_FieldRep_8Byte),
      mini_table_field 8 9 69 kUpb_NoSub kUpb_FieldType_Bool
        (kUpb_FieldMode_Scalar OR push_bit kUpb_FieldRep_Shift kUpb_FieldRep_1Byte)]
     48 8 kUpb_ExtMode_NonExtendable 8 0"

definition validate__Fixed64Rules_msg_init :: upb_MiniTable where
  "validate__Fixed64Rules_msg_init = mini_table
     []
     [mini_table_field 1 16 64 kUpb_NoSub kUpb_FieldType_Fixed64
        (kUpb_FieldMode_Scalar OR push_bit kUpb_FieldRep_Shift kUpb_FieldRep_8Byte),
      mini_table_field 2 24 65 kUpb_NoSub kUpb_FieldType_Fixed64
        (kUpb_FieldMode_Scalar OR push_bit kUpb_FieldRep_Shift kUpb_FieldRep_8Byte),
      mini_table_field 3 32 66 kUpb_NoSub kUpb_FieldType_Fixed64
        (kUpb_FieldMode_Scalar OR push_bit kUpb_FieldRep_Shift kUpb_FieldRep_8Byte),
      mini_table_field 4 40 67 kUpb_NoSub kUpb_FieldType_Fixed64
        (kUpb_FieldMode_Scalar OR push_bit kUpb_FieldRep_Shift kUpb_FieldRep_8Byte),
      mini_table_field 5 48 68 kUpb_NoSub kUpb_FieldType_Fixed64
        (kUpb_FieldMode_Scalar OR push_bit kUpb_FieldRep_Shift kUpb_FieldRep_8Byte),
      mini_table_field 6 56 0 kUpb_NoSub kUpb_FieldType_Fixed64
        (kUpb_FieldMode_Array OR push_bit kUpb_FieldRep_Shift kUpb_FieldRep_8Byte),
      mini_table_field 7 64 0 kUpb_NoSub kUpb_FieldType_Fixed64
        (kUpb_FieldMode_Array OR push_bit kUpb_FieldRep_Shift kUpb_FieldRep_8Byte),
      mini_table_field 8 9 69 kUpb_NoSub kUpb_FieldType_Bool
        (kUpb_FieldMode_Scalar OR push_bit kUpb_FieldRep_Shift kUpb_FieldRep_1Byte)]
     72 8 kUpb_ExtMode_NonExtendable 8 0"

definition validate__SFixed32Rules_msg_init :: upb_MiniTable where
  "validate__SFixed32Rules_msg_init = mini_table
     []
     [mini_table_field 1 12 64 kUpb_NoSub kUpb_FieldType_SFixed32
        (kUpb_FieldMode_Scalar OR push_bit kUpb_FieldRep_Shift kUpb_FieldRep_4Byte),
      mini_table_field 2 16 65 kUpb_NoSub kUpb_FieldType_SFixed32
        (kUpb_FieldMode_Scalar OR push_bit kUpb_FieldRep_Shift kUpb_FieldRep_4Byte),
      mini_table_field 3 20 66 kUpb_NoSub kUpb_FieldType_SFixed32
        (kUpb_FieldMode_Scalar OR push_bit kUpb_FieldRep_Shift kUpb_FieldRep_4Byte),
      mini_table_field 4 24 67 kUpb_NoSub kUpb_FieldType_SFixed32
        (kUpb_FieldMode_Scalar OR push_bit kUpb_FieldRep_Shift kUpb_FieldRep_4Byte),
      mini_table_field 5 28 68 kUpb_NoSub kUpb_FieldType_SFixed32
        (kUpb_FieldMode_Scalar OR push_bit kUpb_FieldRep_Shift kUpb_FieldRep_4Byte),
      mini_table_field 6 32 0 kUpb_NoSub kUpb_FieldType_SFixed32
        (kUpb_FieldMode_Array OR push_bit kUpb_FieldRep_Shift kUpb_FieldRep_8Byte),
      mini_table_field 7 40 0 kUpb_NoSub kUpb_FieldType_SFixed32
        (kUpb_FieldMode_Array OR push_bit kUpb_FieldRep_Shift kUpb_FieldRep_8Byte),
      mini_table_field 8 9 69 kUpb_NoSub kUpb_FieldType_Bool
        (kUpb_FieldMode_Scalar OR push_bit kUpb_FieldRep_Shift kUpb_FieldRep_1Byte)]
     48 8 kUpb_ExtMode_NonExtendable 8 0"

definition validate__SFixed64Rules_msg_init :: upb_MiniTable where
  "validate__SFixed64Rules_msg_init = mini_table
     []
     [mini_table_field 1 16 64 kUpb_NoSub kUpb_FieldType_SFixed64
        (kUpb_FieldMode_Scalar OR push_bit kUpb_FieldRep_Shift kUpb_FieldRep_8Byte),
      mini_table_field 2 24 65 kUpb_NoSub kUpb_FieldType_SFixed64
        (kUpb_FieldMode_Scalar OR push_bit kUpb_FieldRep_Shift kUpb_FieldRep_8Byte),
      mini_table_field 3 32 66 kUpb_NoSub kUpb_FieldType_SFixed64
        (kUpb_FieldMode_Scalar OR push_bit kUpb_FieldRep_Shift kUpb_FieldRep_8Byte),
      mini_table_field 4 40 67 kUpb_NoSub kUpb_FieldType_SFixed64
        (kUpb_FieldMode_Scalar OR push_bit kUpb_FieldRep_Shift kUpb_FieldRep_8Byte),
      mini_table_field 5 48 68 kUpb_NoSub kUpb_FieldType_SFixed64
        (kUpb_FieldMode_Scalar OR push_bit kUpb_FieldRep_Shift kUpb_FieldRep_8Byte),
      mini_table_field 6 56 0 kUpb_NoSub kUpb_FieldType_SFixed64
        (kUpb_FieldMode_Array OR push_bit kUpb_FieldRep_Shift kUpb_FieldRep_8Byte),
      mini_table_field 7 64 0 kUpb_NoSub kUpb_FieldType_SFixed64
        (kUpb_FieldMode_Array OR push_bit kUpb_FieldRep_Shift kUpb_FieldRep_8Byte),
      mini_table_field 8 9 69 kUpb_NoSub kUpb_FieldType_Bool
        (kUpb_FieldMode_Scalar OR push_bit kUpb_FieldRep_Shift kUpb_FieldRep_1Byte)]
     72 8 kUpb_ExtMode_NonExtendable 8 0"

definition validate__BoolRules_msg_init :: upb_MiniTable where
  "validate__BoolRules_msg_init = mini_table
     []
     [mini_table_field 1 9 64 kUpb_NoSub kUpb_FieldType_Bool
        (kUpb_FieldMode_Scalar OR push_bit kUpb_FieldRep_Shift kUpb_FieldRep_1Byte)]
     16 1 kUpb_ExtMode_NonExtendable 1 0"

definition validate__StringRules_msg_init :: upb_MiniTable where
  "validate__StringRules_msg_init = mini_table
     [Subenum validate__KnownRegex_enum_init]
     [mini_table_field 1 24 64 kUpb_NoSub kUpb_FieldType_Bytes
        (kUpb_FieldMode_Scalar OR kUpb_LabelFlags_IsAlternate OR push_bit kUpb_FieldRep_Shift kUpb_FieldRep_StringView),
      mini_table_field 2 120 65 kUpb_NoSub kUpb_FieldType_UInt64
        (kUpb_FieldMode_Scalar OR push_bit kUpb_FieldRep_Shift kUpb_FieldRep_8Byte),
      mini_table_field 3 128 66 kUpb_NoSub kUpb_FieldType_UInt64
        (kUpb_FieldMode_Scalar OR push_bit kUpb_FieldRep_Shift kUpb_FieldRep_8Byte),
      mini_table_field 4 136 67 kUpb_NoSub kUpb_FieldType_UInt64
        (kUpb_FieldMode_Scalar OR push_bit kUpb_FieldRep_Shift kUpb_FieldRep_8Byte),
      mini_table_field 5 144 68 kUpb_NoSub kUpb_FieldType_UInt64
        (kUpb_FieldMode_Scalar OR push_bit kUpb_FieldRep_Shift kUpb_FieldRep_8Byte),
      mini_table_field 6 40 69 kUpb_NoSub kUpb_FieldType_Bytes
        (kUpb_FieldMode_Scalar OR kUpb_LabelFlags_IsAlternate OR push_bit kUpb_FieldRep_Shift kUpb_FieldRep_StringView),
      mini_table_field 7 56 70 kUpb_NoSub kUpb_FieldType_Bytes
        (kUpb_FieldMode_Scalar OR kUpb_LabelFlags_IsAlternate OR push_bit kUpb_FieldRep_Shift kUpb_FieldRep_StringView),
      mini_table_field 8 72 71 kUpb_NoSub kUpb_FieldType_Bytes
        (kUpb_FieldMode_Scalar OR kUpb_LabelFlags_IsAlternate OR push_bit kUpb_FieldRep_Shift kUpb_FieldRep_StringView),
      mini_table_field 9 88 72 kUpb_NoSub kUpb_FieldType_Bytes
        (kUpb_FieldMode_Scalar OR kUpb_LabelFlags_IsAlternate OR push_bit kUpb_FieldRep_Shift kUpb_FieldRep_StringView),
      mini_table_field 10 152 0 kUpb_NoSub kUpb_FieldType_Bytes
        (kUpb_FieldMode_Array OR kUpb_LabelFlags_IsAlternate OR push_bit kUpb_FieldRep_Shift kUpb_FieldRep_8Byte),
      mini_table_field 11 160 0 kUpb_NoSub kUpb_FieldType_Bytes
        (kUpb_FieldMode_Array OR kUpb_LabelFlags_IsAlternate OR push_bit kUpb_FieldRep_Shift kUpb_FieldRep_8Byte),
      mini_table_field 12 16 (- 13) kUpb_NoSub kUpb_FieldType_Bool
        (kUpb_FieldMode_Scalar OR push_bit kUpb_FieldRep_Shift kUpb_FieldRep_1Byte),
      mini_table_field 13 16 (- 13) kUpb_NoSub kUpb_FieldType_Bool
        (kUpb_FieldMode_Scalar OR push_bit kUpb_FieldRep_Shift kUpb_FieldRep_1Byte),
      mini_table_field 14 16 (- 13) kUpb_NoSub kUpb_FieldType_Bool
        (kUpb_FieldMode_Scalar OR push_bit kUpb_FieldRep_Shift kUpb_FieldRep_1Byte),
      mini_table_field 15 16 (- 13) kUpb_NoSub kUpb_FieldType_Bool
        (kUpb_FieldMode_Scalar OR push_bit kUpb_FieldRep_Shift kUpb_FieldRep_1Byte),
      mini_table_field 16 16 (- 13) kUpb_NoSub kUpb_FieldType_Bool
        (kUpb_FieldMode_Scalar OR push_bit kUpb_FieldRep_Shift kUpb_FieldRep_1Byte),
      mini_table_field 17 16 (- 13) kUpb_NoSub kUpb_FieldType_Bool
        (kUpb_FieldMode_Scalar OR push_bit kUpb_FieldRep_Shift kUpb_FieldRep_1Byte),
      mini_table_field 18 16 (- 13) kUpb_NoSub kUpb_FieldType_Bool
        (kUpb_FieldMode_Scalar OR push_bit kUpb_FieldRep_Shift kUpb_FieldRep_1Byte),
      mini_table_field 19 168 73 kUpb_NoSub kUpb_FieldType_UInt64
        (kUpb_FieldMode_Scalar OR push_bit kUpb_FieldRep_Shift kUpb_FieldRep_8Byte),
      mini_table_field 20 176 74 kUpb_NoSub kUpb_FieldType_UInt64
        (kUpb_FieldMode_Scalar OR push_bit kUpb_FieldRep_Shift kUpb_FieldRep_8Byte),
      mini_table_field 21 16 (- 13) kUpb_NoSub kUpb_FieldType_Bool
        (kUpb_FieldMode_Scalar OR push_bit kUpb_FieldRep_Shift kUpb_FieldRep_1Byte),
      mini_table_field 22 16 (- 13) kUpb_NoSub kUpb_FieldType_Bool
        (kUpb_FieldMode_Scalar OR push_bit kUpb_FieldRep_Shift kUpb_FieldRep_1Byte),
      mini_table_field 23 104 75 kUpb_NoSub kUpb_FieldType_Bytes
        (kUpb_FieldMode_Scalar OR kUpb_LabelFlags_IsAlternate OR push_bit kUpb_FieldRep_Shift kUpb_FieldRep_StringView),
      mini_table_field 24 16 (- 13) 0 kUpb_FieldType_Enum
        (kUpb_FieldMode_Scalar OR push_bit kUpb_FieldRep_Shift kUpb_FieldRep_4Byte),
      mini_table_field 25 10 76 kUpb_NoSub kUpb_FieldType_Bool
        (kUpb_FieldMode_Scalar OR push_bit kUpb_FieldRep_Shift kUpb_FieldRep_1Byte),
      mini_table_field 26 11 77 kUpb_NoSub kUpb_FieldType_Bool
        (kUpb_FieldMode_Scalar OR push_bit kUpb_FieldRep_Shift kUpb_FieldRep_1Byte)]
     184 26 kUpb_ExtMode_NonExtendable 26 0"

definition validate__BytesRules_msg_init :: upb_MiniTable where
  "validate__BytesRules_msg_init = mini_table
     []
     [mini_table_field 1 16 64 kUpb_NoSub kUpb_FieldType_Bytes
        (kUpb_FieldMode_Scalar OR push_bit kUpb_FieldRep_Shift kUpb_FieldRep_StringView),
      mini_table_field 2 96 65 kUpb_NoSub kUpb_FieldType_UInt64
        (kUpb_FieldMode_Scalar OR push_bit kUpb_FieldRep_Shift kUpb_FieldRep_8Byte),
      mini_table_field 3 104 66 kUpb_NoSub kUpb_FieldType_UInt64
        (kUpb_FieldMode_Scalar OR push_bit kUpb_FieldRep_Shift kUpb_FieldRep_8Byte),
      mini_table_field 4 32 67 kUpb_NoSub kUpb_FieldType_Bytes
        (kUpb_FieldMode_Scalar OR kUpb_LabelFlags_IsAlternate OR push_bit kUpb_FieldRep_Shift kUpb_FieldRep_StringView),
      mini_table_field 5 48 68 kUpb_NoSub kUpb_FieldType_Bytes
        (kUpb_FieldMode_Scalar OR push_bit kUpb_FieldRep_Shift kUpb_FieldRep_StringView),
      mini_table_field 6 64 69 kUpb_NoSub kUpb_FieldType_Bytes
        (kUpb_FieldMode_Scalar OR push_bit kUpb_FieldRep_Shift kUpb_FieldRep_StringView),
      mini_table_field 7 80 70 kUpb_NoSub kUpb_FieldType_Bytes
        (kUpb_FieldMode_Scalar OR push_bit kUpb_FieldRep_Shift kUpb_FieldRep_StringView),
      mini_table_field 8 112 0 kUpb_NoSub kUpb_FieldType_Bytes
        (kUpb_FieldMode_Array OR push_bit kUpb_FieldRep_Shift kUpb_FieldRep_8Byte),
      mini_table_field 9 120 0 kUpb_NoSub kUpb_FieldType_Bytes
        (kUpb_FieldMode_Array OR push_bit kUpb_FieldRep_Shift kUpb_FieldRep_8Byte),
      mini_table_field 10 11 (- 13) kUpb_NoSub kUpb_FieldType_Bool
        (kUpb_FieldMode_Scalar OR push_bit kUpb_FieldRep_Shift kUpb_FieldRep_1Byte),
      mini_table_field 11 11 (- 13) kUpb_NoSub kUpb_FieldType_Bool
        (kUpb_FieldMode_Scalar OR push_bit kUpb_FieldRep_Shift kUpb_FieldRep_1Byte),
      mini_table_field 12 11 (- 13) kUpb_NoSub kUpb_FieldType_Bool
        (kUpb_FieldMode_Scalar OR push_bit kUpb_FieldRep_Shift kUpb_FieldRep_1Byte),
      mini_table_field 13 128 71 kUpb_NoSub kUpb_FieldType_UInt64
        (kUpb_FieldMode_Scalar OR push_bit kUpb_FieldRep_Shift kUpb_FieldRep_8Byte),
      mini_table_field 14 10 72 kUpb_NoSub kUpb_FieldType_Bool
        (kUpb_FieldMode_Scalar OR push_bit kUpb_FieldRep_Shift kUpb_FieldRep_1Byte)]
     136 14 kUpb_ExtMode_NonExtendable 14 0"

definition validate__EnumRules_msg_init :: upb_MiniTable where
  "validate__EnumRules_msg_init = mini_table
     []
     [mini_table_field 1 12 64 kUpb_NoSub kUpb_FieldType_Int32
        (kUpb_FieldMode_Scalar OR push_bit kUpb_FieldRep_Shift kUpb_FieldRep_4Byte),
      mini_table_field 2 9 65 kUpb_NoSub kUpb_FieldType_Bool
        (kUpb_FieldMode_Scalar OR push_bit kUpb_FieldRep_Shift kUpb_FieldRep_1Byte),
      mini_table_field 3 16 0 kUpb_NoSub kUpb_FieldType_Int32
        (kUpb_FieldMode_Array OR push_bit kUpb_FieldRep_Shift kUpb_FieldRep_8Byte),
      mini_table_field 4 24 0 kUpb_NoSub kUpb_FieldType_Int32
        (kUpb_FieldMode_Array OR push_bit kUpb_FieldRep_Shift kUpb_FieldRep_8Byte)]
     32 4 kUpb_ExtMode_NonExtendable 4 0"

definition validate__MessageRules_msg_init :: upb_MiniTable where
  "validate__MessageRules_msg_init = mini_table
     []
     [mini_table_field 1 9 64 kUpb_NoSub kUpb_FieldType_Bool
        (kUpb_FieldMode_Scalar OR push_bit kUpb_FieldRep_Shift kUpb_FieldRep_1Byte),
      mini_table_field 2 10 65 kUpb_NoSub kUpb_FieldType_Bool
        (kUpb_FieldMode_Scalar OR push_bit kUpb_FieldRep_Shift kUpb_FieldRep_1Byte)]
     16 2 kUpb_ExtMode_NonExtendable 2 0"

definition validate__RepeatedRules_msg_init :: upb_MiniTable where
  "validate__RepeatedRules_msg_init = mini_table
     [Submsg validate__FieldRules_msg_init_ptr]
     [mini_table_field 1 16 64 kUpb_NoSub kUpb_FieldType_UInt64
        (kUpb_FieldMode_Scalar OR push_bit kUpb_FieldRep_Shift kUpb_FieldRep_8Byte),
      mini_table_field 2 24 65 kUpb_NoSub kUpb_FieldType_UInt64
        (kUpb_FieldMode_Scalar OR push_bit kUpb_FieldRep_Shift kUpb_FieldRep_8Byte),
      mini_table_field 3 9 66 kUpb_NoSub kUpb_FieldType_Bool
        (kUpb_FieldMode_Scalar OR push_bit kUpb_FieldRep_Shift kUpb_FieldRep_1Byte),
      mini_table_field 4 32 67 0 kUpb_FieldType_Message
        (kUpb_FieldMode_Scalar OR push_bit kUpb_FieldRep_Shift kUpb_FieldRep_8Byte),
      mini_table_field 5 10 68 kUpb_NoSub kUpb_FieldType_Bool
        (kUpb_FieldMode_Scalar OR push_bit kUpb_FieldRep_Shift kUpb_FieldRep_1Byte)]
     40 5 kUpb_ExtMode_NonExtendable 5 0"

definition validate__MapRules_msg_init :: upb_MiniTable where
  "validate__MapRules_msg_init = mini_table
     [Submsg validate__FieldRules_msg_init_ptr,
      Submsg validate__FieldRules_msg_init_ptr]
     [mini_table_field 1 16 64 kUpb_NoSub kUpb_FieldType_UInt64
        (kUpb_FieldMode_Scalar OR push_bit kUpb_FieldRep_Shift kUpb_FieldRep_8Byte),
      mini_table_field 2 24 65 kUpb_NoSub kUpb_FieldType_UInt64
        (kUpb_FieldMode_Scalar OR push_bit kUpb_FieldRep_Shift kUpb_FieldRep_8Byte),
      mini_table_field 3 9 66 kUpb_NoSub kUpb_FieldType_Bool
        (kUpb_FieldMode_Scalar OR push_bit kUpb_FieldRep_Shift kUpb_FieldRep_1Byte),
      mini_table_field 4 32 67 0 kUpb_FieldType_Message
        (kUpb_FieldMode_Scalar OR push_bit kUpb_FieldRep_Shift kUpb_FieldRep_8Byte),
      mini_table_field 5 40 68 1 kUpb_FieldType_Message
        (kUpb_FieldMode_Scalar OR push_bit kUpb_FieldRep_Shift kUpb_FieldRep_8Byte),
      mini_table_field 6 10 69 kUpb_NoSub kUpb_FieldType_Bool
        (kUpb_FieldMode_Scalar OR push_bit kUpb_FieldRep_Shift kUpb_FieldRep_1Byte)]
     48 6 kUpb_ExtMode_NonExtendable 6 0"

definition validate__AnyRules_msg_init :: upb_MiniTable where
  "validate__AnyRules_msg_init = mini_table
     []
     [mini_table_field 1 9 64 kUpb_NoSub kUpb_FieldType_Bool
        (kUpb_FieldMode_Scalar OR push_bit kUpb_FieldRep_Shift kUpb_FieldRep_1Byte),
      mini_table_field 2 16 0 kUpb_NoSub kUpb_FieldType_Bytes
        (kUpb_FieldMode_Array OR kUpb_LabelFlags_IsAlternate OR push_bit kUpb_FieldRep_Shift kUpb_FieldRep_8Byte),
      mini_table_field 3 24 0 kUpb_NoSub kUpb_FieldType_Bytes
        (kUpb_FieldMode_Array OR kUpb_LabelFlags_IsAlternate OR push_bit kUpb_FieldRep_Shift kUpb_FieldRep_8Byte)]
     32 3 kUpb_ExtMode_NonExtendable 3 0"

definition validate__DurationRules_msg_init :: upb_MiniTable where
  "validate__DurationRules_msg_init = mini_table
     [Submsg google__protobuf__Duration_msg_init_ptr,
      Submsg google__protobuf__Duration_msg_init_ptr,
      Submsg google__protobuf__Duration_msg_init_ptr,
      Submsg google__protobuf__Duration_msg_init_ptr,
      Submsg google__protobuf__Duration_msg_init_ptr,
      Submsg google__protobuf__Duration_msg_init_ptr,
      Submsg google__protobuf__Duration_msg_init_ptr]
     [mini_table_field 1 9 64 kUpb_NoSub kUpb_FieldType_Bool
        (kUpb_FieldMode_Scalar OR push_bit kUpb_FieldRep_Shift kUpb_FieldRep_1Byte),
      mini_table_field 2 16 65 0 kUpb_FieldType_Message
        (kUpb_FieldMode_Scalar OR push_bit kUpb_FieldRep_Shift kUpb_FieldRep_8Byte),
      mini_table_field 3 24 66 1 kUpb_FieldType_Message
        (kUpb_FieldMode_Scalar OR push_bit kUpb_FieldRep_Shift kUpb_FieldRep_8Byte),
      mini_table_field 4 32 67 2 kUpb_FieldType_Message
        (kUpb_FieldMode_Scalar OR push_bit kUpb_FieldRep_Shift kUpb_FieldRep_8Byte),
      mini_table_field 5 40 68 3 kUpb_FieldType_Message
        (kUpb_FieldMode_Scalar OR push_bit kUpb_FieldRep_Shift kUpb_FieldRep_8Byte),
      mini_table_field 6 48 69 4 kUpb_FieldType_Message
        (kUpb_FieldMode_Scalar OR push_bit kUpb_FieldRep_Shift kUpb_FieldRep_8Byte),
      mini_table_field 7 56 0 5 kUpb_FieldType_Message
        (kUpb_FieldMode_Array OR push_bit kUpb_FieldRep_Shift kUpb_FieldRep_8Byte),
      mini_table_field 8 64 0 6 kUpb_FieldType_Message
        (kUpb_FieldMode_Array OR push_bit kUpb_FieldRep_Shift kUpb_FieldRep_8Byte)]
     72 8 kUpb_ExtMode_NonExtendable 8 0"

definition validate__TimestampRules_msg_init :: upb_MiniTable where
  "validate__TimestampRules_msg_init = mini_table
     [Submsg google__protobuf__Timestamp_msg_init_ptr,
      Submsg google__protobuf__Timestamp_msg_init_ptr,
      Submsg google__protobuf__Timestamp_msg_init_ptr,
      Submsg google__protobuf__Timestamp_msg_init_ptr,
      Submsg google__protobuf__Timestamp_msg_init_ptr,
      Submsg google__protobuf__Duration_msg_init_ptr]
     [mini_table_field 1 10 64 kUpb_NoSub kUpb_FieldType_Bool
        (kUpb_FieldMode_Scalar OR push_bit kUpb_FieldRep_Shift kUpb_FieldRep_1Byte),
      mini_table_field 2 16 65 0 kUpb_FieldType_Message
        (kUpb_FieldMode_Scalar OR push_bit kUpb_FieldRep_Shift kUpb_FieldRep_8Byte),
      mini_table_field 3 24 66 1 kUpb_FieldType_Message
        (kUpb_FieldMode_Scalar OR push_bit kUpb_FieldRep_Shift kUpb_FieldRep_8Byte),
      mini_table_field 4 32 67 2 kUpb_FieldType_Message
        (kUpb_FieldMode_Scalar OR push_bit kUpb_FieldRep_Shift kUpb_FieldRep_8Byte),
      mini_table_field 5 40 68 3 kUpb_FieldType_Message
        (kUpb_FieldMode_Scalar OR push_bit kUpb_FieldRep_Shift kUpb_FieldRep_8Byte),
      mini_table_field 6 48 69 4 kUpb_FieldType_Message
        (kUpb_FieldMode_Scalar OR push_bit kUpb_FieldRep_Shift kUpb_FieldRep_8Byte),
      mini_table_field 7 11 70 kUpb_NoSub kUpb_FieldType_Bool
        (kUpb_FieldMode_Scalar OR push_bit kUpb_FieldRep_Shift kUpb_FieldRep_1Byte),
      mini_table_field 8 12 71 kUpb_NoSub kUpb_FieldType_Bool
        (kUpb_FieldMode_Scalar OR push_bit kUpb_FieldRep_Shift kUpb_FieldRep_1Byte),
      mini_table_field 9 56 72 5 kUpb_FieldType_Message
        (kUpb_FieldMode_Scalar OR push_bit kUpb_FieldRep_Shift kUpb_FieldRep_8Byte)]
     64 9 kUpb_ExtMode_NonExtendable 9 0"

definition validate_disabled_ext :: upb_MiniTableExtension where
  "validate_disabled_ext = \<lparr> ext_field =
       mini_table_field 1071 0 0 kUpb_NoSub kUpb_FieldType_Bool
        (kUpb_FieldMode_Scalar OR kUpb_LabelFlags_IsExtension OR push_bit kUpb_FieldRep_Shift kUpb_FieldRep_1Byte),
     extendee = google__protobuf__MessageOptions_msg_init_ptr, ext_sub = None \<rparr>"

definition validate_ignored_ext :: upb_MiniTableExtension where
  "validate_ignored_ext = \<lparr> ext_field =
       mini_table_field 1072 0 0 kUpb_NoSub kUpb_FieldType_Bool
        (kUpb_FieldMode_Scalar OR kUpb_LabelFlags_IsExtension OR push_bit kUpb_FieldRep_Shift kUpb_FieldRep_1Byte),
     extendee = google__protobuf__MessageOptions_msg_init_ptr, ext_sub = None \<rparr>"

definition validate_required_ext :: upb_MiniTableExtension where
  "validate_required_ext = \<lparr> ext_field =
       mini_table_field 1071 0 0 kUpb_NoSub kUpb_FieldType_Bool
        (kUpb_FieldMode_Scalar OR kUpb_LabelFlags_IsExtension OR push_bit kUpb_FieldRep_Shift kUpb_FieldRep_1Byte),
     extendee = google__protobuf__OneofOptions_msg_init_ptr, ext_sub = None \<rparr>"

definition validate_rules_ext :: upb_MiniTableExtension where
  "validate_rules_ext = \<lparr> ext_field =
       mini_table_field 1071 0 0 0 kUpb_FieldType_Message
        (kUpb_FieldMode_Scalar OR kUpb_LabelFlags_IsExtension OR push_bit kUpb_FieldRep_Shift kUpb_FieldRep_8Byte),
     extendee = google__protobuf__FieldOptions_msg_init_ptr, ext_sub = Some (Submsg validate__FieldRules_msg_init_ptr) \<rparr>"

definition gen_validate_tables :: "upb_MiniTable list" where
  "gen_validate_tables = [validate__FieldRules_msg_init,
     validate__FloatRules_msg_init,
     validate__DoubleRules_msg_init,
     validate__Int32Rules_msg_init,
     validate__Int64Rules_msg_init,
     validate__UInt32Rules_msg_init,
     validate__UInt64Rules_msg_init,
     validate__SInt32Rules_msg_init,
     validate__SInt64Rules_msg_init,
     validate__Fixed32Rules_msg_init,
     validate__Fixed64Rules_msg_init,
     validate__SFixed32Rules_msg_init,
     validate__SFixed64Rules_msg_init,
     validate__BoolRules_msg_init,
     validate__StringRules_msg_init,
     validate__BytesRules_msg_init,
     validate__EnumRules_msg_init,
     validate__MessageRules_msg_init,
     validate__RepeatedRules_msg_init,
     validate__MapRules_msg_init,
     validate__AnyRules_msg_init,
     validate__DurationRules_msg_init,
     validate__TimestampRules_msg_init]"

section \<open>Every table is well formed\<close>

lemma validate__FieldRules_msg_init_wf [table_wf]:
  "mt_wf validate__FieldRules_msg_init"
  by (simp add: validate__FieldRules_msg_init_def table_simps)

lemma validate__FloatRules_msg_init_wf [table_wf]:
  "mt_wf validate__FloatRules_msg_init"
  by (simp add: validate__FloatRules_msg_init_def table_simps)

lemma validate__DoubleRules_msg_init_wf [table_wf]:
  "mt_wf validate__DoubleRules_msg_init"
  by (simp add: validate__DoubleRules_msg_init_def table_simps)

lemma validate__Int32Rules_msg_init_wf [table_wf]:
  "mt_wf validate__Int32Rules_msg_init"
  by (simp add: validate__Int32Rules_msg_init_def table_simps)

lemma validate__Int64Rules_msg_init_wf [table_wf]:
  "mt_wf validate__Int64Rules_msg_init"
  by (simp add: validate__Int64Rules_msg_init_def table_simps)

lemma validate__UInt32Rules_msg_init_wf [table_wf]:
  "mt_wf validate__UInt32Rules_msg_init"
  by (simp add: validate__UInt32Rules_msg_init_def table_simps)

lemma validate__UInt64Rules_msg_init_wf [table_wf]:
  "mt_wf validate__UInt64Rules_msg_init"
  by (simp add: validate__UInt64Rules_msg_init_def table_simps)

lemma validate__SInt32Rules_msg_init_wf [table_wf]:
  "mt_wf validate__SInt32Rules_msg_init"
  by (simp add: validate__SInt32Rules_msg_init_def table_simps)

lemma validate__SInt64Rules_msg_init_wf [table_wf]:
  "mt_wf validate__SInt64Rules_msg_init"
  by (simp add: validate__SInt64Rules_msg_init_def table_simps)

lemma validate__Fixed32Rules_msg_init_wf [table_wf]:
  "mt_wf validate__Fixed32Rules_msg_init"
  by (simp add: validate__Fixed32Rules_msg_init_def table_simps)

lemma validate__Fixed64Rules_msg_init_wf [table_wf]:
  "mt_wf validate__Fixed64Rules_msg_init"
  by (simp add: validate__Fixed64Rules_msg_init_def table_simps)

lemma validate__SFixed32Rules_msg_init_wf [table_wf]:
  "mt_wf validate__SFixed32Rules_msg_init"
  by (simp add: validate__SFixed32Rules_msg_init_def table_simps)

lemma validate__SFixed64Rules_msg_init_wf [table_wf]:
  "mt_wf validate__SFixed64Rules_msg_init"
  by (simp add: validate__SFixed64Rules_msg_init_def table_simps)

lemma validate__BoolRules_msg_init_wf [table_wf]:
  "mt_wf validate__BoolRules_msg_init"
  by (simp add: validate__BoolRules_msg_init_def table_simps)

lemma validate__StringRules_msg_init_wf [table_wf]:
  "mt_wf validate__StringRules_msg_init"
  by (simp add: validate__StringRules_msg_init_def table_simps)

lemma validate__BytesRules_msg_init_wf [table_wf]:
  "mt_wf validate__BytesRules_msg_init"
  by (simp add: validate__BytesRules_msg_init_def table_simps)

lemma validate__EnumRules_msg_init_wf [table_wf]:
  "mt_wf validate__EnumRules_msg_init"
  by (simp add: validate__EnumRules_msg_init_def table_simps)

lemma validate__MessageRules_msg_init_wf [table_wf]:
  "mt_wf validate__MessageRules_msg_init"
  by (simp add: validate__MessageRules_msg_init_def table_simps)

lemma validate__RepeatedRules_msg_init_wf [table_wf]:
  "mt_wf validate__RepeatedRules_msg_init"
  by (simp add: validate__RepeatedRules_msg_init_def table_simps)

lemma validate__MapRules_msg_init_wf [table_wf]:
  "mt_wf validate__MapRules_msg_init"
  by (simp add: validate__MapRules_msg_init_def table_simps)

lemma validate__AnyRules_msg_init_wf [table_wf]:
  "mt_wf validate__AnyRules_msg_init"
  by (simp add: validate__AnyRules_msg_init_def table_simps)

lemma validate__DurationRules_msg_init_wf [table_wf]:
  "mt_wf validate__DurationRules_msg_init"
  by (simp add: validate__DurationRules_msg_init_def table_simps)

lemma validate__TimestampRules_msg_init_wf [table_wf]:
  "mt_wf validate__TimestampRules_msg_init"
  by (simp add: validate__TimestampRules_msg_init_def table_simps)

lemma validate__KnownRegex_enum_init_wf [table_wf]: "enum_wf validate__KnownRegex_enum_init"
  by (simp add: enum_wf_def validate__KnownRegex_enum_init_def)

lemma validate_disabled_ext_wf [table_wf]: "extension_wf validate_disabled_ext"
  by (simp add: validate_disabled_ext_def table_simps)

lemma validate_ignored_ext_wf [table_wf]: "extension_wf validate_ignored_ext"
  by (simp add: validate_ignored_ext_def table_simps)

lemma validate_required_ext_wf [table_wf]: "extension_wf validate_required_ext"
  by (simp add: validate_required_ext_def table_simps)

lemma validate_rules_ext_wf [table_wf]: "extension_wf validate_rules_ext"
  by (simp add: validate_rules_ext_def table_simps)

lemma gen_validate_tables_wf: "list_all mt_wf gen_validate_tables"
  by (simp add: gen_validate_tables_def table_wf)

end
