(* ===== verification/Generated_Tables.thy ===== *)
theory Generated_Tables
  imports Gen_Descriptor Gen_Wellknown Gen_Grpc Gen_Expr Gen_Validate
begin

text \<open>
  All modelled generated tables as one program-wide list, in which a reference \<open>Mt i\<close> is a position.
\<close>

section \<open>Definitions\<close>

definition generated_tables :: "upb_MiniTable list" where
  "generated_tables = gen_descriptor_tables @ gen_wellknown_tables @ gen_grpc_tables @ gen_expr_tables @ gen_validate_tables"

section \<open>Shared facts\<close>

text \<open>Sub-tables: enums are well formed and message references resolve to a table of the list.\<close>

definition sub_wf :: "upb_MiniTableSub \<Rightarrow> bool" where
  "sub_wf s \<longleftrightarrow> (case s of Submsg MtEmpty \<Rightarrow> False | Submsg (Mt i) \<Rightarrow> i < generated_table_count | Subenum e \<Rightarrow> enum_wf e)"

lemmas gen_descriptor_inits =
      google__protobuf__FileDescriptorSet_msg_init_def
      google__protobuf__FileDescriptorProto_msg_init_def
      google__protobuf__DescriptorProto_msg_init_def
      google__protobuf__DescriptorProto__ExtensionRange_msg_init_def
      google__protobuf__DescriptorProto__ReservedRange_msg_init_def
      google__protobuf__ExtensionRangeOptions_msg_init_def
      google__protobuf__ExtensionRangeOptions__Declaration_msg_init_def
      google__protobuf__FieldDescriptorProto_msg_init_def
      google__protobuf__OneofDescriptorProto_msg_init_def
      google__protobuf__EnumDescriptorProto_msg_init_def
      google__protobuf__EnumDescriptorProto__EnumReservedRange_msg_init_def
      google__protobuf__EnumValueDescriptorProto_msg_init_def
      google__protobuf__ServiceDescriptorProto_msg_init_def
      google__protobuf__MethodDescriptorProto_msg_init_def
      google__protobuf__FileOptions_msg_init_def
      google__protobuf__MessageOptions_msg_init_def
      google__protobuf__FieldOptions_msg_init_def
      google__protobuf__FieldOptions__EditionDefault_msg_init_def
      google__protobuf__FieldOptions__FeatureSupport_msg_init_def
      google__protobuf__OneofOptions_msg_init_def
      google__protobuf__EnumOptions_msg_init_def
      google__protobuf__EnumValueOptions_msg_init_def
      google__protobuf__ServiceOptions_msg_init_def
      google__protobuf__MethodOptions_msg_init_def
      google__protobuf__UninterpretedOption_msg_init_def
      google__protobuf__UninterpretedOption__NamePart_msg_init_def
      google__protobuf__FeatureSet_msg_init_def
      google__protobuf__FeatureSetDefaults_msg_init_def
      google__protobuf__FeatureSetDefaults__FeatureSetEditionDefault_msg_init_def
      google__protobuf__SourceCodeInfo_msg_init_def
      google__protobuf__SourceCodeInfo__Location_msg_init_def
      google__protobuf__GeneratedCodeInfo_msg_init_def
      google__protobuf__GeneratedCodeInfo__Annotation_msg_init_def

lemma gen_descriptor_tables_subs: "list_all (\<lambda>m. list_all sub_wf (subs m)) gen_descriptor_tables"
  by (simp add: gen_descriptor_tables_def sub_wf_def table_wf mini_table_def gen_descriptor_inits)

lemmas gen_wellknown_inits =
      google__protobuf__Any_msg_init_def
      google__protobuf__Duration_msg_init_def
      google__protobuf__Empty_msg_init_def
      google__protobuf__Struct_msg_init_def
      google__protobuf__Struct__FieldsEntry_msg_init_def
      google__protobuf__Value_msg_init_def
      google__protobuf__ListValue_msg_init_def
      google__protobuf__Timestamp_msg_init_def
      google__protobuf__DoubleValue_msg_init_def
      google__protobuf__FloatValue_msg_init_def
      google__protobuf__Int64Value_msg_init_def
      google__protobuf__UInt64Value_msg_init_def
      google__protobuf__Int32Value_msg_init_def
      google__protobuf__UInt32Value_msg_init_def
      google__protobuf__BoolValue_msg_init_def
      google__protobuf__StringValue_msg_init_def
      google__protobuf__BytesValue_msg_init_def
      google__rpc__Status_msg_init_def
      google__api__Http_msg_init_def
      google__api__HttpRule_msg_init_def
      google__api__CustomHttpPattern_msg_init_def
      google__api__HttpBody_msg_init_def

lemma gen_wellknown_tables_subs: "list_all (\<lambda>m. list_all sub_wf (subs m)) gen_wellknown_tables"
  by (simp add: gen_wellknown_tables_def sub_wf_def table_wf mini_table_def gen_wellknown_inits)

lemmas gen_grpc_inits =
      grpc__gcp__AltsContext_msg_init_def
      grpc__gcp__AltsContext__PeerAttributesEntry_msg_init_def
      grpc__gcp__Endpoint_msg_init_def
      grpc__gcp__Identity_msg_init_def
      grpc__gcp__Identity__AttributesEntry_msg_init_def
      grpc__gcp__StartClientHandshakeReq_msg_init_def
      grpc__gcp__ServerHandshakeParameters_msg_init_def
      grpc__gcp__StartServerHandshakeReq_msg_init_def
      grpc__gcp__StartServerHandshakeReq__HandshakeParametersEntry_msg_init_def
      grpc__gcp__NextHandshakeMessageReq_msg_init_def
      grpc__gcp__HandshakerReq_msg_init_def
      grpc__gcp__HandshakerResult_msg_init_def
      grpc__gcp__HandshakerStatus_msg_init_def
      grpc__gcp__HandshakerResp_msg_init_def
      grpc__gcp__RpcProtocolVersions_msg_init_def
      grpc__gcp__RpcProtocolVersions__Version_msg_init_def
      grpc__health__v1__HealthCheckRequest_msg_init_def
      grpc__health__v1__HealthCheckResponse_msg_init_def
      grpc__lb__v1__LoadBalanceRequest_msg_init_def
      grpc__lb__v1__InitialLoadBalanceRequest_msg_init_def
      grpc__lb__v1__ClientStatsPerToken_msg_init_def
      grpc__lb__v1__ClientStats_msg_init_def
      grpc__lb__v1__LoadBalanceResponse_msg_init_def
      grpc__lb__v1__FallbackResponse_msg_init_def
      grpc__lb__v1__InitialLoadBalanceResponse_msg_init_def
      grpc__lb__v1__ServerList_msg_init_def
      grpc__lb__v1__Server_msg_init_def
      grpc__lookup__v1__RouteLookupRequest_msg_init_def
      grpc__lookup__v1__RouteLookupRequest__KeyMapEntry_msg_init_def
      grpc__lookup__v1__RouteLookupResponse_msg_init_def
      grpc__lookup__v1__NameMatcher_msg_init_def
      grpc__lookup__v1__GrpcKeyBuilder_msg_init_def
      grpc__lookup__v1__GrpcKeyBuilder__Name_msg_init_def
      grpc__lookup__v1__GrpcKeyBuilder__ExtraKeys_msg_init_def
      grpc__lookup__v1__GrpcKeyBuilder__ConstantKeysEntry_msg_init_def
      grpc__lookup__v1__HttpKeyBuilder_msg_init_def
      grpc__lookup__v1__HttpKeyBuilder__ConstantKeysEntry_msg_init_def
      grpc__lookup__v1__RouteLookupConfig_msg_init_def
      grpc__lookup__v1__RouteLookupClusterSpecifier_msg_init_def

lemma gen_grpc_tables_subs: "list_all (\<lambda>m. list_all sub_wf (subs m)) gen_grpc_tables"
  by (simp add: gen_grpc_tables_def sub_wf_def table_wf mini_table_def gen_grpc_inits)

lemmas gen_expr_inits =
      google__api__expr__v1alpha1__ParsedExpr_msg_init_def
      google__api__expr__v1alpha1__Expr_msg_init_def
      google__api__expr__v1alpha1__Expr__Ident_msg_init_def
      google__api__expr__v1alpha1__Expr__Select_msg_init_def
      google__api__expr__v1alpha1__Expr__Call_msg_init_def
      google__api__expr__v1alpha1__Expr__CreateList_msg_init_def
      google__api__expr__v1alpha1__Expr__CreateStruct_msg_init_def
      google__api__expr__v1alpha1__Expr__CreateStruct__Entry_msg_init_def
      google__api__expr__v1alpha1__Expr__Comprehension_msg_init_def
      google__api__expr__v1alpha1__Constant_msg_init_def
      google__api__expr__v1alpha1__SourceInfo_msg_init_def
      google__api__expr__v1alpha1__SourceInfo__Extension_msg_init_def
      google__api__expr__v1alpha1__SourceInfo__Extension__Version_msg_init_def
      google__api__expr__v1alpha1__SourceInfo__PositionsEntry_msg_init_def
      google__api__expr__v1alpha1__SourceInfo__MacroCallsEntry_msg_init_def
      google__api__expr__v1alpha1__SourcePosition_msg_init_def
      google__api__expr__v1alpha1__CheckedExpr_msg_init_def
      google__api__expr__v1alpha1__CheckedExpr__ReferenceMapEntry_msg_init_def
      google__api__expr__v1alpha1__CheckedExpr__TypeMapEntry_msg_init_def
      google__api__expr__v1alpha1__Type_msg_init_def
      google__api__expr__v1alpha1__Type__ListType_msg_init_def
      google__api__expr__v1alpha1__Type__MapType_msg_init_def
      google__api__expr__v1alpha1__Type__FunctionType_msg_init_def
      google__api__expr__v1alpha1__Type__AbstractType_msg_init_def
      google__api__expr__v1alpha1__Decl_msg_init_def
      google__api__expr__v1alpha1__Decl__IdentDecl_msg_init_def
      google__api__expr__v1alpha1__Decl__FunctionDecl_msg_init_def
      google__api__expr__v1alpha1__Decl__FunctionDecl__Overload_msg_init_def
      google__api__expr__v1alpha1__Reference_msg_init_def

lemma gen_expr_tables_subs: "list_all (\<lambda>m. list_all sub_wf (subs m)) gen_expr_tables"
  by (simp add: gen_expr_tables_def sub_wf_def table_wf mini_table_def gen_expr_inits)

lemmas gen_validate_inits =
      validate__FieldRules_msg_init_def
      validate__FloatRules_msg_init_def
      validate__DoubleRules_msg_init_def
      validate__Int32Rules_msg_init_def
      validate__Int64Rules_msg_init_def
      validate__UInt32Rules_msg_init_def
      validate__UInt64Rules_msg_init_def
      validate__SInt32Rules_msg_init_def
      validate__SInt64Rules_msg_init_def
      validate__Fixed32Rules_msg_init_def
      validate__Fixed64Rules_msg_init_def
      validate__SFixed32Rules_msg_init_def
      validate__SFixed64Rules_msg_init_def
      validate__BoolRules_msg_init_def
      validate__StringRules_msg_init_def
      validate__BytesRules_msg_init_def
      validate__EnumRules_msg_init_def
      validate__MessageRules_msg_init_def
      validate__RepeatedRules_msg_init_def
      validate__MapRules_msg_init_def
      validate__AnyRules_msg_init_def
      validate__DurationRules_msg_init_def
      validate__TimestampRules_msg_init_def

lemma gen_validate_tables_subs: "list_all (\<lambda>m. list_all sub_wf (subs m)) gen_validate_tables"
  by (simp add: gen_validate_tables_def sub_wf_def table_wf mini_table_def gen_validate_inits)


section \<open>Properties\<close>

text \<open>
  C13. The generated tables satisfy what the runtime assumes of them. In each of the 146 message tables
  of the modelled \<^verbatim>\<open>.upb_minitable.c\<close> files the fields are sorted by number and dense below
  \<^verbatim>\<open>dense_below\<close>; every field has an aligned storage cell of the size of its type inside the message and
  after its header; storage cells, hasbits and oneof cases of different fields do not overlap except
  within one oneof; arrays and maps are pointers without presence; sub-table indexes are in range
  and of the right kind; the references between tables resolve; closed enums are well formed.
\<close>

theorem generated_tables_well_formed:
  "length generated_tables = generated_table_count
   \<and> list_all mt_fields_wf generated_tables
   \<and> list_all mt_layout_wf generated_tables
   \<and> list_all (\<lambda>m. list_all sub_wf (subs m)) generated_tables"
proof (intro conjI)
  have wf: "list_all mt_wf generated_tables"
    by (simp add: generated_tables_def gen_descriptor_tables_wf gen_wellknown_tables_wf gen_grpc_tables_wf gen_expr_tables_wf gen_validate_tables_wf)
  show "length generated_tables = generated_table_count"
    by (simp add: generated_tables_def gen_descriptor_tables_def gen_wellknown_tables_def gen_grpc_tables_def gen_expr_tables_def gen_validate_tables_def)
  show "list_all mt_fields_wf generated_tables" "list_all mt_layout_wf generated_tables"
    using wf by (auto simp: mt_wf_def list_all_iff)
  show "list_all (\<lambda>m. list_all sub_wf (subs m)) generated_tables"
    by (simp add: generated_tables_def gen_descriptor_tables_subs gen_wellknown_tables_subs gen_grpc_tables_subs gen_expr_tables_subs gen_validate_tables_subs)
qed

end
