(* ===== verification/Adler32.thy ===== *)
theory Adler32
  imports Upb_Prelude
begin

unbundle bit_operations_syntax

text \<open>
  The Adler-32 checksum of \<^verbatim>\<open>zlib/adler32.c\<close>. \<^verbatim>\<open>unsigned long\<close> has 32 or 64 bits depending on the
  platform, so the definitions are over words of any length \<open>'a\<close>, and the theorems ask for at least
  32 bits. \<^verbatim>\<open>MOD\<close>, \<^verbatim>\<open>MOD28\<close> and \<^verbatim>\<open>MOD63\<close> are the remainder, as in the configuration without
  \<^verbatim>\<open>NO_DIVIDE\<close>. The buffer is \<open>None\<close> for \<^verbatim>\<open>Z_NULL\<close>; its length is the length passed.
\<close>

section \<open>Definitions\<close>

abbreviation (input) NMAX :: nat where "NMAX \<equiv> 5552"

text \<open>The pair of running sums \<^verbatim>\<open>adler\<close> and \<^verbatim>\<open>sum2\<close>.\<close>

type_synonym 'a sums = "'a word \<times> 'a word"

definition DO1 :: "'a::len sums \<Rightarrow> u8 \<Rightarrow> 'a sums" where
  "DO1 st b = (let adler = fst st + ucast b in (adler, snd st + adler))"

definition DO16 :: "'a::len sums \<Rightarrow> bytes \<Rightarrow> 'a sums" where
  "DO16 st buf = foldl DO1 st (map (\<lambda>i. buf ! i) [0, 1, 2, 3, 4, 5, 6, 7, 8, 9, 10, 11, 12, 13, 14, 15])"

definition MOD :: "'a::len sums \<Rightarrow> 'a sums" where
  "MOD st = (fst st mod 65521, snd st mod 65521)"

text \<open>The inner \<^verbatim>\<open>do { DO16(buf); buf += 16; } while (--n)\<close>, \<open>n\<close> times.\<close>

fun do16_times :: "nat \<Rightarrow> 'a::len sums \<Rightarrow> bytes \<Rightarrow> 'a sums \<times> bytes" where
  "do16_times 0 st buf = (st, buf)"
| "do16_times (Suc n) st buf = do16_times n (DO16 st buf) (drop 16 buf)"

lemma do16_times_rest: "snd (do16_times n st buf) = drop (16 * n) buf"
  by (induction n arbitrary: st buf) (simp_all add: add.commute)

function nmax_blocks :: "'a::len sums \<Rightarrow> bytes \<Rightarrow> 'a sums \<times> bytes" where
  "nmax_blocks st buf =
     (if NMAX \<le> length buf then
        (let r = do16_times (NMAX div 16) st buf in nmax_blocks (MOD (fst r)) (snd r))
      else (st, buf))"
  by pat_completeness auto
termination
  by (relation "measure (\<lambda>(st, buf). length buf)") (auto simp: do16_times_rest)

declare nmax_blocks.simps [simp del]

function rest16 :: "'a::len sums \<Rightarrow> bytes \<Rightarrow> 'a sums" where
  "rest16 st buf =
     (if 16 \<le> length buf then rest16 (DO16 st buf) (drop 16 buf) else foldl DO1 st buf)"
  by pat_completeness auto
termination
  by (relation "measure (\<lambda>(st, buf). length buf)") auto

declare rest16.simps [simp del]

definition adler_join :: "'a::len word \<Rightarrow> 'a word \<Rightarrow> 'a word" where
  "adler_join adler sum2 = adler OR push_bit 16 sum2"

definition adler32_z :: "'a::len word \<Rightarrow> bytes option \<Rightarrow> 'a word" where
  "adler32_z adler0 buf0 =
     (let sum2 = drop_bit 16 adler0 AND 0xffff;
          adler = adler0 AND 0xffff
      in case buf0 of
           None \<Rightarrow> 1
         | Some buf \<Rightarrow>
             if length buf = 1 then
               (let adler = adler + ucast (buf ! 0);
                    adler = (if adler \<ge> 65521 then adler - 65521 else adler);
                    sum2 = sum2 + adler;
                    sum2 = (if sum2 \<ge> 65521 then sum2 - 65521 else sum2)
                in adler_join adler sum2)
             else if length buf < 16 then
               (let st = foldl DO1 (adler, sum2) buf;
                    adler = (if fst st \<ge> 65521 then fst st - 65521 else fst st);
                    sum2 = snd st mod 65521
                in adler_join adler sum2)
             else
               (let r = nmax_blocks (adler, sum2) buf;
                    st = (if snd r \<noteq> [] then MOD (rest16 (fst r) (snd r)) else fst r)
                in adler_join (fst st) (snd st)))"

definition adler32_combine_body :: "'a::len word \<Rightarrow> 'a word \<Rightarrow> int \<Rightarrow> 'a word" where
  "adler32_combine_body adler1 adler2 len2 =
     (if len2 < 0 then 0xffffffff
      else
        let rem = word_of_int (len2 mod 65521) :: 'a word;
            sum1 = adler1 AND 0xffff;
            sum2 = (rem * sum1) mod 65521;
            sum1 = sum1 + ((adler2 AND 0xffff) + 65521 - 1);
            sum2 = sum2 + ((drop_bit 16 adler1 AND 0xffff) + (drop_bit 16 adler2 AND 0xffff) + 65521 - rem);
            sum1 = (if sum1 \<ge> 65521 then sum1 - 65521 else sum1);
            sum1 = (if sum1 \<ge> 65521 then sum1 - 65521 else sum1);
            sum2 = (if sum2 \<ge> 131042 then sum2 - 131042 else sum2);
            sum2 = (if sum2 \<ge> 65521 then sum2 - 65521 else sum2)
        in adler_join sum1 sum2)"

definition adler32 :: "'a::len word \<Rightarrow> bytes option \<Rightarrow> 'a word" where
  "adler32 adler buf = adler32_z adler buf"

definition adler32_combine :: "'a::len word \<Rightarrow> 'a word \<Rightarrow> int \<Rightarrow> 'a word" where
  "adler32_combine adler1 adler2 len2 = adler32_combine_body adler1 adler2 len2"

section \<open>The specification\<close>

text \<open>The two sums of RFC 1950, reduced modulo 65521 after every byte.\<close>

fun adler_ref :: "nat \<times> nat \<Rightarrow> bytes \<Rightarrow> nat \<times> nat" where
  "adler_ref (a, s) [] = (a, s)"
| "adler_ref (a, s) (b # bs) =
     (let a' = (a + unat b) mod 65521 in adler_ref (a', (s + a') mod 65521) bs)"

text \<open>A checksum value is in use when both its halves are reduced.\<close>

definition adler_ok :: "'a::len word \<Rightarrow> bool" where
  "adler_ok w \<longleftrightarrow> unat w mod 65536 < 65521 \<and> unat w div 65536 < 65521"

definition adler_halves :: "'a::len word \<Rightarrow> nat \<times> nat" where
  "adler_halves w = (unat w mod 65536, unat w div 65536)"

section \<open>The sums without reduction\<close>

fun sums_nat :: "nat \<times> nat \<Rightarrow> bytes \<Rightarrow> nat \<times> nat" where
  "sums_nat (a, s) [] = (a, s)"
| "sums_nat (a, s) (b # bs) = sums_nat (a + unat b, s + (a + unat b)) bs"

lemma sums_nat_append: "sums_nat st (xs @ ys) = sums_nat (sums_nat st xs) ys"
  by (induction st xs rule: sums_nat.induct) simp_all

lemma sums_nat_bound:
  "fst (sums_nat (a, s) bs) \<le> a + 255 * length bs
   \<and> 2 * snd (sums_nat (a, s) bs) \<le> 2 * s + 2 * a * length bs + 255 * (length bs * (length bs + 1))"
proof (induction bs arbitrary: a s)
  case (Cons b bs)
  have b: "unat b \<le> 255" using byte_bound [of b] by simp
  let ?n = "length bs"
  have IH: "fst (sums_nat (a + unat b, s + (a + unat b)) bs) \<le> a + unat b + 255 * ?n"
    "2 * snd (sums_nat (a + unat b, s + (a + unat b)) bs)
      \<le> 2 * (s + (a + unat b)) + 2 * (a + unat b) * ?n + 255 * (?n * (?n + 1))"
    using Cons.IH [of "a + unat b" "s + (a + unat b)"] by simp_all
  have "2 * (s + (a + unat b)) + 2 * (a + unat b) * ?n = 2 * s + 2 * a * (?n + 1) + 2 * unat b * (?n + 1)"
    by (simp add: algebra_simps)
  also have "\<dots> \<le> 2 * s + 2 * a * (?n + 1) + 2 * 255 * (?n + 1)"
    using b by (intro add_left_mono mult_right_mono) auto
  finally have "2 * (s + (a + unat b)) + 2 * (a + unat b) * ?n \<le> 2 * s + 2 * a * (?n + 1) + 510 * (?n + 1)" by simp
  with IH b show ?case by (simp add: algebra_simps)
qed simp

lemma sums_nat_ref:
  "adler_ref (a mod 65521, s mod 65521) bs
     = (fst (sums_nat (a, s) bs) mod 65521, snd (sums_nat (a, s) bs) mod 65521)"
proof (induction bs arbitrary: a s)
  case (Cons b bs)
  show ?case using Cons.IH [of "a + unat b" "s + (a + unat b)"] by (simp add: Let_def mod_simps)
qed simp

lemma adler_ref_append: "adler_ref st (xs @ ys) = adler_ref (adler_ref st xs) ys"
  by (induction st xs rule: adler_ref.induct) (simp_all add: Let_def)

section \<open>The word sums\<close>

definition unat2 :: "'a::len sums \<Rightarrow> nat \<times> nat" where
  "unat2 st = (unat (fst st), unat (snd st))"

lemma sums_nat_mono: "a \<le> fst (sums_nat (a, s) bs) \<and> s \<le> snd (sums_nat (a, s) bs)"
proof (induction bs arbitrary: a s)
  case (Cons b bs)
  from Cons.IH [of "a + unat b" "s + (a + unat b)"] show ?case by simp
qed simp

lemma unat_add_byte:
  assumes "8 \<le> LENGTH('a)" and "unat (a :: 'a::len word) + unat (b :: u8) < 2 ^ LENGTH('a)"
  shows "unat (a + ucast b) = unat a + unat b"
  using assms by (simp add: unat_word_ariths)

lemma DO1_nat:
  assumes "8 \<le> LENGTH('a)"
    and "unat (a :: 'a::len word) + unat b < 2 ^ LENGTH('a)"
    and "unat s + (unat a + unat b) < 2 ^ LENGTH('a)"
  shows "unat2 (DO1 (a, s) b) = (unat a + unat b, unat s + (unat a + unat b))"
  using assms by (simp add: DO1_def unat2_def Let_def unat_add_byte unat_word_ariths)

lemma foldl_DO1_nat:
  assumes "8 \<le> LENGTH('a)"
    and "fst (sums_nat (unat2 st) bs) < 2 ^ LENGTH('a)" and "snd (sums_nat (unat2 st) bs) < 2 ^ LENGTH('a)"
  shows "unat2 (foldl DO1 (st :: 'a::len sums) bs) = sums_nat (unat2 st) bs"
  using assms
proof (induction bs arbitrary: st)
  case Nil
  then show ?case by (simp add: unat2_def)
next
  case (Cons b bs)
  obtain a s where st: "st = (a, s)" by (cases st)
  let ?a = "unat a + unat b" and ?s = "unat s + (unat a + unat b)"
  have le: "?a \<le> fst (sums_nat (unat2 st) (b # bs))" "?s \<le> snd (sums_nat (unat2 st) (b # bs))"
    using sums_nat_mono [of ?a ?s bs] by (simp_all add: st unat2_def)
  have step: "unat2 (DO1 (a, s) b) = (?a, ?s)"
    using Cons.prems le by (intro DO1_nat) linarith+
  have "sums_nat (unat2 st) (b # bs) = sums_nat (?a, ?s) bs" by (simp add: st unat2_def)
  with Cons.IH [of "DO1 (a, s) b"] Cons.prems step show ?case by (simp add: st)
qed

lemma DO16_fold: "16 \<le> length buf \<Longrightarrow> DO16 st buf = foldl DO1 st (take 16 buf)"
proof -
  assume "16 \<le> length buf"
  then have "map (\<lambda>i. buf ! i) [0 ..< 16] = take 16 buf" by (intro nth_equalityI) simp_all
  moreover have "[0 ..< 16] = [0, 1, 2, 3, 4, 5, 6, 7, 8, 9, 10, 11, 12, 13, 14, 15 :: nat]"
    by (simp add: upt_rec)
  ultimately have "map (\<lambda>i. buf ! i) [0, 1, 2, 3, 4, 5, 6, 7, 8, 9, 10, 11, 12, 13, 14, 15] = take 16 buf"
    by (simp only:)
  then show ?thesis unfolding DO16_def by simp
qed

lemma do16_times_fold:
  "16 * n \<le> length buf \<Longrightarrow> fst (do16_times n st buf) = foldl DO1 st (take (16 * n) buf)"
proof (induction n arbitrary: st buf)
  case (Suc n)
  have "take (16 * Suc n) buf = take 16 buf @ take (16 * n) (drop 16 buf)"
    by (metis add.commute mult_Suc_right take_add)
  with Suc show ?case by (simp add: DO16_fold)
qed simp

lemma rest16_fold: "rest16 st buf = foldl DO1 st buf"
proof (induction st buf rule: rest16.induct)
  case (1 st buf)
  show ?case
  proof (cases "16 \<le> length buf")
    case True
    have "foldl DO1 st buf = foldl DO1 (foldl DO1 st (take 16 buf)) (drop 16 buf)"
      by (metis append_take_drop_id foldl_append)
    with True 1 show ?thesis by (subst rest16.simps) (simp add: DO16_fold)
  next
    case False
    then show ?thesis by (subst rest16.simps) simp
  qed
qed

text \<open>\<^verbatim>\<open>NMAX\<close> is small enough that reduced sums stay within 32 bits over a block.\<close>

lemma block_fits:
  assumes "a < 65521" and "s < 65521" and "length bs \<le> NMAX"
  shows "fst (sums_nat (a, s) bs) < 2 ^ 32 \<and> snd (sums_nat (a, s) bs) < 2 ^ 32"
proof -
  have n: "length bs * (length bs + 1) \<le> 5552 * 5553" using assms(3) by (intro mult_le_mono) auto
  have a: "2 * a * length bs \<le> 2 * 65520 * 5552" using assms by (intro mult_le_mono) auto
  have "fst (sums_nat (a, s) bs) < 2 ^ 32"
    using sums_nat_bound [of a s bs] assms by simp
  moreover have "2 * snd (sums_nat (a, s) bs) < 2 * 2 ^ 32"
    using sums_nat_bound [of a s bs] n a assms(2) by simp
  ultimately show ?thesis by simp
qed

section \<open>The checksum against the specification\<close>

abbreviation reduced :: "nat \<times> nat \<Rightarrow> bool" where
  "reduced p \<equiv> fst p < 65521 \<and> snd p < 65521"

lemma adler_ref_reduced: "reduced st \<Longrightarrow> reduced (adler_ref st bs)"
  by (induction st bs rule: adler_ref.induct) (simp_all add: Let_def)

lemma adler_ref_sums:
  "reduced st \<Longrightarrow> adler_ref st bs = (fst (sums_nat st bs) mod 65521, snd (sums_nat st bs) mod 65521)"
  using sums_nat_ref [of "fst st" "snd st" bs] by simp

lemma unat_of_numeral_base:
  assumes "32 \<le> LENGTH('a)"
  shows "unat (65521 :: 'a::len word) = 65521"
proof -
  have "(65521 :: nat) < 2 ^ 32" by simp
  also have "\<dots> \<le> 2 ^ LENGTH('a)" using assms by (rule power_increasing) simp
  finally show ?thesis by (simp add: unat_numeral take_bit_nat_eq_self)
qed

lemma fold_block_nat:
  assumes "32 \<le> LENGTH('a)" and "reduced (unat2 (st :: 'a::len sums))" and "length bs \<le> NMAX"
  shows "unat2 (foldl DO1 st bs) = sums_nat (unat2 st) bs"
proof -
  have "(2::nat) ^ 32 \<le> 2 ^ LENGTH('a)" using assms(1) by (rule power_increasing) simp
  with block_fits [of "unat (fst st)" "unat (snd st)" bs] assms show ?thesis
    by (intro foldl_DO1_nat) (auto simp: unat2_def)
qed

lemma unat2_MOD:
  assumes "32 \<le> LENGTH('a)"
  shows "unat2 (MOD (st :: 'a::len sums)) = (fst (unat2 st) mod 65521, snd (unat2 st) mod 65521)"
  using unat_of_numeral_base [OF assms] by (simp add: MOD_def unat2_def unat_mod)

lemma MOD_fold_block:
  assumes "32 \<le> LENGTH('a)" and "reduced (unat2 (st :: 'a::len sums))" and "length bs \<le> NMAX"
  shows "unat2 (MOD (foldl DO1 st bs)) = adler_ref (unat2 st) bs"
  by (simp only: unat2_MOD [OF assms(1)] fold_block_nat [OF assms] adler_ref_sums [OF assms(2)])

lemma nmax_blocks_ref:
  assumes "32 \<le> LENGTH('a)" and "reduced (unat2 (st :: 'a::len sums))"
  shows "\<exists>k. k \<le> length buf \<and> snd (nmax_blocks st buf) = drop k buf \<and> length (drop k buf) < NMAX
     \<and> unat2 (fst (nmax_blocks st buf)) = adler_ref (unat2 st) (take k buf)"
  using assms(2)
proof (induction st buf rule: nmax_blocks.induct)
  case (1 st buf)
  show ?case
  proof (cases "NMAX \<le> length buf")
    case False
    then show ?thesis by (intro exI [of _ 0]) (subst (1 2) nmax_blocks.simps, simp add: unat2_def)
  next
    case True
    let ?r = "do16_times (NMAX div 16) st buf"
    have r: "fst ?r = foldl DO1 st (take NMAX buf)" "snd ?r = drop NMAX buf"
      using True by (simp_all add: do16_times_fold do16_times_rest)
    have m: "unat2 (MOD (fst ?r)) = adler_ref (unat2 st) (take NMAX buf)"
      unfolding r(1) by (rule MOD_fold_block [OF assms(1) "1.prems"]) simp
    then have red: "reduced (unat2 (MOD (fst ?r)))" using "1.prems" by (simp add: adler_ref_reduced)
    from "1.IH" [OF True refl red] obtain k where k: "k \<le> length (drop NMAX buf)"
      "snd (nmax_blocks (MOD (fst ?r)) (snd ?r)) = drop k (drop NMAX buf)" "length (drop k (drop NMAX buf)) < NMAX"
      "unat2 (fst (nmax_blocks (MOD (fst ?r)) (snd ?r))) = adler_ref (unat2 (MOD (fst ?r))) (take k (drop NMAX buf))"
      unfolding r(2) by blast
    have "nmax_blocks st buf = nmax_blocks (MOD (fst ?r)) (snd ?r)"
      using True by (subst nmax_blocks.simps) (simp add: Let_def)
    moreover have "adler_ref (unat2 (MOD (fst ?r))) (take k (drop NMAX buf)) = adler_ref (unat2 st) (take (NMAX + k) buf)"
      unfolding m take_add adler_ref_append by simp
    ultimately show ?thesis using k True by (intro exI [of _ "NMAX + k"]) (simp add: add.commute)
  qed
qed

lemma unat_low16: "unat ((w :: 'a::len word) AND 65535) = unat w mod 65536"
  using unat_and_mask [of w 16] by (simp add: mask_eq_exp_minus_1)

lemma adler_join_halves:
  assumes "32 \<le> LENGTH('a)" and "unat (a :: 'a::len word) < 65536" and "unat s < 65536"
  shows "adler_halves (adler_join a s) = (unat a, unat s)"
proof -
  have "unat s * 2 ^ 16 + unat a < (2::nat) ^ 32" using assms(2,3) by simp
  also have "(2::nat) ^ 32 \<le> 2 ^ LENGTH('a)" using assms(1) by (rule power_increasing) simp
  finally have "unat (adler_join a s) = unat s * 65536 + unat a"
    unfolding adler_join_def using assms(2) unat_or_high [of a 16 s] by simp
  then show ?thesis using assms(2) by (simp add: adler_halves_def)
qed

text \<open>One conditional subtraction reduces a number below twice the modulus.\<close>

lemma unat_reduce:
  assumes "32 \<le> LENGTH('a)"
  shows "unat (if (w :: 'a::len word) \<ge> 65521 then w - 65521 else w)
    = (if unat w \<ge> 65521 then unat w - 65521 else unat w)"
proof -
  have "unat (65521 :: 'a word) = 65521" by (rule unat_of_numeral_base [OF assms])
  then show ?thesis
    using word_le_nat_alt [of "65521 :: 'a word" w] unat_sub_if' [of w "65521 :: 'a word"]
    by (cases "65521 \<le> w") (simp_all only: if_True if_False simp_thms)
qed

lemma reduce_mod: "(n::nat) < 131042 \<Longrightarrow> (if n \<ge> 65521 then n - 65521 else n) = n mod 65521"
  by (auto simp: mod_if)

lemma mod_65521_small: "(n::nat) mod 65521 < 65536"
  by (rule less_trans [OF mod_less_divisor]) simp_all

text \<open>The two sums in a checksum, and the three ways \<^verbatim>\<open>adler32_z\<close> continues them.\<close>

definition adler_sums :: "'a::len word \<Rightarrow> 'a word \<times> 'a word" where
  "adler_sums w = (w AND 65535, drop_bit 16 w AND 65535)"

lemma adler_sums_ok:
  assumes "adler_ok w"
  shows "unat2 (adler_sums w) = adler_halves w" "reduced (unat2 (adler_sums w))"
  using assms by (simp_all add: adler_sums_def unat2_def adler_halves_def unat_low16 unat_drop_bit adler_ok_def)

lemma adler_room: "32 \<le> LENGTH('a::len) \<Longrightarrow> (4294967296 :: nat) \<le> 2 ^ LENGTH('a)"
  using power_increasing [of 32 "LENGTH('a)" "2 :: nat"] by simp

lemma adler32_z_byte:
  assumes len: "32 \<le> LENGTH('a)" and ok: "adler_ok (w :: 'a::len word)"
  shows "adler_halves (adler32_z w (Some [b])) = adler_ref (adler_halves w) [b]"
proof -
  let ?st = "adler_sums w" and ?a = "unat (fst (adler_sums w))" and ?s = "unat (snd (adler_sums w))"
  note halves = adler_sums_ok(1) [OF ok] and pow = adler_room [OF len]
  have as: "?a < 65521" "?s < 65521" using adler_sums_ok(2) [OF ok] by (simp_all add: unat2_def)
  have b: "unat b < 256" by (rule byte_bound)
  let ?x = "fst ?st + ucast b"
  have x: "unat ?x = ?a + unat b" using as b pow len by (intro unat_add_byte) linarith+
  define a' where "a' = (if ?x \<ge> 65521 then ?x - 65521 else ?x)"
  have a': "unat a' = (?a + unat b) mod 65521"
    unfolding a'_def unat_reduce [OF len] x using as b by (intro reduce_mod) simp
  then have "unat a' < 65521" by simp
  then have "?s + unat a' < 2 ^ LENGTH('a)" using as pow by linarith
  then have y: "unat (snd ?st + a') = ?s + unat a'" by (simp add: unat_word_ariths)
  define s' where "s' = (if snd ?st + a' \<ge> 65521 then snd ?st + a' - 65521 else snd ?st + a')"
  have s': "unat s' = (?s + unat a') mod 65521"
    unfolding s'_def unat_reduce [OF len] y using as a' by (intro reduce_mod) (simp add: add_strict_mono)
  have "adler32_z w (Some [b]) = adler_join a' s'"
    by (simp add: adler32_z_def Let_def adler_sums_def a'_def s'_def)
  with a' s' adler_join_halves [OF len, of a' s'] show ?thesis
    by (simp flip: halves) (simp add: unat2_def Let_def less_trans [OF mod_less_divisor])
qed

lemma adler32_z_short:
  assumes len: "32 \<le> LENGTH('a)" and ok: "adler_ok (w :: 'a::len word)" and short: "length buf \<noteq> 1" "length buf < 16"
  shows "adler_halves (adler32_z w (Some buf)) = adler_ref (adler_halves w) buf"
proof -
  let ?a = "unat (fst (adler_sums w))" and ?s = "unat (snd (adler_sums w))"
  note halves = adler_sums_ok(1) [OF ok] and red = adler_sums_ok(2) [OF ok]
  define r where "r = foldl DO1 (adler_sums w) buf"
  have r: "unat2 r = sums_nat (unat2 (adler_sums w)) buf"
    unfolding r_def using short by (intro fold_block_nat [OF len red]) simp
  have ref: "adler_ref (unat2 (adler_sums w)) buf = (unat (fst r) mod 65521, unat (snd r) mod 65521)"
    using adler_ref_sums [OF red, of buf] by (simp flip: r) (simp add: unat2_def)
  have "unat (fst r) \<le> ?a + 255 * length buf"
    using r sums_nat_bound [of ?a ?s buf] by (simp add: unat2_def prod_eq_iff)
  moreover have "?a < 65521" using red by (simp add: unat2_def)
  ultimately have "unat (fst r) < 131042" using short by linarith
  then have a: "unat (if fst r \<ge> 65521 then fst r - 65521 else fst r) = unat (fst r) mod 65521"
    unfolding unat_reduce [OF len] by (rule reduce_mod)
  have s: "unat (snd r mod 65521) = unat (snd r) mod 65521"
    using unat_of_numeral_base [OF len] by (simp add: unat_mod)
  have "adler32_z w (Some buf) = adler_join (if fst r \<ge> 65521 then fst r - 65521 else fst r) (snd r mod 65521)"
    using short by (simp add: adler32_z_def Let_def adler_sums_def r_def)
  with adler_join_halves [OF len] a s show ?thesis
    by (simp add: ref mod_65521_small flip: halves)
qed

lemma adler32_z_long:
  assumes len: "32 \<le> LENGTH('a)" and ok: "adler_ok (w :: 'a::len word)" and long: "16 \<le> length buf"
  shows "adler_halves (adler32_z w (Some buf)) = adler_ref (adler_halves w) buf"
proof -
  let ?st = "adler_sums w"
  note halves = adler_sums_ok(1) [OF ok] and red = adler_sums_ok(2) [OF ok]
  have refr: "reduced (adler_ref (unat2 ?st) bs)" for bs using adler_ref_reduced [OF red] .
  obtain k where k: "k \<le> length buf" "snd (nmax_blocks ?st buf) = drop k buf" "length (drop k buf) < NMAX"
    "unat2 (fst (nmax_blocks ?st buf)) = adler_ref (unat2 ?st) (take k buf)"
    using nmax_blocks_ref [OF len red, of buf] by blast
  define r where "r = (if drop k buf \<noteq> [] then MOD (rest16 (fst (nmax_blocks ?st buf)) (drop k buf))
      else fst (nmax_blocks ?st buf))"
  have split: "adler_ref (unat2 ?st) buf = adler_ref (adler_ref (unat2 ?st) (take k buf)) (drop k buf)"
    by (simp flip: adler_ref_append)
  have r: "unat2 r = adler_ref (unat2 ?st) buf"
  proof (cases "drop k buf = []")
    case True
    with k(1,4) show ?thesis by (simp add: r_def)
  next
    case False
    have "unat2 (MOD (foldl DO1 (fst (nmax_blocks ?st buf)) (drop k buf)))
        = adler_ref (unat2 (fst (nmax_blocks ?st buf))) (drop k buf)"
      using k(3,4) refr by (intro MOD_fold_block [OF len]) simp_all
    with False show ?thesis by (simp add: r_def rest16_fold k(4) split)
  qed
  have "adler32_z w (Some buf) = adler_join (fst r) (snd r)"
    using long k(2) by (simp add: adler32_z_def Let_def adler_sums_def r_def)
  with adler_join_halves [OF len, of "fst r" "snd r"] refr [of buf] r show ?thesis
    by (simp flip: halves) (simp add: unat2_def prod_eq_iff)
qed

lemma adler32_z_ref:
  assumes len: "32 \<le> LENGTH('a)" and ok: "adler_ok (w :: 'a::len word)"
  shows "adler_halves (adler32_z w (Some buf)) = adler_ref (adler_halves w) buf"
proof -
  consider b where "buf = [b]" | "length buf \<noteq> 1" "length buf < 16" | "16 \<le> length buf"
    by (metis One_nat_def length_0_conv length_Suc_conv not_le)
  then show ?thesis using adler32_z_byte [OF assms] adler32_z_short [OF assms] adler32_z_long [OF assms] by cases blast+
qed

section \<open>Combining\<close>

lemma sums_nat_shift:
  "sums_nat (a + d, s + t) bs
     = (fst (sums_nat (a, s) bs) + d, snd (sums_nat (a, s) bs) + (d * length bs + t))"
proof (induction bs arbitrary: a s d t)
  case (Cons b bs)
  have "a + d + unat b = (a + unat b) + d" "s + t + ((a + unat b) + d) = (s + (a + unat b)) + (d + t)" by simp_all
  then show ?case
    using Cons.IH [of "a + unat b" d "s + (a + unat b)" "d + t"] by (simp add: algebra_simps)
qed simp

lemma mod_add_two: "(x mod m + (y mod m + c)) mod m = (x + (y + c)) mod (m::nat)"
proof -
  have "(x mod m + (y mod m + c)) mod m = (x + (y mod m + c)) mod m" by (rule mod_add_left_eq)
  also have "\<dots> = (y mod m + (x + c)) mod m" by (simp add: ac_simps)
  also have "\<dots> = (y + (x + c)) mod m" by (rule mod_add_left_eq)
  finally show ?thesis by (simp add: ac_simps)
qed

text \<open>The checksum of a concatenation from the checksums of its parts.\<close>

lemma adler_ref_combine:
  assumes "reduced (a, s)"
  shows "adler_ref (a, s) bs =
    ((a + (fst (adler_ref (1, 0) bs) + 65521 - 1)) mod 65521,
     ((length bs mod 65521) * a mod 65521 + (s + snd (adler_ref (1, 0) bs) + 65521 - length bs mod 65521)) mod 65521)"
proof -
  obtain A S where AS: "sums_nat (0, 0) bs = (A, S)" by (cases "sums_nat (0, 0) bs")
  let ?n = "length bs"
  have 1: "adler_ref (1, 0) bs = ((A + 1) mod 65521, (S + ?n) mod 65521)"
    using sums_nat_shift [of 0 1 0 0 bs] adler_ref_sums [of "(1, 0)" bs] by (simp add: AS)
  have 2: "adler_ref (a, s) bs = ((A + a) mod 65521, (S + (a * ?n + s)) mod 65521)"
    using sums_nat_shift [of 0 a 0 s bs] adler_ref_sums [of "(a, s)" bs] assms by (simp add: AS)
  have "(a + ((A + 1) mod 65521 + 65521 - 1)) mod 65521 = (0 mod 65521 + ((A + 1) mod 65521 + (a + 65520))) mod 65521"
    by (simp add: ac_simps)
  also have "\<dots> = (0 + (A + 1 + (a + 65520))) mod 65521" by (rule mod_add_two)
  also have "\<dots> = ((A + a) + 65521) mod 65521" by (simp add: ac_simps)
  finally have fst: "(a + ((A + 1) mod 65521 + 65521 - 1)) mod 65521 = (A + a) mod 65521"
    by (simp only: mod_add_self2)
  let ?r = "?n mod 65521"
  have r: "?r \<le> 65521" by (simp add: less_imp_le)
  have "(?r * a mod 65521 + (s + (S + ?n) mod 65521 + 65521 - ?r)) mod 65521
      = (?n * a mod 65521 + ((S + ?n) mod 65521 + (s + (65521 - ?r)))) mod 65521"
    using r by (simp add: mod_mult_left_eq mod_mult_right_eq ac_simps)
  also have "\<dots> = (?n * a + (S + ?n + (s + (65521 - ?r)))) mod 65521" by (rule mod_add_two)
  also have "\<dots> = (0 mod 65521 + (?n mod 65521 + (?n * a + S + s + (65521 - ?r)))) mod 65521"
    unfolding mod_add_two by (simp only: add_0 ac_simps)
  also have "\<dots> = ((?n * a + S + s) + 65521) mod 65521" using r by (simp only: mod_0) simp
  also have "\<dots> = (S + (a * ?n + s)) mod 65521" unfolding mod_add_self2 by (simp add: ac_simps)
  finally have snd: "(?r * a mod 65521 + (s + (S + ?n) mod 65521 + 65521 - ?r)) mod 65521
      = (S + (a * ?n + s)) mod 65521" .
  show ?thesis unfolding 1 2 by (simp only: fst snd fst_conv snd_conv)
qed

lemma unat_of_nat_32:
  assumes "32 \<le> LENGTH('a)" and "n < 2 ^ 32"
  shows "unat (of_nat n :: 'a::len word) = n"
proof -
  have "(2::nat) ^ 32 \<le> 2 ^ LENGTH('a)" using assms(1) by (rule power_increasing) simp
  with assms(2) have "n < 2 ^ LENGTH('a)" by linarith
  then show ?thesis by (simp add: unsigned_of_nat take_bit_nat_eq_self)
qed

lemma combine_body_halves:
  assumes len: "32 \<le> LENGTH('a)" and "adler_ok (w1 :: 'a::len word)" and "adler_ok (w2 :: 'a word)"
  shows "adler_halves (adler32_combine_body w1 w2 (int n)) =
    (let (a1, s1) = adler_halves w1; (a2, s2) = adler_halves w2 in
     ((a1 + (a2 + 65521 - 1)) mod 65521,
      ((n mod 65521) * a1 mod 65521 + (s1 + s2 + 65521 - n mod 65521)) mod 65521))"
proof -
  obtain a1 s1 a2 s2 where h: "adler_halves w1 = (a1, s1)" "adler_halves w2 = (a2, s2)" by fastforce
  with assms(2,3) have r: "a1 < 65521" "s1 < 65521" "a2 < 65521" "s2 < 65521"
    by (auto simp: adler_halves_def adler_ok_def)
  let ?rem = "n mod 65521"
  have rem: "?rem < 65521" by simp
  note small = unat_of_nat_32 [OF len]
  have w: "w1 AND 65535 = of_nat a1" "w2 AND 65535 = of_nat a2"
      "drop_bit 16 w1 AND 65535 = of_nat s1" "drop_bit 16 w2 AND 65535 = of_nat s2"
    using h r by (auto simp: word_unat_eq_iff unat_low16 unat_drop_bit adler_halves_def small)
  have "int n mod 65521 = int ?rem" by (simp add: zmod_int)
  then have wrem: "(word_of_int (int n mod 65521) :: 'a word) = of_nat ?rem" by (simp only: of_int_of_nat_eq)
  have prod: "of_nat ?rem * of_nat a1 mod (65521 :: 'a word) = of_nat (?rem * a1 mod 65521)"
  proof -
    have "?rem * a1 \<le> 65521 * 65521" using rem r by (intro mult_le_mono) auto
    then have lt: "?rem * a1 < 2 ^ 32" by simp
    then have "?rem * a1 mod 65521 < 2 ^ 32" by (meson le_less_trans mod_less_eq_dividend)
    with lt have "unat (of_nat (?rem * a1) mod (65521 :: 'a word)) = unat (of_nat (?rem * a1 mod 65521) :: 'a word)"
      using unat_of_numeral_base [OF len] by (simp only: unat_mod small)
    then show ?thesis by (simp add: word_unat_eq_iff)
  qed
  define x where "x = a1 + (a2 + 65521 - 1)"
  define y where "y = ?rem * a1 mod 65521 + (s1 + s2 + 65521 - ?rem)"
  have "?rem * a1 mod 65521 < 65521" by simp
  then have xy: "x < 196563" "y < 262084" using r unfolding x_def y_def by linarith+
  have wx: "of_nat a1 + (of_nat a2 + 65521 - 1) = (of_nat x :: 'a word)" by (simp add: x_def)
  have wy: "of_nat (?rem * a1 mod 65521) + (of_nat s1 + of_nat s2 + 65521 - of_nat ?rem) = (of_nat y :: 'a word)"
    using rem by (simp add: y_def of_nat_diff)
  define x' where "x' = (if of_nat x \<ge> (65521 :: 'a word) then of_nat x - 65521 else of_nat x :: 'a word)"
  define x'' where "x'' = (if x' \<ge> 65521 then x' - 65521 else x')"
  define y' where "y' = (if of_nat y \<ge> (131042 :: 'a word) then of_nat y - 131042 else of_nat y :: 'a word)"
  define y'' where "y'' = (if y' \<ge> 65521 then y' - 65521 else y')"
  have ux: "unat (of_nat x :: 'a word) = x" "unat (of_nat y :: 'a word) = y" using xy by (simp_all add: small)
  have "unat x' = (if x \<ge> 65521 then x - 65521 else x)" unfolding x'_def unat_reduce [OF len] ux ..
  then have x'': "unat x'' = x mod 65521"
    unfolding x''_def unat_reduce [OF len] using xy by (auto simp: mod_if)
  have b2: "unat (131042 :: 'a word) = 131042" using small [of 131042] by simp
  have "unat y' = (if y \<ge> 131042 then y - 131042 else y)"
    using b2 ux(2) word_le_nat_alt [of "131042 :: 'a word" "of_nat y"] unat_sub_if' [of "of_nat y" "131042 :: 'a word"]
    unfolding y'_def by (cases "131042 \<le> (of_nat y :: 'a word)") (simp_all only: if_True if_False simp_thms)
  then have y'': "unat y'' = y mod 65521"
    unfolding y''_def unat_reduce [OF len] using xy by (auto simp: mod_if)
  have "adler32_combine_body w1 w2 (int n) = adler_join x'' y''"
    unfolding adler32_combine_body_def Let_def w wrem prod wx wy
    by (simp only: x''_def y''_def x'_def y'_def) simp
  with adler_join_halves [OF len, of x'' y''] x'' y'' show ?thesis
    by (simp add: h mod_65521_small x_def y_def)
qed

section \<open>Properties\<close>

text \<open>
  C30. The checksum loop with its deferred reductions computes Adler-32: for a running checksum whose
  halves are reduced, \<^verbatim>\<open>adler32_z\<close> on a buffer of any length, through its one-byte, short and blocked
  paths, gives the two sums of RFC 1950 reduced after every byte. In particular the sums of up to
  \<^verbatim>\<open>NMAX\<close> bytes never overflow 32 bits.
\<close>

theorem adler32_z_correct:
  assumes "32 \<le> LENGTH('a)" and "adler_ok (w :: 'a::len word)"
  shows "adler_halves (adler32_z w (Some buf)) = adler_ref (adler_halves w) buf"
  using assms by (rule adler32_z_ref)

theorem adler32_z_correct_witness:
  "adler_halves (adler32_z (1 :: u32) (Some [97, 98, 99])) = (295, 589)"
  using adler32_z_correct [of "1 :: u32" "[97, 98, 99]"] by (simp add: adler_ok_def adler_halves_def)

text \<open>
  C31. \<^verbatim>\<open>adler32_combine\<close>: from the checksums of two buffers and the length of the second, both
  started at 1, it computes the checksum of their concatenation.
\<close>

theorem adler32_combine_correct:
  assumes "32 \<le> LENGTH('a)"
  shows "adler_halves (adler32_combine (adler32_z 1 (Some xs) :: 'a::len word) (adler32_z 1 (Some ys)) (int (length ys)))
    = adler_halves (adler32_z 1 (Some (xs @ ys)) :: 'a word)"
proof -
  have "(1::nat) < 2 ^ LENGTH('a)" by (rule one_less_power) simp_all
  then have one: "adler_halves (1 :: 'a word) = (1, 0)" "adler_ok (1 :: 'a word)"
    by (simp_all add: adler_halves_def adler_ok_def)
  note z = adler32_z_ref [OF assms one(2), unfolded one(1)]
  have red: "reduced (adler_ref (1, 0) zs)" for zs by (rule adler_ref_reduced) simp
  have ok: "adler_ok (adler32_z (1 :: 'a word) (Some zs))" for zs
    using z [of zs] red [of zs] by (simp add: adler_ok_def adler_halves_def prod_eq_iff)
  obtain a s where as: "adler_ref (1, 0) xs = (a, s)" by (cases "adler_ref (1, 0) xs")
  have "adler_halves (adler32_combine (adler32_z 1 (Some xs) :: 'a word) (adler32_z 1 (Some ys)) (int (length ys)))
      = adler_ref (a, s) ys"
    using red [of xs] unfolding adler32_combine_def combine_body_halves [OF assms ok ok] z as
    by (simp add: adler_ref_combine [of a s ys] case_prod_beta del: One_nat_def)
  then show ?thesis unfolding z adler_ref_append as .
qed

theorem adler32_combine_correct_witness:
  "adler_halves (adler32_combine (adler32_z 1 (Some [97]) :: u32) (adler32_z 1 (Some [98, 99])) 2) = (295, 589)"
  using adler32_combine_correct [where 'a = 32, of "[97]" "[98, 99]"] adler32_z_ref [of "1 :: u32" "[97, 98, 99]"]
  by (simp add: adler_ok_def adler_halves_def)

end
