(* ===== verification/Address_Sorting.thy ===== *)
theory Address_Sorting
  imports Upb_Prelude "HOL-Library.Product_Lexorder" "HOL-Library.Multiset"
begin

unbundle bit_operations_syntax

text \<open>
  The destination address selection of \<^verbatim>\<open>address_sorting/address_sorting.c\<close> (RFC 6724): the IPv6
  address classes, labels, precedences and scopes, the comparison rules, and the sort. An address is
  its family and the sixteen bytes that the code reads as \<^verbatim>\<open>sin6_addr\<close>. Finding the source address
  for a destination is left to the platform (\<^verbatim>\<open>address_sorting_posix.c\<close> asks the kernel): it is a
  parameter of the sort, as is \<^verbatim>\<open>qsort\<close>, of which only the contract of the C standard is used.
\<close>

section \<open>Definitions\<close>

datatype address_sorting_family =
  ADDRESS_SORTING_AF_INET | ADDRESS_SORTING_AF_INET6 | ADDRESS_SORTING_UNKNOWN_FAMILY

record address_sorting_address =
  family :: address_sorting_family
  sin6_addr :: bytes

record address_sorting_sortable =
  dest_addr :: address_sorting_address
  user_data :: nat
  source_addr :: address_sorting_address
  source_addr_exists :: bool
  original_index :: u64

definition address_sorting_abstract_get_family :: "address_sorting_address \<Rightarrow> address_sorting_family" where
  "address_sorting_abstract_get_family address = family address"

subsection \<open>Address classes\<close>

text \<open>A 32-bit group of the address, in network order.\<close>

definition bits32 :: "bytes \<Rightarrow> nat \<Rightarrow> bytes" where
  "bits32 a i = [a ! (4 * i), a ! (4 * i + 1), a ! (4 * i + 2), a ! (4 * i + 3)]"

definition in6_is_addr_loopback :: "bytes \<Rightarrow> bool" where
  "in6_is_addr_loopback a \<longleftrightarrow> bits32 a 0 = [0, 0, 0, 0] \<and> bits32 a 1 = [0, 0, 0, 0]
     \<and> bits32 a 2 = [0, 0, 0, 0] \<and> bits32 a 3 = [0, 0, 0, 1]"

definition in6_is_addr_v4mapped :: "bytes \<Rightarrow> bool" where
  "in6_is_addr_v4mapped a \<longleftrightarrow> bits32 a 0 = [0, 0, 0, 0] \<and> bits32 a 1 = [0, 0, 0, 0]
     \<and> bits32 a 2 = [0, 0, 0xff, 0xff]"

definition in6_is_addr_v4compat :: "bytes \<Rightarrow> bool" where
  "in6_is_addr_v4compat a \<longleftrightarrow> bits32 a 0 = [0, 0, 0, 0] \<and> bits32 a 1 = [0, 0, 0, 0]
     \<and> bits32 a 2 = [0, 0, 0, 0] \<and> bits32 a 3 \<noteq> [0, 0, 0, 0] \<and> bits32 a 3 \<noteq> [0, 0, 0, 1]"

definition in6_is_addr_sitelocal :: "bytes \<Rightarrow> bool" where
  "in6_is_addr_sitelocal a \<longleftrightarrow> a ! 0 = 0xfe \<and> a ! 1 AND 0xc0 = 0xc0"

definition in6_is_addr_linklocal :: "bytes \<Rightarrow> bool" where
  "in6_is_addr_linklocal a \<longleftrightarrow> a ! 0 = 0xfe \<and> a ! 1 AND 0xc0 = 0x80"

definition in6_is_addr_6to4 :: "bytes \<Rightarrow> bool" where
  "in6_is_addr_6to4 a \<longleftrightarrow> a ! 0 = 0x20 \<and> a ! 1 = 0x02"

definition in6_is_addr_ula :: "bytes \<Rightarrow> bool" where
  "in6_is_addr_ula a \<longleftrightarrow> a ! 0 AND 0xfe = 0xfc"

definition in6_is_addr_teredo :: "bytes \<Rightarrow> bool" where
  "in6_is_addr_teredo a \<longleftrightarrow> a ! 0 = 0x20 \<and> a ! 1 = 0x01 \<and> a ! 2 = 0x00 \<and> a ! 3 = 0x00"

definition in6_is_addr_6bone :: "bytes \<Rightarrow> bool" where
  "in6_is_addr_6bone a \<longleftrightarrow> a ! 0 = 0x3f \<and> a ! 1 = 0xfe"

definition get_label_value :: "address_sorting_address \<Rightarrow> int" where
  "get_label_value resolved_addr =
     (if address_sorting_abstract_get_family resolved_addr = ADDRESS_SORTING_AF_INET then 4
      else if address_sorting_abstract_get_family resolved_addr \<noteq> ADDRESS_SORTING_AF_INET6 then 1
      else let a = sin6_addr resolved_addr in
        if in6_is_addr_loopback a then 0
        else if in6_is_addr_v4mapped a then 4
        else if in6_is_addr_6to4 a then 2
        else if in6_is_addr_teredo a then 5
        else if in6_is_addr_ula a then 13
        else if in6_is_addr_v4compat a then 3
        else if in6_is_addr_sitelocal a then 11
        else if in6_is_addr_6bone a then 12
        else 1)"

definition get_precedence_value :: "address_sorting_address \<Rightarrow> int" where
  "get_precedence_value resolved_addr =
     (if address_sorting_abstract_get_family resolved_addr = ADDRESS_SORTING_AF_INET then 35
      else if address_sorting_abstract_get_family resolved_addr \<noteq> ADDRESS_SORTING_AF_INET6 then 1
      else let a = sin6_addr resolved_addr in
        if in6_is_addr_loopback a then 50
        else if in6_is_addr_v4mapped a then 35
        else if in6_is_addr_6to4 a then 30
        else if in6_is_addr_teredo a then 5
        else if in6_is_addr_ula a then 3
        else if in6_is_addr_v4compat a \<or> in6_is_addr_sitelocal a \<or> in6_is_addr_6bone a then 1
        else 40)"

definition sockaddr_get_scope :: "address_sorting_address \<Rightarrow> int" where
  "sockaddr_get_scope resolved_addr =
     (if address_sorting_abstract_get_family resolved_addr = ADDRESS_SORTING_AF_INET then 3
      else if address_sorting_abstract_get_family resolved_addr = ADDRESS_SORTING_AF_INET6 then
        (let a = sin6_addr resolved_addr in
         if in6_is_addr_loopback a \<or> in6_is_addr_linklocal a then 1
         else if in6_is_addr_sitelocal a then 2
         else 3)
      else 0)"

subsection \<open>The rules\<close>

function ipv6_prefix_loop :: "bytes \<Rightarrow> bytes \<Rightarrow> nat \<Rightarrow> nat" where
  "ipv6_prefix_loop a b cur_bit =
     (if cur_bit < 128 then
        (let a_val = a ! (cur_bit div 8) AND drop_bit (cur_bit mod 8) 0x80;
             b_val = b ! (cur_bit div 8) AND drop_bit (cur_bit mod 8) 0x80
         in if a_val = b_val then ipv6_prefix_loop a b (cur_bit + 1) else cur_bit)
      else cur_bit)"
  by pat_completeness auto
termination
  by (relation "measure (\<lambda>(a, b, cur_bit). 128 - cur_bit)") auto

declare ipv6_prefix_loop.simps [simp del]

definition ipv6_prefix_match_length :: "address_sorting_address \<Rightarrow> address_sorting_address \<Rightarrow> int" where
  "ipv6_prefix_match_length sa sb = int (ipv6_prefix_loop (sin6_addr sa) (sin6_addr sb) 0)"

definition compare_source_addr_exists :: "address_sorting_sortable \<Rightarrow> address_sorting_sortable \<Rightarrow> int" where
  "compare_source_addr_exists first second =
     (if source_addr_exists first \<noteq> source_addr_exists second
      then (if source_addr_exists first then - 1 else 1) else 0)"

definition compare_source_dest_scope_matches ::
  "address_sorting_sortable \<Rightarrow> address_sorting_sortable \<Rightarrow> int" where
  "compare_source_dest_scope_matches first second =
     (let first_matches = (sockaddr_get_scope (dest_addr first) = sockaddr_get_scope (source_addr first));
          second_matches = (sockaddr_get_scope (dest_addr second) = sockaddr_get_scope (source_addr second))
      in if first_matches \<noteq> second_matches then (if first_matches then - 1 else 1) else 0)"

definition compare_source_dest_labels_match ::
  "address_sorting_sortable \<Rightarrow> address_sorting_sortable \<Rightarrow> int" where
  "compare_source_dest_labels_match first second =
     (let first_matches = (get_label_value (dest_addr first) = get_label_value (source_addr first));
          second_matches = (get_label_value (dest_addr second) = get_label_value (source_addr second))
      in if first_matches \<noteq> second_matches then (if first_matches then - 1 else 1) else 0)"

definition compare_dest_precedence :: "address_sorting_sortable \<Rightarrow> address_sorting_sortable \<Rightarrow> int" where
  "compare_dest_precedence first second =
     get_precedence_value (dest_addr second) - get_precedence_value (dest_addr first)"

definition compare_dest_scope :: "address_sorting_sortable \<Rightarrow> address_sorting_sortable \<Rightarrow> int" where
  "compare_dest_scope first second =
     sockaddr_get_scope (dest_addr first) - sockaddr_get_scope (dest_addr second)"

definition compare_source_dest_prefix_match_lengths ::
  "address_sorting_sortable \<Rightarrow> address_sorting_sortable \<Rightarrow> int" where
  "compare_source_dest_prefix_match_lengths first second =
     (if source_addr_exists first
         \<and> address_sorting_abstract_get_family (source_addr first) = ADDRESS_SORTING_AF_INET6
         \<and> source_addr_exists second
         \<and> address_sorting_abstract_get_family (source_addr second) = ADDRESS_SORTING_AF_INET6
      then ipv6_prefix_match_length (source_addr second) (dest_addr second)
             - ipv6_prefix_match_length (source_addr first) (dest_addr first)
      else 0)"

text \<open>The last rule is a \<^verbatim>\<open>size_t\<close> difference cast to \<^verbatim>\<open>int\<close>.\<close>

definition rfc_6724_compare :: "address_sorting_sortable \<Rightarrow> address_sorting_sortable \<Rightarrow> int" where
  "rfc_6724_compare first second =
     (let out1 = compare_source_addr_exists first second in if out1 \<noteq> 0 then out1 else
      let out2 = compare_source_dest_scope_matches first second in if out2 \<noteq> 0 then out2 else
      let out3 = compare_source_dest_labels_match first second in if out3 \<noteq> 0 then out3 else
      let out4 = compare_dest_precedence first second in if out4 \<noteq> 0 then out4 else
      let out5 = compare_dest_scope first second in if out5 \<noteq> 0 then out5 else
      let out6 = compare_source_dest_prefix_match_lengths first second in if out6 \<noteq> 0 then out6 else
      sint (ucast (original_index first - original_index second) :: u32))"

subsection \<open>The sort\<close>

definition zero_address :: address_sorting_address where
  "zero_address = \<lparr> family = ADDRESS_SORTING_UNKNOWN_FAMILY, sin6_addr = replicate 16 0 \<rparr>"

definition sanity_check_private_fields_are_unused :: "address_sorting_sortable \<Rightarrow> bool" where
  "sanity_check_private_fields_are_unused sortable \<longleftrightarrow>
     source_addr sortable = zero_address \<and> original_index sortable = 0 \<and> \<not> source_addr_exists sortable"

text \<open>
  \<open>get_source_addr dest\<close> is the returned flag and what is left in \<^verbatim>\<open>*source\<close>. The loop of
  \<^verbatim>\<open>address_sorting_rfc_6724_sort\<close>; \<open>None\<close> is \<^verbatim>\<open>abort()\<close>.
\<close>

fun fill_sources ::
  "(address_sorting_address \<Rightarrow> bool \<times> address_sorting_address) \<Rightarrow> nat \<Rightarrow> address_sorting_sortable list
     \<Rightarrow> address_sorting_sortable list option" where
  "fill_sources get_source_addr i [] = Some []"
| "fill_sources get_source_addr i (x # xs) =
     (if \<not> sanity_check_private_fields_are_unused x then None
      else let (found, source) = get_source_addr (dest_addr x);
               x' = x\<lparr>original_index := of_nat i, source_addr_exists := found, source_addr := source\<rparr>
           in map_option ((#) x') (fill_sources get_source_addr (i + 1) xs))"

type_synonym qsort_fun =
  "(address_sorting_sortable \<Rightarrow> address_sorting_sortable \<Rightarrow> int) \<Rightarrow> address_sorting_sortable list
     \<Rightarrow> address_sorting_sortable list"

definition address_sorting_rfc_6724_sort ::
  "qsort_fun \<Rightarrow> (address_sorting_address \<Rightarrow> bool \<times> address_sorting_address)
     \<Rightarrow> address_sorting_sortable list \<Rightarrow> address_sorting_sortable list option" where
  "address_sorting_rfc_6724_sort qsort get_source_addr sortables =
     map_option (qsort rfc_6724_compare) (fill_sources get_source_addr 0 sortables)"

subsection \<open>The factory\<close>

text \<open>\<^verbatim>\<open>g_current_source_addr_factory\<close>: set once, destroyed once; a call out of order aborts.\<close>

definition address_sorting_init :: "'f \<Rightarrow> 'f option \<Rightarrow> 'f option option" where
  "address_sorting_init platform_factory g = (if g \<noteq> None then None else Some (Some platform_factory))"

definition address_sorting_override_source_addr_factory_for_testing :: "'f \<Rightarrow> 'f option \<Rightarrow> 'f option option" where
  "address_sorting_override_source_addr_factory_for_testing factory g =
     (if g = None then None else Some (Some factory))"

definition address_sorting_shutdown :: "'f option \<Rightarrow> 'f option option" where
  "address_sorting_shutdown g = (if g = None then None else Some None)"

section \<open>The specification\<close>

text \<open>
  The order RFC 6724 asks for, as far as the code implements it: reachable destinations first, then
  matching scope (rule 2), matching label (rule 5), higher precedence (rule 6), smaller scope
  (rule 8), longer common prefix (rule 9, IPv6 only), and the original order (rule 10).
\<close>

definition has_v6_source :: "address_sorting_sortable \<Rightarrow> bool" where
  "has_v6_source x \<longleftrightarrow> source_addr_exists x \<and> family (source_addr x) = ADDRESS_SORTING_AF_INET6"

definition rule_key :: "address_sorting_sortable \<Rightarrow> bool \<times> bool \<times> bool \<times> int \<times> int" where
  "rule_key x =
     (\<not> source_addr_exists x,
      sockaddr_get_scope (dest_addr x) \<noteq> sockaddr_get_scope (source_addr x),
      get_label_value (dest_addr x) \<noteq> get_label_value (source_addr x),
      - get_precedence_value (dest_addr x),
      sockaddr_get_scope (dest_addr x))"

definition rfc_key :: "address_sorting_sortable \<Rightarrow> (bool \<times> bool \<times> bool \<times> int \<times> int) \<times> int \<times> nat" where
  "rfc_key x =
     (rule_key x,
      if has_v6_source x then - ipv6_prefix_match_length (source_addr x) (dest_addr x) else 0,
      unat (original_index x))"

text \<open>What the C standard asks of a comparison function, and what \<^verbatim>\<open>qsort\<close> does with such a one.\<close>

definition comparator_ok :: "('a \<Rightarrow> 'a \<Rightarrow> int) \<Rightarrow> 'a list \<Rightarrow> bool" where
  "comparator_ok cmp xs \<longleftrightarrow>
     (\<forall>x \<in> set xs. \<forall>y \<in> set xs. cmp x y < 0 \<longleftrightarrow> 0 < cmp y x)
     \<and> (\<forall>x \<in> set xs. \<forall>y \<in> set xs. \<forall>z \<in> set xs. cmp x y \<le> 0 \<longrightarrow> cmp y z \<le> 0 \<longrightarrow> cmp x z \<le> 0)"

definition qsort_contract :: "qsort_fun \<Rightarrow> bool" where
  "qsort_contract qsort \<longleftrightarrow>
     (\<forall>cmp xs. comparator_ok cmp xs \<longrightarrow>
        mset (qsort cmp xs) = mset xs \<and> sorted_wrt (\<lambda>a b. cmp a b \<le> 0) (qsort cmp xs))"

text \<open>Destinations that are IPv4 or IPv6 and not IPv4 written as IPv6.\<close>

definition plain_address :: "address_sorting_address \<Rightarrow> bool" where
  "plain_address a \<longleftrightarrow> family a = ADDRESS_SORTING_AF_INET
     \<or> family a = ADDRESS_SORTING_AF_INET6 \<and> \<not> in6_is_addr_v4mapped (sin6_addr a)"

section \<open>The comparison\<close>

lemma ucast_of_int_64: "(ucast (word_of_int k :: u64) :: u32) = word_of_int k"
  by (rule bit_word_eqI) (simp add: bit_simps)

lemma index_difference:
  assumes "unat (a :: u64) < 2 ^ 31" and "unat b < 2 ^ 31"
  shows "sint (ucast (a - b) :: u32) = int (unat a) - int (unat b)"
proof -
  obtain m n where mn: "unat a = m" "unat b = n" by blast
  have r: "- (2 ^ 31) \<le> int m - int n" "int m - int n < 2 ^ 31" using assms by (simp_all add: mn)
  have "a - b = word_of_int (int (unat a) - int (unat b))" by simp
  then have "(ucast (a - b) :: u32) = word_of_int (int m - int n)" by (simp only: ucast_of_int_64 mn)
  then have "sint (ucast (a - b) :: u32) = signed_take_bit 31 (int m - int n)" by (simp only: sint_sbintrunc') simp
  also have "\<dots> = int m - int n" using r by (intro signed_take_bit_int_eq_self)
  also have "\<dots> = int (unat a) - int (unat b)" by (simp only: mn)
  finally show ?thesis .
qed

text \<open>A comparison result that reports the order of two keys.\<close>

definition agrees :: "int \<Rightarrow> 'k::linorder \<Rightarrow> 'k \<Rightarrow> bool" where
  "agrees c a b \<longleftrightarrow> (c < 0 \<longleftrightarrow> a < b) \<and> (c = 0 \<longleftrightarrow> a = b)"

lemma agrees_le: "agrees c a b \<Longrightarrow> c \<le> 0 \<longleftrightarrow> a \<le> b"
  by (auto simp: agrees_def le_less)

lemma agrees_pos: "agrees c a b \<Longrightarrow> 0 < c \<longleftrightarrow> b < a"
  using agrees_le [of c a b] by (simp add: not_le [symmetric])

lemma agrees_chain:
  "agrees c a1 b1 \<Longrightarrow> (a1 = b1 \<Longrightarrow> agrees d a2 b2) \<Longrightarrow> agrees (if c \<noteq> 0 then c else d) (a1, a2) (b1, b2)"
  by (auto simp: agrees_def)

lemma agrees_flag: "agrees (if p \<noteq> q then if p then - 1 else 1 else 0) (\<not> p) (\<not> q)"
  by (cases p; cases q) (simp_all add: agrees_def)

lemma agrees_diff: "agrees (a - b) a b"
  by (simp add: agrees_def)

lemma agrees_diff_neg: "agrees (b - a) (- a) (- b)"
  by (auto simp: agrees_def)

lemma compare_rules:
  "agrees (let out1 = compare_source_addr_exists x y in if out1 \<noteq> 0 then out1 else
     let out2 = compare_source_dest_scope_matches x y in if out2 \<noteq> 0 then out2 else
     let out3 = compare_source_dest_labels_match x y in if out3 \<noteq> 0 then out3 else
     let out4 = compare_dest_precedence x y in if out4 \<noteq> 0 then out4 else
     compare_dest_scope x y) (rule_key x) (rule_key y)"
  unfolding Let_def rule_key_def compare_source_addr_exists_def compare_source_dest_scope_matches_def
    compare_source_dest_labels_match_def compare_dest_precedence_def compare_dest_scope_def
  by (intro agrees_chain agrees_flag agrees_diff agrees_diff_neg)

lemma compare_prefix:
  "has_v6_source x = has_v6_source y \<Longrightarrow>
     agrees (compare_source_dest_prefix_match_lengths x y)
       (if has_v6_source x then - ipv6_prefix_match_length (source_addr x) (dest_addr x) else 0)
       (if has_v6_source y then - ipv6_prefix_match_length (source_addr y) (dest_addr y) else 0)"
  by (auto simp: compare_source_dest_prefix_match_lengths_def has_v6_source_def agrees_def
      address_sorting_abstract_get_family_def)

lemma agrees_nat: "agrees (int a - int b) a b"
  by (auto simp: agrees_def)

lemma compare_key:
  assumes "unat (original_index x) < 2 ^ 31" and "unat (original_index y) < 2 ^ 31"
    and "rule_key x = rule_key y \<Longrightarrow> has_v6_source x = has_v6_source y"
  shows "agrees (rfc_6724_compare x y) (rfc_key x) (rfc_key y)"
proof -
  define rules where "rules = (let out1 = compare_source_addr_exists x y in if out1 \<noteq> 0 then out1 else
     let out2 = compare_source_dest_scope_matches x y in if out2 \<noteq> 0 then out2 else
     let out3 = compare_source_dest_labels_match x y in if out3 \<noteq> 0 then out3 else
     let out4 = compare_dest_precedence x y in if out4 \<noteq> 0 then out4 else
     compare_dest_scope x y)"
  have "rfc_6724_compare x y = (if rules \<noteq> 0 then rules
      else if compare_source_dest_prefix_match_lengths x y \<noteq> 0 then compare_source_dest_prefix_match_lengths x y
      else int (unat (original_index x)) - int (unat (original_index y)))"
    unfolding rfc_6724_compare_def index_difference [OF assms(1,2)] rules_def Let_def by simp
  then show ?thesis unfolding rfc_key_def
    using agrees_chain [OF compare_rules [of x y, folded rules_def] agrees_chain [OF compare_prefix agrees_nat]] assms(3)
    by simp
qed

text \<open>Precedence 35 tells IPv4 from every other plain address.\<close>

lemma plain_precedence:
  "plain_address a \<Longrightarrow> get_precedence_value a = 35 \<longleftrightarrow> family a = ADDRESS_SORTING_AF_INET"
  by (auto simp: plain_address_def get_precedence_value_def address_sorting_abstract_get_family_def Let_def)

lemma plain_compatible:
  assumes "plain_address (dest_addr x)" and "plain_address (dest_addr y)"
    and "source_addr_exists x \<Longrightarrow> family (source_addr x) = family (dest_addr x)"
    and "source_addr_exists y \<Longrightarrow> family (source_addr y) = family (dest_addr y)"
    and "rule_key x = rule_key y"
  shows "has_v6_source x = has_v6_source y"
proof -
  have "source_addr_exists x = source_addr_exists y"
    and "get_precedence_value (dest_addr x) = get_precedence_value (dest_addr y)"
    using assms(5) by (auto simp: rule_key_def)
  with assms plain_precedence [OF assms(1)] plain_precedence [OF assms(2)] show ?thesis
    by (auto simp: has_v6_source_def plain_address_def)
qed

section \<open>The sort\<close>

lemma comparator_ok_key:
  assumes "\<And>x y. x \<in> set xs \<Longrightarrow> y \<in> set xs \<Longrightarrow> agrees (cmp x y) (k x :: 'k::linorder) (k y)"
  shows "comparator_ok cmp xs"
proof -
  have "cmp x y < 0 \<longleftrightarrow> 0 < cmp y x" if "x \<in> set xs" "y \<in> set xs" for x y
    using agrees_pos [OF assms [OF that(2,1)]] assms [OF that] by (simp add: agrees_def)
  moreover have "cmp x z \<le> 0" if "x \<in> set xs" "y \<in> set xs" "z \<in> set xs" "cmp x y \<le> 0" "cmp y z \<le> 0" for x y z
    using that(4,5) agrees_le [OF assms [OF that(1,2)]] agrees_le [OF assms [OF that(2,3)]]
      agrees_le [OF assms [OF that(1,3)]] by simp
  ultimately show ?thesis unfolding comparator_ok_def by blast
qed

lemma fill_sources_spec:
  assumes "list_all sanity_check_private_fields_are_unused xs" and "i + length xs \<le> 2 ^ 31"
  shows "\<exists>ys. fill_sources gsa i xs = Some ys \<and> length ys = length xs
    \<and> (\<forall>j < length xs. dest_addr (ys ! j) = dest_addr (xs ! j) \<and> user_data (ys ! j) = user_data (xs ! j)
        \<and> (source_addr_exists (ys ! j), source_addr (ys ! j)) = gsa (dest_addr (xs ! j))
        \<and> unat (original_index (ys ! j)) = i + j)"
  using assms
proof (induction xs arbitrary: i)
  case (Cons x xs)
  from Cons.IH [of "i + 1"] Cons.prems obtain ys where
    ys: "fill_sources gsa (i + 1) xs = Some ys" "length ys = length xs"
      "\<forall>j < length xs. dest_addr (ys ! j) = dest_addr (xs ! j) \<and> user_data (ys ! j) = user_data (xs ! j)
        \<and> (source_addr_exists (ys ! j), source_addr (ys ! j)) = gsa (dest_addr (xs ! j))
        \<and> unat (original_index (ys ! j)) = i + 1 + j" by auto
  obtain f s where gs: "gsa (dest_addr x) = (f, s)" by fastforce
  let ?x = "x\<lparr>original_index := of_nat i, source_addr_exists := f, source_addr := s\<rparr>"
  have "unat (of_nat i :: u64) = i" using Cons.prems by (simp add: unsigned_of_nat take_bit_nat_eq_self)
  with ys gs Cons.prems show ?case
    by (intro exI [of _ "?x # ys"]) (auto simp: less_Suc_eq_0_disj)
qed simp

text \<open>
  What the sort promises: the addresses that came in, each with the source the platform found for
  it, in the strict order of the RFC key (strict, because the last component is the position in the
  input).
\<close>

definition rfc_sorted ::
  "(address_sorting_address \<Rightarrow> bool \<times> address_sorting_address) \<Rightarrow> address_sorting_sortable list
     \<Rightarrow> address_sorting_sortable list \<Rightarrow> bool" where
  "rfc_sorted gsa xs ys \<longleftrightarrow>
     mset (map (\<lambda>y. (dest_addr y, user_data y, unat (original_index y))) ys)
       = mset (map (\<lambda>(i, x). (dest_addr x, user_data x, i)) (enumerate 0 xs))
     \<and> list_all (\<lambda>y. (source_addr_exists y, source_addr y) = gsa (dest_addr y)) ys
     \<and> sorted_wrt (\<lambda>a b. rfc_key a < rfc_key b) ys"

lemma sorted_wrt_le_distinct:
  assumes "sorted_wrt (\<lambda>a b. k a \<le> (k b :: 'k::linorder)) ys" and "distinct (map k ys)"
  shows "sorted_wrt (\<lambda>a b. k a < k b) ys"
  using assms by (induction ys) (auto simp: less_le)

lemma rfc_6724_sort_sorts:
  assumes "qsort_contract qsort"
    and "list_all sanity_check_private_fields_are_unused xs" and "length xs < 2 ^ 31"
    and "list_all (\<lambda>x. plain_address (dest_addr x)) xs"
    and "list_all (\<lambda>x. fst (gsa (dest_addr x)) \<longrightarrow> family (snd (gsa (dest_addr x))) = family (dest_addr x)) xs"
  shows "\<exists>ys. address_sorting_rfc_6724_sort qsort gsa xs = Some ys \<and> rfc_sorted gsa xs ys"
proof -
  obtain zs where zs: "fill_sources gsa 0 xs = Some zs" "length zs = length xs"
    and z: "\<And>j. j < length xs \<Longrightarrow> dest_addr (zs ! j) = dest_addr (xs ! j) \<and> user_data (zs ! j) = user_data (xs ! j)
        \<and> (source_addr_exists (zs ! j), source_addr (zs ! j)) = gsa (dest_addr (xs ! j))
        \<and> unat (original_index (zs ! j)) = j"
    using fill_sources_spec [OF assms(2), of 0 gsa] assms(3) by auto
  have el: "plain_address (dest_addr x)" "unat (original_index x) < 2 ^ 31"
      "source_addr_exists x \<Longrightarrow> family (source_addr x) = family (dest_addr x)"
      "(source_addr_exists x, source_addr x) = gsa (dest_addr x)" if "x \<in> set zs" for x
  proof -
    from that obtain j where j: "j < length xs" "x = zs ! j" by (metis in_set_conv_nth zs(2))
    note zj = z [OF j(1)]
    show "plain_address (dest_addr x)" using zj assms(4) j by (simp add: list_all_length)
    show "unat (original_index x) < 2 ^ 31" using zj assms(3) j by simp
    show src: "(source_addr_exists x, source_addr x) = gsa (dest_addr x)" using zj j by simp
    have "fst (gsa (dest_addr x)) \<longrightarrow> family (snd (gsa (dest_addr x))) = family (dest_addr x)"
      using zj assms(5) j by (simp add: list_all_length)
    then show "source_addr_exists x \<Longrightarrow> family (source_addr x) = family (dest_addr x)"
      by (simp flip: src)
  qed
  have agree: "agrees (rfc_6724_compare x y) (rfc_key x) (rfc_key y)" if "x \<in> set zs" "y \<in> set zs" for x y
    by (rule compare_key [OF el(2) [OF that(1)] el(2) [OF that(2)]])
       (rule plain_compatible [OF el(1) [OF that(1)] el(1) [OF that(2)] el(3) [OF that(1)] el(3) [OF that(2)]])
  let ?ys = "qsort rfc_6724_compare zs"
  have ys: "mset ?ys = mset zs" "sorted_wrt (\<lambda>a b. rfc_6724_compare a b \<le> 0) ?ys"
    using assms(1) comparator_ok_key [of zs rfc_6724_compare rfc_key] agree by (auto simp: qsort_contract_def)
  have set: "set ?ys = set zs" using ys(1) by (rule mset_eq_setD)
  have "sorted_wrt (\<lambda>a b. rfc_key a \<le> rfc_key b) ?ys"
    using ys(2) by (rule sorted_wrt_mono_rel [rotated]) (use agree agrees_le set in blast)
  moreover have "distinct (map rfc_key ?ys)"
  proof -
    have "distinct (map (unat \<circ> original_index) zs)"
      using z zs(2) by (simp add: distinct_conv_nth)
    then have "distinct (map (snd \<circ> snd) (map rfc_key zs))" by (simp add: rfc_key_def comp_def)
    then have "distinct (map rfc_key zs)" unfolding distinct_map [of "snd \<circ> snd"] ..
    moreover have "mset (map rfc_key ?ys) = mset (map rfc_key zs)" using ys(1) by (simp only: mset_map)
    ultimately show ?thesis using mset_eq_imp_distinct_iff by blast
  qed
  ultimately have sorted: "sorted_wrt (\<lambda>a b. rfc_key a < rfc_key b) ?ys" by (rule sorted_wrt_le_distinct)
  let ?t = "\<lambda>y. (dest_addr y, user_data y, unat (original_index y))"
  have "map ?t zs = map (\<lambda>(i, x). (dest_addr x, user_data x, i)) (enumerate 0 xs)"
    using z zs(2) by (intro nth_equalityI) (simp_all add: nth_enumerate_eq)
  moreover have "mset (map ?t ?ys) = mset (map ?t zs)" using ys(1) by (simp only: mset_map)
  ultimately have "mset (map ?t ?ys) = mset (map (\<lambda>(i, x). (dest_addr x, user_data x, i)) (enumerate 0 xs))"
    by (simp only:)
  with sorted set el(4) have "rfc_sorted gsa xs ?ys" by (auto simp: rfc_sorted_def list_all_iff)
  with zs(1) show ?thesis by (simp add: address_sorting_rfc_6724_sort_def)
qed

section \<open>Common prefixes\<close>

text \<open>Bit \<open>i\<close> of an address, from the most significant bit of its first byte.\<close>

definition addr_bit :: "bytes \<Rightarrow> nat \<Rightarrow> bool" where
  "addr_bit a i = bit (a ! (i div 8)) (7 - i mod 8)"

lemma high_bit_test:
  "(x AND drop_bit (i mod 8) 0x80 = y AND drop_bit (i mod 8) 0x80) \<longleftrightarrow> (bit (x :: u8) (7 - i mod 8) = bit y (7 - i mod 8))"
proof -
  have b: "bit (drop_bit (i mod 8) (0x80 :: u8)) k \<longleftrightarrow> k = 7 - i mod 8" for k
  proof -
    have "i mod 8 < 8" by simp
    then show ?thesis by (auto simp: bit_drop_bit_eq bit_consts)
  qed
  show ?thesis
  proof
    assume "x AND drop_bit (i mod 8) 0x80 = y AND drop_bit (i mod 8) 0x80"
    then have "bit (x AND drop_bit (i mod 8) 0x80) (7 - i mod 8) = bit (y AND drop_bit (i mod 8) 0x80) (7 - i mod 8)"
      by simp
    then show "bit x (7 - i mod 8) = bit y (7 - i mod 8)" by (simp add: bit_and_iff b)
  next
    assume "bit x (7 - i mod 8) = bit y (7 - i mod 8)"
    then show "x AND drop_bit (i mod 8) 0x80 = y AND drop_bit (i mod 8) 0x80"
      by (intro bit_eqI) (auto simp: bit_and_iff b)
  qed
qed

lemma ipv6_prefix_loop_spec:
  assumes "k \<le> 128"
  shows "k \<le> ipv6_prefix_loop a b k \<and> ipv6_prefix_loop a b k \<le> 128
    \<and> (\<forall>i. k \<le> i \<and> i < ipv6_prefix_loop a b k \<longrightarrow> addr_bit a i = addr_bit b i)
    \<and> (ipv6_prefix_loop a b k < 128 \<longrightarrow>
         addr_bit a (ipv6_prefix_loop a b k) \<noteq> addr_bit b (ipv6_prefix_loop a b k))"
  using assms
proof (induction a b k rule: ipv6_prefix_loop.induct)
  case (1 a b k)
  show ?case
  proof (cases "k < 128 \<and> addr_bit a k = addr_bit b k")
    case True
    then have step: "ipv6_prefix_loop a b k = ipv6_prefix_loop a b (k + 1)"
      by (subst ipv6_prefix_loop.simps) (simp add: high_bit_test addr_bit_def)
    have IH: "k + 1 \<le> ipv6_prefix_loop a b (k + 1) \<and> ipv6_prefix_loop a b (k + 1) \<le> 128
      \<and> (\<forall>i. k + 1 \<le> i \<and> i < ipv6_prefix_loop a b (k + 1) \<longrightarrow> addr_bit a i = addr_bit b i)
      \<and> (ipv6_prefix_loop a b (k + 1) < 128 \<longrightarrow>
           addr_bit a (ipv6_prefix_loop a b (k + 1)) \<noteq> addr_bit b (ipv6_prefix_loop a b (k + 1)))"
      using True by (intro "1.IH") (simp_all add: high_bit_test addr_bit_def)
    have "addr_bit a i = addr_bit b i" if "k \<le> i" "i < ipv6_prefix_loop a b (k + 1)" for i
      using IH that True by (cases "i = k") auto
    with IH show ?thesis unfolding step by simp
  next
    case False
    then have "ipv6_prefix_loop a b k = k"
      by (subst ipv6_prefix_loop.simps) (simp add: high_bit_test addr_bit_def)
    with False "1.prems" show ?thesis by auto
  qed
qed

section \<open>Properties\<close>


text \<open>A \<^verbatim>\<open>qsort\<close> that meets the contract: insertion sort.\<close>

fun ins_by :: "('a \<Rightarrow> 'a \<Rightarrow> int) \<Rightarrow> 'a \<Rightarrow> 'a list \<Rightarrow> 'a list" where
  "ins_by cmp x [] = [x]"
| "ins_by cmp x (y # ys) = (if cmp x y \<le> 0 then x # y # ys else y # ins_by cmp x ys)"

definition insertion_sort :: "('a \<Rightarrow> 'a \<Rightarrow> int) \<Rightarrow> 'a list \<Rightarrow> 'a list" where
  "insertion_sort cmp xs = foldr (ins_by cmp) xs []"

lemma mset_ins_by [simp]: "mset (ins_by cmp x ys) = add_mset x (mset ys)"
  by (induction ys) auto

lemma set_ins_by [simp]: "set (ins_by cmp x ys) = insert x (set ys)"
  by (induction ys) auto

lemma comparator_ok_subset: "comparator_ok cmp xs \<Longrightarrow> set ys \<subseteq> set xs \<Longrightarrow> comparator_ok cmp ys"
  unfolding comparator_ok_def by (meson subsetD)

lemma comparator_ok_trans:
  "comparator_ok cmp xs \<Longrightarrow> x \<in> set xs \<Longrightarrow> y \<in> set xs \<Longrightarrow> z \<in> set xs \<Longrightarrow>
     cmp x y \<le> 0 \<Longrightarrow> cmp y z \<le> 0 \<Longrightarrow> cmp x z \<le> 0"
  unfolding comparator_ok_def by blast

lemma comparator_ok_flip:
  "comparator_ok cmp xs \<Longrightarrow> x \<in> set xs \<Longrightarrow> y \<in> set xs \<Longrightarrow> \<not> cmp x y \<le> 0 \<Longrightarrow> cmp y x \<le> 0"
  unfolding comparator_ok_def by (metis less_imp_le not_le)

lemma ins_by_sorted:
  assumes "comparator_ok cmp (x # ys)" and "sorted_wrt (\<lambda>a b. cmp a b \<le> 0) ys"
  shows "sorted_wrt (\<lambda>a b. cmp a b \<le> 0) (ins_by cmp x ys)"
  using assms
proof (induction ys)
  case (Cons y ys)
  note ok = Cons.prems(1)
  have y: "cmp y z \<le> 0" if "z \<in> set ys" for z using Cons.prems(2) that by simp
  show ?case
  proof (cases "cmp x y \<le> 0")
    case True
    have "cmp x z \<le> 0" if "z \<in> set ys" for z
      by (rule comparator_ok_trans [OF ok _ _ _ True y [OF that]]) (use that in simp_all)
    with True Cons.prems(2) show ?thesis by simp
  next
    case False
    then have "cmp y x \<le> 0" by (intro comparator_ok_flip [OF ok]) simp_all
    moreover have "comparator_ok cmp (x # ys)" by (rule comparator_ok_subset [OF ok]) auto
    then have "sorted_wrt (\<lambda>a b. cmp a b \<le> 0) (ins_by cmp x ys)" using Cons.IH Cons.prems(2) by simp
    ultimately show ?thesis using False y by simp
  qed
qed simp

lemma insertion_sort_sorts:
  "comparator_ok cmp xs \<Longrightarrow>
     mset (insertion_sort cmp xs) = mset xs \<and> sorted_wrt (\<lambda>a b. cmp a b \<le> 0) (insertion_sort cmp xs)"
proof (induction xs)
  case (Cons x xs)
  let ?s = "insertion_sort cmp xs"
  have "comparator_ok cmp xs" by (rule comparator_ok_subset [OF Cons.prems]) auto
  then have IH: "mset ?s = mset xs" "sorted_wrt (\<lambda>a b. cmp a b \<le> 0) ?s" using Cons.IH by auto
  have "set ?s = set xs" using IH(1) by (rule mset_eq_setD)
  then have "comparator_ok cmp (x # ?s)" by (intro comparator_ok_subset [OF Cons.prems]) simp
  from ins_by_sorted [OF this IH(2)] IH(1) show ?case by (simp add: insertion_sort_def)
qed (simp add: insertion_sort_def)

lemma insertion_sort_contract: "qsort_contract insertion_sort"
  using insertion_sort_sorts unfolding qsort_contract_def by blast

definition ipv4_sortable :: "nat \<Rightarrow> address_sorting_sortable" where
  "ipv4_sortable u = \<lparr> dest_addr = \<lparr> family = ADDRESS_SORTING_AF_INET, sin6_addr = replicate 16 0 \<rparr>,
     user_data = u, source_addr = zero_address, source_addr_exists = False, original_index = 0 \<rparr>"


text \<open>
  Without the restriction to plain addresses the comparison function is no order. An IPv4-mapped
  IPv6 destination and an IPv4 destination have the same precedence, label and scope; rule 9 compares
  the prefixes of two mapped destinations, but a mapped and an IPv4 destination are compared by their
  input position only. So three reachable destinations can each precede the next, cyclically, and
  the call of \<^verbatim>\<open>qsort\<close> is outside its contract.
\<close>

definition mapped_sortable :: "u8 \<Rightarrow> nat \<Rightarrow> address_sorting_sortable" where
  "mapped_sortable b i =
     \<lparr> dest_addr = \<lparr> family = ADDRESS_SORTING_AF_INET6, sin6_addr = [0, 0, 0, 0, 0, 0, 0, 0, 0, 0, 0xff, 0xff, b, 0, 0, 1] \<rparr>,
       user_data = 0,
       source_addr = \<lparr> family = ADDRESS_SORTING_AF_INET6, sin6_addr = [0, 0, 0, 0, 0, 0, 0, 0, 0, 0, 0xff, 0xff, 10, 0, 0, 2] \<rparr>,
       source_addr_exists = True, original_index = of_nat i \<rparr>"

definition plain4_sortable :: "nat \<Rightarrow> address_sorting_sortable" where
  "plain4_sortable i =
     \<lparr> dest_addr = \<lparr> family = ADDRESS_SORTING_AF_INET, sin6_addr = replicate 16 0 \<rparr>, user_data = 0,
       source_addr = \<lparr> family = ADDRESS_SORTING_AF_INET, sin6_addr = replicate 16 0 \<rparr>,
       source_addr_exists = True, original_index = of_nat i \<rparr>"

lemma ucast_minus_one: "(ucast (- 1 :: u64) :: u32) = - 1"
  by (rule bit_eqI) (simp add: bit_simps)

lemmas compare_evaluation =
  rfc_6724_compare_def compare_source_addr_exists_def compare_source_dest_scope_matches_def
  compare_source_dest_labels_match_def compare_dest_precedence_def compare_dest_scope_def
  compare_source_dest_prefix_match_lengths_def address_sorting_abstract_get_family_def
  get_label_value_def get_precedence_value_def sockaddr_get_scope_def in6_is_addr_loopback_def
  in6_is_addr_v4mapped_def in6_is_addr_linklocal_def in6_is_addr_sitelocal_def bits32_def
  ipv6_prefix_match_length_def ucast_minus_one

text \<open>
  C40. \<^verbatim>\<open>rfc_6724_compare\<close> is no comparison function when v4-mapped destinations occur: it orders two
  v4-mapped destinations and a plain IPv4 one in a cycle, so \<^verbatim>\<open>qsort\<close> is called outside its contract.\<close>

theorem rfc_6724_compare_cyclic:
  "rfc_6724_compare (mapped_sortable 200 0) (plain4_sortable 1) < 0
   \<and> rfc_6724_compare (plain4_sortable 1) (mapped_sortable 10 2) < 0
   \<and> rfc_6724_compare (mapped_sortable 10 2) (mapped_sortable 200 0) < 0"
proof (intro conjI)
  show "rfc_6724_compare (mapped_sortable 200 0) (plain4_sortable 1) < 0"
    by (simp add: compare_evaluation mapped_sortable_def plain4_sortable_def)
  show "rfc_6724_compare (plain4_sortable 1) (mapped_sortable 10 2) < 0"
    by (simp add: compare_evaluation mapped_sortable_def plain4_sortable_def)
  have "ipv6_prefix_loop [0, 0, 0, 0, 0, 0, 0, 0, 0, 0, 0xff, 0xff, 10, 0, 0, 2]
      [0, 0, 0, 0, 0, 0, 0, 0, 0, 0, 0xff, 0xff, 10, 0, 0, 1] 0 = 126"
    by (simp add: ipv6_prefix_loop.simps)
  moreover have "ipv6_prefix_loop [0, 0, 0, 0, 0, 0, 0, 0, 0, 0, 0xff, 0xff, 10, 0, 0, 2]
      [0, 0, 0, 0, 0, 0, 0, 0, 0, 0, 0xff, 0xff, 200, 0, 0, 1] 0 = 96"
    by (simp add: ipv6_prefix_loop.simps)
  ultimately show "rfc_6724_compare (mapped_sortable 10 2) (mapped_sortable 200 0) < 0"
    by (simp add: compare_evaluation mapped_sortable_def)
qed

text \<open>
  C29. Rule 9: \<^verbatim>\<open>ipv6_prefix_match_length\<close> is the number of leading bits two addresses share, 128 when
  they are equal.
\<close>

theorem prefix_match_length_correct:
  "ipv6_prefix_match_length sa sb =
     int (LEAST n. \<not> (n < 128 \<and> addr_bit (sin6_addr sa) n = addr_bit (sin6_addr sb) n))"
proof -
  let ?n = "ipv6_prefix_loop (sin6_addr sa) (sin6_addr sb) 0"
  have "(LEAST n. \<not> (n < 128 \<and> addr_bit (sin6_addr sa) n = addr_bit (sin6_addr sb) n)) = ?n"
    using ipv6_prefix_loop_spec [of 0 "sin6_addr sa" "sin6_addr sb"]
    by (intro Least_equality) (auto simp: not_less [symmetric] order.order_iff_strict)
  then show ?thesis by (simp add: ipv6_prefix_match_length_def)
qed

end
