(* ===== verification/Hash_Table.thy ===== *)
theory Hash_Table
  imports Upb_Prelude "HOL-Library.Multiset"
begin

unbundle bit_operations_syntax

text \<open>
  The hash table of \<^verbatim>\<open>upb/hash/common.c\<close> that string and integer tables share: a chained scatter table
  with Brent's variation, in which all entries live in one array and a new key evicts an entry that
  is not in its main position. An entry pointer is an index into the entry array, \<^verbatim>\<open>NULL\<close> is \<open>None\<close>;
  the key word \<open>0\<close>, which marks an empty entry, is \<open>None\<close> as well. The functions are parameterised by
  the hash of a key, as the C functions are by their \<^verbatim>\<open>hashfunc\<close> argument; \<open>Fault\<close> is a read outside
  the array or a failed assertion. Loops over \<^verbatim>\<open>next\<close> carry the number of entries as fuel; the lemmas
  show that on well-formed tables it suffices.
\<close>

section \<open>Definitions\<close>

record 'k upb_tabent =
  key :: "'k option"
  val :: u64
  nxt :: "nat option"

record 'k upb_table =
  tab_count :: nat
  tab_mask :: u32
  max_count :: nat
  size_lg2 :: nat
  entries :: "'k upb_tabent list"

definition upb_table_size :: "'k upb_table \<Rightarrow> nat" where
  "upb_table_size t = (if size_lg2 t \<noteq> 0 then 2 ^ size_lg2 t else 0)"

definition upb_tabent_isempty :: "'k upb_tabent \<Rightarrow> bool" where
  "upb_tabent_isempty e \<longleftrightarrow> key e = None"

definition upb_getentry :: "'k upb_table \<Rightarrow> u32 \<Rightarrow> nat" where
  "upb_getentry t hash = unat (hash AND tab_mask t)"

definition isfull :: "'k upb_table \<Rightarrow> bool" where
  "isfull t \<longleftrightarrow> tab_count t = max_count t"

text \<open>
  \<^verbatim>\<open>init\<close>: \<^verbatim>\<open>max_count\<close> is the size times the double 0.85, truncated; for powers of two below \<open>2 ^ 32\<close>
  this is the exact integer division. Allocation goes to the arena, a parameter with a state of its
  own; \<open>None\<close> is a failed allocation.
\<close>

type_synonym 'a alloc = "'a \<Rightarrow> nat \<Rightarrow> 'a option"

definition empty_ent :: "'k upb_tabent" where
  "empty_ent = \<lparr> key = None, val = 0, nxt = None \<rparr>"

definition new_table :: "nat \<Rightarrow> 'k upb_table" where
  "new_table lg2 =
     (let size = (if lg2 \<noteq> 0 then 2 ^ lg2 else 0) in
      \<lparr> tab_count = 0, tab_mask = (if size \<noteq> 0 then of_nat (size - 1) else 0), max_count = size * 85 div 100,
        size_lg2 = lg2, entries = replicate size empty_ent \<rparr>)"

definition init_table :: "'a alloc \<Rightarrow> nat \<Rightarrow> 'a \<Rightarrow> ('k upb_table \<times> 'a) option" where
  "init_table malloc lg2 a =
     (let bytes = length (entries (new_table lg2 :: 'k upb_table)) * 24 in
      if bytes > 0 then map_option (\<lambda>a'. (new_table lg2, a')) (malloc a bytes)
      else Some (new_table lg2, a))"

definition emptyent :: "'k upb_table \<Rightarrow> nat \<Rightarrow> (unit, nat) res" where
  "emptyent t e =
     (case find (\<lambda>i. upb_tabent_isempty (entries t ! i))
             ([e + 1 ..< length (entries t)] @ [0 ..< length (entries t)]) of
        Some i \<Rightarrow> Ret i | None \<Rightarrow> Fault)"

fun find_loop :: "'k upb_tabent list \<Rightarrow> nat \<Rightarrow> nat \<Rightarrow> 'k \<Rightarrow> (unit, nat option) res" where
  "find_loop es 0 e k = Fault"
| "find_loop es (Suc fuel) e k =
     bindR (rd es e) (\<lambda>ent.
       if key ent = Some k then Ret (Some e)
       else case nxt ent of None \<Rightarrow> Ret None | Some e' \<Rightarrow> find_loop es fuel e' k)"

definition findentry :: "'k upb_table \<Rightarrow> 'k \<Rightarrow> u32 \<Rightarrow> (unit, nat option) res" where
  "findentry t k hash =
     (if size_lg2 t = 0 then Ret None
      else let e = upb_getentry t hash in
        bindR (rd (entries t) e) (\<lambda>ent.
          if upb_tabent_isempty ent then Ret None
          else find_loop (entries t) (length (entries t)) e k))"

definition lookup_tab :: "'k upb_table \<Rightarrow> 'k \<Rightarrow> u32 \<Rightarrow> (unit, u64 option) res" where
  "lookup_tab t k hash =
     bindR (findentry t k hash) (\<lambda>r.
       case r of None \<Rightarrow> Ret None | Some e \<Rightarrow> Ret (Some (val (entries t ! e))))"

text \<open>\<^verbatim>\<open>while (chain->next != mainpos_e) { chain = chain->next; UPB_ASSERT(chain); }\<close>\<close>

fun prev_loop :: "'k upb_tabent list \<Rightarrow> nat \<Rightarrow> nat \<Rightarrow> nat \<Rightarrow> (unit, nat) res" where
  "prev_loop es 0 chain target = Fault"
| "prev_loop es (Suc fuel) chain target =
     bindR (rd es chain) (\<lambda>ent.
       if nxt ent = Some target then Ret chain
       else case nxt ent of None \<Rightarrow> Fault | Some c \<Rightarrow> prev_loop es fuel c target)"

text \<open>The end of \<^verbatim>\<open>insert\<close>: key and value are written to \<open>our_e\<close>, and the entry is found again.\<close>

definition insert_finish ::
  "'k upb_table \<Rightarrow> 'k upb_tabent list \<Rightarrow> nat \<Rightarrow> 'k \<Rightarrow> u64 \<Rightarrow> u32 \<Rightarrow> (unit, 'k upb_table) res" where
  "insert_finish t es our_e k v hash =
     (let t' = t\<lparr>entries := es[our_e := (es ! our_e)\<lparr>key := Some k, val := v\<rparr>]\<rparr> in
      bindR (findentry t' k hash) (\<lambda>r. if r = Some our_e then Ret t' else Fault))"

definition insert_tab :: "('k \<Rightarrow> u32) \<Rightarrow> 'k upb_table \<Rightarrow> 'k \<Rightarrow> u64 \<Rightarrow> (unit, 'k upb_table) res" where
  "insert_tab hashfunc t0 k v =
     (let hash = hashfunc k in
      bindR (findentry t0 k hash) (\<lambda>r.
        if r \<noteq> None then Fault
        else
          let t = t0\<lparr>tab_count := tab_count t0 + 1\<rparr>;
              es = entries t;
              mainpos_e = upb_getentry t hash
          in bindR (rd es mainpos_e) (\<lambda>main.
            case key main of
              None \<Rightarrow> insert_finish t (es[mainpos_e := main\<lparr>nxt := None\<rparr>]) mainpos_e k v hash
            | Some main_key \<Rightarrow>
                bindR (emptyent t mainpos_e) (\<lambda>new_e.
                  let chain = upb_getentry t (hashfunc main_key) in
                  if chain = mainpos_e then
                    insert_finish t
                      (es[new_e := (es ! new_e)\<lparr>nxt := nxt main\<rparr>, mainpos_e := main\<lparr>nxt := Some new_e\<rparr>])
                      new_e k v hash
                  else
                    let es1 = es[new_e := main] in
                    bindR (prev_loop es1 (length es1) chain mainpos_e) (\<lambda>c.
                      let es2 = es1[c := (es1 ! c)\<lparr>nxt := Some new_e\<rparr>];
                          es3 = es2[mainpos_e := (es2 ! mainpos_e)\<lparr>nxt := None\<rparr>]
                      in insert_finish t es3 mainpos_e k v hash)))))"

text \<open>
  \<^verbatim>\<open>rm\<close>: the table and the removed value, if any. There is no test for a table without entries, as
  \<^verbatim>\<open>findentry\<close> has one: there, the first read is of a null pointer.
\<close>

fun rm_loop :: "'k upb_tabent list \<Rightarrow> nat \<Rightarrow> nat \<Rightarrow> 'k \<Rightarrow> (unit, nat) res" where
  "rm_loop es 0 chain k = Fault"
| "rm_loop es (Suc fuel) chain k =
     bindR (rd es chain) (\<lambda>ent.
       case nxt ent of
         None \<Rightarrow> Ret chain
       | Some c \<Rightarrow> bindR (rd es c) (\<lambda>nent. if key nent = Some k then Ret chain else rm_loop es fuel c k))"

definition rm_tab :: "'k upb_table \<Rightarrow> 'k \<Rightarrow> u32 \<Rightarrow> (unit, 'k upb_table \<times> u64 option) res" where
  "rm_tab t k hash =
     (let es = entries t; chain = upb_getentry t hash in
      bindR (rd es chain) (\<lambda>head.
        if upb_tabent_isempty head then Ret (t, None)
        else if key head = Some k then
          (case nxt head of
             Some move \<Rightarrow>
               bindR (rd es move) (\<lambda>moved.
                 Ret (t\<lparr>tab_count := tab_count t - 1,
                        entries := es[chain := moved, move := moved\<lparr>key := None\<rparr>]\<rparr>, Some (val head)))
           | None \<Rightarrow>
               Ret (t\<lparr>tab_count := tab_count t - 1, entries := es[chain := head\<lparr>key := None\<rparr>]\<rparr>, Some (val head)))
        else
          bindR (rm_loop es (length es) chain k) (\<lambda>c.
            case nxt (es ! c) of
              Some r \<Rightarrow>
                (let es1 = es[r := (es ! r)\<lparr>key := None\<rparr>];
                     es2 = es1[c := (es1 ! c)\<lparr>nxt := nxt (es1 ! r)\<rparr>]
                 in Ret (t\<lparr>tab_count := tab_count t - 1, entries := es2\<rparr>, Some (val (es ! r))))
            | None \<Rightarrow> Ret (t, None))))"

text \<open>\<^verbatim>\<open>next\<close> and \<^verbatim>\<open>begin\<close>: the first occupied entry after position \<open>i\<close>; \<open>None\<close> stands for \<^verbatim>\<open>SIZE_MAX - 1\<close>.\<close>

definition next_tab :: "'k upb_table \<Rightarrow> int \<Rightarrow> nat option" where
  "next_tab t i =
     find (\<lambda>j. \<not> upb_tabent_isempty (entries t ! j)) [nat (i + 1) ..< length (entries t)]"

definition begin_tab :: "'k upb_table \<Rightarrow> nat option" where
  "begin_tab t = next_tab t (- 1)"

section \<open>Chains\<close>

text \<open>The entries \<open>ps\<close> are linked one after the other, the last one to \<open>z\<close>.\<close>

fun seg :: "'k upb_tabent list \<Rightarrow> nat list \<Rightarrow> nat option \<Rightarrow> bool" where
  "seg es [] z \<longleftrightarrow> True"
| "seg es (p # ps) z \<longleftrightarrow> nxt (es ! p) = (case ps of [] \<Rightarrow> z | q # _ \<Rightarrow> Some q) \<and> seg es ps z"

lemma seg_append:
  "seg es (xs @ ys) z \<longleftrightarrow> seg es xs (case ys of [] \<Rightarrow> z | q # _ \<Rightarrow> Some q) \<and> seg es ys z"
  by (induction xs) (auto split: list.splits)

lemma seg_frame: "(\<And>p. p \<in> set ps \<Longrightarrow> nxt (es' ! p) = nxt (es ! p)) \<Longrightarrow> seg es' ps z = seg es ps z"
  by (induction ps) auto

text \<open>The chain of main position \<open>p\<close>: its head is at \<open>p\<close>, and all its keys belong there.\<close>

definition chain_ok :: "'k upb_tabent list \<Rightarrow> ('k \<Rightarrow> nat) \<Rightarrow> nat \<Rightarrow> nat list \<Rightarrow> bool" where
  "chain_ok es mp p ps \<longleftrightarrow>
     distinct ps \<and> seg es ps None \<and> (ps \<noteq> [] \<longrightarrow> hd ps = p)
     \<and> (\<forall>i \<in> set ps. i < length es \<and> (\<exists>k. key (es ! i) = Some k \<and> mp k = p))"

definition chains_ok :: "'k upb_tabent list \<Rightarrow> ('k \<Rightarrow> nat) \<Rightarrow> (nat \<Rightarrow> nat list) \<Rightarrow> bool" where
  "chains_ok es mp ch \<longleftrightarrow>
     (\<forall>p. chain_ok es mp p (ch p))
     \<and> (\<forall>i k. i < length es \<longrightarrow> key (es ! i) = Some k \<longrightarrow> i \<in> set (ch (mp k)))"

text \<open>No key occurs twice.\<close>

definition keys_distinct :: "'k upb_tabent list \<Rightarrow> bool" where
  "keys_distinct es \<longleftrightarrow> distinct (List.map_filter key es)"

text \<open>The finite map a table stands for.\<close>

definition ent_map :: "'k upb_tabent list \<Rightarrow> 'k \<Rightarrow> u64 option" where
  "ent_map es k = map_option (\<lambda>i. val (es ! i)) (find (\<lambda>i. key (es ! i) = Some k) [0 ..< length es])"

definition occupied :: "'k upb_tabent list \<Rightarrow> nat" where
  "occupied es = length (filter (\<lambda>e. key e \<noteq> None) es)"

definition table_map :: "'k upb_table \<Rightarrow> 'k \<Rightarrow> u64 option" where
  "table_map t = ent_map (entries t)"

definition main_pos :: "('k \<Rightarrow> u32) \<Rightarrow> 'k upb_table \<Rightarrow> 'k \<Rightarrow> nat" where
  "main_pos hashfunc t k = upb_getentry t (hashfunc k)"

definition table_shape :: "'k upb_table \<Rightarrow> bool" where
  "table_shape t \<longleftrightarrow>
     size_lg2 t \<le> 31 \<and> length (entries t) = upb_table_size t
     \<and> tab_mask t = of_nat (upb_table_size t - 1) \<and> max_count t = upb_table_size t * 85 div 100
     \<and> tab_count t = occupied (entries t)"

definition table_inv :: "('k \<Rightarrow> u32) \<Rightarrow> 'k upb_table \<Rightarrow> bool" where
  "table_inv hashfunc t \<longleftrightarrow>
     table_shape t \<and> keys_distinct (entries t) \<and> (\<exists>ch. chains_ok (entries t) (main_pos hashfunc t) ch)"

section \<open>Facts about chains\<close>

lemma chain_okD:
  assumes "chain_ok es mp p ps"
  shows "distinct ps" "seg es ps None" "ps \<noteq> [] \<Longrightarrow> hd ps = p" "set ps \<subseteq> {..< length es}"
    "\<And>i. i \<in> set ps \<Longrightarrow> \<exists>k. key (es ! i) = Some k \<and> mp k = p"
  using assms by (auto simp: chain_ok_def)

lemma chain_length: "chain_ok es mp p ps \<Longrightarrow> length ps \<le> length es"
  using chain_okD(1,4) [of es mp p ps] by (metis card_lessThan card_mono distinct_card finite_lessThan)

lemma chain_frame:
  assumes "chain_ok es mp p ps" and "length es' = length es"
    and "\<And>i. i \<in> set ps \<Longrightarrow> nxt (es' ! i) = nxt (es ! i) \<and> key (es' ! i) = key (es ! i)"
  shows "chain_ok es' mp p ps"
  using assms seg_frame [of ps es' es None] by (auto simp: chain_ok_def)

lemma chains_okD:
  assumes "chains_ok es mp ch"
  shows "chain_ok es mp p (ch p)"
    "i < length es \<Longrightarrow> key (es ! i) = Some k \<Longrightarrow> i \<in> set (ch (mp k))"
  using assms by (auto simp: chains_ok_def)

lemma chain_key:
  assumes "chains_ok es mp ch" and "i \<in> set (ch p)"
  shows "\<exists>k. key (es ! i) = Some k \<and> mp k = p" "i < length es"
  using chain_okD(4,5) [OF chains_okD(1) [OF assms(1)]] assms(2) by auto

lemma chain_empty_slot: "chains_ok es mp ch \<Longrightarrow> key (es ! i) = None \<Longrightarrow> i \<notin> set (ch p)"
  using chain_key [of es mp ch i p] by auto

lemma chain_other: "chains_ok es mp ch \<Longrightarrow> key (es ! i) = Some k \<Longrightarrow> mp k \<noteq> p \<Longrightarrow> i \<notin> set (ch p)"
  using chain_key [of es mp ch i p] by auto

lemma chain_head:
  assumes "chains_ok es mp ch" and "ch p \<noteq> []"
  shows "\<exists>qs. ch p = p # qs"
  using chain_okD(3) [OF chains_okD(1) [OF assms(1)], of p] assms(2) by (cases "ch p") auto

text \<open>The chain of a position whose slot is empty or taken by a foreign key is empty.\<close>

lemma chain_nil:
  assumes "chains_ok es mp ch" and "key (es ! p) = None \<or> (\<exists>k. key (es ! p) = Some k \<and> mp k \<noteq> p)"
  shows "ch p = []"
proof (rule ccontr)
  assume "ch p \<noteq> []"
  then have "p \<in> set (ch p)" using chain_head [OF assms(1)] by force
  with chain_key [OF assms(1) this] assms(2) show False by auto
qed

section \<open>Searching\<close>

lemma find_loop_seg:
  assumes "seg es ps None" and "set ps \<subseteq> {..< length es}" and "ps = e # qs" and "length ps \<le> fuel"
  shows "find_loop es fuel e k = Ret (find (\<lambda>i. key (es ! i) = Some k) ps)"
  using assms
proof (induction ps arbitrary: e qs fuel)
  case (Cons p ps)
  then obtain f where f: "fuel = Suc f" by (cases fuel) auto
  show ?case
  proof (cases ps)
    case Nil
    with Cons.prems f show ?thesis by auto
  next
    case (Cons q rs)
    with Cons.prems f have "find_loop es f q k = Ret (find (\<lambda>i. key (es ! i) = Some k) ps)"
      by (intro Cons.IH [of q rs]) auto
    with Cons Cons.prems f show ?thesis by auto
  qed
qed simp

text \<open>From any occupied slot the loop reaches the end of the chain the slot is on.\<close>

lemma occupied_on_chain:
  assumes "chains_ok es mp ch" and "e < length es" and "key (es ! e) = Some k'"
  obtains xs ys where "ch (mp k') = xs @ e # ys"
  using chains_okD(2) [OF assms] by (metis in_set_conv_decomp)

lemma findentry_loop:
  assumes "chains_ok es mp ch" and "e < length es" and "key (es ! e) = Some k'"
  shows "\<exists>ys. find_loop es (length es) e k = Ret (find (\<lambda>i. key (es ! i) = Some k) (e # ys))
    \<and> set (e # ys) \<subseteq> set (ch (mp k')) \<and> (e = mp k' \<longrightarrow> e # ys = ch (mp k'))"
proof -
  from occupied_on_chain [OF assms] obtain xs ys where c: "ch (mp k') = xs @ e # ys" .
  note ok = chains_okD(1) [OF assms(1), of "mp k'"]
  have seg: "seg es (e # ys) None" using chain_okD(2) [OF ok] unfolding c seg_append by simp
  have "find_loop es (length es) e k = Ret (find (\<lambda>i. key (es ! i) = Some k) (e # ys))"
    using chain_okD(4) [OF ok] chain_length [OF ok] by (intro find_loop_seg [OF seg _ refl]) (auto simp: c)
  moreover have "xs = []" if "e = mp k'"
    using chain_okD(1,3) [OF ok] that by (cases xs) (auto simp: c)
  ultimately show ?thesis using c by (intro exI [of _ ys]) auto
qed

lemma upb_getentry_less:
  assumes "table_shape t" and "size_lg2 t \<noteq> 0"
  shows "upb_getentry t h < length (entries t)"
proof -
  have len: "length (entries t) = 2 ^ size_lg2 t" and m: "tab_mask t = of_nat (2 ^ size_lg2 t - 1)" and lg: "size_lg2 t \<le> 31"
    using assms by (auto simp: table_shape_def upb_table_size_def)
  have "(2::nat) ^ size_lg2 t \<le> 2 ^ 31" using lg by (intro power_increasing) auto
  then have "unat (tab_mask t) = 2 ^ size_lg2 t - 1"
    unfolding m by (intro unat_of_nat_small) simp
  moreover have "unat (h AND tab_mask t) \<le> unat (tab_mask t)" by (simp add: word_le_nat_alt [symmetric] word_and_le1)
  moreover have "0 < (2::nat) ^ size_lg2 t" by simp
  ultimately show ?thesis unfolding upb_getentry_def len by linarith
qed

lemma in_keys: "k \<in> set (List.map_filter key es) \<longleftrightarrow> (\<exists>i < length es. key (es ! i) = Some k)"
proof
  assume "k \<in> set (List.map_filter key es)"
  then obtain e where "e \<in> set es" "key e = Some k" by (auto simp: List.map_filter_def)
  then show "\<exists>i < length es. key (es ! i) = Some k" by (metis in_set_conv_nth)
next
  assume "\<exists>i < length es. key (es ! i) = Some k"
  then obtain i where i: "i < length es" "key (es ! i) = Some k" by blast
  have "key (es ! i) \<in> key ` set es" using i(1) by simp
  with i(2) show "k \<in> set (List.map_filter key es)" by (force simp: List.map_filter_def)
qed

lemma keys_distinctD:
  "keys_distinct es \<Longrightarrow> i < length es \<Longrightarrow> j < length es \<Longrightarrow> key (es ! i) = Some k \<Longrightarrow> key (es ! j) = Some k \<Longrightarrow> i = j"
proof (induction es arbitrary: i j)
  case (Cons e es)
  have sub: "keys_distinct es"
    using Cons.prems(1) by (cases "key e") (simp_all add: keys_distinct_def List.map_filter_simps)
  have no: False if "key e = Some k" "n < length es" "key (es ! n) = Some k" for n
    using Cons.prems(1) that in_keys [of k es] by (auto simp: keys_distinct_def List.map_filter_simps)
  from Cons.IH [OF sub] Cons.prems no show ?case by (cases i; cases j) auto
qed simp

lemma ent_map_None: "ent_map es k = None \<longleftrightarrow> (\<forall>i < length es. key (es ! i) \<noteq> Some k)"
  by (auto simp: ent_map_def find_None_iff)

lemma ent_map_Some:
  assumes "keys_distinct es" and "i < length es" and "key (es ! i) = Some k"
  shows "ent_map es k = Some (val (es ! i))"
proof -
  have ne: "key (es ! j) \<noteq> Some k" if "j < i" for j
    using keys_distinctD [OF assms(1), of j i k] that assms(2,3) by auto
  with assms(2,3) have "find (\<lambda>j. key (es ! j) = Some k) [0 ..< length es] = Some i"
    by (auto simp: find_Some_iff intro!: exI [of _ i])
  then show ?thesis by (simp add: ent_map_def)
qed

lemma ent_map_eq_Some:
  assumes "keys_distinct es"
  shows "ent_map es k = Some v \<longleftrightarrow> (\<exists>i < length es. key (es ! i) = Some k \<and> val (es ! i) = v)"
proof
  assume "ent_map es k = Some v"
  then obtain i where "i < length es" "key (es ! i) = Some k" using ent_map_None [of es k] by auto
  with ent_map_Some [OF assms this] \<open>ent_map es k = Some v\<close>
  show "\<exists>i < length es. key (es ! i) = Some k \<and> val (es ! i) = v" by auto
qed (auto simp: ent_map_Some [OF assms])

text \<open>\<^verbatim>\<open>findentry\<close> finds the entry of a key exactly when there is one.\<close>

lemma findentry_spec:
  assumes "table_inv hf t"
  shows "\<exists>r. findentry t k (hf k) = Ret r
    \<and> (case r of None \<Rightarrow> (\<forall>i < length (entries t). key (entries t ! i) \<noteq> Some k)
        | Some e \<Rightarrow> e < length (entries t) \<and> key (entries t ! e) = Some k)"
proof (cases "size_lg2 t = 0")
  case True
  with assms show ?thesis by (simp add: findentry_def table_inv_def table_shape_def upb_table_size_def)
next
  case False
  let ?es = "entries t" and ?e = "upb_getentry t (hf k)"
  from assms obtain ch where ch: "chains_ok ?es (main_pos hf t) ch" and sh: "table_shape t"
    by (auto simp: table_inv_def)
  have e: "?e < length ?es" by (rule upb_getentry_less [OF sh False])
  have mp: "main_pos hf t k = ?e" by (simp add: main_pos_def)
  have absent: "key (?es ! i) \<noteq> Some k" if "i < length ?es" "i \<notin> set (ch ?e)" for i
    using chains_okD(2) [OF ch that(1), of k] that(2) mp by auto
  show ?thesis
  proof (cases "key (?es ! ?e)")
    case None
    then have "ch ?e = []" using chain_nil [OF ch] by blast
    with None e False absent show ?thesis by (simp add: findentry_def upb_tabent_isempty_def)
  next
    case (Some k')
    obtain ys where ys: "find_loop ?es (length ?es) ?e k = Ret (find (\<lambda>i. key (?es ! i) = Some k) (?e # ys))"
      "set (?e # ys) \<subseteq> set (ch (main_pos hf t k'))" "?e = main_pos hf t k' \<longrightarrow> ?e # ys = ch (main_pos hf t k')"
      using findentry_loop [OF ch e Some] by blast
    have step: "findentry t k (hf k) = Ret (find (\<lambda>i. key (?es ! i) = Some k) (?e # ys))"
      using False e Some ys(1) by (simp add: findentry_def upb_tabent_isempty_def)
    have lt: "i < length ?es" if "i \<in> set (?e # ys)" for i using chain_key(2) [OF ch] ys(2) that by blast
    have "key (?es ! i) \<noteq> Some k"
      if none: "find (\<lambda>i. key (?es ! i) = Some k) (?e # ys) = None" and i: "i < length ?es" for i
    proof (cases "main_pos hf t k' = ?e")
      case True
      then have chain: "?e # ys = ch ?e" using ys(3) by simp
      have "\<forall>i \<in> set (ch ?e). key (?es ! i) \<noteq> Some k" using none unfolding find_None_iff chain by blast
      with absent [OF i] show ?thesis by blast
    next
      case False
      with Some have "ch ?e = []" using chain_nil [OF ch] by blast
      with absent [OF i] show ?thesis by simp
    qed
    moreover have "i < length ?es \<and> key (?es ! i) = Some k"
      if "find (\<lambda>i. key (?es ! i) = Some k) (?e # ys) = Some i" for i
      using find_Some_in [OF that] lt by blast
    ultimately show ?thesis
      by (cases "find (\<lambda>i. key (?es ! i) = Some k) (?e # ys)") (simp_all only: step res.inject option.case ex_simps simp_thms, simp_all)
  qed
qed

lemma findentry_present:
  assumes "table_inv hf t" and "i < length (entries t)" and "key (entries t ! i) = Some k"
  shows "findentry t k (hf k) = Ret (Some i)"
proof -
  obtain r where r: "findentry t k (hf k) = Ret r"
    "case r of None \<Rightarrow> (\<forall>i < length (entries t). key (entries t ! i) \<noteq> Some k)
        | Some e \<Rightarrow> e < length (entries t) \<and> key (entries t ! e) = Some k"
    using findentry_spec [OF assms(1), of k] by blast
  then obtain e where e: "r = Some e" "e < length (entries t)" "key (entries t ! e) = Some k"
    using assms(2,3) by (cases r) auto
  have "keys_distinct (entries t)" using assms(1) by (simp add: table_inv_def)
  from keys_distinctD [OF this e(2) assms(2) e(3) assms(3)] r(1) e(1) show ?thesis by simp
qed

lemma findentry_absent:
  assumes "table_inv hf t" and "ent_map (entries t) k = None"
  shows "findentry t k (hf k) = Ret None"
  using findentry_spec [OF assms(1), of k] assms(2) by (auto simp: ent_map_None split: option.splits)

section \<open>The contents as a multiset\<close>

definition kv :: "'k upb_tabent \<Rightarrow> ('k \<times> u64) multiset" where
  "kv e = (case key e of None \<Rightarrow> {#} | Some k \<Rightarrow> {# (k, val e) #})"

definition kvs :: "'k upb_tabent list \<Rightarrow> ('k \<times> u64) multiset" where
  "kvs es = sum_list (map kv es)"

lemma kvs_update: "i < length es \<Longrightarrow> kvs (es[i := x]) + kv (es ! i) = kvs es + kv x"
proof (induction es arbitrary: i)
  case (Cons e es)
  then show ?case by (cases i) (auto simp: kvs_def ac_simps)
qed simp

lemma kvs_keys: "image_mset fst (kvs es) = mset (List.map_filter key es)"
  by (induction es) (auto simp: kvs_def kv_def List.map_filter_simps split: option.split)

lemma kvs_occupied: "size (kvs es) = occupied es"
  by (induction es) (auto simp: kvs_def kv_def occupied_def split: option.split)

lemma kvs_mem: "(k, v) \<in># kvs es \<longleftrightarrow> (\<exists>i < length es. key (es ! i) = Some k \<and> val (es ! i) = v)"
proof (induction es)
  case (Cons e es)
  have "(k, v) \<in># kvs (e # es) \<longleftrightarrow> key e = Some k \<and> val e = v \<or> (k, v) \<in># kvs es"
    by (auto simp: kvs_def kv_def split: option.splits)
  with Cons show ?case by (auto simp: less_Suc_eq_0_disj)
qed (simp add: kvs_def)

lemma ent_map_kvs: "keys_distinct es \<Longrightarrow> ent_map es k = Some v \<longleftrightarrow> (k, v) \<in># kvs es"
  by (simp add: ent_map_eq_Some kvs_mem)

lemma ent_map_dom: "ent_map es k = None \<longleftrightarrow> k \<notin># image_mset fst (kvs es)"
  unfolding kvs_keys set_mset_mset in_keys ent_map_None by blast

text \<open>Adding one pair with a new key, and taking one away.\<close>

lemma contents_add:
  assumes "keys_distinct es" and "ent_map es k = None" and "kvs es' = add_mset (k, v) (kvs es)"
  shows "keys_distinct es'" and "ent_map es' = (ent_map es)(k \<mapsto> v)" and "occupied es' = occupied es + 1"
proof -
  have "mset (List.map_filter key es') = mset (k # List.map_filter key es)"
    using assms(3) kvs_keys [of es'] kvs_keys [of es] by simp
  moreover have "distinct (k # List.map_filter key es)"
    using assms(1,2) by (simp add: keys_distinct_def ent_map_dom kvs_keys)
  ultimately show kd: "keys_distinct es'" unfolding keys_distinct_def by (metis mset_eq_imp_distinct_iff)
  show "ent_map es' = (ent_map es)(k \<mapsto> v)"
  proof (rule ext, rule option.expand)
    fix j
    have dom: "ent_map es' j = None \<longleftrightarrow> j \<noteq> k \<and> ent_map es j = None" by (auto simp: ent_map_dom assms(3))
    then show "(ent_map es' j = None) = (((ent_map es)(k \<mapsto> v)) j = None)" by simp
    assume "ent_map es' j \<noteq> None"
    then obtain w where w: "ent_map es' j = Some w" by blast
    then have "(j, w) \<in># kvs es'" using ent_map_kvs [OF kd] by blast
    then consider "j = k" "w = v" | "(j, w) \<in># kvs es" using assms(3) by auto
    then show "the (ent_map es' j) = the (((ent_map es)(k \<mapsto> v)) j)"
      using w ent_map_kvs [OF assms(1), of j w] assms(2) by cases auto
  qed
  show "occupied es' = occupied es + 1" using assms(3) by (simp add: kvs_occupied [symmetric])
qed

lemma contents_remove:
  assumes "keys_distinct es" and "kvs es = add_mset (k, v) (kvs es')"
  shows "keys_distinct es'" and "ent_map es' = (ent_map es)(k := None)" and "ent_map es k = Some v"
    and "occupied es = occupied es' + 1"
proof -
  have "mset (List.map_filter key es) = mset (k # List.map_filter key es')"
    using assms(2) kvs_keys [of es'] kvs_keys [of es] by simp
  then have d: "distinct (k # List.map_filter key es')"
    using assms(1) unfolding keys_distinct_def by (metis mset_eq_imp_distinct_iff)
  then show kd: "keys_distinct es'" by (simp add: keys_distinct_def)
  have none: "ent_map es' k = None" using d by (simp add: ent_map_dom kvs_keys)
  from contents_add(2) [OF kd none assms(2)] none show "ent_map es' = (ent_map es)(k := None)"
    by (simp add: fun_upd_idem)
  show "ent_map es k = Some v" using ent_map_kvs [OF assms(1), of k v] assms(2) by simp
  show "occupied es = occupied es' + 1" using assms(2) by (simp add: kvs_occupied [symmetric])
qed

section \<open>Changing chains\<close>

text \<open>A new key in its empty main position.\<close>

lemma chains_new_head:
  assumes ch: "chains_ok es mp ch" and m: "m < length es" "key (es ! m) = None"
    and x: "key x = Some k" "nxt x = None" "mp k = m"
  shows "chains_ok (es[m := x]) mp (ch(m := [m]))"
proof -
  have nil: "ch m = []" using chain_nil [OF ch] m(2) by blast
  have out: "m \<notin> set (ch p)" for p by (rule chain_empty_slot [OF ch m(2)])
  have "chain_ok (es[m := x]) mp p ((ch(m := [m])) p)" for p
  proof (cases "p = m")
    case True
    with m x show ?thesis by (simp add: chain_ok_def)
  next
    case False
    have "nxt (es[m := x] ! i) = nxt (es ! i) \<and> key (es[m := x] ! i) = key (es ! i)" if "i \<in> set (ch p)" for i
      using that out [of p] by (cases "i = m") auto
    with False show ?thesis using chain_frame [OF chains_okD(1) [OF ch, of p]] by simp
  qed
  moreover have "i \<in> set ((ch(m := [m])) (mp k'))" if "i < length (es[m := x])" "key (es[m := x] ! i) = Some k'" for i k'
  proof (cases "i = m")
    case True
    with that m x show ?thesis by simp
  next
    case False
    with that have "i \<in> set (ch (mp k'))" by (intro chains_okD(2) [OF ch]) auto
    with nil show ?thesis by auto
  qed
  ultimately show ?thesis unfolding chains_ok_def by blast
qed

text \<open>A key linked in behind the head of its chain, in the empty slot \<open>e\<close>.\<close>

lemma chains_link_second:
  assumes ch: "chains_ok es mp ch" and m: "m < length es" "key (es ! m) = Some k'" "mp k' = m"
    and e: "e < length es" "key (es ! e) = None"
    and x: "key x = Some k" "nxt x = nxt (es ! m)" "mp k = m"
    and y: "key y = Some k'" "nxt y = Some e"
  shows "\<exists>qs. chains_ok (es[m := y, e := x]) mp (ch(m := m # e # qs))"
proof -
  have "m \<in> set (ch m)" using chains_okD(2) [OF ch m(1,2)] m(3) by simp
  then obtain qs where qs: "ch m = m # qs" using chain_head [OF ch, of m] by fastforce
  have em: "e \<noteq> m" using e m by auto
  have eout: "e \<notin> set (ch p)" for p by (rule chain_empty_slot [OF ch e(2)])
  have mout: "m \<notin> set (ch p)" if "p \<noteq> m" for p using chain_other [OF ch m(2)] m(3) that by simp
  let ?es = "es[m := y, e := x]"
  have same: "?es ! i = es ! i" if "i \<noteq> m" "i \<noteq> e" for i using that by simp
  have at: "?es ! m = y" "?es ! e = x" using em m e by simp_all
  note ok = chains_okD(1) [OF ch, of m, unfolded qs]
  have "chain_ok ?es mp p ((ch(m := m # e # qs)) p)" for p
  proof (cases "p = m")
    case True
    have qsm: "i \<noteq> m \<and> i \<noteq> e" if "i \<in> set qs" for i
      using that chain_okD(1) [OF ok] eout [of m] qs by auto
    have seg: "seg es (m # qs) None" by (rule chain_okD(2) [OF ok])
    have "seg ?es qs None" using seg qsm seg_frame [of qs ?es es None] by (auto simp: same)
    then have "seg ?es (m # e # qs) None" using seg x(2) y(2) by (simp add: at split: list.splits)
    moreover have "distinct (m # e # qs)" using chain_okD(1) [OF ok] em qsm by auto
    moreover have "i < length ?es \<and> (\<exists>k. key (?es ! i) = Some k \<and> mp k = m)" if i: "i \<in> set (m # e # qs)" for i
    proof -
      consider "i = m" | "i = e" | "i \<in> set qs" using i by auto
      then show ?thesis
      proof cases
        case 3
        then have "i \<in> set (m # qs)" by simp
        with chain_okD(4,5) [OF ok] qsm [OF 3] show ?thesis by (auto simp: same)
      qed (use x y m e in \<open>auto simp: at\<close>)
    qed
    ultimately show ?thesis using True by (auto simp: chain_ok_def)
  next
    case False
    have "?es ! i = es ! i" if "i \<in> set (ch p)" for i
      using that eout [of p] mout [OF False] by (intro same) auto
    with False show ?thesis using chain_frame [OF chains_okD(1) [OF ch, of p]] by simp
  qed
  moreover have "i \<in> set ((ch(m := m # e # qs)) (mp k''))" if "i < length ?es" "key (?es ! i) = Some k''" for i k''
  proof (cases "i = m \<or> i = e")
    case True
    with that(2) x(1) y(1) have "k'' = k' \<or> k'' = k" by (auto simp: at)
    with m(3) x(3) True show ?thesis by auto
  next
    case False
    with that have "i \<in> set (ch (mp k''))" using chains_okD(2) [OF ch, of i k''] by (simp add: same)
    with False qs show ?thesis by auto
  qed
  ultimately show ?thesis unfolding chains_ok_def by blast
qed

text \<open>
  Eviction: the entry at \<open>m\<close>, on the chain of \<open>q\<close> behind \<open>c\<close>, moves to the empty slot \<open>e\<close>, and \<open>m\<close>
  becomes the head of a new chain.
\<close>

lemma chains_evict:
  assumes ch: "chains_ok es mp ch" and m: "m < length es" "key (es ! m) = Some k'" "mp k' = q" "q \<noteq> m"
    and e: "e < length es" "key (es ! e) = None"
    and cq: "ch q = xs @ c # m # ys"
    and x: "key x = Some k" "nxt x = None" "mp k = m"
    and y: "key y = key (es ! c)" "nxt y = Some e"
    and z: "key z = key (es ! m)" "nxt z = nxt (es ! m)"
  shows "chains_ok (es[e := z, c := y, m := x]) mp (ch(q := xs @ c # e # ys, m := [m]))"
proof -
  note ok = chains_okD(1) [OF ch, of q, unfolded cq]
  have nil: "ch m = []" using chain_nil [OF ch] m by blast
  have eout: "e \<notin> set (ch p)" for p by (rule chain_empty_slot [OF ch e(2)])
  have d: "distinct (xs @ c # m # ys)" by (rule chain_okD(1) [OF ok])
  have ne: "e \<noteq> m" "e \<noteq> c" "c \<noteq> m" using eout [of q] d cq by auto
  have c: "c < length es" using chain_okD(4) [OF ok] by auto
  obtain kc where kc: "key (es ! c) = Some kc" "mp kc = q" using chain_okD(5) [OF ok, of c] by auto
  let ?es = "es[e := z, c := y, m := x]"
  have same: "?es ! i = es ! i" if "i \<noteq> m" "i \<noteq> e" "i \<noteq> c" for i using that by simp
  have at: "?es ! m = x" "?es ! e = z" "?es ! c = y" using ne m e c by simp_all
  have rest: "i \<noteq> m \<and> i \<noteq> e \<and> i \<noteq> c" if "i \<in> set xs \<union> set ys" for i
    using that d eout [of q] cq by auto
  have seg: "seg es (xs @ c # m # ys) None" by (rule chain_okD(2) [OF ok])
  have "seg ?es xs (Some c)" "seg ?es ys None"
    using seg rest seg_frame [of xs ?es es "Some c"] seg_frame [of ys ?es es None]
    by (auto simp: seg_append same)
  moreover have "nxt z = (case ys of [] \<Rightarrow> None | q # _ \<Rightarrow> Some q)" using seg z(2) by (simp add: seg_append)
  ultimately have seg': "seg ?es (xs @ c # e # ys) None" using y(2) by (simp add: seg_append at)
  have "chain_ok ?es mp p ((ch(q := xs @ c # e # ys, m := [m])) p)" for p
  proof -
    consider "p = m" | "p = q" "p \<noteq> m" | "p \<noteq> q" "p \<noteq> m" by blast
    then show ?thesis
    proof cases
      case 1
      with m x show ?thesis by (simp add: chain_ok_def at)
    next
      case 2
      have "distinct (xs @ c # e # ys)" using d eout [of q] cq by auto
      moreover have "hd (xs @ c # e # ys) = q" using chain_okD(3) [OF ok] by (cases xs) auto
      moreover have "i < length ?es \<and> (\<exists>k. key (?es ! i) = Some k \<and> mp k = q)" if i: "i \<in> set (xs @ c # e # ys)" for i
      proof -
        consider "i = c" | "i = e" | "i \<in> set xs \<union> set ys" using i by auto
        then show ?thesis
        proof cases
          case 3
          then have "i \<in> set (xs @ c # m # ys)" by auto
          with chain_okD(4,5) [OF ok] rest [OF 3] show ?thesis by (auto simp: same)
        qed (use kc y z m e c in \<open>auto simp: at\<close>)
      qed
      ultimately show ?thesis using 2 seg' by (auto simp: chain_ok_def)
    next
      case 3
      have "i \<noteq> m \<and> i \<noteq> e \<and> i \<noteq> c" if "i \<in> set (ch p)" for i
        using that eout [of p] chain_other [OF ch m(2), of p] chain_other [OF ch kc(1), of p] m(3) kc(2) 3 by auto
      with 3 show ?thesis using chain_frame [OF chains_okD(1) [OF ch, of p]] by (simp add: same)
    qed
  qed
  moreover have "i \<in> set ((ch(q := xs @ c # e # ys, m := [m])) (mp k''))" if "i < length ?es" "key (?es ! i) = Some k''" for i k''
  proof -
    consider "i = m" | "i = c" | "i = e" | "i \<noteq> m \<and> i \<noteq> e \<and> i \<noteq> c" by blast
    then show ?thesis
    proof cases
      case 4
      with that have "i \<in> set (ch (mp k''))" using chains_okD(2) [OF ch, of i k''] by (simp add: same)
      with 4 nil cq show ?thesis by (cases "mp k'' = q") auto
    qed (use that x y z m kc in \<open>auto simp: at\<close>)
  qed
  ultimately show ?thesis unfolding chains_ok_def by blast
qed

lemma prev_loop_seg:
  assumes "seg es (xs @ c # m # ys) z" and "distinct (xs @ c # m # ys)" and "set (xs @ [c]) \<subseteq> {..< length es}"
    and "length xs < fuel"
  shows "prev_loop es fuel (hd (xs @ [c])) m = Ret c"
  using assms
proof (induction xs arbitrary: fuel)
  case Nil
  then show ?case by (cases fuel) auto
next
  case (Cons x xs)
  then obtain f where f: "fuel = Suc f" by (cases fuel) auto
  have IH: "prev_loop es f (hd (xs @ [c])) m = Ret c" using Cons.prems f by (intro Cons.IH) auto
  have "nxt (es ! x) = Some (hd (xs @ [c]))" using Cons.prems(1) by (cases xs) auto
  moreover have "hd (xs @ [c]) \<noteq> m" using Cons.prems(2) by (cases xs) auto
  ultimately show ?case using IH Cons.prems(3) f by simp
qed

section \<open>Insertion\<close>

lemma table_inv_update:
  assumes "table_inv hf t" and "length es' = length (entries t)" and "keys_distinct es'"
    and "chains_ok es' (main_pos hf t) ch'" and "occupied es' = n"
  shows "table_inv hf (t\<lparr>tab_count := n, entries := es'\<rparr>)"
proof -
  have "main_pos hf (t\<lparr>tab_count := n, entries := es'\<rparr>) = main_pos hf t"
    by (simp add: fun_eq_iff main_pos_def upb_getentry_def)
  with assms show ?thesis by (auto simp: table_inv_def table_shape_def upb_table_size_def)
qed

lemma occupied_less_empty: "occupied es < length es \<Longrightarrow> \<exists>i < length es. key (es ! i) = None"
proof (rule ccontr)
  assume lt: "occupied es < length es" and "\<not> (\<exists>i < length es. key (es ! i) = None)"
  then have "\<forall>e \<in> set es. key e \<noteq> None" by (metis in_set_conv_nth)
  then have "occupied es = length es" by (simp add: occupied_def)
  with lt show False by simp
qed

lemma emptyent_spec:
  assumes "occupied (entries t) < length (entries t)"
  shows "\<exists>i. emptyent t e = Ret i \<and> i < length (entries t) \<and> key (entries t ! i) = None"
proof -
  let ?P = "\<lambda>i. upb_tabent_isempty (entries t ! i)"
  let ?l = "[e + 1 ..< length (entries t)] @ [0 ..< length (entries t)]"
  from occupied_less_empty [OF assms] have "find ?P ?l \<noteq> None"
    unfolding find_None_iff by (auto simp: upb_tabent_isempty_def)
  then obtain i where i: "find ?P ?l = Some i" by blast
  with find_Some_in [OF i] show ?thesis by (auto simp: emptyent_def upb_tabent_isempty_def)
qed

lemma insert_finish_ok:
  assumes "table_inv hf (t\<lparr>entries := es[e := (es ! e)\<lparr>key := Some k, val := v\<rparr>]\<rparr>)" and "e < length es"
  shows "insert_finish t es e k v (hf k) = Ret (t\<lparr>entries := es[e := (es ! e)\<lparr>key := Some k, val := v\<rparr>]\<rparr>)"
proof -
  let ?es = "es[e := (es ! e)\<lparr>key := Some k, val := v\<rparr>]"
  let ?t = "t\<lparr>entries := ?es\<rparr>"
  have "findentry ?t k (hf k) = Ret (Some e)"
    using findentry_present [OF assms(1), of e k] assms(2) by simp
  then show ?thesis by (simp add: insert_finish_def Let_def)
qed

text \<open>The eviction step of \<open>insert_tab\<close>: the predecessor of the evicted entry is found.\<close>

lemma evict_prev:
  assumes ch: "chains_ok es mp ch" and m: "m < length es" "key (es ! m) = Some k'" "mp k' \<noteq> m"
    and e: "e < length es" "key (es ! e) = None"
  shows "\<exists>xs c ys. ch (mp k') = xs @ c # m # ys \<and> prev_loop (es[e := x]) (length es) (mp k') m = Ret c"
proof -
  note ok = chains_okD(1) [OF ch, of "mp k'"]
  have "m \<in> set (ch (mp k'))" by (rule chains_okD(2) [OF ch m(1,2)])
  then obtain as ys where as: "ch (mp k') = as @ m # ys" by (meson split_list)
  have "as \<noteq> []" using chain_okD(3) [OF ok] m(3) as by auto
  then obtain xs c where xs: "as = xs @ [c]" using rev_exhaust by blast
  with as have cq: "ch (mp k') = xs @ c # m # ys" by simp
  have out: "e \<notin> set (ch (mp k'))" by (rule chain_empty_slot [OF ch e(2)])
  have "es[e := x] ! i = es ! i" if "i \<in> set (ch (mp k'))" for i
    using that out by (cases "i = e") auto
  then have "seg (es[e := x]) (xs @ c # m # ys) None"
    using chain_okD(2) [OF ok] seg_frame [of "ch (mp k')" "es[e := x]" es None] cq by simp
  moreover have "hd (xs @ [c]) = mp k'" using chain_okD(3) [OF ok] cq by (cases xs) auto
  moreover have "length xs < length es" using chain_length [OF ok] cq by simp
  ultimately have "prev_loop (es[e := x]) (length es) (mp k') m = Ret c"
    using prev_loop_seg [of "es[e := x]" xs c m ys None "length es"] chain_okD(1,4) [OF ok] cq by auto
  with cq show ?thesis by blast
qed

text \<open>What the insertion of a key is to return, and the common end of its three cases.\<close>

definition inserts :: "('k \<Rightarrow> u32) \<Rightarrow> 'k upb_table \<Rightarrow> 'k \<Rightarrow> u64 \<Rightarrow> (unit, 'k upb_table) res \<Rightarrow> bool" where
  "inserts hf t k v r \<longleftrightarrow> (\<exists>es. r = Ret (t\<lparr>tab_count := tab_count t + 1, entries := es\<rparr>)
     \<and> table_inv hf (t\<lparr>tab_count := tab_count t + 1, entries := es\<rparr>) \<and> ent_map es = (table_map t)(k \<mapsto> v))"

lemma inserts_finish:
  assumes inv: "table_inv hf t" and absent: "ent_map (entries t) k = None" and our: "our < length (entries t)" "length es = length (entries t)"
    and new: "es[our := (es ! our)\<lparr>key := Some k, val := v\<rparr>] = es'" and chains: "chains_ok es' (main_pos hf t) ch"
    and cont: "kvs es' = add_mset (k, v) (kvs (entries t))"
  shows "inserts hf t k v (insert_finish (t\<lparr>tab_count := tab_count t + 1\<rparr>) es our k v (hf k))"
proof -
  let ?t = "t\<lparr>tab_count := tab_count t + 1\<rparr>"
  have kd: "keys_distinct (entries t)" and cnt: "tab_count t = occupied (entries t)" using inv by (auto simp: table_inv_def table_shape_def)
  note add = contents_add [OF kd absent cont]
  have "length es' = length es" using new by auto
  then have "table_inv hf (t\<lparr>tab_count := tab_count t + 1, entries := es'\<rparr>)"
    using add our chains cnt by (intro table_inv_update [OF inv]) auto
  with insert_finish_ok [where hf = hf and t = ?t and es = es and e = our and k = k and v = v] our add(2) show ?thesis
    unfolding new by (auto simp: inserts_def table_map_def)
qed

text \<open>The main position of the key is free.\<close>

lemma insert_tab_free:
  assumes inv: "table_inv hf t" and absent: "ent_map (entries t) k = None"
    and m: "upb_getentry t (hf k) < length (entries t)" "key (entries t ! upb_getentry t (hf k)) = None"
  shows "inserts hf t k v (insert_tab hf t k v)"
proof -
  let ?es = "entries t" and ?mp = "main_pos hf t" and ?m = "upb_getentry t (hf k)"
  let ?x = "(?es ! ?m)\<lparr>nxt := None, key := Some k, val := v\<rparr>"
  obtain ch where ch: "chains_ok ?es ?mp ch" using inv by (auto simp: table_inv_def)
  have mp: "?mp k = ?m" by (simp add: main_pos_def)
  have "chains_ok (?es[?m := ?x]) ?mp (ch(?m := [?m]))" using m mp by (intro chains_new_head [OF ch]) auto
  moreover have "kvs (?es[?m := ?x]) = add_mset (k, v) (kvs ?es)" using kvs_update [OF m(1), of ?x] m(2) by (simp add: kv_def)
  ultimately have "inserts hf t k v (insert_finish (t\<lparr>tab_count := tab_count t + 1\<rparr>) (?es[?m := (?es ! ?m)\<lparr>nxt := None\<rparr>]) ?m k v (hf k))"
    using m(1) by (intro inserts_finish [OF inv absent, where es' = "?es[?m := ?x]"]) auto
  then show ?thesis using m findentry_absent [OF inv absent] by (simp add: insert_tab_def Let_def upb_getentry_def)
qed

text \<open>It is taken by a key that belongs there: the new key becomes second in the chain.\<close>

lemma insert_tab_second:
  assumes inv: "table_inv hf t" and absent: "ent_map (entries t) k = None"
    and m: "upb_getentry t (hf k) < length (entries t)" "key (entries t ! upb_getentry t (hf k)) = Some mk" "main_pos hf t mk = upb_getentry t (hf k)"
    and e: "emptyent (t\<lparr>tab_count := tab_count t + 1\<rparr>) (upb_getentry t (hf k)) = Ret e" "e < length (entries t)" "key (entries t ! e) = None"
  shows "inserts hf t k v (insert_tab hf t k v)"
proof -
  let ?es = "entries t" and ?mp = "main_pos hf t" and ?m = "upb_getentry t (hf k)"
  let ?x = "(?es ! e)\<lparr>nxt := nxt (?es ! ?m), key := Some k, val := v\<rparr>" and ?y = "(?es ! ?m)\<lparr>nxt := Some e\<rparr>"
  let ?es1 = "?es[e := (?es ! e)\<lparr>nxt := nxt (?es ! ?m)\<rparr>, ?m := ?y]"
  obtain ch where ch: "chains_ok ?es ?mp ch" using inv by (auto simp: table_inv_def)
  have mp: "?mp k = ?m" by (simp add: main_pos_def)
  have em: "e \<noteq> ?m" using e m by auto
  have e1: "?es1[e := (?es1 ! e)\<lparr>key := Some k, val := v\<rparr>] = ?es[?m := ?y, e := ?x]"
    using e(2) m em by (simp add: list_update_swap [of e ?m])
  obtain qs where chains: "chains_ok (?es[?m := ?y, e := ?x]) ?mp (ch(?m := ?m # e # qs))"
    using chains_link_second [OF ch m e(2,3), of ?x k ?y] m(2) mp by auto
  have "kvs (?es[?m := ?y]) = kvs ?es" using kvs_update [OF m(1), of ?y] m(2) by (simp add: kv_def)
  then have "kvs (?es[?m := ?y, e := ?x]) = add_mset (k, v) (kvs ?es)"
    using kvs_update [of e "?es[?m := ?y]" ?x] e(2,3) em by (simp add: kv_def)
  with chains have "inserts hf t k v (insert_finish (t\<lparr>tab_count := tab_count t + 1\<rparr>) ?es1 e k v (hf k))"
    using e(2) by (intro inserts_finish [OF inv absent _ _ e1]) auto
  then show ?thesis using m findentry_absent [OF inv absent] e(1) by (simp add: insert_tab_def Let_def main_pos_def upb_getentry_def)
qed

text \<open>It is taken by a key of another chain, which is moved to the free entry.\<close>

lemma insert_tab_evict:
  assumes inv: "table_inv hf t" and absent: "ent_map (entries t) k = None"
    and m: "upb_getentry t (hf k) < length (entries t)" "key (entries t ! upb_getentry t (hf k)) = Some mk" "main_pos hf t mk \<noteq> upb_getentry t (hf k)"
    and e: "emptyent (t\<lparr>tab_count := tab_count t + 1\<rparr>) (upb_getentry t (hf k)) = Ret e" "e < length (entries t)" "key (entries t ! e) = None"
  shows "inserts hf t k v (insert_tab hf t k v)"
proof -
  let ?es = "entries t" and ?mp = "main_pos hf t" and ?m = "upb_getentry t (hf k)"
  let ?main = "?es ! ?m" and ?q = "?mp mk"
  obtain ch where ch: "chains_ok ?es ?mp ch" using inv by (auto simp: table_inv_def)
  have mp: "?mp k = ?m" by (simp add: main_pos_def)
  obtain xs c ys where c: "ch ?q = xs @ c # ?m # ys" and prev: "prev_loop (?es[e := ?main]) (length ?es) ?q ?m = Ret c"
    using evict_prev [OF ch m e(2,3), of ?main] by blast
  have em: "e \<noteq> ?m" using e m by auto
  have cl: "c < length ?es" "c \<noteq> ?m" "c \<noteq> e"
    using chain_okD(1,4) [OF chains_okD(1) [OF ch, of ?q]] chain_empty_slot [OF ch e(3), of ?q] c by auto
  let ?x = "?main\<lparr>nxt := None, key := Some k, val := v\<rparr>" and ?y = "(?es ! c)\<lparr>nxt := Some e\<rparr>"
  let ?es2 = "?es[e := ?main, c := ?y]" and ?es3 = "?es[e := ?main, c := ?y, ?m := ?main\<lparr>nxt := None\<rparr>]"
  have "chains_ok (?es2[?m := ?x]) ?mp (ch(?q := xs @ c # e # ys, ?m := [?m]))"
    using mp by (intro chains_evict [OF ch m(1,2) refl m(3) e(2,3) c]) auto
  moreover have "kvs (?es2[?m := ?x]) = add_mset (k, v) (kvs ?es)"
  proof -
    have 1: "kvs (?es[e := ?main]) = kvs ?es + kv ?main" using kvs_update [OF e(2), of ?main] e(3) by (simp add: kv_def)
    have 2: "kvs ?es2 = kvs (?es[e := ?main])" using kvs_update [of c "?es[e := ?main]" ?y] cl by (simp add: kv_def split: option.splits)
    have "kvs (?es2[?m := ?x]) + kv ?main = kvs ?es2 + kv ?x" using kvs_update [of ?m ?es2 ?x] m em cl by simp
    then show ?thesis unfolding 1 2 by (simp add: kv_def m(2))
  qed
  ultimately have "inserts hf t k v (insert_finish (t\<lparr>tab_count := tab_count t + 1\<rparr>) ?es3 ?m k v (hf k))"
    using m(1) em cl by (intro inserts_finish [OF inv absent, where es' = "?es2[?m := ?x]"]) auto
  then show ?thesis using m findentry_absent [OF inv absent] e(1) prev cl em by (simp add: insert_tab_def Let_def main_pos_def upb_getentry_def)
qed

lemma insert_tab_spec:
  assumes inv: "table_inv hf t" and lg: "size_lg2 t \<noteq> 0" and new: "table_map t k = None"
    and room: "tab_count t < length (entries t)"
  shows "\<exists>es'. insert_tab hf t k v = Ret (t\<lparr>tab_count := tab_count t + 1, entries := es'\<rparr>)
    \<and> table_inv hf (t\<lparr>tab_count := tab_count t + 1, entries := es'\<rparr>)
    \<and> ent_map es' = (table_map t)(k \<mapsto> v)"
proof -
  let ?m = "upb_getentry t (hf k)"
  have sh: "table_shape t" and absent: "ent_map (entries t) k = None" using inv new by (simp_all add: table_inv_def table_map_def)
  have m: "?m < length (entries t)" by (rule upb_getentry_less [OF sh lg])
  obtain e where e: "emptyent (t\<lparr>tab_count := tab_count t + 1\<rparr>) ?m = Ret e" "e < length (entries t)" "key (entries t ! e) = None"
    using emptyent_spec [of "t\<lparr>tab_count := tab_count t + 1\<rparr>" ?m] room sh by (auto simp: table_shape_def)
  have "inserts hf t k v (insert_tab hf t k v)"
    using insert_tab_free [OF inv absent m] insert_tab_second [OF inv absent m _ _ e] insert_tab_evict [OF inv absent m _ _ e]
    by (cases "key (entries t ! ?m)") blast+
  then show ?thesis by (simp add: inserts_def)
qed

section \<open>Lookup\<close>

lemma lookup_tab_spec:
  assumes "table_inv hf t"
  shows "lookup_tab t k (hf k) = Ret (table_map t k)"
proof (cases "ent_map (entries t) k")
  case None
  then show ?thesis using findentry_absent [OF assms] by (simp add: lookup_tab_def table_map_def)
next
  case (Some v)
  have "keys_distinct (entries t)" using assms by (simp add: table_inv_def)
  with Some obtain i where i: "i < length (entries t)" "key (entries t ! i) = Some k" "val (entries t ! i) = v"
    using ent_map_eq_Some [of "entries t" k v] by auto
  have "findentry t k (hf k) = Ret (Some i)" by (rule findentry_present [OF assms i(1,2)])
  with Some i(3) show ?thesis by (simp add: lookup_tab_def table_map_def)
qed

section \<open>Removal\<close>

lemma chains_shrink:
  assumes ch: "chains_ok es mp ch" and len: "length es' = length es"
    and same: "\<And>i. i \<notin> set (ch m) \<Longrightarrow> key (es' ! i) = key (es ! i) \<and> nxt (es' ! i) = nxt (es ! i)"
    and ps: "set ps = set (ch m) - {r}" and r: "key (es' ! r) = None" and ok: "chain_ok es' mp m ps"
  shows "chains_ok es' mp (ch(m := ps))"
proof -
  have "chain_ok es' mp p ((ch(m := ps)) p)" for p
  proof (cases "p = m")
    case False
    have out: "i \<notin> set (ch m)" if i: "i \<in> set (ch p)" for i
    proof
      assume "i \<in> set (ch m)"
      from chain_key(1) [OF ch i] chain_key(1) [OF ch this] False show False by auto
    qed
    have "chain_ok es' mp p (ch p)"
      by (rule chain_frame [OF chains_okD(1) [OF ch] len]) (use same [OF out] in blast)
    with False show ?thesis by simp
  qed (use ok in simp)
  moreover have "i \<in> set ((ch(m := ps)) (mp k))" if i: "i < length es'" "key (es' ! i) = Some k" for i k
  proof (cases "i \<in> set (ch m)")
    case True
    have "i \<noteq> r" using i(2) r by auto
    with True have "i \<in> set ps" unfolding ps by simp
    moreover from chain_okD(5) [OF ok this] i(2) have "mp k = m" by auto
    ultimately show ?thesis by simp
  next
    case False
    have "i < length es" "key (es ! i) = Some k" using i same [OF False] len by simp_all
    then have "i \<in> set (ch (mp k))" by (rule chains_okD(2) [OF ch])
    with False show ?thesis by auto
  qed
  ultimately show ?thesis unfolding chains_ok_def by blast
qed

lemma rm_loop_seg:
  assumes "seg es (p # ps) None" and "set (p # ps) \<subseteq> {..< length es}" and "length ps < fuel"
  shows "\<exists>c. rm_loop es fuel p k = Ret c
    \<and> ((\<exists>xs r ys. p # ps = xs @ c # r # ys \<and> key (es ! r) = Some k)
       \<or> nxt (es ! c) = None \<and> (\<forall>i \<in> set ps. key (es ! i) \<noteq> Some k))"
  using assms
proof (induction ps arbitrary: p fuel)
  case Nil
  then show ?case by (cases fuel) auto
next
  case (Cons q qs)
  then obtain f where f: "fuel = Suc f" by (cases fuel) auto
  have q: "nxt (es ! p) = Some q" "q < length es" "p < length es" using Cons.prems by auto
  show ?case
  proof (cases "key (es ! q) = Some k")
    case True
    have "rm_loop es fuel p k = Ret p" using q f True by simp
    moreover have "p # q # qs = [] @ p # q # qs" by simp
    ultimately show ?thesis using True by blast
  next
    case False
    obtain c where c: "rm_loop es f q k = Ret c"
      "(\<exists>xs r ys. q # qs = xs @ c # r # ys \<and> key (es ! r) = Some k)
       \<or> nxt (es ! c) = None \<and> (\<forall>i \<in> set qs. key (es ! i) \<noteq> Some k)"
      using Cons.IH [of q f] Cons.prems f by auto
    have "rm_loop es fuel p k = Ret c" using q f False c(1) by simp
    moreover have "(\<exists>xs r ys. p # q # qs = xs @ c # r # ys \<and> key (es ! r) = Some k)
       \<or> nxt (es ! c) = None \<and> (\<forall>i \<in> set (q # qs). key (es ! i) \<noteq> Some k)"
      using c(2) False by (metis append_Cons set_ConsD)
    ultimately show ?thesis by blast
  qed
qed

text \<open>Dropping a member from the middle of a chain, and refilling the head from the second.\<close>

lemma chains_unlink:
  assumes ch: "chains_ok es mp ch" and c: "ch m = xs @ c # r # ys"
  shows "chains_ok (es[r := (es ! r)\<lparr>key := None\<rparr>, c := (es ! c)\<lparr>nxt := nxt (es ! r)\<rparr>]) mp (ch(m := xs @ c # ys))"
proof (rule chains_shrink [OF ch, where r = r])
  let ?es = "es[r := (es ! r)\<lparr>key := None\<rparr>, c := (es ! c)\<lparr>nxt := nxt (es ! r)\<rparr>]"
  note ok = chains_okD(1) [OF ch, of m, unfolded c]
  have d: "distinct (xs @ c # r # ys)" by (rule chain_okD(1) [OF ok])
  have lt: "r < length es" "c < length es" using chain_okD(4) [OF ok] by auto
  show "length ?es = length es" by simp
  show "key (?es ! i) = key (es ! i) \<and> nxt (?es ! i) = nxt (es ! i)" if "i \<notin> set (ch m)" for i
    using that c by auto
  show "set (xs @ c # ys) = set (ch m) - {r}" using d c by auto
  show "key (?es ! r) = None" using d lt by simp
  have frame: "?es ! i = es ! i" if "i \<in> set xs \<union> set ys" for i
  proof -
    have "i \<noteq> r" "i \<noteq> c" using that d by auto
    then show ?thesis by simp
  qed
  have seg: "seg es (xs @ c # r # ys) None" by (rule chain_okD(2) [OF ok])
  have "seg ?es xs (Some c)" "seg ?es ys None"
    using seg frame seg_frame [of xs ?es es "Some c"] seg_frame [of ys ?es es None] by (auto simp: seg_append)
  moreover have "nxt (?es ! c) = (case ys of [] \<Rightarrow> None | q # _ \<Rightarrow> Some q)" using seg lt by (simp add: seg_append)
  ultimately have "seg ?es (xs @ c # ys) None" by (simp add: seg_append)
  moreover have "i < length ?es \<and> (\<exists>k. key (?es ! i) = Some k \<and> mp k = m)" if i: "i \<in> set (xs @ c # ys)" for i
  proof -
    have "i \<in> set (xs @ c # r # ys)" using i by auto
    moreover have "key (?es ! i) = key (es ! i)" using i d lt frame [of i] by (cases "i = c") auto
    ultimately show ?thesis using chain_okD(4,5) [OF ok] by auto
  qed
  moreover have "hd (xs @ c # ys) = m" using chain_okD(3) [OF ok] by (cases xs) auto
  ultimately show "chain_ok ?es mp m (xs @ c # ys)" using d by (auto simp: chain_ok_def)
qed

lemma chains_pull_second:
  assumes ch: "chains_ok es mp ch" and c: "ch m = m # j # ps"
  shows "chains_ok (es[m := es ! j, j := (es ! j)\<lparr>key := None\<rparr>]) mp (ch(m := m # ps))"
proof (rule chains_shrink [OF ch, where r = j])
  let ?es = "es[m := es ! j, j := (es ! j)\<lparr>key := None\<rparr>]"
  note ok = chains_okD(1) [OF ch, of m, unfolded c]
  have d: "distinct (m # j # ps)" by (rule chain_okD(1) [OF ok])
  have lt: "m < length es" "j < length es" using chain_okD(4) [OF ok] by auto
  show "length ?es = length es" by simp
  show "key (?es ! i) = key (es ! i) \<and> nxt (?es ! i) = nxt (es ! i)" if "i \<notin> set (ch m)" for i
    using that c by auto
  show "set (m # ps) = set (ch m) - {j}" using d c by auto
  show "key (?es ! j) = None" using d lt by simp
  have at: "?es ! m = es ! j" using d lt by simp
  have frame: "?es ! i = es ! i" if "i \<in> set ps" for i
  proof -
    have "i \<noteq> m" "i \<noteq> j" using that d by auto
    then show ?thesis by simp
  qed
  have seg: "seg es (m # j # ps) None" by (rule chain_okD(2) [OF ok])
  then have "seg ?es (m # ps) None" using frame seg_frame [of ps ?es es None] by (auto simp: at)
  moreover have "i < length ?es \<and> (\<exists>k. key (?es ! i) = Some k \<and> mp k = m)" if i: "i \<in> set (m # ps)" for i
    using i lt chain_okD(4) [OF ok] chain_okD(5) [OF ok, of j] chain_okD(5) [OF ok, of i] frame [of i]
    by (cases "i = m") (auto simp: at)
  ultimately show "chain_ok ?es mp m (m # ps)" using d by (auto simp: chain_ok_def)
qed

lemma chains_drop_single:
  assumes ch: "chains_ok es mp ch" and c: "ch m = [m]"
  shows "chains_ok (es[m := (es ! m)\<lparr>key := None\<rparr>]) mp (ch(m := []))"
proof (rule chains_shrink [OF ch, where r = m])
  have "m < length es" using chain_okD(4) [OF chains_okD(1) [OF ch, of m]] c by auto
  then show "key (es[m := (es ! m)\<lparr>key := None\<rparr>] ! m) = None" by simp
qed (auto simp: c chain_ok_def)

text \<open>The contents after an entry was emptied, after its successor was moved onto it, and after its predecessor was linked past it.\<close>

lemma kvs_empty_slot:
  assumes "i < length es" and "key (es ! i) = Some k"
  shows "kvs es = add_mset (k, val (es ! i)) (kvs (es[i := (es ! i)\<lparr>key := None\<rparr>]))"
  using kvs_update [OF assms(1), of "(es ! i)\<lparr>key := None\<rparr>"] assms(2) by (simp add: kv_def)

lemma kvs_move_over:
  assumes "i < length es" and "j < length es" and "i \<noteq> j" and "key (es ! i) = Some k"
  shows "kvs es = add_mset (k, val (es ! i)) (kvs (es[i := es ! j, j := (es ! j)\<lparr>key := None\<rparr>]))"
proof -
  have 1: "kvs (es[i := es ! j]) + kv (es ! i) = kvs es + kv (es ! j)" by (rule kvs_update [OF assms(1)])
  have 2: "kvs (es[i := es ! j]) = kvs (es[i := es ! j, j := (es ! j)\<lparr>key := None\<rparr>]) + kv (es ! j)"
    using kvs_update [of j "es[i := es ! j]" "(es ! j)\<lparr>key := None\<rparr>"] assms by (simp add: kv_def)
  from 1 have "kvs (es[i := es ! j, j := (es ! j)\<lparr>key := None\<rparr>]) + kv (es ! i) = kvs es" unfolding 2 by (simp add: ac_simps)
  then show ?thesis by (simp add: kv_def assms(4))
qed

lemma kvs_unlink:
  assumes "p < length es" and "r < length es" and "p \<noteq> r" and "key (es ! r) = Some k"
  shows "kvs es = add_mset (k, val (es ! r)) (kvs (es[r := (es ! r)\<lparr>key := None\<rparr>, p := (es ! p)\<lparr>nxt := z\<rparr>]))"
proof -
  have "kvs (es[r := (es ! r)\<lparr>key := None\<rparr>, p := (es ! p)\<lparr>nxt := z\<rparr>]) = kvs (es[r := (es ! r)\<lparr>key := None\<rparr>])"
    using kvs_update [of p "es[r := (es ! r)\<lparr>key := None\<rparr>]" "(es ! p)\<lparr>nxt := z\<rparr>"] assms by (simp add: kv_def split: option.splits)
  then show ?thesis using kvs_empty_slot [OF assms(2,4)] by simp
qed

text \<open>What the removal of a key is to return, and its two outcomes.\<close>

definition removes :: "('k \<Rightarrow> u32) \<Rightarrow> 'k upb_table \<Rightarrow> 'k \<Rightarrow> (unit, 'k upb_table \<times> u64 option) res \<Rightarrow> bool" where
  "removes hf t k r \<longleftrightarrow> (\<exists>t'. r = Ret (t', table_map t k) \<and> table_inv hf t'
     \<and> table_map t' = (table_map t)(k := None) \<and> size_lg2 t' = size_lg2 t
     \<and> tab_count t' = (if table_map t k = None then tab_count t else tab_count t - 1))"

lemma removes_nothing: "table_inv hf t \<Longrightarrow> ent_map (entries t) k = None \<Longrightarrow> removes hf t k (Ret (t, None))"
  by (simp add: removes_def table_map_def fun_upd_idem)

lemma removes_entry:
  assumes inv: "table_inv hf t" and "length es = length (entries t)" and chains: "chains_ok es (main_pos hf t) ch"
    and cont: "kvs (entries t) = add_mset (k, v) (kvs es)"
  shows "removes hf t k (Ret (t\<lparr>tab_count := tab_count t - 1, entries := es\<rparr>, Some v))"
proof -
  have kd: "keys_distinct (entries t)" and cnt: "tab_count t = occupied (entries t)" using inv by (auto simp: table_inv_def table_shape_def)
  note rem = contents_remove [OF kd cont]
  have "table_inv hf (t\<lparr>tab_count := tab_count t - 1, entries := es\<rparr>)"
    using rem cnt by (intro table_inv_update [OF inv assms(2) _ chains]) auto
  with rem show ?thesis by (simp add: removes_def table_map_def)
qed

text \<open>The key at the head of its chain.\<close>

lemma rm_tab_head:
  assumes inv: "table_inv hf t" and m: "upb_getentry t (hf k) < length (entries t)" and hk: "key (entries t ! upb_getentry t (hf k)) = Some k"
  shows "removes hf t k (rm_tab t k (hf k))"
proof -
  let ?es = "entries t" and ?mp = "main_pos hf t" and ?m = "upb_getentry t (hf k)"
  obtain ch where ch: "chains_ok ?es ?mp ch" using inv by (auto simp: table_inv_def)
  have "ch ?m \<noteq> []" using chains_okD(2) [OF ch m hk] by (auto simp: main_pos_def)
  then obtain ys where c: "ch ?m = ?m # ys" using chain_head [OF ch] by blast
  note ok = chains_okD(1) [OF ch, of ?m, unfolded c]
  have seg: "seg ?es (?m # ys) None" by (rule chain_okD(2) [OF ok])
  show ?thesis
  proof (cases ys)
    case Nil
    have "removes hf t k (Ret (t\<lparr>tab_count := tab_count t - 1, entries := ?es[?m := (?es ! ?m)\<lparr>key := None\<rparr>]\<rparr>, Some (val (?es ! ?m))))"
      using chains_drop_single [OF ch] c Nil kvs_empty_slot [OF m hk] by (intro removes_entry [OF inv]) auto
    then show ?thesis using m hk seg Nil by (simp add: rm_tab_def Let_def upb_tabent_isempty_def)
  next
    case (Cons j js)
    have j: "j < length ?es" "?m \<noteq> j" using chain_okD(1,4) [OF ok] Cons by auto
    have "removes hf t k (Ret (t\<lparr>tab_count := tab_count t - 1, entries := ?es[?m := ?es ! j, j := (?es ! j)\<lparr>key := None\<rparr>]\<rparr>, Some (val (?es ! ?m))))"
      using chains_pull_second [OF ch] c Cons kvs_move_over [OF m j hk] by (intro removes_entry [OF inv]) auto
    then show ?thesis using m hk seg j Cons by (simp add: rm_tab_def Let_def upb_tabent_isempty_def)
  qed
qed

text \<open>Another key at the position: the loop along its chain.\<close>

lemma absent_after:
  assumes ch: "chains_ok es mp ch" and hk: "key (es ! m) = Some hk" "hk \<noteq> k" and c: "ch (mp hk) = xs @ m # ys" and mp: "mp k = m"
    and none: "\<forall>i \<in> set ys. key (es ! i) \<noteq> Some k"
  shows "ent_map es k = None"
proof (cases "mp hk = m")
  case True
  have "xs = []" using True chain_okD(1,3) [OF chains_okD(1) [OF ch, of "mp hk", unfolded c]] by (cases xs) auto
  then have "ch m = m # ys" using c True by simp
  then show ?thesis using none hk chains_okD(2) [OF ch, of _ k] mp unfolding ent_map_None by (metis option.inject set_ConsD)
next
  case False
  with hk(1) have "ch m = []" using chain_nil [OF ch] by blast
  then show ?thesis using chains_okD(2) [OF ch, of _ k] mp by (auto simp: ent_map_None)
qed

lemma rm_tab_chain:
  assumes inv: "table_inv hf t" and m: "upb_getentry t (hf k) < length (entries t)"
    and hk: "key (entries t ! upb_getentry t (hf k)) = Some hk" "hk \<noteq> k"
  shows "removes hf t k (rm_tab t k (hf k))"
proof -
  let ?es = "entries t" and ?mp = "main_pos hf t" and ?m = "upb_getentry t (hf k)"
  obtain ch where ch: "chains_ok ?es ?mp ch" using inv by (auto simp: table_inv_def)
  obtain xs ys where c: "ch (?mp hk) = xs @ ?m # ys" using occupied_on_chain [OF ch m hk(1)] .
  note ok = chains_okD(1) [OF ch, of "?mp hk", unfolded c]
  have seg: "seg ?es (?m # ys) None" using chain_okD(2) [OF ok] by (simp add: seg_append)
  obtain p where p: "rm_loop ?es (length ?es) ?m k = Ret p"
    "(\<exists>xs r zs. ?m # ys = xs @ p # r # zs \<and> key (?es ! r) = Some k)
       \<or> nxt (?es ! p) = None \<and> (\<forall>i \<in> set ys. key (?es ! i) \<noteq> Some k)"
    using rm_loop_seg [OF seg, of "length ?es" k] chain_okD(4) [OF ok] chain_length [OF ok] by auto
  from p(2) show ?thesis
  proof
    assume "\<exists>xs r zs. ?m # ys = xs @ p # r # zs \<and> key (?es ! r) = Some k"
    then obtain as r zs where as: "?m # ys = as @ p # r # zs" and rk: "key (?es ! r) = Some k" by blast
    have full: "ch (?mp hk) = (xs @ as) @ p # r # zs" using c as by simp
    note okf = chains_okD(1) [OF ch, of "?mp hk", unfolded full]
    have lt: "p < length ?es" "r < length ?es" "p \<noteq> r" using chain_okD(1,4) [OF okf] by auto
    have nx: "nxt (?es ! p) = Some r" using chain_okD(2) [OF okf] by (simp add: seg_append)
    have "removes hf t k (Ret (t\<lparr>tab_count := tab_count t - 1,
        entries := ?es[r := (?es ! r)\<lparr>key := None\<rparr>, p := (?es ! p)\<lparr>nxt := nxt (?es ! r)\<rparr>]\<rparr>, Some (val (?es ! r))))"
      using chains_unlink [OF ch full] kvs_unlink [OF lt rk] by (intro removes_entry [OF inv]) auto
    then show ?thesis using m hk p(1) nx lt by (simp add: rm_tab_def Let_def upb_tabent_isempty_def)
  next
    assume none: "nxt (?es ! p) = None \<and> (\<forall>i \<in> set ys. key (?es ! i) \<noteq> Some k)"
    then have "ent_map ?es k = None" using hk c by (intro absent_after [OF ch]) (auto simp: main_pos_def)
    then show ?thesis using m hk p(1) none removes_nothing [OF inv] by (simp add: rm_tab_def Let_def upb_tabent_isempty_def)
  qed
qed

lemma rm_tab_spec:
  assumes inv: "table_inv hf t" and lg: "size_lg2 t \<noteq> 0"
  shows "\<exists>t'. rm_tab t k (hf k) = Ret (t', table_map t k) \<and> table_inv hf t'
    \<and> table_map t' = (table_map t)(k := None) \<and> size_lg2 t' = size_lg2 t
    \<and> tab_count t' = (if table_map t k = None then tab_count t else tab_count t - 1)"
proof -
  let ?es = "entries t" and ?m = "upb_getentry t (hf k)"
  have m: "?m < length ?es" using inv lg by (auto intro: upb_getentry_less simp: table_inv_def)
  obtain ch where ch: "chains_ok ?es (main_pos hf t) ch" using inv by (auto simp: table_inv_def)
  have "removes hf t k (rm_tab t k (hf k))"
  proof (cases "key (?es ! ?m)")
    case None
    then have "ch ?m = []" using chain_nil [OF ch] by blast
    then have "ent_map ?es k = None" using chains_okD(2) [OF ch, of _ k] by (auto simp: ent_map_None main_pos_def)
    then show ?thesis using m None removes_nothing [OF inv] by (simp add: rm_tab_def Let_def upb_tabent_isempty_def)
  next
    case (Some hk)
    then show ?thesis using rm_tab_head [OF inv m] rm_tab_chain [OF inv m Some] by (cases "hk = k") simp_all
  qed
  then show ?thesis by (simp add: removes_def)
qed

section \<open>New tables and iteration\<close>

lemma occupied_replicate [simp]: "occupied (replicate n empty_ent) = 0"
  by (induction n) (auto simp: occupied_def empty_ent_def)

lemma map_filter_replicate [simp]: "List.map_filter key (replicate n empty_ent) = []"
  by (induction n) (auto simp: empty_ent_def List.map_filter_simps)

lemma new_table_sel [simp]:
  "tab_count (new_table lg2) = 0" "size_lg2 (new_table lg2) = lg2"
  by (simp_all add: new_table_def Let_def)

lemma new_table_inv:
  fixes hf :: "'k \<Rightarrow> u32"
  assumes "lg2 \<le> 31"
  shows "table_inv hf (new_table lg2)" and "table_map (new_table lg2 :: 'k upb_table) = Map.empty"
proof -
  let ?t = "new_table lg2 :: 'k upb_table"
  have es: "entries ?t = replicate (upb_table_size ?t) empty_ent"
    by (simp add: new_table_def upb_table_size_def Let_def)
  have key: "key (entries ?t ! i) = None" if "i < length (entries ?t)" for i
    using that unfolding es by (simp add: empty_ent_def)
  have "chains_ok (entries ?t) (main_pos hf ?t) (\<lambda>_. [])"
    using key by (auto simp: chains_ok_def chain_ok_def)
  moreover have "table_shape ?t"
    using assms es by (auto simp: table_shape_def new_table_def upb_table_size_def Let_def)
  moreover have "keys_distinct (entries ?t)" unfolding es keys_distinct_def by simp
  ultimately show "table_inv hf ?t" unfolding table_inv_def by blast
  show "table_map ?t = Map.empty" using key by (auto simp: table_map_def ent_map_None fun_eq_iff)
qed

text \<open>Iterating with \<^verbatim>\<open>next\<close> visits the occupied entries in order.\<close>

definition occupied_from :: "'k upb_table \<Rightarrow> nat \<Rightarrow> nat list" where
  "occupied_from t n = filter (\<lambda>j. key (entries t ! j) \<noteq> None) [n ..< length (entries t)]"

lemma filter_upt_first:
  "filter P [a ..< n] = (case find P [a ..< n] of None \<Rightarrow> [] | Some i \<Rightarrow> i # filter P [Suc i ..< n])"
proof (induction "n - a" arbitrary: a)
  case (Suc d)
  then have "[a ..< n] = a # [Suc a ..< n]" "d = n - Suc a" by (auto simp: upt_conv_Cons)
  with Suc(1) [of "Suc a"] show ?case by simp
qed simp

lemma occupied_from_next:
  assumes "- 1 \<le> i"
  shows "occupied_from t (nat (i + 1)) =
    (case next_tab t i of None \<Rightarrow> [] | Some j \<Rightarrow> j # occupied_from t (Suc j))"
  unfolding occupied_from_def next_tab_def upb_tabent_isempty_def by (rule filter_upt_first)

lemma next_tab_Some:
  assumes "next_tab t i = Some j"
  shows "j < length (entries t)" "nat (i + 1) \<le> j" "key (entries t ! j) \<noteq> None"
  using find_Some_in [OF assms [unfolded next_tab_def]] by (auto simp: upb_tabent_isempty_def)

lemma next_tab_advances: "next_tab t i = Some j \<Longrightarrow> i < int j \<and> j < length (entries t)"
  using next_tab_Some [of t i j] by auto

text \<open>The pairs at the visited positions are the contents of the table.\<close>

definition pair_at :: "'k upb_table \<Rightarrow> nat \<Rightarrow> 'k \<times> u64" where
  "pair_at t j = (the (key (entries t ! j)), val (entries t ! j))"

lemma occupied_from_contents: "mset (map (pair_at t) (occupied_from t 0)) = kvs (entries t)"
proof -
  have "mset (map (\<lambda>j. (the (key (es ! j)), val (es ! j))) (filter (\<lambda>j. key (es ! j) \<noteq> None) [0 ..< length es])) = kvs es"
    for es :: "'a upb_tabent list"
  proof (induction es rule: rev_induct)
    case (snoc e es)
    have "map (\<lambda>j. (the (key ((es @ [e]) ! j)), val ((es @ [e]) ! j)))
          (filter (\<lambda>j. key ((es @ [e]) ! j) \<noteq> None) [0 ..< length es])
        = map (\<lambda>j. (the (key (es ! j)), val (es ! j))) (filter (\<lambda>j. key (es ! j) \<noteq> None) [0 ..< length es])"
      by (intro map_cong filter_cong) (auto simp: nth_append)
    with snoc show ?case by (auto simp: kvs_def kv_def nth_append split: option.split)
  qed (simp add: kvs_def)
  then show ?thesis by (simp add: occupied_from_def pair_at_def [abs_def])
qed

lemma kvs_distinct_map:
  assumes "keys_distinct es" and "mset ps = kvs es"
  shows "map_of ps = ent_map es" and "distinct (map fst ps)"
proof -
  have "mset (map fst ps) = mset (List.map_filter key es)" using assms(2) kvs_keys [of es] by (simp add: mset_map)
  then show d: "distinct (map fst ps)" using assms(1) unfolding keys_distinct_def by (metis mset_eq_imp_distinct_iff)
  have set: "set ps = set_mset (kvs es)" using assms(2) by (metis set_mset_mset)
  show "map_of ps = ent_map es"
  proof
    fix k
    show "map_of ps k = ent_map es k"
    proof (cases "ent_map es k")
      case None
      then have "k \<notin> fst ` set ps" by (simp add: ent_map_dom set)
      with None show ?thesis by (metis map_of_eq_None_iff)
    next
      case (Some v)
      then have "(k, v) \<in> set ps" using ent_map_kvs [OF assms(1)] set by blast
      with Some d show ?thesis by (simp add: map_of_is_SomeI)
    qed
  qed
qed

lemma occupied_pairs:
  assumes "table_inv hf t"
  shows "map_of (map (pair_at t) (occupied_from t 0)) = table_map t"
    and "distinct (map fst (map (pair_at t) (occupied_from t 0)))"
    and "length (occupied_from t 0) = tab_count t"
proof -
  have kd: "keys_distinct (entries t)" using assms by (simp add: table_inv_def)
  show "map_of (map (pair_at t) (occupied_from t 0)) = table_map t"
    unfolding table_map_def by (rule kvs_distinct_map(1) [OF kd occupied_from_contents])
  show "distinct (map fst (map (pair_at t) (occupied_from t 0)))"
    by (rule kvs_distinct_map(2) [OF kd occupied_from_contents])
  have "length (occupied_from t 0) = size (kvs (entries t))"
    using occupied_from_contents [of t] by (metis length_map size_mset)
  then show "length (occupied_from t 0) = tab_count t"
    using assms by (simp add: kvs_occupied table_inv_def table_shape_def)
qed

end
