(* ===== verification/Hash_Grow.thy ===== *)
theory Hash_Grow
  imports Hash_Table
begin

text \<open>
  What the string table and the integer table share on top of the base table: the load limit as an
  invariant, growth by doubling, allocation that does not fail, removal under the invariant, and the
  unlinking of an entry by position that both iterators' removals perform.
\<close>

section \<open>Definitions\<close>

text \<open>
  \<^verbatim>\<open>upb_strtable_removeiter\<close> and \<^verbatim>\<open>upb_inttable_removeiter\<close>: the entry is unlinked from its predecessor, if any, and emptied.
\<close>

definition unlink_ent :: "'k upb_table \<Rightarrow> nat \<Rightarrow> 'k upb_table" where
  "unlink_ent t i =
     (let es = entries t;
          es1 = (case find (\<lambda>j. nxt (es ! j) = Some i) [0 ..< length es] of
                   None \<Rightarrow> es
                 | Some prev \<Rightarrow> es[prev := (es ! prev)\<lparr>nxt := nxt (es ! i)\<rparr>])
      in t\<lparr>tab_count := tab_count t - 1, entries := es1[i := (es1 ! i)\<lparr>key := None, nxt := None\<rparr>]\<rparr>)"

section \<open>Load limit and growth\<close>

lemma isfull_room:
  assumes "table_shape t" and "\<not> isfull t" and "tab_count t \<le> max_count t"
  shows "tab_count t < length (entries t)" and "size_lg2 t \<noteq> 0"
proof -
  have "tab_count t < max_count t" using assms(2,3) by (simp add: isfull_def)
  moreover have "max_count t \<le> length (entries t)"
    using assms(1) by (simp add: table_shape_def)
  ultimately show "tab_count t < length (entries t)" by simp
  with assms(1) show "size_lg2 t \<noteq> 0"
    by (cases "size_lg2 t = 0") (auto simp: table_shape_def upb_table_size_def)
qed

text \<open>The invariant of a table in use: below its load limit.\<close>

definition hash_ok :: "('k \<Rightarrow> u32) \<Rightarrow> 'k upb_table \<Rightarrow> bool" where
  "hash_ok hf t \<longleftrightarrow> table_inv hf t \<and> tab_count t \<le> max_count t \<and> size_lg2 t \<le> 30"

lemma hash_ok_insert:
  assumes "hash_ok hf t" and "\<not> isfull t" and "table_map t k = None"
  shows "\<exists>t'. insert_tab hf t k v = Ret t' \<and> hash_ok hf t' \<and> table_map t' = (table_map t)(k \<mapsto> v)
    \<and> size_lg2 t' = size_lg2 t \<and> max_count t' = max_count t \<and> tab_count t' = tab_count t + 1"
proof -
  have sh: "table_shape t" and inv: "table_inv hf t" and le: "tab_count t \<le> max_count t" "size_lg2 t \<le> 30"
    using assms(1) by (auto simp: hash_ok_def table_inv_def)
  note room = isfull_room [OF sh assms(2) le(1)]
  obtain es' where es': "insert_tab hf t k v = Ret (t\<lparr>tab_count := tab_count t + 1, entries := es'\<rparr>)"
    "table_inv hf (t\<lparr>tab_count := tab_count t + 1, entries := es'\<rparr>)" "ent_map es' = (table_map t)(k \<mapsto> v)"
    using insert_tab_spec [OF inv room(2) assms(3) room(1)] by blast
  have "tab_count t + 1 \<le> max_count t" using le assms(2) by (simp add: isfull_def)
  with es' le show ?thesis by (auto simp: hash_ok_def table_map_def)
qed

lemma count_card_dom:
  assumes "table_inv hf t"
  shows "card (dom (table_map t)) = tab_count t"
proof -
  let ?ps = "map (pair_at t) (occupied_from t 0)"
  have "dom (table_map t) = set (map fst ?ps)"
    by (simp only: occupied_pairs(1) [OF assms, symmetric] dom_map_of_conv_image_fst set_map)
  then have "card (dom (table_map t)) = length (map fst ?ps)"
    by (simp only: distinct_card [OF occupied_pairs(2) [OF assms]])
  then show ?thesis using occupied_pairs(3) [OF assms] by simp
qed

lemma max_count_grows:
  assumes "table_shape t" and "size_lg2 t \<le> 29"
  shows "max_count t < max_count (new_table (size_lg2 t + 1) :: 'k upb_table)"
proof -
  have mc: "max_count t = upb_table_size t * 85 div 100" using assms(1) by (simp add: table_shape_def)
  show ?thesis
  proof (cases "size_lg2 t")
    case 0
    then show ?thesis by (simp add: mc upb_table_size_def new_table_def Let_def)
  next
    case (Suc n)
    have "2 ^ size_lg2 t * 85 div 100 + 1 \<le> (2 ^ size_lg2 t * 85 + 100) div (100::nat)" by simp
    also have "\<dots> \<le> (2 * 2 ^ size_lg2 t * 85) div 100"
    proof (rule div_le_mono)
      have "(2::nat) \<le> 2 ^ size_lg2 t" using Suc by simp
      then show "2 ^ size_lg2 t * 85 + 100 \<le> 2 * 2 ^ size_lg2 t * (85::nat)" by linarith
    qed
    finally show ?thesis using Suc by (simp add: mc upb_table_size_def new_table_def Let_def)
  qed
qed

definition alloc_total :: "'a alloc \<Rightarrow> bool" where
  "alloc_total malloc \<longleftrightarrow> (\<forall>a n. malloc a n \<noteq> None)"

lemma init_table_total:
  "alloc_total malloc \<Longrightarrow> \<exists>a'. init_table malloc lg2 a = Some (new_table lg2, a')"
  by (auto simp: init_table_def alloc_total_def Let_def)

lemma new_table_ok: "lg2 \<le> 30 \<Longrightarrow> hash_ok hf (new_table lg2)"
  using new_table_inv(1) [of lg2 hf] by (simp add: hash_ok_def)

text \<open>A full table that is not huge can be doubled.\<close>

lemma full_small:
  assumes "hash_ok hf t" and "isfull t" and "tab_count t < 2 ^ 29"
  shows "size_lg2 t \<le> 29"
proof (rule ccontr)
  assume "\<not> size_lg2 t \<le> 29"
  with assms(1) have "size_lg2 t = 30" by (simp add: hash_ok_def)
  then have "max_count t = 2 ^ 30 * 85 div 100"
    using assms(1) by (simp add: hash_ok_def table_inv_def table_shape_def upb_table_size_def)
  with assms(2,3) show False by (simp add: isfull_def)
qed

lemma rm_tab_ok:
  assumes "hash_ok hf t" and "0 < size_lg2 t"
  shows "\<exists>t'. rm_tab t k (hf k) = Ret (t', table_map t k) \<and> hash_ok hf t'
    \<and> table_map t' = (table_map t)(k := None) \<and> size_lg2 t' = size_lg2 t"
proof -
  have inv: "table_inv hf t" and sh: "table_shape t" and le: "tab_count t \<le> max_count t" "size_lg2 t \<le> 30"
    using assms(1) by (auto simp: hash_ok_def table_inv_def)
  obtain t' where t': "rm_tab t k (hf k) = Ret (t', table_map t k)" "table_inv hf t'"
    "table_map t' = (table_map t)(k := None)" "size_lg2 t' = size_lg2 t"
    "tab_count t' = (if table_map t k = None then tab_count t else tab_count t - 1)"
    using rm_tab_spec [OF inv, of k] assms(2) by auto
  have "max_count t' = max_count t"
    using sh t'(2,4) by (simp add: table_inv_def table_shape_def upb_table_size_def)
  with t' le have "hash_ok hf t'" by (auto simp: hash_ok_def)
  with t' show ?thesis by blast
qed

text \<open>Overwriting a value in place.\<close>

definition set_val :: "'k upb_table \<Rightarrow> nat \<Rightarrow> u64 \<Rightarrow> 'k upb_table" where
  "set_val t i v = t\<lparr>entries := (entries t)[i := (entries t ! i)\<lparr>val := v\<rparr>]\<rparr>"

lemma set_val_keys: "map key (entries (set_val t i v)) = map key (entries t)"
  by (cases "i < length (entries t)") (simp_all add: set_val_def map_update list_update_same_conv list_update_beyond)

lemma set_val_sel [simp]:
  "length (entries (set_val t i v)) = length (entries t)" "key (entries (set_val t i v) ! j) = key (entries t ! j)"
  "nxt (entries (set_val t i v) ! j) = nxt (entries t ! j)" "tab_count (set_val t i v) = tab_count t"
  "size_lg2 (set_val t i v) = size_lg2 t" "max_count (set_val t i v) = max_count t" "tab_mask (set_val t i v) = tab_mask t"
proof -
  have "entries (set_val t i v) ! j
      = (if j = i \<and> i < length (entries t) then (entries t ! j)\<lparr>val := v\<rparr> else entries t ! j)"
    by (auto simp: set_val_def nth_list_update list_update_beyond)
  then show "key (entries (set_val t i v) ! j) = key (entries t ! j)" "nxt (entries (set_val t i v) ! j) = nxt (entries t ! j)"
    by simp_all
qed (simp_all add: set_val_def)

lemma map_filter_map: "List.map_filter key es = List.map_filter id (map key es)"
  by (induction es) (auto simp: List.map_filter_simps split: option.splits)

lemma set_val_ok:
  assumes "hash_ok hf t"
  shows "hash_ok hf (set_val t i v)"
proof -
  have inv: "table_inv hf t" using assms by (simp add: hash_ok_def)
  then obtain ch where ch: "chains_ok (entries t) (main_pos hf t) ch" by (auto simp: table_inv_def)
  have "main_pos hf (set_val t i v) = main_pos hf t" by (simp add: fun_eq_iff main_pos_def upb_getentry_def)
  moreover have "seg (entries (set_val t i v)) ps z = seg (entries t) ps z" for ps z by (rule seg_frame) simp
  ultimately have "chains_ok (entries (set_val t i v)) (main_pos hf (set_val t i v)) ch"
    using ch by (simp add: chains_ok_def chain_ok_def)
  moreover have "keys_distinct (entries (set_val t i v))"
    using inv by (simp add: keys_distinct_def table_inv_def map_filter_map set_val_keys)
  moreover have "occupied (entries (set_val t i v)) = occupied (entries t)"
  proof -
    have "occupied es = length (filter (\<lambda>k. k \<noteq> None) (map key es))" for es :: "'a upb_tabent list"
      by (simp add: occupied_def filter_map comp_def)
    then show ?thesis by (simp only: set_val_keys)
  qed
  ultimately show ?thesis
    using assms by (auto simp: hash_ok_def table_inv_def table_shape_def upb_table_size_def)
qed

lemma set_val_map:
  assumes "hash_ok hf t" and "i < length (entries t)" and "key (entries t ! i) = Some k"
  shows "table_map (set_val t i v) = (table_map t)(k \<mapsto> v)"
proof
  fix k'
  have kd: "keys_distinct (entries t)" "keys_distinct (entries (set_val t i v))"
    using assms(1) set_val_ok [OF assms(1), of i v] by (auto simp: hash_ok_def table_inv_def)
  show "table_map (set_val t i v) k' = ((table_map t)(k \<mapsto> v)) k'"
  proof (cases "k' = k")
    case True
    then show ?thesis
      using ent_map_Some [OF kd(2), of i k] assms(2,3) by (simp add: table_map_def) (simp add: set_val_def)
  next
    case False
    have "ent_map (entries (set_val t i v)) k' = ent_map (entries t) k'"
    proof (cases "ent_map (entries t) k'")
      case None
      then have "ent_map (entries (set_val t i v)) k' = None" unfolding ent_map_None by simp
      with None show ?thesis by simp
    next
      case (Some w)
      then obtain j where j: "j < length (entries t)" "key (entries t ! j) = Some k'" "val (entries t ! j) = w"
        using ent_map_eq_Some [OF kd(1)] by auto
      then have "j \<noteq> i" using False assms(3) by auto
      then have "val (entries (set_val t i v) ! j) = w" using j by (simp add: set_val_def)
      then show ?thesis using ent_map_Some [OF kd(2), of j k'] j Some by simp
    qed
    with False show ?thesis by (simp add: table_map_def)
  qed
qed

section \<open>Arenas that do not fail\<close>

locale infallible_arena =
  fixes malloc :: "'a alloc"
  assumes malloc_total: "alloc_total malloc"

text \<open>The unbounded arena that counts the bytes it has handed out.\<close>

definition counting_malloc :: "nat alloc" where
  "counting_malloc used n = Some (used + n)"

interpretation counting: infallible_arena counting_malloc
  by unfold_locales (simp add: alloc_total_def counting_malloc_def)

end
