(* ===== verification/Map_Interface.thy ===== *)
theory Map_Interface
  imports Upb_Prelude
begin

text \<open>
  What the clients of the tables of \<^verbatim>\<open>upb/hash\<close> rely on, as a locale: lookup, insertion of a new key
  and removal behave as on a finite map, for as long as the map is smaller than a limit. The locale
  has one client lemma, on whole sequences of operations; the string and the integer table are
  instances of it.
\<close>

section \<open>Definitions\<close>

datatype 'k map_op = Insert 'k u64 | Remove 'k | Lookup 'k

text \<open>An operation on a finite map, and the value it returns.\<close>

fun map_step :: "('k \<rightharpoonup> u64) \<Rightarrow> 'k map_op \<Rightarrow> ('k \<rightharpoonup> u64) \<times> u64 option" where
  "map_step m (Insert k v) = (m(k \<mapsto> v), None)"
| "map_step m (Remove k) = (m(k := None), m k)"
| "map_step m (Lookup k) = (m, m k)"

fun map_run :: "('k \<rightharpoonup> u64) \<Rightarrow> 'k map_op list \<Rightarrow> ('k \<rightharpoonup> u64) \<times> u64 option list" where
  "map_run m [] = (m, [])"
| "map_run m (x # xs) =
     (let (m', out) = map_step m x; (m'', outs) = map_run m' xs in (m'', out # outs))"

text \<open>Only keys that are absent are inserted, with values the table can hold, and the map stays below the
  limit.\<close>

fun ops_ok :: "(u64 \<Rightarrow> bool) \<Rightarrow> nat \<Rightarrow> ('k \<rightharpoonup> u64) \<Rightarrow> 'k map_op list \<Rightarrow> bool" where
  "ops_ok val_ok limit m [] \<longleftrightarrow> True"
| "ops_ok val_ok limit m (x # xs) \<longleftrightarrow>
     (case x of Insert k v \<Rightarrow> m k = None \<and> card (dom m) < limit \<and> val_ok v | _ \<Rightarrow> True)
     \<and> ops_ok val_ok limit (fst (map_step m x)) xs"

text \<open>The same sequence on an implementation.\<close>

definition impl_step ::
  "('t \<Rightarrow> 'k \<Rightarrow> (unit, u64 option) res) \<Rightarrow> ('t \<Rightarrow> 'k \<Rightarrow> u64 \<Rightarrow> (unit, 't) res)
     \<Rightarrow> ('t \<Rightarrow> 'k \<Rightarrow> (unit, 't \<times> u64 option) res) \<Rightarrow> 't \<Rightarrow> 'k map_op \<Rightarrow> (unit, 't \<times> u64 option) res" where
  "impl_step lk ins del t x =
     (case x of
        Insert k v \<Rightarrow> bindR (ins t k v) (\<lambda>t'. Ret (t', None))
      | Remove k \<Rightarrow> del t k
      | Lookup k \<Rightarrow> bindR (lk t k) (\<lambda>r. Ret (t, r)))"

fun impl_run ::
  "('t \<Rightarrow> 'k \<Rightarrow> (unit, u64 option) res) \<Rightarrow> ('t \<Rightarrow> 'k \<Rightarrow> u64 \<Rightarrow> (unit, 't) res)
     \<Rightarrow> ('t \<Rightarrow> 'k \<Rightarrow> (unit, 't \<times> u64 option) res) \<Rightarrow> 't \<Rightarrow> 'k map_op list
     \<Rightarrow> (unit, 't \<times> u64 option list) res" where
  "impl_run lk ins del t [] = Ret (t, [])"
| "impl_run lk ins del t (x # xs) =
     bindR (impl_step lk ins del t x) (\<lambda>(t', out).
       bindR (impl_run lk ins del t' xs) (\<lambda>(t'', outs). Ret (t'', out # outs)))"

section \<open>The interface\<close>

locale upb_map =
  fixes lk :: "'t \<Rightarrow> 'k \<Rightarrow> (unit, u64 option) res"
    and ins :: "'t \<Rightarrow> 'k \<Rightarrow> u64 \<Rightarrow> (unit, 't) res"
    and del :: "'t \<Rightarrow> 'k \<Rightarrow> (unit, 't \<times> u64 option) res"
    and inv :: "'t \<Rightarrow> bool"
    and abs_map :: "'t \<Rightarrow> 'k \<Rightarrow> u64 option"
    and val_ok :: "u64 \<Rightarrow> bool"
    and limit :: nat
  assumes lk_law: "inv t \<Longrightarrow> lk t k = Ret (abs_map t k)"
    and ins_law: "inv t \<Longrightarrow> abs_map t k = None \<Longrightarrow> card (dom (abs_map t)) < limit \<Longrightarrow> val_ok v \<Longrightarrow>
      \<exists>t'. ins t k v = Ret t' \<and> inv t' \<and> abs_map t' = (abs_map t)(k \<mapsto> v)"
    and del_law: "inv t \<Longrightarrow>
      \<exists>t'. del t k = Ret (t', abs_map t k) \<and> inv t' \<and> abs_map t' = (abs_map t)(k := None)"
begin

lemma step_refines:
  assumes "inv t" and "ops_ok val_ok limit (abs_map t) [x]"
  shows "\<exists>t'. impl_step lk ins del t x = Ret (t', snd (map_step (abs_map t) x))
    \<and> inv t' \<and> abs_map t' = fst (map_step (abs_map t) x)"
proof (cases x)
  case (Insert k v)
  with assms ins_law [of t k v] show ?thesis by (auto simp: impl_step_def)
next
  case (Remove k)
  with del_law [OF assms(1), of k] show ?thesis by (auto simp: impl_step_def)
next
  case (Lookup k)
  with lk_law [OF assms(1), of k] assms(1) show ?thesis by (auto simp: impl_step_def)
qed

lemma run_refines:
  "inv t \<Longrightarrow> ops_ok val_ok limit (abs_map t) xs \<Longrightarrow>
     \<exists>t'. impl_run lk ins del t xs = Ret (t', snd (map_run (abs_map t) xs))
       \<and> inv t' \<and> abs_map t' = fst (map_run (abs_map t) xs)"
proof (induction xs arbitrary: t)
  case (Cons x xs)
  have "ops_ok val_ok limit (abs_map t) [x]" using Cons.prems(2) by simp
  from step_refines [OF Cons.prems(1) this] obtain t1 where
    t1: "impl_step lk ins del t x = Ret (t1, snd (map_step (abs_map t) x))" "inv t1"
      "abs_map t1 = fst (map_step (abs_map t) x)" by blast
  from Cons.IH [OF t1(2)] Cons.prems(2) t1(3) obtain t2 where
    t2: "impl_run lk ins del t1 xs = Ret (t2, snd (map_run (abs_map t1) xs))" "inv t2"
      "abs_map t2 = fst (map_run (abs_map t1) xs)" by auto
  with t1 show ?case by (auto simp: case_prod_beta Let_def)
qed simp

text \<open>What was inserted last is found, whatever happened to other keys since.\<close>

lemma found_after_insert:
  assumes "inv t" and "abs_map t k = None" and "card (dom (abs_map t)) < limit" and "val_ok v"
    and "ins t k v = Ret t1" and "del t1 k' = Ret (t2, r)" and "k' \<noteq> k"
  shows "lk t2 k = Ret (Some v)"
proof -
  obtain t1' where "ins t k v = Ret t1'" "inv t1'" "abs_map t1' = (abs_map t)(k \<mapsto> v)"
    using ins_law [OF assms(1-4)] by blast
  with assms(5) have t1: "inv t1" "abs_map t1 = (abs_map t)(k \<mapsto> v)" by auto
  from del_law [OF t1(1), of k'] assms(6) have t2: "inv t2" "abs_map t2 = (abs_map t1)(k' := None)" by auto
  from lk_law [OF t2(1), of k] t1(2) t2(2) assms(7) show ?thesis by simp
qed

end

end
