(* ===== verification/Str_Table.thy ===== *)
theory Str_Table
  imports Hash_Grow Map_Interface
begin

unbundle bit_operations_syntax

text \<open>
  The string table of \<^verbatim>\<open>upb/hash/common.c\<close> and \<^verbatim>\<open>str_table.h\<close>: the hash function (Wyhash, with memory
  reads that may not leave the key), growth by rehashing, insertion, lookup, removal and iteration.
  A key is the list of its bytes (shorter than \<open>2 ^ 32\<close>, the width of the stored length); storing it
  copies it into the arena, an allocation that may fail.
\<close>

section \<open>Definitions\<close>

subsection \<open>The hash function\<close>

definition upb_umul128 :: "u64 \<Rightarrow> u64 \<Rightarrow> u64 \<times> u64" where
  "upb_umul128 v0 v1 =
     (let p = ucast v0 * ucast v1 :: 128 word in (ucast p, ucast (drop_bit 64 p)))"

definition WyhashMix :: "u64 \<Rightarrow> u64 \<Rightarrow> u64" where
  "WyhashMix v0 v1 = (let (low, high) = upb_umul128 v0 v1 in low XOR high)"

definition kWyhashSalt :: "u64 list" where
  "kWyhashSalt = [0x243F6A8885A308D3, 0x13198A2E03707344, 0xA4093822299F31D0, 0x082EFA98EC4E6C89, 0x452821E638D01377]"

text \<open>The \<^verbatim>\<open>do ... while (len > 64)\<close> loop, entered with \<open>len > 64\<close>.\<close>

function wyhash_chunks :: "bytes \<Rightarrow> u64 list \<Rightarrow> nat \<Rightarrow> nat \<Rightarrow> u64 \<Rightarrow> u64 \<Rightarrow> (unit, nat \<times> nat \<times> u64) res" where
  "wyhash_chunks data salt ptr len current_state duplicated_state =
     bindR (rd_le data ptr 8) (\<lambda>a. bindR (rd_le data (ptr + 8) 8) (\<lambda>b.
     bindR (rd_le data (ptr + 16) 8) (\<lambda>c. bindR (rd_le data (ptr + 24) 8) (\<lambda>d.
     bindR (rd_le data (ptr + 32) 8) (\<lambda>e. bindR (rd_le data (ptr + 40) 8) (\<lambda>f.
     bindR (rd_le data (ptr + 48) 8) (\<lambda>g. bindR (rd_le data (ptr + 56) 8) (\<lambda>h.
       let cs0 = WyhashMix (a XOR salt ! 1) (b XOR current_state);
           cs1 = WyhashMix (c XOR salt ! 2) (d XOR current_state);
           ds0 = WyhashMix (e XOR salt ! 3) (f XOR duplicated_state);
           ds1 = WyhashMix (g XOR salt ! 4) (h XOR duplicated_state)
       in if len - 64 > 64
          then wyhash_chunks data salt (ptr + 64) (len - 64) (cs0 XOR cs1) (ds0 XOR ds1)
          else Ret (ptr + 64, len - 64, (cs0 XOR cs1) XOR (ds0 XOR ds1))))))))))"
  by pat_completeness auto
termination
  by (relation "measure (\<lambda>(data, salt, ptr, len, cs, ds). len)") auto

declare wyhash_chunks.simps [simp del]

function wyhash_blocks :: "bytes \<Rightarrow> u64 list \<Rightarrow> nat \<Rightarrow> nat \<Rightarrow> u64 \<Rightarrow> (unit, nat \<times> nat \<times> u64) res" where
  "wyhash_blocks data salt ptr len current_state =
     (if len > 16 then
        bindR (rd_le data ptr 8) (\<lambda>a. bindR (rd_le data (ptr + 8) 8) (\<lambda>b.
          wyhash_blocks data salt (ptr + 16) (len - 16)
            (WyhashMix (a XOR salt ! 1) (b XOR current_state))))
      else Ret (ptr, len, current_state))"
  by pat_completeness auto
termination
  by (relation "measure (\<lambda>(data, salt, ptr, len, cs). len)") auto

declare wyhash_blocks.simps [simp del]

definition wyhash_tail :: "bytes \<Rightarrow> nat \<Rightarrow> nat \<Rightarrow> (unit, u64 \<times> u64) res" where
  "wyhash_tail data ptr len =
     (if len > 8 then
        bindR (rd_le data ptr 8) (\<lambda>a. bindR (rd_le data (ptr + len - 8) 8) (\<lambda>b. Ret (a, b)))
      else if len > 3 then
        bindR (rd_le data ptr 4) (\<lambda>a. bindR (rd_le data (ptr + len - 4) 4) (\<lambda>b. Ret (a, b)))
      else if len > 0 then
        bindR (rd data ptr) (\<lambda>x. bindR (rd data (ptr + len div 2)) (\<lambda>y. bindR (rd data (ptr + len - 1)) (\<lambda>z.
          Ret (push_bit 16 (ucast x) OR push_bit 8 (ucast y) OR ucast z, 0))))
      else Ret (0, 0))"

definition Wyhash :: "bytes \<Rightarrow> u64 \<Rightarrow> u64 list \<Rightarrow> (unit, u64) res" where
  "Wyhash data seed salt =
     (let starting_length = of_nat (length data); current_state = seed XOR salt ! 0 in
      bindR (if length data > 64 then wyhash_chunks data salt 0 (length data) current_state current_state
             else Ret (0, length data, current_state)) (\<lambda>(ptr, len, st).
      bindR (wyhash_blocks data salt ptr len st) (\<lambda>(ptr, len, st).
      bindR (wyhash_tail data ptr len) (\<lambda>(a, b).
        let w = WyhashMix (a XOR salt ! 1) (b XOR st);
            z = salt ! 1 XOR starting_length
        in Ret (WyhashMix w z)))))"

definition upb_Hash :: "bytes \<Rightarrow> u64 \<Rightarrow> (unit, u32) res" where
  "upb_Hash p seed = bindR (Wyhash p seed kWyhashSalt) (\<lambda>h. Ret (ucast h))"

definition upb_Seed :: u64 where
  "upb_Seed = 0x69835f69597ec1cc"

text \<open>The hash of a key, total because no read leaves the key (\<open>Wyhash_in_range\<close>).\<close>

definition upb_Hash_NoSeed :: "bytes \<Rightarrow> u32" where
  "upb_Hash_NoSeed p = (case upb_Hash p upb_Seed of Ret h \<Rightarrow> h | _ \<Rightarrow> 0)"

subsection \<open>The table\<close>

type_synonym upb_strtable = "bytes upb_table"

text \<open>\<^verbatim>\<open>while ((1 << lg2) < x) lg2++\<close>, the portable form of \<^verbatim>\<open>32 - __builtin_clz(x - 1)\<close>.\<close>

function log2_loop :: "nat \<Rightarrow> nat \<Rightarrow> nat" where
  "log2_loop x lg2 = (if 2 ^ lg2 < x then log2_loop x (lg2 + 1) else lg2)"
  by pat_completeness auto
termination
  by (relation "measure (\<lambda>(x, lg2). x - 2 ^ lg2)") (auto intro!: diff_less_mono2)

declare log2_loop.simps [simp del]

definition upb_Log2Ceiling :: "nat \<Rightarrow> nat" where
  "upb_Log2Ceiling x = (if x \<le> 1 then 0 else log2_loop x 0)"

definition upb_strtable_init :: "'a alloc \<Rightarrow> nat \<Rightarrow> 'a \<Rightarrow> (upb_strtable \<times> 'a) option" where
  "upb_strtable_init malloc expected_size a =
     (let need_entries = (expected_size + 1) * 1204 div 1024 in
      init_table malloc (upb_Log2Ceiling need_entries) a)"

definition upb_strtable_clear :: "upb_strtable \<Rightarrow> upb_strtable" where
  "upb_strtable_clear t = t\<lparr>tab_count := 0, entries := replicate (upb_table_size t) empty_ent\<rparr>"

definition upb_strtable_next2 :: "upb_strtable \<Rightarrow> int \<Rightarrow> (bytes \<times> u64 \<times> int) option" where
  "upb_strtable_next2 t iter =
     (case next_tab t iter of
        None \<Rightarrow> None
      | Some tab_idx \<Rightarrow>
          Some (the (key (entries t ! tab_idx)), val (entries t ! tab_idx), int tab_idx))"

text \<open>
  The copy loop of \<^verbatim>\<open>upb_strtable_resize\<close>, with the insertion it calls as an argument. The result of the
  insertion is ignored, as in the source. The state is the new table and the arena.
\<close>

function strtable_copy ::
  "(upb_strtable \<Rightarrow> bytes \<Rightarrow> u64 \<Rightarrow> 'a \<Rightarrow> (unit, bool \<times> upb_strtable \<times> 'a) res)
     \<Rightarrow> upb_strtable \<Rightarrow> int \<Rightarrow> upb_strtable \<Rightarrow> 'a \<Rightarrow> (unit, upb_strtable \<times> 'a) res" where
  "strtable_copy ins t iter new_t a =
     (if iter < - 1 then Fault else
      case next_tab t iter of
        None \<Rightarrow> Ret (new_t, a)
      | Some i \<Rightarrow>
          bindR (ins new_t (the (key (entries t ! i))) (val (entries t ! i)) a) (\<lambda>(ok, new_t', a').
            strtable_copy ins t (int i) new_t' a'))"
  by pat_completeness auto
termination
  by (relation "measure (\<lambda>(ins, t, iter, new_t, a). nat (int (length (entries t)) - iter))")
     (auto dest!: next_tab_advances)

declare strtable_copy.simps [simp del]

definition strtable_resize ::
  "(upb_strtable \<Rightarrow> bytes \<Rightarrow> u64 \<Rightarrow> 'a \<Rightarrow> (unit, bool \<times> upb_strtable \<times> 'a) res)
     \<Rightarrow> 'a alloc \<Rightarrow> upb_strtable \<Rightarrow> nat \<Rightarrow> 'a \<Rightarrow> (unit, (upb_strtable \<times> 'a) option) res" where
  "strtable_resize ins malloc t lg2 a =
     (case init_table malloc lg2 a of
        None \<Rightarrow> Ret None
      | Some (new_t, a1) \<Rightarrow> bindR (strtable_copy ins t (- 1) new_t a1) (\<lambda>r. Ret (Some r)))"

text \<open>
  \<^verbatim>\<open>upb_strtable_insert\<close> and \<^verbatim>\<open>upb_strtable_resize\<close> call each other; the first argument bounds the
  depth of the calls. Insertion returns whether it succeeded, the table and the arena.
\<close>

fun strtable_insert ::
  "nat \<Rightarrow> 'a alloc \<Rightarrow> upb_strtable \<Rightarrow> bytes \<Rightarrow> u64 \<Rightarrow> 'a \<Rightarrow> (unit, bool \<times> upb_strtable \<times> 'a) res" where
  "strtable_insert 0 malloc t k v a = Fault"
| "strtable_insert (Suc depth) malloc t k v a =
     bindR (if isfull t
            then strtable_resize (strtable_insert depth malloc) malloc t (size_lg2 t + 1) a
            else Ret (Some (t, a))) (\<lambda>r.
       case r of
         None \<Rightarrow> Ret (False, t, a)
       | Some (t1, a1) \<Rightarrow>
           (case malloc a1 (length k + 5) of
              None \<Rightarrow> Ret (False, t1, a1)
            | Some a2 \<Rightarrow>
                bindR (insert_tab upb_Hash_NoSeed t1 k v) (\<lambda>t2. Ret (True, t2, a2))))"

declare strtable_insert.simps(2) [simp del]

text \<open>Two levels are enough: the table a resize fills is never full.\<close>

definition upb_strtable_insert ::
  "'a alloc \<Rightarrow> upb_strtable \<Rightarrow> bytes \<Rightarrow> u64 \<Rightarrow> 'a \<Rightarrow> (unit, bool \<times> upb_strtable \<times> 'a) res" where
  "upb_strtable_insert malloc t k v a = strtable_insert 2 malloc t k v a"

definition upb_strtable_resize ::
  "'a alloc \<Rightarrow> upb_strtable \<Rightarrow> nat \<Rightarrow> 'a \<Rightarrow> (unit, (upb_strtable \<times> 'a) option) res" where
  "upb_strtable_resize malloc t lg2 a = strtable_resize (strtable_insert 2 malloc) malloc t lg2 a"

definition upb_strtable_lookup2 :: "upb_strtable \<Rightarrow> bytes \<Rightarrow> (unit, u64 option) res" where
  "upb_strtable_lookup2 t k = lookup_tab t k (upb_Hash_NoSeed k)"

definition upb_strtable_remove2 :: "upb_strtable \<Rightarrow> bytes \<Rightarrow> (unit, upb_strtable \<times> u64 option) res" where
  "upb_strtable_remove2 t k = rm_tab t k (upb_Hash_NoSeed k)"

definition upb_strtable_removeiter :: "upb_strtable \<Rightarrow> nat \<Rightarrow> upb_strtable" where
  "upb_strtable_removeiter t iter = unlink_ent t iter"

definition upb_strtable_setentryvalue :: "upb_strtable \<Rightarrow> nat \<Rightarrow> u64 \<Rightarrow> upb_strtable" where
  "upb_strtable_setentryvalue t iter v = t\<lparr>entries := (entries t)[iter := (entries t ! iter)\<lparr>val := v\<rparr>]\<rparr>"

definition upb_strtable_count :: "upb_strtable \<Rightarrow> nat" where
  "upb_strtable_count t = tab_count t"

text \<open>
  The deprecated iterators: a table pointer, which may be null, and an index, in which \<open>None\<close> stands
  for the values at the top of \<^verbatim>\<open>size_t\<close> that \<^verbatim>\<open>next\<close> and \<^verbatim>\<open>upb_strtable_iter_setdone\<close> write.
\<close>

record upb_strtable_iter =
  iter_t :: "upb_strtable option"
  iter_index :: "nat option"

definition upb_strtable_begin :: "upb_strtable \<Rightarrow> upb_strtable_iter" where
  "upb_strtable_begin t = \<lparr> iter_t = Some t, iter_index = begin_tab t \<rparr>"

definition upb_strtable_next :: "upb_strtable_iter \<Rightarrow> (unit, upb_strtable_iter) res" where
  "upb_strtable_next i =
     (case iter_t i of
        None \<Rightarrow> Fault
      | Some t \<Rightarrow>
          Ret (i\<lparr>iter_index := (case iter_index i of None \<Rightarrow> None | Some j \<Rightarrow> next_tab t (int j))\<rparr>))"

definition upb_strtable_done :: "upb_strtable_iter \<Rightarrow> bool" where
  "upb_strtable_done i \<longleftrightarrow>
     (case iter_t i of
        None \<Rightarrow> True
      | Some t \<Rightarrow>
          (case iter_index i of
             None \<Rightarrow> True
           | Some j \<Rightarrow> j \<ge> upb_table_size t \<or> upb_tabent_isempty (entries t ! j)))"

definition str_tabent :: "upb_strtable_iter \<Rightarrow> bytes upb_tabent" where
  "str_tabent i = entries (the (iter_t i)) ! the (iter_index i)"

definition upb_strtable_iter_key :: "upb_strtable_iter \<Rightarrow> (unit, bytes) res" where
  "upb_strtable_iter_key i = (if upb_strtable_done i then Fault else Ret (the (key (str_tabent i))))"

definition upb_strtable_iter_value :: "upb_strtable_iter \<Rightarrow> (unit, u64) res" where
  "upb_strtable_iter_value i = (if upb_strtable_done i then Fault else Ret (val (str_tabent i)))"

definition upb_strtable_iter_setdone :: "upb_strtable_iter \<Rightarrow> upb_strtable_iter" where
  "upb_strtable_iter_setdone i = \<lparr> iter_t = None, iter_index = None \<rparr>"

text \<open>The two loops that \<^verbatim>\<open>str_table.h\<close> documents, collecting the pairs they see.\<close>

function strtable_pairs :: "upb_strtable \<Rightarrow> int \<Rightarrow> (bytes \<times> u64) list" where
  "strtable_pairs t iter =
     (if iter < - 1 then []
      else case upb_strtable_next2 t iter of
        None \<Rightarrow> []
      | Some (k, v, iter') \<Rightarrow> (k, v) # strtable_pairs t iter')"
  by pat_completeness auto
termination
  by (relation "measure (\<lambda>(t, iter). nat (int (length (entries t)) - iter))")
     (auto simp: upb_strtable_next2_def dest!: next_tab_advances split: option.splits)

declare strtable_pairs.simps [simp del]

fun strtable_for :: "nat \<Rightarrow> upb_strtable_iter \<Rightarrow> (unit, (bytes \<times> u64) list) res" where
  "strtable_for fuel i =
     (if upb_strtable_done i then Ret []
      else case fuel of
        0 \<Rightarrow> Fault
      | Suc fuel' \<Rightarrow>
          bindR (upb_strtable_iter_key i) (\<lambda>k. bindR (upb_strtable_iter_value i) (\<lambda>v.
          bindR (upb_strtable_next i) (\<lambda>i'. bindR (strtable_for fuel' i') (\<lambda>ps. Ret ((k, v) # ps))))))"

declare strtable_for.simps [simp del]

section \<open>The hash reads only the key\<close>

lemma wyhash_chunks_in_range:
  "64 < len \<Longrightarrow> ptr + len \<le> length data \<Longrightarrow>
     \<exists>ptr' len' st. wyhash_chunks data salt ptr len cs ds = Ret (ptr', len', st) \<and> ptr' + len' = ptr + len"
proof (induction len arbitrary: ptr cs ds rule: less_induct)
  case (less len)
  have IH: "\<exists>ptr' len' st. wyhash_chunks data salt (ptr + 64) (len - 64) x y = Ret (ptr', len', st) \<and> ptr' + len' = ptr + len"
    if "64 < len - 64" for x y
    using less.IH [of "len - 64" "ptr + 64" x y] less.prems that by simp
  show ?case
    by (subst wyhash_chunks.simps, intro bind_rd_le [where Q = "\<lambda>r. \<exists>ptr' len' st. r = Ret (ptr', len', st) \<and> ptr' + len' = ptr + len"])
       (use less.prems IH in \<open>auto simp: Let_def\<close>)
qed

lemma wyhash_blocks_in_range:
  "ptr + len \<le> length data \<Longrightarrow>
     \<exists>ptr' len' st. wyhash_blocks data salt ptr len cs = Ret (ptr', len', st) \<and> ptr' + len' = ptr + len \<and> len' \<le> 16"
proof (induction len arbitrary: ptr cs rule: less_induct)
  case (less len)
  show ?case
  proof (cases "16 < len")
    case True
    have IH: "\<exists>ptr' len' st. wyhash_blocks data salt (ptr + 16) (len - 16) x = Ret (ptr', len', st) \<and> ptr' + len' = ptr + len \<and> len' \<le> 16" for x
      using less.IH [of "len - 16" "ptr + 16" x] less.prems True by simp
    have "\<exists>ptr' len' st. bindR (rd_le data ptr 8) (\<lambda>a. bindR (rd_le data (ptr + 8) 8) (\<lambda>b.
          wyhash_blocks data salt (ptr + 16) (len - 16) (WyhashMix (a XOR salt ! 1) (b XOR cs))))
        = Ret (ptr', len', st) \<and> ptr' + len' = ptr + len \<and> len' \<le> 16"
      by (intro bind_rd_le [where Q = "\<lambda>r. \<exists>ptr' len' st. r = Ret (ptr', len', st) \<and> ptr' + len' = ptr + len \<and> len' \<le> 16"])
         (use less.prems True IH in auto)
    with True show ?thesis by (subst wyhash_blocks.simps) simp
  next
    case False
    then show ?thesis by (subst wyhash_blocks.simps) simp
  qed
qed

lemma wyhash_tail_in_range:
  assumes "ptr + len \<le> length data"
  shows "\<exists>a b. wyhash_tail data ptr len = Ret (a, b)"
proof -
  have len: "ptr + len - 8 + 8 \<le> length data" if "8 < len" using that assms by simp
  have len4: "ptr + len - 4 + 4 \<le> length data" if "3 < len" using that assms by simp
  show ?thesis
    unfolding wyhash_tail_def
    using assms len len4 by (auto intro!: bind_rd_le [where Q = "\<lambda>r. \<exists>a b. r = Ret (a, b)"])
qed

lemma Wyhash_in_range: "\<exists>h. Wyhash data seed salt = Ret h"
proof -
  let ?s = "seed XOR salt ! 0"
  obtain p n st where 1: "(if length data > 64 then wyhash_chunks data salt 0 (length data) ?s ?s
      else Ret (0, length data, ?s)) = (Ret (p, n, st) :: (unit, _) res)" "p + n = length data"
    using wyhash_chunks_in_range [of "length data" 0 data salt ?s ?s] by (cases "64 < length data") auto
  obtain p' n' st' where 2: "wyhash_blocks data salt p n st = Ret (p', n', st')" "p' + n' = length data"
    using wyhash_blocks_in_range [of p n data salt st] 1(2) by auto
  obtain a b where "wyhash_tail data p' n' = Ret (a, b)" using wyhash_tail_in_range [of p' n' data] 2(2) by auto
  with 1(1) 2(1) show ?thesis by (simp add: Wyhash_def Let_def)
qed

section \<open>Growing\<close>

text \<open>The copy loop goes over the pairs of the old table in order.\<close>

fun copy_list ::
  "(upb_strtable \<Rightarrow> bytes \<Rightarrow> u64 \<Rightarrow> 'a \<Rightarrow> (unit, bool \<times> upb_strtable \<times> 'a) res)
     \<Rightarrow> (bytes \<times> u64) list \<Rightarrow> upb_strtable \<Rightarrow> 'a \<Rightarrow> (unit, upb_strtable \<times> 'a) res" where
  "copy_list ins [] nt a = Ret (nt, a)"
| "copy_list ins ((k, v) # ps) nt a = bindR (ins nt k v a) (\<lambda>(ok, nt', a'). copy_list ins ps nt' a')"

lemma strtable_copy_list:
  "- 1 \<le> iter \<Longrightarrow> strtable_copy ins t iter nt a
     = copy_list ins (map (pair_at t) (occupied_from t (nat (iter + 1)))) nt a"
proof (induction ins t iter nt a rule: strtable_copy.induct)
  case (1 ins t iter nt a)
  show ?case
  proof (cases "next_tab t iter")
    case None
    with 1(2) occupied_from_next [OF 1(2), of t] show ?thesis by (subst strtable_copy.simps) simp
  next
    case (Some i)
    have IH: "strtable_copy ins t (int i) nt' a' = copy_list ins (map (pair_at t) (occupied_from t (Suc i))) nt' a'"
      if "ins nt (the (key (entries t ! i))) (val (entries t ! i)) a = Ret (ok, nt', a')" for ok nt' a'
      using 1(1) [OF _ Some that refl refl] 1(2) by (simp add: nat_add_distrib)
    show ?thesis
    proof (cases "ins nt (the (key (entries t ! i))) (val (entries t ! i)) a")
      case (Ret r)
      obtain ok nt' a' where "r = (ok, nt', a')" by (cases r)
      with Ret IH Some 1(2) occupied_from_next [OF 1(2), of t] show ?thesis
        by (subst strtable_copy.simps) (simp add: pair_at_def)
    qed (use Some 1(2) occupied_from_next [OF 1(2), of t] in \<open>subst strtable_copy.simps, simp add: pair_at_def\<close>)+
  qed
qed

lemma strtable_insert_room:
  assumes "alloc_total malloc" and "hash_ok upb_Hash_NoSeed t" and "\<not> isfull t" and "table_map t k = None"
  shows "\<exists>t' a'. strtable_insert (Suc d) malloc t k v a = Ret (True, t', a') \<and> hash_ok upb_Hash_NoSeed t'
    \<and> table_map t' = (table_map t)(k \<mapsto> v) \<and> size_lg2 t' = size_lg2 t \<and> max_count t' = max_count t
    \<and> tab_count t' = tab_count t + 1"
proof -
  obtain a' where "malloc a (length k + 5) = Some a'" using assms(1) unfolding alloc_total_def by blast
  moreover obtain t' where "insert_tab upb_Hash_NoSeed t k v = Ret t'" "hash_ok upb_Hash_NoSeed t'"
    "table_map t' = (table_map t)(k \<mapsto> v)" "size_lg2 t' = size_lg2 t" "max_count t' = max_count t"
    "tab_count t' = tab_count t + 1"
    using hash_ok_insert [OF assms(2-4)] by blast
  ultimately show ?thesis using assms(3) by (simp add: strtable_insert.simps(2))
qed

lemma copy_list_spec:
  assumes "alloc_total malloc"
  shows "hash_ok upb_Hash_NoSeed nt \<Longrightarrow> tab_count nt + length ps \<le> max_count nt \<Longrightarrow> distinct (map fst ps) \<Longrightarrow>
    (\<forall>k \<in> fst ` set ps. table_map nt k = None) \<Longrightarrow>
    \<exists>nt' a'. copy_list (strtable_insert (Suc d) malloc) ps nt a = Ret (nt', a') \<and> hash_ok upb_Hash_NoSeed nt'
      \<and> table_map nt' = table_map nt ++ map_of ps \<and> size_lg2 nt' = size_lg2 nt \<and> max_count nt' = max_count nt
      \<and> tab_count nt' = tab_count nt + length ps"
proof (induction ps arbitrary: nt a)
  case Nil
  then show ?case by simp
next
  case (Cons p ps)
  obtain k v where p: "p = (k, v)" by (cases p)
  have nf: "\<not> isfull nt" using Cons.prems(2) by (simp add: isfull_def)
  have absent: "table_map nt k = None" using Cons.prems(4) p by simp
  obtain n1 a1 where n1: "strtable_insert (Suc d) malloc nt k v a = Ret (True, n1, a1)" "hash_ok upb_Hash_NoSeed n1"
    "table_map n1 = (table_map nt)(k \<mapsto> v)" "size_lg2 n1 = size_lg2 nt" "max_count n1 = max_count nt"
    "tab_count n1 = tab_count nt + 1"
    using strtable_insert_room [OF assms Cons.prems(1) nf absent] by blast
  have fresh: "\<forall>j \<in> fst ` set ps. table_map n1 j = None"
  proof
    fix j assume j: "j \<in> fst ` set ps"
    then have "j \<noteq> k" using Cons.prems(3) p by auto
    with j Cons.prems(4) n1(3) show "table_map n1 j = None" by auto
  qed
  have room: "tab_count n1 + length ps \<le> max_count n1" and dist: "distinct (map fst ps)"
    using Cons.prems(2,3) n1(5,6) by simp_all
  obtain nt' a' where nt':
    "copy_list (strtable_insert (Suc d) malloc) ps n1 a1 = Ret (nt', a')" "hash_ok upb_Hash_NoSeed nt'"
    "table_map nt' = table_map n1 ++ map_of ps" "size_lg2 nt' = size_lg2 n1" "max_count nt' = max_count n1"
    "tab_count nt' = tab_count n1 + length ps"
    using Cons.IH [OF n1(2) room dist fresh, of a1] by blast
  have "k \<notin> fst ` set ps" using Cons.prems(3) p by simp
  with nt'(3) n1(3) p have "table_map nt' = table_map nt ++ map_of (p # ps)"
    by (simp add: map_add_upd_left dom_map_of_conv_image_fst)
  moreover have "copy_list (strtable_insert (Suc d) malloc) (p # ps) nt a = Ret (nt', a')"
    using nt'(1) n1(1) p by simp
  moreover have "size_lg2 nt' = size_lg2 nt \<and> max_count nt' = max_count nt
      \<and> tab_count nt' = tab_count nt + length (p # ps)"
    using nt' n1 by simp
  ultimately show ?case using nt'(2) by blast
qed

lemma strtable_resize_spec:
  assumes total: "alloc_total malloc" and ok: "hash_ok upb_Hash_NoSeed t" and lg: "lg2 \<le> 30"
    and room: "tab_count t \<le> max_count (new_table lg2 :: upb_strtable)"
  shows "\<exists>t' a'. strtable_resize (strtable_insert (Suc d) malloc) malloc t lg2 a = Ret (Some (t', a'))
    \<and> hash_ok upb_Hash_NoSeed t' \<and> table_map t' = table_map t \<and> size_lg2 t' = lg2
    \<and> max_count t' = max_count (new_table lg2 :: upb_strtable) \<and> tab_count t' = tab_count t"
proof -
  let ?nt = "new_table lg2 :: upb_strtable" and ?ps = "map (pair_at t) (occupied_from t 0)"
  have inv: "table_inv upb_Hash_NoSeed t" using ok by (simp add: hash_ok_def)
  obtain a1 where a1: "init_table malloc lg2 a = Some (?nt, a1)" using init_table_total [OF total] by blast
  have nt: "hash_ok upb_Hash_NoSeed ?nt" "table_map ?nt = Map.empty" "tab_count ?nt = 0" "size_lg2 ?nt = lg2"
    using lg new_table_ok [of lg2] new_table_inv(2) [of lg2] by simp_all
  obtain t' a' where t': "copy_list (strtable_insert (Suc d) malloc) ?ps ?nt a1 = Ret (t', a')"
    "hash_ok upb_Hash_NoSeed t'" "table_map t' = table_map ?nt ++ map_of ?ps" "size_lg2 t' = size_lg2 ?nt"
    "max_count t' = max_count ?nt" "tab_count t' = tab_count ?nt + length ?ps"
    using copy_list_spec [OF total nt(1), of ?ps d a1] occupied_pairs(2,3) [OF inv] nt(2,3) room by auto
  have "strtable_copy (strtable_insert (Suc d) malloc) t (- 1) ?nt a1 = Ret (t', a')"
    using strtable_copy_list [of "- 1" _ t ?nt a1] t'(1) by simp
  then have "strtable_resize (strtable_insert (Suc d) malloc) malloc t lg2 a = Ret (Some (t', a'))"
    by (simp add: strtable_resize_def a1)
  moreover have "table_map t' = table_map t" using t'(3) nt(2) occupied_pairs(1) [OF inv] by simp
  ultimately show ?thesis using t' nt occupied_pairs(3) [OF inv] by auto
qed

lemma upb_strtable_insert_spec:
  assumes total: "alloc_total malloc" and ok: "hash_ok upb_Hash_NoSeed t" and new: "table_map t k = None"
    and small: "card (dom (table_map t)) < 2 ^ 29"
  shows "\<exists>t' a'. upb_strtable_insert malloc t k v a = Ret (True, t', a') \<and> hash_ok upb_Hash_NoSeed t'
    \<and> table_map t' = (table_map t)(k \<mapsto> v) \<and> size_lg2 t \<le> size_lg2 t' \<and> 0 < size_lg2 t'"
proof -
  have inv: "table_inv upb_Hash_NoSeed t" and sh: "table_shape t" and le: "tab_count t \<le> max_count t"
    using ok by (auto simp: hash_ok_def table_inv_def)
  have cnt: "tab_count t < 2 ^ 29" using small count_card_dom [OF inv] by simp
  show ?thesis
  proof (cases "isfull t")
    case False
    with strtable_insert_room [OF total ok False new, of 1 v a] isfull_room(2) [OF sh False le]
    show ?thesis by (auto simp: upb_strtable_insert_def numeral_2_eq_2)
  next
    case True
    have lg: "size_lg2 t \<le> 29" by (rule full_small [OF ok True cnt])
    have grow: "tab_count t < max_count (new_table (size_lg2 t + 1) :: upb_strtable)"
      using max_count_grows [OF sh lg] True by (simp add: isfull_def)
    obtain t1 a1 where t1: "strtable_resize (strtable_insert (Suc 0) malloc) malloc t (size_lg2 t + 1) a = Ret (Some (t1, a1))"
      "hash_ok upb_Hash_NoSeed t1" "table_map t1 = table_map t" "size_lg2 t1 = size_lg2 t + 1"
      "max_count t1 = max_count (new_table (size_lg2 t + 1) :: upb_strtable)" "tab_count t1 = tab_count t"
      using strtable_resize_spec [OF total ok, of "size_lg2 t + 1" 0 a] lg grow by auto
    have nf: "\<not> isfull t1" using t1(5,6) grow by (simp add: isfull_def)
    obtain t2 where t2: "insert_tab upb_Hash_NoSeed t1 k v = Ret t2" "hash_ok upb_Hash_NoSeed t2"
      "table_map t2 = (table_map t1)(k \<mapsto> v)" "size_lg2 t2 = size_lg2 t1"
      using hash_ok_insert [OF t1(2) nf] new t1(3) by metis
    obtain a2 where a2: "malloc a1 (length k + 5) = Some a2" using total unfolding alloc_total_def by blast
    have "strtable_insert 2 malloc t k v a = Ret (True, t2, a2)"
      using True t1(1) t2(1) a2 by (simp add: numeral_2_eq_2 strtable_insert.simps(2) [of "Suc 0"])
    with t2 t1 show ?thesis by (auto simp: upb_strtable_insert_def)
  qed
qed

section \<open>The string table is a finite map\<close>

text \<open>
  The state of a client: a table and the arena it allocates from. A failed insertion is the error
  result. The arena is a parameter that never fails in this section.
\<close>

definition str_lookup :: "upb_strtable \<times> 'a \<Rightarrow> bytes \<Rightarrow> (unit, u64 option) res" where
  "str_lookup s k = upb_strtable_lookup2 (fst s) k"

definition str_insert :: "'a alloc \<Rightarrow> upb_strtable \<times> 'a \<Rightarrow> bytes \<Rightarrow> u64 \<Rightarrow> (unit, upb_strtable \<times> 'a) res" where
  "str_insert malloc s k v =
     bindR (upb_strtable_insert malloc (fst s) k v (snd s)) (\<lambda>(ok, t', a'). if ok then Ret (t', a') else Raise ())"

definition str_remove :: "upb_strtable \<times> 'a \<Rightarrow> bytes \<Rightarrow> (unit, (upb_strtable \<times> 'a) \<times> u64 option) res" where
  "str_remove s k = bindR (upb_strtable_remove2 (fst s) k) (\<lambda>(t', r). Ret ((t', snd s), r))"

definition str_inv :: "upb_strtable \<times> 'a \<Rightarrow> bool" where
  "str_inv s \<longleftrightarrow> hash_ok upb_Hash_NoSeed (fst s) \<and> 0 < size_lg2 (fst s)"

definition str_map :: "upb_strtable \<times> 'a \<Rightarrow> bytes \<Rightarrow> u64 option" where
  "str_map s = table_map (fst s)"

sublocale infallible_arena \<subseteq> str: upb_map str_lookup "str_insert malloc" str_remove str_inv str_map "\<lambda>_. True" "2 ^ 29"
proof unfold_locales
  fix s :: "upb_strtable \<times> 'a" and k
  assume inv: "str_inv s"
  then have ti: "table_inv upb_Hash_NoSeed (fst s)" by (simp add: str_inv_def hash_ok_def)
  show "str_lookup s k = Ret (str_map s k)"
    using lookup_tab_spec [OF ti, of k] by (simp add: str_lookup_def upb_strtable_lookup2_def str_map_def)
  show "\<exists>s'. str_remove s k = Ret (s', str_map s k) \<and> str_inv s' \<and> str_map s' = (str_map s)(k := None)"
    using rm_tab_ok [of upb_Hash_NoSeed "fst s" k] inv
    by (auto simp: str_remove_def upb_strtable_remove2_def str_inv_def str_map_def)
next
  fix s :: "upb_strtable \<times> 'a" and k v
  assume inv: "str_inv s" and new: "str_map s k = None" and small: "card (dom (str_map s)) < 2 ^ 29"
  obtain t' a' where "upb_strtable_insert malloc (fst s) k v (snd s) = Ret (True, t', a')"
    "hash_ok upb_Hash_NoSeed t'" "table_map t' = (table_map (fst s))(k \<mapsto> v)" "0 < size_lg2 t'"
    using upb_strtable_insert_spec [OF malloc_total, of "fst s" k v "snd s"] inv new small
    by (auto simp: str_inv_def str_map_def)
  then show "\<exists>s'. str_insert malloc s k v = Ret s' \<and> str_inv s' \<and> str_map s' = (str_map s)(k \<mapsto> v)"
    by (simp add: str_insert_def str_inv_def str_map_def)
qed

context infallible_arena
begin

lemma strtable_run:
  "str_inv s \<Longrightarrow> ops_ok (\<lambda>_. True) (2 ^ 29) (str_map s) xs \<Longrightarrow>
     \<exists>s'. impl_run str_lookup (str_insert malloc) str_remove s xs = Ret (s', snd (map_run (str_map s) xs))
       \<and> str_inv s' \<and> str_map s' = fst (map_run (str_map s) xs)"
  by (rule str.run_refines)

end

lemma log2_loop_ge: "x \<le> 2 ^ log2_loop x n"
  by (induction x n rule: log2_loop.induct) (subst log2_loop.simps, auto)

lemma log2_loop_le: "n \<le> m \<Longrightarrow> x \<le> 2 ^ m \<Longrightarrow> log2_loop x n \<le> m"
proof (induction x n rule: log2_loop.induct)
  case (1 x n)
  show ?case
  proof (cases "2 ^ n < x")
    case True
    then have "n \<noteq> m" using 1(3) by auto
    then show ?thesis using 1 True by (subst log2_loop.simps) simp
  next
    case False
    then show ?thesis using 1 by (subst log2_loop.simps) simp
  qed
qed

lemma upb_Log2Ceiling_spec:
  "x \<le> 2 ^ upb_Log2Ceiling x" "x \<le> 2 ^ m \<Longrightarrow> upb_Log2Ceiling x \<le> m" "1 < x \<Longrightarrow> 0 < upb_Log2Ceiling x"
proof -
  show ge: "x \<le> 2 ^ upb_Log2Ceiling x" using log2_loop_ge [of x 0] by (auto simp: upb_Log2Ceiling_def)
  show "x \<le> 2 ^ m \<Longrightarrow> upb_Log2Ceiling x \<le> m" using log2_loop_le [of 0 m x] by (simp add: upb_Log2Ceiling_def)
  show "1 < x \<Longrightarrow> 0 < upb_Log2Ceiling x" using ge by (cases "upb_Log2Ceiling x") auto
qed

lemma upb_strtable_init_ok:
  assumes "upb_strtable_init malloc n a = Some (t, a')" and "0 < n" and "n < 2 ^ 29"
  shows "str_inv (t, a')" and "str_map (t, a') = Map.empty"
proof -
  let ?need = "(n + 1) * 1204 div 1024"
  have t: "t = new_table (upb_Log2Ceiling ?need)"
    using assms(1) by (auto simp: upb_strtable_init_def init_table_def Let_def split: if_splits)
  have "?need \<le> 2 ^ 30" using assms(3) by simp
  then have "upb_Log2Ceiling ?need \<le> 30" by (rule upb_Log2Ceiling_spec(2))
  moreover have "0 < upb_Log2Ceiling ?need" using assms(2) by (intro upb_Log2Ceiling_spec(3)) simp
  ultimately show "str_inv (t, a')" "str_map (t, a') = Map.empty"
    using new_table_ok [of "upb_Log2Ceiling ?need" upb_Hash_NoSeed] new_table_inv(2) [of "upb_Log2Ceiling ?need"]
    by (simp_all add: str_inv_def str_map_def t)
qed

text \<open>
  C6. A string table made by \<^verbatim>\<open>upb_strtable_init\<close> for at least one element, on an arena that does not
  run out of memory, behaves as a finite map under every sequence of \<^verbatim>\<open>upb_strtable_insert\<close> (of keys
  that are absent, below \<open>2 ^ 29\<close> of them), \<^verbatim>\<open>upb_strtable_lookup2\<close> and \<^verbatim>\<open>upb_strtable_remove2\<close>: every
  result is the map's, through collisions, evictions and rehashes, no assertion fails and no entry
  pointer leaves the table.\<close>

theorem strtable_refines_map:
  assumes "alloc_total malloc" and "upb_strtable_init malloc n a = Some (t, a')" and "0 < n" and "n < 2 ^ 29"
    and "ops_ok (\<lambda>_. True) (2 ^ 29) Map.empty ops"
  shows "\<exists>t'. impl_run str_lookup (str_insert malloc) str_remove (t, a') ops = Ret (t', snd (map_run Map.empty ops))
    \<and> str_map t' = fst (map_run Map.empty ops)"
proof -
  have "infallible_arena malloc" using assms(1) by unfold_locales
  note refines = infallible_arena.strtable_run [OF this, of "(t, a')" ops]
  show ?thesis using refines upb_strtable_init_ok [OF assms(2-4)] assms(5) by auto
qed

theorem strtable_refines_map_witness:
  "\<exists>t'. impl_run str_lookup (str_insert counting_malloc) str_remove (new_table 1, 48)
       [Insert [7] 5, Insert [9, 1] 6, Lookup [7], Remove [7], Lookup [7], Lookup [9, 1]]
     = Ret (t', [None, None, Some 5, Some 5, None, Some 6])"
proof -
  let ?ops = "[Insert [7] 5, Insert [9, 1] 6, Lookup [7], Remove [7], Lookup [7], Lookup [9, 1]] :: bytes map_op list"
  have "alloc_total counting_malloc" by (simp add: alloc_total_def counting_malloc_def)
  moreover have "upb_Log2Ceiling 2 = 1" by (simp add: upb_Log2Ceiling_def log2_loop.simps [of 2])
  then have "upb_strtable_init counting_malloc 1 0 = Some (new_table 1, 48)"
    by (simp add: upb_strtable_init_def init_table_def counting_malloc_def new_table_def Let_def)
  moreover have "ops_ok (\<lambda>_. True) (2 ^ 29) Map.empty ?ops" by simp
  ultimately show ?thesis using strtable_refines_map [of counting_malloc 1 0 "new_table 1" 48 ?ops] by (auto simp del: impl_run.simps)
qed

section \<open>Iteration\<close>

lemma strtable_pairs_list:
  "- 1 \<le> iter \<Longrightarrow> strtable_pairs t iter = map (pair_at t) (occupied_from t (nat (iter + 1)))"
proof (induction t iter rule: strtable_pairs.induct)
  case (1 t iter)
  show ?case
  proof (cases "next_tab t iter")
    case None
    then show ?thesis
      using 1(2) occupied_from_next [OF 1(2), of t]
      by (subst strtable_pairs.simps) (simp add: upb_strtable_next2_def)
  next
    case (Some i)
    have "strtable_pairs t (int i) = map (pair_at t) (occupied_from t (Suc i))"
      using 1(1) [of _ _ _ _ "int i"] 1(2) Some by (simp add: upb_strtable_next2_def nat_add_distrib)
    with Some 1(2) occupied_from_next [OF 1(2), of t] show ?thesis
      by (subst strtable_pairs.simps) (simp add: upb_strtable_next2_def pair_at_def)
  qed
qed

lemma strtable_for_list:
  assumes "table_shape t" and "- 1 \<le> i"
    and "length (occupied_from t (nat (i + 1))) \<le> fuel"
  shows "strtable_for fuel \<lparr>iter_t = Some t, iter_index = next_tab t i\<rparr>
    = Ret (map (pair_at t) (occupied_from t (nat (i + 1))))"
  using assms(2,3)
proof (induction fuel arbitrary: i)
  case 0
  then have "next_tab t i = None" using occupied_from_next [of i t] by (auto split: option.splits)
  with 0 occupied_from_next [of i t] show ?case by (simp add: strtable_for.simps upb_strtable_done_def)
next
  case (Suc fuel)
  show ?case
  proof (cases "next_tab t i")
    case None
    with Suc.prems occupied_from_next [of i t] show ?thesis by (simp add: strtable_for.simps upb_strtable_done_def)
  next
    case (Some j)
    let ?it = "\<lparr>iter_t = Some t, iter_index = Some j\<rparr>"
    have occ: "occupied_from t (nat (i + 1)) = j # occupied_from t (Suc j)"
      using occupied_from_next [OF Suc.prems(1), of t] Some by simp
    have IH: "strtable_for fuel \<lparr>iter_t = Some t, iter_index = next_tab t (int j)\<rparr>
        = Ret (map (pair_at t) (occupied_from t (Suc j)))"
      using Suc.IH [of "int j"] Suc.prems(2) occ by (simp add: nat_add_distrib)
    have "upb_table_size t = length (entries t)" using assms(1) by (simp add: table_shape_def)
    then have "\<not> upb_strtable_done ?it"
      using next_tab_Some [OF Some] by (auto simp: upb_strtable_done_def upb_tabent_isempty_def)
    with IH show ?thesis
      by (subst strtable_for.simps)
         (simp add: Some occ upb_strtable_iter_key_def upb_strtable_iter_value_def str_tabent_def
            upb_strtable_next_def pair_at_def)
  qed
qed

text \<open>
  C26. Both documented loops over a string table, the one with \<^verbatim>\<open>upb_strtable_next2\<close> and the one with the
  deprecated iterator, end, and see every key of the table exactly once, with its value.\<close>

theorem strtable_iteration_complete:
  assumes "table_inv upb_Hash_NoSeed t"
  shows "distinct (map fst (strtable_pairs t (- 1))) \<and> map_of (strtable_pairs t (- 1)) = table_map t
    \<and> length (strtable_pairs t (- 1)) = upb_strtable_count t
    \<and> strtable_for (upb_strtable_count t) (upb_strtable_begin t) = Ret (strtable_pairs t (- 1))"
proof -
  have sh: "table_shape t" using assms by (simp add: table_inv_def)
  have ps: "strtable_pairs t (- 1) = map (pair_at t) (occupied_from t 0)" using strtable_pairs_list [of "- 1" t] by simp
  show ?thesis
    using occupied_pairs [OF assms] strtable_for_list [OF sh, of "- 1" "upb_strtable_count t"]
    by (simp add: ps upb_strtable_begin_def begin_tab_def upb_strtable_count_def)
qed

text \<open>A table with two colliding keys, as two insertions into a table of four entries make it.\<close>

definition two_keys :: upb_strtable where
  "two_keys = (new_table 2)\<lparr>tab_count := 2, entries :=
     [\<lparr>key = Some [1], val = 5, nxt = Some 1\<rparr>, \<lparr>key = Some [2], val = 6, nxt = None\<rparr>, empty_ent, empty_ent]\<rparr>"

definition one_key :: upb_strtable where
  "one_key = (new_table 2)\<lparr>tab_count := 1, entries :=
     [\<lparr>key = Some [1], val = 5, nxt = None\<rparr>, empty_ent, empty_ent, empty_ent]\<rparr>"

lemma two_keys_inserted:
  "upb_strtable_insert counting_malloc (new_table 2) [1] 5 96 = Ret (True, one_key, 102)"
  "upb_strtable_insert counting_malloc one_key [2] 6 102 = Ret (True, two_keys, 108)"
  by code_simp+

lemma two_keys_inv: "table_inv upb_Hash_NoSeed two_keys"
proof -
  have total: "alloc_total counting_malloc" by (simp add: alloc_total_def counting_malloc_def)
  have one: "hash_ok upb_Hash_NoSeed one_key" "table_map one_key = [[1] \<mapsto> 5]"
    using upb_strtable_insert_spec [OF total new_table_ok, of 2 "[1]" 5 96] two_keys_inserted(1)
    by (auto simp: new_table_inv(2))
  then have "table_map one_key [2] = None" "card (dom (table_map one_key)) < 2 ^ 29" by simp_all
  with upb_strtable_insert_spec [OF total one(1), of "[2]" 6 102] two_keys_inserted(2)
  show ?thesis by (auto simp: hash_ok_def)
qed

theorem strtable_iteration_complete_witness:
  "strtable_for (upb_strtable_count two_keys) (upb_strtable_begin two_keys) = Ret (strtable_pairs two_keys (- 1))
    \<and> length (strtable_pairs two_keys (- 1)) = 2"
  using strtable_iteration_complete [OF two_keys_inv] by (auto simp: upb_strtable_count_def two_keys_def)

section \<open>Where the table is not a map\<close>

text \<open>
  C37. A table that \<^verbatim>\<open>upb_strtable_init\<close> makes for an expected size of zero has no entries. Lookups and
  insertions handle it; \<^verbatim>\<open>upb_strtable_remove2\<close> does not: it reads the entry of the key through a null
  pointer, whatever the key.\<close>

theorem strtable_remove_without_entries:
  "upb_strtable_init malloc 0 a = Some (new_table 0, a) \<and> upb_strtable_lookup2 (new_table 0) k = Ret None
    \<and> upb_strtable_remove2 (new_table 0) k = Fault"
  by (simp add: upb_strtable_init_def upb_Log2Ceiling_def init_table_def new_table_def Let_def
    upb_strtable_lookup2_def lookup_tab_def findentry_def upb_strtable_remove2_def rm_tab_def)

text \<open>An arena with a fixed number of bytes left.\<close>

definition bounded_malloc :: "nat alloc" where
  "bounded_malloc left n = (if n \<le> left then Some (left - n) else None)"


definition full_table :: upb_strtable where
  "full_table = (new_table 1)\<lparr>tab_count := 1, entries :=
     [empty_ent, \<lparr>key = Some [4, 4, 4, 4], val = 5, nxt = None\<rparr>]\<rparr>"

text \<open>
  C39. \<^verbatim>\<open>upb_strtable_insert\<close> can return true and lose a key that was in the table: \<^verbatim>\<open>upb_strtable_resize\<close>
  ignores the result of the insertions it makes, so when the arena has room for the new entry array
  and the new key but not for a copy of the old one, the old key is dropped.\<close>

theorem strtable_insert_drops_key:
  "\<exists>k. upb_strtable_insert bounded_malloc (new_table 1) k 5 9 = Ret (True, full_table, 0)
    \<and> upb_strtable_lookup2 full_table k = Ret (Some 5)
    \<and> (\<exists>t'. upb_strtable_insert bounded_malloc full_table [2] 6 102 = Ret (True, t', 0)
         \<and> upb_strtable_lookup2 t' k = Ret None)"
proof (intro exI conjI)
  show "upb_strtable_insert bounded_malloc (new_table 1) [4, 4, 4, 4] 5 9 = Ret (True, full_table, 0)" by code_simp
  show "upb_strtable_lookup2 full_table [4, 4, 4, 4] = Ret (Some 5)" by code_simp
  show "upb_strtable_insert bounded_malloc full_table [2] 6 102
    = Ret (True, (new_table 2)\<lparr>tab_count := 1, entries := 
        [\<lparr>key = Some [2], val = 6, nxt = None\<rparr>, empty_ent, empty_ent, empty_ent]\<rparr>, 0)" by code_simp
  show "upb_strtable_lookup2 ((new_table 2)\<lparr>tab_count := 1, entries := 
        [\<lparr>key = Some [2], val = 6, nxt = None\<rparr>, empty_ent, empty_ent, empty_ent]\<rparr>) [4, 4, 4, 4] = Ret None" by code_simp
qed

end
