(* ===== verification/Int_Table.thy ===== *)
theory Int_Table
  imports Hash_Grow Map_Interface
begin

unbundle bit_operations_syntax

text \<open>
  The integer table of \<^verbatim>\<open>upb/hash/common.c\<close> and \<^verbatim>\<open>int_table.h\<close>: small keys live in an array, the others
  in the hash table, and \<^verbatim>\<open>upb_inttable_compact\<close> chooses the split from a histogram of the keys. An
  array slot is free when it holds \<open>2 ^ 64 - 1\<close>, which is therefore no value; the array always has slot
  0, so that the key 0, which would mark an empty entry, is never in the hash part.
\<close>

section \<open>Definitions\<close>

definition upb_inthash :: "u64 \<Rightarrow> u32" where
  "upb_inthash k = ucast k"

definition upb_arrhas :: "u64 \<Rightarrow> bool" where
  "upb_arrhas v \<longleftrightarrow> v \<noteq> - 1"

record upb_inttable =
  int_t :: "u64 upb_table"
  int_array :: "u64 list"
  array_count :: nat

abbreviation array_size :: "upb_inttable \<Rightarrow> nat" where
  "array_size t \<equiv> length (int_array t)"

definition upb_inttable_count :: "upb_inttable \<Rightarrow> nat" where
  "upb_inttable_count t = tab_count (int_t t) + array_count t"

definition upb_inttable_sizedinit ::
  "'a alloc \<Rightarrow> nat \<Rightarrow> nat \<Rightarrow> 'a \<Rightarrow> (upb_inttable \<times> 'a) option" where
  "upb_inttable_sizedinit malloc asize hsize_lg2 a =
     (case init_table malloc hsize_lg2 a of
        None \<Rightarrow> None
      | Some (t, a1) \<Rightarrow>
          let size = max 1 asize in
          map_option (\<lambda>a2. (\<lparr>int_t = t, int_array = replicate size (- 1), array_count = 0\<rparr>, a2))
            (malloc a1 (size * 8)))"

definition upb_inttable_init :: "'a alloc \<Rightarrow> 'a \<Rightarrow> (upb_inttable \<times> 'a) option" where
  "upb_inttable_init malloc a = upb_inttable_sizedinit malloc 0 4 a"

text \<open>The copy loop of \<^verbatim>\<open>upb_inttable_insert\<close>; \<open>None\<close> is an index at the end of the old table.\<close>

function inttable_copy :: "u64 upb_table \<Rightarrow> nat option \<Rightarrow> u64 upb_table \<Rightarrow> (unit, u64 upb_table) res" where
  "inttable_copy t i nt =
     (case i of
        None \<Rightarrow> Ret nt
      | Some j \<Rightarrow>
          bindR (insert_tab upb_inthash nt (the (key (entries t ! j))) (val (entries t ! j)))
            (\<lambda>nt'. inttable_copy t (next_tab t (int j)) nt'))"
  by pat_completeness auto
termination
  by (relation "measure (\<lambda>(t, i, nt). case i of None \<Rightarrow> 0 | Some j \<Rightarrow> Suc (length (entries t) - j))")
     (auto dest!: next_tab_advances split: option.splits)

declare inttable_copy.simps [simp del]

definition upb_inttable_insert ::
  "'a alloc \<Rightarrow> upb_inttable \<Rightarrow> u64 \<Rightarrow> u64 \<Rightarrow> 'a \<Rightarrow> (unit, bool \<times> upb_inttable \<times> 'a) res" where
  "upb_inttable_insert malloc t k v a =
     (if \<not> upb_arrhas v then Fault
      else if unat k < array_size t then
        (if upb_arrhas (int_array t ! unat k) then Fault
         else Ret (True, t\<lparr>array_count := array_count t + 1, int_array := (int_array t)[unat k := v]\<rparr>, a))
      else
        bindR (if isfull (int_t t) then
                 (case init_table malloc (size_lg2 (int_t t) + 1) a of
                    None \<Rightarrow> Ret None
                  | Some (nt, a1) \<Rightarrow>
                      bindR (inttable_copy (int_t t) (begin_tab (int_t t)) nt) (\<lambda>nt'.
                        if tab_count (int_t t) = tab_count nt' then Ret (Some (nt', a1)) else Fault))
               else Ret (Some (int_t t, a))) (\<lambda>r.
          case r of
            None \<Rightarrow> Ret (False, t, a)
          | Some (t1, a1) \<Rightarrow>
              bindR (insert_tab upb_inthash t1 k v) (\<lambda>t2. Ret (True, t\<lparr>int_t := t2\<rparr>, a1))))"

text \<open>\<^verbatim>\<open>inttable_val\<close>: where the value of a key is, if anywhere.\<close>

datatype tabval_ptr = In_Array nat | In_Table nat

definition inttable_val :: "upb_inttable \<Rightarrow> u64 \<Rightarrow> (unit, tabval_ptr option) res" where
  "inttable_val t k =
     (if unat k < array_size t then
        Ret (if upb_arrhas (int_array t ! unat k) then Some (In_Array (unat k)) else None)
      else
        bindR (findentry (int_t t) k (upb_inthash k)) (\<lambda>e. Ret (map_option In_Table e)))"

fun deref_val :: "upb_inttable \<Rightarrow> tabval_ptr \<Rightarrow> u64" where
  "deref_val t (In_Array i) = int_array t ! i"
| "deref_val t (In_Table i) = val (entries (int_t t) ! i)"

fun store_val :: "upb_inttable \<Rightarrow> tabval_ptr \<Rightarrow> u64 \<Rightarrow> upb_inttable" where
  "store_val t (In_Array i) v = t\<lparr>int_array := (int_array t)[i := v]\<rparr>"
| "store_val t (In_Table i) v =
     t\<lparr>int_t := set_val (int_t t) i v\<rparr>"

definition upb_inttable_lookup :: "upb_inttable \<Rightarrow> u64 \<Rightarrow> (unit, u64 option) res" where
  "upb_inttable_lookup t k = bindR (inttable_val t k) (\<lambda>p. Ret (map_option (deref_val t) p))"

definition upb_inttable_replace :: "upb_inttable \<Rightarrow> u64 \<Rightarrow> u64 \<Rightarrow> (unit, bool \<times> upb_inttable) res" where
  "upb_inttable_replace t k v =
     bindR (inttable_val t k) (\<lambda>p.
       Ret (case p of None \<Rightarrow> (False, t) | Some q \<Rightarrow> (True, store_val t q v)))"

definition upb_inttable_remove :: "upb_inttable \<Rightarrow> u64 \<Rightarrow> (unit, upb_inttable \<times> u64 option) res" where
  "upb_inttable_remove t k =
     (if unat k < array_size t then
        Ret (if upb_arrhas (int_array t ! unat k)
             then (t\<lparr>array_count := array_count t - 1, int_array := (int_array t)[unat k := - 1]\<rparr>,
                   Some (int_array t ! unat k))
             else (t, None))
      else
        bindR (rm_tab (int_t t) k (upb_inthash k)) (\<lambda>(t', r). Ret (t\<lparr>int_t := t'\<rparr>, r)))"

text \<open>
  \<^verbatim>\<open>upb_inttable_next\<close>: the key, its value and the new iterator; positions in the hash part follow those
  of the array.
\<close>

definition upb_inttable_next :: "upb_inttable \<Rightarrow> int \<Rightarrow> (u64 \<times> u64 \<times> int) option" where
  "upb_inttable_next t iter =
     (let arr = (if nat (iter + 1) \<le> array_size t
                 then find (\<lambda>i. upb_arrhas (int_array t ! i)) [nat (iter + 1) ..< array_size t]
                 else None)
      in case arr of
           Some i \<Rightarrow> Some (of_nat i, int_array t ! i, int i)
         | None \<Rightarrow>
             let i = (if nat (iter + 1) \<le> array_size t then int (array_size t) - 1 else iter) in
             (case next_tab (int_t t) (i - int (array_size t)) of
                None \<Rightarrow> None
              | Some tab_idx \<Rightarrow>
                  Some (the (key (entries (int_t t) ! tab_idx)), val (entries (int_t t) ! tab_idx),
                    int tab_idx + int (array_size t))))"

definition upb_inttable_removeiter :: "upb_inttable \<Rightarrow> nat \<Rightarrow> upb_inttable" where
  "upb_inttable_removeiter t iter =
     (if iter < array_size t
      then t\<lparr>array_count := array_count t - 1, int_array := (int_array t)[iter := - 1]\<rparr>
      else t\<lparr>int_t := unlink_ent (int_t t) (iter - array_size t)\<rparr>)"

text \<open>The documented loop, as the list of pairs it sees.\<close>

lemma inttable_next_advances:
  assumes "upb_inttable_next t iter = Some (k, v, iter')" and "- 1 \<le> iter"
  shows "iter < iter'" and "iter' < int (array_size t + length (entries (int_t t)))"
  using assms
  by (auto simp: upb_inttable_next_def Let_def dest!: find_Some_in next_tab_advances split: option.splits if_splits)

function inttable_pairs :: "upb_inttable \<Rightarrow> int \<Rightarrow> (u64 \<times> u64) list" where
  "inttable_pairs t iter =
     (if iter < - 1 then []
      else case upb_inttable_next t iter of
        None \<Rightarrow> []
      | Some (k, v, iter') \<Rightarrow> (k, v) # inttable_pairs t iter')"
  by pat_completeness auto
termination
proof (relation "measure (\<lambda>(t, iter). nat (int (array_size t + length (entries (int_t t))) - iter))")
  fix t iter x y k v iter'
  assume "\<not> iter < - 1" "upb_inttable_next t iter = Some x" "(k, y) = x" "(v, iter') = y"
  then have "upb_inttable_next t iter = Some (k, v, iter')" "- 1 \<le> iter" by auto
  from inttable_next_advances [OF this]
  show "((t, iter'), (t, iter)) \<in> measure (\<lambda>(t, iter). nat (int (array_size t + length (entries (int_t t))) - iter))"
    by simp
qed simp

declare inttable_pairs.simps [simp del]

subsection \<open>Compaction\<close>

definition is_pow2 :: "u64 \<Rightarrow> bool" where
  "is_pow2 v \<longleftrightarrow> v = 0 \<or> v AND (v - 1) = 0"

text \<open>\<^verbatim>\<open>while (v >>= 1) ret++\<close>\<close>

function shift_count :: "u64 \<Rightarrow> nat" where
  "shift_count v = (let v' = drop_bit 1 v in if v' = 0 then 0 else Suc (shift_count v'))"
  by pat_completeness auto
termination
  by (relation "measure unat") (auto intro: drop_bit_decreases)

declare shift_count.simps [simp del]

definition log2ceil :: "u64 \<Rightarrow> nat" where
  "log2ceil v = min 16 (if is_pow2 v then shift_count v else shift_count v + 1)"

text \<open>The histogram: the number of keys and the largest key of every bucket.\<close>

definition hist_step :: "u64 \<times> u64 \<Rightarrow> nat list \<times> u64 list \<Rightarrow> nat list \<times> u64 list" where
  "hist_step p h =
     (let bucket = log2ceil (fst p) in
      ((fst h)[bucket := fst h ! bucket + 1], (snd h)[bucket := max (snd h ! bucket) (fst p)]))"

definition histogram :: "(u64 \<times> u64) list \<Rightarrow> nat list \<times> u64 list" where
  "histogram ps = fold hist_step ps (replicate 17 0, replicate 17 0)"

text \<open>
  The largest power of two that satisfies \<^verbatim>\<open>MIN_DENSITY\<close>. The source compares with the double
  \<open>(1 << size_lg2) * 0.1\<close>; no power of two is a multiple of ten, so the comparison is the exact one.
\<close>

fun compact_size :: "nat list \<Rightarrow> nat \<Rightarrow> nat \<Rightarrow> nat \<times> nat" where
  "compact_size counts 0 arr_count = (0, arr_count)"
| "compact_size counts (Suc l) arr_count =
     (if counts ! Suc l = 0 then compact_size counts l arr_count
      else if 2 ^ Suc l \<le> 10 * arr_count then (Suc l, arr_count)
      else compact_size counts l (arr_count - counts ! Suc l))"

text \<open>
  \<^verbatim>\<open>hash_count / MAX_LOAD\<close> is a division of doubles; the double 0.85 lies below 17/20 by less than
  \<open>2 ^ - 53\<close>, and truncation gives the exact \<open>20 * hash_count div 17\<close> for the counts a table can have.
\<close>

definition compact_hash_size :: "nat \<Rightarrow> nat" where
  "compact_hash_size hash_count = (if hash_count \<noteq> 0 then hash_count * 20 div 17 + 1 else 0)"

text \<open>The loop that fills the new table, which ignores the result of the insertions.\<close>

fun inttable_fill ::
  "'a alloc \<Rightarrow> (u64 \<times> u64) list \<Rightarrow> upb_inttable \<Rightarrow> 'a \<Rightarrow> (unit, upb_inttable \<times> 'a) res" where
  "inttable_fill malloc [] nt a = Ret (nt, a)"
| "inttable_fill malloc ((k, v) # ps) nt a =
     bindR (upb_inttable_insert malloc nt k v a) (\<lambda>(ok, nt', a'). inttable_fill malloc ps nt' a')"

text \<open>
  The result of \<^verbatim>\<open>upb_inttable_sizedinit\<close> is ignored too; after a failure the new table is
  uninitialised, which is a fault here.
\<close>

definition upb_inttable_compact :: "'a alloc \<Rightarrow> upb_inttable \<Rightarrow> 'a \<Rightarrow> (unit, upb_inttable \<times> 'a) res" where
  "upb_inttable_compact malloc t a =
     (let ps = inttable_pairs t (- 1);
          h = histogram ps;
          (lg2, arr_count) = compact_size (fst h) 16 (upb_inttable_count t)
      in if upb_inttable_count t < arr_count then Fault
         else
           let arr_size = unat (snd h ! lg2 + 1);
               hash_count = upb_inttable_count t - arr_count;
               hashsize_lg2 = log2ceil (of_nat (compact_hash_size hash_count))
           in case upb_inttable_sizedinit malloc arr_size hashsize_lg2 a of
                None \<Rightarrow> Fault
              | Some (new_t, a1) \<Rightarrow>
                  bindR (inttable_fill malloc ps new_t a1) (\<lambda>(new_t', a2).
                    if array_size new_t' = arr_size \<and> size_lg2 (int_t new_t') = hashsize_lg2
                    then Ret (new_t', a2) else Fault))"

section \<open>The map and the invariant\<close>

definition arr_map :: "u64 list \<Rightarrow> nat \<Rightarrow> u64 option" where
  "arr_map arr i = (if i < length arr \<and> upb_arrhas (arr ! i) then Some (arr ! i) else None)"

definition int_map :: "upb_inttable \<Rightarrow> u64 \<Rightarrow> u64 option" where
  "int_map t k = (if unat k < array_size t then arr_map (int_array t) (unat k) else table_map (int_t t) k)"

definition int_ok :: "upb_inttable \<Rightarrow> bool" where
  "int_ok t \<longleftrightarrow>
     hash_ok upb_inthash (int_t t) \<and> 0 < array_size t \<and> array_size t < 2 ^ 64
     \<and> array_count t = length (filter upb_arrhas (int_array t))
     \<and> (\<forall>k. table_map (int_t t) k \<noteq> None \<longrightarrow> array_size t \<le> unat k)"

lemma int_okD:
  assumes "int_ok t"
  shows "hash_ok upb_inthash (int_t t)" "table_inv upb_inthash (int_t t)" "0 < array_size t" "array_size t < 2 ^ 64"
    "array_count t = length (filter upb_arrhas (int_array t))"
    "table_map (int_t t) k \<noteq> None \<Longrightarrow> array_size t \<le> unat k"
  using assms by (auto simp: int_ok_def hash_ok_def)

lemma filter_update_count:
  assumes "i < length xs"
  shows "length (filter P (xs[i := x])) + (if P (xs ! i) then 1 else 0) = length (filter P xs) + (if P x then 1 else 0)"
  using assms
proof (induction xs arbitrary: i)
  case (Cons y ys)
  then show ?case by (cases i) auto
qed simp

lemma arr_map_update: "i < length arr \<Longrightarrow> arr_map (arr[i := v]) = (arr_map arr)(i := if upb_arrhas v then Some v else None)"
  by (auto simp: arr_map_def fun_eq_iff nth_list_update)

text \<open>Writing to the array part.\<close>

lemma int_ok_array:
  assumes "int_ok t" and "unat k < array_size t"
    and "n + (if upb_arrhas (int_array t ! unat k) then 1 else 0) = array_count t + (if upb_arrhas v then 1 else 0)"
  shows "int_ok (t\<lparr>array_count := n, int_array := (int_array t)[unat k := v]\<rparr>)"
    and "int_map (t\<lparr>array_count := n, int_array := (int_array t)[unat k := v]\<rparr>)
      = (int_map t)(k := if upb_arrhas v then Some v else None)"
proof -
  show "int_ok (t\<lparr>array_count := n, int_array := (int_array t)[unat k := v]\<rparr>)"
    using int_okD [OF assms(1)] assms(3) filter_update_count [OF assms(2), of upb_arrhas v]
    by (simp add: int_ok_def)
  show "int_map (t\<lparr>array_count := n, int_array := (int_array t)[unat k := v]\<rparr>)
      = (int_map t)(k := if upb_arrhas v then Some v else None)"
    using assms(2) by (auto simp: int_map_def fun_eq_iff arr_map_update dest: word_unat_eq_iff [THEN iffD2])
qed

text \<open>Writing to the hash part.\<close>

lemma int_ok_table:
  assumes "int_ok t" and "array_size t \<le> unat k" and "hash_ok upb_inthash t'"
    and "table_map t' = (table_map (int_t t))(k := r)"
  shows "int_ok (t\<lparr>int_t := t'\<rparr>)" and "int_map (t\<lparr>int_t := t'\<rparr>) = (int_map t)(k := r)"
proof -
  have "array_size t \<le> unat j" if "table_map t' j \<noteq> None" for j
  proof (cases "j = k")
    case False
    then show ?thesis using int_okD(6) [OF assms(1), of j] that assms(4) by simp
  qed (simp add: assms(2))
  then show "int_ok (t\<lparr>int_t := t'\<rparr>)" using assms(1,3) by (simp add: int_ok_def)
  show "int_map (t\<lparr>int_t := t'\<rparr>) = (int_map t)(k := r)"
    using assms(2,4) by (auto simp: int_map_def fun_eq_iff)
qed

lemma table_map_le_int_map: "int_ok t \<Longrightarrow> dom (table_map (int_t t)) \<subseteq> dom (int_map t)"
  using int_okD(6) by (fastforce simp: int_map_def)

lemma tab_count_le_dom:
  assumes "int_ok t"
  shows "tab_count (int_t t) \<le> card (dom (int_map t))"
proof -
  have "tab_count (int_t t) = card (dom (table_map (int_t t)))" using count_card_dom [OF int_okD(2) [OF assms]] by simp
  also have "\<dots> \<le> card (dom (int_map t))" by (rule card_mono [OF _ table_map_le_int_map [OF assms]]) simp
  finally show ?thesis .
qed

section \<open>Operations\<close>

lemma findentry_map:
  assumes "table_inv hf t"
  shows "\<exists>r. findentry t k (hf k) = Ret r \<and> table_map t k = map_option (\<lambda>i. val (entries t ! i)) r
    \<and> (\<forall>i. r = Some i \<longrightarrow> i < length (entries t) \<and> key (entries t ! i) = Some k)"
proof -
  obtain r where r: "findentry t k (hf k) = Ret r" "case r of None \<Rightarrow> (\<forall>i < length (entries t). key (entries t ! i) \<noteq> Some k)
        | Some e \<Rightarrow> e < length (entries t) \<and> key (entries t ! e) = Some k"
    using findentry_spec [OF assms, of k] by blast
  have kd: "keys_distinct (entries t)" using assms by (simp add: table_inv_def)
  show ?thesis
  proof (cases r)
    case None
    then have "ent_map (entries t) k = None" using r(2) by (simp add: ent_map_None)
    with None r(1) show ?thesis by (simp add: table_map_def)
  next
    case (Some i)
    with r(2) have i: "i < length (entries t)" "key (entries t ! i) = Some k" by auto
    with ent_map_Some [OF kd this] Some r(1) show ?thesis by (simp add: table_map_def)
  qed
qed

lemma upb_inttable_lookup_spec:
  assumes "int_ok t"
  shows "upb_inttable_lookup t k = Ret (int_map t k)"
proof (cases "unat k < array_size t")
  case True
  then show ?thesis by (simp add: upb_inttable_lookup_def inttable_val_def int_map_def arr_map_def)
next
  case False
  obtain r where "findentry (int_t t) k (upb_inthash k) = Ret r"
    "table_map (int_t t) k = map_option (\<lambda>i. val (entries (int_t t) ! i)) r"
    using findentry_map [OF int_okD(2) [OF assms], of k] by blast
  with False show ?thesis by (cases r) (simp_all add: upb_inttable_lookup_def inttable_val_def int_map_def)
qed

lemma upb_inttable_replace_spec:
  assumes "int_ok t" and "upb_arrhas v"
  shows "\<exists>t'. upb_inttable_replace t k v = Ret (int_map t k \<noteq> None, t') \<and> int_ok t'
    \<and> int_map t' = (if int_map t k = None then int_map t else (int_map t)(k \<mapsto> v))"
proof (cases "unat k < array_size t")
  case True
  show ?thesis
  proof (cases "upb_arrhas (int_array t ! unat k)")
    case h: True
    have "int_ok (t\<lparr>array_count := array_count t, int_array := (int_array t)[unat k := v]\<rparr>)"
      "int_map (t\<lparr>array_count := array_count t, int_array := (int_array t)[unat k := v]\<rparr>) = (int_map t)(k \<mapsto> v)"
      using int_ok_array [OF assms(1) True, of "array_count t" v] h assms(2) by simp_all
    moreover have "t\<lparr>array_count := array_count t, int_array := (int_array t)[unat k := v]\<rparr>
        = t\<lparr>int_array := (int_array t)[unat k := v]\<rparr>" by simp
    ultimately show ?thesis
      using True h by (simp add: upb_inttable_replace_def inttable_val_def int_map_def arr_map_def)
  next
    case False
    with True assms(1) show ?thesis by (simp add: upb_inttable_replace_def inttable_val_def int_map_def arr_map_def)
  qed
next
  case False
  obtain r where r: "findentry (int_t t) k (upb_inthash k) = Ret r"
    "table_map (int_t t) k = map_option (\<lambda>i. val (entries (int_t t) ! i)) r"
    "\<forall>i. r = Some i \<longrightarrow> i < length (entries (int_t t)) \<and> key (entries (int_t t) ! i) = Some k"
    using findentry_map [OF int_okD(2) [OF assms(1)], of k] by blast
  show ?thesis
  proof (cases r)
    case None
    with r(1,2) False assms(1) show ?thesis by (simp add: upb_inttable_replace_def inttable_val_def int_map_def)
  next
    case (Some i)
    note ok = int_okD(1) [OF assms(1)]
    have i: "i < length (entries (int_t t))" "key (entries (int_t t) ! i) = Some k" using r(3) Some by auto
    have le: "array_size t \<le> unat k" using False by simp
    note upd = int_ok_table [OF assms(1) le set_val_ok [OF ok, of i v] set_val_map [OF ok i]]
    have "int_map t k \<noteq> None" using r(2) Some False by (simp add: int_map_def)
    moreover have "upb_inttable_replace t k v = Ret (True, t\<lparr>int_t := set_val (int_t t) i v\<rparr>)"
      using r(1) Some False by (simp add: upb_inttable_replace_def inttable_val_def)
    ultimately show ?thesis using upd by auto
  qed
qed

lemma upb_inttable_remove_spec:
  assumes "int_ok t" and "0 < size_lg2 (int_t t)"
  shows "\<exists>t'. upb_inttable_remove t k = Ret (t', int_map t k) \<and> int_ok t' \<and> int_map t' = (int_map t)(k := None)
    \<and> size_lg2 (int_t t') = size_lg2 (int_t t)"
proof (cases "unat k < array_size t")
  case True
  show ?thesis
  proof (cases "upb_arrhas (int_array t ! unat k)")
    case h: True
    have "int_array t ! unat k \<in> set (filter upb_arrhas (int_array t))" using True h by simp
    then have "0 < array_count t" using int_okD(5) [OF assms(1)] by (metis length_pos_if_in_set)
    then show ?thesis
      using int_ok_array [OF assms(1) True, of "array_count t - 1" "- 1"] True h
      by (auto simp: upb_inttable_remove_def int_map_def arr_map_def upb_arrhas_def)
  next
    case False
    then have "int_map t k = None" using True by (simp add: int_map_def arr_map_def)
    moreover from this have "(int_map t)(k := None) = int_map t" by auto
    ultimately show ?thesis using True False assms(1) by (simp add: upb_inttable_remove_def)
  qed
next
  case False
  obtain t' where t': "rm_tab (int_t t) k (upb_inthash k) = Ret (t', table_map (int_t t) k)" "hash_ok upb_inthash t'"
    "table_map t' = (table_map (int_t t))(k := None)" "size_lg2 t' = size_lg2 (int_t t)"
    using rm_tab_ok [OF int_okD(1) [OF assms(1)] assms(2), of k] by blast
  have le: "array_size t \<le> unat k" using False by simp
  from int_ok_table [OF assms(1) le t'(2,3)] t' False show ?thesis
    by (simp add: upb_inttable_remove_def int_map_def)
qed

text \<open>Rehashing.\<close>

fun insert_all :: "(u64 \<times> u64) list \<Rightarrow> u64 upb_table \<Rightarrow> (unit, u64 upb_table) res" where
  "insert_all [] nt = Ret nt"
| "insert_all ((k, v) # ps) nt = bindR (insert_tab upb_inthash nt k v) (insert_all ps)"

lemma inttable_copy_all:
  "- 1 \<le> i \<Longrightarrow> inttable_copy t (next_tab t i) nt = insert_all (map (pair_at t) (occupied_from t (nat (i + 1)))) nt"
proof (induction "length (occupied_from t (nat (i + 1)))" arbitrary: i nt)
  case 0
  then have "occupied_from t (nat (i + 1)) = []" by simp
  moreover from this have "next_tab t i = None" using occupied_from_next [OF 0(2), of t] by (auto split: option.splits)
  ultimately show ?case by (simp add: inttable_copy.simps)
next
  case (Suc n)
  obtain j where j: "next_tab t i = Some j" "occupied_from t (nat (i + 1)) = j # occupied_from t (Suc j)"
    using Suc(2) occupied_from_next [OF Suc(3), of t] by (auto split: option.splits)
  have "inttable_copy t (next_tab t (int j)) = insert_all (map (pair_at t) (occupied_from t (Suc j)))"
    using Suc(1) [of "int j"] Suc(2) j(2) by (simp add: nat_add_distrib fun_eq_iff)
  then show ?case
    by (subst inttable_copy.simps) (simp add: j pair_at_def)
qed

lemma insert_all_spec:
  "hash_ok upb_inthash nt \<Longrightarrow> tab_count nt + length ps \<le> max_count nt \<Longrightarrow> distinct (map fst ps) \<Longrightarrow>
    (\<forall>k \<in> fst ` set ps. table_map nt k = None) \<Longrightarrow>
    \<exists>nt'. insert_all ps nt = Ret nt' \<and> hash_ok upb_inthash nt'
      \<and> table_map nt' = table_map nt ++ map_of ps \<and> size_lg2 nt' = size_lg2 nt \<and> max_count nt' = max_count nt
      \<and> tab_count nt' = tab_count nt + length ps"
proof (induction ps arbitrary: nt)
  case Nil
  then show ?case by simp
next
  case (Cons p ps)
  obtain k v where p: "p = (k, v)" by (cases p)
  have nf: "\<not> isfull nt" using Cons.prems(2) by (simp add: isfull_def)
  have absent: "table_map nt k = None" using Cons.prems(4) p by simp
  obtain n1 where n1: "insert_tab upb_inthash nt k v = Ret n1" "hash_ok upb_inthash n1"
    "table_map n1 = (table_map nt)(k \<mapsto> v)" "size_lg2 n1 = size_lg2 nt" "max_count n1 = max_count nt"
    "tab_count n1 = tab_count nt + 1"
    using hash_ok_insert [OF Cons.prems(1) nf absent] by blast
  have kps: "k \<notin> fst ` set ps" using Cons.prems(3) p by simp
  have fresh: "\<forall>j \<in> fst ` set ps. table_map n1 j = None"
    using Cons.prems(4) kps by (auto simp: n1(3) p)
  have room: "tab_count n1 + length ps \<le> max_count n1" and dist: "distinct (map fst ps)"
    using Cons.prems(2,3) n1(5,6) by simp_all
  obtain nt' where nt': "insert_all ps n1 = Ret nt'" "hash_ok upb_inthash nt'" "table_map nt' = table_map n1 ++ map_of ps"
    "size_lg2 nt' = size_lg2 n1" "max_count nt' = max_count n1" "tab_count nt' = tab_count n1 + length ps"
    using Cons.IH [OF n1(2) room dist fresh] by blast
  have "table_map nt' = table_map nt ++ map_of (p # ps)"
    using nt'(3) n1(3) p kps by (simp add: map_add_upd_left dom_map_of_conv_image_fst)
  moreover have "insert_all (p # ps) nt = Ret nt'" using nt'(1) n1(1) p by simp
  moreover have "size_lg2 nt' = size_lg2 nt \<and> max_count nt' = max_count nt
      \<and> tab_count nt' = tab_count nt + length (p # ps)"
    using nt' n1 by simp
  ultimately show ?case using nt'(2) by blast
qed

lemma inttable_rehash:
  assumes ok: "hash_ok upb_inthash t" and lg: "lg2 \<le> 30"
    and room: "tab_count t \<le> max_count (new_table lg2 :: u64 upb_table)"
  shows "\<exists>t'. inttable_copy t (begin_tab t) (new_table lg2) = Ret t' \<and> hash_ok upb_inthash t' \<and> table_map t' = table_map t
    \<and> size_lg2 t' = lg2 \<and> max_count t' = max_count (new_table lg2 :: u64 upb_table) \<and> tab_count t' = tab_count t"
proof -
  let ?nt = "new_table lg2 :: u64 upb_table" and ?ps = "map (pair_at t) (occupied_from t 0)"
  have inv: "table_inv upb_inthash t" using ok by (simp add: hash_ok_def)
  have nt: "hash_ok upb_inthash ?nt" "table_map ?nt = Map.empty" "tab_count ?nt = 0" "size_lg2 ?nt = lg2"
    using lg new_table_ok [of lg2] new_table_inv(2) [of lg2] by simp_all
  obtain t' where t': "insert_all ?ps ?nt = Ret t'" "hash_ok upb_inthash t'" "table_map t' = table_map ?nt ++ map_of ?ps"
    "size_lg2 t' = size_lg2 ?nt" "max_count t' = max_count ?nt" "tab_count t' = tab_count ?nt + length ?ps"
    using insert_all_spec [OF nt(1), of ?ps] occupied_pairs(2,3) [OF inv] nt(2,3) room by auto
  have "inttable_copy t (begin_tab t) ?nt = Ret t'"
    using inttable_copy_all [of "- 1" t ?nt] t'(1) by (simp add: begin_tab_def)
  moreover have "table_map t' = table_map t" using t'(3) nt(2) occupied_pairs(1) [OF inv] by simp
  ultimately show ?thesis using t' nt occupied_pairs(3) [OF inv] by auto
qed

text \<open>Insertion when the hash part needs no growth, and in general.\<close>

lemma inttable_insert_array:
  assumes "int_ok t" and "unat k < array_size t" and "int_map t k = None" and "upb_arrhas v"
  shows "\<exists>t'. upb_inttable_insert malloc t k v a = Ret (True, t', a) \<and> int_ok t' \<and> int_map t' = (int_map t)(k \<mapsto> v)
    \<and> int_t t' = int_t t \<and> array_size t' = array_size t"
proof -
  have "\<not> upb_arrhas (int_array t ! unat k)" using assms(2,3) by (auto simp: int_map_def arr_map_def split: if_splits)
  with int_ok_array [OF assms(1,2), of "array_count t + 1" v] assms(2,4) show ?thesis
    by (auto simp: upb_inttable_insert_def)
qed

lemma inttable_insert_room:
  assumes "int_ok t" and "\<not> unat k < array_size t" and "int_map t k = None" and "upb_arrhas v" and "\<not> isfull (int_t t)"
  shows "\<exists>t'. upb_inttable_insert malloc t k v a = Ret (True, t', a) \<and> int_ok t' \<and> int_map t' = (int_map t)(k \<mapsto> v)
    \<and> size_lg2 (int_t t') = size_lg2 (int_t t) \<and> max_count (int_t t') = max_count (int_t t)
    \<and> tab_count (int_t t') = tab_count (int_t t) + 1 \<and> array_size t' = array_size t"
proof -
  have le: "array_size t \<le> unat k" and new: "table_map (int_t t) k = None" using assms(2,3) by (auto simp: int_map_def)
  obtain t1 where t1: "insert_tab upb_inthash (int_t t) k v = Ret t1" "hash_ok upb_inthash t1"
    "table_map t1 = (table_map (int_t t))(k \<mapsto> v)" "size_lg2 t1 = size_lg2 (int_t t)"
    "max_count t1 = max_count (int_t t)" "tab_count t1 = tab_count (int_t t) + 1"
    using hash_ok_insert [OF int_okD(1) [OF assms(1)] assms(5) new] by blast
  from int_ok_table [OF assms(1) le t1(2,3)] t1 assms(2,4,5) show ?thesis by (simp add: upb_inttable_insert_def)
qed

lemma upb_inttable_insert_spec:
  assumes total: "alloc_total malloc" and ok: "int_ok t" and new: "int_map t k = None" and v: "upb_arrhas v"
    and small: "card (dom (int_map t)) < 2 ^ 29"
  shows "\<exists>t' a'. upb_inttable_insert malloc t k v a = Ret (True, t', a') \<and> int_ok t'
    \<and> int_map t' = (int_map t)(k \<mapsto> v) \<and> size_lg2 (int_t t) \<le> size_lg2 (int_t t')"
proof (cases "unat k < array_size t")
  case True
  with inttable_insert_array [OF ok True new v, of malloc a] show ?thesis by auto
next
  case False
  show ?thesis
  proof (cases "isfull (int_t t)")
    case nf: False
    with inttable_insert_room [OF ok False new v nf, of malloc a] show ?thesis by auto
  next
    case True
    let ?lg = "size_lg2 (int_t t) + 1"
    note h = int_okD(1) [OF ok]
    have sh: "table_shape (int_t t)" using h by (simp add: hash_ok_def table_inv_def)
    have lg: "size_lg2 (int_t t) \<le> 29"
      using full_small [OF h True] tab_count_le_dom [OF ok] small by simp
    have grow: "tab_count (int_t t) < max_count (new_table ?lg :: u64 upb_table)"
      using max_count_grows [OF sh lg] True by (simp add: isfull_def)
    obtain t1 where t1: "inttable_copy (int_t t) (begin_tab (int_t t)) (new_table ?lg) = Ret t1" "hash_ok upb_inthash t1"
      "table_map t1 = table_map (int_t t)" "size_lg2 t1 = ?lg" "max_count t1 = max_count (new_table ?lg :: u64 upb_table)"
      "tab_count t1 = tab_count (int_t t)"
      using inttable_rehash [OF h, of ?lg] lg grow by auto
    have nf: "\<not> isfull t1" using t1(5,6) grow by (simp add: isfull_def)
    have le: "array_size t \<le> unat k" and absent: "table_map t1 k = None" using False new t1(3) by (auto simp: int_map_def)
    obtain t2 where t2: "insert_tab upb_inthash t1 k v = Ret t2" "hash_ok upb_inthash t2"
      "table_map t2 = (table_map t1)(k \<mapsto> v)" "size_lg2 t2 = size_lg2 t1"
      using hash_ok_insert [OF t1(2) nf absent] by blast
    obtain a1 where a1: "init_table malloc ?lg a = Some (new_table ?lg :: u64 upb_table, a1)"
      using init_table_total [OF total] by blast
    have "upb_inttable_insert malloc t k v a = Ret (True, t\<lparr>int_t := t2\<rparr>, a1)"
      using False v True a1 t1(1,6) t2(1) by (simp add: upb_inttable_insert_def)
    moreover have "table_map t2 = (table_map (int_t t))(k \<mapsto> v)" using t2(3) t1(3) by simp
    ultimately show ?thesis using int_ok_table [OF ok le t2(2)] t2(4) t1(4) by simp
  qed
qed

section \<open>The integer table is a finite map\<close>

definition inttable_insert_op :: "'a alloc \<Rightarrow> upb_inttable \<times> 'a \<Rightarrow> u64 \<Rightarrow> u64 \<Rightarrow> (unit, upb_inttable \<times> 'a) res" where
  "inttable_insert_op malloc s k v =
     bindR (upb_inttable_insert malloc (fst s) k v (snd s)) (\<lambda>(ok, t', a'). if ok then Ret (t', a') else Raise ())"

definition inttable_lookup_op :: "upb_inttable \<times> 'a \<Rightarrow> u64 \<Rightarrow> (unit, u64 option) res" where
  "inttable_lookup_op s k = upb_inttable_lookup (fst s) k"

definition inttable_remove_op :: "upb_inttable \<times> 'a \<Rightarrow> u64 \<Rightarrow> (unit, (upb_inttable \<times> 'a) \<times> u64 option) res" where
  "inttable_remove_op s k = bindR (upb_inttable_remove (fst s) k) (\<lambda>(t', r). Ret ((t', snd s), r))"

definition int_inv :: "upb_inttable \<times> 'a \<Rightarrow> bool" where
  "int_inv s \<longleftrightarrow> int_ok (fst s) \<and> 0 < size_lg2 (int_t (fst s))"

definition int_abs :: "upb_inttable \<times> 'a \<Rightarrow> u64 \<Rightarrow> u64 option" where
  "int_abs s = int_map (fst s)"

sublocale infallible_arena \<subseteq> int: upb_map inttable_lookup_op "inttable_insert_op malloc" inttable_remove_op
  int_inv int_abs upb_arrhas "2 ^ 29"
proof unfold_locales
  fix s :: "upb_inttable \<times> 'a" and k
  assume inv: "int_inv s"
  then show "inttable_lookup_op s k = Ret (int_abs s k)"
    using upb_inttable_lookup_spec [of "fst s" k] by (simp add: inttable_lookup_op_def int_inv_def int_abs_def)
  show "\<exists>s'. inttable_remove_op s k = Ret (s', int_abs s k) \<and> int_inv s' \<and> int_abs s' = (int_abs s)(k := None)"
    using upb_inttable_remove_spec [of "fst s" k] inv
    by (auto simp: inttable_remove_op_def int_inv_def int_abs_def)
next
  fix s :: "upb_inttable \<times> 'a" and k v
  assume inv: "int_inv s" and new: "int_abs s k = None" and small: "card (dom (int_abs s)) < 2 ^ 29"
    and v: "upb_arrhas v"
  obtain t' a' where "upb_inttable_insert malloc (fst s) k v (snd s) = Ret (True, t', a')"
    "int_ok t'" "int_map t' = (int_map (fst s))(k \<mapsto> v)" "size_lg2 (int_t (fst s)) \<le> size_lg2 (int_t t')"
    using upb_inttable_insert_spec [OF malloc_total, of "fst s" k v "snd s"] inv new small v
    by (auto simp: int_inv_def int_abs_def)
  then show "\<exists>s'. inttable_insert_op malloc s k v = Ret s' \<and> int_inv s' \<and> int_abs s' = (int_abs s)(k \<mapsto> v)"
    using inv by (simp add: inttable_insert_op_def int_inv_def int_abs_def)
qed

context infallible_arena
begin

lemma inttable_run:
  "int_inv s \<Longrightarrow> ops_ok upb_arrhas (2 ^ 29) (int_abs s) xs \<Longrightarrow>
     \<exists>s'. impl_run inttable_lookup_op (inttable_insert_op malloc) inttable_remove_op s xs
         = Ret (s', snd (map_run (int_abs s) xs)) \<and> int_inv s' \<and> int_abs s' = fst (map_run (int_abs s) xs)"
  by (rule int.run_refines)

end

lemma sizedinit_ok:
  assumes "upb_inttable_sizedinit malloc n lg2 a = Some (t, a')" and "n < 2 ^ 64" and "lg2 \<le> 30"
  shows "int_ok t" and "int_map t = Map.empty" and "array_size t = max 1 n" and "int_t t = new_table lg2"
proof -
  have t: "t = \<lparr>int_t = new_table lg2, int_array = replicate (max 1 n) (- 1), array_count = 0\<rparr>"
    using assms(1) by (auto simp: upb_inttable_sizedinit_def init_table_def Let_def split: if_splits option.splits)
  show "array_size t = max 1 n" "int_t t = new_table lg2" by (simp_all add: t)
  have empty: "table_map (new_table lg2 :: u64 upb_table) = Map.empty" using assms(3) by (intro new_table_inv(2)) simp
  show "int_map t = Map.empty" by (auto simp: t int_map_def arr_map_def upb_arrhas_def fun_eq_iff empty)
  show "int_ok t"
    using assms(2) new_table_ok [OF assms(3), of upb_inthash] by (simp add: int_ok_def t upb_arrhas_def empty)
qed

text \<open>
  C14. An integer table made by \<^verbatim>\<open>upb_inttable_init\<close>, on an arena that does not run out of memory, behaves
  as a finite map under every sequence of \<^verbatim>\<open>upb_inttable_insert\<close> (of absent keys, with values other
  than \<open>2 ^ 64 - 1\<close>, below \<open>2 ^ 29\<close> entries), \<^verbatim>\<open>upb_inttable_lookup\<close> and \<^verbatim>\<open>upb_inttable_remove\<close>, whichever of
  the keys live in the array and whichever in the hash part.\<close>

theorem inttable_refines_map:
  assumes "alloc_total malloc" and "upb_inttable_init malloc a = Some (t, a')"
    and "ops_ok upb_arrhas (2 ^ 29) Map.empty ops"
  shows "\<exists>s'. impl_run inttable_lookup_op (inttable_insert_op malloc) inttable_remove_op (t, a') ops
      = Ret (s', snd (map_run Map.empty ops)) \<and> int_abs s' = fst (map_run Map.empty ops)"
proof -
  have "infallible_arena malloc" using assms(1) by unfold_locales
  note refines = infallible_arena.inttable_run [OF this, of "(t, a')" ops]
  have init: "upb_inttable_sizedinit malloc 0 4 a = Some (t, a')" using assms(2) by (simp add: upb_inttable_init_def)
  have "int_inv (t, a')" "int_abs (t, a') = Map.empty"
    using sizedinit_ok [OF init] by (simp_all add: int_inv_def int_abs_def)
  then show ?thesis using refines assms(3) by auto
qed

text \<open>The table \<^verbatim>\<open>upb_inttable_init\<close> makes.\<close>

definition fresh_inttable :: upb_inttable where
  "fresh_inttable = \<lparr>int_t = new_table 4, int_array = [- 1], array_count = 0\<rparr>"

theorem inttable_refines_map_witness:
  "\<exists>s'. impl_run inttable_lookup_op (inttable_insert_op counting_malloc) inttable_remove_op (fresh_inttable, 392)
       [Insert 0 5, Insert 17 6, Insert 33 7, Lookup 0, Remove 17, Lookup 33, Lookup 17]
     = Ret (s', [None, None, None, Some 5, Some 6, Some 7, None])"
proof -
  let ?ops = "[Insert 0 5, Insert 17 6, Insert 33 7, Lookup 0, Remove 17, Lookup 33, Lookup 17] :: u64 map_op list"
  have "alloc_total counting_malloc" by (simp add: alloc_total_def counting_malloc_def)
  moreover have "upb_inttable_init counting_malloc 0 = Some (fresh_inttable, 392)"
    by (simp add: upb_inttable_init_def upb_inttable_sizedinit_def init_table_def counting_malloc_def new_table_def
      fresh_inttable_def Let_def)
  moreover have "ops_ok upb_arrhas (2 ^ 29) Map.empty ?ops" by (simp add: upb_arrhas_def)
  ultimately show ?thesis
    using inttable_refines_map [of counting_malloc 0 fresh_inttable 392 ?ops] by (auto simp del: impl_run.simps)
qed

end
