(* ===== verification/Int_Compact.thy ===== *)
theory Int_Compact
  imports Int_Table
begin

unbundle bit_operations_syntax

text \<open>
  Iteration over the integer table and its compaction: the documented loop sees the contents of the
  table, the histogram of \<^verbatim>\<open>upb_inttable_compact\<close> counts the keys by their power of two, the chosen array
  holds exactly the keys that were counted for it, and the new hash part has room for the others.
\<close>

section \<open>Iteration\<close>

definition arr_pairs :: "upb_inttable \<Rightarrow> nat \<Rightarrow> (u64 \<times> u64) list" where
  "arr_pairs t n = map (\<lambda>i. (of_nat i, int_array t ! i)) (filter (\<lambda>i. upb_arrhas (int_array t ! i)) [n ..< array_size t])"

definition pairs_from :: "upb_inttable \<Rightarrow> int \<Rightarrow> (u64 \<times> u64) list" where
  "pairs_from t iter =
     (if nat (iter + 1) \<le> array_size t
      then arr_pairs t (nat (iter + 1)) @ map (pair_at (int_t t)) (occupied_from (int_t t) 0)
      else map (pair_at (int_t t)) (occupied_from (int_t t) (nat (iter + 1) - array_size t)))"

lemma arr_pairs_first:
  "arr_pairs t n = (case find (\<lambda>i. upb_arrhas (int_array t ! i)) [n ..< array_size t] of
     None \<Rightarrow> [] | Some i \<Rightarrow> (of_nat i, int_array t ! i) # arr_pairs t (Suc i))"
  unfolding arr_pairs_def by (subst filter_upt_first) (simp split: option.split)

lemma pairs_from_table [simp]:
  "pairs_from t (int j + int (array_size t)) = map (pair_at (int_t t)) (occupied_from (int_t t) (Suc j))"
  by (simp add: pairs_from_def nat_add_distrib)

lemma pairs_from_step:
  assumes "- 1 \<le> iter"
  shows "pairs_from t iter =
    (case upb_inttable_next t iter of None \<Rightarrow> [] | Some (k, v, iter') \<Rightarrow> (k, v) # pairs_from t iter')"
proof (cases "nat (iter + 1) \<le> array_size t")
  case True
  show ?thesis
  proof (cases "find (\<lambda>i. upb_arrhas (int_array t ! i)) [nat (iter + 1) ..< array_size t]")
    case None
    have "pairs_from t iter = map (pair_at (int_t t)) (occupied_from (int_t t) 0)"
      using None True arr_pairs_first [of t "nat (iter + 1)"] by (simp add: pairs_from_def)
    with None True occupied_from_next [of "- 1" "int_t t"] show ?thesis
      by (cases "next_tab (int_t t) (- 1)") (simp_all add: upb_inttable_next_def pair_at_def)
  next
    case (Some i)
    then have "i < array_size t" using find_Some_in [OF Some] by simp
    with Some True arr_pairs_first [of t "nat (iter + 1)"] show ?thesis
      by (simp add: pairs_from_def upb_inttable_next_def nat_add_distrib)
  qed
next
  case False
  then have i: "- 1 \<le> iter - int (array_size t)" "nat (iter - int (array_size t) + 1) = nat (iter + 1) - array_size t"
    by linarith+
  have "pairs_from t iter = map (pair_at (int_t t)) (occupied_from (int_t t) (nat (iter + 1) - array_size t))"
    using False by (simp add: pairs_from_def)
  with False occupied_from_next [OF i(1), of "int_t t"] i(2) show ?thesis
    by (cases "next_tab (int_t t) (iter - int (array_size t))") (simp_all add: upb_inttable_next_def pair_at_def)
qed

lemma inttable_pairs_from: "- 1 \<le> iter \<Longrightarrow> inttable_pairs t iter = pairs_from t iter"
proof (induction t iter rule: inttable_pairs.induct)
  case (1 t iter)
  show ?case
  proof (cases "upb_inttable_next t iter")
    case None
    with 1(2) show ?thesis by (simp only: inttable_pairs.simps [of t iter] pairs_from_step [OF 1(2)]) simp
  next
    case (Some r)
    obtain k v iter' where r: "r = (k, v, iter')" by (cases r)
    have "- 1 \<le> iter'" using inttable_next_advances(1) [of t iter k v iter'] Some r 1(2) by simp
    then have IH: "inttable_pairs t iter' = pairs_from t iter'"
      using 1(1) [OF _ Some [unfolded r] refl refl] 1(2) by simp
    have "inttable_pairs t iter = (k, v) # pairs_from t iter'"
      using 1(2) by (simp only: inttable_pairs.simps [of t iter] Some r) (simp add: IH)
    also have "\<dots> = pairs_from t iter" by (simp only: pairs_from_step [OF 1(2)] Some r) simp
    finally show ?thesis .
  qed
qed

lemma inttable_pairs_eq:
  "inttable_pairs t (- 1) = arr_pairs t 0 @ map (pair_at (int_t t)) (occupied_from (int_t t) 0)"
  by (simp add: inttable_pairs_from pairs_from_def)

lemma arr_pairs_map:
  assumes "array_size t < 2 ^ 64"
  shows "distinct (map fst (arr_pairs t 0))"
    and "map_of (arr_pairs t 0) k = arr_map (int_array t) (unat k)"
proof -
  let ?is = "filter (\<lambda>i. upb_arrhas (int_array t ! i)) [0 ..< array_size t]"
  have inj: "inj_on (of_nat :: nat \<Rightarrow> u64) (set ?is)"
    using assms by (auto intro!: inj_onI simp: of_nat_word_inj)
  have "map fst (arr_pairs t 0) = map of_nat ?is" by (simp add: arr_pairs_def)
  then show d: "distinct (map fst (arr_pairs t 0))" using inj by (simp add: distinct_map)
  show "map_of (arr_pairs t 0) k = arr_map (int_array t) (unat k)"
  proof (cases "unat k < array_size t \<and> upb_arrhas (int_array t ! unat k)")
    case True
    then have "(of_nat (unat k), int_array t ! unat k) \<in> set (arr_pairs t 0)"
      unfolding arr_pairs_def set_map set_filter by (intro image_eqI [of _ _ "unat k"]) simp_all
    then have "map_of (arr_pairs t 0) k = Some (int_array t ! unat k)" using map_of_is_SomeI [OF d] by simp
    with True show ?thesis by (simp add: arr_map_def)
  next
    case False
    have "\<forall>i < array_size t. upb_arrhas (int_array t ! i) \<longrightarrow> k \<noteq> of_nat i"
      using False assms by (auto simp: unat_of_nat_small)
    then have "k \<notin> fst ` set (arr_pairs t 0)" by (auto simp: arr_pairs_def)
    then have "map_of (arr_pairs t 0) k = None" by (simp add: map_of_eq_None_iff)
    with False show ?thesis by (auto simp: arr_map_def)
  qed
qed

lemma inttable_pairs_map:
  assumes "int_ok t"
  shows "map_of (inttable_pairs t (- 1)) = int_map t" and "distinct (map fst (inttable_pairs t (- 1)))"
    and "length (inttable_pairs t (- 1)) = upb_inttable_count t"
proof -
  note ok = int_okD [OF assms] and tab = occupied_pairs [OF int_okD(2) [OF assms]]
  let ?tp = "map (pair_at (int_t t)) (occupied_from (int_t t) 0)"
  have arr: "arr_map (int_array t) (unat k) = None" if "array_size t \<le> unat k" for k using that by (simp add: arr_map_def)
  show "map_of (inttable_pairs t (- 1)) = int_map t"
  proof
    fix k
    have "map_of (inttable_pairs t (- 1)) k
        = (case arr_map (int_array t) (unat k) of None \<Rightarrow> table_map (int_t t) k | Some v \<Rightarrow> Some v)"
      by (simp add: inttable_pairs_eq map_add_def arr_pairs_map(2) [OF ok(4)] tab(1))
    also have "\<dots> = int_map t k"
    proof (cases "unat k < array_size t")
      case True
      then have "table_map (int_t t) k = None" using ok(6) [of k] by (metis leD)
      then show ?thesis using True by (auto simp: int_map_def split: option.split)
    qed (simp add: int_map_def arr)
    finally show "map_of (inttable_pairs t (- 1)) k = int_map t k" .
  qed
  have "fst ` set (arr_pairs t 0) \<inter> fst ` set ?tp = {}"
  proof -
    have "unat k < array_size t" if "k \<in> fst ` set (arr_pairs t 0)" for k
      using that ok(4) by (auto simp: arr_pairs_def unat_of_nat_small)
    moreover have "array_size t \<le> unat k" if "k \<in> fst ` set ?tp" for k
    proof -
      have "map_of ?tp k \<noteq> None" using that by (metis map_of_eq_None_iff)
      then have "table_map (int_t t) k \<noteq> None" unfolding tab(1) .
      then show ?thesis by (rule ok(6))
    qed
    ultimately show ?thesis by (metis disjoint_iff leD)
  qed
  then show "distinct (map fst (inttable_pairs t (- 1)))"
    using arr_pairs_map(1) [OF ok(4)] tab(2)
    by (simp only: inttable_pairs_eq map_append distinct_append set_map [of fst] simp_thms)
  have "length (arr_pairs t 0) = length (filter upb_arrhas (map ((!) (int_array t)) [0 ..< array_size t]))"
    by (simp only: arr_pairs_def length_map filter_map comp_def)
  then have "length (arr_pairs t 0) = array_count t" by (simp only: map_nth ok(5))
  then show "length (inttable_pairs t (- 1)) = upb_inttable_count t"
    using tab(3) by (simp add: inttable_pairs_eq upb_inttable_count_def)
qed

text \<open>
  C27. The documented loop over an integer table ends and sees every key exactly once, with its value,
  and \<^verbatim>\<open>upb_inttable_count\<close> is the number of keys it sees; \<^verbatim>\<open>upb_inttable_replace\<close> changes the value of a
  key that is present and nothing else.\<close>

theorem inttable_iteration_complete:
  assumes "int_ok t"
  shows "map_of (inttable_pairs t (- 1)) = int_map t \<and> distinct (map fst (inttable_pairs t (- 1)))
    \<and> length (inttable_pairs t (- 1)) = upb_inttable_count t
    \<and> (upb_arrhas v \<longrightarrow> (\<exists>t'. upb_inttable_replace t k v = Ret (int_map t k \<noteq> None, t') \<and> int_ok t'
         \<and> int_map t' = (if int_map t k = None then int_map t else (int_map t)(k \<mapsto> v))))"
  using inttable_pairs_map [OF assms] upb_inttable_replace_spec [OF assms, of v k] by blast

lemma fresh_inttable_ok: "int_ok fresh_inttable" "int_map fresh_inttable = Map.empty"
proof -
  have "upb_inttable_sizedinit counting_malloc 0 4 0 = Some (fresh_inttable, 392)"
    by (simp add: upb_inttable_sizedinit_def init_table_def counting_malloc_def new_table_def fresh_inttable_def Let_def)
  from sizedinit_ok [OF this] show "int_ok fresh_inttable" "int_map fresh_inttable = Map.empty" by simp_all
qed

definition zero_inttable :: upb_inttable where
  "zero_inttable = \<lparr>int_t = new_table 4, int_array = [5], array_count = 1\<rparr>"

lemma zero_inttable_ok: "int_ok zero_inttable" "int_map zero_inttable = [0 \<mapsto> 5]"
proof -
  have "upb_inttable_insert counting_malloc fresh_inttable 0 5 0 = Ret (True, zero_inttable, 0)"
    by (simp add: upb_inttable_insert_def fresh_inttable_def zero_inttable_def upb_arrhas_def)
  with inttable_insert_array [OF fresh_inttable_ok(1), of 0 5 counting_malloc 0] fresh_inttable_ok(2)
  show "int_ok zero_inttable" "int_map zero_inttable = [0 \<mapsto> 5]"
    by (auto simp: fresh_inttable_def upb_arrhas_def)
qed

theorem inttable_iteration_complete_witness:
  "map_of (inttable_pairs zero_inttable (- 1)) = [0 \<mapsto> 5]
    \<and> (\<exists>t'. upb_inttable_replace zero_inttable 0 9 = Ret (True, t') \<and> int_map t' = [0 \<mapsto> 9])"
  using inttable_iteration_complete [OF zero_inttable_ok(1), of 9 0]
  by (auto simp: zero_inttable_ok(2) upb_arrhas_def)

section \<open>Powers of two\<close>

lemma unat_plus_one: "w \<noteq> - 1 \<Longrightarrow> unat (w + 1) = unat w + 1" for w :: "'a::len word"
proof -
  assume "w \<noteq> - 1"
  then have "1 + w \<noteq> 0" by (metis add.inverse_unique)
  then show "unat (w + 1) = unat w + 1" using unatSuc [of w] by (simp add: add.commute)
qed

lemma shift_count_spec: "unat v < 2 ^ Suc (shift_count v) \<and> (v \<noteq> 0 \<longrightarrow> 2 ^ shift_count v \<le> unat v)"
proof (induction v rule: shift_count.induct)
  case (1 v)
  have half: "unat (drop_bit 1 v) = unat v div 2" using unat_drop_bit [of 1 v] by simp
  show ?case
  proof (cases "drop_bit 1 v = 0")
    case True
    then have sc: "shift_count v = 0" by (subst shift_count.simps) simp
    have "unat v div 2 = 0" using half True by simp
    then show ?thesis using sc by (cases "unat v") (auto simp: unat_eq_zero)
  next
    case False
    then have sc: "shift_count v = Suc (shift_count (drop_bit 1 v))" by (subst shift_count.simps) simp
    from 1 [OF refl False] half False
    have "unat v div 2 < 2 ^ Suc (shift_count (drop_bit 1 v))" "2 ^ shift_count (drop_bit 1 v) \<le> unat v div 2"
      by simp_all
    then show ?thesis using sc by auto
  qed
qed

lemma bit_top: "2 ^ s \<le> n \<Longrightarrow> n < 2 ^ Suc s \<Longrightarrow> bit n s" for n :: nat
proof -
  assume "2 ^ s \<le> n" "n < 2 ^ Suc s"
  then have "n div 2 ^ s = 1" by (intro div_nat_eqI) auto
  then show "bit n s" by (simp add: bit_iff_odd)
qed

lemma shift_count_less: "shift_count v < 64"
proof (cases "v = 0")
  case True
  then show ?thesis by (simp add: shift_count.simps [of 0])
next
  case False
  have "unat v < 2 ^ 64" using unat_bound [of v] by simp
  then have "(2::nat) ^ shift_count v < 2 ^ 64" using shift_count_spec [of v] False by linarith
  then show ?thesis using power_less_imp_less_exp [of "2::nat" "shift_count v" 64] by simp
qed

lemma is_pow2_iff: "is_pow2 v \<longleftrightarrow> v = 0 \<or> unat v = 2 ^ shift_count v"
proof (cases "v = 0")
  case False
  obtain n where n: "shift_count v = n" by simp
  have s: "2 ^ n \<le> unat v" "unat v < 2 ^ Suc n" "n < 64" using shift_count_spec [of v] False shift_count_less n by auto
  show ?thesis
  proof (cases "unat v = 2 ^ n")
    case True
    then have "(of_nat (unat v) :: u64) = of_nat (2 ^ n)" by (rule arg_cong)
    then have v: "v = 2 ^ n" by simp
    have "v - 1 = mask n" by (simp add: v mask_eq_exp_minus_1)
    moreover have "\<not> bit (mask n :: u64) n" by (simp add: bit_mask_iff)
    ultimately have "(v - 1) AND v = 0" using and_exp_eq_0_iff_not_bit [of "v - 1" n] v by simp
    then show ?thesis using True by (simp add: is_pow2_def and.commute n)
  next
    case neq: False
    have "unat (v - 1) = unat v - 1" using False by (simp add: unat_minus_one)
    then have "bit (unat (v - 1)) n" using s neq by (intro bit_top) auto
    moreover have "bit (unat v) n" using s by (intro bit_top) auto
    ultimately have "bit (v AND (v - 1)) n" using s(3) by (simp add: bit_and_iff bit_unsigned_iff)
    then have "v AND (v - 1) \<noteq> 0" by auto
    then show ?thesis using False neq by (simp add: is_pow2_def n)
  qed
qed (simp add: is_pow2_def)

lemma log2ceil_le_iff: "b < 16 \<Longrightarrow> log2ceil v \<le> b \<longleftrightarrow> unat v \<le> 2 ^ b"
proof -
  assume b: "b < 16"
  let ?s = "shift_count v"
  have s: "unat v < 2 ^ Suc ?s" "v \<noteq> 0 \<Longrightarrow> 2 ^ ?s \<le> unat v" using shift_count_spec [of v] by auto
  have mono: "(2::nat) ^ i \<le> 2 ^ j" if "i \<le> j" for i j :: nat using that by (simp add: power_increasing)
  show "log2ceil v \<le> b \<longleftrightarrow> unat v \<le> 2 ^ b"
  proof (cases "is_pow2 v")
    case True
    then consider "v = 0" | "unat v = 2 ^ ?s" "v \<noteq> 0" using is_pow2_iff by blast
    then show ?thesis
    proof cases
      case 1
      then show ?thesis by (simp add: log2ceil_def is_pow2_def shift_count.simps [of 0])
    next
      case 2
      then show ?thesis using True b by (simp add: log2ceil_def) (auto simp: power_le_imp_le_exp intro: mono)
    qed
  next
    case False
    then have ne: "v \<noteq> 0" "unat v \<noteq> 2 ^ ?s" using is_pow2_iff by auto
    have "Suc ?s \<le> b \<longleftrightarrow> unat v \<le> 2 ^ b"
    proof
      assume "Suc ?s \<le> b"
      from mono [OF this] s(1) show "unat v \<le> 2 ^ b" by linarith
    next
      assume "unat v \<le> 2 ^ b"
      then have "(2::nat) ^ ?s < 2 ^ b" using s(2) ne by linarith
      then show "Suc ?s \<le> b" by (simp add: power_strict_increasing_iff)
    qed
    moreover have "min 16 (?s + 1) \<le> b \<longleftrightarrow> Suc ?s \<le> b" using b by (simp only: min_le_iff_disj) simp
    ultimately show ?thesis using False unfolding log2ceil_def by simp
  qed
qed

lemma log2ceil_le: "log2ceil v \<le> 16"
  by (simp add: log2ceil_def)

lemma log2ceil_less:
  assumes "log2ceil k < log2ceil k'"
  shows "k < k'"
proof -
  have b: "log2ceil k < 16" using assms log2ceil_le [of k'] by simp
  have "unat k \<le> 2 ^ log2ceil k" using log2ceil_le_iff [OF b, of k] by simp
  moreover have "\<not> unat k' \<le> 2 ^ log2ceil k" using log2ceil_le_iff [OF b, of k'] assms by simp
  ultimately show ?thesis by (simp add: word_less_nat_alt)
qed

section \<open>The histogram\<close>

definition bucket_keys :: "(u64 \<times> u64) list \<Rightarrow> nat \<Rightarrow> u64 list" where
  "bucket_keys ps b = filter (\<lambda>k. log2ceil k = b) (map fst ps)"

definition below :: "(u64 \<times> u64) list \<Rightarrow> nat \<Rightarrow> nat" where
  "below ps b = length (filter (\<lambda>k. log2ceil k \<le> b) (map fst ps))"

lemma histogram_spec:
  "length (fst (histogram ps)) = 17 \<and> length (snd (histogram ps)) = 17
    \<and> (\<forall>b \<le> 16. fst (histogram ps) ! b = length (bucket_keys ps b)
         \<and> (\<forall>k \<in> set (bucket_keys ps b). k \<le> snd (histogram ps) ! b)
         \<and> (snd (histogram ps) ! b = 0 \<or> snd (histogram ps) ! b \<in> set (bucket_keys ps b)))"
proof (induction ps rule: rev_induct)
  case Nil
  then show ?case by (simp add: histogram_def bucket_keys_def)
next
  case (snoc p ps)
  let ?h = "histogram ps" and ?b = "log2ceil (fst p)"
  have h: "histogram (ps @ [p]) = hist_step p ?h" by (simp add: histogram_def)
  have b: "?b \<le> 16" by (rule log2ceil_le)
  have len: "length (fst ?h) = 17" "length (snd ?h) = 17" using snoc by auto
  show ?case
  proof (intro conjI allI impI)
    fix b assume b16: "b \<le> (16::nat)"
    have IH: "fst ?h ! b = length (bucket_keys ps b)" "\<forall>k \<in> set (bucket_keys ps b). k \<le> snd ?h ! b"
      "snd ?h ! b = 0 \<or> snd ?h ! b \<in> set (bucket_keys ps b)" using snoc b16 by auto
    have bk: "bucket_keys (ps @ [p]) b = bucket_keys ps b @ (if b = ?b then [fst p] else [])"
      by (simp add: bucket_keys_def)
    have step: "fst (histogram (ps @ [p])) ! b = fst ?h ! b + (if b = ?b then 1 else 0)"
      "snd (histogram (ps @ [p])) ! b = (if b = ?b then max (snd ?h ! b) (fst p) else snd ?h ! b)"
      using b b16 len by (auto simp: h hist_step_def Let_def nth_list_update)
    show "fst (histogram (ps @ [p])) ! b = length (bucket_keys (ps @ [p]) b)" using step(1) IH(1) bk by simp
    show "\<forall>k \<in> set (bucket_keys (ps @ [p]) b). k \<le> snd (histogram (ps @ [p])) ! b"
      using IH(2) by (auto simp: step(2) bk le_max_iff_disj)
    show "snd (histogram (ps @ [p])) ! b = 0 \<or> snd (histogram (ps @ [p])) ! b \<in> set (bucket_keys (ps @ [p]) b)"
      using IH(3) by (auto simp: step(2) bk max_def)
  qed (use len in \<open>simp_all add: h hist_step_def Let_def\<close>)
qed

lemma below_Suc: "below ps (Suc b) = below ps b + length (bucket_keys ps (Suc b))"
  by (induction ps) (auto simp: below_def bucket_keys_def)

lemma below_16: "below ps 16 = length ps"
  by (simp add: below_def log2ceil_le)

lemma compact_size_spec:
  assumes "\<And>b. b \<le> 16 \<Longrightarrow> counts ! b = length (bucket_keys ps b)"
  shows "l \<le> 16 \<Longrightarrow> \<exists>l'. compact_size counts l (below ps l) = (l', below ps l') \<and> l' \<le> l
    \<and> (l' = 0 \<or> bucket_keys ps l' \<noteq> [])"
proof (induction l)
  case (Suc l)
  have c: "counts ! Suc l = length (bucket_keys ps (Suc l))" using assms Suc.prems by simp
  obtain l' where l': "compact_size counts l (below ps l) = (l', below ps l')" "l' \<le> l" "l' = 0 \<or> bucket_keys ps l' \<noteq> []"
    using Suc by auto
  show ?case
  proof (cases "bucket_keys ps (Suc l) = []")
    case True
    then show ?thesis using l' c by (auto simp: below_Suc)
  next
    case False
    then show ?thesis using l' c by (auto simp: below_Suc)
  qed
qed simp

text \<open>The array of the chosen size holds exactly the keys counted for it.\<close>

lemma compact_split:
  assumes "l \<le> 16" and "l = 0 \<or> bucket_keys ps l \<noteq> []" and "k \<in> fst ` set ps"
  shows "k \<le> snd (histogram ps) ! l \<longleftrightarrow> log2ceil k \<le> l"
proof -
  let ?m = "snd (histogram ps) ! l"
  have mx: "\<forall>k \<in> set (bucket_keys ps l). k \<le> ?m" "?m = 0 \<or> ?m \<in> set (bucket_keys ps l)"
    using histogram_spec [of ps] assms(1) by auto
  have kin: "k \<in> set (bucket_keys ps (log2ceil k))" using assms(3) by (auto simp: bucket_keys_def)
  have bk: "log2ceil k' = l" if "k' \<in> set (bucket_keys ps l)" for k' using that by (simp add: bucket_keys_def)
  have zero: "log2ceil 0 = 0" by (simp add: log2ceil_def is_pow2_def shift_count.simps [of 0])
  show ?thesis
  proof
    assume le: "k \<le> ?m"
    show "log2ceil k \<le> l"
    proof (rule ccontr)
      assume "\<not> log2ceil k \<le> l"
      then have "log2ceil ?m < log2ceil k" using mx(2) bk zero by auto
      then show False using log2ceil_less le by fastforce
    qed
  next
    assume le: "log2ceil k \<le> l"
    show "k \<le> ?m"
    proof (cases "log2ceil k = l")
      case True
      then show ?thesis using mx(1) kin by auto
    next
      case False
      then have "bucket_keys ps l \<noteq> []" using assms(2) le by auto
      then obtain k' where k': "k' \<in> set (bucket_keys ps l)" by (meson list.set_sel(1))
      then have "k < k'" using log2ceil_less [of k k'] bk le False by auto
      then show ?thesis using mx(1) k' by fastforce
    qed
  qed
qed

section \<open>Filling the new table\<close>

definition big_keys :: "nat \<Rightarrow> (u64 \<times> u64) list \<Rightarrow> nat" where
  "big_keys n ps = length (filter (\<lambda>k. n \<le> unat k) (map fst ps))"

lemma inttable_fill_spec:
  "int_ok nt \<Longrightarrow> tab_count (int_t nt) + big_keys (array_size nt) ps \<le> max_count (int_t nt) \<Longrightarrow>
    distinct (map fst ps) \<Longrightarrow> (\<forall>k \<in> fst ` set ps. int_map nt k = None) \<Longrightarrow> (\<forall>v \<in> snd ` set ps. upb_arrhas v) \<Longrightarrow>
    \<exists>nt'. inttable_fill malloc ps nt a = Ret (nt', a) \<and> int_ok nt' \<and> int_map nt' = int_map nt ++ map_of ps
      \<and> size_lg2 (int_t nt') = size_lg2 (int_t nt) \<and> array_size nt' = array_size nt"
proof (induction ps arbitrary: nt)
  case Nil
  then show ?case by simp
next
  case (Cons p ps)
  obtain k v where p: "p = (k, v)" by (cases p)
  have new: "int_map nt k = None" and v: "upb_arrhas v" and kps: "k \<notin> fst ` set ps" using Cons.prems(3-5) p by auto
  have "\<exists>n1. upb_inttable_insert malloc nt k v a = Ret (True, n1, a) \<and> int_ok n1 \<and> int_map n1 = (int_map nt)(k \<mapsto> v)
    \<and> size_lg2 (int_t n1) = size_lg2 (int_t nt) \<and> max_count (int_t n1) = max_count (int_t nt)
    \<and> tab_count (int_t n1) + big_keys (array_size nt) ps = tab_count (int_t nt) + big_keys (array_size nt) (p # ps)
    \<and> array_size n1 = array_size nt"
  proof (cases "unat k < array_size nt")
    case True
    from inttable_insert_array [OF Cons.prems(1) True new v, of malloc a] True p show ?thesis
      by (auto simp: big_keys_def)
  next
    case False
    have "\<not> isfull (int_t nt)" using Cons.prems(2) False p by (simp add: big_keys_def isfull_def)
    from inttable_insert_room [OF Cons.prems(1) False new v this, of malloc a] False p show ?thesis
      by (auto simp: big_keys_def)
  qed
  then obtain n1 where n1: "upb_inttable_insert malloc nt k v a = Ret (True, n1, a)" "int_ok n1"
    "int_map n1 = (int_map nt)(k \<mapsto> v)" "size_lg2 (int_t n1) = size_lg2 (int_t nt)"
    "max_count (int_t n1) = max_count (int_t nt)"
    "tab_count (int_t n1) + big_keys (array_size nt) ps = tab_count (int_t nt) + big_keys (array_size nt) (p # ps)"
    "array_size n1 = array_size nt" by blast
  have room: "tab_count (int_t n1) + big_keys (array_size n1) ps \<le> max_count (int_t n1)"
    using n1(5-7) Cons.prems(2) by simp
  have dist: "distinct (map fst ps)" and vals: "\<forall>v \<in> snd ` set ps. upb_arrhas v" using Cons.prems(3,5) by auto
  have fresh: "\<forall>j \<in> fst ` set ps. int_map n1 j = None" using Cons.prems(4) kps by (auto simp: n1(3) p)
  obtain nt' where nt': "inttable_fill malloc ps n1 a = Ret (nt', a)" "int_ok nt'" "int_map nt' = int_map n1 ++ map_of ps"
    "size_lg2 (int_t nt') = size_lg2 (int_t n1)" "array_size nt' = array_size n1"
    using Cons.IH [OF n1(2) room dist fresh vals] by blast
  have "int_map nt' = int_map nt ++ map_of (p # ps)"
    using nt'(3) n1(3) p kps by (simp add: map_add_upd_left dom_map_of_conv_image_fst)
  moreover have "inttable_fill malloc (p # ps) nt a = Ret (nt', a)" using nt'(1) n1(1) p by simp
  moreover have "size_lg2 (int_t nt') = size_lg2 (int_t nt) \<and> array_size nt' = array_size nt" using nt'(4,5) n1(4,7) by simp
  ultimately show ?case using nt'(2) by blast
qed

section \<open>Compaction\<close>

lemma compact_max_key:
  assumes "l \<le> 16" and "- 1 \<notin> fst ` set ps"
  shows "snd (histogram ps) ! l \<noteq> - 1"
proof
  assume m: "snd (histogram ps) ! l = - 1"
  then have "- 1 \<in> set (bucket_keys ps l)" using histogram_spec [of ps] assms(1) by force
  with assms(2) show False by (simp add: bucket_keys_def)
qed

lemma compact_big_keys:
  assumes "l \<le> 16" and "l = 0 \<or> bucket_keys ps l \<noteq> []" and "snd (histogram ps) ! l \<noteq> - 1"
  shows "big_keys (unat (snd (histogram ps) ! l + 1)) ps + below ps l = length ps"
proof -
  let ?m = "snd (histogram ps) ! l"
  have "filter (\<lambda>k. unat (?m + 1) \<le> unat k) (map fst ps) = filter (\<lambda>k. \<not> log2ceil k \<le> l) (map fst ps)"
  proof (intro filter_cong refl)
    fix k assume "k \<in> set (map fst ps)"
    then have "k \<le> ?m \<longleftrightarrow> log2ceil k \<le> l" by (intro compact_split [OF assms(1,2)]) simp
    then show "unat (?m + 1) \<le> unat k \<longleftrightarrow> \<not> log2ceil k \<le> l"
      by (auto simp: unat_plus_one [OF assms(3)] word_le_nat_alt)
  qed
  then show ?thesis
    unfolding big_keys_def below_def using sum_length_filter_compl [of "\<lambda>k. log2ceil k \<le> l" "map fst ps"] by simp
qed

lemma compact_hash_room:
  assumes "hc \<le> 55705"
  defines "lg \<equiv> log2ceil (of_nat (compact_hash_size hc))"
  shows "hc \<le> max_count (new_table lg :: 'k upb_table)" and "lg \<le> 16"
proof -
  show "lg \<le> 16" unfolding lg_def by (rule log2ceil_le)
  show "hc \<le> max_count (new_table lg :: 'k upb_table)"
  proof (cases "hc = 0")
    case False
    let ?hs = "compact_hash_size hc"
    have hs: "17 * ?hs > 20 * hc" "?hs \<le> 2 ^ 16" "2 \<le> ?hs"
      using False assms(1) by (auto simp: compact_hash_size_def)
    have u: "unat (of_nat ?hs :: u64) = ?hs" using hs(2) by (intro unat_of_nat_small) simp
    have "?hs \<le> 2 ^ lg"
    proof (cases "lg < 16")
      case True
      with log2ceil_le_iff [OF True, of "of_nat ?hs"] u show ?thesis by (simp add: lg_def)
    next
      case False
      then have "lg = 16" using log2ceil_le unfolding lg_def by (meson le_antisym not_less)
      with hs(2) show ?thesis by simp
    qed
    moreover from this hs(3) have "lg \<noteq> 0" by (cases lg) auto
    moreover have "hc \<le> ?hs * 85 div 100" using hs(1) by simp
    ultimately show ?thesis using div_le_mono [of "?hs * 85" "2 ^ lg * 85" 100]
      by (simp add: new_table_def Let_def)
  qed simp
qed

lemma sizedinit_total:
  assumes "alloc_total malloc"
  shows "\<exists>t a'. upb_inttable_sizedinit malloc n lg a = Some (t, a')"
proof -
  obtain a1 where "init_table malloc lg a = Some (new_table lg :: u64 upb_table, a1)"
    using init_table_total [OF assms] by blast
  moreover obtain a2 where "malloc a1 (max 1 n * 8) = Some a2" using assms unfolding alloc_total_def by blast
  ultimately show ?thesis by (simp add: upb_inttable_sizedinit_def Let_def)
qed



text \<open>
  The last bucket of the histogram holds every key above \<open>2 ^ 15\<close>, however large. With 6554 entries the
  density test accepts it, and the array is sized by the largest key: one key \<open>k\<close> above \<open>2 ^ 15\<close> makes
  the table ask for \<open>8 * (k + 1)\<close> bytes, and when the arena refuses them the result is ignored.
\<close>

lemma compact_sizes_by_largest_key:
  assumes "int_ok t" and "6554 \<le> upb_inttable_count t" and "int_map t k \<noteq> None" and "2 ^ 15 < unat k"
    and "int_map t (- 1) = None" and "\<And>a n. 8 * (unat k + 1) \<le> n \<Longrightarrow> malloc a n = None"
  shows "upb_inttable_compact malloc t a = Fault"
proof -
  let ?ps = "inttable_pairs t (- 1)" and ?h = "histogram (inttable_pairs t (- 1))"
  note ps = inttable_pairs_map [OF assms(1)]
  have kin: "k \<in> fst ` set ?ps" and "- 1 \<notin> fst ` set ?ps"
    using ps(1) assms(3,5) by (metis map_of_eq_None_iff)+
  have "\<not> log2ceil k \<le> 15" using log2ceil_le_iff [of 15 k] assms(4) by simp
  then have "log2ceil k = 16" using log2ceil_le [of k] by simp
  then have kb: "k \<in> set (bucket_keys ?ps 16)" using kin by (auto simp: bucket_keys_def)
  have h: "fst ?h ! 16 = length (bucket_keys ?ps 16)" "\<forall>k \<in> set (bucket_keys ?ps 16). k \<le> snd ?h ! 16"
    using histogram_spec [of ?ps] by auto
  have "fst ?h ! 16 \<noteq> 0" using h(1) kb by auto
  then have size: "compact_size (fst ?h) 16 (upb_inttable_count t) = (16, upb_inttable_count t)"
    using assms(2) compact_size.simps(2) [of "fst ?h" 15 "upb_inttable_count t"] by simp
  have m: "snd ?h ! 16 \<noteq> - 1" by (rule compact_max_key) (simp, fact)
  have "unat k \<le> unat (snd ?h ! 16)" using h(2) kb by (simp add: word_le_nat_alt)
  then have "8 * (unat k + 1) \<le> max 1 (unat (snd ?h ! 16 + 1)) * 8" using unat_plus_one [OF m] by simp
  then have "malloc a' (max 1 (unat (snd ?h ! 16 + 1)) * 8) = None" for a' by (rule assms(6))
  then have "upb_inttable_sizedinit malloc (unat (snd ?h ! 16 + 1)) lg a = None" for lg
    by (simp add: upb_inttable_sizedinit_def Let_def split: option.splits)
  then show ?thesis unfolding upb_inttable_compact_def Let_def size prod.case by simp
qed

text \<open>
  \<^verbatim>\<open>upb_inttable_remove\<close> reads through a null pointer when the hash part has no entries, as after the
  compaction of a table whose keys all fit the array: here, of a table with the single key 0.\<close>

theorem inttable_remove_after_compact:
  "\<exists>t'. upb_inttable_compact counting_malloc zero_inttable 0 = Ret (t', 8)
    \<and> upb_inttable_lookup t' 7 = Ret None \<and> upb_inttable_remove t' 7 = Fault"
  by (intro exI [of _ "\<lparr>int_t = new_table 0, int_array = [5], array_count = 1\<rparr>"] conjI) code_simp+

end
