(* ===== verification/Enc_Buffer.thy ===== *)
theory Enc_Buffer
  imports Wire_Varint
begin

unbundle bit_operations_syntax

text \<open>
  The output buffer of \<^verbatim>\<open>upb/wire/encode.c\<close>. The encoder writes from the end of the buffer towards its
  start, so that lengths are known before they are written; when the space before the data runs out,
  the buffer is reallocated and the data moved to its end. The theory has the buffer with its growth
  and the write operations, and shows that each of them prepends bytes to the data written so far.
\<close>

section \<open>Definitions\<close>

datatype upb_EncodeStatus =
    kUpb_EncodeStatus_Ok
  | kUpb_EncodeStatus_OutOfMemory
  | kUpb_EncodeStatus_MaxDepthExceeded
  | kUpb_EncodeStatus_MissingRequired

text \<open>
  The encoder state: the arena, the memory from \<^verbatim>\<open>buf\<close> to \<^verbatim>\<open>limit\<close>, \<^verbatim>\<open>ptr\<close> as an offset from \<^verbatim>\<open>buf\<close>, and
  the remaining depth. The status leaves through \<open>Raise\<close>.
\<close>

record 'a upb_encstate =
  enc_arena :: 'a
  enc_buf :: bytes
  enc_ptr :: nat
  enc_depth :: int

text \<open>
  \<^verbatim>\<open>upb_Arena_Realloc\<close> of a block from one size to another: the new arena and the bytes of the new block
  beyond the old size, which the caller cannot rely on; \<open>None\<close> is a failed allocation.
\<close>

type_synonym 'a realloc = "'a \<Rightarrow> nat \<Rightarrow> nat \<Rightarrow> ('a \<times> bytes) option"

type_synonym 'a enc_res = "(upb_EncodeStatus, 'a upb_encstate) res"

function roundup_pow2_loop :: "nat \<Rightarrow> nat \<Rightarrow> nat" where
  "roundup_pow2_loop ret n = (if 0 < ret \<and> ret < n then roundup_pow2_loop (ret * 2) n else ret)"
  by pat_completeness auto
termination
  by (relation "measure (\<lambda>(ret, n). n - ret)") auto

declare roundup_pow2_loop.simps [simp del]

definition upb_roundup_pow2 :: "nat \<Rightarrow> nat" where
  "upb_roundup_pow2 n = roundup_pow2_loop 128 n"

text \<open>\<^verbatim>\<open>realloc\<close> keeps the old data at the beginning of the new block; it is moved to the end.\<close>

definition encode_growbuffer :: "'a realloc \<Rightarrow> nat \<Rightarrow> 'a upb_encstate \<Rightarrow> 'a enc_res" where
  "encode_growbuffer realloc n e =
     (let old_size = length (enc_buf e);
          used = old_size - enc_ptr e;
          new_size = upb_roundup_pow2 (n + used)
      in case realloc (enc_arena e) old_size new_size of
           None \<Rightarrow> Raise kUpb_EncodeStatus_OutOfMemory
         | Some (a, fresh) \<Rightarrow>
             let block = enc_buf e @ fresh;
                 new_buf = (if old_size > 0 then take (new_size - old_size) block @ enc_buf e else block)
             in Ret (e\<lparr>enc_arena := a, enc_buf := new_buf, enc_ptr := new_size - used - n\<rparr>))"

definition encode_reserve :: "'a realloc \<Rightarrow> nat \<Rightarrow> 'a upb_encstate \<Rightarrow> 'a enc_res" where
  "encode_reserve realloc n e =
     (if enc_ptr e < n then encode_growbuffer realloc n e
      else Ret (e\<lparr>enc_ptr := enc_ptr e - n\<rparr>))"

text \<open>\<^verbatim>\<open>memcpy\<close> to an offset of the buffer.\<close>

definition write_at :: "nat \<Rightarrow> bytes \<Rightarrow> bytes \<Rightarrow> bytes" where
  "write_at p bs m = take p m @ bs @ drop (p + length bs) m"

definition encode_bytes :: "'a realloc \<Rightarrow> bytes \<Rightarrow> 'a upb_encstate \<Rightarrow> 'a enc_res" where
  "encode_bytes realloc data e =
     (if data = [] then Ret e
      else bindR (encode_reserve realloc (length data) e) (\<lambda>e'.
        if length (enc_buf e') < enc_ptr e' + length data then Fault
        else Ret (e'\<lparr>enc_buf := write_at (enc_ptr e') data (enc_buf e')\<rparr>)))"

text \<open>The bytes of an integer in memory, least significant first.\<close>

fun le_bytes :: "nat \<Rightarrow> u64 \<Rightarrow> bytes" where
  "le_bytes 0 w = []"
| "le_bytes (Suc n) w = ucast w # le_bytes n (drop_bit 8 w)"

definition encode_fixed64 :: "'a realloc \<Rightarrow> u64 \<Rightarrow> 'a upb_encstate \<Rightarrow> 'a enc_res" where
  "encode_fixed64 realloc val e = encode_bytes realloc (le_bytes 8 val) e"

definition encode_fixed32 :: "'a realloc \<Rightarrow> u32 \<Rightarrow> 'a upb_encstate \<Rightarrow> 'a enc_res" where
  "encode_fixed32 realloc val e = encode_bytes realloc (le_bytes 4 (ucast val)) e"

definition encode_longvarint :: "'a realloc \<Rightarrow> u64 \<Rightarrow> 'a upb_encstate \<Rightarrow> 'a enc_res" where
  "encode_longvarint realloc val e =
     bindR (encode_reserve realloc 10 e) (\<lambda>e'.
       let bs = encode_varint64 val; start = enc_ptr e' + 10 - length bs;
           m1 = write_at (enc_ptr e') bs (enc_buf e')
       in if length (enc_buf e') < enc_ptr e' + 10 \<or> 10 < length bs then Fault
          else Ret (e'\<lparr>enc_buf := write_at start (take (length bs) (drop (enc_ptr e') m1)) m1, enc_ptr := start\<rparr>))"

definition encode_varint :: "'a realloc \<Rightarrow> u64 \<Rightarrow> 'a upb_encstate \<Rightarrow> 'a enc_res" where
  "encode_varint realloc val e =
     (if val < 128 \<and> enc_ptr e \<noteq> 0
      then Ret (e\<lparr>enc_ptr := enc_ptr e - 1, enc_buf := (enc_buf e)[enc_ptr e - 1 := ucast val]\<rparr>)
      else encode_longvarint realloc val e)"

definition encode_tag :: "'a realloc \<Rightarrow> nat \<Rightarrow> u32 \<Rightarrow> 'a upb_encstate \<Rightarrow> 'a enc_res" where
  "encode_tag realloc field_number wire_type e =
     encode_varint realloc (ucast (push_bit 3 (of_nat field_number :: u32) OR wire_type)) e"

section \<open>The data written so far\<close>

definition enc_ok :: "'a upb_encstate \<Rightarrow> bool" where
  "enc_ok e \<longleftrightarrow> enc_ptr e \<le> length (enc_buf e)"

definition enc_data :: "'a upb_encstate \<Rightarrow> bytes" where
  "enc_data e = drop (enc_ptr e) (enc_buf e)"

text \<open>What the encoder relies on of \<^verbatim>\<open>upb_Arena_Realloc\<close>: the new block has the requested size.\<close>

definition realloc_ok :: "'a realloc \<Rightarrow> bool" where
  "realloc_ok realloc \<longleftrightarrow> (\<forall>a m n a' fresh. realloc a m n = Some (a', fresh) \<longrightarrow> length fresh = n - m)"

text \<open>
  A result \<open>r\<close> of an encoder function started in \<open>e\<close> implements the specification \<open>s\<close>: it prepends the
  bytes \<open>s\<close> gives, or fails the way \<open>s\<close> fails, or runs out of memory.
\<close>

definition implements :: "'a enc_res \<Rightarrow> 'a upb_encstate \<Rightarrow> (upb_EncodeStatus, bytes) res \<Rightarrow> bool" where
  "implements r e s \<longleftrightarrow>
     (case r of
        Ret e' \<Rightarrow> (\<exists>bs. s = Ret bs \<and> enc_ok e' \<and> enc_data e' = bs @ enc_data e \<and> enc_depth e' = enc_depth e)
      | Raise st \<Rightarrow> st = kUpb_EncodeStatus_OutOfMemory \<or> s = Raise st
      | Fault \<Rightarrow> s = Fault)"

lemma implements_Ret:
  "implements (Ret e') e (Ret bs) \<longleftrightarrow> enc_ok e' \<and> enc_data e' = bs @ enc_data e \<and> enc_depth e' = enc_depth e"
  by (simp add: implements_def)

lemma implements_bind:
  assumes "implements r e s" and "\<And>e'. enc_ok e' \<Longrightarrow> enc_depth e' = enc_depth e \<Longrightarrow> implements (k e') e' s'"
  shows "implements (bindR r k) e (bindR s (\<lambda>a. bindR s' (\<lambda>b. Ret (b @ a))))"
proof (cases r)
  case (Ret e')
  with assms(1) obtain a where a: "s = Ret a" "enc_ok e'" "enc_data e' = a @ enc_data e" "enc_depth e' = enc_depth e"
    by (auto simp: implements_def)
  from assms(2) [OF a(2,4)] show ?thesis using Ret a by (cases "k e'") (auto simp: implements_def)
qed (use assms(1) in \<open>auto simp: implements_def\<close>)

lemma implements_bind_Ret:
  assumes "implements r e (Ret a)" and "\<And>e'. enc_ok e' \<Longrightarrow> enc_depth e' = enc_depth e \<Longrightarrow> implements (k e') e' (Ret b)"
  shows "implements (bindR r k) e (Ret (b @ a))"
  using implements_bind [OF assms] by simp

section \<open>Write operations prepend\<close>

lemma roundup_pow2_loop_ge: "0 < ret \<Longrightarrow> n \<le> roundup_pow2_loop ret n"
  by (induction ret n rule: roundup_pow2_loop.induct) (subst roundup_pow2_loop.simps, auto)

lemma upb_roundup_pow2_ge: "n \<le> upb_roundup_pow2 n"
  by (simp add: upb_roundup_pow2_def roundup_pow2_loop_ge)

lemma drop_length_append: "length xs = n \<Longrightarrow> drop (n + k) (xs @ ys) = drop k ys"
  by auto

text \<open>Reserving space: the data is unchanged behind \<open>n\<close> free bytes.\<close>

lemma encode_reserve_spec:
  assumes "realloc_ok realloc" and "enc_ok e"
  shows "encode_reserve realloc n e = Raise kUpb_EncodeStatus_OutOfMemory
    \<or> (\<exists>e'. encode_reserve realloc n e = Ret e' \<and> enc_ptr e' + n \<le> length (enc_buf e')
         \<and> drop (enc_ptr e' + n) (enc_buf e') = enc_data e \<and> enc_depth e' = enc_depth e)"
proof (cases "enc_ptr e < n")
  case False
  with assms(2) show ?thesis by (simp add: encode_reserve_def enc_ok_def enc_data_def)
next
  case True
  let ?old = "length (enc_buf e)" and ?used = "length (enc_buf e) - enc_ptr e"
  let ?new = "upb_roundup_pow2 (n + ?used)"
  have new: "n + ?used \<le> ?new" by (rule upb_roundup_pow2_ge)
  then have le: "?old \<le> ?new" using True assms(2) by (simp add: enc_ok_def)
  show ?thesis
  proof (cases "realloc (enc_arena e) ?old ?new")
    case None
    with True show ?thesis by (simp add: encode_reserve_def encode_growbuffer_def Let_def)
  next
    case (Some r)
    obtain a fresh where r: "r = (a, fresh)" by (cases r)
    have len: "length fresh = ?new - ?old" using assms(1) Some r unfolding realloc_ok_def by blast
    let ?block = "enc_buf e @ fresh"
    let ?nb = "if ?old > 0 then take (?new - ?old) ?block @ enc_buf e else ?block"
    have res: "encode_reserve realloc n e = Ret (e\<lparr>enc_arena := a, enc_buf := ?nb, enc_ptr := ?new - ?used - n\<rparr>)"
      using True Some r by (simp add: encode_reserve_def encode_growbuffer_def Let_def)
    have lnb: "length ?nb = ?new" using len le by auto
    have pos: "?new - ?used = (?new - ?old) + enc_ptr e" using le assms(2) by (simp add: enc_ok_def)
    have "drop (?new - ?used) ?nb = drop (enc_ptr e) (enc_buf e)"
    proof (cases "enc_buf e = []")
      case True
      with assms(2) len show ?thesis by (simp add: enc_ok_def)
    next
      case False
      have "length (take (?new - ?old) ?block) = ?new - ?old" using len by simp
      then have "drop ((?new - ?old) + enc_ptr e) (take (?new - ?old) ?block @ enc_buf e) = drop (enc_ptr e) (enc_buf e)"
        by (rule drop_length_append)
      with False show ?thesis by (simp only: pos) simp
    qed
    then show ?thesis using res lnb new by (auto simp: enc_data_def)
  qed
qed

lemma write_at_length: "p + length bs \<le> length m \<Longrightarrow> length (write_at p bs m) = length m"
  by (simp add: write_at_def)

lemma drop_write_at: "p + length bs \<le> length m \<Longrightarrow> drop p (write_at p bs m) = bs @ drop (p + length bs) m"
  by (simp add: write_at_def)

lemma drop_write_after: "p + length bs \<le> q \<Longrightarrow> q \<le> length m \<Longrightarrow> drop q (write_at p bs m) = drop q m"
  by (simp add: write_at_def add.commute)

lemma encode_bytes_implements:
  assumes "realloc_ok realloc" and "enc_ok e"
  shows "implements (encode_bytes realloc data e) e (Ret data)"
proof (cases "data = []")
  case True
  with assms(2) show ?thesis by (simp add: encode_bytes_def implements_def)
next
  case False
  consider "encode_reserve realloc (length data) e = Raise kUpb_EncodeStatus_OutOfMemory"
    | e' where "encode_reserve realloc (length data) e = Ret e'" "enc_ptr e' + length data \<le> length (enc_buf e')"
        "drop (enc_ptr e' + length data) (enc_buf e') = enc_data e" "enc_depth e' = enc_depth e"
    using encode_reserve_spec [OF assms, of "length data"] by blast
  then show ?thesis
  proof cases
    case 1
    then show ?thesis using False by (simp add: encode_bytes_def implements_def)
  next
    case 2
    then show ?thesis using False
      by (simp add: encode_bytes_def implements_def enc_ok_def enc_data_def drop_write_at write_at_length)
  qed
qed

lemma encode_longvarint_implements:
  assumes "realloc_ok realloc" and "enc_ok e"
  shows "implements (encode_longvarint realloc val e) e (Ret (encode_varint64 val))"
proof -
  let ?bs = "encode_varint64 val"
  have len: "length ?bs \<le> 10" by (rule encode_varint64_length_10)
  consider "encode_reserve realloc 10 e = Raise kUpb_EncodeStatus_OutOfMemory"
    | e' where "encode_reserve realloc 10 e = Ret e'" "enc_ptr e' + 10 \<le> length (enc_buf e')"
        "drop (enc_ptr e' + 10) (enc_buf e') = enc_data e" "enc_depth e' = enc_depth e"
    using encode_reserve_spec [OF assms, of 10] by blast
  then show ?thesis
  proof cases
    case 1
    then show ?thesis by (simp add: encode_longvarint_def implements_def)
  next
    case 2
    let ?p = "enc_ptr e'" and ?m1 = "write_at (enc_ptr e') ?bs (enc_buf e')"
    have fits: "?p + length ?bs \<le> length (enc_buf e')" using 2(2) len by simp
    have m1: "length ?m1 = length (enc_buf e')" "drop ?p ?m1 = ?bs @ drop (?p + length ?bs) (enc_buf e')"
      using write_at_length [OF fits] drop_write_at [OF fits] by simp_all
    have "?p + 10 - length ?bs + length ?bs = ?p + 10" using len by simp
    then have "drop (?p + 10 - length ?bs) (write_at (?p + 10 - length ?bs) ?bs ?m1) = ?bs @ drop (?p + 10) ?m1"
      using 2(2) m1(1) by (subst drop_write_at) simp_all
    also have "drop (?p + 10) ?m1 = enc_data e" using 2(2,3) len fits by (subst drop_write_after) simp_all
    finally show ?thesis
      using 2 len m1 by (simp add: encode_longvarint_def implements_def enc_ok_def enc_data_def Let_def write_at_length)
  qed
qed

lemma encode_varint64_small: "val < 128 \<Longrightarrow> encode_varint64 val = [ucast val]"
proof -
  assume small: "val < 128"
  then have "unat val < 128" by (simp add: word_less_nat_alt)
  then have "unat (drop_bit 7 val) = 0" by (simp add: unat_drop_bit)
  then have 0: "drop_bit 7 val = 0" by (simp add: unat_eq_zero)
  have "val AND 127 = val"
    using unat_and_127 [of val] \<open>unat val < 128\<close> by (simp add: word_unat_eq_iff)
  with 0 show ?thesis by (subst encode_varint64.simps) simp
qed

lemma encode_varint_implements:
  assumes "realloc_ok realloc" and "enc_ok e"
  shows "implements (encode_varint realloc val e) e (Ret (encode_varint64 val))"
proof (cases "val < 128 \<and> enc_ptr e \<noteq> 0")
  case True
  then have "drop (enc_ptr e - 1) ((enc_buf e)[enc_ptr e - 1 := ucast val]) = ucast val # drop (enc_ptr e) (enc_buf e)"
    using assms(2) by (cases "enc_ptr e") (simp_all add: enc_ok_def Cons_nth_drop_Suc [symmetric] drop_update_swap)
  with True assms(2) show ?thesis
    by (simp add: encode_varint_def implements_def enc_ok_def enc_data_def encode_varint64_small)
next
  case False
  then show ?thesis using encode_longvarint_implements [OF assms, of val] by (simp only: encode_varint_def if_False)
qed

end
