(* ===== verification/Message.thy ===== *)
theory Message
  imports Mini_Table Str_Table Enc_Buffer
begin

unbundle bit_operations_syntax

text \<open>
  Messages in memory, as \<^verbatim>\<open>upb/message\<close> lays them out: a message is a block of memory that its mini
  table describes, plus a list of unknown fields and extensions. The block is a function from offsets
  to cells; an offset that was never written holds the zero that \<^verbatim>\<open>_upb_Message_New\<close> fills it with. A cell
  holds what the source stores at its offset: a byte, a 32-bit or 64-bit integer (or the bits of a
  float or a double), a string view, or a pointer to a message, an array or a map. Reading a cell at
  another type than it was written with is a fault. The theory has the presence bits, the oneof cases,
  the extensions, the unknown fields and the maps of a message.
\<close>

section \<open>Definitions\<close>

text \<open>
  A message has its frozen bit, the capacity of its slot array (0 while \<^verbatim>\<open>internal\<close> is \<^verbatim>\<open>NULL\<close>), its memory
  and the slots in use. A tagged message pointer carries the flag that marks a message of an unlinked
  type. An array has its frozen bit, the logarithm of its element size, its elements, and the cells
  between its size and its capacity. A map has its frozen bit, its key and value sizes, its string
  table, and the list of the values that were stored, to which the table's values are indices (the
  pointers of the source for strings and messages). \<open>Undef\<close> is memory that was never written.
\<close>

datatype upb_Message =
  upb_Message (msg_frozen: bool) (msg_cap: nat) (msg_mem: "nat \<Rightarrow> upb_cell") (msg_aux: "upb_aux list")
and upb_cell =
    Zero | Undef | Cell1 u8 | Cell4 u32 | Cell8 u64 | CellStr bytes | CellMsg bool upb_Message
  | CellArr bool nat "upb_cell list" "upb_cell list" | CellMap bool nat nat upb_strtable "upb_cell list"
and upb_aux = AuxNull | AuxUnknown bytes | AuxExt upb_MiniTableExtension upb_cell

subsection \<open>Cells\<close>

fun cell1 :: "upb_cell \<Rightarrow> ('e, u8) res" where
  "cell1 Zero = Ret 0"
| "cell1 (Cell1 b) = Ret b"
| "cell1 _ = Fault"

fun cell4 :: "upb_cell \<Rightarrow> ('e, u32) res" where
  "cell4 Zero = Ret 0"
| "cell4 (Cell4 w) = Ret w"
| "cell4 _ = Fault"

fun cell8 :: "upb_cell \<Rightarrow> ('e, u64) res" where
  "cell8 Zero = Ret 0"
| "cell8 (Cell8 w) = Ret w"
| "cell8 _ = Fault"

fun cell_str :: "upb_cell \<Rightarrow> ('e, bytes) res" where
  "cell_str Zero = Ret []"
| "cell_str (CellStr s) = Ret s"
| "cell_str _ = Fault"

text \<open>A pointer is not null.\<close>

fun cell_ptr :: "upb_cell \<Rightarrow> ('e, bool) res" where
  "cell_ptr Zero = Ret False"
| "cell_ptr (CellMsg _ _) = Ret True"
| "cell_ptr (CellArr _ _ _ _) = Ret True"
| "cell_ptr (CellMap _ _ _ _ _) = Ret True"
| "cell_ptr _ = Fault"

definition msg_cell :: "upb_Message \<Rightarrow> nat \<Rightarrow> upb_cell" where
  "msg_cell msg off = msg_mem msg off"

definition msg_set :: "upb_Message \<Rightarrow> nat \<Rightarrow> upb_cell \<Rightarrow> upb_Message" where
  "msg_set msg off c = upb_Message (msg_frozen msg) (msg_cap msg) ((msg_mem msg)(off := c)) (msg_aux msg)"

text \<open>\<^verbatim>\<open>_upb_Message_New\<close>: \<^verbatim>\<open>size\<close> bytes of zeros from the arena.\<close>

definition empty_msg :: upb_Message where
  "empty_msg = upb_Message False 0 (\<lambda>_. Zero) []"

definition upb_Message_New :: "'a alloc \<Rightarrow> upb_MiniTable \<Rightarrow> 'a \<Rightarrow> (upb_Message \<times> 'a) option" where
  "upb_Message_New malloc m a = map_option (\<lambda>a'. (empty_msg, a')) (malloc a (mt_size m))"

subsection \<open>Presence\<close>

definition upb_Message_GetHasbit :: "upb_Message \<Rightarrow> upb_MiniTableField \<Rightarrow> ('e, bool) res" where
  "upb_Message_GetHasbit msg f =
     (case (upb_MiniTableField_HasbitOffset f, upb_MiniTableField_HasbitMask f) of
        (Ret off, Ret hm) \<Rightarrow> bindR (cell1 (msg_cell msg off)) (\<lambda>b. Ret (b AND hm \<noteq> 0))
      | _ \<Rightarrow> Fault)"

definition upb_Message_SetHasbit :: "upb_Message \<Rightarrow> upb_MiniTableField \<Rightarrow> ('e, upb_Message) res" where
  "upb_Message_SetHasbit msg f =
     (case (upb_MiniTableField_HasbitOffset f, upb_MiniTableField_HasbitMask f) of
        (Ret off, Ret hm) \<Rightarrow> bindR (cell1 (msg_cell msg off)) (\<lambda>b. Ret (msg_set msg off (Cell1 (b OR hm))))
      | _ \<Rightarrow> Fault)"

definition upb_Message_ClearHasbit :: "upb_Message \<Rightarrow> upb_MiniTableField \<Rightarrow> ('e, upb_Message) res" where
  "upb_Message_ClearHasbit msg f =
     (case (upb_MiniTableField_HasbitOffset f, upb_MiniTableField_HasbitMask f) of
        (Ret off, Ret hm) \<Rightarrow> bindR (cell1 (msg_cell msg off)) (\<lambda>b. Ret (msg_set msg off (Cell1 (b AND NOT hm))))
      | _ \<Rightarrow> Fault)"

definition upb_Message_GetOneofCase :: "upb_Message \<Rightarrow> upb_MiniTableField \<Rightarrow> ('e, u32) res" where
  "upb_Message_GetOneofCase msg f =
     (case upb_MiniTableField_OneofOffset f of Ret off \<Rightarrow> cell4 (msg_cell msg off) | _ \<Rightarrow> Fault)"

definition upb_Message_SetOneofCase :: "upb_Message \<Rightarrow> upb_MiniTableField \<Rightarrow> ('e, upb_Message) res" where
  "upb_Message_SetOneofCase msg f =
     (case upb_MiniTableField_OneofOffset f of
        Ret off \<Rightarrow> Ret (msg_set msg off (Cell4 (of_nat (number f))))
      | _ \<Rightarrow> Fault)"

text \<open>
  \<^verbatim>\<open>_upb_Message_IsInitializedShallow\<close> loads the eight bytes after the message header and tests the
  lowest \<open>required_count\<close> bits; the bytes that hold these bits are the ones that matter.
\<close>

definition hasbit_set :: "upb_Message \<Rightarrow> nat \<Rightarrow> ('e, bool) res" where
  "hasbit_set msg i = bindR (cell1 (msg_cell msg (8 + i div 8))) (\<lambda>b. Ret (bit b (i mod 8)))"

fun all_hasbits :: "upb_Message \<Rightarrow> nat \<Rightarrow> ('e, bool) res" where
  "all_hasbits msg 0 = Ret True"
| "all_hasbits msg (Suc n) =
     bindR (all_hasbits msg n) (\<lambda>r. bindR (hasbit_set msg n) (\<lambda>b. Ret (r \<and> b)))"

definition upb_Message_IsInitializedShallow :: "upb_Message \<Rightarrow> upb_MiniTable \<Rightarrow> ('e, bool) res" where
  "upb_Message_IsInitializedShallow msg m =
     (if 0 < required_count m \<and> required_count m \<le> 64 then all_hasbits msg (required_count m) else Fault)"

subsection \<open>Unknown fields and extensions\<close>

fun aux_unknown :: "upb_aux list \<Rightarrow> bytes list" where
  "aux_unknown [] = []"
| "aux_unknown (AuxUnknown u # xs) = u # aux_unknown xs"
| "aux_unknown (_ # xs) = aux_unknown xs"

fun aux_exts :: "upb_aux list \<Rightarrow> (upb_MiniTableExtension \<times> upb_cell) list" where
  "aux_exts [] = []"
| "aux_exts (AuxExt e c # xs) = (e, c) # aux_exts xs"
| "aux_exts (_ # xs) = aux_exts xs"

text \<open>The sequence of strings that \<^verbatim>\<open>upb_Message_NextUnknown\<close> returns.\<close>

definition msg_unknown :: "upb_Message \<Rightarrow> bytes list" where
  "msg_unknown msg = aux_unknown (msg_aux msg)"

text \<open>
  \<^verbatim>\<open>upb_Message_NextUnknown\<close> at the position \<open>i\<close>: the string it finds, if any, and the position after it.
\<close>

fun next_unknown_loop :: "upb_aux list \<Rightarrow> nat \<Rightarrow> bytes option \<times> nat" where
  "next_unknown_loop [] i = (None, i)"
| "next_unknown_loop (AuxUnknown u # xs) i = (Some u, i + 1)"
| "next_unknown_loop (_ # xs) i = next_unknown_loop xs (i + 1)"

definition upb_Message_NextUnknown :: "upb_Message \<Rightarrow> nat \<Rightarrow> bytes option \<times> nat" where
  "upb_Message_NextUnknown msg iter = next_unknown_loop (drop iter (msg_aux msg)) iter"

definition upb_Message_HasUnknown :: "upb_Message \<Rightarrow> bool" where
  "upb_Message_HasUnknown msg \<longleftrightarrow> \<not> Option.is_none (fst (upb_Message_NextUnknown msg 0))"

text \<open>
  \<^verbatim>\<open>_upb_Message_ReserveSlot\<close>: the slot array has room for four slots first, and grows to the next power
  of two. The result is the flag the source returns, the message and the arena.
\<close>

definition upb_Message_SizeOfInternal :: "nat \<Rightarrow> nat" where
  "upb_Message_SizeOfInternal n = max 8 (8 + 8 * n)"

definition upb_RoundUpToPowerOfTwo :: "nat \<Rightarrow> nat" where
  "upb_RoundUpToPowerOfTwo n = 2 ^ upb_Log2Ceiling n"

definition msg_with_cap :: "upb_Message \<Rightarrow> nat \<Rightarrow> upb_Message" where
  "msg_with_cap msg n = upb_Message (msg_frozen msg) n (msg_mem msg) (msg_aux msg)"

definition upb_Message_ReserveSlot ::
  "'a alloc \<Rightarrow> 'a realloc \<Rightarrow> upb_Message \<Rightarrow> 'a \<Rightarrow> ('e, bool \<times> upb_Message \<times> 'a) res" where
  "upb_Message_ReserveSlot malloc realloc msg a =
     (if msg_frozen msg then Fault
      else if msg_cap msg = 0 then
        (case malloc a (upb_Message_SizeOfInternal 4) of
           None \<Rightarrow> Ret (False, msg, a)
         | Some a' \<Rightarrow> Ret (True, upb_Message (msg_frozen msg) 4 (msg_mem msg) [], a'))
      else if msg_cap msg = length (msg_aux msg) then
        (let new_capacity = upb_RoundUpToPowerOfTwo (length (msg_aux msg) + 1) in
         case realloc a (upb_Message_SizeOfInternal (msg_cap msg)) (upb_Message_SizeOfInternal new_capacity) of
           None \<Rightarrow> Ret (False, msg, a)
         | Some (a', _) \<Rightarrow>
             if length (msg_aux msg) < new_capacity then Ret (True, msg_with_cap msg new_capacity, a') else Fault)
      else if length (msg_aux msg) < msg_cap msg then Ret (True, msg, a)
      else Fault)"

definition msg_add_slot :: "upb_Message \<Rightarrow> upb_aux \<Rightarrow> upb_Message" where
  "msg_add_slot msg x = upb_Message (msg_frozen msg) (msg_cap msg) (msg_mem msg) (msg_aux msg @ [x])"

definition upb_Message_AddUnknown ::
  "'a alloc \<Rightarrow> 'a realloc \<Rightarrow> upb_Message \<Rightarrow> bytes \<Rightarrow> bool \<Rightarrow> 'a \<Rightarrow> ('e, bool \<times> upb_Message \<times> 'a) res" where
  "upb_Message_AddUnknown malloc realloc msg data aliased a =
     bindR (upb_Message_ReserveSlot malloc realloc msg a) (\<lambda>(ok, msg1, a1).
       if \<not> ok then Ret (False, msg1, a1)
       else case malloc a1 (if aliased then 16 else 16 + length data) of
           None \<Rightarrow> Ret (False, msg1, a1)
         | Some a2 \<Rightarrow> Ret (True, msg_add_slot msg1 (AuxUnknown data), a2))"

definition upb_Message_AddUnknownV ::
  "'a alloc \<Rightarrow> 'a realloc \<Rightarrow> upb_Message \<Rightarrow> bytes list \<Rightarrow> 'a \<Rightarrow> ('e, bool \<times> upb_Message \<times> 'a) res" where
  "upb_Message_AddUnknownV malloc realloc msg data a =
     (if data = [] then Fault
      else bindR (upb_Message_ReserveSlot malloc realloc msg a) (\<lambda>(ok, msg1, a1).
        if \<not> ok then Ret (False, msg1, a1)
        else case malloc a1 (16 + sum_list (map length data)) of
            None \<Rightarrow> Ret (False, msg1, a1)
          | Some a2 \<Rightarrow> Ret (True, msg_add_slot msg1 (AuxUnknown (concat data)), a2)))"

definition upb_Message_DiscardUnknown_shallow :: "upb_Message \<Rightarrow> ('e, upb_Message) res" where
  "upb_Message_DiscardUnknown_shallow msg =
     (if msg_frozen msg then Fault
      else Ret (upb_Message (msg_frozen msg) (msg_cap msg) (msg_mem msg)
                  (filter (\<lambda>x. case x of AuxExt _ _ \<Rightarrow> True | _ \<Rightarrow> False) (msg_aux msg))))"

text \<open>
  \<^verbatim>\<open>upb_Message_DeleteUnknown\<close> clears the slot before the position \<open>iter\<close>, which must hold the string
  \<open>data\<close>, and searches for the next unknown field.
\<close>

definition upb_Message_DeleteUnknown ::
  "upb_Message \<Rightarrow> bytes \<Rightarrow> nat \<Rightarrow> ('e, upb_Message \<times> bytes option \<times> nat) res" where
  "upb_Message_DeleteUnknown msg data iter =
     (if msg_frozen msg \<or> iter = 0 \<or> msg_cap msg = 0 \<or> length (msg_aux msg) < iter then Fault
      else case msg_aux msg ! (iter - 1) of
          AuxUnknown u \<Rightarrow>
            if u = data then
              let msg' = upb_Message (msg_frozen msg) (msg_cap msg) (msg_mem msg) ((msg_aux msg)[iter - 1 := AuxNull])
              in Ret (msg', upb_Message_NextUnknown msg' iter)
            else Fault
        | _ \<Rightarrow> Fault)"

text \<open>
  \<^verbatim>\<open>_upb_Extension_IsEmpty\<close>; it dereferences the array or map pointer without a test.
\<close>

definition upb_Extension_IsEmpty :: "upb_MiniTableExtension \<times> upb_cell \<Rightarrow> ('e, bool) res" where
  "upb_Extension_IsEmpty ec =
     (if upb_MiniTableField_IsScalar (ext_field (fst ec)) then Ret False
      else if upb_MiniTableField_IsArray (ext_field (fst ec)) then
        (case snd ec of CellArr _ _ xs _ \<Rightarrow> Ret (xs = []) | _ \<Rightarrow> Fault)
      else if upb_MiniTableField_IsMap (ext_field (fst ec)) then
        (case snd ec of CellMap _ _ _ t _ \<Rightarrow> Ret (tab_count t = 0) | _ \<Rightarrow> Fault)
      else Fault)"

text \<open>
  \<^verbatim>\<open>_upb_Message_Getext\<close> and \<^verbatim>\<open>_upb_Message_GetOrCreateExtension\<close>: the slot of an extension. Extensions
  are compared by their address in the source, here by their contents.
\<close>

fun getext_loop :: "upb_aux list \<Rightarrow> upb_MiniTableExtension \<Rightarrow> nat \<Rightarrow> nat option" where
  "getext_loop [] x i = None"
| "getext_loop (AuxExt y c # xs) x i = (if y = x then Some i else getext_loop xs x (i + 1))"
| "getext_loop (_ # xs) x i = getext_loop xs x (i + 1)"

definition upb_Message_Getext :: "upb_Message \<Rightarrow> upb_MiniTableExtension \<Rightarrow> nat option" where
  "upb_Message_Getext msg x = getext_loop (msg_aux msg) x 0"

definition upb_Message_GetOrCreateExtension ::
  "'a alloc \<Rightarrow> 'a realloc \<Rightarrow> upb_Message \<Rightarrow> upb_MiniTableExtension \<Rightarrow> 'a \<Rightarrow> ('e, nat option \<times> upb_Message \<times> 'a) res" where
  "upb_Message_GetOrCreateExtension malloc realloc msg x a =
     (if msg_frozen msg then Fault
      else case upb_Message_Getext msg x of
          Some i \<Rightarrow> Ret (Some i, msg, a)
        | None \<Rightarrow>
            bindR (upb_Message_ReserveSlot malloc realloc msg a) (\<lambda>(ok, msg1, a1).
              if \<not> ok then Ret (None, msg1, a1)
              else case malloc a1 24 of
                  None \<Rightarrow> Ret (None, msg1, a1)
                | Some a2 \<Rightarrow> Ret (Some (length (msg_aux msg1)), msg_add_slot msg1 (AuxExt x Zero), a2)))"

text \<open>\<^verbatim>\<open>upb_Message_ReplaceUnknownWithExtension\<close>: the slot before the position \<open>iter\<close>, an unknown field, becomes an extension.\<close>

definition upb_Message_ReplaceUnknownWithExtension ::
  "upb_Message \<Rightarrow> nat \<Rightarrow> upb_MiniTableExtension \<Rightarrow> upb_cell \<Rightarrow> ('e, upb_Message) res" where
  "upb_Message_ReplaceUnknownWithExtension msg iter x c =
     (if iter = 0 \<or> msg_cap msg = 0 then Fault
      else bindR (rd (msg_aux msg) (iter - 1)) (\<lambda>s. case s of
          AuxUnknown _ \<Rightarrow> Ret (upb_Message (msg_frozen msg) (msg_cap msg) (msg_mem msg) ((msg_aux msg)[iter - 1 := AuxExt x c]))
        | _ \<Rightarrow> Fault))"

text \<open>
  \<^verbatim>\<open>upb_Message_NextExtension\<close> from the slots at \<open>i\<close> on, and the loop of
  \<^verbatim>\<open>upb_Message_ExtensionCount\<close> over the extensions that it returns.
\<close>

fun next_extension_loop ::
  "upb_aux list \<Rightarrow> nat \<Rightarrow> ('e, (upb_MiniTableExtension \<times> upb_cell) option \<times> nat) res" where
  "next_extension_loop [] i = Ret (None, i)"
| "next_extension_loop (AuxExt x c # xs) i =
     bindR (upb_Extension_IsEmpty (x, c)) (\<lambda>b.
       if b then next_extension_loop xs (i + 1) else Ret (Some (x, c), i + 1))"
| "next_extension_loop (_ # xs) i = next_extension_loop xs (i + 1)"

definition upb_Message_NextExtension ::
  "upb_Message \<Rightarrow> nat \<Rightarrow> ('e, (upb_MiniTableExtension \<times> upb_cell) option \<times> nat) res" where
  "upb_Message_NextExtension msg iter = next_extension_loop (drop iter (msg_aux msg)) iter"

fun extension_count_loop :: "upb_aux list \<Rightarrow> nat \<Rightarrow> ('e, nat) res" where
  "extension_count_loop [] n = Ret n"
| "extension_count_loop (AuxExt x c # xs) n =
     bindR (upb_Extension_IsEmpty (x, c)) (\<lambda>b. extension_count_loop xs (if b then n else n + 1))"
| "extension_count_loop (_ # xs) n = extension_count_loop xs n"

definition upb_Message_ExtensionCount :: "upb_Message \<Rightarrow> ('e, nat) res" where
  "upb_Message_ExtensionCount msg = (if msg_cap msg = 0 then Ret 0 else extension_count_loop (msg_aux msg) 0)"

subsection \<open>Maps\<close>

abbreviation (input) UPB_MAPTYPE_STRING :: nat where "UPB_MAPTYPE_STRING \<equiv> 0"

definition upb_map_tokey :: "upb_cell \<Rightarrow> nat \<Rightarrow> ('e, bytes) res" where
  "upb_map_tokey c sz =
     (if sz = UPB_MAPTYPE_STRING then cell_str c
      else if sz = 1 then bindR (cell1 c) (\<lambda>b. Ret [b])
      else if sz = 4 then bindR (cell4 c) (\<lambda>w. Ret (le_bytes 4 (ucast w)))
      else if sz = 8 then bindR (cell8 c) (\<lambda>w. Ret (le_bytes 8 w))
      else Fault)"

definition upb_map_fromkey :: "bytes \<Rightarrow> nat \<Rightarrow> ('e, upb_cell) res" where
  "upb_map_fromkey k sz =
     (if sz = UPB_MAPTYPE_STRING then Ret (CellStr k)
      else if sz = 1 then bindR (rd k 0) (\<lambda>b. Ret (Cell1 b))
      else if sz = 4 then bindR (rd_le k 0 4) (\<lambda>w. Ret (Cell4 (ucast w)))
      else if sz = 8 then bindR (rd_le k 0 8) (\<lambda>w. Ret (Cell8 w))
      else Fault)"

text \<open>
  The entries of a map in the order of the table, as the loop over \<^verbatim>\<open>upb_strtable_next2\<close> converts them.
\<close>

fun map_entries :: "nat \<Rightarrow> upb_cell list \<Rightarrow> (bytes \<times> u64) list \<Rightarrow> ('e, (upb_cell \<times> upb_cell) list) res" where
  "map_entries ks vals [] = Ret []"
| "map_entries ks vals ((k, i) # ps) =
     bindR (upb_map_fromkey k ks) (\<lambda>kc. bindR (rd vals (unat i)) (\<lambda>v.
     bindR (map_entries ks vals ps) (\<lambda>es. Ret ((kc, v) # es))))"

end
