(* ===== verification/Map_Sorter.thy ===== *)
theory Map_Sorter
  imports Message "HOL-Library.Multiset" "HOL-Library.List_Lexorder"
begin

unbundle bit_operations_syntax

text \<open>
  The sorter of \<^verbatim>\<open>upb/message/map_sorter.c\<close>, with which the encoder visits the entries of a map and the
  extensions of a message in an order that does not depend on the table layout. The sorter keeps a
  stack of arrays of entry pointers; each array is written once by a push and read to its end before
  the pop, so an array is a list of its own here. An entry is its key and its value word.
\<close>

section \<open>Definitions\<close>

text \<open>\<^verbatim>\<open>a < b ? -1 : a > b\<close>.\<close>

definition cmp_of :: "bool \<Rightarrow> bool \<Rightarrow> int" where
  "cmp_of lt gt = (if lt then - 1 else of_bool gt)"

definition upb_mapsorter_cmpi64 :: "bytes \<Rightarrow> bytes \<Rightarrow> ('e, int) res" where
  "upb_mapsorter_cmpi64 x y =
     bindR (rd_le x 0 8) (\<lambda>a. bindR (rd_le y 0 8) (\<lambda>b. Ret (cmp_of (a <s b) (b <s a))))"

definition upb_mapsorter_cmpu64 :: "bytes \<Rightarrow> bytes \<Rightarrow> ('e, int) res" where
  "upb_mapsorter_cmpu64 x y =
     bindR (rd_le x 0 8) (\<lambda>a. bindR (rd_le y 0 8) (\<lambda>b. Ret (cmp_of (a < b) (b < a))))"

definition upb_mapsorter_cmpi32 :: "bytes \<Rightarrow> bytes \<Rightarrow> ('e, int) res" where
  "upb_mapsorter_cmpi32 x y =
     bindR (rd_le x 0 4) (\<lambda>a. bindR (rd_le y 0 4) (\<lambda>b.
       Ret (cmp_of ((ucast a :: u32) <s ucast b) ((ucast b :: u32) <s ucast a))))"

definition upb_mapsorter_cmpu32 :: "bytes \<Rightarrow> bytes \<Rightarrow> ('e, int) res" where
  "upb_mapsorter_cmpu32 x y =
     bindR (rd_le x 0 4) (\<lambda>a. bindR (rd_le y 0 4) (\<lambda>b.
       Ret (cmp_of ((ucast a :: u32) < ucast b) ((ucast b :: u32) < ucast a))))"

definition upb_mapsorter_cmpbool :: "bytes \<Rightarrow> bytes \<Rightarrow> ('e, int) res" where
  "upb_mapsorter_cmpbool x y = bindR (rd x 0) (\<lambda>a. bindR (rd y 0) (\<lambda>b. Ret (cmp_of (a < b) (b < a))))"

text \<open>\<^verbatim>\<open>memcmp\<close>: only the sign of its result is specified.\<close>

fun memcmp :: "bytes \<Rightarrow> bytes \<Rightarrow> int" where
  "memcmp (x # xs) (y # ys) = (if x = y then memcmp xs ys else cmp_of (x < y) (y < x))"
| "memcmp _ _ = 0"

definition upb_mapsorter_cmpstr :: "bytes \<Rightarrow> bytes \<Rightarrow> ('e, int) res" where
  "upb_mapsorter_cmpstr a b =
     (let common_size = min (length a) (length b);
          cmp = memcmp (take common_size a) (take common_size b)
      in if cmp \<noteq> 0 then Ret (- cmp) else Ret (cmp_of (length a < length b) (length a > length b)))"

fun compar :: "upb_FieldType \<Rightarrow> (bytes \<Rightarrow> bytes \<Rightarrow> ('e, int) res) option" where
  "compar kUpb_FieldType_Int64 = Some upb_mapsorter_cmpi64"
| "compar kUpb_FieldType_SFixed64 = Some upb_mapsorter_cmpi64"
| "compar kUpb_FieldType_SInt64 = Some upb_mapsorter_cmpi64"
| "compar kUpb_FieldType_UInt64 = Some upb_mapsorter_cmpu64"
| "compar kUpb_FieldType_Fixed64 = Some upb_mapsorter_cmpu64"
| "compar kUpb_FieldType_Int32 = Some upb_mapsorter_cmpi32"
| "compar kUpb_FieldType_SInt32 = Some upb_mapsorter_cmpi32"
| "compar kUpb_FieldType_SFixed32 = Some upb_mapsorter_cmpi32"
| "compar kUpb_FieldType_Enum = Some upb_mapsorter_cmpi32"
| "compar kUpb_FieldType_UInt32 = Some upb_mapsorter_cmpu32"
| "compar kUpb_FieldType_Fixed32 = Some upb_mapsorter_cmpu32"
| "compar kUpb_FieldType_Bool = Some upb_mapsorter_cmpbool"
| "compar kUpb_FieldType_String = Some upb_mapsorter_cmpstr"
| "compar kUpb_FieldType_Bytes = Some upb_mapsorter_cmpstr"
| "compar _ = None"

text \<open>
  The C library's \<^verbatim>\<open>qsort\<close>, as an insertion sort. On keys that compare as different, every sorting
  algorithm gives the same list (lemma \<open>qsort_unique\<close>).
\<close>

fun qsort_insert :: "('x \<Rightarrow> 'x \<Rightarrow> ('e, int) res) \<Rightarrow> 'x \<Rightarrow> 'x list \<Rightarrow> ('e, 'x list) res" where
  "qsort_insert cmp x [] = Ret [x]"
| "qsort_insert cmp x (y # ys) =
     bindR (cmp x y) (\<lambda>c.
       if c > 0 then bindR (qsort_insert cmp x ys) (\<lambda>zs. Ret (y # zs)) else Ret (x # y # ys))"

fun qsort_c :: "('x \<Rightarrow> 'x \<Rightarrow> ('e, int) res) \<Rightarrow> 'x list \<Rightarrow> ('e, 'x list) res" where
  "qsort_c cmp [] = Ret []"
| "qsort_c cmp (x # xs) = bindR (qsort_c cmp xs) (qsort_insert cmp x)"

text \<open>
  \<^verbatim>\<open>_upb_mapsorter_pushmap\<close>: the occupied entries in table order, then sorted. The global allocator is
  taken to provide the array; the assertions are on the size of the map and the number of entries.
\<close>

definition table_pairs :: "upb_strtable \<Rightarrow> (bytes \<times> u64) list" where
  "table_pairs t = List.map_filter (\<lambda>ent. map_option (\<lambda>k. (k, val ent)) (key ent)) (take (upb_table_size t) (entries t))"

definition upb_mapsorter_pushmap :: "upb_FieldType \<Rightarrow> upb_strtable \<Rightarrow> ('e, (bytes \<times> u64) list) res" where
  "upb_mapsorter_pushmap key_type t =
     (if tab_count t = 0 \<or> length (entries t) < upb_table_size t \<or> length (table_pairs t) \<noteq> tab_count t then Fault
      else case compar key_type of
          None \<Rightarrow> if tab_count t \<le> 1 then Ret (table_pairs t) else Fault
        | Some cmp \<Rightarrow> qsort_c (\<lambda>p q. cmp (fst p) (fst q)) (table_pairs t))"

definition upb_mapsorter_cmpext ::
  "upb_MiniTableExtension \<times> upb_cell \<Rightarrow> upb_MiniTableExtension \<times> upb_cell \<Rightarrow> ('e, int) res" where
  "upb_mapsorter_cmpext a b =
     (let a_num = number (ext_field (fst a)); b_num = number (ext_field (fst b)) in
      if a_num = b_num then Fault else Ret (if a_num < b_num then - 1 else 1))"

definition upb_mapsorter_pushexts ::
  "upb_aux list \<Rightarrow> ('e, (upb_MiniTableExtension \<times> upb_cell) list) res" where
  "upb_mapsorter_pushexts aux = qsort_c upb_mapsorter_cmpext (aux_exts aux)"

section \<open>Keys as integers\<close>

fun le_val :: "bytes \<Rightarrow> u64" where
  "le_val [] = 0"
| "le_val (b # bs) = ucast b OR push_bit 8 (le_val bs)"

lemma rd_le_val: "rd_le (xs @ bs @ ys) (length xs) (length bs) = (Ret (le_val bs) :: ('e, u64) res)"
proof (induction bs arbitrary: xs)
  case (Cons b bs)
  have "rd_le (xs @ (b # bs) @ ys) (length xs + 1) (length bs) = (Ret (le_val bs) :: ('e, u64) res)" using Cons [of "xs @ [b]"] by simp
  then show ?case by simp
qed simp

lemma rd_le_all: "length k = n \<Longrightarrow> rd_le k 0 n = Ret (le_val k)"
  using rd_le_val [of "[]" k "[]"] by auto

lemma unat_le_val_Cons:
  assumes "length bs \<le> 7" and "unat (le_val bs) < 256 ^ length bs"
  shows "unat (le_val (b # bs)) = unat (le_val bs) * 256 + unat b"
proof -
  have "unat (le_val bs) < 256 ^ 7"
    using assms by (meson less_le_trans one_le_numeral power_increasing)
  then have "unat (le_val bs) * 2 ^ 8 + unat (ucast b :: u64) < 2 ^ LENGTH(64)" using byte_bound [of b] by simp
  moreover have "unat (ucast b :: u64) < 2 ^ 8" using byte_bound [of b] by simp
  ultimately show ?thesis using unat_or_high [of "ucast b :: u64" 8 "le_val bs"] by simp
qed

lemma le_val_bound: "length bs \<le> 8 \<Longrightarrow> unat (le_val bs) < 256 ^ length bs"
proof (induction bs)
  case (Cons b bs)
  then show ?case using unat_le_val_Cons [of bs b] byte_bound [of b] by simp
qed simp

lemma base_256:
  assumes "x < 256" and "y < (256 :: nat)"
  shows "a * 256 + x = c * 256 + y \<longleftrightarrow> a = c \<and> x = y"
proof
  have "(a * 256 + x) div 256 = a" "(a * 256 + x) mod 256 = x" "(c * 256 + y) div 256 = c" "(c * 256 + y) mod 256 = y"
    using assms by simp_all
  moreover assume "a * 256 + x = c * 256 + y"
  ultimately show "a = c \<and> x = y" by simp
qed simp

lemma le_val_inj: "length k = length l \<Longrightarrow> length k \<le> 8 \<Longrightarrow> le_val k = le_val l \<longleftrightarrow> k = l"
proof (induction k l rule: list_induct2)
  case (Cons x xs y ys)
  have "unat (le_val (x # xs)) = unat (le_val xs) * 256 + unat x" "unat (le_val (y # ys)) = unat (le_val ys) * 256 + unat y"
    using Cons.hyps Cons.prems unat_le_val_Cons le_val_bound by simp_all
  moreover have "unat x < 256" "unat y < 256" by (rule byte_bound)+
  ultimately have "le_val (x # xs) = le_val (y # ys) \<longleftrightarrow> unat (le_val xs) = unat (le_val ys) \<and> unat x = unat y"
    unfolding word_unat_eq_iff [of "le_val (x # xs)"] by (simp only: base_256)
  with Cons show ?case by (auto simp: word_unat_eq_iff)
qed simp

section \<open>The order of the sorter\<close>

text \<open>The number of key bytes of an integer key type.\<close>

fun key_bytes :: "upb_FieldType \<Rightarrow> nat" where
  "key_bytes t = 2 ^ upb_FieldType_SizeLg2 t"

definition is_string_key :: "upb_FieldType \<Rightarrow> bool" where
  "is_string_key t \<longleftrightarrow> t = kUpb_FieldType_String \<or> t = kUpb_FieldType_Bytes"

definition key_ok :: "upb_FieldType \<Rightarrow> bytes \<Rightarrow> bool" where
  "key_ok t k \<longleftrightarrow> compar t \<noteq> (None :: (bytes \<Rightarrow> bytes \<Rightarrow> (unit, int) res) option) \<and> (is_string_key t \<or> length k = key_bytes t)"

text \<open>
  The rank of a key in the iteration: integers by value, strings by the first byte in which they
  differ, greater bytes first, a prefix before what it is a prefix of. (The encoder writes backwards,
  so on the wire the order is the opposite one.)
\<close>

definition sort_rank :: "upb_FieldType \<Rightarrow> bytes \<Rightarrow> int list" where
  "sort_rank t k =
     (if is_string_key t then map (\<lambda>b. - uint b) k
      else if t \<in> {kUpb_FieldType_Int64, kUpb_FieldType_SFixed64, kUpb_FieldType_SInt64} then [sint (le_val k)]
      else if t \<in> {kUpb_FieldType_Int32, kUpb_FieldType_SInt32, kUpb_FieldType_SFixed32, kUpb_FieldType_Enum}
      then [sint (ucast (le_val k) :: u32)]
      else if t \<in> {kUpb_FieldType_UInt32, kUpb_FieldType_Fixed32} then [uint (ucast (le_val k) :: u32)]
      else [uint (le_val k)])"

lemma cmp_of_pos: "cmp_of (a < b) (b < a) > 0 \<longleftrightarrow> b < (a :: 'x::order)"
  by (auto simp: cmp_of_def)

lemma Nil_less_list: "[] < xs \<longleftrightarrow> xs \<noteq> []" for xs :: "int list"
  by (cases xs) simp_all

lemma sint_eq_iff: "sint x = sint y \<longleftrightarrow> x = (y :: 'a::len word)"
  by (auto intro: signed_word_eqI)

lemma cmpstr_rank:
  "\<exists>c. upb_mapsorter_cmpstr a b = Ret c \<and> (c > 0 \<longleftrightarrow> map (\<lambda>b. - uint b) b < map (\<lambda>b. - uint b) a)"
proof (induction a b rule: memcmp.induct)
  case (1 x xs y ys)
  show ?case
  proof (cases "x = y")
    case True
    have "upb_mapsorter_cmpstr (x # xs) (y # ys) = (upb_mapsorter_cmpstr xs ys :: ('a, int) res)"
      using True by (simp add: upb_mapsorter_cmpstr_def Let_def)
    with 1 True show ?thesis by simp
  next
    case False
    then show ?thesis
      by (auto simp: upb_mapsorter_cmpstr_def Let_def cmp_of_def word_less_def word_uint_eq_iff)
  qed
qed (auto simp: upb_mapsorter_cmpstr_def Let_def cmp_of_def Nil_less_list)

lemma le_val_byte: "length k = Suc 0 \<Longrightarrow> uint (le_val k) = uint (k ! 0)"
  by (cases k) (auto simp: uint_up_ucast is_up)

lemma le_val_u32:
  assumes "length k = 4" and "length l = 4"
  shows "(ucast (le_val k) :: u32) = ucast (le_val l) \<longleftrightarrow> k = l"
proof -
  have "unat (ucast (le_val j) :: u32) = unat (le_val j)" if "length j = 4" for j
    using le_val_bound [of j] that by (simp add: unsigned_ucast_eq take_bit_nat_eq_self)
  with assms show ?thesis using le_val_inj [of k l] by (simp add: word_unat_eq_iff)
qed

lemma compar_rank:
  assumes "key_ok t a" and "key_ok t b" and "compar t = Some cmp"
  shows "\<exists>c. cmp a b = Ret c \<and> (c > 0 \<longleftrightarrow> sort_rank t b < sort_rank t a)"
proof (cases "is_string_key t")
  case True
  then show ?thesis using assms(3) cmpstr_rank [of a b]
    by (auto simp: is_string_key_def sort_rank_def)
next
  case False
  then have "length a = key_bytes t" "length b = key_bytes t" using assms by (auto simp: key_ok_def)
  then show ?thesis using assms(3) False
    by (cases t) (auto simp: upb_mapsorter_cmpi64_def upb_mapsorter_cmpu64_def upb_mapsorter_cmpi32_def upb_mapsorter_cmpu32_def
        upb_mapsorter_cmpbool_def rd_le_all le_val_byte cmp_of_def sort_rank_def word_sless_alt word_less_def is_string_key_def)
qed

lemma sort_rank_inj:
  assumes "key_ok t a" and "key_ok t b" and "sort_rank t a = sort_rank t b"
  shows "a = b"
proof (cases "is_string_key t")
  case True
  then have "map (\<lambda>b. - uint b) a = map (\<lambda>b. - uint b) b" using assms(3) by (simp add: sort_rank_def)
  then show ?thesis by (rule map_injective) (auto intro: injI simp: word_uint_eq_iff)
next
  case False
  then have len: "length a = key_bytes t" "length b = key_bytes t" using assms(1,2) by (auto simp: key_ok_def)
  have t: "compar t \<noteq> (None :: (bytes \<Rightarrow> bytes \<Rightarrow> (unit, int) res) option)" using assms(1) by (simp add: key_ok_def)
  show ?thesis
    using assms(3) False len t le_val_inj [of a b] le_val_u32 [of a b]
    by (cases t) (auto simp: sort_rank_def is_string_key_def sint_eq_iff word_uint_eq_iff [symmetric])
qed

section \<open>Sorting\<close>

lemma qsort_insert_sorts:
  assumes "\<And>y. y \<in> set ys \<Longrightarrow> \<exists>c. cmp x y = Ret c \<and> (c > 0 \<longleftrightarrow> f y < (f x :: 'k::linorder))"
  shows "qsort_insert cmp x ys = Ret (insort_key f x ys)"
  using assms
proof (induction ys)
  case (Cons y ys)
  from Cons.prems [of y] obtain c where "cmp x y = Ret c" "c > 0 \<longleftrightarrow> f y < f x" by auto
  then show ?case using Cons by (auto simp: not_less)
qed simp

lemma qsort_sorts:
  assumes "\<And>x y. x \<in> set xs \<Longrightarrow> y \<in> set xs \<Longrightarrow> x \<noteq> y \<Longrightarrow> \<exists>c. cmp x y = Ret c \<and> (c > 0 \<longleftrightarrow> f y < (f x :: 'k::linorder))"
    and "distinct xs"
  shows "qsort_c cmp xs = Ret (sort_key f xs)"
  using assms
proof (induction xs)
  case (Cons x xs)
  then have IH: "qsort_c cmp xs = Ret (sort_key f xs)" by simp
  have "\<exists>c. cmp x y = Ret c \<and> (c > 0 \<longleftrightarrow> f y < f x)" if "y \<in> set (sort_key f xs)" for y
    using that Cons.prems by (intro Cons.prems(1)) auto
  then have "qsort_insert cmp x (sort_key f xs) = Ret (insort_key f x (sort_key f xs))" by (rule qsort_insert_sorts)
  with IH show ?case by simp
qed simp

lemma table_pairs_occupied:
  assumes "length (entries t) = upb_table_size t"
  shows "table_pairs t = map (pair_at t) (occupied_from t 0)"
proof -
  have "List.map_filter (\<lambda>ent. map_option (\<lambda>k. (k, val ent)) (key ent)) es
      = map (\<lambda>j. (the (key (es ! j)), val (es ! j))) (filter (\<lambda>j. key (es ! j) \<noteq> None) [0 ..< length es])"
    for es :: "bytes upb_tabent list"
  proof (induction es rule: rev_induct)
    case (snoc e es)
    have "map (\<lambda>j. (the (key ((es @ [e]) ! j)), val ((es @ [e]) ! j))) (filter (\<lambda>j. key ((es @ [e]) ! j) \<noteq> None) [0 ..< length es])
        = map (\<lambda>j. (the (key (es ! j)), val (es ! j))) (filter (\<lambda>j. key (es ! j) \<noteq> None) [0 ..< length es])"
      by (intro map_cong filter_cong) (auto simp: nth_append)
    with snoc show ?case by (auto simp: List.map_filter_def)
  qed (simp add: List.map_filter_def)
  then show ?thesis using assms by (simp add: table_pairs_def occupied_from_def pair_at_def [abs_def])
qed

lemma pushmap_sorts:
  assumes inv: "table_inv upb_Hash_NoSeed t" and ne: "tab_count t \<noteq> 0" and keys: "\<forall>k \<in> dom (table_map t). key_ok kt k"
  shows "upb_mapsorter_pushmap kt t = Ret (sort_key (\<lambda>p. sort_rank kt (fst p)) (table_pairs t))"
proof -
  have len: "length (entries t) = upb_table_size t" using inv by (simp add: table_inv_def table_shape_def)
  note ps = occupied_pairs [OF inv, folded table_pairs_occupied [OF len]]
  have "length (table_pairs t) = tab_count t" using ps(3) by (simp add: table_pairs_occupied [OF len])
  moreover have ok: "key_ok kt (fst p)" if "p \<in> set (table_pairs t)" for p
    using keys that ps(1) by (metis dom_map_of_conv_image_fst image_eqI)
  moreover obtain p where "p \<in> set (table_pairs t)" using ne calculation(1) by (cases "table_pairs t") auto
  ultimately obtain cmp where cmp: "compar kt = (Some cmp :: (bytes \<Rightarrow> bytes \<Rightarrow> ('a, int) res) option)"
    using ok [of p] by (cases kt) (auto simp: key_ok_def)
  have "distinct (table_pairs t)" using ps(2) by (simp only: distinct_map)
  then have "qsort_c (\<lambda>p q. cmp (fst p) (fst q)) (table_pairs t) = Ret (sort_key (\<lambda>p. sort_rank kt (fst p)) (table_pairs t))"
    using ok compar_rank [OF _ _ cmp] by (intro qsort_sorts) auto
  then show ?thesis using ne len \<open>length (table_pairs t) = tab_count t\<close> cmp by (simp add: upb_mapsorter_pushmap_def)
qed

lemma insort_key_fst: "map fst (insort_key (\<lambda>p. f (fst p)) p qs) = insort_key f (fst p) (map fst qs)"
  by (induction qs) auto

lemma sort_key_fst: "map fst (sort_key (\<lambda>p. f (fst p)) ps) = sort_key f (map fst ps)"
  by (induction ps) (simp_all add: insort_key_fst)

lemma map_entries_cong:
  "list_all2 (\<lambda>p q. fst p = fst q \<and> rd vals (unat (snd p)) = (rd vals' (unat (snd q)) :: ('e, upb_cell) res)) ps qs
     \<Longrightarrow> map_entries ks vals ps = (map_entries ks vals' qs :: ('e, _) res)"
  by (induction rule: list_all2_induct) (auto split: prod.splits)

lemma list_all2_fst_eq:
  assumes "map fst ps = map fst qs"
    and "\<And>k i j. (k, i) \<in> set ps \<Longrightarrow> (k, j) \<in> set qs \<Longrightarrow> R i j"
  shows "list_all2 (\<lambda>p q. fst p = fst q \<and> R (snd p) (snd q)) ps qs"
proof -
  have "length ps = length qs" using assms(1) by (rule map_eq_imp_length_eq)
  then show ?thesis using assms by (induction ps qs rule: list_induct2) (auto simp: prod_eq_iff)
qed

text \<open>Two tables with the same contents are visited in the same order, however their entries are laid out.\<close>

lemma pushmap_deterministic:
  assumes inv: "table_inv upb_Hash_NoSeed t" "table_inv upb_Hash_NoSeed t'"
    and keys: "\<forall>k \<in> dom (table_map t). key_ok kt k"
    and same: "\<And>k. map_option (\<lambda>i. rd vals (unat i) :: ('e, upb_cell) res) (table_map t k)
        = map_option (\<lambda>i. rd vals' (unat i)) (table_map t' k)"
    and ne: "tab_count t \<noteq> 0"
  shows "bindR (upb_mapsorter_pushmap kt t) (map_entries ks vals) = (bindR (upb_mapsorter_pushmap kt t') (map_entries ks vals') :: ('e, _) res)"
proof -
  let ?f = "\<lambda>p :: bytes \<times> u64. sort_rank kt (fst p)"
  have len: "length (entries t) = upb_table_size t" "length (entries t') = upb_table_size t'"
    using inv by (simp_all add: table_inv_def table_shape_def)
  note ps = occupied_pairs [OF inv(1), folded table_pairs_occupied [OF len(1)]]
  note ps' = occupied_pairs [OF inv(2), folded table_pairs_occupied [OF len(2)]]
  have dom: "dom (table_map t) = dom (table_map t')" 
  proof (rule set_eqI)
    fix k show "k \<in> dom (table_map t) \<longleftrightarrow> k \<in> dom (table_map t')"
      using same [of k] by (cases "table_map t k"; cases "table_map t' k") (simp_all add: domIff)
  qed
  then have card: "tab_count t' \<noteq> 0"
    using ne count_card_dom [OF inv(1)] count_card_dom [OF inv(2)] by simp
  let ?l = "sort_key ?f (table_pairs t)" and ?l' = "sort_key ?f (table_pairs t')"
  have sorted: "upb_mapsorter_pushmap kt t = (Ret ?l :: ('e, _) res)" "upb_mapsorter_pushmap kt t' = (Ret ?l' :: ('e, _) res)"
    using pushmap_sorts [OF inv(1) ne keys] pushmap_sorts [OF inv(2) card] keys dom by simp_all
  have fst_set: "set (map fst (table_pairs t)) = dom (table_map t)" "set (map fst (table_pairs t')) = dom (table_map t)"
    by (simp_all only: set_map dom dom_map_of_conv_image_fst [symmetric] ps(1) ps'(1))
  have "mset (map fst (table_pairs t)) = mset (map fst (table_pairs t'))"
    using ps(2) ps'(2) fst_set by (simp only: set_eq_iff_mset_eq_distinct [symmetric])
  moreover have "inj_on (sort_rank kt) (set (map fst (table_pairs t)))"
    using keys fst_set(1) by (auto intro!: inj_onI sort_rank_inj [of kt])
  ultimately have "sort_key (sort_rank kt) (map fst (table_pairs t)) = sort_key (sort_rank kt) (map fst (table_pairs t'))"
    by (intro sort_key_inj_key_eq) simp_all
  then have fsts: "map fst ?l = map fst ?l'" by (simp only: sort_key_fst)
  have "rd vals (unat i) = (rd vals' (unat i') :: ('e, upb_cell) res)" if "(k, i) \<in> set ?l" "(k, i') \<in> set ?l'" for k i i'
  proof -
    have "table_map t k = Some i" "table_map t' k = Some i'"
      using that by (simp_all only: ps(1) [symmetric] ps'(1) [symmetric] set_sort map_of_is_SomeI [OF ps(2)] map_of_is_SomeI [OF ps'(2)])
    with same [of k] show ?thesis by simp
  qed
  then have "list_all2 (\<lambda>p q. fst p = fst q \<and> rd vals (unat (snd p)) = (rd vals' (unat (snd q)) :: ('e, upb_cell) res)) ?l ?l'"
    by (rule list_all2_fst_eq [OF fsts]) simp
  then show ?thesis unfolding sorted by (simp add: map_entries_cong)
qed

end
