(* ===== verification/Wire_Encode.thy ===== *)
theory Wire_Encode
  imports Map_Sorter
begin

unbundle bit_operations_syntax

text \<open>
  The encoder of \<^verbatim>\<open>upb/wire/encode.c\<close>: from a message and its mini table to wire format. The functions
  have the order of the source; the function that encodes a sub-message is their argument, which
  \<open>encode_message\<close> closes by recursion with fuel. Everything is written backwards: last field first, and
  within a field the payload before its length and the length before the tag.
\<close>

section \<open>Definitions\<close>

abbreviation (input) kUpb_WireType_Varint :: u32 where "kUpb_WireType_Varint \<equiv> 0"
abbreviation (input) kUpb_WireType_64Bit :: u32 where "kUpb_WireType_64Bit \<equiv> 1"
abbreviation (input) kUpb_WireType_Delimited :: u32 where "kUpb_WireType_Delimited \<equiv> 2"
abbreviation (input) kUpb_WireType_StartGroup :: u32 where "kUpb_WireType_StartGroup \<equiv> 3"
abbreviation (input) kUpb_WireType_EndGroup :: u32 where "kUpb_WireType_EndGroup \<equiv> 4"
abbreviation (input) kUpb_WireType_32Bit :: u32 where "kUpb_WireType_32Bit \<equiv> 5"

abbreviation (input) kUpb_MsgSet_Item :: nat where "kUpb_MsgSet_Item \<equiv> 1"
abbreviation (input) kUpb_MsgSet_TypeId :: nat where "kUpb_MsgSet_TypeId \<equiv> 2"
abbreviation (input) kUpb_MsgSet_Message :: nat where "kUpb_MsgSet_Message \<equiv> 3"

abbreviation (input) kUpb_EncodeOption_Deterministic :: u32 where "kUpb_EncodeOption_Deterministic \<equiv> 1"
abbreviation (input) kUpb_EncodeOption_SkipUnknown :: u32 where "kUpb_EncodeOption_SkipUnknown \<equiv> 2"
abbreviation (input) kUpb_EncodeOption_CheckRequired :: u32 where "kUpb_EncodeOption_CheckRequired \<equiv> 4"

text \<open>What stays fixed during a call: the allocator, the tables and the options.\<close>

record 'a enc_env =
  env_realloc :: "'a realloc"
  env_tables :: "upb_MiniTable list"
  env_options :: u32

type_synonym 'a msg_encoder =
  "upb_Message \<Rightarrow> upb_MiniTable \<Rightarrow> 'a upb_encstate \<Rightarrow> (upb_EncodeStatus, nat \<times> 'a upb_encstate) res"

definition mini_table_of :: "upb_MiniTable list \<Rightarrow> mt_ref \<Rightarrow> ('e, upb_MiniTable) res" where
  "mini_table_of tables r = (case r of MtEmpty \<Rightarrow> Ret kUpb_MiniTable_Empty | Mt i \<Rightarrow> rd tables i)"

definition upb_Encoder_GetSubMiniTable ::
  "upb_MiniTable list \<Rightarrow> upb_MiniTableSub list \<Rightarrow> upb_MiniTableField \<Rightarrow> ('e, upb_MiniTable) res" where
  "upb_Encoder_GetSubMiniTable tables ss f =
     bindR (rd ss (submsg_index f)) (\<lambda>s. case s of Submsg r \<Rightarrow> mini_table_of tables r | Subenum _ \<Rightarrow> Fault)"

text \<open>\<^verbatim>\<open>e->limit - e->ptr\<close>.\<close>

definition enc_used :: "'a upb_encstate \<Rightarrow> nat" where
  "enc_used e = length (enc_buf e) - enc_ptr e"

text \<open>\<^verbatim>\<open>if (--e->depth == 0) encode_err(e, kUpb_EncodeStatus_MaxDepthExceeded)\<close> and \<^verbatim>\<open>e->depth++\<close>.\<close>

definition encode_descend :: "'a upb_encstate \<Rightarrow> 'a enc_res" where
  "encode_descend e =
     (if enc_depth e - 1 = 0 then Raise kUpb_EncodeStatus_MaxDepthExceeded
      else Ret (e\<lparr>enc_depth := enc_depth e - 1\<rparr>))"

definition encode_ascend :: "'a upb_encstate \<Rightarrow> 'a upb_encstate" where
  "encode_ascend e = e\<lparr>enc_depth := enc_depth e + 1\<rparr>"

text \<open>A loop from the last element of an array to the first.\<close>

fun encode_backwards :: "('x \<Rightarrow> 'a upb_encstate \<Rightarrow> 'a enc_res) \<Rightarrow> 'x list \<Rightarrow> 'a upb_encstate \<Rightarrow> 'a enc_res" where
  "encode_backwards step [] e = Ret e"
| "encode_backwards step (x # xs) e = bindR (encode_backwards step xs e) (step x)"

text \<open>
  The value a varint field type encodes, the third column of the \<^verbatim>\<open>CASE\<close> and \<^verbatim>\<open>VARINT_CASE\<close> tables. A
  \<^verbatim>\<open>bool\<close> that holds neither 0 nor 1 is undefined.
\<close>

definition cell_bool :: "upb_cell \<Rightarrow> ('e, u64) res" where
  "cell_bool c = bindR (cell1 c) (\<lambda>b. if b \<le> 1 then Ret (ucast b) else Fault)"

fun scalar_varint :: "upb_FieldType \<Rightarrow> upb_cell \<Rightarrow> ('e, u64) res" where
  "scalar_varint kUpb_FieldType_Int64 c = cell8 c"
| "scalar_varint kUpb_FieldType_UInt64 c = cell8 c"
| "scalar_varint kUpb_FieldType_UInt32 c = bindR (cell4 c) (\<lambda>w. Ret (ucast w))"
| "scalar_varint kUpb_FieldType_Int32 c = bindR (cell4 c) (\<lambda>w. Ret (scast w))"
| "scalar_varint kUpb_FieldType_Enum c = bindR (cell4 c) (\<lambda>w. Ret (scast w))"
| "scalar_varint kUpb_FieldType_Bool c = cell_bool c"
| "scalar_varint kUpb_FieldType_SInt32 c = bindR (cell4 c) (\<lambda>w. Ret (ucast (encode_zz32 w)))"
| "scalar_varint kUpb_FieldType_SInt64 c = bindR (cell8 c) (\<lambda>w. Ret (encode_zz64 w))"
| "scalar_varint _ c = Fault"

fun cell_null :: "upb_cell \<Rightarrow> bool" where
  "cell_null Zero = True"
| "cell_null _ = False"

subsection \<open>Scalars\<close>

definition encode_TaggedMessagePtr ::
  "'a msg_encoder \<Rightarrow> upb_cell \<Rightarrow> upb_MiniTable \<Rightarrow> 'a upb_encstate \<Rightarrow> (upb_EncodeStatus, nat \<times> 'a upb_encstate) res" where
  "encode_TaggedMessagePtr enc tagged m e =
     (case tagged of
        CellMsg is_empty msg \<Rightarrow> enc msg (if is_empty then kUpb_MiniTable_Empty else m) e
      | _ \<Rightarrow> Fault)"

definition encode_group ::
  "'a enc_env \<Rightarrow> 'a msg_encoder \<Rightarrow> upb_MiniTableField \<Rightarrow> upb_MiniTable \<Rightarrow> upb_cell \<Rightarrow> 'a upb_encstate \<Rightarrow> 'a enc_res" where
  "encode_group C enc f subm tagged e =
     bindR (encode_tag (env_realloc C) (number f) kUpb_WireType_EndGroup e) (\<lambda>e1.
     bindR (encode_TaggedMessagePtr enc tagged subm e1) (\<lambda>(_, e2). Ret e2))"

definition encode_submsg ::
  "'a enc_env \<Rightarrow> 'a msg_encoder \<Rightarrow> upb_MiniTable \<Rightarrow> upb_cell \<Rightarrow> 'a upb_encstate \<Rightarrow> 'a enc_res" where
  "encode_submsg C enc subm tagged e =
     bindR (encode_TaggedMessagePtr enc tagged subm e) (\<lambda>(size, e1). encode_varint (env_realloc C) (of_nat size) e1)"

definition encode_string :: "'a enc_env \<Rightarrow> upb_cell \<Rightarrow> 'a upb_encstate \<Rightarrow> 'a enc_res" where
  "encode_string C c e =
     bindR (cell_str c) (\<lambda>view.
     bindR (encode_bytes (env_realloc C) view e) (\<lambda>e1. encode_varint (env_realloc C) (of_nat (length view)) e1))"

definition encode_scalar ::
  "'a enc_env \<Rightarrow> 'a msg_encoder \<Rightarrow> upb_cell \<Rightarrow> upb_MiniTableSub list \<Rightarrow> upb_MiniTableField \<Rightarrow> 'a upb_encstate \<Rightarrow> 'a enc_res" where
  "encode_scalar C enc c ss f e =
     (let R = env_realloc C; tag = encode_tag R (number f);
          varint = bindR (scalar_varint (descriptortype f) c) (\<lambda>v. bindR (encode_varint R v e) (tag kUpb_WireType_Varint));
          fixed64 = bindR (cell8 c) (\<lambda>v. bindR (encode_fixed64 R v e) (tag kUpb_WireType_64Bit));
          fixed32 = bindR (cell4 c) (\<lambda>v. bindR (encode_fixed32 R v e) (tag kUpb_WireType_32Bit));
          string = bindR (encode_string C c e) (tag kUpb_WireType_Delimited)
      in case descriptortype f of
        kUpb_FieldType_Double \<Rightarrow> fixed64
      | kUpb_FieldType_Float \<Rightarrow> fixed32
      | kUpb_FieldType_Int64 \<Rightarrow> varint
      | kUpb_FieldType_UInt64 \<Rightarrow> varint
      | kUpb_FieldType_UInt32 \<Rightarrow> varint
      | kUpb_FieldType_Int32 \<Rightarrow> varint
      | kUpb_FieldType_Enum \<Rightarrow> varint
      | kUpb_FieldType_SFixed64 \<Rightarrow> fixed64
      | kUpb_FieldType_Fixed64 \<Rightarrow> fixed64
      | kUpb_FieldType_Fixed32 \<Rightarrow> fixed32
      | kUpb_FieldType_SFixed32 \<Rightarrow> fixed32
      | kUpb_FieldType_Bool \<Rightarrow> varint
      | kUpb_FieldType_SInt32 \<Rightarrow> varint
      | kUpb_FieldType_SInt64 \<Rightarrow> varint
      | kUpb_FieldType_String \<Rightarrow> string
      | kUpb_FieldType_Bytes \<Rightarrow> string
      | kUpb_FieldType_Group \<Rightarrow>
          bindR (upb_Encoder_GetSubMiniTable (env_tables C) ss f) (\<lambda>subm.
            if cell_null c then Ret e
            else bindR (encode_descend e) (\<lambda>e1. bindR (encode_group C enc f subm c e1) (\<lambda>e2.
              tag kUpb_WireType_StartGroup (encode_ascend e2))))
      | kUpb_FieldType_Message \<Rightarrow>
          bindR (upb_Encoder_GetSubMiniTable (env_tables C) ss f) (\<lambda>subm.
            if cell_null c then Ret e
            else bindR (encode_descend e) (\<lambda>e1. bindR (encode_submsg C enc subm c e1) (\<lambda>e2.
              tag kUpb_WireType_Delimited (encode_ascend e2)))))"

subsection \<open>Arrays\<close>

definition array_tag :: "bool \<Rightarrow> upb_MiniTableField \<Rightarrow> u32 \<Rightarrow> u32" where
  "array_tag packed f wire_type = (if packed then 0 else push_bit 3 (of_nat (number f)) OR wire_type)"

text \<open>The memory of an array of 4-byte or 8-byte elements.\<close>

definition fixed_elem :: "nat \<Rightarrow> upb_cell \<Rightarrow> ('e, bytes) res" where
  "fixed_elem elem_size c =
     (if elem_size = 4 then bindR (cell4 c) (\<lambda>w. Ret (le_bytes 4 (ucast w)))
      else if elem_size = 8 then bindR (cell8 c) (\<lambda>w. Ret (le_bytes 8 w))
      else Fault)"

fun concat_res :: "('e, 'x list) res list \<Rightarrow> ('e, 'x list) res" where
  "concat_res [] = Ret []"
| "concat_res (r # rs) = bindR (concat_res rs) (\<lambda>ys. bindR r (\<lambda>xs. Ret (xs @ ys)))"

definition encode_fixedarray :: "'a enc_env \<Rightarrow> upb_cell list \<Rightarrow> nat \<Rightarrow> u32 \<Rightarrow> 'a upb_encstate \<Rightarrow> 'a enc_res" where
  "encode_fixedarray C arr elem_size tag e =
     (if tag \<noteq> 0 then
        encode_backwards (\<lambda>c e1. bindR (fixed_elem elem_size c) (\<lambda>val.
          bindR (encode_bytes (env_realloc C) val e1) (encode_varint (env_realloc C) (ucast tag)))) arr e
      else bindR (concat_res (map (fixed_elem elem_size) arr)) (\<lambda>data. encode_bytes (env_realloc C) data e))"

definition encode_varintarray :: "'a enc_env \<Rightarrow> upb_FieldType \<Rightarrow> upb_cell list \<Rightarrow> u32 \<Rightarrow> 'a upb_encstate \<Rightarrow> 'a enc_res" where
  "encode_varintarray C t arr tag e =
     encode_backwards (\<lambda>c e1. bindR (scalar_varint t c) (\<lambda>val.
       bindR (encode_varint (env_realloc C) val e1) (\<lambda>e2.
         if tag \<noteq> 0 then encode_varint (env_realloc C) (ucast tag) e2 else Ret e2))) arr e"

definition encode_packed :: "'a enc_env \<Rightarrow> bool \<Rightarrow> upb_MiniTableField \<Rightarrow> nat \<Rightarrow> 'a upb_encstate \<Rightarrow> 'a enc_res" where
  "encode_packed C packed f pre_len e =
     (if packed then
        bindR (encode_varint (env_realloc C) (of_nat (enc_used e - pre_len)) e)
          (encode_tag (env_realloc C) (number f) kUpb_WireType_Delimited)
      else Ret e)"

definition encode_array ::
  "'a enc_env \<Rightarrow> 'a msg_encoder \<Rightarrow> upb_Message \<Rightarrow> upb_MiniTableSub list \<Rightarrow> upb_MiniTableField \<Rightarrow> 'a upb_encstate \<Rightarrow> 'a enc_res" where
  "encode_array C enc msg ss f e =
     (case msg_cell msg (offset f) of
        Zero \<Rightarrow> Ret e
      | CellArr _ _ arr _ \<Rightarrow>
          if arr = [] then Ret e
          else
            let packed = upb_MiniTableField_IsPacked f; pre_len = enc_used e; R = env_realloc C; t = descriptortype f;
                fixed = (\<lambda>n wt. bindR (encode_fixedarray C arr n (array_tag packed f wt) e) (encode_packed C packed f pre_len));
                varint = bindR (encode_varintarray C t arr (array_tag packed f kUpb_WireType_Varint) e) (encode_packed C packed f pre_len);
                string = encode_backwards (\<lambda>c e1. bindR (encode_string C c e1) (encode_tag R (number f) kUpb_WireType_Delimited)) arr e
            in case t of
                kUpb_FieldType_Double \<Rightarrow> fixed 8 kUpb_WireType_64Bit
              | kUpb_FieldType_Float \<Rightarrow> fixed 4 kUpb_WireType_32Bit
              | kUpb_FieldType_SFixed64 \<Rightarrow> fixed 8 kUpb_WireType_64Bit
              | kUpb_FieldType_Fixed64 \<Rightarrow> fixed 8 kUpb_WireType_64Bit
              | kUpb_FieldType_Fixed32 \<Rightarrow> fixed 4 kUpb_WireType_32Bit
              | kUpb_FieldType_SFixed32 \<Rightarrow> fixed 4 kUpb_WireType_32Bit
              | kUpb_FieldType_Int64 \<Rightarrow> varint
              | kUpb_FieldType_UInt64 \<Rightarrow> varint
              | kUpb_FieldType_UInt32 \<Rightarrow> varint
              | kUpb_FieldType_Int32 \<Rightarrow> varint
              | kUpb_FieldType_Enum \<Rightarrow> varint
              | kUpb_FieldType_Bool \<Rightarrow> varint
              | kUpb_FieldType_SInt32 \<Rightarrow> varint
              | kUpb_FieldType_SInt64 \<Rightarrow> varint
              | kUpb_FieldType_String \<Rightarrow> string
              | kUpb_FieldType_Bytes \<Rightarrow> string
              | kUpb_FieldType_Group \<Rightarrow>
                  bindR (upb_Encoder_GetSubMiniTable (env_tables C) ss f) (\<lambda>subm.
                  bindR (encode_descend e) (\<lambda>e1.
                  bindR (encode_backwards (\<lambda>c e2. bindR (encode_group C enc f subm c e2)
                      (encode_tag R (number f) kUpb_WireType_StartGroup)) arr e1) (\<lambda>e3. Ret (encode_ascend e3))))
              | kUpb_FieldType_Message \<Rightarrow>
                  bindR (upb_Encoder_GetSubMiniTable (env_tables C) ss f) (\<lambda>subm.
                  bindR (encode_descend e) (\<lambda>e1.
                  bindR (encode_backwards (\<lambda>c e2. bindR (encode_submsg C enc subm c e2)
                      (encode_tag R (number f) kUpb_WireType_Delimited)) arr e1) (\<lambda>e3. Ret (encode_ascend e3))))
      | _ \<Rightarrow> Fault)"

subsection \<open>Maps\<close>

definition noerr :: "(unit, 'x) res \<Rightarrow> ('e, 'x) res" where
  "noerr r = (case r of Ret x \<Rightarrow> Ret x | _ \<Rightarrow> Fault)"

definition encode_mapentry ::
  "'a enc_env \<Rightarrow> 'a msg_encoder \<Rightarrow> nat \<Rightarrow> upb_MiniTable \<Rightarrow> upb_cell \<times> upb_cell \<Rightarrow> 'a upb_encstate \<Rightarrow> 'a enc_res" where
  "encode_mapentry C enc n layout ent e =
     bindR (noerr (upb_MiniTable_MapKey layout)) (\<lambda>key_field.
     bindR (noerr (upb_MiniTable_MapValue layout)) (\<lambda>val_field.
       let pre_len = enc_used e in
       bindR (encode_scalar C enc (snd ent) (subs layout) val_field e) (\<lambda>e1.
       bindR (encode_scalar C enc (fst ent) (subs layout) key_field e1) (\<lambda>e2.
         let size = enc_used e2 - pre_len in
         bindR (encode_varint (env_realloc C) (of_nat size) e2)
           (encode_tag (env_realloc C) n kUpb_WireType_Delimited)))))"

text \<open>
  The loops write the entries in the order of the table, or in that of the sorter; the last entry
  written comes first on the wire.
\<close>

definition encode_map ::
  "'a enc_env \<Rightarrow> 'a msg_encoder \<Rightarrow> upb_Message \<Rightarrow> upb_MiniTableSub list \<Rightarrow> upb_MiniTableField \<Rightarrow> 'a upb_encstate \<Rightarrow> 'a enc_res" where
  "encode_map C enc msg ss f e =
     bindR (upb_Encoder_GetSubMiniTable (env_tables C) ss f) (\<lambda>layout.
       if field_count layout \<noteq> 2 then Fault
       else case msg_cell msg (offset f) of
           Zero \<Rightarrow> Ret e
         | CellMap _ ks vs t vals \<Rightarrow>
             if tab_count t = 0 then Ret e
             else bindR (if env_options C AND kUpb_EncodeOption_Deterministic \<noteq> 0
                         then bindR (rd (mt_fields layout) 0) (\<lambda>kf. upb_mapsorter_pushmap (descriptortype kf) t)
                         else Ret (strtable_pairs t (- 1))) (\<lambda>ps.
               bindR (map_entries ks vals ps) (\<lambda>ents.
                 encode_backwards (encode_mapentry C enc (number f) layout) (rev ents) e))
         | _ \<Rightarrow> Fault)"

subsection \<open>Fields\<close>

text \<open>A word of 8 bytes is not zero; pointers are not null.\<close>

fun cell8_nonzero :: "upb_cell \<Rightarrow> ('e, bool) res" where
  "cell8_nonzero Zero = Ret False"
| "cell8_nonzero (Cell8 w) = Ret (w \<noteq> 0)"
| "cell8_nonzero (CellMsg _ _) = Ret True"
| "cell8_nonzero (CellArr _ _ _ _) = Ret True"
| "cell8_nonzero (CellMap _ _ _ _ _) = Ret True"
| "cell8_nonzero _ = Fault"

definition encode_shouldencode :: "upb_Message \<Rightarrow> upb_MiniTableField \<Rightarrow> ('e, bool) res" where
  "encode_shouldencode msg f =
     (if presence f = 0 then
        (let c = msg_cell msg (offset f); rep = upb_MiniTableField_GetRep f in
         if rep = kUpb_FieldRep_1Byte then bindR (cell1 c) (\<lambda>b. Ret (b \<noteq> 0))
         else if rep = kUpb_FieldRep_4Byte then bindR (cell4 c) (\<lambda>w. Ret (w \<noteq> 0))
         else if rep = kUpb_FieldRep_8Byte then cell8_nonzero c
         else bindR (cell_str c) (\<lambda>s. Ret (s \<noteq> [])))
      else if upb_MiniTableField_HasHasbit f then upb_Message_GetHasbit msg f
      else bindR (upb_Message_GetOneofCase msg f) (\<lambda>w. Ret (w = of_nat (number f))))"

definition encode_field ::
  "'a enc_env \<Rightarrow> 'a msg_encoder \<Rightarrow> upb_Message \<Rightarrow> upb_MiniTableSub list \<Rightarrow> upb_MiniTableField \<Rightarrow> 'a upb_encstate \<Rightarrow> 'a enc_res" where
  "encode_field C enc msg ss f e =
     (if upb_MiniTableField_Mode f = kUpb_FieldMode_Array then encode_array C enc msg ss f e
      else if upb_MiniTableField_Mode f = kUpb_FieldMode_Map then encode_map C enc msg ss f e
      else if upb_MiniTableField_Mode f = kUpb_FieldMode_Scalar
      then encode_scalar C enc (msg_cell msg (offset f)) ss f e
      else Fault)"

subsection \<open>Extensions\<close>

definition encode_msgset_item ::
  "'a enc_env \<Rightarrow> 'a msg_encoder \<Rightarrow> upb_MiniTableExtension \<Rightarrow> upb_cell \<Rightarrow> 'a upb_encstate \<Rightarrow> 'a enc_res" where
  "encode_msgset_item C enc x c e =
     (let R = env_realloc C in
      bindR (encode_tag R kUpb_MsgSet_Item kUpb_WireType_EndGroup e) (\<lambda>e1.
      bindR (case ext_sub x of Some (Submsg r) \<Rightarrow> mini_table_of (env_tables C) r | _ \<Rightarrow> Fault) (\<lambda>subm.
      bindR (case c of CellMsg False msg \<Rightarrow> enc msg subm e1 | _ \<Rightarrow> Fault) (\<lambda>(size, e2).
      bindR (encode_varint R (of_nat size) e2) (\<lambda>e3.
      bindR (encode_tag R kUpb_MsgSet_Message kUpb_WireType_Delimited e3) (\<lambda>e4.
      bindR (encode_varint R (of_nat (number (ext_field x))) e4) (\<lambda>e5.
      bindR (encode_tag R kUpb_MsgSet_TypeId kUpb_WireType_Varint e5)
        (encode_tag R kUpb_MsgSet_Item kUpb_WireType_StartGroup))))))))"

text \<open>
  The extension's value is encoded as the only field of a message: \<^verbatim>\<open>&ext_val.ext_msg_val\<close>, where the
  field's offset is 0 and its sub-table the only one.
\<close>

definition ext_msg_val :: "upb_cell \<Rightarrow> upb_Message" where
  "ext_msg_val c = upb_Message False 0 (\<lambda>off. if off = 0 then c else Zero) []"

definition ext_subs :: "upb_MiniTableExtension \<Rightarrow> upb_MiniTableSub list" where
  "ext_subs x = (case ext_sub x of None \<Rightarrow> [] | Some s \<Rightarrow> [s])"

definition encode_ext ::
  "'a enc_env \<Rightarrow> 'a msg_encoder \<Rightarrow> bool \<Rightarrow> upb_MiniTableExtension \<times> upb_cell \<Rightarrow> 'a upb_encstate \<Rightarrow> 'a enc_res" where
  "encode_ext C enc is_message_set xc e =
     (if is_message_set then encode_msgset_item C enc (fst xc) (snd xc) e
      else if offset (ext_field (fst xc)) \<noteq> 0 then Fault
      else encode_field C enc (ext_msg_val (snd xc)) (ext_subs (fst xc)) (ext_field (fst xc)) e)"

text \<open>
  \<^verbatim>\<open>_upb_Message_NextExtensionReverse\<close> on the slots that are still to be visited, the last one first:
  the next extension that is not empty, and the slots after it.
\<close>

fun upb_Message_NextExtensionReverse ::
  "upb_aux list \<Rightarrow> ('e, ((upb_MiniTableExtension \<times> upb_cell) \<times> upb_aux list) option) res" where
  "upb_Message_NextExtensionReverse [] = Ret None"
| "upb_Message_NextExtensionReverse (AuxExt x c # rest) =
     bindR (upb_Extension_IsEmpty (x, c)) (\<lambda>b.
       if b then upb_Message_NextExtensionReverse rest else Ret (Some ((x, c), rest)))"
| "upb_Message_NextExtensionReverse (_ # rest) = upb_Message_NextExtensionReverse rest"

text \<open>The loop \<^verbatim>\<open>do { encode_ext(...) } while (NextExtensionReverse(...))\<close>; a round visits at least one slot.\<close>

fun encode_exts_loop ::
  "nat \<Rightarrow> 'a enc_env \<Rightarrow> 'a msg_encoder \<Rightarrow> bool \<Rightarrow> upb_aux list \<Rightarrow> 'a upb_encstate \<Rightarrow> 'a enc_res" where
  "encode_exts_loop 0 C enc is_set rest e = Fault"
| "encode_exts_loop (Suc n) C enc is_set rest e =
     bindR (upb_Message_NextExtensionReverse rest) (\<lambda>r.
       case r of
         None \<Rightarrow> Ret e
       | Some (xc, rest') \<Rightarrow> bindR (encode_ext C enc is_set xc e) (encode_exts_loop n C enc is_set rest'))"

definition encode_exts ::
  "'a enc_env \<Rightarrow> 'a msg_encoder \<Rightarrow> upb_MiniTable \<Rightarrow> upb_Message \<Rightarrow> 'a upb_encstate \<Rightarrow> 'a enc_res" where
  "encode_exts C enc m msg e =
     (let aux = msg_aux msg; is_set = (ext m = kUpb_ExtMode_IsMessageSet) in
      if ext m = kUpb_ExtMode_NonExtendable then Ret e
      else bindR (upb_Message_NextExtensionReverse (rev aux)) (\<lambda>r.
        if Option.is_none r then Ret e
        else if env_options C AND kUpb_EncodeOption_Deterministic \<noteq> 0
        then bindR (upb_mapsorter_pushexts aux) (\<lambda>xs. encode_backwards (encode_ext C enc is_set) (rev xs) e)
        else encode_exts_loop (Suc (length aux)) C enc is_set (rev aux) e))"

subsection \<open>Messages\<close>

fun copy_unknown :: "nat \<Rightarrow> bytes list \<Rightarrow> bytes \<Rightarrow> bytes" where
  "copy_unknown ptr [] buf = buf"
| "copy_unknown ptr (u # us) buf = copy_unknown (ptr + length u) us (write_at ptr u buf)"

definition encode_unknown :: "'a enc_env \<Rightarrow> upb_Message \<Rightarrow> 'a upb_encstate \<Rightarrow> 'a enc_res" where
  "encode_unknown C msg e =
     (if env_options C AND kUpb_EncodeOption_SkipUnknown = 0 then
        let unknown_size = sum_list (map length (msg_unknown msg)) in
        if unknown_size \<noteq> 0 then
          bindR (encode_reserve (env_realloc C) unknown_size e) (\<lambda>e1.
            if length (enc_buf e1) < enc_ptr e1 + unknown_size then Fault
            else Ret (e1\<lparr>enc_buf := copy_unknown (enc_ptr e1) (msg_unknown msg) (enc_buf e1)\<rparr>))
        else Ret e
      else Ret e)"

definition encode_required :: "u32 \<Rightarrow> upb_Message \<Rightarrow> upb_MiniTable \<Rightarrow> (upb_EncodeStatus, unit) res" where
  "encode_required options msg m =
     (if options AND kUpb_EncodeOption_CheckRequired \<noteq> 0 \<and> required_count m \<noteq> 0 then
        bindR (upb_Message_IsInitializedShallow msg m) (\<lambda>b.
          if b then Ret () else Raise kUpb_EncodeStatus_MissingRequired)
      else Ret ())"

definition encode_fields ::
  "'a enc_env \<Rightarrow> 'a msg_encoder \<Rightarrow> upb_Message \<Rightarrow> upb_MiniTable \<Rightarrow> 'a upb_encstate \<Rightarrow> 'a enc_res" where
  "encode_fields C enc msg m e =
     (if length (mt_fields m) < field_count m then Fault
      else encode_backwards (\<lambda>f e1.
          bindR (encode_shouldencode msg f) (\<lambda>b. if b then encode_field C enc msg (subs m) f e1 else Ret e1))
        (take (field_count m) (mt_fields m)) e)"

fun encode_message :: "'a enc_env \<Rightarrow> nat \<Rightarrow> 'a msg_encoder" where
  "encode_message C 0 msg m e = Fault"
| "encode_message C (Suc fuel) msg m e =
     (let pre_len = enc_used e in
      bindR (encode_required (env_options C) msg m) (\<lambda>_.
      bindR (encode_unknown C msg e) (\<lambda>e1.
      bindR (encode_exts C (encode_message C fuel) m msg e1) (\<lambda>e2.
      bindR (encode_fields C (encode_message C fuel) msg m e2) (\<lambda>e3.
        Ret (enc_used e3 - pre_len, e3))))))"

text \<open>
  The entry points: the status, and the output, which is \<^verbatim>\<open>NULL\<close> after an error. The arena's state after
  the call is not part of the result.
\<close>

definition upb_Encoder_Encode ::
  "'a enc_env \<Rightarrow> nat \<Rightarrow> upb_Message \<Rightarrow> upb_MiniTable \<Rightarrow> bool \<Rightarrow> 'a upb_encstate \<Rightarrow> (unit, upb_EncodeStatus \<times> bytes option) res" where
  "upb_Encoder_Encode C fuel msg l prepend_len e =
     (case bindR (encode_message C fuel msg l e) (\<lambda>(size, e1).
             if prepend_len then encode_varint (env_realloc C) (of_nat size) e1 else Ret e1) of
        Ret e2 \<Rightarrow> Ret (kUpb_EncodeStatus_Ok, Some (take (enc_used e2) (drop (enc_ptr e2) (enc_buf e2))))
      | Raise status \<Rightarrow> Ret (status, None)
      | Fault \<Rightarrow> Fault)"

definition upb_EncodeOptions_GetEffectiveMaxDepth :: "u32 \<Rightarrow> u16" where
  "upb_EncodeOptions_GetEffectiveMaxDepth options =
     (let max_depth = ucast (drop_bit 16 options) in if max_depth \<noteq> 0 then max_depth else 100)"

definition upb_Encode_internal :: "'a enc_env \<Rightarrow> nat \<Rightarrow> upb_Message \<Rightarrow> upb_MiniTable \<Rightarrow> 'a \<Rightarrow> bool \<Rightarrow> (unit, upb_EncodeStatus \<times> bytes option) res" where
  "upb_Encode_internal C fuel msg l arena prepend_len =
     upb_Encoder_Encode C fuel msg l prepend_len
       \<lparr> enc_arena = arena, enc_buf = [], enc_ptr = 0,
         enc_depth = uint (upb_EncodeOptions_GetEffectiveMaxDepth (env_options C)) \<rparr>"

definition upb_Encode :: "'a enc_env \<Rightarrow> nat \<Rightarrow> upb_Message \<Rightarrow> upb_MiniTable \<Rightarrow> 'a \<Rightarrow> (unit, upb_EncodeStatus \<times> bytes option) res" where
  "upb_Encode C fuel msg l arena = upb_Encode_internal C fuel msg l arena False"

definition upb_EncodeLengthPrefixed ::
  "'a enc_env \<Rightarrow> nat \<Rightarrow> upb_Message \<Rightarrow> upb_MiniTable \<Rightarrow> 'a \<Rightarrow> (unit, upb_EncodeStatus \<times> bytes option) res" where
  "upb_EncodeLengthPrefixed C fuel msg l arena = upb_Encode_internal C fuel msg l arena True"

end
