(* ===== verification/Wire_Form.thy ===== *)
theory Wire_Form
  imports Wire_Encode
begin

unbundle bit_operations_syntax

text \<open>
  The wire form of a message as a specification without buffer, depth counter or backward loops,
  written in the order of the output, and the refinement: the encoder of \<^verbatim>\<open>upb/wire/encode.c\<close> produces
  the wire form, fails the way the wire form fails, or runs out of memory.
\<close>

section \<open>The wire form of a message\<close>

text \<open>
  The bytes a message stands for, in the order in which they are on the wire. Where a message has
  several defects, the one the encoder meets first, from the end, decides the error.
\<close>

type_synonym wire_fun = "int \<Rightarrow> upb_Message \<Rightarrow> upb_MiniTable \<Rightarrow> (upb_EncodeStatus, bytes) res"

definition wire_tag :: "nat \<Rightarrow> u32 \<Rightarrow> bytes" where
  "wire_tag n wt = encode_varint64 (ucast (push_bit 3 (of_nat n :: u32) OR wt))"

definition delimited :: "bytes \<Rightarrow> bytes" where
  "delimited bs = encode_varint64 (of_nat (length bs)) @ bs"

datatype wire_kind = KVarint | KFixed32 | KFixed64 | KString | KGroup | KMessage

fun kind_of :: "upb_FieldType \<Rightarrow> wire_kind" where
  "kind_of kUpb_FieldType_Double = KFixed64"
| "kind_of kUpb_FieldType_Fixed64 = KFixed64"
| "kind_of kUpb_FieldType_SFixed64 = KFixed64"
| "kind_of kUpb_FieldType_Float = KFixed32"
| "kind_of kUpb_FieldType_Fixed32 = KFixed32"
| "kind_of kUpb_FieldType_SFixed32 = KFixed32"
| "kind_of kUpb_FieldType_String = KString"
| "kind_of kUpb_FieldType_Bytes = KString"
| "kind_of kUpb_FieldType_Group = KGroup"
| "kind_of kUpb_FieldType_Message = KMessage"
| "kind_of _ = KVarint"

fun kind_wire_type :: "wire_kind \<Rightarrow> u32" where
  "kind_wire_type KVarint = kUpb_WireType_Varint"
| "kind_wire_type KFixed32 = kUpb_WireType_32Bit"
| "kind_wire_type KFixed64 = kUpb_WireType_64Bit"
| "kind_wire_type KGroup = kUpb_WireType_StartGroup"
| "kind_wire_type _ = kUpb_WireType_Delimited"

definition wire_submsg :: "wire_fun \<Rightarrow> int \<Rightarrow> upb_MiniTable \<Rightarrow> upb_cell \<Rightarrow> (upb_EncodeStatus, bytes) res" where
  "wire_submsg w d subm c =
     (case c of CellMsg is_empty msg \<Rightarrow> w d msg (if is_empty then kUpb_MiniTable_Empty else subm) | _ \<Rightarrow> Fault)"

text \<open>The bytes after the tag; the end tag of a group belongs to them.\<close>

definition wire_payload ::
  "wire_fun \<Rightarrow> int \<Rightarrow> upb_MiniTable \<Rightarrow> upb_MiniTableField \<Rightarrow> upb_cell \<Rightarrow> (upb_EncodeStatus, bytes) res" where
  "wire_payload w d subm f c =
     (case kind_of (descriptortype f) of
        KVarint \<Rightarrow> bindR (scalar_varint (descriptortype f) c) (\<lambda>v. Ret (encode_varint64 v))
      | KFixed32 \<Rightarrow> bindR (cell4 c) (\<lambda>v. Ret (le_bytes 4 (ucast v)))
      | KFixed64 \<Rightarrow> bindR (cell8 c) (\<lambda>v. Ret (le_bytes 8 v))
      | KString \<Rightarrow> bindR (cell_str c) (\<lambda>s. Ret (delimited s))
      | KGroup \<Rightarrow> bindR (wire_submsg w d subm c) (\<lambda>bs. Ret (bs @ wire_tag (number f) kUpb_WireType_EndGroup))
      | KMessage \<Rightarrow> bindR (wire_submsg w d subm c) (\<lambda>bs. Ret (delimited bs)))"

definition wire_elem ::
  "wire_fun \<Rightarrow> int \<Rightarrow> upb_MiniTable \<Rightarrow> upb_MiniTableField \<Rightarrow> upb_cell \<Rightarrow> (upb_EncodeStatus, bytes) res" where
  "wire_elem w d subm f c =
     bindR (wire_payload w d subm f c) (\<lambda>bs. Ret (wire_tag (number f) (kind_wire_type (kind_of (descriptortype f))) @ bs))"

text \<open>A sub-message one level down.\<close>

definition nested :: "int \<Rightarrow> (int \<Rightarrow> (upb_EncodeStatus, bytes) res) \<Rightarrow> (upb_EncodeStatus, bytes) res" where
  "nested d s = (if d = 1 then Raise kUpb_EncodeStatus_MaxDepthExceeded else s (d - 1))"

definition is_sub_kind :: "upb_MiniTableField \<Rightarrow> bool" where
  "is_sub_kind f \<longleftrightarrow> kind_of (descriptortype f) = KGroup \<or> kind_of (descriptortype f) = KMessage"

definition wire_scalar ::
  "upb_MiniTable list \<Rightarrow> wire_fun \<Rightarrow> int \<Rightarrow> upb_MiniTableSub list \<Rightarrow> upb_MiniTableField \<Rightarrow> upb_cell \<Rightarrow> (upb_EncodeStatus, bytes) res" where
  "wire_scalar T w d ss f c =
     (if is_sub_kind f then
        bindR (upb_Encoder_GetSubMiniTable T ss f) (\<lambda>subm.
          if cell_null c then Ret [] else nested d (\<lambda>d'. wire_elem w d' subm f c))
      else wire_elem w d kUpb_MiniTable_Empty f c)"

text \<open>
  A repeated field. The elements of an unpacked field each have a tag; the tag of a varint field with
  the number 0, which is not a legal number, is left out.
\<close>

definition wire_array ::
  "upb_MiniTable list \<Rightarrow> wire_fun \<Rightarrow> int \<Rightarrow> upb_MiniTableSub list \<Rightarrow> upb_MiniTableField \<Rightarrow> upb_cell list \<Rightarrow> (upb_EncodeStatus, bytes) res" where
  "wire_array T w d ss f arr =
     (if arr = [] then Ret []
      else if is_sub_kind f then
        bindR (upb_Encoder_GetSubMiniTable T ss f) (\<lambda>subm.
          nested d (\<lambda>d'. concat_res (map (wire_elem w d' subm f) arr)))
      else if kind_of (descriptortype f) = KString then concat_res (map (wire_elem w d kUpb_MiniTable_Empty f) arr)
      else if upb_MiniTableField_IsPacked f then
        bindR (concat_res (map (wire_payload w d kUpb_MiniTable_Empty f) arr)) (\<lambda>bs.
          Ret (wire_tag (number f) kUpb_WireType_Delimited @ delimited bs))
      else if array_tag False f (kind_wire_type (kind_of (descriptortype f))) = 0 then
        concat_res (map (wire_payload w d kUpb_MiniTable_Empty f) arr)
      else concat_res (map (wire_elem w d kUpb_MiniTable_Empty f) arr))"

definition wire_mapentry ::
  "upb_MiniTable list \<Rightarrow> wire_fun \<Rightarrow> int \<Rightarrow> nat \<Rightarrow> upb_MiniTable \<Rightarrow> upb_cell \<times> upb_cell \<Rightarrow> (upb_EncodeStatus, bytes) res" where
  "wire_mapentry T w d n layout ent =
     bindR (noerr (upb_MiniTable_MapKey layout)) (\<lambda>kf.
     bindR (noerr (upb_MiniTable_MapValue layout)) (\<lambda>vf.
     bindR (wire_scalar T w d (subs layout) vf (snd ent)) (\<lambda>v.
     bindR (wire_scalar T w d (subs layout) kf (fst ent)) (\<lambda>k.
       Ret (wire_tag n kUpb_WireType_Delimited @ delimited (k @ v))))))"

text \<open>The entries of a map, in the order opposite to the one in which the table or the sorter gives them.\<close>

definition map_order :: "u32 \<Rightarrow> upb_MiniTable \<Rightarrow> upb_strtable \<Rightarrow> (upb_EncodeStatus, (bytes \<times> u64) list) res" where
  "map_order options layout t =
     (if options AND kUpb_EncodeOption_Deterministic \<noteq> 0
      then bindR (rd (mt_fields layout) 0) (\<lambda>kf. upb_mapsorter_pushmap (descriptortype kf) t)
      else Ret (strtable_pairs t (- 1)))"

definition wire_map ::
  "upb_MiniTable list \<Rightarrow> u32 \<Rightarrow> wire_fun \<Rightarrow> int \<Rightarrow> upb_MiniTableSub list \<Rightarrow> upb_MiniTableField \<Rightarrow> upb_cell \<Rightarrow> (upb_EncodeStatus, bytes) res" where
  "wire_map T options w d ss f c =
     bindR (upb_Encoder_GetSubMiniTable T ss f) (\<lambda>layout.
       if field_count layout \<noteq> 2 then Fault
       else case c of
           Zero \<Rightarrow> Ret []
         | CellMap _ ks vs t vals \<Rightarrow>
             if tab_count t = 0 then Ret []
             else bindR (map_order options layout t) (\<lambda>ps.
               bindR (map_entries ks vals ps) (\<lambda>ents.
                 concat_res (map (wire_mapentry T w d (number f) layout) (rev ents))))
         | _ \<Rightarrow> Fault)"

definition wire_field ::
  "upb_MiniTable list \<Rightarrow> u32 \<Rightarrow> wire_fun \<Rightarrow> int \<Rightarrow> upb_MiniTableSub list \<Rightarrow> upb_MiniTableField \<Rightarrow> upb_cell \<Rightarrow> (upb_EncodeStatus, bytes) res" where
  "wire_field T options w d ss f c =
     (if upb_MiniTableField_Mode f = kUpb_FieldMode_Array then
        (case c of Zero \<Rightarrow> Ret [] | CellArr _ _ arr _ \<Rightarrow> wire_array T w d ss f arr | _ \<Rightarrow> Fault)
      else if upb_MiniTableField_Mode f = kUpb_FieldMode_Map then wire_map T options w d ss f c
      else if upb_MiniTableField_Mode f = kUpb_FieldMode_Scalar then wire_scalar T w d ss f c
      else Fault)"

definition wire_msgset_item ::
  "upb_MiniTable list \<Rightarrow> wire_fun \<Rightarrow> int \<Rightarrow> upb_MiniTableExtension \<Rightarrow> upb_cell \<Rightarrow> (upb_EncodeStatus, bytes) res" where
  "wire_msgset_item T w d x c =
     bindR (case ext_sub x of Some (Submsg r) \<Rightarrow> mini_table_of T r | _ \<Rightarrow> Fault) (\<lambda>subm.
     bindR (case c of CellMsg False msg \<Rightarrow> w d msg subm | _ \<Rightarrow> Fault) (\<lambda>bs.
       Ret (wire_tag kUpb_MsgSet_Item kUpb_WireType_StartGroup
         @ wire_tag kUpb_MsgSet_TypeId kUpb_WireType_Varint @ encode_varint64 (of_nat (number (ext_field x)))
         @ wire_tag kUpb_MsgSet_Message kUpb_WireType_Delimited @ delimited bs
         @ wire_tag kUpb_MsgSet_Item kUpb_WireType_EndGroup)))"

definition wire_ext ::
  "upb_MiniTable list \<Rightarrow> u32 \<Rightarrow> wire_fun \<Rightarrow> int \<Rightarrow> bool \<Rightarrow> upb_MiniTableExtension \<times> upb_cell \<Rightarrow> (upb_EncodeStatus, bytes) res" where
  "wire_ext T options w d is_set xc =
     (if is_set then wire_msgset_item T w d (fst xc) (snd xc)
      else if offset (ext_field (fst xc)) \<noteq> 0 then Fault
      else wire_field T options w d (ext_subs (fst xc)) (ext_field (fst xc)) (snd xc))"

definition wire_exts ::
  "upb_MiniTable list \<Rightarrow> u32 \<Rightarrow> wire_fun \<Rightarrow> int \<Rightarrow> upb_MiniTable \<Rightarrow> upb_aux list \<Rightarrow> (upb_EncodeStatus, bytes) res" where
  "wire_exts T options w d m aux =
     (let item = wire_ext T options w d (ext m = kUpb_ExtMode_IsMessageSet) in
      if ext m = kUpb_ExtMode_NonExtendable then Ret []
      else if options AND kUpb_EncodeOption_Deterministic = 0 then
        concat_res (map (\<lambda>xc. bindR (upb_Extension_IsEmpty xc) (\<lambda>b. if b then Ret [] else item xc)) (aux_exts aux))
      else bindR (upb_Message_NextExtensionReverse (rev aux)) (\<lambda>r.
        if Option.is_none r then Ret []
        else bindR (upb_mapsorter_pushexts aux) (\<lambda>xs. concat_res (map item (rev xs)))))"

definition wire_unknown :: "u32 \<Rightarrow> upb_Message \<Rightarrow> bytes" where
  "wire_unknown options msg =
     (if options AND kUpb_EncodeOption_SkipUnknown = 0 then concat (msg_unknown msg) else [])"

definition wire_fields ::
  "upb_MiniTable list \<Rightarrow> u32 \<Rightarrow> wire_fun \<Rightarrow> int \<Rightarrow> upb_Message \<Rightarrow> upb_MiniTable \<Rightarrow> (upb_EncodeStatus, bytes) res" where
  "wire_fields T options w d msg m =
     (if length (mt_fields m) < field_count m then Fault
      else concat_res (map (\<lambda>f. bindR (encode_shouldencode msg f) (\<lambda>b.
          if b then wire_field T options w d (subs m) f (msg_cell msg (offset f)) else Ret []))
        (take (field_count m) (mt_fields m))))"

fun wire_message :: "upb_MiniTable list \<Rightarrow> u32 \<Rightarrow> nat \<Rightarrow> wire_fun" where
  "wire_message T options 0 d msg m = Fault"
| "wire_message T options (Suc fuel) d msg m =
     bindR (encode_required options msg m) (\<lambda>_.
     bindR (wire_exts T options (wire_message T options fuel) d m (msg_aux msg)) (\<lambda>xs.
     bindR (wire_fields T options (wire_message T options fuel) d msg m) (\<lambda>fs.
       Ret (fs @ xs @ wire_unknown options msg))))"

section \<open>The interface between a message and its sub-messages\<close>

text \<open>A result with the size of what was written.\<close>

definition implements_msg ::
  "(upb_EncodeStatus, nat \<times> 'a upb_encstate) res \<Rightarrow> 'a upb_encstate \<Rightarrow> (upb_EncodeStatus, bytes) res \<Rightarrow> bool" where
  "implements_msg r e s \<longleftrightarrow>
     (case r of
        Ret (n, e') \<Rightarrow> (\<exists>bs. s = Ret bs \<and> n = length bs \<and> enc_ok e' \<and> enc_data e' = bs @ enc_data e \<and> enc_depth e' = enc_depth e)
      | Raise st \<Rightarrow> st = kUpb_EncodeStatus_OutOfMemory \<or> s = Raise st
      | Fault \<Rightarrow> s = Fault)"

text \<open>Rules that follow the structure of an encoder function.\<close>

lemma bindR_assoc: "bindR (bindR x f) g = bindR x (\<lambda>v. bindR (f v) g)"
  by (cases x) simp_all

lemma bindR_Ret [simp]: "bindR x Ret = x"
  by (cases x) simp_all

lemma implements_read:
  "(\<And>v. x = Ret v \<Longrightarrow> implements (k v) e (s v)) \<Longrightarrow> implements (bindR x k) e (bindR x s)"
  by (cases x) (auto simp: implements_def)

lemma implements_then:
  assumes "implements r e s"
    and "\<And>a e'. s = Ret a \<Longrightarrow> enc_ok e' \<Longrightarrow> enc_data e' = a @ enc_data e \<Longrightarrow> enc_depth e' = enc_depth e \<Longrightarrow> implements (k e') e' (s' a)"
  shows "implements (bindR r k) e (bindR s (\<lambda>a. bindR (s' a) (\<lambda>b. Ret (b @ a))))"
proof (cases r)
  case (Ret e')
  with assms(1) obtain a where a: "s = Ret a" "enc_ok e'" "enc_data e' = a @ enc_data e" "enc_depth e' = enc_depth e"
    by (auto simp: implements_def)
  from assms(2) [OF a] show ?thesis using Ret a by (cases "k e'") (auto simp: implements_def)
qed (use assms(1) in \<open>auto simp: implements_def\<close>)

lemma implements_then_Ret:
  assumes "implements r e s"
    and "\<And>a e'. s = Ret a \<Longrightarrow> enc_ok e' \<Longrightarrow> enc_data e' = a @ enc_data e \<Longrightarrow> enc_depth e' = enc_depth e \<Longrightarrow> implements (k e') e' (Ret (g a))"
  shows "implements (bindR r k) e (bindR s (\<lambda>a. Ret (g a @ a)))"
proof -
  have "implements (bindR r k) e (bindR s (\<lambda>a. bindR (Ret (g a)) (\<lambda>b. Ret (b @ a))))"
    by (rule implements_then [OF assms(1)]) (rule assms(2))
  then show ?thesis by simp
qed

lemma implements_skip: "enc_ok e \<Longrightarrow> implements (Ret e) e (Ret [])"
  by (simp add: implements_def)

lemma implements_eq: "implements r e s \<Longrightarrow> s = s' \<Longrightarrow> implements r e s'"
  by simp

lemma implements_backwards:
  assumes "\<And>x e'. x \<in> set xs \<Longrightarrow> enc_ok e' \<Longrightarrow> enc_depth e' = enc_depth e \<Longrightarrow> implements (step x e') e' (s x)"
    and "enc_ok e"
  shows "implements (encode_backwards step xs e) e (concat_res (map s xs))"
  using assms
proof (induction xs)
  case Nil
  then show ?case by (simp add: implements_skip)
next
  case (Cons x xs)
  have IH: "implements (encode_backwards step xs e) e (concat_res (map s xs))" using Cons by simp
  show ?case using implements_then [OF IH, of "step x" "\<lambda>_. s x"] Cons.prems by simp
qed

lemma implements_msg_then:
  assumes "implements_msg r e s"
    and "\<And>bs e'. s = Ret bs \<Longrightarrow> enc_ok e' \<Longrightarrow> enc_data e' = bs @ enc_data e \<Longrightarrow> enc_depth e' = enc_depth e \<Longrightarrow> implements (k (length bs) e') e' (Ret (g bs))"
  shows "implements (bindR r (\<lambda>(n, e'). k n e')) e (bindR s (\<lambda>bs. Ret (g bs @ bs)))"
proof (cases r)
  case (Ret p)
  obtain n e' where p: "p = (n, e')" by (cases p)
  with assms(1) Ret obtain a where a: "s = Ret a" "n = length a" "enc_ok e'" "enc_data e' = a @ enc_data e" "enc_depth e' = enc_depth e"
    by (auto simp: implements_msg_def)
  from assms(2) [OF a(1,3,4,5)] show ?thesis using Ret p a by (cases "k n e'") (auto simp: implements_def)
qed (use assms(1) in \<open>auto simp: implements_def implements_msg_def\<close>)

lemma implements_descend:
  assumes "enc_ok e"
    and "\<And>e1. enc_ok e1 \<Longrightarrow> enc_data e1 = enc_data e \<Longrightarrow> enc_depth e1 = enc_depth e - 1 \<Longrightarrow> implements (body e1) e1 (s (enc_depth e - 1))"
    and "\<And>a e2. enc_ok e2 \<Longrightarrow> enc_depth e2 = enc_depth e \<Longrightarrow> implements (k e2) e2 (Ret (g a))"
  shows "implements (bindR (encode_descend e) (\<lambda>e1. bindR (body e1) (\<lambda>e2. k (encode_ascend e2)))) e
           (nested (enc_depth e) (\<lambda>d. bindR (s d) (\<lambda>a. Ret (g a @ a))))"
proof (cases "enc_depth e = 1")
  case True
  then show ?thesis by (simp add: encode_descend_def implements_def nested_def)
next
  case False
  let ?e1 = "e\<lparr>enc_depth := enc_depth e - 1\<rparr>"
  have e1: "enc_ok ?e1" "enc_data ?e1 = enc_data e" "enc_depth ?e1 = enc_depth e - 1" using assms(1) by (simp_all add: enc_ok_def enc_data_def)
  have "implements (bindR (body ?e1) (\<lambda>e2. k (encode_ascend e2))) e (bindR (s (enc_depth e - 1)) (\<lambda>a. Ret (g a @ a)))"
  proof (cases "body ?e1")
    case (Ret e2)
    then obtain a where a: "s (enc_depth e - 1) = Ret a" "enc_ok e2" "enc_data e2 = a @ enc_data e" "enc_depth e2 = enc_depth e - 1"
      using assms(2) [OF e1] e1 by (auto simp: implements_def)
    let ?e3 = "encode_ascend e2"
    have "enc_ok ?e3" "enc_depth ?e3 = enc_depth e" "enc_data ?e3 = a @ enc_data e"
      using a by (simp_all add: encode_ascend_def enc_ok_def enc_data_def)
    then show ?thesis using assms(3) [of ?e3 a] Ret a(1) by (cases "k ?e3") (auto simp: implements_def)
  qed (use assms(2) [OF e1] in \<open>auto simp: implements_def\<close>)
  with False show ?thesis by (simp add: encode_descend_def nested_def)
qed

lemma enc_used_data: "enc_used e = length (enc_data e)"
  by (simp add: enc_used_def enc_data_def)

text \<open>One step of the loop over the extensions, and the loop as a walk over all of them.\<close>

definition ext_step ::
  "'a enc_env \<Rightarrow> 'a msg_encoder \<Rightarrow> bool \<Rightarrow> upb_MiniTableExtension \<times> upb_cell \<Rightarrow> 'a upb_encstate \<Rightarrow> 'a enc_res" where
  "ext_step C enc is_set xc e =
     bindR (upb_Extension_IsEmpty xc) (\<lambda>b. if b then Ret e else encode_ext C enc is_set xc e)"

lemma encode_backwards_append:
  "encode_backwards step (xs @ ys) e = bindR (encode_backwards step ys e) (encode_backwards step xs)"
proof (induction xs)
  case Nil
  have "encode_backwards step [] = Ret" by (rule ext) simp
  then show ?case by simp
next
  case (Cons x xs)
  have "encode_backwards step (x # xs) = (\<lambda>e. bindR (encode_backwards step xs e) (step x))" by (rule ext) simp
  with Cons show ?case by (simp add: bindR_assoc)
qed

lemma aux_exts_append: "aux_exts (xs @ ys) = aux_exts xs @ aux_exts ys"
  by (induction xs rule: aux_exts.induct) simp_all

lemma encode_exts_loop_walk:
  "length rest < n \<Longrightarrow> encode_exts_loop n C enc is_set rest e
     = encode_backwards (ext_step C enc is_set) (aux_exts (rev rest)) e"
proof (induction rest arbitrary: n e)
  case Nil
  then show ?case by (cases n) simp_all
next
  case (Cons x rest)
  then obtain k where n: "n = Suc k" "length rest < k" by (cases n) auto
  have skip: "encode_exts_loop (Suc k) C enc is_set rest e = encode_backwards (ext_step C enc is_set) (aux_exts (rev rest)) e"
    using Cons.IH [of "Suc k"] n(2) by simp
  have on: "encode_exts_loop k C enc is_set rest = encode_backwards (ext_step C enc is_set) (aux_exts (rev rest))"
    using Cons.IH [OF n(2)] by (intro ext) simp
  show ?case
  proof (cases x)
    case (AuxExt y c)
    then show ?thesis using skip on n(1)
      by (cases "upb_Extension_IsEmpty (y, c) :: (upb_EncodeStatus, bool) res")
        (simp_all add: aux_exts_append encode_backwards_append ext_step_def [of C enc is_set "(y, c)"])
  qed (use skip n(1) in \<open>simp_all add: aux_exts_append\<close>)
qed

lemma encode_exts_plain:
  assumes "env_options C AND 1 = 0" and "ext m \<noteq> kUpb_ExtMode_NonExtendable"
  shows "encode_exts C enc m msg e
    = encode_backwards (ext_step C enc (ext m = kUpb_ExtMode_IsMessageSet)) (aux_exts (msg_aux msg)) e"
proof -
  have "encode_exts C enc m msg e = encode_exts_loop (Suc (length (msg_aux msg))) C enc (ext m = kUpb_ExtMode_IsMessageSet) (rev (msg_aux msg)) e"
    using assms
    by (cases "upb_Message_NextExtensionReverse (rev (msg_aux msg)) :: (upb_EncodeStatus, _) res")
      (auto simp: encode_exts_def Let_def Option.is_none_def)
  then show ?thesis by (simp only: encode_exts_loop_walk length_rev rev_rev_ident lessI)
qed

lemma copy_unknown_spec:
  "p + length (concat us) \<le> length m \<Longrightarrow> copy_unknown p us m = write_at p (concat us) m"
proof (induction us arbitrary: p m)
  case Nil
  then show ?case by (simp add: write_at_def)
next
  case (Cons u us)
  have "copy_unknown p (u # us) m = write_at (p + length u) (concat us) (write_at p u m)"
    using Cons by (simp add: write_at_length)
  also have "\<dots> = write_at p (concat (u # us)) m"
    using Cons.prems by (simp add: write_at_def min_absorb2 ac_simps)
  finally show ?case .
qed

text \<open>
  The contract of a function that encodes messages: it implements the wire form \<open>w\<close> at the current
  depth. Everything but the recursion is proved against this contract.
\<close>

locale sub_encoder =
  fixes C :: "'a enc_env" and enc :: "'a msg_encoder" and w :: wire_fun
  assumes realloc: "realloc_ok (env_realloc C)"
    and sub: "enc_ok e \<Longrightarrow> implements_msg (enc msg m e) e (w (enc_depth e) msg m)"
begin

lemma varint_impl: "enc_ok e \<Longrightarrow> implements (encode_varint (env_realloc C) v e) e (Ret (encode_varint64 v))"
  by (rule encode_varint_implements [OF realloc])

lemma bytes_impl: "enc_ok e \<Longrightarrow> implements (encode_bytes (env_realloc C) bs e) e (Ret bs)"
  by (rule encode_bytes_implements [OF realloc])

lemma tag_impl: "enc_ok e \<Longrightarrow> implements (encode_tag (env_realloc C) n wt e) e (Ret (wire_tag n wt))"
  by (simp add: encode_tag_def wire_tag_def varint_impl)

lemma fixed64_impl: "enc_ok e \<Longrightarrow> implements (encode_fixed64 (env_realloc C) v e) e (Ret (le_bytes 8 v))"
  by (simp add: encode_fixed64_def bytes_impl)

lemma fixed32_impl: "enc_ok e \<Longrightarrow> implements (encode_fixed32 (env_realloc C) v e) e (Ret (le_bytes 4 (ucast v)))"
  by (simp add: encode_fixed32_def bytes_impl)

lemma then_impl:
  "implements r e (Ret a) \<Longrightarrow> (\<And>e'. enc_ok e' \<Longrightarrow> implements (k e') e' (Ret b)) \<Longrightarrow> implements (bindR r k) e (Ret (b @ a))"
  by (rule implements_bind_Ret)

lemma string_impl: "enc_ok e \<Longrightarrow> implements (encode_string C c e) e (bindR (cell_str c) (\<lambda>s. Ret (delimited s)))"
  unfolding encode_string_def delimited_def by (intro implements_read then_impl bytes_impl varint_impl)

lemma tagged_impl:
  "enc_ok e \<Longrightarrow> implements_msg (encode_TaggedMessagePtr enc c m e) e (wire_submsg w (enc_depth e) m c)"
  by (auto simp: encode_TaggedMessagePtr_def wire_submsg_def implements_msg_def [of Fault] intro: sub split: upb_cell.splits)

lemma submsg_impl:
  "enc_ok e \<Longrightarrow> implements (encode_submsg C enc m c e) e (bindR (wire_submsg w (enc_depth e) m c) (\<lambda>bs. Ret (delimited bs)))"
  unfolding encode_submsg_def delimited_def by (intro implements_msg_then tagged_impl varint_impl)

lemma group_impl:
  assumes "enc_ok e"
  shows "implements (encode_group C enc f m c e) e
    (bindR (wire_submsg w (enc_depth e) m c) (\<lambda>bs. Ret (bs @ wire_tag (number f) kUpb_WireType_EndGroup)))"
proof -
  have inner: "implements (bindR (encode_TaggedMessagePtr enc c m e1) (\<lambda>(_, e2). Ret e2)) e1 (wire_submsg w (enc_depth e1) m c)"
    if "enc_ok e1" for e1
    using tagged_impl [OF that, of c m]
    by (cases "encode_TaggedMessagePtr enc c m e1") (auto simp: implements_def implements_msg_def)
  have "implements (encode_group C enc f m c e) e
    (bindR (Ret (wire_tag (number f) kUpb_WireType_EndGroup)) (\<lambda>a. bindR (wire_submsg w (enc_depth e) m c) (\<lambda>b. Ret (b @ a))))"
    unfolding encode_group_def
    by (rule implements_then [OF tag_impl [OF assms]]) (use inner in metis)
  then show ?thesis by simp
qed

lemma scalar_impl:
  assumes "enc_ok e"
  shows "implements (encode_scalar C enc c ss f e) e (wire_scalar (env_tables C) w (enc_depth e) ss f c)"
proof -
  let ?R = "env_realloc C" and ?d = "enc_depth e"
  have varint: "implements (bindR x (\<lambda>v. bindR (encode_varint ?R v e) (encode_tag ?R n 0))) e
      (bindR x (\<lambda>v. Ret (wire_tag n 0 @ encode_varint64 v)))" for x n
    using assms by (intro implements_read then_impl varint_impl tag_impl)
  have fixed64: "implements (bindR x (\<lambda>v. bindR (encode_fixed64 ?R v e) (encode_tag ?R n 1))) e
      (bindR x (\<lambda>v. Ret (wire_tag n 1 @ le_bytes 8 v)))" for x n
    using assms by (intro implements_read then_impl fixed64_impl tag_impl)
  have fixed32: "implements (bindR x (\<lambda>v. bindR (encode_fixed32 ?R v e) (encode_tag ?R n 5))) e
      (bindR x (\<lambda>v. Ret (wire_tag n 5 @ le_bytes 4 (ucast v))))" for x n
    using assms by (intro implements_read then_impl fixed32_impl tag_impl)
  have string: "implements (bindR (encode_string C c e) (encode_tag ?R n 2)) e
      (bindR (bindR (cell_str c) (\<lambda>s. Ret (delimited s))) (\<lambda>bs. Ret (wire_tag n 2 @ bs)))" for n
    using assms by (intro implements_then_Ret string_impl tag_impl)
  have group: "implements (bindR (encode_descend e) (\<lambda>e1. bindR (encode_group C enc f m c e1) (\<lambda>e2. encode_tag ?R n 3 (encode_ascend e2)))) e
      (nested ?d (\<lambda>d. bindR (bindR (wire_submsg w d m c) (\<lambda>bs. Ret (bs @ wire_tag (number f) 4))) (\<lambda>bs. Ret (wire_tag n 3 @ bs))))" for m n
    by (rule implements_descend [OF assms]) (use group_impl in metis, rule tag_impl)
  have submsg: "implements (bindR (encode_descend e) (\<lambda>e1. bindR (encode_submsg C enc m c e1) (\<lambda>e2. encode_tag ?R n 2 (encode_ascend e2)))) e
      (nested ?d (\<lambda>d. bindR (bindR (wire_submsg w d m c) (\<lambda>bs. Ret (delimited bs))) (\<lambda>bs. Ret (wire_tag n 2 @ bs))))" for m n
    by (rule implements_descend [OF assms]) (use submsg_impl in metis, rule tag_impl)
  note defs = encode_scalar_def wire_scalar_def is_sub_kind_def wire_elem_def wire_payload_def Let_def
  show ?thesis
  proof (cases "kind_of (descriptortype f)")
    case KVarint
    then show ?thesis using varint [of "scalar_varint (descriptortype f) c" "number f"]
      by (cases "descriptortype f") (simp_all add: defs bindR_assoc)
  next
    case KFixed32
    then show ?thesis using fixed32 by (cases "descriptortype f") (simp_all add: defs bindR_assoc)
  next
    case KFixed64
    then show ?thesis using fixed64 by (cases "descriptortype f") (simp_all add: defs bindR_assoc)
  next
    case KString
    then show ?thesis using string by (cases "descriptortype f") (simp_all add: defs)
  next
    case KGroup
    then have "descriptortype f = kUpb_FieldType_Group" by (cases "descriptortype f") simp_all
    then show ?thesis using group assms
      by (simp add: defs) (rule implements_read, simp add: implements_skip defs)
  next
    case KMessage
    then have "descriptortype f = kUpb_FieldType_Message" by (cases "descriptortype f") simp_all
    then show ?thesis using submsg assms
      by (simp add: defs) (rule implements_read, simp add: implements_skip defs)
  qed
qed

lemma packed_impl:
  assumes "implements r e s"
  shows "implements (bindR r (encode_packed C packed f (enc_used e))) e
    (if packed then bindR s (\<lambda>bs. Ret (wire_tag (number f) kUpb_WireType_Delimited @ delimited bs)) else s)"
proof (cases packed)
  case True
  have "implements (bindR r (encode_packed C True f (enc_used e))) e
      (bindR s (\<lambda>a. Ret ((wire_tag (number f) 2 @ encode_varint64 (of_nat (length a))) @ a)))"
  proof (rule implements_then_Ret [OF assms])
    fix a and e' :: "'a upb_encstate"
    assume e': "enc_ok e'" "enc_data e' = a @ enc_data e"
    have "enc_used e' - enc_used e = length a" using e'(2) by (simp add: enc_used_data)
    then show "implements (encode_packed C True f (enc_used e) e') e'
        (Ret (wire_tag (number f) 2 @ encode_varint64 (of_nat (length a))))"
      unfolding encode_packed_def by (simp only: if_True) (intro then_impl varint_impl tag_impl e'(1))
  qed
  with True show ?thesis by (simp add: delimited_def)
next
  case False
  have "bindR r (encode_packed C packed f (enc_used e)) = r"
    using False by (cases r) (simp_all add: encode_packed_def)
  with assms False show ?thesis by simp
qed

lemma fixedarray_impl:
  assumes "enc_ok e"
  shows "implements (encode_fixedarray C arr n tag e) e
    (concat_res (map (\<lambda>c. bindR (fixed_elem n c) (\<lambda>v. Ret ((if tag \<noteq> 0 then encode_varint64 (ucast tag) else []) @ v))) arr))"
proof (cases "tag = 0")
  case True
  have "implements (bindR (concat_res (map (fixed_elem n) arr)) (\<lambda>data. encode_bytes (env_realloc C) data e)) e
      (bindR (concat_res (map (fixed_elem n) arr)) Ret)"
    by (intro implements_read bytes_impl assms)
  then show ?thesis using True by (simp add: encode_fixedarray_def)
next
  case False
  then show ?thesis unfolding encode_fixedarray_def
    by (simp only: if_True simp_thms) (intro implements_backwards implements_read then_impl bytes_impl varint_impl assms)
qed

lemma varintarray_impl:
  assumes "enc_ok e"
  shows "implements (encode_varintarray C t arr tag e) e
    (concat_res (map (\<lambda>c. bindR (scalar_varint t c) (\<lambda>v. Ret ((if tag \<noteq> 0 then encode_varint64 (ucast tag) else []) @ encode_varint64 v))) arr))"
proof -
  have "implements (if tag \<noteq> 0 then encode_varint (env_realloc C) (ucast tag) e2 else Ret e2) e2
      (Ret (if tag \<noteq> 0 then encode_varint64 (ucast tag) else []))" if "enc_ok e2" for e2
    using that by (simp add: varint_impl implements_skip)
  then show ?thesis unfolding encode_varintarray_def
    by (intro implements_backwards implements_read then_impl varint_impl assms)
qed

lemma subarray_impl:
  fixes e :: "'a upb_encstate"
  assumes "enc_ok e" and "\<And>c e1. enc_ok e1 \<Longrightarrow> implements (step c e1) e1 (s (enc_depth e1) c)"
  shows "implements (bindR (encode_descend e) (\<lambda>e1. bindR (encode_backwards step arr e1) (\<lambda>e3. Ret (encode_ascend e3)))) e
    (nested (enc_depth e) (\<lambda>d. concat_res (map (s d) arr)))"
proof -
  have "implements (bindR (encode_descend e) (\<lambda>e1. bindR (encode_backwards step arr e1) (\<lambda>e3. Ret (encode_ascend e3)))) e
    (nested (enc_depth e) (\<lambda>d. bindR (concat_res (map (s d) arr)) (\<lambda>a. Ret ([] @ a))))"
  proof (rule implements_descend [OF assms(1)])
    fix e1 :: "'a upb_encstate" assume "enc_ok e1" "enc_depth e1 = enc_depth e - 1"
    then show "implements (encode_backwards step arr e1) e1 (concat_res (map (s (enc_depth e - 1)) arr))"
      using assms(2) by (intro implements_backwards) metis+
  qed (rule implements_skip)
  moreover have "bindR r (\<lambda>a. Ret ([] @ a)) = r" for r :: "(upb_EncodeStatus, bytes) res" by (cases r) simp_all
  ultimately show ?thesis by (simp only:)
qed

lemma payload_elem:
  fixes p :: "upb_cell \<Rightarrow> (upb_EncodeStatus, 'v) res"
  assumes "\<And>c. wire_payload w d m f c = bindR (p c) (\<lambda>v. Ret (q v))"
  shows "wire_payload w d m f = (\<lambda>c. bindR (p c) (\<lambda>v. Ret (q v)))"
    "wire_elem w d m f = (\<lambda>c. bindR (p c) (\<lambda>v. Ret (wire_tag (number f) (kind_wire_type (kind_of (descriptortype f))) @ q v)))"
  by (rule ext, simp add: assms wire_elem_def bindR_assoc)+

lemma array_varint_impl:
  assumes e: "enc_ok e" and arr: "msg_cell msg (offset f) = CellArr frozen lg2 arr spare" "arr \<noteq> []" and k: "kind_of (descriptortype f) = KVarint"
  shows "implements (encode_array C enc msg ss f e) e (wire_array (env_tables C) w (enc_depth e) ss f arr)"
proof -
  let ?t = "descriptortype f" and ?packed = "upb_MiniTableField_IsPacked f"
  let ?s = "concat_res (map (\<lambda>c. bindR (scalar_varint ?t c)
      (\<lambda>v. Ret ((if array_tag ?packed f 0 \<noteq> 0 then encode_varint64 (ucast (array_tag ?packed f 0)) else []) @ encode_varint64 v))) arr)"
  have code: "encode_array C enc msg ss f e =
      bindR (encode_varintarray C ?t arr (array_tag ?packed f 0) e) (encode_packed C ?packed f (enc_used e))"
    using arr k by (cases ?t) (simp_all add: encode_array_def Let_def)
  have run: "implements (bindR (encode_varintarray C ?t arr (array_tag ?packed f 0) e) (encode_packed C ?packed f (enc_used e))) e
      (if ?packed then bindR ?s (\<lambda>bs. Ret (wire_tag (number f) 2 @ delimited bs)) else ?s)"
    by (intro packed_impl varintarray_impl e)
  have p: "wire_payload w d m f c = bindR (scalar_varint ?t c) (\<lambda>v. Ret (encode_varint64 v))" for d m c
    using k by (simp add: wire_payload_def)
  show ?thesis unfolding code using run arr k by (auto simp: wire_array_def is_sub_kind_def payload_elem [OF p] array_tag_def wire_tag_def)
qed

lemma array_fixed_impl:
  fixes n :: nat and wt :: u32
  assumes e: "enc_ok e" and arr: "msg_cell msg (offset f) = CellArr frozen lg2 arr spare" "arr \<noteq> []"
    and k: "kind_of (descriptortype f) = KFixed32 \<and> n = 4 \<and> wt = 5 \<or> kind_of (descriptortype f) = KFixed64 \<and> n = 8 \<and> wt = 1"
  shows "implements (encode_array C enc msg ss f e) e (wire_array (env_tables C) w (enc_depth e) ss f arr)"
proof -
  let ?packed = "upb_MiniTableField_IsPacked f"
  let ?s = "concat_res (map (\<lambda>c. bindR (fixed_elem n c)
      (\<lambda>v. Ret ((if array_tag ?packed f wt \<noteq> 0 then encode_varint64 (ucast (array_tag ?packed f wt)) else []) @ v))) arr)"
  have code: "encode_array C enc msg ss f e =
      bindR (encode_fixedarray C arr n (array_tag ?packed f wt) e) (encode_packed C ?packed f (enc_used e))"
    using arr k by (cases "descriptortype f") (simp_all add: encode_array_def Let_def)
  have run: "implements (bindR (encode_fixedarray C arr n (array_tag ?packed f wt) e) (encode_packed C ?packed f (enc_used e))) e
      (if ?packed then bindR ?s (\<lambda>bs. Ret (wire_tag (number f) 2 @ delimited bs)) else ?s)"
    by (intro packed_impl fixedarray_impl e)
  have tag: "array_tag False f wt \<noteq> 0" using k by (auto simp: array_tag_def or_eq_0_iff)
  have p: "wire_payload w d m f c = bindR (fixed_elem n c) (\<lambda>v. Ret v)" for d m c
    using k by (auto simp: wire_payload_def fixed_elem_def)
  show ?thesis unfolding code using run arr k tag by (auto simp: wire_array_def is_sub_kind_def payload_elem [OF p] array_tag_def wire_tag_def)
qed

lemma array_string_impl:
  assumes e: "enc_ok e" and arr: "msg_cell msg (offset f) = CellArr frozen lg2 arr spare" "arr \<noteq> []" and k: "kind_of (descriptortype f) = KString"
  shows "implements (encode_array C enc msg ss f e) e (wire_array (env_tables C) w (enc_depth e) ss f arr)"
proof -
  have code: "encode_array C enc msg ss f e =
      encode_backwards (\<lambda>c e1. bindR (encode_string C c e1) (encode_tag (env_realloc C) (number f) 2)) arr e"
    using arr k by (cases "descriptortype f") (simp_all add: encode_array_def Let_def)
  have run: "implements (encode_backwards (\<lambda>c e1. bindR (encode_string C c e1) (encode_tag (env_realloc C) (number f) 2)) arr e) e
      (concat_res (map (\<lambda>c. bindR (bindR (cell_str c) (\<lambda>s. Ret (delimited s))) (\<lambda>bs. Ret (wire_tag (number f) 2 @ bs))) arr))"
    by (intro implements_backwards implements_then_Ret string_impl tag_impl e)
  have p: "wire_payload w d m f c = bindR (cell_str c) (\<lambda>s. Ret (delimited s))" for d m c
    using k by (simp add: wire_payload_def)
  show ?thesis unfolding code using run arr k by (simp add: wire_array_def is_sub_kind_def payload_elem [OF p] bindR_assoc)
qed

lemma array_group_impl:
  assumes e: "enc_ok e" and arr: "msg_cell msg (offset f) = CellArr frozen lg2 arr spare" "arr \<noteq> []" and t: "descriptortype f = kUpb_FieldType_Group"
  shows "implements (encode_array C enc msg ss f e) e (wire_array (env_tables C) w (enc_depth e) ss f arr)"
proof -
  have p: "wire_payload w d m f c = bindR (wire_submsg w d m c) (\<lambda>bs. Ret (bs @ wire_tag (number f) 4))" for d m c
    using t by (simp add: wire_payload_def)
  have run: "implements (bindR (encode_descend e) (\<lambda>e1.
        bindR (encode_backwards (\<lambda>c e2. bindR (encode_group C enc f m c e2) (encode_tag (env_realloc C) n 3)) arr e1) (\<lambda>e3. Ret (encode_ascend e3)))) e
      (nested (enc_depth e) (\<lambda>d. concat_res (map (\<lambda>c.
        bindR (bindR (wire_submsg w d m c) (\<lambda>bs. Ret (bs @ wire_tag (number f) 4))) (\<lambda>bs. Ret (wire_tag n 3 @ bs))) arr)))" for m n
    by (intro subarray_impl implements_then_Ret group_impl tag_impl e)
  show ?thesis using run t arr
    by (simp add: encode_array_def Let_def wire_array_def is_sub_kind_def bindR_assoc) (rule implements_read, simp add: payload_elem [OF p])
qed

lemma array_submsg_impl:
  assumes e: "enc_ok e" and arr: "msg_cell msg (offset f) = CellArr frozen lg2 arr spare" "arr \<noteq> []" and t: "descriptortype f = kUpb_FieldType_Message"
  shows "implements (encode_array C enc msg ss f e) e (wire_array (env_tables C) w (enc_depth e) ss f arr)"
proof -
  have p: "wire_payload w d m f c = bindR (wire_submsg w d m c) (\<lambda>bs. Ret (delimited bs))" for d m c
    using t by (simp add: wire_payload_def)
  have run: "implements (bindR (encode_descend e) (\<lambda>e1.
        bindR (encode_backwards (\<lambda>c e2. bindR (encode_submsg C enc m c e2) (encode_tag (env_realloc C) n 2)) arr e1) (\<lambda>e3. Ret (encode_ascend e3)))) e
      (nested (enc_depth e) (\<lambda>d. concat_res (map (\<lambda>c.
        bindR (bindR (wire_submsg w d m c) (\<lambda>bs. Ret (delimited bs))) (\<lambda>bs. Ret (wire_tag n 2 @ bs))) arr)))" for m n
    by (intro subarray_impl implements_then_Ret submsg_impl tag_impl e)
  show ?thesis using run t arr
    by (simp add: encode_array_def Let_def wire_array_def is_sub_kind_def bindR_assoc) (rule implements_read, simp add: payload_elem [OF p])
qed

lemma array_impl:
  assumes "enc_ok e"
  shows "implements (encode_array C enc msg ss f e) e
    (case msg_cell msg (offset f) of Zero \<Rightarrow> Ret []
     | CellArr _ _ arr _ \<Rightarrow> wire_array (env_tables C) w (enc_depth e) ss f arr | _ \<Rightarrow> Fault)"
proof (cases "msg_cell msg (offset f)")
  case (CellArr frozen lg2 arr spare)
  show ?thesis
  proof (cases "arr = []")
    case True
    then show ?thesis using CellArr assms by (simp add: encode_array_def wire_array_def implements_skip)
  next
    case False
    note rules = array_varint_impl [OF assms CellArr False] array_fixed_impl [OF assms CellArr False, of 4 5]
      array_fixed_impl [OF assms CellArr False, of 8 1] array_string_impl [OF assms CellArr False]
      array_group_impl [OF assms CellArr False] array_submsg_impl [OF assms CellArr False]
    show ?thesis unfolding CellArr upb_cell.case by (cases "descriptortype f") (rule rules, simp)+
  qed
qed (use assms in \<open>simp_all add: encode_array_def implements_skip implements_def [of Fault]\<close>)

lemma mapentry_impl:
  assumes "enc_ok e"
  shows "implements (encode_mapentry C enc n layout ent e) e (wire_mapentry (env_tables C) w (enc_depth e) n layout ent)"
proof -
  let ?S = "\<lambda>f c. wire_scalar (env_tables C) w (enc_depth e) (subs layout) f c"
  have "implements (bindR (encode_scalar C enc (snd ent) (subs layout) vf e) (\<lambda>e1.
          bindR (encode_scalar C enc (fst ent) (subs layout) kf e1) (\<lambda>e2.
            bindR (encode_varint (env_realloc C) (of_nat (enc_used e2 - enc_used e)) e2) (encode_tag (env_realloc C) n 2)))) e
      (bindR (?S vf (snd ent)) (\<lambda>v. bindR (bindR (?S kf (fst ent)) (\<lambda>k. Ret ((wire_tag n 2 @ encode_varint64 (of_nat (length (k @ v)))) @ k)))
        (\<lambda>b. Ret (b @ v))))" for kf vf
  proof (rule implements_then [OF scalar_impl [OF assms]])
    fix v and e1 :: "'a upb_encstate"
    assume e1: "enc_ok e1" "enc_data e1 = v @ enc_data e" "enc_depth e1 = enc_depth e"
    show "implements (bindR (encode_scalar C enc (fst ent) (subs layout) kf e1) (\<lambda>e2.
            bindR (encode_varint (env_realloc C) (of_nat (enc_used e2 - enc_used e)) e2) (encode_tag (env_realloc C) n 2))) e1
        (bindR (?S kf (fst ent)) (\<lambda>k. Ret ((wire_tag n 2 @ encode_varint64 (of_nat (length (k @ v)))) @ k)))"
    proof (rule implements_then_Ret)
      show "implements (encode_scalar C enc (fst ent) (subs layout) kf e1) e1 (?S kf (fst ent))"
        using scalar_impl [OF e1(1)] e1(3) by metis
      fix k and e2 :: "'a upb_encstate"
      assume e2: "enc_ok e2" "enc_data e2 = k @ enc_data e1"
      have "enc_used e2 - enc_used e = length (k @ v)" using e1(2) e2(2) by (simp add: enc_used_data)
      then show "implements (bindR (encode_varint (env_realloc C) (of_nat (enc_used e2 - enc_used e)) e2) (encode_tag (env_realloc C) n 2)) e2
          (Ret (wire_tag n 2 @ encode_varint64 (of_nat (length (k @ v)))))"
        by (simp only:) (intro then_impl varint_impl tag_impl e2(1))
    qed
  qed
  then show ?thesis unfolding encode_mapentry_def wire_mapentry_def Let_def
    by (intro implements_read) (simp add: bindR_assoc delimited_def)
qed

lemma map_impl:
  assumes "enc_ok e"
  shows "implements (encode_map C enc msg ss f e) e
    (wire_map (env_tables C) (env_options C) w (enc_depth e) ss f (msg_cell msg (offset f)))"
proof -
  have loop: "implements (bindR (map_order (env_options C) layout t) (\<lambda>ps. bindR (map_entries ks vals ps) (\<lambda>ents.
          encode_backwards (encode_mapentry C enc n layout) (rev ents) e))) e
      (bindR (map_order (env_options C) layout t) (\<lambda>ps. bindR (map_entries ks vals ps) (\<lambda>ents.
          concat_res (map (wire_mapentry (env_tables C) w (enc_depth e) n layout) (rev ents)))))" for layout t ks vals n
    using assms mapentry_impl by (intro implements_read implements_backwards) metis+
  then show ?thesis unfolding encode_map_def wire_map_def
    by (intro implements_read)
      (auto simp: map_order_def implements_skip assms implements_def [of Fault] split: upb_cell.split)
qed

lemma field_impl:
  assumes "enc_ok e"
  shows "implements (encode_field C enc msg ss f e) e
    (wire_field (env_tables C) (env_options C) w (enc_depth e) ss f (msg_cell msg (offset f)))"
  using array_impl [OF assms] map_impl [OF assms] scalar_impl [OF assms]
  by (simp add: encode_field_def wire_field_def implements_def [of Fault])

lemma msgset_impl:
  assumes "enc_ok e"
  shows "implements (encode_msgset_item C enc x c e) e (wire_msgset_item (env_tables C) w (enc_depth e) x c)"
proof -
  let ?R = "env_realloc C"
  let ?g = "\<lambda>bs. wire_tag 1 3 @ wire_tag 2 0 @ encode_varint64 (of_nat (number (ext_field x))) @ wire_tag 3 2 @ encode_varint64 (of_nat (length bs))"
  let ?sub = "\<lambda>m. case c of CellMsg False msg \<Rightarrow> w (enc_depth e) msg m | _ \<Rightarrow> Fault"
  have tail: "implements (bindR (encode_varint ?R (of_nat n) e2) (\<lambda>e3. bindR (encode_tag ?R 3 2 e3) (\<lambda>e4.
        bindR (encode_varint ?R (of_nat (number (ext_field x))) e4) (\<lambda>e5. bindR (encode_tag ?R 2 0 e5) (encode_tag ?R 1 3))))) e2
      (Ret ((((wire_tag 1 3 @ wire_tag 2 0) @ encode_varint64 (of_nat (number (ext_field x)))) @ wire_tag 3 2) @ encode_varint64 (of_nat n)))"
    if "enc_ok e2" for e2 n
    using that by (intro then_impl varint_impl tag_impl)
  have body: "implements (bindR (case c of CellMsg False msg \<Rightarrow> enc msg m e1 | _ \<Rightarrow> Fault) (\<lambda>(size, e2).
        bindR (encode_varint ?R (of_nat size) e2) (\<lambda>e3. bindR (encode_tag ?R 3 2 e3) (\<lambda>e4.
        bindR (encode_varint ?R (of_nat (number (ext_field x))) e4) (\<lambda>e5. bindR (encode_tag ?R 2 0 e5) (encode_tag ?R 1 3)))))) e1
      (bindR (?sub m) (\<lambda>bs. Ret (?g bs @ bs)))"
    if "enc_ok e1" "enc_depth e1 = enc_depth e" for e1 m
  proof (rule implements_msg_then)
    show "implements_msg (case c of CellMsg False msg \<Rightarrow> enc msg m e1 | _ \<Rightarrow> Fault) e1 (?sub m)"
      using sub [OF that(1)] that(2) by (auto simp: implements_msg_def [of Fault] split: upb_cell.split bool.split)
  qed (use tail in simp)
  have "implements (encode_msgset_item C enc x c e) e
      (bindR (Ret (wire_tag 1 4)) (\<lambda>a. bindR (bindR (case ext_sub x of Some (Submsg r) \<Rightarrow> mini_table_of (env_tables C) r | _ \<Rightarrow> Fault)
        (\<lambda>m. bindR (?sub m) (\<lambda>bs. Ret (?g bs @ bs)))) (\<lambda>b. Ret (b @ a))))"
    unfolding encode_msgset_item_def Let_def
    by (rule implements_then [OF tag_impl [OF assms]]) (intro implements_read body)
  then show ?thesis by (simp add: wire_msgset_item_def bindR_assoc delimited_def)
qed

lemma ext_impl:
  assumes "enc_ok e"
  shows "implements (encode_ext C enc is_set xc e) e
    (wire_ext (env_tables C) (env_options C) w (enc_depth e) is_set xc)"
  using msgset_impl [OF assms] field_impl [OF assms, of "ext_msg_val (snd xc)" "ext_subs (fst xc)" "ext_field (fst xc)"]
  by (auto simp: encode_ext_def wire_ext_def implements_def [of Fault] ext_msg_val_def msg_cell_def)

lemma exts_impl:
  assumes "enc_ok e"
  shows "implements (encode_exts C enc m msg e) e
    (wire_exts (env_tables C) (env_options C) w (enc_depth e) m (msg_aux msg))"
proof -
  let ?is_set = "ext m = kUpb_ExtMode_IsMessageSet" and ?det = "env_options C AND 1 \<noteq> 0" and ?aux = "msg_aux msg"
  let ?item = "wire_ext (env_tables C) (env_options C) w (enc_depth e) ?is_set"
  have loop: "implements (encode_backwards (ext_step C enc ?is_set) (aux_exts ?aux) e) e
      (concat_res (map (\<lambda>xc. bindR (upb_Extension_IsEmpty xc) (\<lambda>b. if b then Ret [] else ?item xc)) (aux_exts ?aux)))"
  proof (rule implements_backwards [OF _ assms])
    fix xc and e' :: "'a upb_encstate"
    assume "enc_ok e'" "enc_depth e' = enc_depth e"
    then show "implements (ext_step C enc ?is_set xc e') e' (bindR (upb_Extension_IsEmpty xc) (\<lambda>b. if b then Ret [] else ?item xc))"
      unfolding ext_step_def using ext_impl [of e' ?is_set xc] by (intro implements_read) (auto intro: implements_skip)
  qed
  have sorted: "implements (bindR (upb_mapsorter_pushexts ?aux) (\<lambda>xs. encode_backwards (encode_ext C enc ?is_set) (rev xs) e)) e
      (bindR (upb_mapsorter_pushexts ?aux) (\<lambda>xs. concat_res (map ?item (rev xs))))"
    using assms ext_impl by (intro implements_read implements_backwards) metis+
  consider "ext m = kUpb_ExtMode_NonExtendable" | "ext m \<noteq> kUpb_ExtMode_NonExtendable" ?det
    | "ext m \<noteq> kUpb_ExtMode_NonExtendable" "\<not> ?det" by blast
  then show ?thesis
  proof cases
    case 1
    then show ?thesis using assms by (simp add: encode_exts_def wire_exts_def implements_skip)
  next
    case 2
    then show ?thesis unfolding encode_exts_def wire_exts_def Let_def
      by (simp only: if_False if_True) (rule implements_read, use sorted assms in \<open>simp add: implements_skip\<close>)
  next
    case 3
    then show ?thesis using loop by (simp add: encode_exts_plain wire_exts_def Let_def)
  qed
qed

lemma unknown_impl:
  assumes "enc_ok e"
  shows "implements (encode_unknown C msg e) e (Ret (wire_unknown (env_options C) msg))"
proof -
  let ?us = "msg_unknown msg"
  let ?n = "sum_list (map length ?us)"
  have n: "?n = length (concat ?us)" by (simp add: length_concat)
  show ?thesis
  proof (cases "env_options C AND 2 = 0 \<and> ?n \<noteq> 0")
    case False
    then have "wire_unknown (env_options C) msg = []" "encode_unknown C msg e = Ret e"
      using n by (auto simp: encode_unknown_def wire_unknown_def Let_def)
    then show ?thesis using assms by (simp add: implements_skip)
  next
    case True
    then have code: "encode_unknown C msg e = bindR (encode_reserve (env_realloc C) ?n e) (\<lambda>e1.
        if length (enc_buf e1) < enc_ptr e1 + ?n then Fault
        else Ret (e1\<lparr>enc_buf := copy_unknown (enc_ptr e1) ?us (enc_buf e1)\<rparr>))"
      by (auto simp: encode_unknown_def Let_def)
    consider "encode_reserve (env_realloc C) ?n e = Raise kUpb_EncodeStatus_OutOfMemory"
      | e' where "encode_reserve (env_realloc C) ?n e = Ret e'" "enc_ptr e' + ?n \<le> length (enc_buf e')"
          "drop (enc_ptr e' + ?n) (enc_buf e') = enc_data e" "enc_depth e' = enc_depth e"
      using encode_reserve_spec [OF realloc assms, of ?n] by blast
    then show ?thesis
    proof cases
      case 1
      then show ?thesis by (simp add: code implements_def)
    next
      case 2
      have "enc_ptr e' + length (concat ?us) \<le> length (enc_buf e')" using 2(2) n by simp
      note copied = copy_unknown_spec [OF this] write_at_length [OF this] drop_write_at [OF this]
      have "drop (enc_ptr e' + length (concat ?us)) (enc_buf e') = enc_data e" using 2(3) n by simp
      then show ?thesis unfolding code 2(1) using True 2(2,4) copied
        by (simp add: implements_def enc_ok_def enc_data_def wire_unknown_def)
    qed
  qed
qed

lemma fields_impl:
  assumes "enc_ok e"
  shows "implements (encode_fields C enc msg m e) e (wire_fields (env_tables C) (env_options C) w (enc_depth e) msg m)"
proof (cases "length (mt_fields m) < field_count m")
  case True
  then show ?thesis by (simp add: encode_fields_def wire_fields_def implements_def)
next
  case False
  have "implements (bindR (encode_shouldencode msg f) (\<lambda>b. if b then encode_field C enc msg (subs m) f e' else Ret e')) e'
      (bindR (encode_shouldencode msg f) (\<lambda>b. if b then wire_field (env_tables C) (env_options C) w (enc_depth e) (subs m) f (msg_cell msg (offset f)) else Ret []))"
    if "enc_ok e'" "enc_depth e' = enc_depth e" for e' f
    using that field_impl [OF that(1), of msg "subs m" f] by (intro implements_read) (auto intro: implements_skip)
  with False show ?thesis unfolding encode_fields_def wire_fields_def
    by (simp only: if_False) (intro implements_backwards assms)
qed

end

section \<open>The encoder\<close>

lemma wire_message_impl:
  assumes "realloc_ok (env_realloc C)" and "enc_ok e"
  shows "implements_msg (encode_message C fuel msg m e) e
    (wire_message (env_tables C) (env_options C) fuel (enc_depth e) msg m)"
  using assms(2)
proof (induction fuel arbitrary: msg m e)
  case 0
  then show ?case by (simp add: implements_msg_def)
next
  case (Suc fuel)
  let ?enc = "encode_message C fuel" and ?T = "env_tables C" and ?o = "env_options C"
  let ?w = "wire_message ?T ?o fuel" and ?d = "enc_depth e"
  have S: "sub_encoder C ?enc ?w" using assms(1) Suc.IH by unfold_locales
  let ?body = "bindR (encode_unknown C msg e) (\<lambda>e1. bindR (encode_exts C ?enc m msg e1) (encode_fields C ?enc msg m))"
  have "implements ?body e
      (bindR (Ret (wire_unknown ?o msg)) (\<lambda>u. bindR (bindR (wire_exts ?T ?o ?w ?d m (msg_aux msg))
        (\<lambda>xs. bindR (wire_fields ?T ?o ?w ?d msg m) (\<lambda>fs. Ret (fs @ xs)))) (\<lambda>b. Ret (b @ u))))"
  proof (rule implements_then [OF sub_encoder.unknown_impl [OF S Suc.prems]])
    fix u and e1 :: "'a upb_encstate" assume e1: "enc_ok e1" "enc_depth e1 = ?d"
    show "implements (bindR (encode_exts C ?enc m msg e1) (encode_fields C ?enc msg m)) e1
        (bindR (wire_exts ?T ?o ?w ?d m (msg_aux msg)) (\<lambda>xs. bindR (wire_fields ?T ?o ?w ?d msg m) (\<lambda>fs. Ret (fs @ xs))))"
    proof (rule implements_then)
      show "implements (encode_exts C ?enc m msg e1) e1 (wire_exts ?T ?o ?w ?d m (msg_aux msg))"
        using sub_encoder.exts_impl [OF S e1(1)] e1(2) by metis
      fix e2 :: "'a upb_encstate" assume e2: "enc_ok e2" "enc_depth e2 = enc_depth e1"
      show "implements (encode_fields C ?enc msg m e2) e2 (wire_fields ?T ?o ?w ?d msg m)"
        using sub_encoder.fields_impl [OF S e2(1), of msg m] e1(2) e2(2) by metis
    qed
  qed
  then have body: "implements ?body e (bindR (wire_exts ?T ?o ?w ?d m (msg_aux msg)) (\<lambda>xs.
      bindR (wire_fields ?T ?o ?w ?d msg m) (\<lambda>fs. Ret (fs @ xs @ wire_unknown ?o msg))))"
    by (simp add: bindR_assoc)
  have code: "encode_message C (Suc fuel) msg m e = bindR (encode_required ?o msg m) (\<lambda>_.
      bindR ?body (\<lambda>e3. Ret (enc_used e3 - enc_used e, e3)))"
    by (simp add: Let_def bindR_assoc)
  show ?case
  proof (cases "encode_required ?o msg m")
    case (Ret u)
    with body show ?thesis unfolding code
      by (cases ?body) (auto simp: implements_def implements_msg_def enc_used_data)
  qed (simp_all add: code implements_msg_def)
qed

end
