(* ===== verification/Wire_Typed.thy ===== *)
theory Wire_Typed
  imports Wire_Form
begin

unbundle bit_operations_syntax

text \<open>
  Messages that conform to their mini tables, and the properties of the encoder: on such messages it
  never leaves its memory and ends with the wire form or a status that names a real defect.
\<close>

section \<open>Messages that conform to their tables\<close>

definition ok_res :: "(upb_EncodeStatus, 'v) res \<Rightarrow> ('v \<Rightarrow> bool) \<Rightarrow> bool" where
  "ok_res r Q \<longleftrightarrow> (case r of Ret v \<Rightarrow> Q v | _ \<Rightarrow> False)"

type_synonym msg_pred = "upb_MiniTable \<Rightarrow> upb_Message \<Rightarrow> bool"

text \<open>A cell that holds a value of the field's type; sub-messages satisfy \<open>P\<close>.\<close>

definition elem_typed :: "msg_pred \<Rightarrow> upb_MiniTable \<Rightarrow> upb_MiniTableField \<Rightarrow> upb_cell \<Rightarrow> bool" where
  "elem_typed P subm f c =
     (case kind_of (descriptortype f) of
        KVarint \<Rightarrow> ok_res (scalar_varint (descriptortype f) c) (\<lambda>_. True)
      | KFixed32 \<Rightarrow> ok_res (cell4 c) (\<lambda>_. True)
      | KFixed64 \<Rightarrow> ok_res (cell8 c) (\<lambda>_. True)
      | KString \<Rightarrow> ok_res (cell_str c) (\<lambda>_. True)
      | _ \<Rightarrow> (case c of CellMsg is_empty msg \<Rightarrow> P (if is_empty then kUpb_MiniTable_Empty else subm) msg | _ \<Rightarrow> False))"

definition scalar_typed ::
  "upb_MiniTable list \<Rightarrow> msg_pred \<Rightarrow> upb_MiniTableSub list \<Rightarrow> upb_MiniTableField \<Rightarrow> upb_cell \<Rightarrow> bool" where
  "scalar_typed T P ss f c =
     (if is_sub_kind f then
        ok_res (upb_Encoder_GetSubMiniTable T ss f) (\<lambda>subm. cell_null c \<or> elem_typed P subm f c)
      else elem_typed P kUpb_MiniTable_Empty f c)"

definition array_typed ::
  "upb_MiniTable list \<Rightarrow> msg_pred \<Rightarrow> upb_MiniTableSub list \<Rightarrow> upb_MiniTableField \<Rightarrow> upb_cell list \<Rightarrow> bool" where
  "array_typed T P ss f arr =
     (if is_sub_kind f then
        ok_res (upb_Encoder_GetSubMiniTable T ss f) (\<lambda>subm. list_all (elem_typed P subm f) arr)
      else list_all (elem_typed P kUpb_MiniTable_Empty f) arr)"

definition map_typed ::
  "upb_MiniTable list \<Rightarrow> u32 \<Rightarrow> msg_pred \<Rightarrow> upb_MiniTableSub list \<Rightarrow> upb_MiniTableField \<Rightarrow> upb_cell \<Rightarrow> bool" where
  "map_typed T options P ss f c =
     ok_res (upb_Encoder_GetSubMiniTable T ss f) (\<lambda>layout.
       field_count layout = 2
       \<and> ok_res (noerr (upb_MiniTable_MapKey layout)) (\<lambda>kf. ok_res (noerr (upb_MiniTable_MapValue layout)) (\<lambda>vf.
         case c of
           Zero \<Rightarrow> True
         | CellMap _ ks vs t vals \<Rightarrow> tab_count t = 0 \<or>
             ok_res (map_order options layout t) (\<lambda>ps. ok_res (map_entries ks vals ps) (\<lambda>ents.
               list_all (\<lambda>(k, v). scalar_typed T P (subs layout) kf k \<and> scalar_typed T P (subs layout) vf v) ents))
         | _ \<Rightarrow> False)))"

definition field_typed ::
  "upb_MiniTable list \<Rightarrow> u32 \<Rightarrow> msg_pred \<Rightarrow> upb_MiniTableSub list \<Rightarrow> upb_MiniTableField \<Rightarrow> upb_cell \<Rightarrow> bool" where
  "field_typed T options P ss f c =
     (if upb_MiniTableField_Mode f = kUpb_FieldMode_Array then
        (case c of Zero \<Rightarrow> True | CellArr _ _ arr _ \<Rightarrow> array_typed T P ss f arr | _ \<Rightarrow> False)
      else if upb_MiniTableField_Mode f = kUpb_FieldMode_Map then map_typed T options P ss f c
      else if upb_MiniTableField_Mode f = kUpb_FieldMode_Scalar then scalar_typed T P ss f c
      else False)"

definition ext_typed ::
  "upb_MiniTable list \<Rightarrow> u32 \<Rightarrow> msg_pred \<Rightarrow> bool \<Rightarrow> upb_MiniTableExtension \<times> upb_cell \<Rightarrow> bool" where
  "ext_typed T options P is_set xc =
     (ok_res (upb_Extension_IsEmpty xc) (\<lambda>_. True) \<and>
      (if is_set then
         (case ext_sub (fst xc) of
            Some (Submsg r) \<Rightarrow> ok_res (mini_table_of T r) (\<lambda>subm. case snd xc of CellMsg False msg \<Rightarrow> P subm msg | _ \<Rightarrow> False)
          | _ \<Rightarrow> False)
       else offset (ext_field (fst xc)) = 0 \<and> field_typed T options P (ext_subs (fst xc)) (ext_field (fst xc)) (snd xc)))"

text \<open>
  A message of nesting height at most \<open>n\<close>: the fields that are present hold values of their types, the
  presence bits can be read, and no two extensions have the same number.
\<close>

definition level_typed :: "upb_MiniTable list \<Rightarrow> u32 \<Rightarrow> msg_pred \<Rightarrow> msg_pred" where
  "level_typed T options P m msg \<longleftrightarrow>
     field_count m \<le> length (mt_fields m)
     \<and> (required_count m = 0 \<or> required_count m \<le> 64 \<and> ok_res (upb_Message_IsInitializedShallow msg m) (\<lambda>_. True))
     \<and> list_all (\<lambda>f. ok_res (encode_shouldencode msg f) (\<lambda>b. b \<longrightarrow> field_typed T options P (subs m) f (msg_cell msg (offset f))))
         (take (field_count m) (mt_fields m))
     \<and> (ext m = kUpb_ExtMode_NonExtendable \<or>
          distinct (map (\<lambda>xc. number (ext_field (fst xc))) (aux_exts (msg_aux msg)))
          \<and> list_all (ext_typed T options P (ext m = kUpb_ExtMode_IsMessageSet)) (aux_exts (msg_aux msg)))"

fun msg_typed :: "upb_MiniTable list \<Rightarrow> u32 \<Rightarrow> nat \<Rightarrow> msg_pred" where
  "msg_typed T options 0 m msg = False"
| "msg_typed T options (Suc n) m msg = level_typed T options (msg_typed T options n) m msg"

section \<open>Encoding conforming messages\<close>

text \<open>
  A wire form, or one of the two statuses: the depth limit only where the height \<open>n\<close> exceeds the depth
  left, a missing field only where required fields are checked.
\<close>

definition fine :: "u32 \<Rightarrow> nat \<Rightarrow> int \<Rightarrow> (upb_EncodeStatus, 'v) res \<Rightarrow> bool" where
  "fine options n d r \<longleftrightarrow>
     (case r of
        Ret _ \<Rightarrow> True
      | Raise st \<Rightarrow> st = kUpb_EncodeStatus_MaxDepthExceeded \<and> d < int n
          \<or> st = kUpb_EncodeStatus_MissingRequired \<and> options AND kUpb_EncodeOption_CheckRequired \<noteq> 0
      | Fault \<Rightarrow> False)"

lemma fine_Ret [simp]: "fine options n d (Ret x)"
  by (simp add: fine_def)

lemma fine_bind: "fine options n d r \<Longrightarrow> (\<And>v. r = Ret v \<Longrightarrow> fine options n d (k v)) \<Longrightarrow> fine options n d (bindR r k)"
  by (cases r) (auto simp: fine_def)

lemma fine_ok: "ok_res r Q \<Longrightarrow> (\<And>v. r = Ret v \<Longrightarrow> Q v \<Longrightarrow> fine options n d (k v)) \<Longrightarrow> fine options n d (bindR r k)"
  by (cases r) (auto simp: ok_res_def)

lemma fine_concat:
  "(\<And>x. x \<in> set xs \<Longrightarrow> fine options n d (s x)) \<Longrightarrow> fine options n d (concat_res (map s xs))"
  by (induction xs) (simp_all add: fine_bind)

lemma fine_nested:
  assumes "0 < n" and "fine options n (d - 1) (s (d - 1))"
  shows "fine options (Suc n) d (nested d s)"
  using assms unfolding nested_def fine_def by (auto split: res.splits)

lemma aux_exts_rev: "aux_exts (rev aux) = rev (aux_exts aux)"
  by (induction aux rule: aux_exts.induct) (simp_all add: aux_exts_append)

text \<open>
  The contract of the wire form of sub-messages: \<open>P\<close> holds of messages of height \<open>n\<close>, whose wire form is
  fine at every depth.
\<close>

locale sub_wire =
  fixes T :: "upb_MiniTable list" and options :: u32 and n :: nat and P :: msg_pred and w :: wire_fun
  assumes sub_fine: "P m msg \<Longrightarrow> fine options n d (w d msg m)"
    and sub_pos: "P m msg \<Longrightarrow> 0 < n"
begin

lemma elem_pos: "elem_typed P subm f c \<Longrightarrow> is_sub_kind f \<Longrightarrow> 0 < n"
  by (auto simp: elem_typed_def is_sub_kind_def intro: sub_pos split: upb_cell.splits)

lemma payload_fine: "elem_typed P subm f c \<Longrightarrow> is_sub_kind f \<Longrightarrow> fine options n d (wire_payload w d subm f c)"
  by (auto simp: elem_typed_def wire_payload_def wire_submsg_def is_sub_kind_def intro!: fine_bind sub_fine
      split: wire_kind.splits upb_cell.splits)

lemma elem_fine: "elem_typed P subm f c \<Longrightarrow> is_sub_kind f \<Longrightarrow> fine options n d (wire_elem w d subm f c)"
  by (simp add: wire_elem_def fine_bind payload_fine)

lemma plain_payload: "elem_typed P subm f c \<Longrightarrow> \<not> is_sub_kind f \<Longrightarrow> fine options k d (wire_payload w d' subm f c)"
  by (auto simp: elem_typed_def wire_payload_def is_sub_kind_def intro: fine_ok split: wire_kind.splits)

lemma plain_elem: "elem_typed P subm f c \<Longrightarrow> \<not> is_sub_kind f \<Longrightarrow> fine options k d (wire_elem w d' subm f c)"
  by (simp add: wire_elem_def fine_bind plain_payload)

lemma scalar_fine: "scalar_typed T P ss f c \<Longrightarrow> fine options (Suc n) d (wire_scalar T w d ss f c)"
proof (cases "is_sub_kind f")
  case True
  assume "scalar_typed T P ss f c"
  with True have "ok_res (upb_Encoder_GetSubMiniTable T ss f) (\<lambda>subm. cell_null c \<or> elem_typed P subm f c)"
    by (simp add: scalar_typed_def)
  then have "fine options (Suc n) d (bindR (upb_Encoder_GetSubMiniTable T ss f) (\<lambda>subm.
      if cell_null c then Ret [] else nested d (\<lambda>d'. wire_elem w d' subm f c)))"
    by (rule fine_ok) (use True in \<open>auto intro: fine_nested elem_fine elem_pos\<close>)
  with True show ?thesis by (simp add: wire_scalar_def)
qed (simp add: scalar_typed_def wire_scalar_def plain_elem)

lemma array_fine: "array_typed T P ss f arr \<Longrightarrow> fine options (Suc n) d (wire_array T w d ss f arr)"
proof (cases "is_sub_kind f")
  case True
  assume "array_typed T P ss f arr"
  with True have "ok_res (upb_Encoder_GetSubMiniTable T ss f) (\<lambda>subm. list_all (elem_typed P subm f) arr)"
    by (simp add: array_typed_def)
  then have "fine options (Suc n) d (bindR (upb_Encoder_GetSubMiniTable T ss f) (\<lambda>subm.
      nested d (\<lambda>d'. concat_res (map (wire_elem w d' subm f) arr))))" if "arr \<noteq> []"
  proof (rule fine_ok)
    fix subm assume typed: "list_all (elem_typed P subm f) arr"
    with that True have "0 < n" by (cases arr) (auto intro: elem_pos)
    moreover have "fine options n (d - 1) (concat_res (map (wire_elem w (d - 1) subm f) arr))"
      using typed True by (intro fine_concat elem_fine) (auto simp: list_all_iff)
    ultimately show "fine options (Suc n) d (nested d (\<lambda>d'. concat_res (map (wire_elem w d' subm f) arr)))"
      by (rule fine_nested)
  qed
  with True show ?thesis by (simp add: wire_array_def)
next
  case False
  assume "array_typed T P ss f arr"
  with False have "list_all (elem_typed P kUpb_MiniTable_Empty f) arr" by (simp add: array_typed_def)
  then have "fine options (Suc n) d (concat_res (map (wire_elem w d kUpb_MiniTable_Empty f) arr))"
    "fine options (Suc n) d (concat_res (map (wire_payload w d kUpb_MiniTable_Empty f) arr))"
    using False by (auto intro!: fine_concat plain_elem plain_payload simp: list_all_iff)
  with False show ?thesis by (simp add: wire_array_def fine_bind)
qed

lemma mapentry_fine:
  assumes "noerr (upb_MiniTable_MapKey layout) = (Ret kf :: (upb_EncodeStatus, _) res)"
    and "noerr (upb_MiniTable_MapValue layout) = (Ret vf :: (upb_EncodeStatus, _) res)"
    and "scalar_typed T P (subs layout) kf (fst ent)" and "scalar_typed T P (subs layout) vf (snd ent)"
  shows "fine options (Suc n) d (wire_mapentry T w d k layout ent)"
  using assms by (simp add: wire_mapentry_def fine_bind scalar_fine)

lemma ok_resD: "ok_res r Q \<Longrightarrow> \<exists>v. r = Ret v \<and> Q v"
  by (cases r) (auto simp: ok_res_def)

lemma map_fine:
  assumes "map_typed T options P ss f c"
  shows "fine options (Suc n) d (wire_map T options w d ss f c)"
proof -
  obtain layout where l: "upb_Encoder_GetSubMiniTable T ss f = (Ret layout :: (upb_EncodeStatus, _) res)" "field_count layout = 2"
    and rest: "ok_res (noerr (upb_MiniTable_MapKey layout)) (\<lambda>kf. ok_res (noerr (upb_MiniTable_MapValue layout)) (\<lambda>vf.
         case c of
           Zero \<Rightarrow> True
         | CellMap _ ks vs t vals \<Rightarrow> tab_count t = 0 \<or>
             ok_res (map_order options layout t) (\<lambda>ps. ok_res (map_entries ks vals ps) (\<lambda>ents.
               list_all (\<lambda>(k, v). scalar_typed T P (subs layout) kf k \<and> scalar_typed T P (subs layout) vf v) ents))
         | _ \<Rightarrow> False))"
    using assms unfolding map_typed_def by (blast dest: ok_resD)
  obtain kf vf where kv: "noerr (upb_MiniTable_MapKey layout) = (Ret kf :: (upb_EncodeStatus, _) res)"
      "noerr (upb_MiniTable_MapValue layout) = (Ret vf :: (upb_EncodeStatus, _) res)"
    and c: "case c of
           Zero \<Rightarrow> True
         | CellMap _ ks vs t vals \<Rightarrow> tab_count t = 0 \<or>
             ok_res (map_order options layout t) (\<lambda>ps. ok_res (map_entries ks vals ps) (\<lambda>ents.
               list_all (\<lambda>(k, v). scalar_typed T P (subs layout) kf k \<and> scalar_typed T P (subs layout) vf v) ents))
         | _ \<Rightarrow> False"
    using rest by (blast dest: ok_resD)
  show ?thesis
  proof (cases c)
    case (CellMap frozen ks vs t vals)
    have "fine options (Suc n) d (bindR (map_order options layout t) (\<lambda>ps. bindR (map_entries ks vals ps) (\<lambda>ents.
        concat_res (map (wire_mapentry T w d (number f) layout) (rev ents)))))" if ne: "tab_count t \<noteq> 0"
    proof -
      have ok: "ok_res (map_order options layout t) (\<lambda>ps. ok_res (map_entries ks vals ps) (\<lambda>ents.
          list_all (\<lambda>(k, v). scalar_typed T P (subs layout) kf k \<and> scalar_typed T P (subs layout) vf v) ents))"
        using c CellMap ne by simp
      show ?thesis
        by (rule fine_ok [OF ok], erule fine_ok)
          (intro fine_concat mapentry_fine [OF kv]; auto simp: list_all_iff split: prod.splits)
    qed
    then show ?thesis using l CellMap by (simp add: wire_map_def)
  qed (use c l in \<open>simp_all add: wire_map_def\<close>)
qed

lemma field_fine: "field_typed T options P ss f c \<Longrightarrow> fine options (Suc n) d (wire_field T options w d ss f c)"
  by (auto simp: field_typed_def wire_field_def intro: array_fine map_fine scalar_fine split: upb_cell.splits if_splits)

lemma msgset_fine:
  assumes "ext_typed T options P True xc"
  shows "fine options (Suc n) d (wire_msgset_item T w d (fst xc) (snd xc))"
proof -
  obtain r subm msg where x: "ext_sub (fst xc) = Some (Submsg r)" "mini_table_of T r = (Ret subm :: (upb_EncodeStatus, _) res)"
    "snd xc = CellMsg False msg" "P subm msg"
    using assms
    by (cases "snd xc") (auto simp: ext_typed_def dest!: ok_resD split: option.split_asm upb_MiniTableSub.split_asm bool.split_asm)
  have "fine options (Suc n) d (w d msg subm)"
    using sub_fine [OF x(4), of d] by (auto simp: fine_def split: res.splits)
  with x show ?thesis by (simp add: wire_msgset_item_def fine_bind)
qed

lemma ext_fine: "ext_typed T options P is_set xc \<Longrightarrow> fine options (Suc n) d (wire_ext T options w d is_set xc)"
  by (cases is_set) (simp_all add: wire_ext_def msgset_fine, simp add: ext_typed_def field_fine)

lemma next_ext_ok:
  "list_all (ext_typed T options P is_set) (aux_exts aux) \<Longrightarrow> ok_res (upb_Message_NextExtensionReverse aux) (\<lambda>_. True)"
proof (induction aux rule: upb_Message_NextExtensionReverse.induct [where 'e = upb_EncodeStatus])
  case (2 x c rest)
  then have "ok_res (upb_Extension_IsEmpty (x, c)) (\<lambda>_. True)" by (simp add: ext_typed_def)
  then obtain b where b: "upb_Extension_IsEmpty (x, c) = (Ret b :: (upb_EncodeStatus, _) res)" by (auto dest: ok_resD)
  with 2 show ?case by (cases b) (simp_all add: ok_res_def)
qed (simp_all add: ok_res_def)

lemma exts_fine:
  assumes "level_typed T options P m msg"
  shows "fine options (Suc n) d (wire_exts T options w d m (msg_aux msg))"
proof (cases "ext m = kUpb_ExtMode_NonExtendable")
  case True
  then show ?thesis by (simp add: wire_exts_def)
next
  case False
  let ?is_set = "ext m = kUpb_ExtMode_IsMessageSet" and ?xs = "aux_exts (msg_aux msg)"
  have typed: "list_all (ext_typed T options P ?is_set) ?xs" and dist: "distinct (map (\<lambda>xc. number (ext_field (fst xc))) ?xs)"
    using assms False by (auto simp: level_typed_def)
  have item: "fine options (Suc n) d (wire_ext T options w d ?is_set xc)" if "xc \<in> set ?xs" for xc
    using typed that by (intro ext_fine) (auto simp: list_all_iff)
  show ?thesis
  proof (cases "options AND 1 = 0")
    case True
    have "fine options (Suc n) d (bindR (upb_Extension_IsEmpty xc) (\<lambda>b. if b then Ret [] else wire_ext T options w d ?is_set xc))"
      if "xc \<in> set ?xs" for xc
      using typed that item [OF that] by (intro fine_ok [where Q = "\<lambda>_. True"]) (auto simp: list_all_iff ext_typed_def)
    with True False show ?thesis by (simp add: wire_exts_def Let_def fine_concat)
  next
    case det: False
    have "distinct ?xs" using dist by (simp only: distinct_map)
    have "qsort_c upb_mapsorter_cmpext ?xs = (Ret (sort_key (\<lambda>xc. number (ext_field (fst xc))) ?xs) :: (upb_EncodeStatus, _) res)"
    proof (rule qsort_sorts [OF _ \<open>distinct ?xs\<close>])
      fix a b assume ab: "a \<in> set ?xs" "b \<in> set ?xs" "a \<noteq> b"
      have "number (ext_field (fst a)) \<noteq> number (ext_field (fst b))"
        using dist ab by (auto simp: distinct_map inj_on_def)
      then show "\<exists>c. upb_mapsorter_cmpext a b = Ret c \<and> (c > 0 \<longleftrightarrow> number (ext_field (fst b)) < number (ext_field (fst a)))"
        by (auto simp: upb_mapsorter_cmpext_def Let_def)
    qed
    then have "fine options (Suc n) d (bindR (upb_mapsorter_pushexts (msg_aux msg)) (\<lambda>xs. concat_res (map (wire_ext T options w d ?is_set) (rev xs))))"
      using item by (auto simp: upb_mapsorter_pushexts_def intro!: fine_concat)
    moreover have "ok_res (upb_Message_NextExtensionReverse (rev (msg_aux msg))) (\<lambda>_. True)"
      using typed by (intro next_ext_ok [of ?is_set]) (auto simp: list_all_iff aux_exts_rev)
    ultimately show ?thesis using det False
      by (auto simp: wire_exts_def Let_def intro!: fine_ok [where Q = "\<lambda>_. True"])
  qed
qed

lemma level_fine:
  assumes "level_typed T options P m msg" and "n \<le> fuel"
  shows "fine options (Suc n) d (bindR (encode_required options msg m) (\<lambda>_.
     bindR (wire_exts T options w d m (msg_aux msg)) (\<lambda>xs.
     bindR (wire_fields T options w d msg m) (\<lambda>fs. Ret (fs @ xs @ wire_unknown options msg)))))"
proof (intro fine_bind exts_fine [OF assms(1)] fine_Ret)
  show "fine options (Suc n) d (encode_required options msg m)"
    using assms(1) by (auto simp: encode_required_def level_typed_def fine_def dest!: ok_resD)
  have "fine options (Suc n) d (bindR (encode_shouldencode msg f) (\<lambda>b.
      if b then wire_field T options w d (subs m) f (msg_cell msg (offset f)) else Ret []))"
    if "f \<in> set (take (field_count m) (mt_fields m))" for f
  proof (rule fine_ok)
    show "ok_res (encode_shouldencode msg f) (\<lambda>b. b \<longrightarrow> field_typed T options P (subs m) f (msg_cell msg (offset f)))"
      using assms(1) that unfolding level_typed_def list_all_iff by blast
  qed (simp add: field_fine)
  then show "fine options (Suc n) d (wire_fields T options w d msg m)"
    using assms(1) by (auto simp: wire_fields_def level_typed_def intro!: fine_concat)
qed

end

lemma wire_message_fine:
  "msg_typed T options n m msg \<Longrightarrow> n \<le> fuel \<Longrightarrow> fine options n d (wire_message T options fuel d msg m)"
proof (induction n arbitrary: m msg d fuel)
  case (Suc n)
  then obtain k where k: "fuel = Suc k" "n \<le> k" by (cases fuel) auto
  have "sub_wire options n (msg_typed T options n) (wire_message T options k)"
    using Suc.IH [OF _ k(2)] by unfold_locales (auto elim: msg_typed.elims)
  from sub_wire.level_fine [OF this _ k(2)] Suc.prems(1) k(1) show ?case by simp
qed simp

interpretation typed: sub_wire T options n "msg_typed T options n" "wire_message T options n" for T options n
  by unfold_locales (auto intro: wire_message_fine elim: msg_typed.elims)

text \<open>The arena as a source of zeroed memory that does not run out.\<close>

definition zero_realloc :: "nat realloc" where
  "zero_realloc a m n = Some (a + (n - m), replicate (n - m) 0)"

lemma zero_realloc_ok: "realloc_ok zero_realloc"
  by (simp add: realloc_ok_def zero_realloc_def)

interpretation zeroed: sub_encoder "\<lparr>env_realloc = zero_realloc, env_tables = T, env_options = options\<rparr>"
    "encode_message \<lparr>env_realloc = zero_realloc, env_tables = T, env_options = options\<rparr> fuel"
    "wire_message T options fuel" for T options fuel
  using wire_message_impl [of "\<lparr>env_realloc = zero_realloc, env_tables = T, env_options = options\<rparr>"] zero_realloc_ok
  by unfold_locales auto

section \<open>Properties\<close>

text \<open>The results that refine a wire form \<open>s\<close>, of which \<open>g\<close> is written.\<close>

definition encode_results ::
  "(bytes \<Rightarrow> bytes) \<Rightarrow> (upb_EncodeStatus, bytes) res \<Rightarrow> (unit, upb_EncodeStatus \<times> bytes option) res set" where
  "encode_results g s =
     insert (Ret (kUpb_EncodeStatus_OutOfMemory, None))
       (case s of
          Ret bs \<Rightarrow> {Ret (kUpb_EncodeStatus_Ok, Some (g bs))}
        | Raise st \<Rightarrow> {Ret (st, None)}
        | Fault \<Rightarrow> {Fault})"

abbreviation max_depth :: "u32 \<Rightarrow> int" where
  "max_depth options \<equiv> uint (upb_EncodeOptions_GetEffectiveMaxDepth options)"

lemma upb_Encode_internal_refines:
  assumes "realloc_ok (env_realloc C)"
  shows "upb_Encode_internal C fuel msg m a prepend_len
    \<in> encode_results (if prepend_len then delimited else id)
        (wire_message (env_tables C) (env_options C) fuel (max_depth (env_options C)) msg m)"
proof -
  let ?e = "\<lparr> enc_arena = a, enc_buf = [], enc_ptr = 0, enc_depth = max_depth (env_options C) \<rparr>"
  let ?s = "wire_message (env_tables C) (env_options C) fuel (max_depth (env_options C)) msg m"
  have e: "enc_ok ?e" "enc_data ?e = []" by (simp_all add: enc_ok_def enc_data_def)
  have msg: "implements_msg (encode_message C fuel msg m ?e) ?e ?s" using wire_message_impl [OF assms e(1)] by simp
  let ?k = "\<lambda>n e1. if prepend_len then encode_varint (env_realloc C) (of_nat n) e1 else Ret e1"
  let ?g = "\<lambda>bs. if prepend_len then encode_varint64 (of_nat (length bs)) else []"
  have "implements (bindR (encode_message C fuel msg m ?e) (\<lambda>(n, e1). ?k n e1)) ?e (bindR ?s (\<lambda>bs. Ret (?g bs @ bs)))"
    by (rule implements_msg_then [OF msg]) (simp add: encode_varint_implements [OF assms] implements_skip)
  moreover have "take (enc_used e2) (drop (enc_ptr e2) (enc_buf e2)) = enc_data e2" for e2 :: "'a upb_encstate"
    by (simp add: enc_used_def enc_data_def)
  ultimately show ?thesis using e(2)
    unfolding upb_Encode_internal_def upb_Encoder_Encode_def encode_results_def
    by (cases "bindR (encode_message C fuel msg m ?e) (\<lambda>(n, e1). ?k n e1)"; cases ?s)
      (auto simp: implements_def delimited_def)
qed

lemma encode_typed:
  assumes "realloc_ok (env_realloc C)" and "msg_typed (env_tables C) (env_options C) n m msg" and "n \<le> fuel"
  shows "\<exists>st out. upb_Encode C fuel msg m a = Ret (st, out)
    \<and> (case st of
         kUpb_EncodeStatus_Ok \<Rightarrow> \<exists>bs. out = Some bs
           \<and> wire_message (env_tables C) (env_options C) fuel (max_depth (env_options C)) msg m = Ret bs
       | kUpb_EncodeStatus_OutOfMemory \<Rightarrow> out = None
       | kUpb_EncodeStatus_MaxDepthExceeded \<Rightarrow> out = None \<and> max_depth (env_options C) < int n
       | kUpb_EncodeStatus_MissingRequired \<Rightarrow> out = None \<and> env_options C AND kUpb_EncodeOption_CheckRequired \<noteq> 0)"
proof -
  let ?s = "wire_message (env_tables C) (env_options C) fuel (max_depth (env_options C)) msg m"
  have "fine (env_options C) n (max_depth (env_options C)) ?s" using assms(2,3) by (rule wire_message_fine)
  moreover have "upb_Encode C fuel msg m a \<in> encode_results id ?s"
    using upb_Encode_internal_refines [OF assms(1), of fuel msg m a False] by (simp add: upb_Encode_def)
  ultimately show ?thesis by (cases ?s) (auto simp: encode_results_def fine_def)
qed

text \<open>A message type with a number and a sub-message of the same type, and a message of two levels.\<close>

definition node_table :: upb_MiniTable where
  "node_table = mini_table [Submsg (Mt 0)]
     [mini_table_field 1 12 64 0 kUpb_FieldType_Int32 66,
      mini_table_field 2 16 65 0 kUpb_FieldType_Message 194] 24 2 kUpb_ExtMode_NonExtendable 2 0"

definition leaf_msg :: upb_Message where
  "leaf_msg = upb_Message False 0 ((\<lambda>_. Zero)(8 := Cell1 1, 12 := Cell4 150)) []"

definition node_msg :: "upb_Message \<Rightarrow> upb_Message" where
  "node_msg sub = upb_Message False 0 ((\<lambda>_. Zero)(8 := Cell1 2, 16 := CellMsg False sub)) []"

definition node_env :: "nat enc_env" where
  "node_env = \<lparr>env_realloc = zero_realloc, env_tables = [node_table], env_options = 0\<rparr>"

lemma node_env_sel [simp]:
  "env_realloc node_env = zero_realloc" "env_tables node_env = [node_table]" "env_options node_env = 0"
  by (simp_all add: node_env_def)


lemma node_wire: "wire_message [node_table] 0 2 100 (node_msg leaf_msg) node_table = Ret [18, 3, 8, 150, 1]"
  by code_simp

lemma default_depth: "max_depth 0 = 100"
  by (simp add: upb_EncodeOptions_GetEffectiveMaxDepth_def)





text \<open>The colliding keys of \<open>two_keys\<close>, inserted in the other order, with their values at other places.\<close>

definition swapped_one :: upb_strtable where
  "swapped_one = (new_table 2)\<lparr>tab_count := 1, entries :=
     [\<lparr>key = Some [2], val = 0, nxt = None\<rparr>, empty_ent, empty_ent, empty_ent]\<rparr>"

definition swapped_keys :: upb_strtable where
  "swapped_keys = (new_table 2)\<lparr>tab_count := 2, entries :=
     [\<lparr>key = Some [2], val = 0, nxt = Some 1\<rparr>, \<lparr>key = Some [1], val = 1, nxt = None\<rparr>, empty_ent, empty_ent]\<rparr>"

lemma swapped_keys_inserted:
  "upb_strtable_insert counting_malloc (new_table 2) [2] 0 96 = Ret (True, swapped_one, 102)"
  "upb_strtable_insert counting_malloc swapped_one [1] 1 102 = Ret (True, swapped_keys, 108)"
  by code_simp+

lemma inserted_two:
  assumes "upb_strtable_insert counting_malloc (new_table 2) k i 96 = Ret (True, t1, 102)"
    and "upb_strtable_insert counting_malloc t1 k' j 102 = Ret (True, t2, 108)" and "k \<noteq> k'"
  shows "table_inv upb_Hash_NoSeed t2" "table_map t2 = [k \<mapsto> i, k' \<mapsto> j]"
proof -
  have total: "alloc_total counting_malloc" by (simp add: alloc_total_def counting_malloc_def)
  have one: "hash_ok upb_Hash_NoSeed t1" "table_map t1 = [k \<mapsto> i]"
    using upb_strtable_insert_spec [OF total new_table_ok, of 2 k i 96] assms(1) by (auto simp: new_table_inv(2))
  then have "table_map t1 k' = None" "card (dom (table_map t1)) < 2 ^ 29" using assms(3) by simp_all
  then show "table_inv upb_Hash_NoSeed t2" "table_map t2 = [k \<mapsto> i, k' \<mapsto> j]"
    using upb_strtable_insert_spec [OF total one(1), of k' j 102] assms(2) one(2) by (auto simp: hash_ok_def)
qed

definition entry_table :: upb_MiniTable where
  "entry_table = mini_table [] [mini_table_field 1 16 0 0 kUpb_FieldType_Bytes 130,
     mini_table_field 2 32 0 0 kUpb_FieldType_Bytes 130] 48 2 kUpb_ExtMode_IsMapEntry 2 0"


end
