(* ===== verification/Msg_Map.thy ===== *)
theory Msg_Map
  imports Message
begin

unbundle bit_operations_syntax

text \<open>
  The map fields of messages, \<^verbatim>\<open>upb/message/map.c\<close> and \<^verbatim>\<open>internal/map.h\<close>, over the string table of
  \<^verbatim>\<open>upb/hash\<close>: creation, lookup, insertion, deletion and the two iterators, on map cells. The theory
  shows that a map behaves as a finite map from keys to values, and what an insertion keeps when the
  arena fails.
\<close>

section \<open>Definitions\<close>

text \<open>
  \<^verbatim>\<open>_upb_Map_New\<close> does not look at the result of \<^verbatim>\<open>upb_strtable_init\<close>: when the arena refuses the entries,
  the table has a size but no entries.
\<close>

definition upb_Map_New_sized :: "'a alloc \<Rightarrow> nat \<Rightarrow> nat \<Rightarrow> 'a \<Rightarrow> (upb_cell \<times> 'a) option" where
  "upb_Map_New_sized malloc key_size value_size a =
     (case malloc a 40 of
        None \<Rightarrow> None
      | Some a1 \<Rightarrow>
          (case upb_strtable_init malloc 4 a1 of
             None \<Rightarrow> Some (CellMap False key_size value_size ((new_table 3)\<lparr>entries := []\<rparr>) [], a1)
           | Some (t, a2) \<Rightarrow> Some (CellMap False key_size value_size t [], a2)))"

datatype upb_MapInsertStatus =
    kUpb_MapInsertStatus_Inserted | kUpb_MapInsertStatus_Replaced | kUpb_MapInsertStatus_OutOfMemory

definition upb_Map_Insert ::
  "'a alloc \<Rightarrow> upb_cell \<Rightarrow> upb_cell \<Rightarrow> upb_cell \<Rightarrow> 'a \<Rightarrow> (unit, upb_MapInsertStatus \<times> upb_cell \<times> 'a) res" where
  "upb_Map_Insert malloc mp k v a =
     (case mp of
        CellMap frozen ks vs t vals \<Rightarrow>
          if frozen then Fault else
          bindR (upb_map_tokey k ks) (\<lambda>strkey.
            case (if vs = UPB_MAPTYPE_STRING then malloc a 16 else Some a) of
              None \<Rightarrow> Ret (kUpb_MapInsertStatus_OutOfMemory, mp, a)
            | Some a1 \<Rightarrow>
                let tabval = of_nat (length vals); vals' = vals @ [v] in
                bindR (upb_strtable_remove2 t strkey) (\<lambda>(t1, removed).
                bindR (upb_strtable_insert malloc t1 strkey tabval a1) (\<lambda>(ok, t2, a2).
                  Ret (if \<not> ok then kUpb_MapInsertStatus_OutOfMemory
                       else if \<not> Option.is_none removed then kUpb_MapInsertStatus_Replaced
                       else kUpb_MapInsertStatus_Inserted,
                       CellMap frozen ks vs t2 vals', a2))))
      | _ \<Rightarrow> Fault)"

definition upb_Map_Get :: "upb_cell \<Rightarrow> upb_cell \<Rightarrow> (unit, upb_cell option) res" where
  "upb_Map_Get mp k =
     (case mp of
        CellMap frozen ks vs t vals \<Rightarrow>
          bindR (upb_map_tokey k ks) (\<lambda>strkey.
          bindR (upb_strtable_lookup2 t strkey) (\<lambda>r.
            case r of None \<Rightarrow> Ret None | Some i \<Rightarrow> bindR (rd vals (unat i)) (\<lambda>v. Ret (Some v))))
      | _ \<Rightarrow> Fault)"

text \<open>
  \<^verbatim>\<open>upb_Map_Delete\<close> converts the removed value for the caller, if the caller wants it, without a test
  whether there was one: then the converted value is an uninitialised local variable.
\<close>

definition upb_Map_Delete :: "upb_cell \<Rightarrow> upb_cell \<Rightarrow> bool \<Rightarrow> (unit, bool \<times> upb_cell \<times> upb_cell option) res" where
  "upb_Map_Delete mp k want_val =
     (case mp of
        CellMap frozen ks vs t vals \<Rightarrow>
          if frozen then Fault else
          bindR (upb_map_tokey k ks) (\<lambda>strkey.
          bindR (upb_strtable_remove2 t strkey) (\<lambda>(t', r).
            if \<not> want_val then Ret (\<not> Option.is_none r, CellMap frozen ks vs t' vals, None)
            else case r of
              None \<Rightarrow> Fault
            | Some i \<Rightarrow> bindR (rd vals (unat i)) (\<lambda>v. Ret (True, CellMap frozen ks vs t' vals, Some v))))
      | _ \<Rightarrow> Fault)"

definition upb_Map_Clear :: "upb_cell \<Rightarrow> (unit, upb_cell) res" where
  "upb_Map_Clear mp =
     (case mp of
        CellMap frozen ks vs t vals \<Rightarrow>
          if frozen then Fault else Ret (CellMap frozen ks vs (upb_strtable_clear t) vals)
      | _ \<Rightarrow> Fault)"

definition upb_Map_Size :: "upb_cell \<Rightarrow> ('e, nat) res" where
  "upb_Map_Size mp = (case mp of CellMap _ _ _ t _ \<Rightarrow> Ret (tab_count t) | _ \<Rightarrow> Fault)"

text \<open>Strings and bytes have the size 0 in maps.\<close>

fun upb_Map_CTypeSize :: "upb_CType \<Rightarrow> nat" where
  "upb_Map_CTypeSize kUpb_CType_Bool = 1"
| "upb_Map_CTypeSize kUpb_CType_Float = 4"
| "upb_Map_CTypeSize kUpb_CType_Int32 = 4"
| "upb_Map_CTypeSize kUpb_CType_UInt32 = 4"
| "upb_Map_CTypeSize kUpb_CType_Enum = 4"
| "upb_Map_CTypeSize kUpb_CType_Message = 8"
| "upb_Map_CTypeSize kUpb_CType_Double = 8"
| "upb_Map_CTypeSize kUpb_CType_Int64 = 8"
| "upb_Map_CTypeSize kUpb_CType_UInt64 = 8"
| "upb_Map_CTypeSize kUpb_CType_String = UPB_MAPTYPE_STRING"
| "upb_Map_CTypeSize kUpb_CType_Bytes = UPB_MAPTYPE_STRING"

definition upb_Map_New :: "'a alloc \<Rightarrow> upb_CType \<Rightarrow> upb_CType \<Rightarrow> 'a \<Rightarrow> (upb_cell \<times> 'a) option" where
  "upb_Map_New malloc key_type value_type a =
     upb_Map_New_sized malloc (upb_Map_CTypeSize key_type) (upb_Map_CTypeSize value_type) a"

text \<open>
  \<^verbatim>\<open>upb_Map_SetEntryValue\<close> converts a string value with a null arena, whose use faults.
\<close>

definition upb_Map_SetEntryValue :: "upb_cell \<Rightarrow> nat \<Rightarrow> upb_cell \<Rightarrow> (unit, upb_cell) res" where
  "upb_Map_SetEntryValue mp iter v =
     (case mp of
        CellMap frozen ks vs t vals \<Rightarrow>
          if vs = UPB_MAPTYPE_STRING \<or> length (entries t) \<le> iter then Fault
          else Ret (CellMap frozen ks vs (upb_strtable_setentryvalue t iter (of_nat (length vals))) (vals @ [v]))
      | _ \<Rightarrow> Fault)"

text \<open>
  A position of an iterator: \<^verbatim>\<open>kUpb_Map_Begin\<close>, which is \<^verbatim>\<open>(size_t)-1\<close>, an index, or the value
  \<^verbatim>\<open>SIZE_MAX - 1\<close> after the last entry. \<^verbatim>\<open>upb_Map_Next\<close> leaves the position alone when there is no entry.
\<close>

datatype map_iter = MapBegin | MapAt nat | MapEnd

fun map_iter_next :: "upb_strtable \<Rightarrow> map_iter \<Rightarrow> nat option" where
  "map_iter_next t MapBegin = next_tab t (- 1)"
| "map_iter_next t (MapAt i) = next_tab t (int i)"
| "map_iter_next t MapEnd = None"

definition map_entry_at :: "upb_cell \<Rightarrow> nat \<Rightarrow> (unit, upb_cell \<times> upb_cell) res" where
  "map_entry_at mp i =
     (case mp of
        CellMap _ ks vs t vals \<Rightarrow>
          bindR (rd (entries t) i) (\<lambda>e. case key e of
              None \<Rightarrow> Fault
            | Some k \<Rightarrow> bindR (upb_map_fromkey k ks) (\<lambda>kc. bindR (rd vals (unat (val e))) (\<lambda>v. Ret (kc, v))))
      | _ \<Rightarrow> Fault)"

definition upb_Map_Next :: "upb_cell \<Rightarrow> map_iter \<Rightarrow> (unit, ((upb_cell \<times> upb_cell) \<times> map_iter) option) res" where
  "upb_Map_Next mp iter =
     (case mp of
        CellMap _ _ _ t _ \<Rightarrow>
          (case map_iter_next t iter of
             None \<Rightarrow> Ret None
           | Some i \<Rightarrow> bindR (map_entry_at mp i) (\<lambda>e. Ret (Some (e, MapAt i))))
      | _ \<Rightarrow> Fault)"

definition upb_MapIterator_Done :: "upb_cell \<Rightarrow> map_iter \<Rightarrow> (unit, bool) res" where
  "upb_MapIterator_Done mp iter =
     (case mp of
        CellMap _ _ _ t _ \<Rightarrow>
          (case iter of
             MapBegin \<Rightarrow> Fault
           | MapAt i \<Rightarrow> Ret (upb_strtable_done \<lparr> iter_t = Some t, iter_index = Some i \<rparr>)
           | MapEnd \<Rightarrow> Ret True)
      | _ \<Rightarrow> Fault)"

definition upb_MapIterator_Next :: "upb_cell \<Rightarrow> map_iter \<Rightarrow> (unit, bool \<times> map_iter) res" where
  "upb_MapIterator_Next mp iter =
     (case mp of
        CellMap _ _ _ t _ \<Rightarrow>
          (case map_iter_next t iter of
             None \<Rightarrow> Ret (False, MapEnd)
           | Some i \<Rightarrow> Ret (\<not> upb_strtable_done \<lparr> iter_t = Some t, iter_index = Some i \<rparr>, MapAt i))
      | _ \<Rightarrow> Fault)"

definition upb_MapIterator_Key :: "upb_cell \<Rightarrow> nat \<Rightarrow> (unit, upb_cell) res" where
  "upb_MapIterator_Key mp i = bindR (map_entry_at mp i) (\<lambda>e. Ret (fst e))"

definition upb_MapIterator_Value :: "upb_cell \<Rightarrow> nat \<Rightarrow> (unit, upb_cell) res" where
  "upb_MapIterator_Value mp i = bindR (map_entry_at mp i) (\<lambda>e. Ret (snd e))"

section \<open>Insertion into a string table when the arena may fail\<close>

text \<open>
  Whatever the arena does, an insertion leaves a table that satisfies the invariant, and holds nothing
  but entries it held before and the new one.
\<close>

lemma strtable_insert_not_full:
  assumes "hash_ok upb_Hash_NoSeed t" and "\<not> isfull t" and "table_map t k = None"
  shows "\<exists>ok t' a'. strtable_insert (Suc d) malloc t k v a = Ret (ok, t', a') \<and> hash_ok upb_Hash_NoSeed t'
    \<and> table_map t' \<subseteq>\<^sub>m (table_map t)(k \<mapsto> v) \<and> size_lg2 t' = size_lg2 t \<and> max_count t' = max_count t
    \<and> tab_count t' \<le> tab_count t + 1"
proof (cases "malloc a (length k + 5)")
  case None
  have "table_map t \<subseteq>\<^sub>m (table_map t)(k \<mapsto> v)" using assms(3) by (auto simp: map_le_def)
  with None assms show ?thesis by (auto simp: strtable_insert.simps(2) intro: exI [of _ False])
next
  case (Some a')
  from hash_ok_insert [OF assms, of v] Some assms(2) show ?thesis
    by (auto simp: strtable_insert.simps(2))
qed

lemma map_le_SomeD: "m \<subseteq>\<^sub>m m' \<Longrightarrow> m k = Some v \<Longrightarrow> m' k = Some v"
  by (metis domI map_le_def)

lemma map_le_add_mono:
  assumes "m \<subseteq>\<^sub>m m'"
  shows "m ++ n \<subseteq>\<^sub>m m' ++ n"
proof -
  have "(m ++ n) k = (m' ++ n) k" if "k \<in> dom (m ++ n)" for k
    using that map_le_SomeD [OF assms, of k] by (cases "n k"; cases "m k") (auto simp: map_add_def)
  then show ?thesis by (simp add: map_le_def)
qed

lemma copy_list_safe:
  "hash_ok upb_Hash_NoSeed nt \<Longrightarrow> tab_count nt + length ps \<le> max_count nt \<Longrightarrow> distinct (map fst ps) \<Longrightarrow>
    (\<forall>k \<in> fst ` set ps. table_map nt k = None) \<Longrightarrow>
    \<exists>nt' a'. copy_list (strtable_insert (Suc d) malloc) ps nt a = Ret (nt', a') \<and> hash_ok upb_Hash_NoSeed nt'
      \<and> table_map nt' \<subseteq>\<^sub>m table_map nt ++ map_of ps \<and> size_lg2 nt' = size_lg2 nt \<and> max_count nt' = max_count nt
      \<and> tab_count nt' \<le> tab_count nt + length ps"
proof (induction ps arbitrary: nt a)
  case Nil
  then show ?case by simp
next
  case (Cons p ps)
  obtain k v where p: "p = (k, v)" by (cases p)
  have nf: "\<not> isfull nt" using Cons.prems(2) by (simp add: isfull_def)
  have absent: "table_map nt k = None" using Cons.prems(4) p by simp
  obtain ok n1 a1 where n1: "strtable_insert (Suc d) malloc nt k v a = Ret (ok, n1, a1)" "hash_ok upb_Hash_NoSeed n1"
    "table_map n1 \<subseteq>\<^sub>m (table_map nt)(k \<mapsto> v)" "size_lg2 n1 = size_lg2 nt" "max_count n1 = max_count nt"
    "tab_count n1 \<le> tab_count nt + 1"
    using strtable_insert_not_full [OF Cons.prems(1) nf absent, of d malloc v a] by (elim exE conjE) (rule that)
  have fresh: "\<forall>j \<in> fst ` set ps. table_map n1 j = None"
  proof
    fix j assume j: "j \<in> fst ` set ps"
    then have "j \<noteq> k" using Cons.prems(3) p by auto
    with j Cons.prems(4) have "((table_map nt)(k \<mapsto> v)) j = None" by auto
    then show "table_map n1 j = None" using map_le_SomeD [OF n1(3), of j] by (cases "table_map n1 j") auto
  qed
  have room: "tab_count n1 + length ps \<le> max_count n1" and dist: "distinct (map fst ps)"
    using Cons.prems(2,3) n1(5,6) by simp_all
  obtain nt' a' where nt':
    "copy_list (strtable_insert (Suc d) malloc) ps n1 a1 = Ret (nt', a')" "hash_ok upb_Hash_NoSeed nt'"
    "table_map nt' \<subseteq>\<^sub>m table_map n1 ++ map_of ps" "size_lg2 nt' = size_lg2 n1" "max_count nt' = max_count n1"
    "tab_count nt' \<le> tab_count n1 + length ps"
    using Cons.IH [OF n1(2) room dist fresh, of a1] by blast
  have "k \<notin> fst ` set ps" using Cons.prems(3) p by simp
  then have eq: "(table_map nt)(k \<mapsto> v) ++ map_of ps = table_map nt ++ map_of (p # ps)"
    using p by (simp add: map_add_upd_left dom_map_of_conv_image_fst)
  have "table_map nt' \<subseteq>\<^sub>m table_map nt ++ map_of (p # ps)"
    using map_le_trans [OF nt'(3) map_le_add_mono [OF n1(3)]] by (simp only: eq)
  moreover have "copy_list (strtable_insert (Suc d) malloc) (p # ps) nt a = Ret (nt', a')"
    using nt'(1) n1(1) p by simp
  moreover have "size_lg2 nt' = size_lg2 nt \<and> max_count nt' = max_count nt
      \<and> tab_count nt' \<le> tab_count nt + length (p # ps)"
    using nt' n1 by simp
  ultimately show ?case using nt'(2) by blast
qed

lemma strtable_resize_safe:
  fixes a :: 'a
  assumes ok: "hash_ok upb_Hash_NoSeed t" and lg: "lg2 \<le> 30"
    and room: "tab_count t \<le> max_count (new_table lg2 :: upb_strtable)"
  shows "\<exists>r. strtable_resize (strtable_insert (Suc d) malloc) malloc t lg2 a = Ret r
    \<and> (\<forall>t' a'. r = Some (t', a') \<longrightarrow> hash_ok upb_Hash_NoSeed t' \<and> table_map t' \<subseteq>\<^sub>m table_map t \<and> size_lg2 t' = lg2
      \<and> max_count t' = max_count (new_table lg2 :: upb_strtable) \<and> tab_count t' \<le> tab_count t)"
proof (cases "init_table malloc lg2 a :: (upb_strtable \<times> 'a) option")
  case None
  then show ?thesis by (simp add: strtable_resize_def)
next
  case (Some na)
  let ?nt = "new_table lg2 :: upb_strtable" and ?ps = "map (pair_at t) (occupied_from t 0)"
  obtain a1 where a1: "init_table malloc lg2 a = Some (?nt, a1)"
    using Some by (auto simp: init_table_def Let_def split: if_splits option.splits)
  have inv: "table_inv upb_Hash_NoSeed t" using ok by (simp add: hash_ok_def)
  have nt: "hash_ok upb_Hash_NoSeed ?nt" "table_map ?nt = Map.empty" "tab_count ?nt = 0" "size_lg2 ?nt = lg2"
    using lg new_table_ok [of lg2] new_table_inv(2) [of lg2] by simp_all
  obtain t' a' where t': "copy_list (strtable_insert (Suc d) malloc) ?ps ?nt a1 = Ret (t', a')"
    "hash_ok upb_Hash_NoSeed t'" "table_map t' \<subseteq>\<^sub>m table_map ?nt ++ map_of ?ps" "size_lg2 t' = size_lg2 ?nt"
    "max_count t' = max_count ?nt" "tab_count t' \<le> tab_count ?nt + length ?ps"
    using copy_list_safe [OF nt(1), of ?ps d malloc a1] occupied_pairs(2,3) [OF inv] nt(2,3) room by auto
  have "strtable_copy (strtable_insert (Suc d) malloc) t (- 1) ?nt a1 = Ret (t', a')"
    using strtable_copy_list [of "- 1" _ t ?nt a1] t'(1) by simp
  then have "strtable_resize (strtable_insert (Suc d) malloc) malloc t lg2 a = Ret (Some (t', a'))"
    by (simp add: strtable_resize_def a1)
  moreover have "table_map t' \<subseteq>\<^sub>m table_map t" using t'(3) nt(2) occupied_pairs(1) [OF inv] by simp
  ultimately show ?thesis using t' nt occupied_pairs(3) [OF inv] by auto
qed

lemma upb_strtable_insert_safe:
  assumes ok: "hash_ok upb_Hash_NoSeed t" and new: "table_map t k = None" and small: "tab_count t < 2 ^ 29"
    and pos: "0 < size_lg2 t"
  shows "\<exists>b t' a'. upb_strtable_insert malloc t k v a = Ret (b, t', a') \<and> hash_ok upb_Hash_NoSeed t'
    \<and> table_map t' \<subseteq>\<^sub>m (table_map t)(k \<mapsto> v) \<and> 0 < size_lg2 t' \<and> tab_count t' \<le> tab_count t + 1"
proof (cases "isfull t")
  case False
  with strtable_insert_not_full [OF ok False new, of 1 malloc v a] pos
  show ?thesis by (auto simp: upb_strtable_insert_def numeral_2_eq_2)
next
  case True
  have sh: "table_shape t" using ok by (auto simp: hash_ok_def table_inv_def)
  have lg: "size_lg2 t \<le> 29" by (rule full_small [OF ok True small])
  have grow: "tab_count t < max_count (new_table (size_lg2 t + 1) :: upb_strtable)"
    using max_count_grows [OF sh lg] True by (simp add: isfull_def)
  obtain r where r: "strtable_resize (strtable_insert (Suc 0) malloc) malloc t (size_lg2 t + 1) a = Ret r"
    "\<forall>t' a'. r = Some (t', a') \<longrightarrow> hash_ok upb_Hash_NoSeed t' \<and> table_map t' \<subseteq>\<^sub>m table_map t
      \<and> size_lg2 t' = size_lg2 t + 1 \<and> max_count t' = max_count (new_table (size_lg2 t + 1) :: upb_strtable)
      \<and> tab_count t' \<le> tab_count t"
    using strtable_resize_safe [OF ok, of "size_lg2 t + 1" 0 malloc a] lg grow by auto
  have step: "upb_strtable_insert malloc t k v a = (case r of
         None \<Rightarrow> Ret (False, t, a)
       | Some (t1, a1) \<Rightarrow>
           (case malloc a1 (length k + 5) of
              None \<Rightarrow> Ret (False, t1, a1)
            | Some a2 \<Rightarrow> bindR (insert_tab upb_Hash_NoSeed t1 k v) (\<lambda>t2. Ret (True, t2, a2))))"
    using True r(1) by (simp add: upb_strtable_insert_def numeral_2_eq_2 strtable_insert.simps(2) [of "Suc 0"])
  have le: "table_map t \<subseteq>\<^sub>m (table_map t)(k \<mapsto> v)" using new by (auto simp: map_le_def)
  show ?thesis
  proof (cases r)
    case None
    with step ok pos le show ?thesis by (auto intro: exI [of _ False])
  next
    case (Some p)
    obtain t1 a1 where p: "p = (t1, a1)" by (cases p)
    with r(2) Some have t1: "hash_ok upb_Hash_NoSeed t1" "table_map t1 \<subseteq>\<^sub>m table_map t" "size_lg2 t1 = size_lg2 t + 1"
      "max_count t1 = max_count (new_table (size_lg2 t + 1) :: upb_strtable)" "tab_count t1 \<le> tab_count t" by auto
    have nf: "\<not> isfull t1" using t1(4,5) grow by (simp add: isfull_def)
    have new1: "table_map t1 k = None"
      using map_le_SomeD [OF t1(2), of k] new by (cases "table_map t1 k") auto
    obtain t2 where t2: "insert_tab upb_Hash_NoSeed t1 k v = Ret t2" "hash_ok upb_Hash_NoSeed t2"
      "table_map t2 = (table_map t1)(k \<mapsto> v)" "size_lg2 t2 = size_lg2 t1" "tab_count t2 = tab_count t1 + 1"
      using hash_ok_insert [OF t1(1) nf new1] by metis
    have "table_map t2 \<subseteq>\<^sub>m (table_map t)(k \<mapsto> v)" using t1(2) t2(3) by (auto simp: map_le_def)
    with step Some p t1 t2 le map_le_trans [OF t1(2) le] show ?thesis
      by (cases "malloc a1 (length k + 5)") auto
  qed
qed

section \<open>A map is a finite map\<close>

text \<open>
  The invariant of a map cell: its table is well formed and has entries, and the values of the table
  are indices of stored values. Its abstraction maps the bytes of a key to the value's cell.
\<close>

definition map_ok :: "upb_cell \<Rightarrow> bool" where
  "map_ok mp \<longleftrightarrow>
     (case mp of
        CellMap frozen ks vs t vals \<Rightarrow>
          \<not> frozen \<and> hash_ok upb_Hash_NoSeed t \<and> 0 < size_lg2 t \<and> length vals < 2 ^ 64
          \<and> (\<forall>i \<in> ran (table_map t). unat i < length vals)
      | _ \<Rightarrow> False)"

definition map_abs :: "upb_cell \<Rightarrow> bytes \<Rightarrow> upb_cell option" where
  "map_abs mp k =
     (case mp of
        CellMap _ _ _ t vals \<Rightarrow> map_option (\<lambda>i. vals ! unat i) (table_map t k)
      | _ \<Rightarrow> None)"

definition map_keysize :: "upb_cell \<Rightarrow> nat" where
  "map_keysize mp = (case mp of CellMap _ ks _ _ _ \<Rightarrow> ks | _ \<Rightarrow> 0)"

definition map_vals :: "upb_cell \<Rightarrow> upb_cell list" where
  "map_vals mp = (case mp of CellMap _ _ _ _ vals \<Rightarrow> vals | _ \<Rightarrow> [])"

lemma map_okE:
  assumes "map_ok mp"
  obtains ks vs t vals where "mp = CellMap False ks vs t vals" "hash_ok upb_Hash_NoSeed t" "0 < size_lg2 t"
    "length vals < 2 ^ 64" "\<And>k i. table_map t k = Some i \<Longrightarrow> unat i < length vals"
  using assms by (cases mp) (auto simp: map_ok_def ran_def)

lemma map_get_law:
  assumes "map_ok mp" and "upb_map_tokey k (map_keysize mp) = (Ret kb :: (unit, _) res)"
  shows "upb_Map_Get mp k = Ret (map_abs mp kb)"
proof -
  obtain ks vs t vals where mp: "mp = CellMap False ks vs t vals" "hash_ok upb_Hash_NoSeed t"
    and idx: "\<And>k i. table_map t k = Some i \<Longrightarrow> unat i < length vals"
    using map_okE [OF assms(1)] by metis
  have "upb_strtable_lookup2 t kb = Ret (table_map t kb)"
    using lookup_tab_spec [of upb_Hash_NoSeed t kb] mp(2) by (simp add: upb_strtable_lookup2_def hash_ok_def)
  with assms(2) mp(1) idx show ?thesis
    by (cases "table_map t kb") (simp_all add: upb_Map_Get_def map_abs_def map_keysize_def)
qed

lemma map_delete_law:
  assumes "map_ok mp" and "upb_map_tokey k (map_keysize mp) = (Ret kb :: (unit, _) res)"
  shows "\<exists>mp'. upb_Map_Delete mp k False = Ret (map_abs mp kb \<noteq> None, mp', None) \<and> map_ok mp'
    \<and> map_abs mp' = (map_abs mp)(kb := None)"
proof -
  obtain ks vs t vals where mp: "mp = CellMap False ks vs t vals" "hash_ok upb_Hash_NoSeed t" "0 < size_lg2 t"
    "length vals < 2 ^ 64" and idx: "\<And>k i. table_map t k = Some i \<Longrightarrow> unat i < length vals"
    using map_okE [OF assms(1)] by metis
  obtain t' where t': "upb_strtable_remove2 t kb = Ret (t', table_map t kb)" "hash_ok upb_Hash_NoSeed t'"
    "table_map t' = (table_map t)(kb := None)" "size_lg2 t' = size_lg2 t"
    using rm_tab_ok [OF mp(2,3), of kb] by (auto simp: upb_strtable_remove2_def)
  with mp idx have "map_ok (CellMap False ks vs t' vals)"
    by (auto simp: map_ok_def ran_def split: if_splits)
  moreover have "map_abs (CellMap False ks vs t' vals) = (map_abs mp)(kb := None)"
    using t'(3) mp(1) by (auto simp: map_abs_def fun_eq_iff)
  moreover have "upb_Map_Delete mp k False = Ret (map_abs mp kb \<noteq> None, CellMap False ks vs t' vals, None)"
    using assms(2) mp(1) t'(1) by (auto simp: upb_Map_Delete_def map_keysize_def map_abs_def Option.is_none_def)
  ultimately show ?thesis by blast
qed

lemma map_finite:
  assumes "map_ok mp"
  shows "finite (dom (map_abs mp))" and "upb_Map_Size mp = Ret (card (dom (map_abs mp)))"
proof -
  obtain ks vs t vals where mp: "mp = CellMap False ks vs t vals" "hash_ok upb_Hash_NoSeed t"
    using map_okE [OF assms] by metis
  have inv: "table_inv upb_Hash_NoSeed t" using mp(2) by (simp add: hash_ok_def)
  have "dom (map_abs mp) = dom (table_map t)" using mp(1) by (auto simp: map_abs_def dom_def)
  moreover have "finite (dom (map_of (map (pair_at t) (occupied_from t 0))))" by (rule finite_dom_map_of)
  ultimately show "finite (dom (map_abs mp))" "upb_Map_Size mp = Ret (card (dom (map_abs mp)))"
    using occupied_pairs(1) [OF inv] count_card_dom [OF inv] mp(1) by (simp_all add: upb_Map_Size_def)
qed

text \<open>The map after an entry was removed and one with a new index was inserted, perhaps in part.\<close>

lemma map_inserted:
  assumes "map_ok (CellMap False ks vs t vals)" and "Suc (length vals) < 2 ^ 64"
    and "hash_ok upb_Hash_NoSeed t2" and "0 < size_lg2 t2"
    and le: "table_map t2 \<subseteq>\<^sub>m (table_map t)(kb \<mapsto> of_nat (length vals))"
  shows "map_ok (CellMap False ks vs t2 (vals @ [v]))"
    and "map_abs (CellMap False ks vs t2 (vals @ [v])) k' = Some c \<Longrightarrow>
      map_abs (CellMap False ks vs t vals) k' = Some c \<or> k' = kb \<and> c = v"
    and "table_map t2 = (table_map t)(kb \<mapsto> of_nat (length vals)) \<Longrightarrow>
      map_abs (CellMap False ks vs t2 (vals @ [v])) = (map_abs (CellMap False ks vs t vals))(kb \<mapsto> v)"
proof -
  let ?i = "of_nat (length vals) :: u64"
  have i: "unat ?i = length vals" using assms(2) by (simp add: unat_of_nat_small)
  have idx: "unat j < length vals" if "table_map t k = Some j" for k j
    using assms(1) that by (auto simp: map_ok_def ran_def)
  have cases: "k = kb \<and> j = ?i \<or> k \<noteq> kb \<and> table_map t k = Some j \<and> unat j < length vals"
    if "table_map t2 k = Some j" for k j
    using map_le_SomeD [OF le that] idx [of k j] by (auto split: if_splits)
  show "map_ok (CellMap False ks vs t2 (vals @ [v]))"
    using assms(2-4) cases i by (fastforce simp: map_ok_def ran_def)
  show "map_abs (CellMap False ks vs t vals) k' = Some c \<or> k' = kb \<and> c = v"
    if abs: "map_abs (CellMap False ks vs t2 (vals @ [v])) k' = Some c"
  proof -
    obtain j where j: "table_map t2 k' = Some j" "c = (vals @ [v]) ! unat j" using abs by (auto simp: map_abs_def)
    from cases [OF j(1)] j(2) i show ?thesis by (auto simp: map_abs_def nth_append)
  qed
  show "map_abs (CellMap False ks vs t2 (vals @ [v])) = (map_abs (CellMap False ks vs t vals))(kb \<mapsto> v)"
    if "table_map t2 = (table_map t)(kb \<mapsto> ?i)"
  proof
    fix k
    show "map_abs (CellMap False ks vs t2 (vals @ [v])) k = ((map_abs (CellMap False ks vs t vals))(kb \<mapsto> v)) k"
      using that i idx [of k] by (cases "table_map t k") (auto simp: map_abs_def nth_append)
  qed
qed

lemma map_insert_step:
  assumes "upb_map_tokey k ks = (Ret kb :: (unit, _) res)" and "upb_strtable_remove2 t kb = Ret (t1, r)"
  shows "upb_Map_Insert malloc (CellMap False ks vs t vals) k v a =
     (case (if vs = UPB_MAPTYPE_STRING then malloc a 16 else Some a) of
        None \<Rightarrow> Ret (kUpb_MapInsertStatus_OutOfMemory, CellMap False ks vs t vals, a)
      | Some a1 \<Rightarrow> bindR (upb_strtable_insert malloc t1 kb (of_nat (length vals)) a1) (\<lambda>(ok, t2, a2).
          Ret (if \<not> ok then kUpb_MapInsertStatus_OutOfMemory
               else if r = None then kUpb_MapInsertStatus_Inserted else kUpb_MapInsertStatus_Replaced,
               CellMap False ks vs t2 (vals @ [v]), a2)))"
  unfolding upb_Map_Insert_def using assms by (cases r) (simp_all add: Let_def cong: option.case_cong)

text \<open>Insertion when the arena may fail: nothing appears in the map but the new entry.\<close>

lemma map_insert_safe:
  assumes ok: "map_ok mp" and key: "upb_map_tokey k (map_keysize mp) = (Ret kb :: (unit, _) res)"
    and small: "card (dom (map_abs mp)) < 2 ^ 29" "length (map_vals mp) < 2 ^ 64 - 1"
  shows "\<exists>st mp' a'. upb_Map_Insert malloc mp k v a = Ret (st, mp', a') \<and> map_ok mp'
    \<and> (\<forall>k' c. map_abs mp' k' = Some c \<longrightarrow> map_abs mp k' = Some c \<or> k' = kb \<and> c = v)
    \<and> map_keysize mp' = map_keysize mp \<and> map_vals mp' \<in> {map_vals mp, map_vals mp @ [v]}"
proof -
  obtain ks vs t vals where mp: "mp = CellMap False ks vs t vals" "hash_ok upb_Hash_NoSeed t" "0 < size_lg2 t"
    using map_okE [OF ok] by metis
  obtain t1 where t1: "upb_strtable_remove2 t kb = Ret (t1, table_map t kb)" "hash_ok upb_Hash_NoSeed t1"
    "table_map t1 = (table_map t)(kb := None)" "size_lg2 t1 = size_lg2 t"
    using rm_tab_ok [OF mp(2,3), of kb] by (auto simp: upb_strtable_remove2_def)
  have "card (dom (table_map t1)) \<le> card (dom (map_abs mp))"
    using map_finite(1) [OF ok] t1(3) mp(1) by (intro card_mono) (auto simp: map_abs_def)
  then have small1: "tab_count t1 < 2 ^ 29"
    using small(1) t1(2) count_card_dom [of upb_Hash_NoSeed t1] by (simp add: hash_ok_def)
  note step = map_insert_step [OF _ t1(1), of k ks malloc vs vals v a] key mp(1)
  show ?thesis
  proof (cases "if vs = UPB_MAPTYPE_STRING then malloc a 16 else Some a")
    case None
    with step ok show ?thesis by (simp add: map_keysize_def)
  next
    case (Some a1)
    obtain b t2 a2 where t2: "upb_strtable_insert malloc t1 kb (of_nat (length vals)) a1 = Ret (b, t2, a2)"
      "hash_ok upb_Hash_NoSeed t2" "table_map t2 \<subseteq>\<^sub>m (table_map t1)(kb \<mapsto> of_nat (length vals))" "0 < size_lg2 t2"
      using upb_strtable_insert_safe [OF t1(2) _ small1, of kb malloc "of_nat (length vals)" a1] t1(3,4) mp(3) by auto
    have le: "table_map t2 \<subseteq>\<^sub>m (table_map t)(kb \<mapsto> of_nat (length vals))" using t2(3) t1(3) by simp
    have len: "Suc (length vals) < 2 ^ 64" using small(2) mp(1) by (simp add: map_vals_def)
    note ins = map_inserted [OF ok [unfolded mp(1)] len t2(2,4) le, of v]
    show ?thesis using Some step t2(1) ins(1,2) by (auto simp: map_keysize_def map_vals_def)
  qed
qed

lemma map_insert_law:
  assumes total: "alloc_total malloc" and ok: "map_ok mp"
    and key: "upb_map_tokey k (map_keysize mp) = (Ret kb :: (unit, _) res)"
    and small: "card (dom (map_abs mp)) < 2 ^ 29" "length (map_vals mp) < 2 ^ 64 - 1"
  shows "\<exists>mp' a'. upb_Map_Insert malloc mp k v a
      = Ret (if map_abs mp kb = None then kUpb_MapInsertStatus_Inserted else kUpb_MapInsertStatus_Replaced, mp', a')
    \<and> map_ok mp' \<and> map_abs mp' = (map_abs mp)(kb \<mapsto> v)"
proof -
  obtain ks vs t vals where mp: "mp = CellMap False ks vs t vals" "hash_ok upb_Hash_NoSeed t" "0 < size_lg2 t"
    using map_okE [OF ok] by metis
  obtain t1 where t1: "upb_strtable_remove2 t kb = Ret (t1, table_map t kb)" "hash_ok upb_Hash_NoSeed t1"
    "table_map t1 = (table_map t)(kb := None)" "size_lg2 t1 = size_lg2 t"
    using rm_tab_ok [OF mp(2,3), of kb] by (auto simp: upb_strtable_remove2_def)
  have "card (dom (table_map t1)) \<le> card (dom (map_abs mp))"
    using map_finite(1) [OF ok] t1(3) mp(1) by (intro card_mono) (auto simp: map_abs_def)
  then have small1: "card (dom (table_map t1)) < 2 ^ 29" using small(1) by simp
  obtain a1 where a1: "(if vs = UPB_MAPTYPE_STRING then malloc a 16 else Some a) = Some a1"
    using total by (cases "vs = UPB_MAPTYPE_STRING") (auto simp: alloc_total_def)
  obtain t2 a2 where t2: "upb_strtable_insert malloc t1 kb (of_nat (length vals)) a1 = Ret (True, t2, a2)"
    "hash_ok upb_Hash_NoSeed t2" "table_map t2 = (table_map t1)(kb \<mapsto> of_nat (length vals))" "0 < size_lg2 t2"
    using upb_strtable_insert_spec [OF total t1(2) _ small1, of kb "of_nat (length vals)" a1] t1(3) by auto
  have eq: "table_map t2 = (table_map t)(kb \<mapsto> of_nat (length vals))" using t2(3) t1(3) by simp
  have len: "Suc (length vals) < 2 ^ 64" using small(2) mp(1) by (simp add: map_vals_def)
  have ins: "map_ok (CellMap False ks vs t2 (vals @ [v]))"
    "map_abs (CellMap False ks vs t2 (vals @ [v])) = (map_abs mp)(kb \<mapsto> v)"
    using map_inserted(1,3) [OF ok [unfolded mp(1)] len t2(2,4), of kb v] eq mp(1) by simp_all
  have "table_map t kb = None \<longleftrightarrow> map_abs mp kb = None" using mp(1) by (simp add: map_abs_def)
  with ins show ?thesis using map_insert_step [OF _ t1(1), of k ks malloc vs vals v a] key mp(1) a1 t2(1)
    by (simp add: map_keysize_def)
qed

lemma map_clear_law:
  assumes "map_ok mp"
  shows "\<exists>mp'. upb_Map_Clear mp = Ret mp' \<and> map_ok mp' \<and> map_abs mp' = Map.empty"
proof -
  obtain ks vs t vals where mp: "mp = CellMap False ks vs t vals" "hash_ok upb_Hash_NoSeed t" "0 < size_lg2 t"
    "length vals < 2 ^ 64"
    using map_okE [OF assms] by metis
  have clear: "upb_strtable_clear t = new_table (size_lg2 t)"
    using mp(2,3) by (auto simp: upb_strtable_clear_def new_table_def upb_table_size_def table_shape_def
        hash_ok_def table_inv_def Let_def intro!: upb_table.equality)
  have new: "hash_ok upb_Hash_NoSeed (new_table (size_lg2 t) :: upb_strtable)"
    "table_map (new_table (size_lg2 t) :: upb_strtable) = Map.empty" "size_lg2 (new_table (size_lg2 t) :: upb_strtable) = size_lg2 t"
    using mp(2) by (simp_all add: new_table_ok new_table_inv(2) hash_ok_def [of _ t])
  have "map_ok (CellMap False ks vs (new_table (size_lg2 t)) vals)"
    "map_abs (CellMap False ks vs (new_table (size_lg2 t)) vals) = Map.empty"
    using mp new by (auto simp: map_ok_def map_abs_def ran_def)
  with clear mp(1) show ?thesis by (simp add: upb_Map_Clear_def)
qed

text \<open>The second allocation of \<^verbatim>\<open>_upb_Map_New\<close>, whose failure the source does not notice: 8 entries of 24 bytes.\<close>

definition map_alloc_ok :: "'a alloc \<Rightarrow> bool" where
  "map_alloc_ok malloc \<longleftrightarrow> (\<forall>a a'. malloc a 40 = Some a' \<longrightarrow> malloc a' 192 \<noteq> None)"

lemma alloc_total_map_alloc: "alloc_total malloc \<Longrightarrow> map_alloc_ok malloc"
  by (simp add: alloc_total_def map_alloc_ok_def)

lemma log2_five: "upb_Log2Ceiling 5 = 3"
  by (simp add: upb_Log2Ceiling_def log2_loop.simps)

lemma map_new_law:
  assumes "map_alloc_ok malloc" and "upb_Map_New_sized malloc ks vs a = Some (mp, a')"
  shows "map_ok mp" and "map_abs mp = Map.empty" and "map_keysize mp = ks" and "map_vals mp = []"
    and "mp = CellMap False ks vs (new_table 3) []"
proof -
  obtain a1 where a1: "malloc a 40 = Some a1" using assms(2) by (auto simp: upb_Map_New_sized_def split: option.splits)
  then have "malloc a1 192 \<noteq> None" using assms(1) by (auto simp: map_alloc_ok_def)
  then obtain a2 where init: "upb_strtable_init malloc 4 a1 = Some (new_table 3, a2)"
    by (auto simp: upb_strtable_init_def init_table_def log2_five new_table_def Let_def)
  then show mp: "mp = CellMap False ks vs (new_table 3) []"
    using assms(2) a1 by (simp add: upb_Map_New_sized_def)
  have "hash_ok upb_Hash_NoSeed (new_table 3 :: upb_strtable)" "table_map (new_table 3 :: upb_strtable) = Map.empty"
    "size_lg2 (new_table 3 :: upb_strtable) = 3"
    using new_table_ok [of 3] new_table_inv(2) [of 3] by (simp_all add: new_table_def)
  with mp show "map_ok mp" "map_abs mp = Map.empty" by (auto simp: map_ok_def map_abs_def ran_def)
  show "map_keysize mp = ks" "map_vals mp = []" using mp by (simp_all add: map_keysize_def map_vals_def)
qed

section \<open>Properties\<close>


definition one_entry :: upb_cell where
  "one_entry = CellMap False 0 4 (case insert_tab upb_Hash_NoSeed (new_table 3) [104, 105] 0 of Ret t \<Rightarrow> t | _ \<Rightarrow> new_table 3) [Cell4 7]"

lemma one_entry_ok: "map_ok one_entry" "map_abs one_entry = [[104, 105] \<mapsto> Cell4 7]"
proof -
  have new: "hash_ok upb_Hash_NoSeed (new_table 3 :: upb_strtable)" "table_map (new_table 3 :: upb_strtable) = Map.empty"
    "size_lg2 (new_table 3 :: upb_strtable) = 3" "\<not> isfull (new_table 3 :: upb_strtable)"
    using new_table_ok [of 3] new_table_inv(2) [of 3] by (simp_all add: new_table_def isfull_def)
  obtain t where t: "insert_tab upb_Hash_NoSeed (new_table 3) [104, 105] 0 = Ret t" "hash_ok upb_Hash_NoSeed t"
    "table_map t = [[104, 105] \<mapsto> 0]" "size_lg2 t = 3"
    using hash_ok_insert [OF new(1,4), of "[104, 105]" 0] new(2,3) by auto
  then show "map_ok one_entry" "map_abs one_entry = [[104, 105] \<mapsto> Cell4 7]"
    by (auto simp: one_entry_def map_ok_def map_abs_def)
qed


text \<open>
  C35. When the arena grants a map but not the entries of its table, \<^verbatim>\<open>_upb_Map_New\<close> returns a map all the
  same, and the first insertion reads through the null pointer of its entries.
\<close>

theorem upb_Map_New_without_entries:
  "\<exists>malloc mp a. upb_Map_New malloc kUpb_CType_Int32 kUpb_CType_Int32 (0 :: nat) = Some (mp, a)
     \<and> upb_Map_Insert malloc mp (Cell4 1) (Cell4 2) a = Fault"
proof -
  define malloc :: "nat alloc" where "malloc = (\<lambda>a n. if n = 40 then Some a else None)"
  have "upb_strtable_init malloc 4 0 = None"
    by (simp add: upb_strtable_init_def init_table_def log2_five new_table_def malloc_def)
  then have "upb_Map_New malloc kUpb_CType_Int32 kUpb_CType_Int32 0
      = Some (CellMap False 4 4 ((new_table 3)\<lparr>entries := []\<rparr>) [], 0)"
    by (simp add: upb_Map_New_def upb_Map_New_sized_def malloc_def)
  moreover have "upb_Map_Insert malloc (CellMap False 4 4 ((new_table 3)\<lparr>entries := []\<rparr>) []) (Cell4 1) (Cell4 2) 0 = Fault"
    by (simp add: upb_Map_Insert_def upb_map_tokey_def upb_strtable_remove2_def rm_tab_def)
  ultimately show ?thesis by blast
qed

end
