(* ===== verification/Msg_Array.thy ===== *)
theory Msg_Array
  imports Message
begin

unbundle bit_operations_syntax

text \<open>
  The repeated fields of messages, \<^verbatim>\<open>upb/message/array.c\<close> and \<^verbatim>\<open>internal/array.h\<close>, on array cells: the
  elements in use followed by the cells up to the capacity, which keep what was in them. The theory
  shows what each operation does to the sequence of elements and how the capacity grows, and that both
  arrays and the unknown fields of a message are appendable sequences.
\<close>

section \<open>Definitions\<close>

text \<open>
  \<^verbatim>\<open>UPB_PRIVATE(_upb_Array_New)\<close>: a header of 24 bytes and the elements in one block. The data pointer's
  low bits hold the element size, for which \<^verbatim>\<open>_upb_Array_SetTaggedPtr\<close> allows no logarithm 1.
\<close>

definition upb_Array_New_sized :: "'a alloc \<Rightarrow> nat \<Rightarrow> nat \<Rightarrow> 'a \<Rightarrow> ('e, (upb_cell \<times> 'a) option) res" where
  "upb_Array_New_sized malloc init_capacity lg2 a =
     (if lg2 = 1 \<or> 4 < lg2 then Fault
      else Ret (map_option (\<lambda>a'. (CellArr False lg2 [] (replicate init_capacity Undef), a'))
                 (malloc a (24 + init_capacity * 2 ^ lg2))))"

definition upb_Array_New :: "'a alloc \<Rightarrow> upb_CType \<Rightarrow> 'a \<Rightarrow> ('e, (upb_cell \<times> 'a) option) res" where
  "upb_Array_New malloc type a = upb_Array_New_sized malloc 4 (upb_CType_SizeLg2 type) a"

definition upb_Array_Size :: "upb_cell \<Rightarrow> ('e, nat) res" where
  "upb_Array_Size arr = (case arr of CellArr _ _ xs _ \<Rightarrow> Ret (length xs) | _ \<Rightarrow> Fault)"

definition upb_Array_Get :: "upb_cell \<Rightarrow> nat \<Rightarrow> ('e, upb_cell) res" where
  "upb_Array_Get arr i = (case arr of CellArr _ _ xs _ \<Rightarrow> rd xs i | _ \<Rightarrow> Fault)"

definition upb_Array_Set :: "upb_cell \<Rightarrow> nat \<Rightarrow> upb_cell \<Rightarrow> ('e, upb_cell) res" where
  "upb_Array_Set arr i v =
     (case arr of
        CellArr frozen lg2 xs spare \<Rightarrow>
          if frozen \<or> length xs \<le> i then Fault else Ret (CellArr frozen lg2 (xs[i := v]) spare)
      | _ \<Rightarrow> Fault)"

text \<open>The loop \<^verbatim>\<open>while (new_capacity < min_capacity) new_capacity *= 2\<close>, which starts at 4 or more.\<close>

function grow_capacity :: "nat \<Rightarrow> nat \<Rightarrow> nat" where
  "grow_capacity new_capacity min_capacity =
     (if 0 < new_capacity \<and> new_capacity < min_capacity
      then grow_capacity (new_capacity * 2) min_capacity else new_capacity)"
  by pat_completeness auto
termination
  by (relation "measure (\<lambda>(n, m). m - n)") auto

declare grow_capacity.simps [simp del]

text \<open>
  \<^verbatim>\<open>_upb_Array_Realloc\<close>. The sizes are computed at the width of \<^verbatim>\<open>size_t\<close>: a capacity whose bytes do not fit
  would leave the array with less memory than its capacity says (and the doubling of a minimum above
  \<open>2 ^ 63\<close> would not end), which the model reports as \<open>Fault\<close>.
\<close>

definition upb_Array_Realloc ::
  "'a realloc \<Rightarrow> upb_cell \<Rightarrow> nat \<Rightarrow> 'a \<Rightarrow> ('e, bool \<times> upb_cell \<times> 'a) res" where
  "upb_Array_Realloc realloc arr min_capacity a =
     (case arr of
        CellArr frozen lg2 xs spare \<Rightarrow>
          let capacity = length xs + length spare;
              new_capacity = grow_capacity (max capacity 4) min_capacity
          in if 2 ^ 64 \<le> new_capacity * 2 ^ lg2 then Fault
             else (case realloc a (capacity * 2 ^ lg2) (new_capacity * 2 ^ lg2) of
                     None \<Rightarrow> Ret (False, arr, a)
                   | Some (a', _) \<Rightarrow>
                       Ret (True, CellArr False lg2 xs (spare @ replicate (new_capacity - capacity) Undef), a'))
      | _ \<Rightarrow> Fault)"

definition upb_Array_Reserve ::
  "'a realloc \<Rightarrow> upb_cell \<Rightarrow> nat \<Rightarrow> 'a \<Rightarrow> ('e, bool \<times> upb_cell \<times> 'a) res" where
  "upb_Array_Reserve realloc arr sz a =
     (case arr of
        CellArr frozen lg2 xs spare \<Rightarrow>
          if frozen then Fault
          else if length xs + length spare < sz then upb_Array_Realloc realloc arr sz a
          else Ret (True, arr, a)
      | _ \<Rightarrow> Fault)"

text \<open>\<^verbatim>\<open>arr->size = n\<close>: the first \<open>n\<close> cells are in use.\<close>

definition arr_set_size :: "upb_cell \<Rightarrow> nat \<Rightarrow> ('e, upb_cell) res" where
  "arr_set_size arr n =
     (case arr of
        CellArr frozen lg2 xs spare \<Rightarrow>
          if length xs + length spare < n then Fault
          else Ret (CellArr frozen lg2 (take n (xs @ spare)) (drop n (xs @ spare)))
      | _ \<Rightarrow> Fault)"

definition upb_Array_ResizeUninitialized ::
  "'a realloc \<Rightarrow> upb_cell \<Rightarrow> nat \<Rightarrow> 'a \<Rightarrow> ('e, bool \<times> upb_cell \<times> 'a) res" where
  "upb_Array_ResizeUninitialized realloc arr sz a =
     bindR (upb_Array_Reserve realloc arr sz a) (\<lambda>(ok, arr1, a1).
       if \<not> ok then Ret (False, arr1, a1)
       else bindR (arr_set_size arr1 sz) (\<lambda>arr2. Ret (True, arr2, a1)))"

definition upb_Array_Append ::
  "'a realloc \<Rightarrow> upb_cell \<Rightarrow> upb_cell \<Rightarrow> 'a \<Rightarrow> ('e, bool \<times> upb_cell \<times> 'a) res" where
  "upb_Array_Append realloc arr v a =
     bindR (upb_Array_Size arr) (\<lambda>n.
     bindR (upb_Array_ResizeUninitialized realloc arr (n + 1) a) (\<lambda>(ok, arr1, a1).
       if \<not> ok then Ret (False, arr1, a1)
       else bindR (upb_Array_Set arr1 n v) (\<lambda>arr2. Ret (True, arr2, a1))))"

text \<open>\<^verbatim>\<open>memmove\<close> within the memory of the array.\<close>

definition list_move :: "'x list \<Rightarrow> nat \<Rightarrow> nat \<Rightarrow> nat \<Rightarrow> 'x list" where
  "list_move xs dst src n = take dst xs @ take n (drop src xs) @ drop (dst + n) xs"

definition upb_Array_Move :: "upb_cell \<Rightarrow> nat \<Rightarrow> nat \<Rightarrow> nat \<Rightarrow> ('e, upb_cell) res" where
  "upb_Array_Move arr dst_idx src_idx n =
     (case arr of
        CellArr frozen lg2 xs spare \<Rightarrow>
          if frozen \<or> length xs + length spare < dst_idx + n \<or> length xs + length spare < src_idx + n then Fault
          else let mem = list_move (xs @ spare) dst_idx src_idx n
               in Ret (CellArr frozen lg2 (take (length xs) mem) (drop (length xs) mem))
      | _ \<Rightarrow> Fault)"

definition upb_Array_Insert ::
  "'a realloc \<Rightarrow> upb_cell \<Rightarrow> nat \<Rightarrow> nat \<Rightarrow> 'a \<Rightarrow> ('e, bool \<times> upb_cell \<times> 'a) res" where
  "upb_Array_Insert realloc arr i n a =
     bindR (upb_Array_Size arr) (\<lambda>oldsize.
       if oldsize < i then Fault
       else bindR (upb_Array_ResizeUninitialized realloc arr (oldsize + n) a) (\<lambda>(ok, arr1, a1).
         if \<not> ok then Ret (False, arr1, a1)
         else bindR (upb_Array_Move arr1 (i + n) i (oldsize - i)) (\<lambda>arr2. Ret (True, arr2, a1))))"

definition upb_Array_Delete :: "upb_cell \<Rightarrow> nat \<Rightarrow> nat \<Rightarrow> ('e, upb_cell) res" where
  "upb_Array_Delete arr i n =
     bindR (upb_Array_Size arr) (\<lambda>sz.
       if sz < i + n then Fault
       else bindR (upb_Array_Move arr i (i + n) (sz - (i + n))) (\<lambda>arr1. arr_set_size arr1 (sz - n)))"

definition upb_Array_Resize ::
  "'a realloc \<Rightarrow> upb_cell \<Rightarrow> nat \<Rightarrow> 'a \<Rightarrow> ('e, bool \<times> upb_cell \<times> 'a) res" where
  "upb_Array_Resize realloc arr sz a =
     bindR (upb_Array_Size arr) (\<lambda>oldsize.
     bindR (upb_Array_ResizeUninitialized realloc arr sz a) (\<lambda>(ok, arr1, a1).
       if \<not> ok then Ret (False, arr1, a1)
       else case arr1 of
           CellArr frozen lg2 xs spare \<Rightarrow>
             Ret (True, CellArr frozen lg2 (take oldsize xs @ replicate (length xs - oldsize) Zero) spare, a1)
         | _ \<Rightarrow> Fault))"

section \<open>The sequence of elements\<close>

definition arr_elems :: "upb_cell \<Rightarrow> upb_cell list" where
  "arr_elems arr = (case arr of CellArr _ _ xs _ \<Rightarrow> xs | _ \<Rightarrow> [])"

definition arr_cap :: "upb_cell \<Rightarrow> nat" where
  "arr_cap arr = (case arr of CellArr _ _ xs spare \<Rightarrow> length xs + length spare | _ \<Rightarrow> 0)"

text \<open>An array that may be changed: not frozen, with an element size the tagged pointer can hold.\<close>

definition arr_ok :: "nat \<Rightarrow> upb_cell \<Rightarrow> bool" where
  "arr_ok l arr \<longleftrightarrow> (case arr of CellArr frozen lg2 xs spare \<Rightarrow> \<not> frozen \<and> lg2 = l \<and> l \<noteq> 1 \<and> l \<le> 4 | _ \<Rightarrow> False)"

lemma arr_okE:
  assumes "arr_ok l arr"
  obtains xs spare where "arr = CellArr False l xs spare" "l \<noteq> 1" "l \<le> 4"
  using assms by (cases arr) (auto simp: arr_ok_def)

lemma grow_capacity_bounds:
  "0 < c \<Longrightarrow> m \<le> grow_capacity c m \<and> c \<le> grow_capacity c m \<and> grow_capacity c m \<le> max c (2 * m)"
proof (induction c m rule: grow_capacity.induct)
  case (1 c m)
  have step: "grow_capacity c m = (if c < m then grow_capacity (c * 2) m else c)"
    using 1(2) by (subst grow_capacity.simps) simp
  show ?case using 1 unfolding step by (cases "c < m") auto
qed

text \<open>Sizes below \<open>2 ^ 58\<close> elements of at most 16 bytes do not reach the end of \<^verbatim>\<open>size_t\<close>.\<close>

lemma reserve_law:
  assumes "arr_ok l arr" and "n < 2 ^ 58" and "arr_cap arr < 2 ^ 59"
  obtains ok arr' a' where "upb_Array_Reserve realloc arr n a = (Ret (ok, arr', a') :: ('e, _) res)"
    "arr_ok l arr'" "arr_elems arr' = arr_elems arr" "ok \<Longrightarrow> n \<le> arr_cap arr'" "arr_cap arr \<le> arr_cap arr'"
    "arr_cap arr' \<le> max (max (arr_cap arr) 4) (2 * n)" "ok \<or> arr_cap arr < n"
proof -
  obtain xs spare where arr: "arr = CellArr False l xs spare" and l: "l \<noteq> 1" "l \<le> 4" using assms(1) by (rule arr_okE)
  let ?c = "length xs + length spare"
  let ?n = "grow_capacity (max ?c 4) n"
  have cap: "arr_cap arr = ?c" using arr by (simp add: arr_cap_def)
  have g: "n \<le> ?n" "max ?c 4 \<le> ?n" "?n \<le> max (max ?c 4) (2 * n)"
    using grow_capacity_bounds [of "max ?c 4" n] by auto
  have "2 ^ l \<le> (2 ^ 4 :: nat)" using l(2) by (intro power_increasing) auto
  then have "2 ^ l \<le> (16 :: nat)" by simp
  then have "?n * 2 ^ l \<le> ?n * 16" by (rule mult_le_mono2)
  moreover have "?n * 16 < 2 ^ 59 * 16" using g(3) assms(2,3) cap by auto
  ultimately have "?n * 2 ^ l < 2 ^ 59 * 16" by (rule le_less_trans)
  then have fits: "\<not> 2 ^ 64 \<le> ?n * 2 ^ l" by simp
  show thesis
  proof (cases "?c < n")
    case False
    then show thesis using that [of True arr a] arr assms(1) cap by (simp add: upb_Array_Reserve_def)
  next
    case True
    show thesis
    proof (cases "realloc a (?c * 2 ^ l) (?n * 2 ^ l)")
      case None
      then show thesis using that [of False arr a] arr assms(1) cap True fits
        by (simp add: upb_Array_Reserve_def upb_Array_Realloc_def)
    next
      case (Some p)
      obtain a' fresh where p: "p = (a', fresh)" by (cases p)
      let ?arr' = "CellArr False l xs (spare @ replicate (?n - ?c) Undef)"
      have "arr_cap ?arr' = ?n" using g(2) by (simp add: arr_cap_def)
      then show thesis using that [of True ?arr' a'] arr True fits Some p g cap l
        by (simp add: upb_Array_Reserve_def upb_Array_Realloc_def arr_ok_def arr_elems_def Let_def)
    qed
  qed
qed

lemma resize_uninit_law:
  assumes "arr_ok l arr" and "n < 2 ^ 58" and "arr_cap arr < 2 ^ 59"
  obtains ok arr' a' where "upb_Array_ResizeUninitialized realloc arr n a = (Ret (ok, arr', a') :: ('e, _) res)"
    "arr_ok l arr'" "\<not> ok \<Longrightarrow> arr_elems arr' = arr_elems arr"
    "ok \<Longrightarrow> length (arr_elems arr') = n" "ok \<Longrightarrow> take n (arr_elems arr) = take (length (arr_elems arr)) (arr_elems arr')"
    "arr_cap arr \<le> arr_cap arr'" "arr_cap arr' \<le> max (max (arr_cap arr) 4) (2 * n)" "ok \<or> arr_cap arr < n"
proof -
  obtain ok arr1 a1 where r: "upb_Array_Reserve realloc arr n a = (Ret (ok, arr1, a1) :: ('e, _) res)"
    "arr_ok l arr1" "arr_elems arr1 = arr_elems arr" "ok \<Longrightarrow> n \<le> arr_cap arr1" "arr_cap arr \<le> arr_cap arr1"
    "arr_cap arr1 \<le> max (max (arr_cap arr) 4) (2 * n)" "ok \<or> arr_cap arr < n"
    using reserve_law [OF assms, where 'e = 'e] by metis
  obtain xs spare where arr1: "arr1 = CellArr False l xs spare" and l: "l \<noteq> 1" "l \<le> 4" using r(2) by (rule arr_okE)
  show thesis
  proof (cases ok)
    case False
    then show thesis using that [of False arr1 a1] r by (simp add: upb_Array_ResizeUninitialized_def)
  next
    case True
    let ?arr' = "CellArr False l (take n (xs @ spare)) (drop n (xs @ spare))"
    have n: "n \<le> length xs + length spare" using r(4) True arr1 by (simp add: arr_cap_def)
    have xs: "arr_elems arr = xs" using r(3) arr1 by (simp add: arr_elems_def)
    have cap: "arr_cap ?arr' = arr_cap arr1" using n arr1 by (auto simp: arr_cap_def)
    have pre: "take (length xs) (take n (xs @ spare)) = take n xs"
      by (cases "n \<le> length xs") (simp_all add: min_def)
    show thesis
    proof (rule that [of True ?arr' a1])
      show "upb_Array_ResizeUninitialized realloc arr n a = (Ret (True, ?arr', a1) :: ('e, _) res)"
        using r(1) True arr1 n by (simp add: upb_Array_ResizeUninitialized_def arr_set_size_def)
    next
      show "take n (arr_elems arr) = take (length (arr_elems arr)) (arr_elems ?arr')"
        using pre xs by (simp add: arr_elems_def)
    qed (use r cap l n in \<open>simp_all add: arr_ok_def arr_elems_def\<close>)
  qed
qed

lemma append_law:
  assumes "arr_ok l arr" and "length (arr_elems arr) < 2 ^ 58 - 1" and "arr_cap arr < 2 ^ 59"
  obtains ok arr' a' where "upb_Array_Append realloc arr v a = (Ret (ok, arr', a') :: ('e, _) res)"
    "arr_ok l arr'" "arr_elems arr' = (if ok then arr_elems arr @ [v] else arr_elems arr)"
    "arr_cap arr' \<le> max (max (arr_cap arr) 4) (2 * (length (arr_elems arr) + 1))"
proof -
  obtain xs spare where arr: "arr = CellArr False l xs spare" using assms(1) by (rule arr_okE)
  have n: "Suc (length xs) < 2 ^ 58" using assms(2) arr by (simp add: arr_elems_def)
  obtain ok arr1 a1 where r:
    "upb_Array_ResizeUninitialized realloc arr (Suc (length xs)) a = (Ret (ok, arr1, a1) :: ('e, _) res)" "arr_ok l arr1"
    "\<not> ok \<Longrightarrow> arr_elems arr1 = arr_elems arr" "ok \<Longrightarrow> length (arr_elems arr1) = Suc (length xs)"
    "ok \<Longrightarrow> take (Suc (length xs)) (arr_elems arr) = take (length (arr_elems arr)) (arr_elems arr1)"
    "arr_cap arr1 \<le> max (max (arr_cap arr) 4) (2 * Suc (length xs))"
    using resize_uninit_law [OF assms(1) n assms(3), where 'e = 'e] by metis
  obtain ys spare' where arr1: "arr1 = CellArr False l ys spare'" and l: "l \<noteq> 1" "l \<le> 4" using r(2) by (rule arr_okE)
  have step: "upb_Array_Append realloc arr v a = (if ok then Ret (True, CellArr False l (ys[length xs := v]) spare', a1)
      else Ret (False, arr1, a1) :: ('e, _) res)"
    using r(1,4) arr arr1 by (cases ok) (simp_all add: upb_Array_Append_def upb_Array_Size_def upb_Array_Set_def arr_elems_def)
  show thesis
  proof (cases ok)
    case False
    then show thesis using that [of False arr1 a1] step r(2,3,6) arr by (simp add: arr_elems_def)
  next
    case True
    then have "length ys = Suc (length xs)" "take (length xs) ys = xs"
      using r(4,5) arr arr1 by (simp_all add: arr_elems_def)
    then have "ys[length xs := v] = xs @ [v]"
      by (metis append_take_drop_id Cons_nth_drop_Suc drop_all le_refl lessI list_update_length)
    then show thesis using that [of True "CellArr False l (xs @ [v]) spare'" a1] step True r(6) arr arr1 l \<open>length ys = _\<close>
      by (simp add: arr_ok_def arr_elems_def arr_cap_def)
  qed
qed

lemma insert_law:
  assumes "arr_ok l arr" and "length (arr_elems arr) + n < 2 ^ 58" and "arr_cap arr < 2 ^ 59"
    and i: "i \<le> length (arr_elems arr)"
  obtains ok arr' a' where "upb_Array_Insert realloc arr i n a = (Ret (ok, arr', a') :: ('e, _) res)" "arr_ok l arr'"
    "\<not> ok \<Longrightarrow> arr_elems arr' = arr_elems arr"
    "ok \<Longrightarrow> \<exists>gap. length gap = n \<and> arr_elems arr' = take i (arr_elems arr) @ gap @ drop i (arr_elems arr)"
proof -
  obtain xs spare where arr: "arr = CellArr False l xs spare" using assms(1) by (rule arr_okE)
  have xs: "arr_elems arr = xs" using arr by (simp add: arr_elems_def)
  obtain ok arr1 a1 where r:
    "upb_Array_ResizeUninitialized realloc arr (length xs + n) a = (Ret (ok, arr1, a1) :: ('e, _) res)" "arr_ok l arr1"
    "\<not> ok \<Longrightarrow> arr_elems arr1 = arr_elems arr" "ok \<Longrightarrow> length (arr_elems arr1) = length xs + n"
    "ok \<Longrightarrow> take (length xs + n) (arr_elems arr) = take (length (arr_elems arr)) (arr_elems arr1)"
    using resize_uninit_law [OF assms(1) assms(2) [unfolded xs] assms(3), where 'e = 'e] by metis
  obtain ys spare' where arr1: "arr1 = CellArr False l ys spare'" and l: "l \<noteq> 1" "l \<le> 4" using r(2) by (rule arr_okE)
  show thesis
  proof (cases ok)
    case False
    then show thesis using that [of False arr1 a1] r(1,2,3) arr xs i
      by (simp add: upb_Array_Insert_def upb_Array_Size_def)
  next
    case True
    have len: "length ys = length xs + n" and pre: "take (length xs) ys = xs"
      using r(4,5) True xs arr1 by (simp_all add: arr_elems_def)
    let ?mem = "list_move (ys @ spare') (i + n) i (length xs - i)"
    let ?arr' = "CellArr False l (take (length ys) ?mem) (drop (length ys) ?mem)"
    have "take (length xs - i) (drop i (ys @ spare')) = drop i xs"
      using pre len i xs by (metis append_eq_append_conv_if drop_append length_drop length_take drop_take le_add1 min.absorb2
          take_append diff_is_0_eq' drop0 take_0 append_Nil2 diff_diff_cancel)
    then have mem: "?mem = take (i + n) ys @ drop i xs @ drop (i + n + (length xs - i)) (ys @ spare')"
      using len i xs by (simp add: list_move_def)
    have elems: "take (length ys) ?mem = take i xs @ take n (drop i ys) @ drop i xs"
    proof -
      have "take (i + n) ys = take i xs @ take n (drop i ys)"
        using pre i xs by (metis take_add take_take min.absorb2 min.commute)
      then show ?thesis using mem len i xs by simp
    qed
    have "upb_Array_Insert realloc arr i n a = (Ret (True, ?arr', a1) :: ('e, _) res)"
      using r(1) True arr arr1 xs i len by (simp add: upb_Array_Insert_def upb_Array_Size_def upb_Array_Move_def Let_def)
    moreover have "length (take n (drop i ys)) = n" using len i xs by simp
    ultimately show thesis using that [of True ?arr' a1] elems l xs by (auto simp: arr_ok_def arr_elems_def)
  qed
qed

lemma delete_law:
  assumes "arr_ok l arr" and "i + n \<le> length (arr_elems arr)"
  shows "\<exists>arr'. upb_Array_Delete arr i n = (Ret arr' :: ('e, _) res) \<and> arr_ok l arr'
    \<and> arr_elems arr' = take i (arr_elems arr) @ drop (i + n) (arr_elems arr) \<and> arr_cap arr' = arr_cap arr"
proof -
  obtain xs spare where arr: "arr = CellArr False l xs spare" and l: "l \<noteq> 1" "l \<le> 4" using assms(1) by (rule arr_okE)
  have le: "i + n \<le> length xs" using assms(2) arr by (simp add: arr_elems_def)
  let ?mem = "list_move (xs @ spare) i (i + n) (length xs - (i + n))"
  let ?arr' = "CellArr False l (take (length xs - n) ?mem) (drop (length xs - n) ?mem)"
  have len: "length ?mem = length xs + length spare" using le by (simp add: list_move_def)
  have elems: "take (length xs - n) ?mem = take i xs @ drop (i + n) xs" using le by (simp add: list_move_def)
  have "upb_Array_Delete arr i n = (Ret ?arr' :: ('e, _) res)"
    using arr le len by (simp add: upb_Array_Delete_def upb_Array_Size_def upb_Array_Move_def arr_set_size_def Let_def)
  then show ?thesis using elems l arr le len by (auto simp: arr_ok_def arr_elems_def arr_cap_def)
qed

lemma resize_law:
  assumes "arr_ok l arr" and "n < 2 ^ 58" and "arr_cap arr < 2 ^ 59"
  obtains ok arr' a' where "upb_Array_Resize realloc arr n a = (Ret (ok, arr', a') :: ('e, _) res)" "arr_ok l arr'"
    "arr_elems arr' = (if ok then take n (arr_elems arr) @ replicate (n - length (arr_elems arr)) Zero else arr_elems arr)"
proof -
  obtain xs spare where arr: "arr = CellArr False l xs spare" using assms(1) by (rule arr_okE)
  have xs: "arr_elems arr = xs" using arr by (simp add: arr_elems_def)
  obtain ok arr1 a1 where r:
    "upb_Array_ResizeUninitialized realloc arr n a = (Ret (ok, arr1, a1) :: ('e, _) res)" "arr_ok l arr1"
    "\<not> ok \<Longrightarrow> arr_elems arr1 = arr_elems arr" "ok \<Longrightarrow> length (arr_elems arr1) = n"
    "ok \<Longrightarrow> take n (arr_elems arr) = take (length (arr_elems arr)) (arr_elems arr1)"
    using resize_uninit_law [OF assms, where 'e = 'e] by metis
  obtain ys spare' where arr1: "arr1 = CellArr False l ys spare'" and l: "l \<noteq> 1" "l \<le> 4" using r(2) by (rule arr_okE)
  have "upb_Array_Resize realloc arr n a = (if ok
      then Ret (True, CellArr False l (take (length xs) ys @ replicate (length ys - length xs) Zero) spare', a1)
      else Ret (False, arr1, a1) :: ('e, _) res)"
    using r(1) arr arr1 by (simp add: upb_Array_Resize_def upb_Array_Size_def)
  then show thesis using that [of ok _ a1] r(2-5) xs arr1 l
    by (cases ok) (simp_all add: arr_ok_def arr_elems_def)
qed

section \<open>Appendable sequences\<close>

text \<open>
  What a client that only adds at the end relies on: an operation that may fail, and that otherwise
  extends a sequence by one element. The locale's lemma is about adding a whole list.
\<close>

fun append_all :: "('x \<Rightarrow> 's \<Rightarrow> 's option) \<Rightarrow> 'x list \<Rightarrow> 's \<Rightarrow> 's option" where
  "append_all app [] s = Some s"
| "append_all app (x # xs) s = (case app x s of None \<Rightarrow> None | Some s' \<Rightarrow> append_all app xs s')"

locale appendable =
  fixes app :: "'x \<Rightarrow> 's \<Rightarrow> 's option" and elems :: "'s \<Rightarrow> 'x list" and inv :: "'s \<Rightarrow> bool" and limit :: nat
  assumes app_law: "inv s \<Longrightarrow> length (elems s) < limit \<Longrightarrow> app x s = Some s' \<Longrightarrow> inv s' \<and> elems s' = elems s @ [x]"
begin

lemma append_all_law:
  "inv s \<Longrightarrow> length (elems s) + length xs \<le> limit \<Longrightarrow> append_all app xs s = Some s' \<Longrightarrow>
     inv s' \<and> elems s' = elems s @ xs"
proof (induction xs arbitrary: s)
  case (Cons x xs)
  then obtain s1 where s1: "app x s = Some s1" "append_all app xs s1 = Some s'" by (auto split: option.splits)
  with Cons.prems app_law [of s x s1] have "inv s1" "elems s1 = elems s @ [x]" by auto
  with Cons.IH [of s1] Cons.prems s1(2) show ?case by auto
qed simp

end

definition array_append :: "'a realloc \<Rightarrow> upb_cell \<Rightarrow> upb_cell \<times> 'a \<Rightarrow> (upb_cell \<times> 'a) option" where
  "array_append realloc v s =
     (case upb_Array_Append realloc (fst s) v (snd s) :: (unit, _) res of
        Ret (ok, arr, a) \<Rightarrow> if ok then Some (arr, a) else None
      | _ \<Rightarrow> None)"

definition array_inv :: "nat \<Rightarrow> upb_cell \<times> 'a \<Rightarrow> bool" where
  "array_inv l s \<longleftrightarrow> arr_ok l (fst s) \<and> arr_cap (fst s) < 2 ^ 59"

interpretation arrays: appendable "array_append realloc" "\<lambda>s. arr_elems (fst s)" "array_inv l" "2 ^ 57"
proof unfold_locales
  fix s s' :: "upb_cell \<times> 'a" and v
  assume inv: "array_inv l s" and len: "length (arr_elems (fst s)) < 2 ^ 57" and s': "array_append realloc v s = Some s'"
  have ok: "arr_ok l (fst s)" "length (arr_elems (fst s)) < 2 ^ 58 - 1" "arr_cap (fst s) < 2 ^ 59"
    using inv len by (simp_all add: array_inv_def)
  obtain ok arr' a' where r: "upb_Array_Append realloc (fst s) v (snd s) = (Ret (ok, arr', a') :: (unit, _) res)"
    "arr_ok l arr'" "arr_elems arr' = (if ok then arr_elems (fst s) @ [v] else arr_elems (fst s))"
    "arr_cap arr' \<le> max (max (arr_cap (fst s)) 4) (2 * (length (arr_elems (fst s)) + 1))"
    using append_law [OF ok, where 'e = unit] by metis
  with s' inv len show "array_inv l s' \<and> arr_elems (fst s') = arr_elems (fst s) @ [v]"
    by (auto simp: array_append_def array_inv_def split: if_splits)
qed

text \<open>The slots of a message in use fit its capacity, and a message without slot array uses none.\<close>

definition slots_ok :: "upb_Message \<Rightarrow> bool" where
  "slots_ok msg \<longleftrightarrow> \<not> msg_frozen msg \<and> length (msg_aux msg) \<le> msg_cap msg"

lemma RoundUp_ge: "n \<le> upb_RoundUpToPowerOfTwo n"
  using upb_Log2Ceiling_spec(1) by (simp add: upb_RoundUpToPowerOfTwo_def)

lemma reserve_slot_law:
  assumes "slots_ok msg"
  obtains ok msg' a' where "upb_Message_ReserveSlot malloc realloc msg a = (Ret (ok, msg', a') :: ('e, _) res)"
    "slots_ok msg'" "msg_aux msg' = msg_aux msg" "msg_mem msg' = msg_mem msg" "ok \<Longrightarrow> length (msg_aux msg') < msg_cap msg'"
proof (cases "upb_Message_ReserveSlot malloc realloc msg a :: ('e, _) res")
  case (Ret r)
  obtain ok msg' a' where "r = (ok, msg', a')" by (cases r)
  with Ret assms RoundUp_ge [of "Suc (length (msg_aux msg))"] show thesis
    by (intro that [of ok msg' a'])
      (auto simp: upb_Message_ReserveSlot_def slots_ok_def msg_with_cap_def Let_def split: if_splits option.splits)
qed (use assms RoundUp_ge [of "Suc (length (msg_aux msg))"] in
  \<open>auto simp: upb_Message_ReserveSlot_def slots_ok_def Let_def Suc_le_eq split: if_splits option.splits\<close>)

lemma aux_unknown_append [simp]: "aux_unknown (xs @ ys) = aux_unknown xs @ aux_unknown ys"
  by (induction xs rule: aux_unknown.induct) auto

lemma add_unknown_law:
  assumes "slots_ok msg"
  obtains ok msg' a' where "upb_Message_AddUnknown malloc realloc msg data aliased a = (Ret (ok, msg', a') :: ('e, _) res)"
    "slots_ok msg'" "msg_mem msg' = msg_mem msg"
    "msg_aux msg' = (if ok then msg_aux msg @ [AuxUnknown data] else msg_aux msg)"
proof -
  obtain ok msg1 a1 where r: "upb_Message_ReserveSlot malloc realloc msg a = (Ret (ok, msg1, a1) :: ('e, _) res)"
    "slots_ok msg1" "msg_aux msg1 = msg_aux msg" "msg_mem msg1 = msg_mem msg" "ok \<Longrightarrow> length (msg_aux msg1) < msg_cap msg1"
    using reserve_slot_law [OF assms, where 'e = 'e] by metis
  let ?m = "malloc a1 (if aliased then 16 else 16 + length data)"
  have step: "(upb_Message_AddUnknown malloc realloc msg data aliased a :: ('e, _) res) =
      (if \<not> ok then Ret (False, msg1, a1)
       else case ?m of None \<Rightarrow> Ret (False, msg1, a1)
         | Some a2 \<Rightarrow> Ret (True, msg_add_slot msg1 (AuxUnknown data), a2))"
    using r(1) by (simp add: upb_Message_AddUnknown_def)
  show thesis
  proof (cases "ok \<and> ?m \<noteq> None")
    case True
    then obtain a2 where "?m = Some a2" by auto
    with True step r show thesis using that [of True "msg_add_slot msg1 (AuxUnknown data)" a2]
      by (simp add: slots_ok_def msg_add_slot_def)
  next
    case False
    with step r show thesis using that [of False msg1 a1] by (cases ok) (auto split: option.splits)
  qed
qed

definition unknown_append ::
  "'a alloc \<Rightarrow> 'a realloc \<Rightarrow> bool \<Rightarrow> bytes \<Rightarrow> upb_Message \<times> 'a \<Rightarrow> (upb_Message \<times> 'a) option" where
  "unknown_append malloc realloc aliased data s =
     (case upb_Message_AddUnknown malloc realloc (fst s) data aliased (snd s) :: (unit, _) res of
        Ret (ok, msg, a) \<Rightarrow> if ok then Some (msg, a) else None
      | _ \<Rightarrow> None)"

interpretation unknowns: appendable "unknown_append malloc realloc aliased" "\<lambda>s. msg_unknown (fst s)"
  "\<lambda>s. slots_ok (fst s)" limit
proof unfold_locales
  fix s s' :: "upb_Message \<times> 'a" and data
  assume inv: "slots_ok (fst s)" and s': "unknown_append malloc realloc aliased data s = Some s'"
  obtain ok msg' a' where r: "upb_Message_AddUnknown malloc realloc (fst s) data aliased (snd s) = (Ret (ok, msg', a') :: (unit, _) res)"
    "slots_ok msg'" "msg_aux msg' = (if ok then msg_aux (fst s) @ [AuxUnknown data] else msg_aux (fst s))"
    using add_unknown_law [OF inv, where 'e = unit] by metis
  with s' show "slots_ok (fst s') \<and> msg_unknown (fst s') = msg_unknown (fst s) @ [data]"
    by (auto simp: unknown_append_def msg_unknown_def split: if_splits)
qed

section \<open>Properties\<close>


definition two_cells :: upb_cell where
  "two_cells = CellArr False 2 [Cell4 1, Cell4 2] [Undef, Undef]"

lemma two_cells_sel: "arr_ok 2 two_cells" "arr_elems two_cells = [Cell4 1, Cell4 2]" "arr_cap two_cells = 4"
  by (simp_all add: two_cells_def arr_ok_def arr_elems_def arr_cap_def)




text \<open>
  Unknown fields accumulate in order: adding strings one after another, however often the slot array
  has to grow, makes the unknown fields of a message the old ones followed by the new ones; appending
  values to an array one after another does the same to its elements.
\<close>

theorem unknown_fields_accumulate:
  assumes "slots_ok msg" and "append_all (unknown_append malloc realloc aliased) us (msg, a) = Some (msg', a')"
    and "array_inv l (arr, b)" and "length (arr_elems arr) + length vs \<le> 2 ^ 57"
    and "append_all (array_append realloc') vs (arr, b) = Some (arr', b')"
  shows "msg_unknown msg' = msg_unknown msg @ us \<and> slots_ok msg' \<and> arr_elems arr' = arr_elems arr @ vs \<and> array_inv l (arr', b')"
  using arrays.append_all_law [of l "(arr, b)" vs realloc' "(arr', b')"] unknowns.append_all_law [of "(msg, a)" us "length (msg_unknown msg) + length us" malloc realloc "aliased" "(msg', a')"] assms
  by simp

end
