(* ===== verification/Eps_Stream.thy ===== *)
theory Eps_Stream
  imports Wire_Varint Hash_Table
begin

unbundle bit_operations_syntax

text \<open>
  The input stream of \<^verbatim>\<open>upb/wire/eps_copy_input_stream.h\<close>. It lets a parser read 16 bytes ahead without
  a bounds check: the last 16 bytes of the input are parsed from a copy in a patch buffer, which has 16
  zero bytes after them. The theory has the operations of the stream and shows that the parser sees the
  flat input: positions, limits and bytes are those of the original buffer, and a read of up to 16 bytes
  after a successful \<^verbatim>\<open>IsDone\<close> stays within the memory of the stream.
\<close>

section \<open>Definitions\<close>

abbreviation (input) kUpb_EpsCopyInputStream_SlopBytes :: nat where "kUpb_EpsCopyInputStream_SlopBytes \<equiv> 16"

text \<open>
  The stream with the caller's buffer and the buffer that pointers refer to: the caller's, or the patch
  buffer. A pointer is an offset in the current buffer, \<^verbatim>\<open>input_delta\<close> the offset in the caller's buffer
  of the current one. \<^verbatim>\<open>limit\<close> is an \<^verbatim>\<open>int\<close>, relative to \<^verbatim>\<open>end\<close>.
\<close>

record upb_EpsCopyInputStream =
  eps_input :: bytes
  eps_buf :: bytes
  eps_patched :: bool
  eps_end :: nat
  eps_limit_ptr :: int
  eps_delta :: nat
  eps_limit :: int
  eps_error :: bool
  eps_aliasing :: bool

text \<open>The conversion of a pointer difference to \<^verbatim>\<open>int\<close>, and arithmetic in \<^verbatim>\<open>int\<close>, whose overflow is undefined.\<close>

definition narrow32 :: "int \<Rightarrow> int" where
  "narrow32 n = signed_take_bit 31 n"

definition int32_res :: "int \<Rightarrow> ('e, int) res" where
  "int32_res n = (if - (2 ^ 31) \<le> n \<and> n < 2 ^ 31 then Ret n else Fault)"

text \<open>\<^verbatim>\<open>memcpy\<close> of \<open>n\<close> bytes from \<open>p\<close>.\<close>

definition rd_bytes :: "bytes \<Rightarrow> nat \<Rightarrow> nat \<Rightarrow> ('e, bytes) res" where
  "rd_bytes m p n = (if p + n \<le> length m then Ret (take n (drop p m)) else Fault)"

definition upb_EpsCopyInputStream_Init :: "bytes \<Rightarrow> bool \<Rightarrow> upb_EpsCopyInputStream \<times> nat" where
  "upb_EpsCopyInputStream_Init input enable_aliasing =
     (let n = length input in
      (if n \<le> kUpb_EpsCopyInputStream_SlopBytes then
         \<lparr> eps_input = input, eps_buf = input @ replicate (32 - n) 0, eps_patched = True, eps_end = n,
           eps_limit_ptr = int n, eps_delta = 0, eps_limit = 0, eps_error = False, eps_aliasing = enable_aliasing \<rparr>
       else
         \<lparr> eps_input = input, eps_buf = input, eps_patched = False, eps_end = n - kUpb_EpsCopyInputStream_SlopBytes,
           eps_limit_ptr = int (n - kUpb_EpsCopyInputStream_SlopBytes), eps_delta = 0,
           eps_limit = int kUpb_EpsCopyInputStream_SlopBytes, eps_error = False, eps_aliasing = enable_aliasing \<rparr>, 0))"

datatype upb_IsDoneStatus = kUpb_IsDoneStatus_Done | kUpb_IsDoneStatus_NotDone | kUpb_IsDoneStatus_NeedFallback

definition upb_EpsCopyInputStream_IsDoneStatus ::
  "upb_EpsCopyInputStream \<Rightarrow> nat \<Rightarrow> upb_IsDoneStatus \<times> int" where
  "upb_EpsCopyInputStream_IsDoneStatus e ptr =
     (let overrun = narrow32 (int ptr - int (eps_end e)) in
      (if int ptr < eps_limit_ptr e then kUpb_IsDoneStatus_NotDone
       else if overrun = eps_limit e then kUpb_IsDoneStatus_Done
       else kUpb_IsDoneStatus_NeedFallback, overrun))"

text \<open>
  \<^verbatim>\<open>_upb_EpsCopyInputStream_IsDoneFallbackInline\<close>: the pointer the callback receives, \<open>None\<close> for \<^verbatim>\<open>NULL\<close>, and
  the stream. When the stream already reads from the patch buffer, another flip would copy the buffer
  onto itself; lemma \<open>IsDone_flat\<close> shows that it does not come to this.
\<close>

definition upb_EpsCopyInputStream_IsDoneFallbackInline ::
  "upb_EpsCopyInputStream \<Rightarrow> nat \<Rightarrow> int \<Rightarrow> ('e, nat option \<times> upb_EpsCopyInputStream) res" where
  "upb_EpsCopyInputStream_IsDoneFallbackInline e ptr overrun =
     (if overrun < eps_limit e then
        if eps_patched e \<or> \<not> (overrun < 16) \<or> overrun < 0 then Fault
        else bindR (rd_bytes (eps_buf e) (eps_end e) 16) (\<lambda>tail.
          let new_start = nat overrun;
              e' = e\<lparr> eps_buf := tail @ replicate 16 0, eps_patched := True, eps_end := 16,
                     eps_limit := eps_limit e - 16, eps_limit_ptr := 16 + (eps_limit e - 16),
                     eps_delta := eps_delta e + ptr - new_start \<rparr>
          in if int new_start < eps_limit_ptr e' then Ret (Some new_start, e') else Fault)
      else if overrun > eps_limit e then Ret (None, e\<lparr>eps_error := True\<rparr>)
      else Fault)"

text \<open>
  \<^verbatim>\<open>upb_EpsCopyInputStream_IsDoneWithCallback\<close> with the callback as the function that maps its argument to
  the pointer it returns. The result is whether the stream is done, the new pointer (the old one where the
  source has \<^verbatim>\<open>NULL\<close>) and the stream.
\<close>

definition upb_EpsCopyInputStream_IsDoneWithCallback ::
  "(nat option \<Rightarrow> ('e, nat option) res) \<Rightarrow> upb_EpsCopyInputStream \<Rightarrow> nat
     \<Rightarrow> ('e, bool \<times> nat \<times> upb_EpsCopyInputStream) res" where
  "upb_EpsCopyInputStream_IsDoneWithCallback callback e ptr =
     (case upb_EpsCopyInputStream_IsDoneStatus e ptr of
        (kUpb_IsDoneStatus_Done, _) \<Rightarrow> Ret (True, ptr, e)
      | (kUpb_IsDoneStatus_NotDone, _) \<Rightarrow> Ret (False, ptr, e)
      | (kUpb_IsDoneStatus_NeedFallback, overrun) \<Rightarrow>
          bindR (upb_EpsCopyInputStream_IsDoneFallbackInline e ptr overrun) (\<lambda>(new_start, e').
          bindR (callback new_start) (\<lambda>r.
            case r of None \<Rightarrow> Ret (True, ptr, e') | Some p \<Rightarrow> Ret (False, p, e'))))"

text \<open>The callback of \<^verbatim>\<open>eps_copy_input_stream.c\<close>, and that of the decoder, which jumps out of the parse.\<close>

definition upb_EpsCopyInputStream_NoOpCallback :: "nat option \<Rightarrow> ('e, nat option) res" where
  "upb_EpsCopyInputStream_NoOpCallback new_start = Ret new_start"

definition upb_Decoder_BufferFlipCallback :: "nat option \<Rightarrow> (upb_DecodeStatus, nat option) res" where
  "upb_Decoder_BufferFlipCallback new_start =
     (case new_start of None \<Rightarrow> Raise kUpb_DecodeStatus_Malformed | Some p \<Rightarrow> Ret (Some p))"

definition upb_EpsCopyInputStream_IsDone ::
  "upb_EpsCopyInputStream \<Rightarrow> nat \<Rightarrow> ('e, bool \<times> nat \<times> upb_EpsCopyInputStream) res" where
  "upb_EpsCopyInputStream_IsDone e ptr =
     upb_EpsCopyInputStream_IsDoneWithCallback upb_EpsCopyInputStream_NoOpCallback e ptr"

definition upb_Decoder_IsDone ::
  "upb_EpsCopyInputStream \<Rightarrow> nat \<Rightarrow> (upb_DecodeStatus, bool \<times> nat \<times> upb_EpsCopyInputStream) res" where
  "upb_Decoder_IsDone e ptr =
     upb_EpsCopyInputStream_IsDoneWithCallback upb_Decoder_BufferFlipCallback e ptr"

definition upb_EpsCopyInputStream_IsError :: "upb_EpsCopyInputStream \<Rightarrow> bool" where
  "upb_EpsCopyInputStream_IsError e = eps_error e"

definition upb_EpsCopyInputStream_BytesAvailable :: "upb_EpsCopyInputStream \<Rightarrow> nat \<Rightarrow> int" where
  "upb_EpsCopyInputStream_BytesAvailable e ptr = (int (eps_end e) - int ptr) + 16"

definition upb_EpsCopyInputStream_CheckSize :: "upb_EpsCopyInputStream \<Rightarrow> nat \<Rightarrow> nat \<Rightarrow> bool" where
  "upb_EpsCopyInputStream_CheckSize e ptr n \<longleftrightarrow> int ptr - int (eps_end e) + int n \<le> eps_limit e"

text \<open>A negative size wraps around the address space, which the test \<^verbatim>\<open>res >= uptr\<close> catches.\<close>

definition upb_EpsCopyInputStream_CheckSizeAvailable ::
  "upb_EpsCopyInputStream \<Rightarrow> nat \<Rightarrow> int \<Rightarrow> bool \<Rightarrow> bool" where
  "upb_EpsCopyInputStream_CheckSizeAvailable e ptr n submessage \<longleftrightarrow>
     0 \<le> n \<and> int ptr + n \<le> eps_limit_ptr e + (if submessage then 0 else 16)"

definition upb_EpsCopyInputStream_CheckDataSizeAvailable :: "upb_EpsCopyInputStream \<Rightarrow> nat \<Rightarrow> int \<Rightarrow> bool" where
  "upb_EpsCopyInputStream_CheckDataSizeAvailable e ptr n = upb_EpsCopyInputStream_CheckSizeAvailable e ptr n False"

definition upb_EpsCopyInputStream_CheckSubMessageSizeAvailable :: "upb_EpsCopyInputStream \<Rightarrow> nat \<Rightarrow> int \<Rightarrow> bool" where
  "upb_EpsCopyInputStream_CheckSubMessageSizeAvailable e ptr n = upb_EpsCopyInputStream_CheckSizeAvailable e ptr n True"

definition upb_EpsCopyInputStream_AliasingAvailable :: "upb_EpsCopyInputStream \<Rightarrow> nat \<Rightarrow> int \<Rightarrow> bool" where
  "upb_EpsCopyInputStream_AliasingAvailable e ptr n \<longleftrightarrow>
     eps_aliasing e \<and> upb_EpsCopyInputStream_CheckDataSizeAvailable e ptr n"

text \<open>The offset in the caller's buffer that corresponds to a pointer.\<close>

definition upb_EpsCopyInputStream_GetInputPtr :: "upb_EpsCopyInputStream \<Rightarrow> nat \<Rightarrow> nat" where
  "upb_EpsCopyInputStream_GetInputPtr e ptr = ptr + eps_delta e"

definition upb_EpsCopyInputStream_Skip :: "upb_EpsCopyInputStream \<Rightarrow> nat \<Rightarrow> int \<Rightarrow> nat option" where
  "upb_EpsCopyInputStream_Skip e ptr n =
     (if upb_EpsCopyInputStream_CheckDataSizeAvailable e ptr n then Some (ptr + nat n) else None)"

text \<open>The bytes that are copied, and the pointer after them.\<close>

definition upb_EpsCopyInputStream_Copy ::
  "upb_EpsCopyInputStream \<Rightarrow> nat \<Rightarrow> int \<Rightarrow> ('e, (bytes \<times> nat) option) res" where
  "upb_EpsCopyInputStream_Copy e ptr n =
     (if upb_EpsCopyInputStream_CheckDataSizeAvailable e ptr n
      then bindR (rd_bytes (eps_buf e) ptr (nat n)) (\<lambda>data. Ret (Some (data, ptr + nat n)))
      else Ret None)"

text \<open>With aliasing the string is a view of the caller's buffer, otherwise a copy in the arena.\<close>

definition upb_EpsCopyInputStream_ReadString ::
  "'a alloc \<Rightarrow> upb_EpsCopyInputStream \<Rightarrow> nat \<Rightarrow> nat \<Rightarrow> 'a \<Rightarrow> ('e, (bytes \<times> nat \<times> 'a) option) res" where
  "upb_EpsCopyInputStream_ReadString malloc e ptr n a =
     (if upb_EpsCopyInputStream_AliasingAvailable e ptr (int n) then
        bindR (rd_bytes (eps_input e) (upb_EpsCopyInputStream_GetInputPtr e ptr) n) (\<lambda>data. Ret (Some (data, ptr + n, a)))
      else if \<not> upb_EpsCopyInputStream_CheckDataSizeAvailable e ptr (int n) then Ret None
      else case malloc a n of
          None \<Rightarrow> Ret None
        | Some a' \<Rightarrow> bindR (upb_EpsCopyInputStream_Copy e ptr (int n)) (\<lambda>r.
            case r of None \<Rightarrow> Ret None | Some (data, p) \<Rightarrow> Ret (Some (data, p, a'))))"

definition upb_EpsCopyInputStream_CheckLimit :: "upb_EpsCopyInputStream \<Rightarrow> ('e, unit) res" where
  "upb_EpsCopyInputStream_CheckLimit e =
     (if eps_limit_ptr e = int (eps_end e) + min 0 (eps_limit e) then Ret () else Fault)"

definition eps_set_limit :: "upb_EpsCopyInputStream \<Rightarrow> int \<Rightarrow> upb_EpsCopyInputStream" where
  "eps_set_limit e n = e\<lparr>eps_limit := n, eps_limit_ptr := int (eps_end e) + min 0 n\<rparr>"

definition upb_EpsCopyInputStream_PushLimit ::
  "upb_EpsCopyInputStream \<Rightarrow> nat \<Rightarrow> nat \<Rightarrow> ('e, int \<times> upb_EpsCopyInputStream) res" where
  "upb_EpsCopyInputStream_PushLimit e ptr n =
     bindR (int32_res (int n + narrow32 (int ptr - int (eps_end e)))) (\<lambda>limit.
     bindR (int32_res (eps_limit e - limit)) (\<lambda>delta.
     bindR (upb_EpsCopyInputStream_CheckLimit e) (\<lambda>_.
       if limit \<le> eps_limit e then
         let e' = eps_set_limit e limit
         in bindR (upb_EpsCopyInputStream_CheckLimit e') (\<lambda>_. Ret (delta, e'))
       else Fault)))"

definition upb_EpsCopyInputStream_PopLimit ::
  "upb_EpsCopyInputStream \<Rightarrow> nat \<Rightarrow> int \<Rightarrow> ('e, upb_EpsCopyInputStream) res" where
  "upb_EpsCopyInputStream_PopLimit e ptr saved_delta =
     (if int ptr - int (eps_end e) = eps_limit e then
        bindR (upb_EpsCopyInputStream_CheckLimit e) (\<lambda>_.
        bindR (int32_res (eps_limit e + saved_delta)) (\<lambda>limit.
          let e' = eps_set_limit e limit
          in bindR (upb_EpsCopyInputStream_CheckLimit e') (\<lambda>_. Ret e')))
      else Fault)"

text \<open>\<^verbatim>\<open>upb_EpsCopyInputStream_TryParseDelimitedFast\<close>; the parser \<open>func\<close> returns the pointer after the data. \<open>None\<close> is the result \<^verbatim>\<open>false\<close>.\<close>

definition upb_EpsCopyInputStream_TryParseDelimitedFast ::
  "(upb_EpsCopyInputStream \<Rightarrow> nat \<Rightarrow> ('e, nat \<times> upb_EpsCopyInputStream) res) \<Rightarrow> upb_EpsCopyInputStream \<Rightarrow> nat \<Rightarrow> int
     \<Rightarrow> ('e, (nat \<times> upb_EpsCopyInputStream) option) res" where
  "upb_EpsCopyInputStream_TryParseDelimitedFast func e ptr len =
     (if \<not> upb_EpsCopyInputStream_CheckSubMessageSizeAvailable e ptr len then Ret None
      else
        let limit_ptr = int ptr + len;
            e1 = e\<lparr>eps_limit_ptr := limit_ptr, eps_limit := narrow32 (limit_ptr - int (eps_end e))\<rparr>
        in bindR (upb_EpsCopyInputStream_CheckLimit e1) (\<lambda>_.
           bindR (func e1 ptr) (\<lambda>(p, e2).
             let e3 = e2\<lparr>eps_limit_ptr := eps_limit_ptr e, eps_limit := eps_limit e\<rparr>
             in bindR (upb_EpsCopyInputStream_CheckLimit e3) (\<lambda>_. Ret (Some (p, e3))))))"

section \<open>The flat input\<close>

text \<open>
  The position in the caller's buffer, and the position of the current limit. The invariant: the stream
  reads from the caller's buffer up to its last 16 bytes, or from the patch buffer, which holds the rest
  of the input followed by zeros.
\<close>

definition eps_pos :: "upb_EpsCopyInputStream \<Rightarrow> nat \<Rightarrow> nat" where
  "eps_pos e ptr = ptr + eps_delta e"

definition eps_lim :: "upb_EpsCopyInputStream \<Rightarrow> int" where
  "eps_lim e = int (eps_end e) + eps_limit e + int (eps_delta e)"

definition eps_ok :: "upb_EpsCopyInputStream \<Rightarrow> bool" where
  "eps_ok e \<longleftrightarrow>
     length (eps_input e) < 2 ^ 31 \<and> eps_limit_ptr e = int (eps_end e) + min 0 (eps_limit e)
     \<and> 0 \<le> int (eps_end e) + eps_limit e
     \<and> (if eps_patched e then
          eps_end e \<le> 16 \<and> eps_delta e + eps_end e = length (eps_input e)
          \<and> eps_buf e = drop (eps_delta e) (eps_input e) @ replicate (32 - eps_end e) 0 \<and> eps_limit e \<le> 0
        else
          eps_buf e = eps_input e \<and> eps_delta e = 0 \<and> eps_end e + 16 = length (eps_input e) \<and> eps_limit e \<le> 16)"

lemma narrow32_id: "- (2 ^ 31) \<le> n \<Longrightarrow> n < 2 ^ 31 \<Longrightarrow> narrow32 n = n"
  unfolding narrow32_def by (rule signed_take_bit_int_eq_self) simp_all

lemma narrow32_wrap:
  assumes "- (2 ^ 31) - 2 ^ 32 \<le> n" and "n < - (2 ^ 31)"
  shows "narrow32 n = n + 2 ^ 32"
proof -
  have "(n + 2 ^ 31) mod 2 ^ 32 = (n + 2 ^ 31 + 2 ^ 32) mod (2 ^ 32 :: int)" by (simp only: mod_add_self2)
  also have "\<dots> = n + 2 ^ 31 + 2 ^ 32" using assms by (intro mod_pos_pos_trivial) simp_all
  finally show ?thesis by (simp add: narrow32_def signed_take_bit_eq_take_bit_shift take_bit_eq_mod)
qed

lemma eps_okD:
  assumes "eps_ok e"
  shows "length (eps_input e) < 2 ^ 31" "eps_limit_ptr e = int (eps_end e) + min 0 (eps_limit e)"
    "0 \<le> int (eps_end e) + eps_limit e" "eps_lim e \<le> int (length (eps_input e))" "eps_end e + 16 \<le> length (eps_buf e)"
    "int (eps_end e) + eps_limit e \<le> int (length (eps_buf e))" "eps_end e < 2 ^ 31" "eps_limit e \<le> 16"
  using assms by (auto simp: eps_ok_def eps_lim_def split: if_splits)

text \<open>The bytes of the current buffer are those of the input followed by zeros.\<close>

lemma buf_flat:
  assumes "eps_ok e" and "p < length (eps_buf e)"
  shows "eps_buf e ! p = (eps_input e @ replicate 32 0) ! eps_pos e p"
proof (cases "eps_patched e")
  case True
  with assms(1) have e: "eps_end e \<le> 16" "eps_delta e + eps_end e = length (eps_input e)"
    "eps_buf e = drop (eps_delta e) (eps_input e) @ replicate (32 - eps_end e) 0" by (auto simp: eps_ok_def)
  then have len: "length (drop (eps_delta e) (eps_input e)) = eps_end e" by simp
  show ?thesis
  proof (cases "p < eps_end e")
    case True
    with e len show ?thesis by (simp add: nth_append eps_pos_def add.commute)
  next
    case False
    with e len assms(2) show ?thesis by (simp add: nth_append eps_pos_def)
  qed
qed (use assms in \<open>auto simp: eps_ok_def eps_pos_def nth_append\<close>)

lemma eps_Init_ok:
  assumes "length input < 2 ^ 31"
  shows "eps_ok (fst (upb_EpsCopyInputStream_Init input al))"
    and "eps_lim (fst (upb_EpsCopyInputStream_Init input al)) = int (length input)"
    and "eps_pos (fst (upb_EpsCopyInputStream_Init input al)) (snd (upb_EpsCopyInputStream_Init input al)) = 0"
    and "eps_input (fst (upb_EpsCopyInputStream_Init input al)) = input"
  using assms by (auto simp: upb_EpsCopyInputStream_Init_def eps_ok_def eps_lim_def eps_pos_def Let_def)

text \<open>What the stream shows of the flat input, whichever buffer it reads from.\<close>

definition same_input :: "upb_EpsCopyInputStream \<Rightarrow> upb_EpsCopyInputStream \<Rightarrow> bool" where
  "same_input e e' \<longleftrightarrow> eps_input e' = eps_input e \<and> eps_aliasing e' = eps_aliasing e \<and> eps_ok e'"

lemma IsDoneStatus_flat:
  assumes "eps_ok e" and "ptr \<le> length (eps_buf e)"
  shows "upb_EpsCopyInputStream_IsDoneStatus e ptr =
    (if int ptr < eps_limit_ptr e then kUpb_IsDoneStatus_NotDone
     else if int (eps_pos e ptr) = eps_lim e then kUpb_IsDoneStatus_Done else kUpb_IsDoneStatus_NeedFallback,
     int ptr - int (eps_end e))"
proof -
  have "length (eps_buf e) < 2 ^ 31" using assms(1) by (auto simp: eps_ok_def split: if_splits)
  then have "narrow32 (int ptr - int (eps_end e)) = int ptr - int (eps_end e)"
    using assms(2) eps_okD(7) [OF assms(1)] by (intro narrow32_id) auto
  then show ?thesis by (auto simp: upb_EpsCopyInputStream_IsDoneStatus_def eps_pos_def eps_lim_def Let_def)
qed

lemma IsDoneFallback_flip:
  assumes "eps_ok e" and "ptr \<le> length (eps_buf e)" and "\<not> int ptr < eps_limit_ptr e" and "int (eps_pos e ptr) < eps_lim e"
  shows "\<exists>p e'. upb_EpsCopyInputStream_IsDoneFallbackInline e ptr (int ptr - int (eps_end e)) = (Ret (Some p, e') :: ('e, _) res)
    \<and> same_input e e' \<and> eps_pos e' p = eps_pos e ptr \<and> eps_lim e' = eps_lim e \<and> int p < eps_limit_ptr e'"
proof -
  have over: "int ptr - int (eps_end e) < eps_limit e" using assms(4) by (simp add: eps_pos_def eps_lim_def)
  have np: "\<not> eps_patched e"
  proof
    assume "eps_patched e"
    then have "eps_limit e \<le> 0" using assms(1) by (simp add: eps_ok_def)
    then have "eps_limit_ptr e = int (eps_end e) + eps_limit e" using eps_okD(2) [OF assms(1)] by simp
    with over assms(3) show False by simp
  qed
  with assms(1) have e: "eps_buf e = eps_input e" "eps_delta e = 0" "eps_end e + 16 = length (eps_input e)"
    "eps_limit e \<le> 16" "0 \<le> int (eps_end e) + eps_limit e" by (auto simp: eps_ok_def)
  have ge: "eps_end e \<le> ptr"
    using over assms(3) eps_okD(2) [OF assms(1)] by (cases "eps_limit e \<le> 0") auto
  have rd: "rd_bytes (eps_buf e) (eps_end e) 16 = (Ret (drop (eps_end e) (eps_input e)) :: ('e, _) res)"
    using e by (simp add: rd_bytes_def)
  let ?p = "ptr - eps_end e"
  have p: "nat (int ptr - int (eps_end e)) = ?p" "eps_delta e + ptr - ?p = eps_end e" using ge e(2) by auto
  let ?e' = "e\<lparr> eps_buf := drop (eps_end e) (eps_input e) @ replicate 16 0, eps_patched := True, eps_end := 16,
                eps_limit := eps_limit e - 16, eps_limit_ptr := 16 + (eps_limit e - 16), eps_delta := eps_end e \<rparr>"
  have lt: "int ?p < 16 + (eps_limit e - 16)" using over ge by simp
  have "upb_EpsCopyInputStream_IsDoneFallbackInline e ptr (int ptr - int (eps_end e)) = (Ret (Some ?p, ?e') :: ('e, _) res)"
    using over np ge e rd p lt by (simp add: upb_EpsCopyInputStream_IsDoneFallbackInline_def Let_def)
  moreover have "eps_ok ?e'" using e over ge eps_okD(1) [OF assms(1)] by (auto simp: eps_ok_def)
  then have "same_input e ?e'" by (simp add: same_input_def)
  moreover have "eps_pos ?e' ?p = eps_pos e ptr" "eps_lim ?e' = eps_lim e"
    using ge e by (simp_all add: eps_pos_def eps_lim_def)
  ultimately show ?thesis using lt by (intro exI [of _ ?p] exI [of _ ?e']) simp
qed

lemma IsDone_flat:
  assumes "eps_ok e" and "ptr \<le> length (eps_buf e)"
  shows "int (eps_pos e ptr) = eps_lim e \<Longrightarrow> upb_Decoder_IsDone e ptr = Ret (True, ptr, e)"
    and "int (eps_pos e ptr) > eps_lim e \<Longrightarrow> upb_Decoder_IsDone e ptr = Raise kUpb_DecodeStatus_Malformed"
    and "int (eps_pos e ptr) < eps_lim e \<Longrightarrow> \<exists>p e'. upb_Decoder_IsDone e ptr = Ret (False, p, e') \<and> same_input e e'
      \<and> eps_pos e' p = eps_pos e ptr \<and> eps_lim e' = eps_lim e \<and> int p < eps_limit_ptr e'"
proof -
  note st = IsDoneStatus_flat [OF assms] and lp = eps_okD(2) [OF assms(1)]
  note defs = upb_Decoder_IsDone_def upb_EpsCopyInputStream_IsDoneWithCallback_def
  have ge: "\<not> int ptr < eps_limit_ptr e" if "int (eps_pos e ptr) \<ge> eps_lim e"
    using that lp by (simp add: eps_pos_def eps_lim_def)
  show "int (eps_pos e ptr) = eps_lim e \<Longrightarrow> upb_Decoder_IsDone e ptr = Ret (True, ptr, e)"
    using st ge by (simp add: defs)
  show "upb_Decoder_IsDone e ptr = Raise kUpb_DecodeStatus_Malformed" if gt: "int (eps_pos e ptr) > eps_lim e"
    using st ge gt by (simp add: defs upb_EpsCopyInputStream_IsDoneFallbackInline_def upb_Decoder_BufferFlipCallback_def
        eps_pos_def eps_lim_def)
  show "\<exists>p e'. upb_Decoder_IsDone e ptr = Ret (False, p, e') \<and> same_input e e'
      \<and> eps_pos e' p = eps_pos e ptr \<and> eps_lim e' = eps_lim e \<and> int p < eps_limit_ptr e'"
    if lt: "int (eps_pos e ptr) < eps_lim e"
  proof (cases "int ptr < eps_limit_ptr e")
    case True
    with st assms(1) show ?thesis by (simp add: defs same_input_def)
  next
    case False
    from IsDoneFallback_flip [OF assms False lt, where 'e = upb_DecodeStatus] st False lt show ?thesis
      by (auto simp: defs upb_Decoder_BufferFlipCallback_def)
  qed
qed

section \<open>Limits and reads\<close>

lemma CheckSize_flat: "upb_EpsCopyInputStream_CheckSize e ptr n \<longleftrightarrow> int (eps_pos e ptr + n) \<le> eps_lim e"
  by (auto simp: upb_EpsCopyInputStream_CheckSize_def eps_pos_def eps_lim_def)

lemma CheckSize_available:
  assumes "eps_ok e" and "int (eps_pos e ptr + n) \<le> eps_lim e"
  shows "upb_EpsCopyInputStream_CheckDataSizeAvailable e ptr (int n)" and "ptr + n \<le> length (eps_buf e)"
    and "eps_pos e ptr + n \<le> length (eps_input e)"
  using assms eps_okD(2,4,6,8) [OF assms(1)]
  by (auto simp: upb_EpsCopyInputStream_CheckDataSizeAvailable_def upb_EpsCopyInputStream_CheckSizeAvailable_def
      eps_pos_def eps_lim_def)

lemma rd_bytes_flat:
  assumes "eps_ok e" and "int (eps_pos e ptr + n) \<le> eps_lim e"
  shows "rd_bytes (eps_buf e) ptr n = (Ret (take n (drop (eps_pos e ptr) (eps_input e))) :: ('e, _) res)"
proof -
  note len = CheckSize_available(2,3) [OF assms]
  have "take n (drop ptr (eps_buf e)) = take n (drop (eps_pos e ptr) (eps_input e))"
  proof (rule nth_equalityI)
    show "length (take n (drop ptr (eps_buf e))) = length (take n (drop (eps_pos e ptr) (eps_input e)))" using len by simp
    fix i assume "i < length (take n (drop ptr (eps_buf e)))"
    with len have i: "i < n" "ptr + i < length (eps_buf e)" "eps_pos e ptr + i < length (eps_input e)" by auto
    have "eps_pos e (ptr + i) = eps_pos e ptr + i" by (simp add: eps_pos_def)
    with buf_flat [OF assms(1) i(2)] i(3) have "eps_buf e ! (ptr + i) = eps_input e ! (eps_pos e ptr + i)"
      by (simp add: nth_append)
    with i len show "take n (drop ptr (eps_buf e)) ! i = take n (drop (eps_pos e ptr) (eps_input e)) ! i" by simp
  qed
  with len(1) show ?thesis by (simp add: rd_bytes_def)
qed

lemma Copy_flat:
  assumes "eps_ok e" and "int (eps_pos e ptr + n) \<le> eps_lim e"
  shows "upb_EpsCopyInputStream_Copy e ptr (int n)
    = (Ret (Some (take n (drop (eps_pos e ptr) (eps_input e)), ptr + n)) :: ('e, _) res)"
  using CheckSize_available(1) [OF assms] rd_bytes_flat [OF assms, where 'e = 'e]
  by (simp add: upb_EpsCopyInputStream_Copy_def)

lemma ReadString_flat:
  assumes "eps_ok e" and "int (eps_pos e ptr + n) \<le> eps_lim e"
  shows "upb_EpsCopyInputStream_ReadString malloc e ptr n a
    = (case (if eps_aliasing e then Some a else malloc a n) of
         None \<Rightarrow> Ret None
       | Some a' \<Rightarrow> (Ret (Some (take n (drop (eps_pos e ptr) (eps_input e)), ptr + n, a')) :: ('e, _) res))"
proof -
  note av = CheckSize_available [OF assms]
  have "rd_bytes (eps_input e) (upb_EpsCopyInputStream_GetInputPtr e ptr) n
      = (Ret (take n (drop (eps_pos e ptr) (eps_input e))) :: ('e, _) res)"
    using av(3) by (simp add: rd_bytes_def upb_EpsCopyInputStream_GetInputPtr_def eps_pos_def)
  then show ?thesis using av(1) Copy_flat [OF assms, where 'e = 'e]
    by (auto simp: upb_EpsCopyInputStream_ReadString_def upb_EpsCopyInputStream_AliasingAvailable_def split: option.splits)
qed

lemma eps_set_limit_sel [simp]:
  "eps_end (eps_set_limit e n) = eps_end e" "eps_delta (eps_set_limit e n) = eps_delta e"
  "eps_input (eps_set_limit e n) = eps_input e" "eps_buf (eps_set_limit e n) = eps_buf e"
  "eps_patched (eps_set_limit e n) = eps_patched e" "eps_aliasing (eps_set_limit e n) = eps_aliasing e"
  "eps_limit (eps_set_limit e n) = n" "eps_limit_ptr (eps_set_limit e n) = int (eps_end e) + min 0 n"
  "eps_pos (eps_set_limit e n) ptr = eps_pos e ptr"
  by (simp_all add: eps_set_limit_def eps_pos_def)

lemma CheckLimit_ok: "eps_ok e \<Longrightarrow> upb_EpsCopyInputStream_CheckLimit e = Ret ()"
  by (simp add: upb_EpsCopyInputStream_CheckLimit_def eps_ok_def)

lemma PushLimit_flat:
  assumes "eps_ok e" and "int (eps_pos e ptr + n) \<le> eps_lim e"
  shows "\<exists>e'. upb_EpsCopyInputStream_PushLimit e ptr n = (Ret (eps_lim e - eps_lim e', e') :: ('e, _) res)
    \<and> same_input e e' \<and> eps_lim e' = int (eps_pos e ptr + n) \<and> eps_pos e' ptr = eps_pos e ptr \<and> eps_buf e' = eps_buf e"
proof -
  note ok = eps_okD [OF assms(1)]
  let ?l = "int n + (int ptr - int (eps_end e))"
  have le: "?l \<le> eps_limit e" using assms(2) by (simp add: eps_pos_def eps_lim_def)
  have nar: "narrow32 (int ptr - int (eps_end e)) = int ptr - int (eps_end e)"
    using ok(7,8) le by (intro narrow32_id) auto
  have lower: "- int (eps_end e) \<le> ?l" by simp
  have r1: "int32_res ?l = (Ret ?l :: ('e, _) res)" using ok(7,8) le lower by (simp add: int32_res_def)
  have "eps_limit e + int (eps_end e) < 2 ^ 31" using assms(1) by (auto simp: eps_ok_def split: if_splits)
  then have r2: "int32_res (eps_limit e - ?l) = (Ret (eps_limit e - ?l) :: ('e, _) res)"
    using le lower by (simp add: int32_res_def)
  have ok': "eps_ok (eps_set_limit e ?l)"
    using assms(1) le unfolding eps_ok_def eps_set_limit_sel by (auto split: if_splits)
  have "upb_EpsCopyInputStream_PushLimit e ptr n = (Ret (eps_limit e - ?l, eps_set_limit e ?l) :: ('e, _) res)"
    using nar r1 r2 le CheckLimit_ok [OF assms(1), where 'a = 'e] CheckLimit_ok [OF ok', where 'a = 'e]
    by (simp add: upb_EpsCopyInputStream_PushLimit_def)
  moreover have "eps_lim (eps_set_limit e ?l) = int (eps_pos e ptr + n)" by (simp add: eps_lim_def eps_pos_def)
  moreover have "eps_limit e - ?l = eps_lim e - eps_lim (eps_set_limit e ?l)" by (simp add: eps_lim_def)
  ultimately show ?thesis using ok' by (intro exI [of _ "eps_set_limit e ?l"]) (simp add: same_input_def)
qed

lemma PopLimit_flat:
  assumes "eps_ok e" and "int (eps_pos e ptr) = eps_lim e" and "0 \<le> d" and "eps_lim e + d \<le> int (length (eps_input e))"
  shows "\<exists>e'. upb_EpsCopyInputStream_PopLimit e ptr d = (Ret e' :: ('e, _) res) \<and> same_input e e'
    \<and> eps_lim e' = eps_lim e + d \<and> eps_pos e' ptr = eps_pos e ptr \<and> eps_buf e' = eps_buf e"
proof -
  note ok = eps_okD [OF assms(1)]
  have at: "int ptr - int (eps_end e) = eps_limit e" using assms(2) by (simp add: eps_pos_def eps_lim_def)
  have up: "eps_limit e + d \<le> (if eps_patched e then 0 else 16)"
    using assms(1,4) by (auto simp: eps_ok_def eps_lim_def split: if_splits)
  have r: "int32_res (eps_limit e + d) = (Ret (eps_limit e + d) :: ('e, _) res)"
    using up ok(3,7) assms(3) by (auto simp: int32_res_def split: if_splits)
  have ok': "eps_ok (eps_set_limit e (eps_limit e + d))"
    using assms(1,3) up unfolding eps_ok_def eps_set_limit_sel by (auto split: if_splits)
  have "upb_EpsCopyInputStream_PopLimit e ptr d = (Ret (eps_set_limit e (eps_limit e + d)) :: ('e, _) res)"
    using at r CheckLimit_ok [OF assms(1), where 'a = 'e] CheckLimit_ok [OF ok', where 'a = 'e]
    by (simp add: upb_EpsCopyInputStream_PopLimit_def)
  moreover have "eps_lim (eps_set_limit e (eps_limit e + d)) = eps_lim e + d" by (simp add: eps_lim_def)
  ultimately show ?thesis using ok' by (intro exI [of _ "eps_set_limit e (eps_limit e + d)"]) (simp add: same_input_def)
qed

section \<open>Properties\<close>

text \<open>
  C11. The stream shows the flat input. A stream made for an input below \<open>2 ^ 31\<close> bytes starts at its first
  byte with its end as the limit. \<^verbatim>\<open>IsDone\<close> says done exactly at the limit, reports a malformed message
  exactly beyond it, and otherwise leaves position and limit as they are, whether or not it moves to the
  patch buffer, and makes 16 bytes readable, which are the bytes of the input at that position followed by
  zeros.
\<close>

theorem eps_stream_shows_input:
  assumes "eps_ok e" and "ptr \<le> length (eps_buf e)"
  shows "(length input < 2 ^ 31 \<longrightarrow> (\<exists>e0 p0. upb_EpsCopyInputStream_Init input al = (e0, p0) \<and> eps_ok e0
        \<and> eps_pos e0 p0 = 0 \<and> eps_lim e0 = int (length input) \<and> eps_input e0 = input))
    \<and> (case upb_Decoder_IsDone e ptr of
         Ret (True, p, e') \<Rightarrow> int (eps_pos e ptr) = eps_lim e \<and> p = ptr \<and> e' = e
       | Ret (False, p, e') \<Rightarrow> int (eps_pos e ptr) < eps_lim e \<and> eps_ok e' \<and> eps_input e' = eps_input e
           \<and> eps_pos e' p = eps_pos e ptr \<and> eps_lim e' = eps_lim e \<and> p + 16 \<le> length (eps_buf e')
           \<and> (\<forall>i < 16. eps_buf e' ! (p + i) = (eps_input e @ replicate 32 0) ! (eps_pos e ptr + i))
       | Raise st \<Rightarrow> int (eps_pos e ptr) > eps_lim e \<and> st = kUpb_DecodeStatus_Malformed
       | Fault \<Rightarrow> False)"
proof (intro conjI impI)
  assume "length input < 2 ^ 31"
  from eps_Init_ok [OF this, of al] show "\<exists>e0 p0. upb_EpsCopyInputStream_Init input al = (e0, p0) \<and> eps_ok e0
        \<and> eps_pos e0 p0 = 0 \<and> eps_lim e0 = int (length input) \<and> eps_input e0 = input"
    by (cases "upb_EpsCopyInputStream_Init input al") auto
next
  consider "int (eps_pos e ptr) = eps_lim e" | "int (eps_pos e ptr) > eps_lim e" | "int (eps_pos e ptr) < eps_lim e" by linarith
  then show "case upb_Decoder_IsDone e ptr of
         Ret (True, p, e') \<Rightarrow> int (eps_pos e ptr) = eps_lim e \<and> p = ptr \<and> e' = e
       | Ret (False, p, e') \<Rightarrow> int (eps_pos e ptr) < eps_lim e \<and> eps_ok e' \<and> eps_input e' = eps_input e
           \<and> eps_pos e' p = eps_pos e ptr \<and> eps_lim e' = eps_lim e \<and> p + 16 \<le> length (eps_buf e')
           \<and> (\<forall>i < 16. eps_buf e' ! (p + i) = (eps_input e @ replicate 32 0) ! (eps_pos e ptr + i))
       | Raise st \<Rightarrow> int (eps_pos e ptr) > eps_lim e \<and> st = kUpb_DecodeStatus_Malformed
       | Fault \<Rightarrow> False"
  proof cases
    case 3
    then obtain p e' where d: "upb_Decoder_IsDone e ptr = Ret (False, p, e')" "same_input e e'"
      "eps_pos e' p = eps_pos e ptr" "eps_lim e' = eps_lim e" "int p < eps_limit_ptr e'"
      using IsDone_flat(3) [OF assms] by blast
    then have ok: "eps_ok e'" "eps_input e' = eps_input e" by (simp_all add: same_input_def)
    have room: "p + 16 \<le> length (eps_buf e')" using d(5) eps_okD(2,5) [OF ok(1)] by auto
    have "eps_buf e' ! (p + i) = (eps_input e @ replicate 32 0) ! (eps_pos e ptr + i)" if "i < 16" for i
      using buf_flat [OF ok(1), of "p + i"] room that d(3) ok(2) by (simp add: eps_pos_def add.commute add.left_commute)
    with d ok room 3 show ?thesis by simp
  qed (use IsDone_flat(1,2) [OF assms] in simp_all)
qed

theorem eps_stream_shows_input_witness:
  "\<exists>e. upb_EpsCopyInputStream_Init (replicate 20 7) False = (e, 0) \<and> eps_ok e
     \<and> (\<exists>p e'. upb_Decoder_IsDone e 10 = Ret (False, p, e') \<and> eps_patched e' \<and> eps_pos e' p = 10 \<and> eps_buf e' ! p = 7)"
proof -
  define e where "e = fst (upb_EpsCopyInputStream_Init (replicate 20 (7 :: u8)) False)"
  have ok: "eps_ok e" "10 \<le> length (eps_buf e)"
    using eps_Init_ok(1) [of "replicate 20 (7 :: u8)" False] by (simp_all add: e_def upb_EpsCopyInputStream_Init_def)
  have init: "upb_EpsCopyInputStream_Init (replicate 20 7) False = (e, 0)" by (simp add: e_def upb_EpsCopyInputStream_Init_def)
  obtain p e' where d: "upb_Decoder_IsDone e 10 = Ret (False, p, e')" "p = 6" "eps_patched e'"
    by (simp add: upb_Decoder_IsDone_def upb_EpsCopyInputStream_IsDoneWithCallback_def upb_EpsCopyInputStream_IsDoneStatus_def
        upb_EpsCopyInputStream_IsDoneFallbackInline_def upb_EpsCopyInputStream_Init_def narrow32_id rd_bytes_def
        upb_Decoder_BufferFlipCallback_def Let_def e_def)
  have sel: "eps_pos e 10 = 10" "eps_input e = replicate 20 7" by (simp_all add: e_def upb_EpsCopyInputStream_Init_def eps_pos_def)
  have "eps_pos e' p = 10 \<and> (\<forall>i < 16. eps_buf e' ! (p + i) = (eps_input e @ replicate 32 0) ! (10 + i))"
    using eps_stream_shows_input [OF ok, of "[]" False] d(1) sel(1) by simp
  then have "eps_pos e' p = 10" "eps_buf e' ! (p + 0) = (eps_input e @ replicate 32 0) ! (10 + 0)"
    by (simp, blast intro: zero_less_numeral)
  then have "eps_pos e' p = 10 \<and> eps_buf e' ! p = 7" by (simp add: sel(2) nth_append)
  with init ok(1) d show ?thesis by blast
qed

text \<open>
  C12. Limits nest: after \<^verbatim>\<open>PushLimit\<close> of a size that \<^verbatim>\<open>CheckSize\<close> accepts, the limit is the position plus
  that size; when the parser has reached it, wherever it is by then, \<^verbatim>\<open>PopLimit\<close> with the returned delta
  restores the old limit. None of the assertions in these functions can fail, and the 32-bit arithmetic
  does not overflow.
\<close>

theorem eps_limits_nest:
  assumes "eps_ok e" and "upb_EpsCopyInputStream_CheckSize e ptr n"
  shows "\<exists>d e1. upb_EpsCopyInputStream_PushLimit e ptr n = (Ret (d, e1) :: (unit, _) res)
    \<and> eps_ok e1 \<and> eps_pos e1 ptr = eps_pos e ptr \<and> eps_lim e1 = int (eps_pos e ptr + n)
    \<and> (\<forall>e2 ptr2. same_input e1 e2 \<and> eps_lim e2 = eps_lim e1 \<and> int (eps_pos e2 ptr2) = eps_lim e2 \<longrightarrow>
         (\<exists>e3. upb_EpsCopyInputStream_PopLimit e2 ptr2 d = (Ret e3 :: (unit, _) res) \<and> eps_ok e3
           \<and> eps_lim e3 = eps_lim e \<and> eps_pos e3 ptr2 = eps_pos e ptr + n))"
proof -
  have n: "int (eps_pos e ptr + n) \<le> eps_lim e" using assms(2) by (simp add: CheckSize_flat)
  obtain e1 where e1: "upb_EpsCopyInputStream_PushLimit e ptr n = (Ret (eps_lim e - eps_lim e1, e1) :: (unit, _) res)"
    "same_input e e1" "eps_lim e1 = int (eps_pos e ptr + n)" "eps_pos e1 ptr = eps_pos e ptr"
    using PushLimit_flat [OF assms(1) n] by blast
  have "\<exists>e3. upb_EpsCopyInputStream_PopLimit e2 ptr2 (eps_lim e - eps_lim e1) = (Ret e3 :: (unit, _) res) \<and> eps_ok e3
           \<and> eps_lim e3 = eps_lim e \<and> eps_pos e3 ptr2 = eps_pos e ptr + n"
    if "same_input e1 e2" "eps_lim e2 = eps_lim e1" "int (eps_pos e2 ptr2) = eps_lim e2" for e2 ptr2
  proof -
    have "eps_ok e2" "eps_input e2 = eps_input e" using that(1) e1(2) by (simp_all add: same_input_def)
    with PopLimit_flat [of e2 ptr2 "eps_lim e - eps_lim e1", where 'e = unit] that n e1(3) eps_okD(4) [OF assms(1)]
    show ?thesis by (auto simp: same_input_def)
  qed
  with e1 show ?thesis
    by (intro exI [of _ "eps_lim e - eps_lim e1"] exI [of _ e1]) (simp add: same_input_def)
qed

theorem eps_limits_nest_witness:
  "\<exists>d e1. upb_EpsCopyInputStream_PushLimit (fst (upb_EpsCopyInputStream_Init (replicate 40 0) False)) 2 30
      = (Ret (d, e1) :: (unit, _) res) \<and> eps_lim e1 = 32"
proof -
  let ?e = "fst (upb_EpsCopyInputStream_Init (replicate 40 (0 :: u8)) False)"
  have "eps_ok ?e" using eps_Init_ok(1) [of "replicate 40 (0 :: u8)" False] by simp
  moreover have "upb_EpsCopyInputStream_CheckSize ?e 2 30"
    by (simp add: upb_EpsCopyInputStream_CheckSize_def upb_EpsCopyInputStream_Init_def)
  ultimately show ?thesis using eps_limits_nest [of ?e 2 30]
    by (auto simp: upb_EpsCopyInputStream_Init_def eps_pos_def)
qed

text \<open>
  C36. The bound on the input is needed: \<^verbatim>\<open>upb_Decode\<close> takes a \<^verbatim>\<open>size_t\<close>, but in a buffer of more than \<open>2 ^ 31\<close> bytes
  the conversion of \<^verbatim>\<open>ptr - end\<close> to \<^verbatim>\<open>int\<close> turns a distance to the end into a position far behind it, and
  a size that \<^verbatim>\<open>CheckSize\<close> has accepted violates the assertion of \<^verbatim>\<open>PushLimit\<close>.
\<close>

theorem eps_PushLimit_large_input:
  assumes "2 ^ 31 + 100 \<le> length input" and "length input < 2 ^ 32"
  shows "upb_EpsCopyInputStream_CheckSize (fst (upb_EpsCopyInputStream_Init input al)) 10 5
    \<and> upb_EpsCopyInputStream_PushLimit (fst (upb_EpsCopyInputStream_Init input al)) 10 5 = (Fault :: (unit, _) res)"
proof -
  let ?n = "length input - 16"
  let ?e = "fst (upb_EpsCopyInputStream_Init input al)"
  have sel: "eps_end ?e = ?n" "eps_limit ?e = 16" "eps_limit_ptr ?e = int ?n"
    using assms(1) by (simp_all add: upb_EpsCopyInputStream_Init_def Let_def)
  have n: "2 ^ 31 + 84 \<le> int ?n" "int ?n < 2 ^ 32 - 16" using assms by auto
  then have nar: "narrow32 (int 10 - int ?n) = 10 - int ?n + 2 ^ 32" by (subst narrow32_wrap) auto
  have "\<not> int 5 + (10 - int ?n + 2 ^ 32) \<le> 16" using n by linarith
  then have "upb_EpsCopyInputStream_PushLimit ?e 10 5 = (Fault :: (unit, _) res)"
    using nar sel by (simp add: upb_EpsCopyInputStream_PushLimit_def int32_res_def upb_EpsCopyInputStream_CheckLimit_def)
  moreover have "upb_EpsCopyInputStream_CheckSize ?e 10 5" using sel n by (simp add: upb_EpsCopyInputStream_CheckSize_def)
  ultimately show ?thesis by blast
qed

theorem eps_PushLimit_large_input_witness:
  "\<exists>input :: bytes. length input = 2 ^ 31 + 100
     \<and> upb_EpsCopyInputStream_PushLimit (fst (upb_EpsCopyInputStream_Init input False)) 10 5 = (Fault :: (unit, _) res)"
  using eps_PushLimit_large_input [of "replicate (2 ^ 31 + 100) 0" False]
  by (intro exI [of _ "replicate (2 ^ 31 + 100) 0"]) (simp only: length_replicate, simp)

end
