(* ===== verification/Wire_Decode.thy ===== *)
theory Wire_Decode
  imports Wire_Encode Msg_Map Msg_Array Eps_Stream Ext_Registry Utf8_Range
begin

unbundle bit_operations_syntax

text \<open>
  The decoder of \<^verbatim>\<open>upb/wire/decode.c\<close>: from wire format to a message. The functions have the order of the
  source. The decoder of a message is the argument \<open>dec\<close> of the functions that reach it, directly for a
  sub-message or group, or through a nested \<^verbatim>\<open>upb_Decode\<close>; \<open>upb_Decoder_DecodeMessage\<close> closes the recursion
  with fuel. A \<^verbatim>\<open>longjmp\<close> is \<open>Raise\<close>: the parse ends and what it leaves in the message is not described.
  A sub-message is taken out of its cell, decoded and put back, which is what decoding in place does,
  since nothing else reaches it meanwhile.
\<close>

section \<open>Definitions\<close>

subsection \<open>State\<close>

abbreviation (input) kUpb_DecodeOption_AliasString :: u16 where "kUpb_DecodeOption_AliasString \<equiv> 1"
abbreviation (input) kUpb_DecodeOption_CheckRequired :: u16 where "kUpb_DecodeOption_CheckRequired \<equiv> 2"
abbreviation (input) kUpb_DecodeOption_ExperimentalAllowUnlinked :: u16 where "kUpb_DecodeOption_ExperimentalAllowUnlinked \<equiv> 4"
abbreviation (input) kUpb_DecodeOption_AlwaysValidateUtf8 :: u16 where "kUpb_DecodeOption_AlwaysValidateUtf8 \<equiv> 8"

abbreviation (input) DECODE_NOGROUP :: u32 where "DECODE_NOGROUP \<equiv> - 1"

text \<open>
  What stays fixed during a call, and the decoder. \<^verbatim>\<open>d->original_msg\<close>, the message that owns the extension
  being parsed, is an argument of the functions that use it.
\<close>

record 'a dec_env =
  dec_malloc :: "'a alloc"
  dec_realloc :: "'a realloc"
  dec_tables :: "upb_MiniTable list"
  dec_extreg :: "upb_ExtensionRegistry option"
  dec_options :: u16

record 'a upb_Decoder =
  dec_input :: upb_EpsCopyInputStream
  dec_depth :: int
  dec_end_group :: u32
  dec_missing_required :: bool
  dec_arena :: 'a

type_synonym ('a, 'v) dec_res = "(upb_DecodeStatus, 'v \<times> 'a upb_Decoder) res"

text \<open>
  The decoder of a message: the table and the message, both null when an unknown group is skipped. The
  result is the pointer after the message and the message.
\<close>

type_synonym 'a msg_decoder =
  "'a upb_Decoder \<Rightarrow> nat \<Rightarrow> (mt_ref \<times> upb_Message) option \<Rightarrow> ('a, nat \<times> upb_Message option) dec_res"

datatype upb_DecodeOp =
    kUpb_DecodeOp_UnknownField | kUpb_DecodeOp_MessageSetItem
  | kUpb_DecodeOp_Scalar1Byte | kUpb_DecodeOp_Scalar4Byte | kUpb_DecodeOp_Scalar8Byte | kUpb_DecodeOp_Enum
  | kUpb_DecodeOp_String | kUpb_DecodeOp_Bytes | kUpb_DecodeOp_SubMessage
  | OP_FIXPCK_LG2 nat | OP_VARPCK_LG2 nat | kUpb_DecodeOp_PackedEnum

text \<open>
  The result of \<^verbatim>\<open>_upb_Decoder_FindField\<close>: the fake fields \<^verbatim>\<open>none\<close> and \<^verbatim>\<open>item\<close>, a field of the table, or the
  field of an extension.
\<close>

datatype found_field = FieldNone | FieldItem | FieldKnown upb_MiniTableField | FieldExt upb_MiniTableExtension

fun found_real :: "found_field \<Rightarrow> upb_MiniTableField option" where
  "found_real (FieldKnown f) = Some f"
| "found_real (FieldExt x) = Some (ext_field x)"
| "found_real _ = None"

text \<open>Functions of other components that can only fail by a fault.\<close>

definition pure :: "(unit, 'x) res \<Rightarrow> (upb_DecodeStatus, 'x) res" where
  "pure r = (case r of Ret x \<Rightarrow> Ret x | _ \<Rightarrow> Fault)"

definition upb_MiniTableSubs_MessageByField :: "upb_MiniTableSub list \<Rightarrow> upb_MiniTableField \<Rightarrow> (upb_DecodeStatus, mt_ref) res" where
  "upb_MiniTableSubs_MessageByField ss f =
     bindR (rd ss (submsg_index f)) (\<lambda>s. case s of Submsg r \<Rightarrow> Ret r | Subenum _ \<Rightarrow> Fault)"

definition upb_MiniTableSubs_EnumByField :: "upb_MiniTableSub list \<Rightarrow> upb_MiniTableField \<Rightarrow> (upb_DecodeStatus, upb_MiniTableEnum) res" where
  "upb_MiniTableSubs_EnumByField ss f =
     bindR (rd ss (submsg_index f)) (\<lambda>s. case s of Subenum e \<Rightarrow> Ret e | Submsg _ \<Rightarrow> Fault)"

subsection \<open>Primitives\<close>

definition upb_Decoder_VerifyUtf8 :: "'a upb_Decoder \<Rightarrow> nat \<Rightarrow> nat \<Rightarrow> (upb_DecodeStatus, unit) res" where
  "upb_Decoder_VerifyUtf8 d ptr len =
     bindR (rd_bytes (eps_buf (dec_input d)) ptr len) (\<lambda>s.
       if utf8_range_IsValid s then Ret () else Raise kUpb_DecodeStatus_BadUtf8)"

definition upb_Decoder_Reserve ::
  "'a dec_env \<Rightarrow> upb_cell \<Rightarrow> nat \<Rightarrow> 'a upb_Decoder \<Rightarrow> ('a, upb_cell) dec_res" where
  "upb_Decoder_Reserve C arr elem d =
     (case arr of
        CellArr _ _ xs spare \<Rightarrow>
          if length spare < elem then
            bindR (upb_Array_Realloc (dec_realloc C) arr (length xs + elem) (dec_arena d)) (\<lambda>(ok, arr', a).
              if ok then Ret (arr', d\<lparr>dec_arena := a\<rparr>) else Raise kUpb_DecodeStatus_OutOfMemory)
          else Ret (arr, d)
      | _ \<Rightarrow> Fault)"

definition upb_Decoder_DecodeSize :: "'a upb_Decoder \<Rightarrow> nat \<Rightarrow> (upb_DecodeStatus, nat \<times> u32) res" where
  "upb_Decoder_DecodeSize d ptr =
     bindR (upb_Decoder_DecodeVarint (eps_buf (dec_input d)) ptr) (\<lambda>(p, size64).
       if 0x7FFFFFFF \<le> size64 \<or> \<not> upb_EpsCopyInputStream_CheckSize (dec_input d) p (unat size64)
       then Raise kUpb_DecodeStatus_Malformed
       else Ret (p, ucast size64))"

text \<open>
  \<^verbatim>\<open>_upb_Decoder_Munge\<close> on the 8 bytes of a \<^verbatim>\<open>wireval\<close>: a \<^verbatim>\<open>bool\<close> overwrites the first byte, a 32-bit value the
  first four.
\<close>

definition wireval_low :: "nat \<Rightarrow> u64 \<Rightarrow> u64 \<Rightarrow> u64" where
  "wireval_low n v w = (v AND NOT (mask n)) OR take_bit n w"

definition upb_Decoder_Munge :: "upb_FieldType option \<Rightarrow> u64 \<Rightarrow> u64" where
  "upb_Decoder_Munge type v =
     (case type of
        Some kUpb_FieldType_Bool \<Rightarrow> wireval_low 8 v (if v \<noteq> 0 then 1 else 0)
      | Some kUpb_FieldType_SInt32 \<Rightarrow> wireval_low 32 v (ucast (decode_zz32 v))
      | Some kUpb_FieldType_SInt64 \<Rightarrow> decode_zz64 v
      | _ \<Rightarrow> v)"

text \<open>The first \<open>2 ^ lg2\<close> bytes of a \<^verbatim>\<open>wireval\<close>, copied into memory.\<close>

definition wireval_cell :: "nat \<Rightarrow> u64 \<Rightarrow> upb_cell" where
  "wireval_cell lg2 v = (if lg2 = 0 then Cell1 (ucast v) else if lg2 = 2 then Cell4 (ucast v) else Cell8 v)"

subsection \<open>Sub-messages\<close>

text \<open>\<^verbatim>\<open>_upb_Decoder_NewSubMessage2\<close>: the tag of the pointer that is stored, and the message.\<close>

definition upb_Decoder_NewSubMessage2 ::
  "'a dec_env \<Rightarrow> mt_ref \<Rightarrow> upb_MiniTableField \<Rightarrow> 'a upb_Decoder \<Rightarrow> ('a, bool \<times> upb_Message) dec_res" where
  "upb_Decoder_NewSubMessage2 C subl f d =
     bindR (mini_table_of (dec_tables C) subl) (\<lambda>m.
       case upb_Message_New (dec_malloc C) m (dec_arena d) of
         None \<Rightarrow> Raise kUpb_DecodeStatus_OutOfMemory
       | Some (msg, a) \<Rightarrow>
           let is_empty = (subl = MtEmpty) in
           if is_empty \<and> upb_MiniTableField_IsExtension f then Fault
           else if is_empty \<and> dec_options C AND kUpb_DecodeOption_ExperimentalAllowUnlinked = 0
           then Raise kUpb_DecodeStatus_UnlinkedSubMessage
           else Ret ((is_empty, msg), d\<lparr>dec_arena := a\<rparr>))"

definition upb_Decoder_NewSubMessage ::
  "'a dec_env \<Rightarrow> upb_MiniTableSub list \<Rightarrow> upb_MiniTableField \<Rightarrow> 'a upb_Decoder \<Rightarrow> ('a, bool \<times> upb_Message) dec_res" where
  "upb_Decoder_NewSubMessage C ss f d =
     bindR (upb_MiniTableSubs_MessageByField ss f) (\<lambda>subl. upb_Decoder_NewSubMessage2 C subl f d)"

text \<open>
  \<^verbatim>\<open>_upb_Decoder_DecodeTop\<close> and \<^verbatim>\<open>upb_Decode\<close> over a decoder of messages: the status, and the message with the
  arena unless the parse was left by \<^verbatim>\<open>longjmp\<close>.
\<close>

definition upb_Decoder_DecodeTop ::
  "'a msg_decoder \<Rightarrow> 'a upb_Decoder \<Rightarrow> nat \<Rightarrow> upb_Message \<Rightarrow> mt_ref \<Rightarrow> ('a, upb_DecodeStatus \<times> upb_Message) dec_res" where
  "upb_Decoder_DecodeTop dec d ptr msg m =
     bindR (dec d ptr (Some (m, msg))) (\<lambda>((_, msg'), d').
       case msg' of
         None \<Rightarrow> Fault
       | Some msg1 \<Rightarrow>
           Ret ((if dec_end_group d' \<noteq> DECODE_NOGROUP then kUpb_DecodeStatus_Malformed
                 else if dec_missing_required d' then kUpb_DecodeStatus_MissingRequired
                 else kUpb_DecodeStatus_Ok, msg1), d'))"

definition upb_DecodeOptions_GetEffectiveMaxDepth :: "u32 \<Rightarrow> u16" where
  "upb_DecodeOptions_GetEffectiveMaxDepth options =
     (let max_depth = ucast (drop_bit 16 options) in if max_depth \<noteq> 0 then max_depth else 100)"

definition upb_Decode_with ::
  "'a msg_decoder \<Rightarrow> bytes \<Rightarrow> upb_Message \<Rightarrow> mt_ref \<Rightarrow> u32 \<Rightarrow> 'a
     \<Rightarrow> (unit, upb_DecodeStatus \<times> (upb_Message \<times> 'a) option) res" where
  "upb_Decode_with dec buf msg m options a =
     (if msg_frozen msg then Fault
      else
        let (e, ptr) = upb_EpsCopyInputStream_Init buf (ucast options AND kUpb_DecodeOption_AliasString \<noteq> 0);
            d = \<lparr> dec_input = e, dec_depth = uint (upb_DecodeOptions_GetEffectiveMaxDepth options),
                  dec_end_group = DECODE_NOGROUP, dec_missing_required = False, dec_arena = a \<rparr>
        in case upb_Decoder_DecodeTop dec d ptr msg m of
             Ret ((status, msg'), d') \<Rightarrow> Ret (status, Some (msg', dec_arena d'))
           | Raise status \<Rightarrow> Ret (status, None)
           | Fault \<Rightarrow> Fault)"

text \<open>A nested \<^verbatim>\<open>upb_Decode\<close> with \<^verbatim>\<open>d->options\<close>, of which 16 bits are left, into a message; its error is the caller's.\<close>

definition upb_Decoder_Nested ::
  "'a dec_env \<Rightarrow> 'a msg_decoder \<Rightarrow> bytes \<Rightarrow> mt_ref \<Rightarrow> upb_Message \<Rightarrow> 'a upb_Decoder \<Rightarrow> ('a, upb_Message) dec_res" where
  "upb_Decoder_Nested C dec buf m msg d =
     bindR (pure (upb_Decode_with dec buf msg m (ucast (dec_options C)) (dec_arena d))) (\<lambda>(status, r).
       if status \<noteq> kUpb_DecodeStatus_Ok then Raise status
       else case r of None \<Rightarrow> Fault | Some (msg', a) \<Rightarrow> Ret (msg', d\<lparr>dec_arena := a\<rparr>))"

text \<open>The loop over the unknown fields of a message that was parsed before its type was linked.\<close>

fun promote_unknown ::
  "'a dec_env \<Rightarrow> 'a msg_decoder \<Rightarrow> mt_ref \<Rightarrow> bytes list \<Rightarrow> upb_Message \<Rightarrow> 'a upb_Decoder \<Rightarrow> ('a, upb_Message) dec_res" where
  "promote_unknown C dec subl [] promoted d = Ret (promoted, d)"
| "promote_unknown C dec subl (u # us) promoted d =
     bindR (upb_Decoder_Nested C dec u subl promoted d) (\<lambda>(promoted', d'). promote_unknown C dec subl us promoted' d')"

definition upb_Decoder_ReuseSubMessage ::
  "'a dec_env \<Rightarrow> 'a msg_decoder \<Rightarrow> upb_MiniTableSub list \<Rightarrow> upb_MiniTableField \<Rightarrow> bool \<Rightarrow> upb_Message \<Rightarrow> 'a upb_Decoder
     \<Rightarrow> ('a, bool \<times> upb_Message) dec_res" where
  "upb_Decoder_ReuseSubMessage C dec ss f is_empty existing d =
     bindR (upb_MiniTableSubs_MessageByField ss f) (\<lambda>subl.
       if \<not> is_empty \<or> subl = MtEmpty then Ret ((is_empty, existing), d)
       else bindR (upb_Decoder_NewSubMessage C ss f d) (\<lambda>((new_empty, promoted), d1).
         bindR (promote_unknown C dec subl (msg_unknown existing) promoted d1) (\<lambda>(promoted', d2).
           Ret ((new_empty, promoted'), d2))))"

definition upb_Decoder_ReadString ::
  "'a dec_env \<Rightarrow> 'a upb_Decoder \<Rightarrow> nat \<Rightarrow> nat \<Rightarrow> ('a, bytes \<times> nat) dec_res" where
  "upb_Decoder_ReadString C d ptr size' =
     bindR (upb_EpsCopyInputStream_ReadString (dec_malloc C) (dec_input d) ptr size' (dec_arena d)) (\<lambda>r.
       case r of
         None \<Rightarrow> Raise kUpb_DecodeStatus_OutOfMemory
       | Some (s, p, a) \<Rightarrow> Ret ((s, p), d\<lparr>dec_arena := a\<rparr>))"

definition upb_Decoder_RecurseSubMessage ::
  "'a msg_decoder \<Rightarrow> 'a upb_Decoder \<Rightarrow> nat \<Rightarrow> (mt_ref \<times> upb_Message) option \<Rightarrow> u32 \<Rightarrow> ('a, nat \<times> upb_Message option) dec_res" where
  "upb_Decoder_RecurseSubMessage dec d ptr target expected_end_group =
     (if dec_depth d - 1 < 0 then Raise kUpb_DecodeStatus_MaxDepthExceeded
      else bindR (dec (d\<lparr>dec_depth := dec_depth d - 1\<rparr>) ptr target) (\<lambda>(r, d1).
        let d2 = d1\<lparr>dec_depth := dec_depth d1 + 1\<rparr> in
        if dec_end_group d2 \<noteq> expected_end_group then Raise kUpb_DecodeStatus_Malformed
        else Ret (r, d2)))"

definition upb_Decoder_DecodeSubMessage ::
  "'a msg_decoder \<Rightarrow> 'a upb_Decoder \<Rightarrow> nat \<Rightarrow> upb_Message \<Rightarrow> upb_MiniTableSub list \<Rightarrow> upb_MiniTableField \<Rightarrow> nat
     \<Rightarrow> ('a, nat \<times> upb_Message) dec_res" where
  "upb_Decoder_DecodeSubMessage dec d ptr submsg ss f size' =
     bindR (upb_EpsCopyInputStream_PushLimit (dec_input d) ptr size') (\<lambda>(saved_delta, e).
     bindR (upb_MiniTableSubs_MessageByField ss f) (\<lambda>subl.
     bindR (upb_Decoder_RecurseSubMessage dec (d\<lparr>dec_input := e\<rparr>) ptr (Some (subl, submsg)) DECODE_NOGROUP)
       (\<lambda>((p, submsg'), d1).
     bindR (upb_EpsCopyInputStream_PopLimit (dec_input d1) p saved_delta) (\<lambda>e'.
       case submsg' of None \<Rightarrow> Fault | Some msg \<Rightarrow> Ret ((p, msg), d1\<lparr>dec_input := e'\<rparr>)))))"

definition upb_Decoder_DecodeGroup ::
  "'a msg_decoder \<Rightarrow> 'a upb_Decoder \<Rightarrow> nat \<Rightarrow> (mt_ref \<times> upb_Message) option \<Rightarrow> u32 \<Rightarrow> ('a, nat \<times> upb_Message option) dec_res" where
  "upb_Decoder_DecodeGroup dec d ptr target n =
     bindR (upb_Decoder_IsDone (dec_input d) ptr) (\<lambda>(is_done, p, e).
       if is_done then Raise kUpb_DecodeStatus_Malformed
       else bindR (upb_Decoder_RecurseSubMessage dec (d\<lparr>dec_input := e\<rparr>) p target n) (\<lambda>(r, d1).
         Ret (r, d1\<lparr>dec_end_group := DECODE_NOGROUP\<rparr>)))"

definition upb_Decoder_DecodeUnknownGroup :: "'a msg_decoder \<Rightarrow> 'a upb_Decoder \<Rightarrow> nat \<Rightarrow> u32 \<Rightarrow> ('a, nat) dec_res" where
  "upb_Decoder_DecodeUnknownGroup dec d ptr n =
     bindR (upb_Decoder_DecodeGroup dec d ptr None n) (\<lambda>((p, _), d'). Ret (p, d'))"

definition upb_Decoder_DecodeKnownGroup ::
  "'a msg_decoder \<Rightarrow> 'a upb_Decoder \<Rightarrow> nat \<Rightarrow> upb_Message \<Rightarrow> upb_MiniTableSub list \<Rightarrow> upb_MiniTableField
     \<Rightarrow> ('a, nat \<times> upb_Message) dec_res" where
  "upb_Decoder_DecodeKnownGroup dec d ptr submsg ss f =
     bindR (upb_MiniTableSubs_MessageByField ss f) (\<lambda>subl.
     bindR (upb_Decoder_DecodeGroup dec d ptr (Some (subl, submsg)) (of_nat (number f))) (\<lambda>((p, r), d').
       case r of None \<Rightarrow> Fault | Some msg \<Rightarrow> Ret ((p, msg), d')))"

text \<open>The two branches at the end of \<^verbatim>\<open>DecodeToArray\<close> and \<^verbatim>\<open>DecodeToSubMessage\<close>.\<close>

definition decode_group_or_message ::
  "'a msg_decoder \<Rightarrow> 'a upb_Decoder \<Rightarrow> nat \<Rightarrow> upb_Message \<Rightarrow> upb_MiniTableSub list \<Rightarrow> upb_MiniTableField \<Rightarrow> u64
     \<Rightarrow> ('a, nat \<times> upb_Message) dec_res" where
  "decode_group_or_message dec d ptr submsg ss f wv =
     (if descriptortype f = kUpb_FieldType_Group then upb_Decoder_DecodeKnownGroup dec d ptr submsg ss f
      else upb_Decoder_DecodeSubMessage dec d ptr submsg ss f (unat (ucast wv :: u32)))"

subsection \<open>Enums and arrays\<close>

definition decoder_add_unknown ::
  "'a dec_env \<Rightarrow> upb_Message \<Rightarrow> bytes \<Rightarrow> bool \<Rightarrow> 'a upb_Decoder \<Rightarrow> ('a, upb_Message) dec_res" where
  "decoder_add_unknown C msg data aliased d =
     bindR (upb_Message_AddUnknown (dec_malloc C) (dec_realloc C) msg data aliased (dec_arena d)) (\<lambda>(ok, msg', a).
       if ok then Ret (msg', d\<lparr>dec_arena := a\<rparr>) else Raise kUpb_DecodeStatus_OutOfMemory)"

text \<open>
  A field is stored into \<open>msg\<close>: the message, or the value of an extension seen as a message with the
  field at offset 0, and then \<open>orig\<close> is the message that has the extension. An enum value that is not
  listed becomes an unknown field of the message.
\<close>

definition upb_Decoder_CheckEnum ::
  "'a dec_env \<Rightarrow> upb_Message option \<Rightarrow> upb_Message \<Rightarrow> upb_MiniTableEnum \<Rightarrow> upb_MiniTableField \<Rightarrow> u32 \<Rightarrow> 'a upb_Decoder
     \<Rightarrow> ('a, bool \<times> upb_Message option \<times> upb_Message) dec_res" where
  "upb_Decoder_CheckEnum C orig msg e f v d =
     bindR (pure (upb_MiniTableEnum_CheckValue e v)) (\<lambda>ok.
       if ok then Ret ((True, orig, msg), d)
       else
         let tag = push_bit 3 (of_nat (number f)) OR kUpb_WireType_Varint;
             data = upb_Decoder_EncodeVarint32 tag @ upb_Decoder_EncodeVarint32 v
         in if upb_MiniTableField_IsExtension f then
              (case orig of
                 None \<Rightarrow> Fault
               | Some o1 \<Rightarrow> bindR (decoder_add_unknown C o1 data False d) (\<lambda>(o2, d'). Ret ((False, Some o2, msg), d')))
            else bindR (decoder_add_unknown C msg data False d) (\<lambda>(msg', d'). Ret ((False, orig, msg'), d')))"

text \<open>A store to the element after the last one, followed by \<^verbatim>\<open>arr->size++\<close>.\<close>

definition arr_push :: "upb_cell \<Rightarrow> nat \<Rightarrow> upb_cell \<Rightarrow> ('e, upb_cell) res" where
  "arr_push arr lg2 v =
     (case arr of
        CellArr frozen l xs (_ # spare) \<Rightarrow> if l = lg2 then Ret (CellArr frozen l (xs @ [v]) spare) else Fault
      | _ \<Rightarrow> Fault)"

definition upb_Decoder_DecodeEnumArray ::
  "'a dec_env \<Rightarrow> 'a upb_Decoder \<Rightarrow> upb_Message option \<Rightarrow> upb_Message \<Rightarrow> upb_cell \<Rightarrow> upb_MiniTableSub list \<Rightarrow> upb_MiniTableField
     \<Rightarrow> u64 \<Rightarrow> ('a, upb_cell \<times> upb_Message option \<times> upb_Message) dec_res" where
  "upb_Decoder_DecodeEnumArray C d orig msg arr ss f wv =
     bindR (upb_MiniTableSubs_EnumByField ss f) (\<lambda>e.
     bindR (upb_Decoder_CheckEnum C orig msg e f (ucast wv) d) (\<lambda>((ok, om), d').
       if \<not> ok then Ret ((arr, om), d')
       else bindR (arr_push arr 2 (wireval_cell 2 wv)) (\<lambda>arr'. Ret ((arr', om), d'))))"

text \<open>The elements in the memory that \<^verbatim>\<open>_upb_Decoder_DecodeFixedPacked\<close> fills by one copy.\<close>

fun fixed_cells :: "nat \<Rightarrow> nat \<Rightarrow> bytes \<Rightarrow> ('e, upb_cell list) res" where
  "fixed_cells lg2 0 data = Ret []"
| "fixed_cells lg2 (Suc n) data =
     bindR (rd_le data 0 (2 ^ lg2)) (\<lambda>w.
     bindR (fixed_cells lg2 n (drop (2 ^ lg2) data)) (\<lambda>cs. Ret (wireval_cell lg2 w # cs)))"

definition arr_append_cells :: "upb_cell \<Rightarrow> nat \<Rightarrow> upb_cell list \<Rightarrow> ('e, upb_cell) res" where
  "arr_append_cells arr lg2 cs =
     (case arr of
        CellArr frozen l xs spare \<Rightarrow>
          if l = lg2 \<and> length cs \<le> length spare then Ret (CellArr frozen l (xs @ cs) (drop (length cs) spare)) else Fault
      | _ \<Rightarrow> Fault)"

definition upb_Decoder_DecodeFixedPacked ::
  "'a dec_env \<Rightarrow> 'a upb_Decoder \<Rightarrow> nat \<Rightarrow> upb_cell \<Rightarrow> u64 \<Rightarrow> nat \<Rightarrow> ('a, nat \<times> upb_cell) dec_res" where
  "upb_Decoder_DecodeFixedPacked C d ptr arr wv lg2 =
     (let size' = unat (ucast wv :: u32); n = size' div 2 ^ lg2 in
      if size' mod 2 ^ lg2 \<noteq> 0 then Raise kUpb_DecodeStatus_Malformed
      else bindR (upb_Decoder_Reserve C arr n d) (\<lambda>(arr1, d1).
        bindR (upb_EpsCopyInputStream_Copy (dec_input d1) ptr (int size')) (\<lambda>r.
          case r of
            None \<Rightarrow> Fault
          | Some (data, p) \<Rightarrow>
              bindR (fixed_cells lg2 n data) (\<lambda>cs.
              bindR (arr_append_cells arr1 lg2 cs) (\<lambda>arr2. Ret ((p, arr2), d1))))))"

text \<open>
  The loops over packed elements. Each round reads at least one byte, so that the length of the input
  bounds the number of rounds.
\<close>

fun varint_packed_loop ::
  "nat \<Rightarrow> 'a dec_env \<Rightarrow> upb_FieldType \<Rightarrow> nat \<Rightarrow> 'a upb_Decoder \<Rightarrow> nat \<Rightarrow> upb_cell \<Rightarrow> ('a, nat \<times> upb_cell) dec_res" where
  "varint_packed_loop 0 C type lg2 d ptr arr = Fault"
| "varint_packed_loop (Suc n) C type lg2 d ptr arr =
     bindR (upb_Decoder_IsDone (dec_input d) ptr) (\<lambda>(is_done, p, e).
       let d1 = d\<lparr>dec_input := e\<rparr> in
       if is_done then Ret ((p, arr), d1)
       else bindR (upb_Decoder_DecodeVarint (eps_buf e) p) (\<lambda>(p1, elem).
         bindR (upb_Decoder_Reserve C arr 1 d1) (\<lambda>(arr1, d2).
         bindR (arr_push arr1 lg2 (wireval_cell lg2 (upb_Decoder_Munge (Some type) elem))) (\<lambda>arr2.
           varint_packed_loop n C type lg2 d2 p1 arr2))))"

definition input_rounds :: "'a upb_Decoder \<Rightarrow> nat" where
  "input_rounds d = length (eps_input (dec_input d)) + 2"

definition upb_Decoder_DecodeVarintPacked ::
  "'a dec_env \<Rightarrow> 'a upb_Decoder \<Rightarrow> nat \<Rightarrow> upb_cell \<Rightarrow> u64 \<Rightarrow> upb_MiniTableField \<Rightarrow> nat \<Rightarrow> ('a, nat \<times> upb_cell) dec_res" where
  "upb_Decoder_DecodeVarintPacked C d ptr arr wv f lg2 =
     bindR (upb_EpsCopyInputStream_PushLimit (dec_input d) ptr (unat (ucast wv :: u32))) (\<lambda>(saved_limit, e).
     bindR (varint_packed_loop (input_rounds d) C (descriptortype f) lg2 (d\<lparr>dec_input := e\<rparr>) ptr arr) (\<lambda>((p, arr'), d1).
     bindR (upb_EpsCopyInputStream_PopLimit (dec_input d1) p saved_limit) (\<lambda>e'.
       Ret ((p, arr'), d1\<lparr>dec_input := e'\<rparr>))))"

fun enum_packed_loop ::
  "nat \<Rightarrow> 'a dec_env \<Rightarrow> upb_MiniTableEnum \<Rightarrow> upb_MiniTableField \<Rightarrow> 'a upb_Decoder \<Rightarrow> nat \<Rightarrow> upb_cell
     \<Rightarrow> upb_Message option \<times> upb_Message \<Rightarrow> ('a, nat \<times> upb_cell \<times> upb_Message option \<times> upb_Message) dec_res" where
  "enum_packed_loop 0 C en f d ptr arr om = Fault"
| "enum_packed_loop (Suc n) C en f d ptr arr om =
     bindR (upb_Decoder_IsDone (dec_input d) ptr) (\<lambda>(is_done, p, e).
       let d1 = d\<lparr>dec_input := e\<rparr> in
       if is_done then Ret ((p, arr, om), d1)
       else bindR (upb_Decoder_DecodeVarint (eps_buf e) p) (\<lambda>(p1, elem).
         bindR (upb_Decoder_CheckEnum C (fst om) (snd om) en f (ucast elem) d1) (\<lambda>((ok, om1), d2).
           if \<not> ok then enum_packed_loop n C en f d2 p1 arr om1
           else bindR (upb_Decoder_Reserve C arr 1 d2) (\<lambda>(arr1, d3).
             bindR (arr_push arr1 2 (wireval_cell 2 elem)) (\<lambda>arr2. enum_packed_loop n C en f d3 p1 arr2 om1)))))"

definition upb_Decoder_DecodeEnumPacked ::
  "'a dec_env \<Rightarrow> 'a upb_Decoder \<Rightarrow> nat \<Rightarrow> upb_Message option \<Rightarrow> upb_Message \<Rightarrow> upb_cell \<Rightarrow> upb_MiniTableSub list \<Rightarrow> upb_MiniTableField
     \<Rightarrow> u64 \<Rightarrow> ('a, nat \<times> upb_cell \<times> upb_Message option \<times> upb_Message) dec_res" where
  "upb_Decoder_DecodeEnumPacked C d ptr orig msg arr ss f wv =
     bindR (upb_MiniTableSubs_EnumByField ss f) (\<lambda>en.
     bindR (upb_EpsCopyInputStream_PushLimit (dec_input d) ptr (unat (ucast wv :: u32))) (\<lambda>(saved_limit, e).
     bindR (enum_packed_loop (input_rounds d) C en f (d\<lparr>dec_input := e\<rparr>) ptr arr (orig, msg)) (\<lambda>((p, arr', om), d1).
     bindR (upb_EpsCopyInputStream_PopLimit (dec_input d1) p saved_limit) (\<lambda>e'.
       Ret ((p, arr', om), d1\<lparr>dec_input := e'\<rparr>)))))"

definition upb_Decoder_CreateArray :: "'a dec_env \<Rightarrow> upb_MiniTableField \<Rightarrow> 'a upb_Decoder \<Rightarrow> ('a, upb_cell) dec_res" where
  "upb_Decoder_CreateArray C f d =
     bindR (upb_Array_New_sized (dec_malloc C) 4 (upb_FieldType_SizeLg2 (descriptortype f)) (dec_arena d)) (\<lambda>r.
       case r of
         None \<Rightarrow> Raise kUpb_DecodeStatus_OutOfMemory
       | Some (arr, a) \<Rightarrow> Ret (arr, d\<lparr>dec_arena := a\<rparr>))"

text \<open>The result of storing a field: the pointer after it, and the messages \<open>orig\<close> and \<open>msg\<close>.\<close>

type_synonym 'a store_res = "('a, nat \<times> upb_Message option \<times> upb_Message) dec_res"

text \<open>The switch over the operation, with the array that has room for one more element.\<close>

definition decode_array_op ::
  "'a dec_env \<Rightarrow> 'a msg_decoder \<Rightarrow> 'a upb_Decoder \<Rightarrow> nat \<Rightarrow> upb_Message option \<Rightarrow> upb_Message \<Rightarrow> upb_cell \<Rightarrow> upb_MiniTableSub list
     \<Rightarrow> upb_MiniTableField \<Rightarrow> u64 \<Rightarrow> upb_DecodeOp \<Rightarrow> 'a store_res" where
  "decode_array_op C dec d ptr orig msg arr ss f wv op =
     (let store = (\<lambda>arr'. msg_set msg (offset f) arr');
          scalar = (\<lambda>lg2. bindR (arr_push arr lg2 (wireval_cell lg2 wv)) (\<lambda>arr'. Ret ((ptr, orig, store arr'), d)));
          bytes = bindR (upb_Decoder_ReadString C d ptr (unat (ucast wv :: u32))) (\<lambda>((s, p), d2).
            bindR (arr_push arr 4 (CellStr s)) (\<lambda>arr'. Ret ((p, orig, store arr'), d2)))
      in case op of
           kUpb_DecodeOp_Scalar1Byte \<Rightarrow> scalar 0
         | kUpb_DecodeOp_Scalar4Byte \<Rightarrow> scalar 2
         | kUpb_DecodeOp_Scalar8Byte \<Rightarrow> scalar 3
         | kUpb_DecodeOp_String \<Rightarrow> bindR (upb_Decoder_VerifyUtf8 d ptr (unat (ucast wv :: u32))) (\<lambda>_. bytes)
         | kUpb_DecodeOp_Bytes \<Rightarrow> bytes
         | kUpb_DecodeOp_SubMessage \<Rightarrow>
             bindR (upb_Decoder_NewSubMessage C ss f d) (\<lambda>((is_empty, submsg), d2).
             bindR (decode_group_or_message dec d2 ptr submsg ss f wv) (\<lambda>((p, submsg'), d3).
             bindR (arr_push arr 3 (CellMsg is_empty submsg')) (\<lambda>arr'. Ret ((p, orig, store arr'), d3))))
         | OP_FIXPCK_LG2 lg2 \<Rightarrow>
             bindR (upb_Decoder_DecodeFixedPacked C d ptr arr wv lg2) (\<lambda>((p, arr'), d2). Ret ((p, orig, store arr'), d2))
         | OP_VARPCK_LG2 lg2 \<Rightarrow>
             bindR (upb_Decoder_DecodeVarintPacked C d ptr arr wv f lg2) (\<lambda>((p, arr'), d2). Ret ((p, orig, store arr'), d2))
         | kUpb_DecodeOp_Enum \<Rightarrow>
             bindR (upb_Decoder_DecodeEnumArray C d orig msg arr ss f wv) (\<lambda>((arr', orig', msg'), d2).
               Ret ((ptr, orig', msg_set msg' (offset f) arr'), d2))
         | kUpb_DecodeOp_PackedEnum \<Rightarrow>
             bindR (upb_Decoder_DecodeEnumPacked C d ptr orig msg arr ss f wv) (\<lambda>((p, arr', orig', msg'), d2).
               Ret ((p, orig', msg_set msg' (offset f) arr'), d2))
         | _ \<Rightarrow> Fault)"

definition upb_Decoder_DecodeToArray ::
  "'a dec_env \<Rightarrow> 'a msg_decoder \<Rightarrow> 'a upb_Decoder \<Rightarrow> nat \<Rightarrow> upb_Message option \<Rightarrow> upb_Message \<Rightarrow> upb_MiniTableSub list
     \<Rightarrow> upb_MiniTableField \<Rightarrow> u64 \<Rightarrow> upb_DecodeOp \<Rightarrow> 'a store_res" where
  "upb_Decoder_DecodeToArray C dec d ptr orig msg ss f wv op =
     bindR (case msg_cell msg (offset f) of
              Zero \<Rightarrow> upb_Decoder_CreateArray C f d
            | CellArr frozen lg2 xs spare \<Rightarrow> upb_Decoder_Reserve C (CellArr frozen lg2 xs spare) 1 d
            | _ \<Rightarrow> Fault) (\<lambda>(arr, d1). decode_array_op C dec d1 ptr orig msg arr ss f wv op)"

subsection \<open>Maps\<close>

fun kSizeInMap :: "upb_FieldType \<Rightarrow> nat" where
  "kSizeInMap kUpb_FieldType_Double = 8"
| "kSizeInMap kUpb_FieldType_Float = 4"
| "kSizeInMap kUpb_FieldType_Int64 = 8"
| "kSizeInMap kUpb_FieldType_UInt64 = 8"
| "kSizeInMap kUpb_FieldType_Int32 = 4"
| "kSizeInMap kUpb_FieldType_Fixed64 = 8"
| "kSizeInMap kUpb_FieldType_Fixed32 = 4"
| "kSizeInMap kUpb_FieldType_Bool = 1"
| "kSizeInMap kUpb_FieldType_String = UPB_MAPTYPE_STRING"
| "kSizeInMap kUpb_FieldType_Group = 8"
| "kSizeInMap kUpb_FieldType_Message = 8"
| "kSizeInMap kUpb_FieldType_Bytes = UPB_MAPTYPE_STRING"
| "kSizeInMap kUpb_FieldType_UInt32 = 4"
| "kSizeInMap kUpb_FieldType_Enum = 4"
| "kSizeInMap kUpb_FieldType_SFixed32 = 4"
| "kSizeInMap kUpb_FieldType_SFixed64 = 8"
| "kSizeInMap kUpb_FieldType_SInt32 = 4"
| "kSizeInMap kUpb_FieldType_SInt64 = 8"

text \<open>The offsets of \<^verbatim>\<open>k\<close> and \<^verbatim>\<open>v\<close> in \<^verbatim>\<open>upb_MapEntry\<close>: after the message header and eight bytes for the hasbits.\<close>

abbreviation (input) map_entry_k :: nat where "map_entry_k \<equiv> 16"
abbreviation (input) map_entry_v :: nat where "map_entry_v \<equiv> 32"

definition upb_Decoder_CreateMap :: "'a dec_env \<Rightarrow> upb_MiniTable \<Rightarrow> 'a upb_Decoder \<Rightarrow> ('a, upb_cell) dec_res" where
  "upb_Decoder_CreateMap C entry d =
     bindR (rd (mt_fields entry) 0) (\<lambda>key_field.
     bindR (rd (mt_fields entry) 1) (\<lambda>val_field.
       if offset key_field \<noteq> map_entry_k \<or> offset val_field \<noteq> map_entry_v then Fault
       else case upb_Map_New_sized (dec_malloc C) (kSizeInMap (descriptortype key_field))
                   (kSizeInMap (descriptortype val_field)) (dec_arena d) of
           None \<Rightarrow> Raise kUpb_DecodeStatus_OutOfMemory
         | Some (mp, a) \<Rightarrow> Ret (mp, d\<lparr>dec_arena := a\<rparr>)))"

text \<open>
  \<^verbatim>\<open>upb_Encode(&ent.message, entry, 0, ...)\<close> with the arena after it. The entry was parsed from the input,
  whose length bounds the nesting of its value.
\<close>

definition upb_Decoder_EncodeEntry ::
  "'a dec_env \<Rightarrow> upb_Message \<Rightarrow> upb_MiniTable \<Rightarrow> 'a upb_Decoder \<Rightarrow> ('a, bytes) dec_res" where
  "upb_Decoder_EncodeEntry C ent entry d =
     (case encode_message \<lparr>env_realloc = dec_realloc C, env_tables = dec_tables C, env_options = 0\<rparr> (input_rounds d) ent entry
             \<lparr> enc_arena = dec_arena d, enc_buf = [], enc_ptr = 0,
               enc_depth = uint (upb_EncodeOptions_GetEffectiveMaxDepth 0) \<rparr> of
        Ret (_, e) \<Rightarrow> Ret (take (enc_used e) (drop (enc_ptr e) (enc_buf e)), d\<lparr>dec_arena := enc_arena e\<rparr>)
      | Raise _ \<Rightarrow> Raise kUpb_DecodeStatus_OutOfMemory
      | Fault \<Rightarrow> Fault)"

definition decoder_add_unknown_v ::
  "'a dec_env \<Rightarrow> upb_Message \<Rightarrow> bytes list \<Rightarrow> 'a upb_Decoder \<Rightarrow> ('a, upb_Message) dec_res" where
  "decoder_add_unknown_v C msg data d =
     bindR (upb_Message_AddUnknownV (dec_malloc C) (dec_realloc C) msg data (dec_arena d)) (\<lambda>(ok, msg', a).
       if ok then Ret (msg', d\<lparr>dec_arena := a\<rparr>) else Raise kUpb_DecodeStatus_OutOfMemory)"

text \<open>The entry on the stack, with the value that is created proactively.\<close>

definition new_map_entry ::
  "'a dec_env \<Rightarrow> upb_MiniTable \<Rightarrow> upb_MiniTableField \<Rightarrow> 'a upb_Decoder \<Rightarrow> ('a, upb_Message) dec_res" where
  "new_map_entry C entry val_field d =
     (if descriptortype val_field = kUpb_FieldType_Message \<or> descriptortype val_field = kUpb_FieldType_Group then
        bindR (upb_Decoder_NewSubMessage C (subs entry) val_field d) (\<lambda>((is_empty, submsg), d').
          Ret (msg_set empty_msg map_entry_v (CellMsg is_empty submsg), d'))
      else Ret (empty_msg, d))"

definition upb_Decoder_DecodeToMap ::
  "'a dec_env \<Rightarrow> 'a msg_decoder \<Rightarrow> 'a upb_Decoder \<Rightarrow> nat \<Rightarrow> upb_Message option \<Rightarrow> upb_Message \<Rightarrow> upb_MiniTableSub list
     \<Rightarrow> upb_MiniTableField \<Rightarrow> u64 \<Rightarrow> 'a store_res" where
  "upb_Decoder_DecodeToMap C dec d ptr orig msg ss f wv =
     bindR (pure (upb_MiniTableField_Type f)) (\<lambda>type.
     bindR (upb_MiniTableSubs_MessageByField ss f) (\<lambda>entry_ref.
     bindR (mini_table_of (dec_tables C) entry_ref) (\<lambda>entry.
     bindR (rd (mt_fields entry) 0) (\<lambda>key_field.
     bindR (rd (mt_fields entry) 1) (\<lambda>val_field.
       if type \<noteq> kUpb_FieldType_Message \<or> field_count entry \<noteq> 2
          \<or> \<not> upb_MiniTableField_IsScalar key_field \<or> \<not> upb_MiniTableField_IsScalar val_field then Fault
       else bindR (case msg_cell msg (offset f) of
                     Zero \<Rightarrow> upb_Decoder_CreateMap C entry d
                   | CellMap frozen ks vs t vals \<Rightarrow> Ret (CellMap frozen ks vs t vals, d)
                   | _ \<Rightarrow> Fault) (\<lambda>(mp, d1).
         bindR (new_map_entry C entry val_field d1) (\<lambda>(ent, d2).
         bindR (upb_Decoder_DecodeSubMessage dec d2 ptr ent ss f (unat (ucast wv :: u32))) (\<lambda>((p, ent'), d3).
           if upb_Message_HasUnknown ent' then
             let tag = push_bit 3 (of_nat (number f)) OR kUpb_WireType_Delimited in
             bindR (upb_Decoder_EncodeEntry C ent' entry d3) (\<lambda>(buf, d4).
             bindR (decoder_add_unknown_v C (msg_set msg (offset f) mp)
                 [upb_Decoder_EncodeVarint32 tag @ upb_Decoder_EncodeVarint32 (of_nat (length buf)), buf] d4) (\<lambda>(msg', d5).
               Ret ((p, orig, msg'), d5)))
           else
             bindR (pure (upb_Map_Insert (dec_malloc C) mp (msg_cell ent' map_entry_k) (msg_cell ent' map_entry_v) (dec_arena d3)))
               (\<lambda>(status, mp', a).
                 if status = kUpb_MapInsertStatus_OutOfMemory then Raise kUpb_DecodeStatus_OutOfMemory
                 else Ret ((p, orig, msg_set msg (offset f) mp'), d3\<lparr>dec_arena := a\<rparr>))))))))))"

subsection \<open>Scalar fields\<close>

text \<open>The presence of a field: the hasbit, or the oneof case, before which another member's pointer is cleared.\<close>

definition decode_set_presence :: "upb_Message \<Rightarrow> upb_MiniTableField \<Rightarrow> upb_DecodeOp \<Rightarrow> (upb_DecodeStatus, upb_Message) res" where
  "decode_set_presence msg f op =
     (if upb_MiniTableField_HasHasbit f then upb_Message_SetHasbit msg f
      else if upb_MiniTableField_IsInOneof f then
        bindR (upb_Message_GetOneofCase msg f) (\<lambda>oneof_case.
          upb_Message_SetOneofCase
            (if op = kUpb_DecodeOp_SubMessage \<and> oneof_case \<noteq> of_nat (number f) then msg_set msg (offset f) Zero else msg) f)
      else Ret msg)"

definition decode_store ::
  "'a dec_env \<Rightarrow> 'a msg_decoder \<Rightarrow> 'a upb_Decoder \<Rightarrow> nat \<Rightarrow> upb_Message option \<Rightarrow> upb_Message \<Rightarrow> upb_MiniTableSub list
     \<Rightarrow> upb_MiniTableField \<Rightarrow> u64 \<Rightarrow> upb_DecodeOp \<Rightarrow> 'a store_res" where
  "decode_store C dec d ptr orig msg ss f wv op =
     (let scalar = (\<lambda>lg2. Ret ((ptr, orig, msg_set msg (offset f) (wireval_cell lg2 wv)), d));
          bytes = bindR (upb_Decoder_ReadString C d ptr (unat (ucast wv :: u32))) (\<lambda>((s, p), d').
            Ret ((p, orig, msg_set msg (offset f) (CellStr s)), d'))
      in case op of
           kUpb_DecodeOp_SubMessage \<Rightarrow>
             bindR (case msg_cell msg (offset f) of
                      Zero \<Rightarrow> upb_Decoder_NewSubMessage C ss f d
                    | CellMsg is_empty existing \<Rightarrow> upb_Decoder_ReuseSubMessage C dec ss f is_empty existing d
                    | _ \<Rightarrow> Fault) (\<lambda>((is_empty, submsg), d1).
             bindR (decode_group_or_message dec d1 ptr submsg ss f wv) (\<lambda>((p, submsg'), d2).
               Ret ((p, orig, msg_set msg (offset f) (CellMsg is_empty submsg')), d2)))
         | kUpb_DecodeOp_String \<Rightarrow> bindR (upb_Decoder_VerifyUtf8 d ptr (unat (ucast wv :: u32))) (\<lambda>_. bytes)
         | kUpb_DecodeOp_Bytes \<Rightarrow> bytes
         | kUpb_DecodeOp_Scalar8Byte \<Rightarrow> scalar 3
         | kUpb_DecodeOp_Enum \<Rightarrow> scalar 2
         | kUpb_DecodeOp_Scalar4Byte \<Rightarrow> scalar 2
         | kUpb_DecodeOp_Scalar1Byte \<Rightarrow> scalar 0
         | _ \<Rightarrow> Fault)"

definition upb_Decoder_DecodeToSubMessage ::
  "'a dec_env \<Rightarrow> 'a msg_decoder \<Rightarrow> 'a upb_Decoder \<Rightarrow> nat \<Rightarrow> upb_Message option \<Rightarrow> upb_Message \<Rightarrow> upb_MiniTableSub list
     \<Rightarrow> upb_MiniTableField \<Rightarrow> u64 \<Rightarrow> upb_DecodeOp \<Rightarrow> 'a store_res" where
  "upb_Decoder_DecodeToSubMessage C dec d ptr orig msg ss f wv op =
     bindR (if op = kUpb_DecodeOp_Enum then
              bindR (upb_MiniTableSubs_EnumByField ss f) (\<lambda>e. upb_Decoder_CheckEnum C orig msg e f (ucast wv) d)
            else Ret ((True, orig, msg), d)) (\<lambda>((ok, orig1, msg1), d1).
       if \<not> ok then Ret ((ptr, orig1, msg1), d1)
       else bindR (decode_set_presence msg1 f op) (\<lambda>msg2. decode_store C dec d1 ptr orig1 msg2 ss f wv op))"

definition upb_Decoder_CheckRequired ::
  "'a dec_env \<Rightarrow> 'a upb_Decoder \<Rightarrow> upb_Message \<Rightarrow> upb_MiniTable \<Rightarrow> (upb_DecodeStatus, 'a upb_Decoder) res" where
  "upb_Decoder_CheckRequired C d msg m =
     (if required_count m = 0 then Fault
      else if dec_options C AND kUpb_DecodeOption_CheckRequired \<noteq> 0 then
        bindR (upb_Message_IsInitializedShallow msg m) (\<lambda>b. Ret (d\<lparr>dec_missing_required := \<not> b\<rparr>))
      else Ret d)"

subsection \<open>Message sets\<close>

definition upb_Decoder_SkipField :: "'a msg_decoder \<Rightarrow> 'a upb_Decoder \<Rightarrow> nat \<Rightarrow> u32 \<Rightarrow> ('a, nat) dec_res" where
  "upb_Decoder_SkipField dec d ptr tag =
     (let field_number = drop_bit 3 tag; wire_type = tag AND 7 in
      if wire_type = kUpb_WireType_Varint then
        bindR (upb_Decoder_DecodeVarint (eps_buf (dec_input d)) ptr) (\<lambda>(p, _). Ret (p, d))
      else if wire_type = kUpb_WireType_64Bit then Ret (ptr + 8, d)
      else if wire_type = kUpb_WireType_32Bit then Ret (ptr + 4, d)
      else if wire_type = kUpb_WireType_Delimited then
        bindR (upb_Decoder_DecodeSize d ptr) (\<lambda>(p, size'). Ret (p + unat size', d))
      else if wire_type = kUpb_WireType_StartGroup then upb_Decoder_DecodeUnknownGroup dec d ptr field_number
      else Raise kUpb_DecodeStatus_Malformed)"

abbreviation (input) kStartItemTag :: u32 where "kStartItemTag \<equiv> 11"
abbreviation (input) kEndItemTag :: u32 where "kEndItemTag \<equiv> 12"
abbreviation (input) kTypeIdTag :: u32 where "kTypeIdTag \<equiv> 16"
abbreviation (input) kMessageTag :: u32 where "kMessageTag \<equiv> 26"

definition msg_set_aux :: "upb_Message \<Rightarrow> nat \<Rightarrow> upb_aux \<Rightarrow> upb_Message" where
  "msg_set_aux msg i x = upb_Message (msg_frozen msg) (msg_cap msg) (msg_mem msg) ((msg_aux msg)[i := x])"

text \<open>The slot of an extension, or the error.\<close>

definition decoder_get_extension ::
  "'a dec_env \<Rightarrow> upb_Message \<Rightarrow> upb_MiniTableExtension \<Rightarrow> 'a upb_Decoder \<Rightarrow> ('a, nat \<times> upb_Message) dec_res" where
  "decoder_get_extension C msg x d =
     bindR (upb_Message_GetOrCreateExtension (dec_malloc C) (dec_realloc C) msg x (dec_arena d)) (\<lambda>(slot, msg', a).
       case slot of
         None \<Rightarrow> Raise kUpb_DecodeStatus_OutOfMemory
       | Some i \<Rightarrow> Ret ((i, msg'), d\<lparr>dec_arena := a\<rparr>))"

definition upb_Decoder_AddKnownMessageSetItem ::
  "'a dec_env \<Rightarrow> 'a msg_decoder \<Rightarrow> upb_Message \<Rightarrow> upb_MiniTableExtension \<Rightarrow> bytes \<Rightarrow> 'a upb_Decoder \<Rightarrow> ('a, upb_Message) dec_res" where
  "upb_Decoder_AddKnownMessageSetItem C dec msg item_mt data d =
     bindR (decoder_get_extension C msg item_mt d) (\<lambda>((i, msg1), d1).
       case ext_sub item_mt of
         Some (Submsg subl) \<Rightarrow>
           bindR (upb_Decoder_NewSubMessage2 C subl (ext_field item_mt) d1) (\<lambda>((is_empty, submsg), d2).
           bindR (upb_Decoder_Nested C dec data subl submsg d2) (\<lambda>(submsg', d3).
             Ret (msg_set_aux msg1 i (AuxExt item_mt (CellMsg is_empty submsg')), d3)))
       | _ \<Rightarrow> Fault)"

definition upb_Decoder_AddUnknownMessageSetItem ::
  "'a dec_env \<Rightarrow> upb_Message \<Rightarrow> u32 \<Rightarrow> bytes \<Rightarrow> 'a upb_Decoder \<Rightarrow> ('a, upb_Message) dec_res" where
  "upb_Decoder_AddUnknownMessageSetItem C msg type_id message_data d =
     decoder_add_unknown_v C msg
       [upb_Decoder_EncodeVarint32 kStartItemTag @ upb_Decoder_EncodeVarint32 kTypeIdTag @ upb_Decoder_EncodeVarint32 type_id
          @ upb_Decoder_EncodeVarint32 kMessageTag @ upb_Decoder_EncodeVarint32 (of_nat (length message_data)),
        message_data, upb_Decoder_EncodeVarint32 kEndItemTag] d"

text \<open>\<^verbatim>\<open>upb_ExtensionRegistry_Lookup(d->extreg, ...)\<close>; a message set item is only found when there is a registry.\<close>

definition extreg_lookup :: "'a dec_env \<Rightarrow> mt_ref \<Rightarrow> u32 \<Rightarrow> (upb_DecodeStatus, upb_MiniTableExtension option) res" where
  "extreg_lookup C t n =
     (case dec_extreg C of None \<Rightarrow> Fault | Some r \<Rightarrow> pure (upb_ExtensionRegistry_Lookup r t n))"

definition upb_Decoder_AddMessageSetItem ::
  "'a dec_env \<Rightarrow> 'a msg_decoder \<Rightarrow> upb_Message \<Rightarrow> mt_ref \<Rightarrow> u32 \<Rightarrow> bytes \<Rightarrow> 'a upb_Decoder \<Rightarrow> ('a, upb_Message) dec_res" where
  "upb_Decoder_AddMessageSetItem C dec msg t type_id data d =
     bindR (extreg_lookup C t type_id) (\<lambda>item_mt.
       case item_mt of
         Some x \<Rightarrow> upb_Decoder_AddKnownMessageSetItem C dec msg x data d
       | None \<Rightarrow> upb_Decoder_AddUnknownMessageSetItem C msg type_id data d)"

text \<open>
  The loop of \<^verbatim>\<open>upb_Decoder_DecodeMessageSetItem\<close>, with \<^verbatim>\<open>type_id\<close> and the payload once they were seen. A
  payload is a view of the bytes at its pointer, which it keeps when it is preserved: \<^verbatim>\<open>preserved.data\<close> points
  into the current buffer. After the buffer was flipped that pointer still refers to the caller's memory.
\<close>

fun message_set_item_loop ::
  "nat \<Rightarrow> 'a dec_env \<Rightarrow> 'a msg_decoder \<Rightarrow> mt_ref \<Rightarrow> u32 option \<Rightarrow> bytes option \<Rightarrow> 'a upb_Decoder \<Rightarrow> nat \<Rightarrow> upb_Message
     \<Rightarrow> ('a, nat \<times> upb_Message) dec_res" where
  "message_set_item_loop 0 C dec layout type_id payload d ptr msg = Fault"
| "message_set_item_loop (Suc n) C dec layout type_id payload d ptr msg =
     bindR (upb_Decoder_IsDone (dec_input d) ptr) (\<lambda>(is_done, p, e).
       let d1 = d\<lparr>dec_input := e\<rparr> in
       if is_done then Raise kUpb_DecodeStatus_Malformed
       else bindR (upb_Decoder_DecodeTag (eps_buf e) p) (\<lambda>(p1, tag).
         if tag = kEndItemTag then Ret ((p1, msg), d1)
         else if tag = kTypeIdTag then
           bindR (upb_Decoder_DecodeVarint (eps_buf e) p1) (\<lambda>(p2, tmp).
             if \<not> Option.is_none type_id then message_set_item_loop n C dec layout type_id payload d1 p2 msg
             else case payload of
                 None \<Rightarrow> message_set_item_loop n C dec layout (Some (ucast tmp)) payload d1 p2 msg
               | Some data \<Rightarrow>
                   bindR (upb_Decoder_AddMessageSetItem C dec msg layout (ucast tmp) data d1) (\<lambda>(msg', d2).
                     message_set_item_loop n C dec layout (Some (ucast tmp)) payload d2 p2 msg'))
         else if tag = kMessageTag then
           bindR (upb_Decoder_DecodeSize d1 p1) (\<lambda>(p2, size').
             if \<not> Option.is_none payload then message_set_item_loop n C dec layout type_id payload d1 (p2 + unat size') msg
             else bindR (rd_bytes (eps_buf e) p2 (unat size')) (\<lambda>data.
               case type_id of
                 None \<Rightarrow> message_set_item_loop n C dec layout type_id (Some data) d1 (p2 + unat size') msg
               | Some i \<Rightarrow>
                   bindR (upb_Decoder_AddMessageSetItem C dec msg layout i data d1) (\<lambda>(msg', d2).
                     message_set_item_loop n C dec layout type_id (Some data) d2 (p2 + unat size') msg')))
         else bindR (upb_Decoder_SkipField dec d1 p1 tag) (\<lambda>(p2, d2).
           message_set_item_loop n C dec layout type_id payload d2 p2 msg)))"

definition upb_Decoder_DecodeMessageSetItem ::
  "'a dec_env \<Rightarrow> 'a msg_decoder \<Rightarrow> 'a upb_Decoder \<Rightarrow> nat \<Rightarrow> upb_Message \<Rightarrow> mt_ref \<Rightarrow> ('a, nat \<times> upb_Message) dec_res" where
  "upb_Decoder_DecodeMessageSetItem C dec d ptr msg layout =
     message_set_item_loop (input_rounds d) C dec layout None None d ptr msg"

subsection \<open>Fields\<close>

text \<open>The two linear searches of \<^verbatim>\<open>_upb_Decoder_FindField\<close>, over the indices from \<open>idx\<close> up to \<open>stop\<close>.\<close>

function find_field_scan :: "upb_MiniTableField list \<Rightarrow> nat \<Rightarrow> nat \<Rightarrow> nat \<Rightarrow> ('e, nat option) res" where
  "find_field_scan fs n idx stop =
     (if idx < stop then
        bindR (rd fs idx) (\<lambda>f. if number f = n then Ret (Some idx) else find_field_scan fs n (idx + 1) stop)
      else Ret None)"
  by pat_completeness auto
termination
  by (relation "measure (\<lambda>(fs, n, idx, stop). stop - idx)") auto

declare find_field_scan.simps [simp del]

text \<open>The index of a field of the table; \<^verbatim>\<open>0 - 1\<close> wraps to \<^verbatim>\<open>SIZE_MAX\<close>, which is not below \<^verbatim>\<open>dense_below\<close>.\<close>

definition find_field_index :: "upb_MiniTable \<Rightarrow> nat \<Rightarrow> nat \<Rightarrow> ('e, nat option) res" where
  "find_field_index t n last_idx =
     (if 0 < n \<and> n - 1 < dense_below t then Ret (Some (n - 1))
      else if dense_below t < field_count t then
        bindR (find_field_scan (mt_fields t) n last_idx (field_count t)) (\<lambda>r.
          case r of Some i \<Rightarrow> Ret (Some i) | None \<Rightarrow> find_field_scan (mt_fields t) n (dense_below t) last_idx)
      else Ret None)"

definition find_extension :: "'a dec_env \<Rightarrow> mt_ref \<Rightarrow> upb_MiniTable \<Rightarrow> u32 \<Rightarrow> (upb_DecodeStatus, found_field) res" where
  "find_extension C r t n =
     (if Option.is_none (dec_extreg C) then Ret FieldNone
      else if ext t = kUpb_ExtMode_Extendable then
        bindR (extreg_lookup C r n) (\<lambda>x. Ret (case x of Some e \<Rightarrow> FieldExt e | None \<Rightarrow> FieldNone))
      else if ext t = kUpb_ExtMode_IsMessageSet \<and> n = of_nat kUpb_MsgSet_Item then Ret FieldItem
      else Ret FieldNone)"

text \<open>The field and the new \<^verbatim>\<open>last_field_index\<close>.\<close>

definition upb_Decoder_FindField ::
  "'a dec_env \<Rightarrow> (mt_ref \<times> upb_Message) option \<Rightarrow> u32 \<Rightarrow> nat \<Rightarrow> (upb_DecodeStatus, found_field \<times> nat) res" where
  "upb_Decoder_FindField C target n last_idx =
     (case target of
        None \<Rightarrow> Ret (FieldNone, last_idx)
      | Some (r, _) \<Rightarrow>
          bindR (mini_table_of (dec_tables C) r) (\<lambda>t.
          bindR (find_field_index t (unat n) last_idx) (\<lambda>i.
            case i of
              Some idx \<Rightarrow>
                bindR (rd (mt_fields t) idx) (\<lambda>f. if number f = unat n then Ret (FieldKnown f, idx) else Fault)
            | None \<Rightarrow> bindR (find_extension C r t n) (\<lambda>ff. Ret (ff, last_idx)))))"

fun kVarintOps :: "upb_FieldType \<Rightarrow> upb_DecodeOp" where
  "kVarintOps kUpb_FieldType_Int64 = kUpb_DecodeOp_Scalar8Byte"
| "kVarintOps kUpb_FieldType_UInt64 = kUpb_DecodeOp_Scalar8Byte"
| "kVarintOps kUpb_FieldType_Int32 = kUpb_DecodeOp_Scalar4Byte"
| "kVarintOps kUpb_FieldType_Bool = kUpb_DecodeOp_Scalar1Byte"
| "kVarintOps kUpb_FieldType_UInt32 = kUpb_DecodeOp_Scalar4Byte"
| "kVarintOps kUpb_FieldType_Enum = kUpb_DecodeOp_Enum"
| "kVarintOps kUpb_FieldType_SInt32 = kUpb_DecodeOp_Scalar4Byte"
| "kVarintOps kUpb_FieldType_SInt64 = kUpb_DecodeOp_Scalar8Byte"
| "kVarintOps _ = kUpb_DecodeOp_UnknownField"

definition upb_Decoder_GetVarintOp :: "found_field \<Rightarrow> upb_DecodeOp" where
  "upb_Decoder_GetVarintOp ff =
     (case found_real ff of Some f \<Rightarrow> kVarintOps (descriptortype f) | None \<Rightarrow> kUpb_DecodeOp_UnknownField)"

text \<open>
  \<^verbatim>\<open>_upb_Decoder_CheckUnlinked\<close>, without the assertions on oneofs that are compiled in debug builds only.
\<close>

definition upb_Decoder_CheckUnlinked ::
  "'a dec_env \<Rightarrow> upb_MiniTable \<Rightarrow> upb_MiniTableField \<Rightarrow> (upb_DecodeStatus, upb_DecodeOp) res" where
  "upb_Decoder_CheckUnlinked C mt f =
     (if upb_MiniTableField_IsExtension f then Ret kUpb_DecodeOp_SubMessage
      else bindR (upb_MiniTableSubs_MessageByField (subs mt) f) (\<lambda>mt_sub.
        if dec_options C AND kUpb_DecodeOption_ExperimentalAllowUnlinked \<noteq> 0 \<or> mt_sub \<noteq> MtEmpty
        then Ret kUpb_DecodeOp_SubMessage else Ret kUpb_DecodeOp_UnknownField))"

definition upb_Decoder_MaybeVerifyUtf8 :: "'a dec_env \<Rightarrow> upb_MiniTableField \<Rightarrow> upb_DecodeOp" where
  "upb_Decoder_MaybeVerifyUtf8 C f =
     (if mode f AND kUpb_LabelFlags_IsAlternate \<noteq> 0 \<and> dec_options C AND kUpb_DecodeOption_AlwaysValidateUtf8 \<noteq> 0
      then kUpb_DecodeOp_String else kUpb_DecodeOp_Bytes)"

text \<open>The two halves of \<^verbatim>\<open>kDelimitedOps\<close>.\<close>

fun kDelimitedOps :: "upb_FieldType \<Rightarrow> upb_DecodeOp" where
  "kDelimitedOps kUpb_FieldType_String = kUpb_DecodeOp_String"
| "kDelimitedOps kUpb_FieldType_Message = kUpb_DecodeOp_SubMessage"
| "kDelimitedOps kUpb_FieldType_Bytes = kUpb_DecodeOp_Bytes"
| "kDelimitedOps _ = kUpb_DecodeOp_UnknownField"

fun kRepeatedOps :: "upb_FieldType \<Rightarrow> upb_DecodeOp" where
  "kRepeatedOps kUpb_FieldType_Double = OP_FIXPCK_LG2 3"
| "kRepeatedOps kUpb_FieldType_Float = OP_FIXPCK_LG2 2"
| "kRepeatedOps kUpb_FieldType_Int64 = OP_VARPCK_LG2 3"
| "kRepeatedOps kUpb_FieldType_UInt64 = OP_VARPCK_LG2 3"
| "kRepeatedOps kUpb_FieldType_Int32 = OP_VARPCK_LG2 2"
| "kRepeatedOps kUpb_FieldType_Fixed64 = OP_FIXPCK_LG2 3"
| "kRepeatedOps kUpb_FieldType_Fixed32 = OP_FIXPCK_LG2 2"
| "kRepeatedOps kUpb_FieldType_Bool = OP_VARPCK_LG2 0"
| "kRepeatedOps kUpb_FieldType_String = kUpb_DecodeOp_String"
| "kRepeatedOps kUpb_FieldType_Group = kUpb_DecodeOp_SubMessage"
| "kRepeatedOps kUpb_FieldType_Message = kUpb_DecodeOp_SubMessage"
| "kRepeatedOps kUpb_FieldType_Bytes = kUpb_DecodeOp_Bytes"
| "kRepeatedOps kUpb_FieldType_UInt32 = OP_VARPCK_LG2 2"
| "kRepeatedOps kUpb_FieldType_Enum = kUpb_DecodeOp_PackedEnum"
| "kRepeatedOps kUpb_FieldType_SFixed32 = OP_FIXPCK_LG2 2"
| "kRepeatedOps kUpb_FieldType_SFixed64 = OP_FIXPCK_LG2 3"
| "kRepeatedOps kUpb_FieldType_SInt32 = OP_VARPCK_LG2 2"
| "kRepeatedOps kUpb_FieldType_SInt64 = OP_VARPCK_LG2 3"

definition upb_Decoder_GetDelimitedOp ::
  "'a dec_env \<Rightarrow> upb_MiniTable option \<Rightarrow> found_field \<Rightarrow> (upb_DecodeStatus, upb_DecodeOp) res" where
  "upb_Decoder_GetDelimitedOp C mt ff =
     (case found_real ff of
        None \<Rightarrow> Ret kUpb_DecodeOp_UnknownField
      | Some f \<Rightarrow>
          let op = (if upb_MiniTableField_IsArray f then kRepeatedOps else kDelimitedOps) (descriptortype f) in
          if op = kUpb_DecodeOp_SubMessage then
            (case mt of None \<Rightarrow> Fault | Some m \<Rightarrow> upb_Decoder_CheckUnlinked C m f)
          else if op = kUpb_DecodeOp_Bytes then Ret (upb_Decoder_MaybeVerifyUtf8 C f)
          else Ret op)"

definition kFixed32OkMask :: "upb_FieldType set" where
  "kFixed32OkMask = {kUpb_FieldType_Float, kUpb_FieldType_Fixed32, kUpb_FieldType_SFixed32}"

definition kFixed64OkMask :: "upb_FieldType set" where
  "kFixed64OkMask = {kUpb_FieldType_Double, kUpb_FieldType_Fixed64, kUpb_FieldType_SFixed64}"

definition fixed_op :: "upb_FieldType set \<Rightarrow> upb_DecodeOp \<Rightarrow> found_field \<Rightarrow> upb_DecodeOp" where
  "fixed_op ok_mask op ff =
     (case found_real ff of
        Some f \<Rightarrow> if descriptortype f \<in> ok_mask then op else kUpb_DecodeOp_UnknownField
      | None \<Rightarrow> kUpb_DecodeOp_UnknownField)"

definition upb_WireReader_ReadFixed32 :: "bytes \<Rightarrow> nat \<Rightarrow> ('e, nat \<times> u32) res" where
  "upb_WireReader_ReadFixed32 buf ptr = bindR (rd_le buf ptr 4) (\<lambda>w. Ret (ptr + 4, ucast w))"

definition upb_WireReader_ReadFixed64 :: "bytes \<Rightarrow> nat \<Rightarrow> ('e, nat \<times> u64) res" where
  "upb_WireReader_ReadFixed64 buf ptr = bindR (rd_le buf ptr 8) (\<lambda>w. Ret (ptr + 8, w))"

text \<open>
  \<^verbatim>\<open>_upb_Decoder_DecodeWireValue\<close>: the pointer, the value and the action. The bytes of a \<^verbatim>\<open>wireval\<close> above the
  ones that are written are not read.
\<close>

definition upb_Decoder_DecodeWireValue ::
  "'a dec_env \<Rightarrow> 'a upb_Decoder \<Rightarrow> nat \<Rightarrow> upb_MiniTable option \<Rightarrow> found_field \<Rightarrow> u32 \<Rightarrow> (upb_DecodeStatus, nat \<times> u64 \<times> upb_DecodeOp) res" where
  "upb_Decoder_DecodeWireValue C d ptr mt ff wire_type =
     (let buf = eps_buf (dec_input d); type = map_option descriptortype (found_real ff) in
      if wire_type = kUpb_WireType_Varint then
        bindR (upb_Decoder_DecodeVarint buf ptr) (\<lambda>(p, v). Ret (p, upb_Decoder_Munge type v, upb_Decoder_GetVarintOp ff))
      else if wire_type = kUpb_WireType_32Bit then
        bindR (upb_WireReader_ReadFixed32 buf ptr) (\<lambda>(p, v). Ret (p, ucast v, fixed_op kFixed32OkMask kUpb_DecodeOp_Scalar4Byte ff))
      else if wire_type = kUpb_WireType_64Bit then
        bindR (upb_WireReader_ReadFixed64 buf ptr) (\<lambda>(p, v). Ret (p, v, fixed_op kFixed64OkMask kUpb_DecodeOp_Scalar8Byte ff))
      else if wire_type = kUpb_WireType_Delimited then
        bindR (upb_Decoder_DecodeSize d ptr) (\<lambda>(p, size').
        bindR (upb_Decoder_GetDelimitedOp C mt ff) (\<lambda>op. Ret (p, ucast size', op)))
      else if wire_type = kUpb_WireType_StartGroup then
        (case ff of
           FieldItem \<Rightarrow> Ret (ptr, 0, kUpb_DecodeOp_MessageSetItem)
         | _ \<Rightarrow>
             (case found_real ff of
                Some f \<Rightarrow>
                  if descriptortype f = kUpb_FieldType_Group then
                    (case mt of
                       None \<Rightarrow> Fault
                     | Some m \<Rightarrow> bindR (upb_Decoder_CheckUnlinked C m f) (\<lambda>op. Ret (ptr, of_nat (number f), op)))
                  else Ret (ptr, of_nat (number f), kUpb_DecodeOp_UnknownField)
              | None \<Rightarrow> Ret (ptr, 0, kUpb_DecodeOp_UnknownField)))
      else Raise kUpb_DecodeStatus_Malformed)"

subsection \<open>Messages\<close>

text \<open>
  \<^verbatim>\<open>_upb_Decoder_DecodeKnownField\<close>. An extension is stored into the value of its slot as into a message with
  the field at offset 0, and its sub-table is the only one.
\<close>

definition decode_to_field ::
  "'a dec_env \<Rightarrow> 'a msg_decoder \<Rightarrow> 'a upb_Decoder \<Rightarrow> nat \<Rightarrow> upb_Message option \<Rightarrow> upb_Message \<Rightarrow> upb_MiniTableSub list
     \<Rightarrow> upb_MiniTableField \<Rightarrow> u64 \<Rightarrow> upb_DecodeOp \<Rightarrow> 'a store_res" where
  "decode_to_field C dec d ptr orig msg ss f wv op =
     (if upb_MiniTableField_Mode f = kUpb_FieldMode_Array then upb_Decoder_DecodeToArray C dec d ptr orig msg ss f wv op
      else if upb_MiniTableField_Mode f = kUpb_FieldMode_Map then upb_Decoder_DecodeToMap C dec d ptr orig msg ss f wv
      else if upb_MiniTableField_Mode f = kUpb_FieldMode_Scalar
      then upb_Decoder_DecodeToSubMessage C dec d ptr orig msg ss f wv op
      else Fault)"

definition decode_to_extension ::
  "'a dec_env \<Rightarrow> 'a msg_decoder \<Rightarrow> 'a upb_Decoder \<Rightarrow> nat \<Rightarrow> upb_Message \<Rightarrow> upb_MiniTableExtension \<Rightarrow> u64 \<Rightarrow> upb_DecodeOp
     \<Rightarrow> ('a, nat \<times> upb_Message) dec_res" where
  "decode_to_extension C dec d ptr msg x wv op =
     bindR (decoder_get_extension C msg x d) (\<lambda>((i, msg1), d1).
     bindR (rd (msg_aux msg1) i) (\<lambda>slot.
       case slot of
         AuxExt _ c \<Rightarrow>
           bindR (decode_to_field C dec d1 ptr (Some msg1) (ext_msg_val c) (ext_subs x) (ext_field x) wv op)
             (\<lambda>((p, orig, em), d2).
               case orig of
                 None \<Rightarrow> Fault
               | Some msg2 \<Rightarrow> Ret ((p, msg_set_aux msg2 i (AuxExt x (msg_cell em 0))), d2))
       | _ \<Rightarrow> Fault))"

definition upb_Decoder_DecodeKnownField ::
  "'a dec_env \<Rightarrow> 'a msg_decoder \<Rightarrow> 'a upb_Decoder \<Rightarrow> nat \<Rightarrow> upb_Message \<Rightarrow> upb_MiniTable \<Rightarrow> found_field \<Rightarrow> upb_DecodeOp \<Rightarrow> u64
     \<Rightarrow> ('a, nat \<times> upb_Message) dec_res" where
  "upb_Decoder_DecodeKnownField C dec d ptr msg layout ff op wv =
     (case found_real ff of
        None \<Rightarrow> Fault
      | Some f \<Rightarrow>
          if upb_MiniTableField_IsExtension f then
            (case ff of FieldExt x \<Rightarrow> decode_to_extension C dec d ptr msg x wv op | _ \<Rightarrow> Fault)
          else bindR (decode_to_field C dec d ptr None msg (subs layout) f wv op) (\<lambda>((p, _, msg'), d'). Ret ((p, msg'), d')))"

text \<open>The start of the tag of an unknown field whose value ends at \<open>ptr\<close>: \<^verbatim>\<open>while (start[-1] & 0x80) start--\<close> and the reverse scan.\<close>

fun varint_start :: "bytes \<Rightarrow> nat \<Rightarrow> ('e, nat) res" where
  "varint_start buf 0 = Fault"
| "varint_start buf (Suc start) =
     bindR (rd buf start) (\<lambda>b. if b AND 0x80 \<noteq> 0 then varint_start buf start else Ret (Suc start))"

definition unknown_value_start :: "bytes \<Rightarrow> nat \<Rightarrow> u32 \<Rightarrow> ('e, nat) res" where
  "unknown_value_start buf start wire_type =
     (if wire_type = kUpb_WireType_Varint \<or> wire_type = kUpb_WireType_Delimited
      then (if start = 0 then Fault else varint_start buf (start - 1))
      else if wire_type = kUpb_WireType_32Bit then (if start < 4 then Fault else Ret (start - 4))
      else if wire_type = kUpb_WireType_64Bit then (if start < 8 then Fault else Ret (start - 8))
      else Ret start)"

definition upb_Decoder_DecodeUnknownField ::
  "'a dec_env \<Rightarrow> 'a msg_decoder \<Rightarrow> 'a upb_Decoder \<Rightarrow> nat \<Rightarrow> upb_Message option \<Rightarrow> u32 \<Rightarrow> u32 \<Rightarrow> u64
     \<Rightarrow> ('a, nat \<times> upb_Message option) dec_res" where
  "upb_Decoder_DecodeUnknownField C dec d ptr msg field_number wire_type wv =
     (if field_number = 0 then Raise kUpb_DecodeStatus_Malformed
      else
        let ptr1 = (if wire_type = kUpb_WireType_Delimited then ptr + unat (ucast wv :: u32) else ptr) in
        case msg of
          Some m \<Rightarrow>
            bindR (unknown_value_start (eps_buf (dec_input d)) ptr wire_type) (\<lambda>start.
              let tag = push_bit 3 field_number OR wire_type in
              bindR (upb_Decoder_ReverseSkipVarint (eps_buf (dec_input d)) start tag) (\<lambda>start1.
                let input_start = upb_EpsCopyInputStream_GetInputPtr (dec_input d) start1 in
                bindR (if wire_type = kUpb_WireType_StartGroup
                       then upb_Decoder_DecodeUnknownGroup dec d ptr1 field_number else Ret (ptr1, d)) (\<lambda>(ptr2, d1).
                bindR (upb_Decoder_IsDone (dec_input d1) ptr2) (\<lambda>(_, ptr3, e).
                  let input_ptr = upb_EpsCopyInputStream_GetInputPtr e ptr3 in
                  bindR (rd_bytes (eps_input e) input_start (input_ptr - input_start)) (\<lambda>data.
                  bindR (decoder_add_unknown C m data (eps_aliasing e) (d1\<lparr>dec_input := e\<rparr>)) (\<lambda>(m', d2).
                    Ret ((ptr3, Some m'), d2)))))))
        | None \<Rightarrow>
            if wire_type = kUpb_WireType_StartGroup
            then bindR (upb_Decoder_DecodeUnknownGroup dec d ptr1 field_number) (\<lambda>(p, d1). Ret ((p, None), d1))
            else Ret ((ptr1, None), d))"

text \<open>One field after its tag.\<close>

definition decode_field ::
  "'a dec_env \<Rightarrow> 'a msg_decoder \<Rightarrow> 'a upb_Decoder \<Rightarrow> nat \<Rightarrow> (mt_ref \<times> upb_Message) option \<Rightarrow> found_field \<Rightarrow> u32 \<Rightarrow> u32
     \<Rightarrow> ('a, nat \<times> upb_Message option) dec_res" where
  "decode_field C dec d ptr target ff field_number wire_type =
     bindR (case target of None \<Rightarrow> Ret None | Some (r, _) \<Rightarrow> bindR (mini_table_of (dec_tables C) r) (\<lambda>m. Ret (Some m))) (\<lambda>layout.
     bindR (upb_Decoder_DecodeWireValue C d ptr layout ff wire_type) (\<lambda>(p, wv, op).
       if op = kUpb_DecodeOp_UnknownField then
         upb_Decoder_DecodeUnknownField C dec d p (map_option snd target) field_number wire_type wv
       else case target of
           None \<Rightarrow> Fault
         | Some (r, msg) \<Rightarrow>
             bindR (if op = kUpb_DecodeOp_MessageSetItem then upb_Decoder_DecodeMessageSetItem C dec d p msg r
                    else case layout of
                        None \<Rightarrow> Fault
                      | Some m \<Rightarrow> upb_Decoder_DecodeKnownField C dec d p msg m ff op wv) (\<lambda>((p', msg'), d').
               Ret ((p', Some msg'), d'))))"

text \<open>The end of \<^verbatim>\<open>_upb_Decoder_DecodeMessage\<close> when the stream is done.\<close>

definition decode_finish ::
  "'a dec_env \<Rightarrow> 'a upb_Decoder \<Rightarrow> nat \<Rightarrow> (mt_ref \<times> upb_Message) option \<Rightarrow> ('a, nat \<times> upb_Message option) dec_res" where
  "decode_finish C d ptr target =
     (case target of
        None \<Rightarrow> Ret ((ptr, None), d)
      | Some (r, msg) \<Rightarrow>
          bindR (mini_table_of (dec_tables C) r) (\<lambda>m.
            if required_count m \<noteq> 0
            then bindR (upb_Decoder_CheckRequired C d msg m) (\<lambda>d'. Ret ((ptr, Some msg), d'))
            else Ret ((ptr, Some msg), d)))"

fun decode_message_loop ::
  "nat \<Rightarrow> 'a dec_env \<Rightarrow> 'a msg_decoder \<Rightarrow> nat \<Rightarrow> 'a upb_Decoder \<Rightarrow> nat \<Rightarrow> (mt_ref \<times> upb_Message) option
     \<Rightarrow> ('a, nat \<times> upb_Message option) dec_res" where
  "decode_message_loop 0 C dec last_field_index d ptr target = Fault"
| "decode_message_loop (Suc n) C dec last_field_index d ptr target =
     bindR (upb_Decoder_IsDone (dec_input d) ptr) (\<lambda>(is_done, p, e).
       let d1 = d\<lparr>dec_input := e\<rparr> in
       if is_done then decode_finish C d1 p target
       else if \<not> int p < eps_limit_ptr e then Fault
       else bindR (upb_Decoder_DecodeTag (eps_buf e) p) (\<lambda>(p1, tag).
         let field_number = drop_bit 3 tag; wire_type = tag AND 7 in
         if wire_type = kUpb_WireType_EndGroup
         then Ret ((p1, map_option snd target), d1\<lparr>dec_end_group := field_number\<rparr>)
         else bindR (upb_Decoder_FindField C target field_number last_field_index) (\<lambda>(ff, last_field_index').
           bindR (decode_field C dec d1 p1 target ff field_number wire_type) (\<lambda>((p2, msg'), d2).
             decode_message_loop n C dec last_field_index' d2 p2
               (case (target, msg') of (Some (r, _), Some m) \<Rightarrow> Some (r, m) | _ \<Rightarrow> None)))))"

text \<open>
  \<^verbatim>\<open>_upb_Decoder_DecodeMessage\<close>. The fuel bounds the nesting of messages, groups and nested parses, and the
  length of the input bounds the number of fields.
\<close>

fun upb_Decoder_DecodeMessage :: "'a dec_env \<Rightarrow> nat \<Rightarrow> 'a msg_decoder" where
  "upb_Decoder_DecodeMessage C 0 d ptr target = Fault"
| "upb_Decoder_DecodeMessage C (Suc fuel) d ptr target =
     decode_message_loop (input_rounds d) C (upb_Decoder_DecodeMessage C fuel) 0 d ptr target"

subsection \<open>Entry points\<close>

text \<open>The environment has the low 16 bits of the options; \<open>options\<close> are all of them.\<close>

definition upb_Decode ::
  "'a dec_env \<Rightarrow> nat \<Rightarrow> bytes \<Rightarrow> upb_Message \<Rightarrow> mt_ref \<Rightarrow> u32 \<Rightarrow> 'a \<Rightarrow> (unit, upb_DecodeStatus \<times> (upb_Message \<times> 'a) option) res" where
  "upb_Decode C fuel buf msg m options a =
     upb_Decode_with (upb_Decoder_DecodeMessage (C\<lparr>dec_options := ucast options\<rparr>) fuel) buf msg m options a"

text \<open>
  The loop of \<^verbatim>\<open>upb_DecodeLengthPrefixed\<close> over the bytes of the length: the length of the message and
  \<^verbatim>\<open>*num_bytes_read\<close>, or \<open>None\<close> for a malformed length. \<^verbatim>\<open>*buf\<close> is a \<^verbatim>\<open>char\<close>, which is signed on the target
  platforms; the masks take the low bits of its value only.
\<close>

function length_prefix_loop :: "bytes \<Rightarrow> nat \<Rightarrow> u64 \<Rightarrow> (u64 \<times> u64) option" where
  "length_prefix_loop buf i msg_len =
     (if length buf \<le> i \<or> 9 < i then None
      else
        let b = scast (buf ! i) :: u64; msg_len' = msg_len + push_bit (i * 7) (b AND 0x7f) in
        if b AND 0x80 = 0 then Some (msg_len', of_nat (i + 1) + msg_len')
        else length_prefix_loop buf (i + 1) msg_len')"
  by pat_completeness auto
termination
  by (relation "measure (\<lambda>(buf, i, _). 10 - i)") auto

declare length_prefix_loop.simps [simp del]

definition upb_DecodeLengthPrefixed ::
  "'a dec_env \<Rightarrow> nat \<Rightarrow> bytes \<Rightarrow> upb_Message \<Rightarrow> mt_ref \<Rightarrow> u32 \<Rightarrow> 'a
     \<Rightarrow> (unit, upb_DecodeStatus \<times> u64 option \<times> (upb_Message \<times> 'a) option) res" where
  "upb_DecodeLengthPrefixed C fuel buf msg m options a =
     (case length_prefix_loop buf 0 0 of
        None \<Rightarrow> Ret (kUpb_DecodeStatus_Malformed, None, None)
      | Some (msg_len, num_bytes_read) \<Rightarrow>
          if of_nat (length buf) < num_bytes_read \<or> 0x7FFFFFFF < msg_len
          then Ret (kUpb_DecodeStatus_Malformed, Some num_bytes_read, None)
          else
            let start = unat (num_bytes_read - msg_len) in
            bindR (rd_bytes buf start (unat msg_len)) (\<lambda>data.
            bindR (upb_Decode C fuel data msg m options a) (\<lambda>(status, r). Ret (status, Some num_bytes_read, r))))"

end
