(* ===== verification/Decode_Stream.thy ===== *)
theory Decode_Stream
  imports Wire_Decode
begin

unbundle bit_operations_syntax

text \<open>
  How the decoder moves over its input: positions of the flat input instead of pointers into whichever
  buffer the stream reads from. The theory has the rules for results that are no fault, the position of a
  stream, and for every primitive read of the decoder the position after it.
\<close>

section \<open>Results without a fault\<close>

text \<open>A result that is no fault; a status with which the parse is left is an error, as \<^verbatim>\<open>_upb_Decoder_ErrorJmp\<close> asserts.\<close>

definition safe :: "(upb_DecodeStatus, 'v) res \<Rightarrow> ('v \<Rightarrow> bool) \<Rightarrow> bool" where
  "safe r Q \<longleftrightarrow> (case r of Ret v \<Rightarrow> Q v | Raise status \<Rightarrow> status \<noteq> kUpb_DecodeStatus_Ok | Fault \<Rightarrow> False)"

lemma safe_simps [simp]: "safe (Ret v) Q = Q v" "safe (Raise st) Q = (st \<noteq> kUpb_DecodeStatus_Ok)" "\<not> safe Fault Q"
  by (simp_all add: safe_def)

lemma safe_bind: "safe r P \<Longrightarrow> (\<And>v. r = Ret v \<Longrightarrow> P v \<Longrightarrow> safe (k v) Q) \<Longrightarrow> safe (bindR r k) Q"
  by (cases r) simp_all

lemma safe_mono: "safe r P \<Longrightarrow> (\<And>v. P v \<Longrightarrow> Q v) \<Longrightarrow> safe r Q"
  by (cases r) simp_all

lemma safe_RetD: "safe r Q \<Longrightarrow> r = Ret v \<Longrightarrow> Q v"
  by simp

lemma safe_pure: "r = Ret v \<Longrightarrow> Q v \<Longrightarrow> safe (pure r) Q"
  by (simp add: pure_def)

lemma safe_rd: "i < length xs \<Longrightarrow> Q (xs ! i) \<Longrightarrow> safe (rd xs i) Q"
  by simp

section \<open>Positions\<close>

text \<open>The stream over the input \<open>I\<close> with the limit \<open>lim\<close>, where the pointer \<open>ptr\<close> is at the position \<open>q\<close>.\<close>

definition stream_at :: "bytes \<Rightarrow> int \<Rightarrow> upb_EpsCopyInputStream \<Rightarrow> nat \<Rightarrow> nat \<Rightarrow> bool" where
  "stream_at I lim e ptr q \<longleftrightarrow>
     eps_ok e \<and> eps_input e = I \<and> eps_lim e = lim \<and> eps_pos e ptr = q \<and> ptr \<le> length (eps_buf e)"

text \<open>After \<^verbatim>\<open>IsDone\<close>, 16 bytes can be read.\<close>

definition ready :: "upb_EpsCopyInputStream \<Rightarrow> nat \<Rightarrow> bool" where
  "ready e ptr \<longleftrightarrow> int ptr < eps_limit_ptr e"

lemma stream_atD:
  assumes "stream_at I lim e ptr q"
  shows "eps_ok e" "eps_input e = I" "eps_lim e = lim" "eps_pos e ptr = q" "ptr \<le> length (eps_buf e)"
    "lim \<le> int (length I)" "length I < 2 ^ 31"
  using assms eps_okD(1,4) [of e] by (auto simp: stream_at_def)

lemma ready_room: "stream_at I lim e ptr q \<Longrightarrow> ready e ptr \<Longrightarrow> ptr + 16 \<le> length (eps_buf e)"
  using eps_okD(2,5) [of e] by (auto simp: stream_at_def ready_def)

lemma stream_at_move:
  "stream_at I lim e ptr q \<Longrightarrow> ptr + n \<le> length (eps_buf e) \<Longrightarrow> stream_at I lim e (ptr + n) (q + n)"
  by (auto simp: stream_at_def eps_pos_def)

lemma stream_at_skip:
  assumes "stream_at I lim e ptr q" and "int (q + n) \<le> lim"
  shows "stream_at I lim e (ptr + n) (q + n)"
  using assms CheckSize_available(2) [of e ptr n] by (intro stream_at_move) (auto simp: stream_at_def)

lemma Init_at:
  assumes "length I < 2 ^ 31"
  shows "stream_at I (int (length I)) (fst (upb_EpsCopyInputStream_Init I al)) (snd (upb_EpsCopyInputStream_Init I al)) 0"
  using eps_Init_ok [OF assms, of al] by (auto simp: stream_at_def upb_EpsCopyInputStream_Init_def Let_def)

lemma IsDone_at:
  assumes "stream_at I lim e ptr q"
  shows "safe (upb_Decoder_IsDone e ptr) (\<lambda>(is_done, p, e'). stream_at I lim e' p q \<and> eps_aliasing e' = eps_aliasing e
    \<and> (if is_done then int q = lim else int q < lim \<and> ready e' p))"
proof -
  note at = stream_atD [OF assms]
  note flat = IsDone_flat [OF at(1,5)]
  consider "int q = lim" | "lim < int q" | "int q < lim" by linarith
  then show ?thesis
  proof cases
    case 1
    with flat(1) at assms show ?thesis by simp
  next
    case 2
    with flat(2) at show ?thesis by simp
  next
    case 3
    with flat(3) at obtain p e' where r: "upb_Decoder_IsDone e ptr = Ret (False, p, e')" "same_input e e'"
      "eps_pos e' p = eps_pos e ptr" "eps_lim e' = eps_lim e" "int p < eps_limit_ptr e'" by auto
    then have "p \<le> length (eps_buf e')" using eps_okD(2,5) [of e'] by (auto simp: same_input_def)
    with r at 3 show ?thesis by (auto simp: stream_at_def same_input_def ready_def)
  qed
qed

lemma PushLimit_at:
  assumes "stream_at I lim e ptr q" and "int (q + n) \<le> lim"
  shows "safe (upb_EpsCopyInputStream_PushLimit e ptr n) (\<lambda>(delta, e').
    delta = lim - int (q + n) \<and> stream_at I (int (q + n)) e' ptr q \<and> eps_aliasing e' = eps_aliasing e)"
proof -
  note at = stream_atD [OF assms(1)]
  from PushLimit_flat [OF at(1), of ptr n, where 'e = upb_DecodeStatus] assms(2) at obtain e' where
    "upb_EpsCopyInputStream_PushLimit e ptr n = (Ret (eps_lim e - eps_lim e', e') :: (upb_DecodeStatus, _) res)" "same_input e e'"
    "eps_lim e' = int (q + n)" "eps_pos e' ptr = q" "eps_buf e' = eps_buf e" by auto
  with at show ?thesis by (auto simp: stream_at_def same_input_def)
qed

lemma PopLimit_at:
  assumes "stream_at I lim e ptr q" and "int q = lim" and "0 \<le> delta" and "lim + delta \<le> int (length I)"
  shows "safe (upb_EpsCopyInputStream_PopLimit e ptr delta) (\<lambda>e'.
    stream_at I (lim + delta) e' ptr q \<and> eps_aliasing e' = eps_aliasing e)"
proof -
  note at = stream_atD [OF assms(1)]
  from PopLimit_flat [OF at(1), of ptr delta, where 'e = upb_DecodeStatus] assms at obtain e' where
    "upb_EpsCopyInputStream_PopLimit e ptr delta = (Ret e' :: (upb_DecodeStatus, _) res)" "same_input e e'"
    "eps_lim e' = lim + delta" "eps_pos e' ptr = q" "eps_buf e' = eps_buf e" by auto
  with at show ?thesis by (auto simp: stream_at_def same_input_def)
qed

section \<open>Reads\<close>

text \<open>A step that only allocates.\<close>

definition arena_step :: "'a upb_Decoder \<Rightarrow> 'a upb_Decoder \<Rightarrow> bool" where
  "arena_step d d' \<longleftrightarrow> dec_input d' = dec_input d \<and> dec_depth d' = dec_depth d \<and> dec_end_group d' = dec_end_group d"

lemma arena_step_simps [simp]:
  "arena_step d (d\<lparr>dec_arena := a\<rparr>)" "arena_step d d"
  by (simp_all add: arena_step_def)

lemma arena_step_trans: "arena_step d d1 \<Longrightarrow> arena_step d1 d2 \<Longrightarrow> arena_step d d2"
  by (simp add: arena_step_def)

lemma varint_prefix_last: "varint_prefix xs = Some p \<Longrightarrow> unat (last p) < 128"
  by (induction xs arbitrary: p) (auto split: if_splits dest: varint_prefix_nonempty)

lemma DecodeVarint_at:
  assumes "ptr + 10 \<le> length buf"
  shows "safe (upb_Decoder_DecodeVarint buf ptr) (\<lambda>(p, v). ptr < p \<and> p \<le> ptr + 10
    \<and> varint_prefix (drop ptr buf) = Some (take (p - ptr) (drop ptr buf)))"
proof (cases "varint_prefix (take 10 (drop ptr buf))")
  case None
  then show ?thesis using DecodeVarint_spec [OF assms] by simp
next
  case (Some pf)
  have "varint_prefix (take 10 (drop ptr buf) @ drop 10 (drop ptr buf)) = Some pf" by (rule varint_prefix_append [OF Some])
  then have pf: "varint_prefix (drop ptr buf) = Some pf" by (simp only: append_take_drop_id)
  have len: "length pf \<le> 10" using varint_prefix_length [OF Some] by simp
  have "pf = take (length pf) (drop ptr buf)" using varint_prefix_split [OF pf] by (metis append_eq_conv_conj)
  with pf len varint_prefix_nonempty [OF Some] show ?thesis using DecodeVarint_spec [OF assms] Some by simp
qed

lemma DecodeTag_at:
  assumes "ptr + 10 \<le> length buf"
  shows "safe (upb_Decoder_DecodeTag buf ptr) (\<lambda>(p, tag). ptr < p \<and> p \<le> ptr + 5 \<and> unat (buf ! (p - 1)) < 128)"
proof (cases "varint_prefix (take 10 (drop ptr buf))")
  case (Some pf)
  let ?pre = "take ptr buf"
  have pf: "varint_prefix (drop ptr buf) = Some pf"
    using varint_prefix_append [OF Some, of "drop 10 (drop ptr buf)"] by (simp only: append_take_drop_id)
  have len: "length pf \<le> 10" "length ?pre = ptr" using varint_prefix_length [OF Some] assms by simp_all
  have r: "upb_Decoder_DecodeTag buf ptr = (if length pf > 5 \<or> varint_value pf > 0xFFFFFFFF
      then Raise kUpb_DecodeStatus_Malformed else Ret (ptr + length pf, ucast (varint_value pf)))"
    using DecodeTag_prefix [OF pf len(1), of ?pre] len(2) by (simp only: append_take_drop_id)
  have ne: "pf \<noteq> []" by (rule varint_prefix_nonempty [OF Some])
  have "unat (last pf) < 128" by (rule varint_prefix_last [OF pf])
  moreover have "last pf = buf ! (ptr + length pf - 1)"
  proof -
    have "drop ptr buf = pf @ drop (length pf) (drop ptr buf)" by (rule varint_prefix_split [OF pf])
    moreover have "length pf - 1 < length pf" using ne by simp
    ultimately have "drop ptr buf ! (length pf - 1) = pf ! (length pf - 1)" by (metis nth_append)
    moreover have "drop ptr buf ! (length pf - 1) = buf ! (ptr + length pf - 1)"
      using ne assms by (cases pf) (simp_all add: nth_drop)
    ultimately show ?thesis using ne by (simp add: last_conv_nth)
  qed
  ultimately show ?thesis using r ne by simp
next
  case None
  have "ptr < length buf" using assms by simp
  then have drop: "drop ptr buf = buf ! ptr # drop (Suc ptr) buf" by (simp add: Cons_nth_drop_Suc)
  have long: "\<not> unat (buf ! ptr) < 128" and rest: "varint_prefix (take 9 (drop (Suc ptr) buf)) = None"
    using None unfolding drop by (auto simp: take_Cons' split: if_splits)
  have "(decode_longvarint_loop (take (Suc ptr) buf @ drop (Suc ptr) buf) ptr 1 w :: (upb_DecodeStatus, _) res) = Ret None" for w
    using rest assms by (intro loop_too_long) simp_all
  then have "(upb_Decoder_DecodeLongVarint buf ptr w :: (upb_DecodeStatus, _) res) = Ret None" for w
    by (simp add: upb_Decoder_DecodeLongVarint_def)
  with long \<open>ptr < length buf\<close> show ?thesis by (simp add: upb_Decoder_DecodeTag_def ucast_top_bit)
qed

lemma DecodeSize_at:
  assumes at: "stream_at I lim (dec_input d) ptr q" and "ptr + 10 \<le> length (eps_buf (dec_input d))"
  shows "safe (upb_Decoder_DecodeSize d ptr) (\<lambda>(p, size'). ptr < p \<and> p \<le> ptr + 10
    \<and> varint_prefix (drop ptr (eps_buf (dec_input d))) = Some (take (p - ptr) (drop ptr (eps_buf (dec_input d))))
    \<and> int (q + (p - ptr) + unat size') \<le> lim \<and> unat size' < 2 ^ 31 - 1)"
  unfolding upb_Decoder_DecodeSize_def
proof (rule safe_bind [OF DecodeVarint_at [OF assms(2)]])
  fix r :: "nat \<times> u64"
  assume r: "case r of (p, v) \<Rightarrow> ptr < p \<and> p \<le> ptr + 10
    \<and> varint_prefix (drop ptr (eps_buf (dec_input d))) = Some (take (p - ptr) (drop ptr (eps_buf (dec_input d))))"
  obtain p size64 where p: "r = (p, size64)" by (cases r)
  have pos: "eps_pos (dec_input d) p = q + (p - ptr)" using at r p by (auto simp: stream_at_def eps_pos_def)
  have "unat (ucast size64 :: u32) = unat size64 \<and> uint (ucast size64 :: u32) = uint size64 \<and> unat size64 < 2 ^ 31 - 1" if "\<not> (0x7FFFFFFF :: u64) \<le> size64"
  proof -
    have "unat size64 < 2147483647" using that by (simp add: not_le word_less_nat_alt)
    moreover from this have u: "unat (ucast size64 :: u32) = unat size64" by (simp add: unsigned_ucast_eq take_bit_nat_eq_self)
    moreover from u have "int (unat (ucast size64 :: u32)) = int (unat size64)" by (rule arg_cong)
    then have "uint (ucast size64 :: u32) = uint size64" by simp
    ultimately show ?thesis by simp
  qed
  with r p pos at show "safe (case r of (p, size64) \<Rightarrow>
      if 0x7FFFFFFF \<le> size64 \<or> \<not> upb_EpsCopyInputStream_CheckSize (dec_input d) p (unat size64)
      then Raise kUpb_DecodeStatus_Malformed else Ret (p, ucast size64 :: u32)) (\<lambda>(p, size'). ptr < p \<and> p \<le> ptr + 10
    \<and> varint_prefix (drop ptr (eps_buf (dec_input d))) = Some (take (p - ptr) (drop ptr (eps_buf (dec_input d))))
    \<and> int (q + (p - ptr) + unat size') \<le> lim \<and> unat size' < 2 ^ 31 - 1)"
    by (auto simp: CheckSize_flat stream_at_def)
qed

lemma rd_le_safe: "p + n \<le> length m \<Longrightarrow> safe (rd_le m p n) (\<lambda>_. True)"
  using rd_le_in_range [of p n m, where 'a = upb_DecodeStatus] by force

lemma ReadFixed_at:
  "ptr + 4 \<le> length buf \<Longrightarrow> safe (upb_WireReader_ReadFixed32 buf ptr) (\<lambda>(p, _). p = ptr + 4)"
  "ptr + 8 \<le> length buf \<Longrightarrow> safe (upb_WireReader_ReadFixed64 buf ptr) (\<lambda>(p, _). p = ptr + 8)"
  unfolding upb_WireReader_ReadFixed32_def upb_WireReader_ReadFixed64_def
  by (auto intro!: safe_bind [OF rd_le_safe])

lemma rd_bytes_at:
  assumes "stream_at I lim e ptr q" and "int (q + n) \<le> lim"
  shows "rd_bytes (eps_buf e) ptr n = (Ret (take n (drop q I)) :: ('e, _) res)" and "length (take n (drop q I)) = n"
  using assms rd_bytes_flat [of e ptr n, where 'e = 'e] stream_atD(6) [OF assms(1)] by (auto simp: stream_at_def)

lemma ReadString_at:
  assumes "stream_at I lim (dec_input d) ptr q" and "int (q + n) \<le> lim"
  shows "safe (upb_Decoder_ReadString C d ptr n) (\<lambda>((s, p), d'). s = take n (drop q I) \<and> p = ptr + n
    \<and> arena_step d d')"
  using assms ReadString_flat [of "dec_input d" ptr n "dec_malloc C" "dec_arena d", where 'e = upb_DecodeStatus]
  by (auto simp: upb_Decoder_ReadString_def stream_at_def arena_step_def split: option.splits)

lemma VerifyUtf8_at:
  assumes "stream_at I lim (dec_input d) ptr q" and "int (q + n) \<le> lim"
  shows "safe (upb_Decoder_VerifyUtf8 d ptr n) (\<lambda>_. True)"
  using rd_bytes_at(1) [OF assms, where 'e = upb_DecodeStatus] by (simp add: upb_Decoder_VerifyUtf8_def)

lemma Copy_at:
  assumes "stream_at I lim e ptr q" and "int (q + n) \<le> lim"
  shows "upb_EpsCopyInputStream_Copy e ptr (int n) = (Ret (Some (take n (drop q I), ptr + n)) :: ('e, _) res)"
  using assms Copy_flat [of e ptr n, where 'e = 'e] by (auto simp: stream_at_def)

section \<open>The start of an unknown field\<close>

lemma tag_parts: "push_bit 3 (drop_bit 3 tag) OR (tag AND 7) = (tag :: u32)"
proof -
  have "(7 :: u32) = mask 3" by (simp add: mask_eq_exp_minus_1)
  then have "tag AND 7 = take_bit 3 tag" by (simp add: take_bit_eq_mask)
  then show ?thesis by (auto intro!: bit_eqI simp: bit_simps)
qed

lemma varint_start_prefix:
  assumes "varint_prefix (drop s buf) = Some pf" and "0 < s" and "unat (buf ! (s - 1)) < 128" and "k < length pf"
  shows "varint_start buf (s + k) = (Ret s :: ('e, _) res)"
  using assms(4)
proof (induction k)
  case 0
  have "s - 1 < length buf" using assms(1,2) by (cases "s \<le> length buf") (auto simp: not_le)
  then show ?case using assms(2,3) by (cases s) (simp_all add: byte_top_bit)
next
  case (Suc k)
  have split: "drop s buf = pf @ drop (length pf) (drop s buf)" by (rule varint_prefix_split [OF assms(1)])
  have "length pf \<le> length buf - s" using varint_prefix_length [OF assms(1)] by simp
  then have len: "s + k < length buf" using Suc.prems by simp
  have "drop s buf ! k = pf ! k" using Suc.prems split by (metis Suc_lessD nth_append)
  then have nth: "buf ! (s + k) = pf ! k" using len by simp
  have "\<not> unat (pf ! k) < 128"
  proof -
    have "varint_prefix xs = Some p \<Longrightarrow> Suc i < length p \<Longrightarrow> \<not> unat (p ! i) < 128" for xs p i
      by (induction xs arbitrary: p i) (auto simp: nth_Cons split: if_splits nat.splits)
    then show ?thesis using assms(1) Suc.prems by blast
  qed
  then show ?case using Suc nth len by (simp add: byte_top_bit)
qed

text \<open>
  A tag from \<open>ptr\<close> to \<open>p1\<close> and a value of its wire type from there to \<open>p2\<close>: the decoder walks back from
  \<open>p2\<close> to \<open>ptr\<close>.
\<close>

definition wire_value_at :: "bytes \<Rightarrow> nat \<Rightarrow> u32 \<Rightarrow> nat \<Rightarrow> bool" where
  "wire_value_at buf p1 wire_type p2 \<longleftrightarrow>
     (if wire_type = kUpb_WireType_Varint \<or> wire_type = kUpb_WireType_Delimited
      then p1 < p2 \<and> varint_prefix (drop p1 buf) = Some (take (p2 - p1) (drop p1 buf))
      else if wire_type = kUpb_WireType_32Bit then p2 = p1 + 4
      else if wire_type = kUpb_WireType_64Bit then p2 = p1 + 8
      else p2 = p1)"

lemma unknown_value_start_at:
  assumes "wire_value_at buf p1 wire_type p2" and "0 < p1" and "unat (buf ! (p1 - 1)) < 128" and "p2 \<le> length buf"
  shows "unknown_value_start buf p2 wire_type = (Ret p1 :: ('e, _) res)"
proof (cases "wire_type = kUpb_WireType_Varint \<or> wire_type = kUpb_WireType_Delimited")
  case True
  then have p: "p1 < p2" "varint_prefix (drop p1 buf) = Some (take (p2 - p1) (drop p1 buf))"
    using assms(1) by (auto simp: wire_value_at_def)
  have "p2 - 1 - p1 < length (take (p2 - p1) (drop p1 buf))" using p(1) assms(4) by simp
  from varint_start_prefix [OF p(2) assms(2,3) this, where 'e = 'e] True p(1) show ?thesis
    by (auto simp: unknown_value_start_def)
qed (use assms(1) in \<open>auto simp: unknown_value_start_def wire_value_at_def\<close>)

lemma tag_start_at:
  assumes "upb_Decoder_DecodeTag buf ptr = Ret (p1, tag)" and "drop_bit 3 tag \<noteq> 0"
  shows "(upb_Decoder_ReverseSkipVarint buf p1 (push_bit 3 (drop_bit 3 tag) OR (tag AND 7)) :: ('e, _) res) = Ret ptr"
proof -
  have "tag \<noteq> 0" using assms(2) by auto
  then show ?thesis unfolding tag_parts by (rule ReverseSkip_after_tag [OF assms(1)])
qed

section \<open>The decoder of sub-messages\<close>

text \<open>
  The contract between the decoder of a message and that of its sub-messages. \<open>G k B r msg\<close> says that
  \<open>msg\<close> conforms to the table \<open>r\<close>, that it is nested at most \<open>k\<close> deep, and that its containers have at most
  \<open>B\<close> elements. A parse of fewer than \<open>k\<close> bytes keeps the message conforming; its containers grow by at
  most one element per byte. It ends at the limit, unless it ends at an end-group tag.
\<close>

type_synonym conf_pred = "nat \<Rightarrow> mt_ref \<Rightarrow> upb_Message \<Rightarrow> bool"

definition dec_at :: "bytes \<Rightarrow> int \<Rightarrow> 'a upb_Decoder \<Rightarrow> nat \<Rightarrow> nat \<Rightarrow> bool" where
  "dec_at I lim d ptr q \<longleftrightarrow> stream_at I lim (dec_input d) ptr q \<and> dec_end_group d = DECODE_NOGROUP"

definition target_conf :: "conf_pred \<Rightarrow> nat \<Rightarrow> (mt_ref \<times> upb_Message) option \<Rightarrow> bool" where
  "target_conf G B target = (case target of None \<Rightarrow> True | Some (r, msg) \<Rightarrow> G B r msg)"

definition result_conf :: "conf_pred \<Rightarrow> nat \<Rightarrow> (mt_ref \<times> upb_Message) option \<Rightarrow> upb_Message option \<Rightarrow> bool" where
  "result_conf G B target msg' =
     (case target of None \<Rightarrow> msg' = None | Some (r, _) \<Rightarrow> \<exists>m. msg' = Some m \<and> G B r m)"

definition dec_post ::
  "conf_pred \<Rightarrow> bytes \<Rightarrow> int \<Rightarrow> nat \<Rightarrow> nat \<Rightarrow> (mt_ref \<times> upb_Message) option \<Rightarrow> (nat \<times> upb_Message option) \<times> 'a upb_Decoder \<Rightarrow> bool" where
  "dec_post G I lim q K target = (\<lambda>((p, msg'), d'). \<exists>q'. stream_at I lim (dec_input d') p q' \<and> q \<le> q'
     \<and> (dec_end_group d' = DECODE_NOGROUP \<longrightarrow> int q' = lim) \<and> result_conf G (K + q') target msg')"

lemma dec_at_step: "arena_step d d' \<Longrightarrow> dec_at I lim d p q \<Longrightarrow> dec_at I lim d' p q"
  by (simp add: dec_at_def arena_step_def)

lemma dec_at_arena [simp]: "dec_at I lim (d\<lparr>dec_arena := a\<rparr>) p q = dec_at I lim d p q"
  by (simp add: dec_at_def)

lemma dec_atD: "dec_at I lim d p q \<Longrightarrow> stream_at I lim (dec_input d) p q" "dec_at I lim d p q \<Longrightarrow> dec_end_group d = DECODE_NOGROUP"
  by (simp_all add: dec_at_def)

lemma dec_at_input: "dec_end_group d = DECODE_NOGROUP \<Longrightarrow> stream_at I lim e p q \<Longrightarrow> dec_at I lim (d\<lparr>dec_input := e\<rparr>) p q"
  by (simp add: dec_at_def)

lemma dec_at_skip: "dec_at I lim d ptr q \<Longrightarrow> int (q + n) \<le> lim \<Longrightarrow> dec_at I lim d (ptr + n) (q + n)"
  by (simp add: dec_at_def stream_at_skip)

lemma dec_at_move: "dec_at I lim d ptr q \<Longrightarrow> ptr + n \<le> length (eps_buf (dec_input d)) \<Longrightarrow> dec_at I lim d (ptr + n) (q + n)"
  by (simp add: dec_at_def stream_at_move)

locale sub_decoder =
  fixes C :: "'a dec_env" and dec :: "'a msg_decoder" and G :: "nat \<Rightarrow> conf_pred" and n :: nat
  assumes dec_safe: "0 < k \<Longrightarrow> k \<le> n \<Longrightarrow> dec_at I lim d ptr q \<Longrightarrow> lim - int q < int k \<Longrightarrow> K + length I < 2 ^ 29
      \<Longrightarrow> target_conf (G k) (K + q) target \<Longrightarrow> safe (dec d ptr target) (dec_post (G k) I lim q K target)"
    and conf_thawed: "G k B r msg \<Longrightarrow> \<not> msg_frozen msg"
begin

lemma recurse_safe:
  assumes "0 < k" "k \<le> n" "dec_at I lim d ptr q" "lim - int q < int k" "K + length I < 2 ^ 29"
    and "target_conf (G k) (K + q) target"
  shows "safe (upb_Decoder_RecurseSubMessage dec d ptr target expected) (\<lambda>((p, msg'), d').
    dec_post (G k) I lim q K target ((p, msg'), d') \<and> dec_end_group d' = expected)"
proof (cases "dec_depth d - 1 < 0")
  case False
  have "dec_at I lim (d\<lparr>dec_depth := dec_depth d - 1\<rparr>) ptr q" using assms(3) by (simp add: dec_at_def)
  note run = dec_safe [OF assms(1,2) this assms(4-6)]
  have "safe (bindR (dec (d\<lparr>dec_depth := dec_depth d - 1\<rparr>) ptr target) (\<lambda>(r, d1).
      let d2 = d1\<lparr>dec_depth := dec_depth d1 + 1\<rparr> in
      if dec_end_group d2 \<noteq> expected then Raise kUpb_DecodeStatus_Malformed else Ret (r, d2))) (\<lambda>((p, msg'), d').
    dec_post (G k) I lim q K target ((p, msg'), d') \<and> dec_end_group d' = expected)"
    by (rule safe_bind [OF run]) (auto simp: dec_post_def Let_def)
  with False show ?thesis by (simp add: upb_Decoder_RecurseSubMessage_def)
qed (simp add: upb_Decoder_RecurseSubMessage_def)

lemma submessage_safe:
  assumes "0 < k" "k \<le> n" and at: "dec_at I lim d ptr q" and fits: "int (q + sz) \<le> lim" and "int sz < int k"
    and "K + length I < 2 ^ 29" and sub: "upb_MiniTableSubs_MessageByField ss f = Ret r" and "G k (K + q) r msg"
  shows "safe (upb_Decoder_DecodeSubMessage dec d ptr msg ss f sz) (\<lambda>((p, m), d').
    dec_at I lim d' p (q + sz) \<and> G k (K + (q + sz)) r m)"
  unfolding upb_Decoder_DecodeSubMessage_def sub bindR.simps
proof (rule safe_bind [OF PushLimit_at [OF dec_atD(1) [OF at] fits]], clarify)
  fix e assume e: "stream_at I (int (q + sz)) e ptr q"
  let ?d = "d\<lparr>dec_input := e\<rparr>"
  have "dec_at I (int (q + sz)) ?d ptr q" using dec_atD(2) [OF at] e by (rule dec_at_input)
  note rec = recurse_safe [OF assms(1,2) this _ assms(6), of "Some (r, msg)" DECODE_NOGROUP]
  show "safe (bindR (upb_Decoder_RecurseSubMessage dec ?d ptr (Some (r, msg)) DECODE_NOGROUP) (\<lambda>((p, submsg'), d1).
      bindR (upb_EpsCopyInputStream_PopLimit (dec_input d1) p (lim - int (q + sz))) (\<lambda>e'.
        case submsg' of None \<Rightarrow> Fault | Some msg \<Rightarrow> Ret ((p, msg), d1\<lparr>dec_input := e'\<rparr>))))
     (\<lambda>((p, m), d'). dec_at I lim d' p (q + sz) \<and> G k (K + (q + sz)) r m)"
  proof (rule safe_bind [OF rec], goal_cases)
    case (3 v)
    then obtain p m d1 q' where v: "v = ((p, Some m), d1)" "stream_at I (int (q + sz)) (dec_input d1) p q'"
      "dec_end_group d1 = DECODE_NOGROUP" "G k (K + q') r m" "int q' = int (q + sz)"
      by (auto simp: dec_post_def result_conf_def)
    then have v: "v = ((p, Some m), d1)" "stream_at I (int (q + sz)) (dec_input d1) p (q + sz)"
      "dec_end_group d1 = DECODE_NOGROUP" "G k (K + (q + sz)) r m" by (simp_all only: of_nat_eq_iff)
    have "lim \<le> int (length I)" using stream_atD(6) [OF dec_atD(1) [OF at]] .
    then have pop: "safe (upb_EpsCopyInputStream_PopLimit (dec_input d1) p (lim - int (q + sz)))
       (\<lambda>e'. stream_at I lim e' p (q + sz) \<and> eps_aliasing e' = eps_aliasing (dec_input d1))"
      using PopLimit_at [OF v(2), of "lim - int (q + sz)"] fits by simp
    show ?case unfolding v(1) prod.case option.case
      by (rule safe_bind [OF pop]) (use v in \<open>simp add: dec_at_def\<close>)
  qed (use assms in \<open>auto simp: target_conf_def\<close>)
qed

lemma group_safe:
  assumes "0 < k" "k \<le> n" and at: "dec_at I lim d ptr q" and "lim - int q < int k" and "K + length I < 2 ^ 29"
    and "target_conf (G k) (K + q) target"
  shows "safe (upb_Decoder_DecodeGroup dec d ptr target num) (\<lambda>((p, m), d').
    \<exists>q'. q \<le> q' \<and> dec_at I lim d' p q' \<and> result_conf (G k) (K + q') target m)"
  unfolding upb_Decoder_DecodeGroup_def
proof (rule safe_bind [OF IsDone_at [OF dec_atD(1) [OF at]]], goal_cases)
  case (1 v)
  then obtain is_done p e where v: "v = (is_done, p, e)" "stream_at I lim e p q" by (cases v) auto
  have "dec_at I lim (d\<lparr>dec_input := e\<rparr>) p q" using dec_atD(2) [OF at] v(2) by (rule dec_at_input)
  note rec = recurse_safe [OF assms(1,2) this assms(4-6), of num]
  have "safe (bindR (upb_Decoder_RecurseSubMessage dec (d\<lparr>dec_input := e\<rparr>) p target num) (\<lambda>(r, d1).
      Ret (r, d1\<lparr>dec_end_group := DECODE_NOGROUP\<rparr>))) (\<lambda>((p, m), d').
    \<exists>q'. q \<le> q' \<and> dec_at I lim d' p q' \<and> result_conf (G k) (K + q') target m)"
    by (rule safe_bind [OF rec]) (auto simp: dec_post_def dec_at_def)
  then show ?case using v(1) by simp
qed

lemma unknown_group_safe:
  assumes "0 < k" "k \<le> n" and "dec_at I lim d ptr q" and "lim - int q < int k" and "length I < 2 ^ 29"
  shows "safe (upb_Decoder_DecodeUnknownGroup dec d ptr num) (\<lambda>(p, d'). \<exists>q'. q \<le> q' \<and> dec_at I lim d' p q')"
  unfolding upb_Decoder_DecodeUnknownGroup_def
  by (rule safe_bind [OF group_safe [OF assms(1-4), of 0 None num]]) (use assms(5) in \<open>auto simp: target_conf_def\<close>)

lemma known_group_safe:
  assumes "0 < k" "k \<le> n" and "dec_at I lim d ptr q" and "lim - int q < int k" and "K + length I < 2 ^ 29"
    and "upb_MiniTableSubs_MessageByField ss f = Ret r" and "G k (K + q) r msg"
  shows "safe (upb_Decoder_DecodeKnownGroup dec d ptr msg ss f) (\<lambda>((p, m), d').
    \<exists>q'. q \<le> q' \<and> dec_at I lim d' p q' \<and> G k (K + q') r m)"
  unfolding upb_Decoder_DecodeKnownGroup_def assms(6) bindR.simps
  by (rule safe_bind [OF group_safe [OF assms(1-5), of "Some (r, msg)" "of_nat (number f)"]])
    (use assms(7) in \<open>auto simp: target_conf_def result_conf_def\<close>)

text \<open>A whole parse.\<close>

lemma decode_with_safe:
  assumes "length buf < k" "k \<le> n" and small: "B + length buf < 2 ^ 29" and msg: "G k B r msg"
  shows "\<exists>status result. upb_Decode_with dec buf msg r options a = Ret (status, result)
    \<and> (case result of
         None \<Rightarrow> status \<noteq> kUpb_DecodeStatus_Ok
       | Some (msg', _) \<Rightarrow> status = kUpb_DecodeStatus_Malformed
           \<or> status \<in> {kUpb_DecodeStatus_Ok, kUpb_DecodeStatus_MissingRequired} \<and> G k (B + length buf) r msg')"
proof -
  obtain e ptr where init: "upb_EpsCopyInputStream_Init buf ((ucast options :: u16) AND 1 \<noteq> 0) = (e, ptr)"
    by (cases "upb_EpsCopyInputStream_Init buf ((ucast options :: u16) AND 1 \<noteq> 0)")
  let ?d = "\<lparr> dec_input = e, dec_depth = uint (upb_DecodeOptions_GetEffectiveMaxDepth options),
              dec_end_group = DECODE_NOGROUP, dec_missing_required = False, dec_arena = a \<rparr>"
  have "length buf < 2 ^ 31" using small by simp
  from Init_at [OF this] have at: "dec_at buf (int (length buf)) ?d ptr 0"
    using init by (metis dec_at_def fst_conv snd_conv upb_Decoder.select_convs(1,3))
  have "safe (dec ?d ptr (Some (r, msg))) (dec_post (G k) buf (int (length buf)) 0 B (Some (r, msg)))"
    by (rule dec_safe [OF _ assms(2) at _ small]) (use assms(1) msg in \<open>simp_all add: target_conf_def\<close>)
  then have run: "safe (dec ?d ptr (Some (r, msg))) (\<lambda>((p, msg'), d'). \<exists>m. msg' = Some m
      \<and> (dec_end_group d' = DECODE_NOGROUP \<longrightarrow> G k (B + length buf) r m))"
    by (rule safe_mono) (auto simp: dec_post_def result_conf_def)
  show ?thesis using run conf_thawed [OF msg] init
    by (cases "dec ?d ptr (Some (r, msg))") (auto simp: upb_Decode_with_def upb_Decoder_DecodeTop_def Let_def)
qed

lemma nested_safe:
  assumes "0 < k" "k \<le> n" and "length data < k" and small: "length data < 2 ^ 29" and conf: "G k 0 r msg"
  shows "safe (upb_Decoder_Nested C dec data r msg d) (\<lambda>(m, d'). arena_step d d' \<and> G k (length data) r m)"
  using decode_with_safe [OF assms(3,2) _ conf, of "ucast (dec_options C)" "dec_arena d"] small
  by (auto simp: upb_Decoder_Nested_def pure_def split: option.splits)

end

end
