(* ===== verification/Decode_Conf.thy ===== *)
theory Decode_Conf
  imports Decode_Stream Wire_Typed
begin

unbundle bit_operations_syntax

text \<open>
  What the decoder keeps: the messages that conform to their tables. The theory has what the decoder
  assumes of its tables, its extension registry and its arena, the conformance of cells, slots and
  messages, and how stores, presence bits and unknown fields keep it. A conforming message can be encoded.
\<close>

section \<open>What the decoder assumes\<close>

text \<open>
  An entry table of a map: a key and a value, at the places of \<^verbatim>\<open>upb_MapEntry\<close>, that are in no oneof. A
  map field is linked to such a table.
\<close>

definition entry_wf :: "upb_MiniTable \<Rightarrow> bool" where
  "entry_wf m \<longleftrightarrow> (\<exists>kf vf. mt_fields m = [kf, vf] \<and> number kf = 1 \<and> number vf = 2 \<and> offset kf = 16 \<and> offset vf = 32
     \<and> mt_size m \<le> 48 \<and> 0 \<le> presence kf \<and> 0 \<le> presence vf \<and> upb_MiniTableField_IsScalar kf
     \<and> upb_MiniTableField_IsScalar vf \<and> \<not> upb_MiniTableField_IsSubMessage kf)"

definition map_link_wf :: "upb_MiniTable list \<Rightarrow> upb_MiniTable \<Rightarrow> upb_MiniTableField \<Rightarrow> bool" where
  "map_link_wf T m f \<longleftrightarrow> (\<exists>i < length T. submsg_index f < length (subs m)
     \<and> subs m ! submsg_index f = Submsg (Mt i) \<and> entry_wf (T ! i))"

definition table_ok :: "upb_MiniTable list \<Rightarrow> upb_MiniTable \<Rightarrow> bool" where
  "table_ok T m \<longleftrightarrow> mt_fields_wf m \<and> mt_layout_wf m \<and> mt_links_wf (length T) m
     \<and> (\<forall>f \<in> set (mt_fields m). number f < 2 ^ 29 \<and> (upb_MiniTableField_IsMap f \<longrightarrow> map_link_wf T m f))
     \<and> (\<forall>e. Subenum e \<in> set (subs m) \<longrightarrow> enum_wf e)"

text \<open>An extension: its value is at offset 0, and its sub-table is the only one.\<close>

definition ext_wf :: "upb_MiniTable list \<Rightarrow> upb_MiniTableExtension \<Rightarrow> bool" where
  "ext_wf T x \<longleftrightarrow> (let f = ext_field x in
     upb_MiniTableField_IsExtension f \<and> offset f = 0 \<and> presence f = 0 \<and> number f < 2 ^ 29
     \<and> (upb_MiniTableField_IsScalar f \<or> upb_MiniTableField_IsArray f)
     \<and> (upb_MiniTableField_IsSubMessage f \<or> upb_MiniTableField_IsClosedEnum f \<longrightarrow> submsg_index f = 0)
     \<and> (upb_MiniTableField_IsSubMessage f \<longrightarrow> (\<exists>i < length T. ext_sub x = Some (Submsg (Mt i))))
     \<and> (upb_MiniTableField_IsClosedEnum f \<longrightarrow> (\<exists>e. ext_sub x = Some (Subenum e) \<and> enum_wf e)))"

definition registry_ok :: "upb_MiniTable list \<Rightarrow> upb_ExtensionRegistry option \<Rightarrow> bool" where
  "registry_ok T reg = (case reg of
       None \<Rightarrow> True
     | Some r \<Rightarrow> extreg_ok r \<and> (\<forall>k x. extreg_map r k = Some x \<longrightarrow> ext_wf T x)
         \<and> (\<forall>i n x. i < length T \<and> ext (T ! i) = kUpb_ExtMode_IsMessageSet \<and> extreg_map r (extreg_key (Mt i) n) = Some x
              \<longrightarrow> upb_MiniTableField_IsScalar (ext_field x) \<and> upb_MiniTableField_IsSubMessage (ext_field x)))"

definition env_ok :: "'a dec_env \<Rightarrow> bool" where
  "env_ok C \<longleftrightarrow> (\<forall>m \<in> set (dec_tables C). table_ok (dec_tables C) m) \<and> registry_ok (dec_tables C) (dec_extreg C)
     \<and> map_alloc_ok (dec_malloc C) \<and> realloc_ok (dec_realloc C)"

lemma empty_table_ok: "table_ok T kUpb_MiniTable_Empty"
  by (simp add: table_ok_def kUpb_MiniTable_Empty_def mt_fields_wf_def mt_layout_wf_def mt_links_wf_def required_wf_def)

lemma env_table:
  assumes "env_ok C" and "mini_table_of (dec_tables C) r = (Ret m :: ('e, _) res)"
  shows "table_ok (dec_tables C) m"
proof (cases r)
  case MtEmpty
  with assms(2) show ?thesis by (simp add: mini_table_of_def empty_table_ok)
next
  case (Mt i)
  with assms(2) have "m \<in> set (dec_tables C)" by (cases "i < length (dec_tables C)") (auto simp: mini_table_of_def)
  with assms(1) show ?thesis by (simp add: env_ok_def)
qed

lemma mini_table_of_any: "mini_table_of T r = (Ret m :: ('e, _) res) \<Longrightarrow> mini_table_of T r = (Ret m :: ('f, _) res)"
  by (cases r) (auto simp: mini_table_of_def rd_def split: if_splits)

section \<open>Fields of a well-formed table\<close>

lemma table_field:
  assumes "table_ok T m" and "f \<in> set (mt_fields m)"
  shows "field_wf m f" "number f < 2 ^ 29" "upb_MiniTableField_IsMap f \<Longrightarrow> map_link_wf T m f"
  using assms by (auto simp: table_ok_def mt_layout_wf_def list_all_iff)

lemma field_inj:
  assumes "table_ok T m" and "f \<in> set (mt_fields m)" "g \<in> set (mt_fields m)" and "number f = number g"
  shows "f = g"
proof -
  have s: "sorted_wrt (<) (map number (mt_fields m))" using assms(1) by (simp add: table_ok_def mt_fields_wf_def)
  then have "distinct (map number (mt_fields m))" by (simp add: strict_sorted_iff)
  with assms(2-4) show ?thesis by (auto simp: distinct_map inj_on_def)
qed

lemma disjoint_commute: "disjoint a b \<longleftrightarrow> disjoint b a"
  by (cases a; cases b) auto

lemma cells_apart_sym: "cells_apart f g \<Longrightarrow> cells_apart g f"
  unfolding cells_apart_def
  by (cases "presence_cell f"; cases "presence_cell g") (simp_all add: disjoint_commute eq_commute, metis+)

lemma fields_apart:
  assumes "table_ok T m" and "f \<in> set (mt_fields m)" "g \<in> set (mt_fields m)" and "f \<noteq> g"
  shows "cells_apart f g"
proof -
  have s: "sorted_wrt cells_apart (mt_fields m)" using assms(1) by (simp add: table_ok_def mt_layout_wf_def)
  obtain i j where "i < length (mt_fields m)" "mt_fields m ! i = f" "j < length (mt_fields m)" "mt_fields m ! j = g"
    using assms(2,3) by (metis in_set_conv_nth)
  with assms(4) s show ?thesis
    unfolding sorted_wrt_iff_nth_less by (metis cells_apart_sym linorder_neqE_nat)
qed

lemma disjoint_address: "disjoint (a, m) (b, n) \<Longrightarrow> 0 < m \<Longrightarrow> 0 < n \<Longrightarrow> a \<noteq> b"
  by auto

lemma rep_size_pos: "0 < rep_size r"
  by (simp add: rep_size_def)

text \<open>The address of the hasbit byte or of the oneof case.\<close>

definition presence_addr :: "upb_MiniTableField \<Rightarrow> nat" where
  "presence_addr f = (if 0 < presence f then nat (presence f) div 8 else nat (- presence f - 1))"

lemma presence_offset:
  assumes "table_ok T m" and "f \<in> set (mt_fields m)" "g \<in> set (mt_fields m)" and "presence f \<noteq> 0"
  shows "presence_addr f \<noteq> offset g"
proof (cases "f = g")
  case True
  have "field_wf m f" using table_field(1) [OF assms(1,2)] .
  with True assms(4) rep_size_pos show ?thesis
    by (auto simp: field_wf_def presence_cell_def presence_addr_def field_cell_def split: if_splits)
next
  case False
  from fields_apart [OF assms(1-3) False] assms(4) rep_size_pos [of "upb_MiniTableField_GetRep g"] show ?thesis
    by (auto simp: cells_apart_def presence_cell_def presence_addr_def field_cell_def split: if_splits)
qed

lemma offsets_differ:
  assumes "table_ok T m" and "f \<in> set (mt_fields m)" "g \<in> set (mt_fields m)" and "f \<noteq> g" and "offset f = offset g"
  shows "presence f < 0" "presence f = presence g"
  using fields_apart [OF assms(1-4)] assms(5) rep_size_pos [of "upb_MiniTableField_GetRep f"] rep_size_pos [of "upb_MiniTableField_GetRep g"]
  by (auto simp: cells_apart_def field_cell_def)

lemma presence_addrs:
  assumes "table_ok T m" and "f \<in> set (mt_fields m)" "g \<in> set (mt_fields m)" and "presence f \<noteq> 0" "presence g \<noteq> 0"
    and "presence_addr f = presence_addr g"
  shows "0 < presence f \<and> 0 < presence g \<or> presence f < 0 \<and> presence f = presence g"
  using fields_apart [OF assms(1-3)] assms(4-6)
  by (cases "f = g") (auto simp: cells_apart_def presence_cell_def presence_addr_def split: if_splits)

section \<open>Conformance\<close>

text \<open>A cell with a value of a type that is no message; the zero that memory is filled with is one.\<close>

definition plain_conf :: "upb_FieldType \<Rightarrow> upb_cell \<Rightarrow> bool" where
  "plain_conf t c = (case c of
       Zero \<Rightarrow> True
     | Cell1 b \<Rightarrow> upb_FieldType_SizeLg2 t = 0 \<and> b \<le> 1
     | Cell4 _ \<Rightarrow> upb_FieldType_SizeLg2 t = 2
     | Cell8 _ \<Rightarrow> upb_FieldType_SizeLg2 t = 3
     | CellStr _ \<Rightarrow> upb_FieldType_SizeLg2 t = 4
     | _ \<Rightarrow> False)"

text \<open>
  The value of a field: a message pointer satisfies \<open>P\<close> for the sub-table, and its tag is set only when
  the sub-table is not linked.
\<close>

definition value_conf :: "(mt_ref \<Rightarrow> upb_Message \<Rightarrow> bool) \<Rightarrow> upb_MiniTableSub list \<Rightarrow> upb_MiniTableField \<Rightarrow> upb_cell \<Rightarrow> bool" where
  "value_conf P ss f c =
     (if upb_MiniTableField_IsSubMessage f then
        (case c of
           Zero \<Rightarrow> True
         | CellMsg e msg \<Rightarrow> (\<exists>r. upb_MiniTableSubs_MessageByField ss f = Ret r \<and> (e \<longrightarrow> r = MtEmpty) \<and> P r msg)
         | _ \<Rightarrow> False)
      else plain_conf (descriptortype f) c)"

definition elem_conf :: "(mt_ref \<Rightarrow> upb_Message \<Rightarrow> bool) \<Rightarrow> upb_MiniTableSub list \<Rightarrow> upb_MiniTableField \<Rightarrow> upb_cell \<Rightarrow> bool" where
  "elem_conf P ss f c \<longleftrightarrow> value_conf P ss f c \<and> (upb_MiniTableField_IsSubMessage f \<longrightarrow> c \<noteq> Zero)"

text \<open>An array of at most \<open>B\<close> elements; its capacity is bounded as well.\<close>

definition array_conf ::
  "(mt_ref \<Rightarrow> upb_Message \<Rightarrow> bool) \<Rightarrow> nat \<Rightarrow> upb_MiniTableSub list \<Rightarrow> upb_MiniTableField \<Rightarrow> upb_cell \<Rightarrow> bool" where
  "array_conf P B ss f c \<longleftrightarrow> arr_ok (upb_FieldType_SizeLg2 (descriptortype f)) c \<and> length (arr_elems c) \<le> B
     \<and> arr_cap c \<le> 4 + 2 * B \<and> (\<forall>x \<in> set (arr_elems c). elem_conf P ss f x)"

text \<open>A map whose keys and values conform to the fields of its entry table.\<close>

definition map_conf ::
  "upb_MiniTable list \<Rightarrow> (mt_ref \<Rightarrow> upb_Message \<Rightarrow> bool) \<Rightarrow> nat \<Rightarrow> upb_MiniTableSub list \<Rightarrow> upb_MiniTableField \<Rightarrow> upb_cell \<Rightarrow> bool" where
  "map_conf T P B ss f c \<longleftrightarrow> (\<exists>i entry kf vf. i < length T \<and> T ! i = entry \<and> upb_MiniTableSubs_MessageByField ss f = Ret (Mt i)
     \<and> mt_fields entry = [kf, vf] \<and> map_ok c \<and> map_keysize c = kSizeInMap (descriptortype kf)
     \<and> card (dom (map_abs c)) \<le> B \<and> length (map_vals c) \<le> B
     \<and> (\<forall>k v. map_abs c k = Some v \<longrightarrow>
          (\<exists>kc. upb_map_fromkey k (map_keysize c) = (Ret kc :: (upb_EncodeStatus, _) res) \<and> plain_conf (descriptortype kf) kc)
          \<and> value_conf P (subs entry) vf v))"

definition field_conf ::
  "upb_MiniTable list \<Rightarrow> (mt_ref \<Rightarrow> upb_Message \<Rightarrow> bool) \<Rightarrow> nat \<Rightarrow> upb_MiniTableSub list \<Rightarrow> upb_MiniTableField \<Rightarrow> upb_cell \<Rightarrow> bool" where
  "field_conf T P B ss f c =
     (if upb_MiniTableField_IsArray f then c = Zero \<or> array_conf P B ss f c
      else if upb_MiniTableField_IsMap f then c = Zero \<or> map_conf T P B ss f c
      else value_conf P ss f c)"

text \<open>
  The memory of a message: hasbits and oneof cases hold what the source stores there, and the fields
  that are not inactive members of a oneof conform.
\<close>

definition presence_conf :: "upb_MiniTableField \<Rightarrow> upb_Message \<Rightarrow> bool" where
  "presence_conf f msg \<longleftrightarrow>
     (0 < presence f \<longrightarrow> (msg_cell msg (presence_addr f) = Zero \<or> (\<exists>b. msg_cell msg (presence_addr f) = Cell1 b)))
     \<and> (presence f < 0 \<longrightarrow> (msg_cell msg (presence_addr f) = Zero \<or> (\<exists>w. msg_cell msg (presence_addr f) = Cell4 w)))"

definition active :: "upb_MiniTableField \<Rightarrow> upb_Message \<Rightarrow> bool" where
  "active f msg \<longleftrightarrow> 0 \<le> presence f \<or> msg_cell msg (presence_addr f) = Cell4 (of_nat (number f))"

definition mem_conf ::
  "upb_MiniTable list \<Rightarrow> (mt_ref \<Rightarrow> upb_Message \<Rightarrow> bool) \<Rightarrow> nat \<Rightarrow> upb_MiniTable \<Rightarrow> upb_Message \<Rightarrow> bool" where
  "mem_conf T P B m msg \<longleftrightarrow> (\<forall>f \<in> set (mt_fields m). presence_conf f msg
     \<and> (active f msg \<longrightarrow> field_conf T P B (subs m) f (msg_cell msg (offset f))))"

text \<open>
  An extension of a message of the type \<open>r\<close>: its layout is well formed, no other layout is registered
  for its number, and its value conforms; an item of a message set has a message.
\<close>

definition ext_registered :: "upb_ExtensionRegistry option \<Rightarrow> mt_ref \<Rightarrow> upb_MiniTableExtension \<Rightarrow> bool" where
  "ext_registered reg r x = (case reg of
       None \<Rightarrow> True
     | Some g \<Rightarrow> extreg_map g (extreg_key r (upb_MiniTableExtension_Number x)) \<in> {None, Some x})"

definition ext_conf ::
  "upb_MiniTable list \<Rightarrow> (mt_ref \<Rightarrow> upb_Message \<Rightarrow> bool) \<Rightarrow> nat \<Rightarrow> bool \<Rightarrow> upb_MiniTableExtension \<Rightarrow> upb_cell \<Rightarrow> bool" where
  "ext_conf T P B is_set x c \<longleftrightarrow> ext_wf T x
     \<and> (if is_set then upb_MiniTableField_IsScalar (ext_field x) \<and> upb_MiniTableField_IsSubMessage (ext_field x)
          \<and> (\<exists>r msg. ext_sub x = Some (Submsg r) \<and> c = CellMsg False msg \<and> P r msg)
        else field_conf T P B (ext_subs x) (ext_field x) c \<and> (upb_MiniTableField_IsArray (ext_field x) \<longrightarrow> c \<noteq> Zero))"

definition aux_conf ::
  "'a dec_env \<Rightarrow> (mt_ref \<Rightarrow> upb_Message \<Rightarrow> bool) \<Rightarrow> nat \<Rightarrow> mt_ref \<Rightarrow> bool \<Rightarrow> upb_aux list \<Rightarrow> bool" where
  "aux_conf C P B r is_set xs \<longleftrightarrow> distinct (map (\<lambda>xc. number (ext_field (fst xc))) (aux_exts xs))
     \<and> (\<forall>(x, c) \<in> set (aux_exts xs). ext_registered (dec_extreg C) r x \<and> ext_conf (dec_tables C) P B is_set x c)"

definition level_conf :: "'a dec_env \<Rightarrow> (mt_ref \<Rightarrow> upb_Message \<Rightarrow> bool) \<Rightarrow> nat \<Rightarrow> mt_ref \<Rightarrow> upb_MiniTable \<Rightarrow> upb_Message \<Rightarrow> bool" where
  "level_conf C P B r m msg \<longleftrightarrow> slots_ok msg \<and> mem_conf (dec_tables C) P B m msg
     \<and> aux_conf C P B r (ext m = kUpb_ExtMode_IsMessageSet) (msg_aux msg)"

text \<open>A message of nesting height at most \<open>k\<close> whose containers have at most \<open>B\<close> elements.\<close>

fun conf :: "'a dec_env \<Rightarrow> nat \<Rightarrow> conf_pred" where
  "conf C 0 B r msg = False"
| "conf C (Suc k) B r msg =
     (\<exists>m. mini_table_of (dec_tables C) r = (Ret m :: (upb_DecodeStatus, _) res) \<and> level_conf C (conf C k B) B r m msg)"

subsection \<open>Monotonicity\<close>

lemma value_conf_mono: "value_conf P ss f c \<Longrightarrow> P \<le> Q \<Longrightarrow> value_conf Q ss f c"
  by (auto simp: value_conf_def split: if_splits upb_cell.splits dest: predicate2D)

lemma field_conf_mono:
  assumes "field_conf T P B ss f c" and "B \<le> B'" and "P \<le> Q"
  shows "field_conf T Q B' ss f c"
proof -
  have val: "value_conf Q ss f c" if "value_conf P ss f c" for ss f c
    using that assms(3) by (rule value_conf_mono)
  have arr: "array_conf Q B' ss f c" if "array_conf P B ss f c"
    using that assms(2) val by (auto simp: array_conf_def elem_conf_def)
  have "map_conf T Q B' ss f c" if map: "map_conf T P B ss f c"
  proof -
    obtain i entry kf vf where m: "i < length T" "T ! i = entry" "upb_MiniTableSubs_MessageByField ss f = Ret (Mt i)"
      "mt_fields entry = [kf, vf]" "map_ok c" "map_keysize c = kSizeInMap (descriptortype kf)"
      "card (dom (map_abs c)) \<le> B" "length (map_vals c) \<le> B"
      and entries: "\<forall>k v. map_abs c k = Some v \<longrightarrow>
          (\<exists>kc. upb_map_fromkey k (map_keysize c) = (Ret kc :: (upb_EncodeStatus, _) res) \<and> plain_conf (descriptortype kf) kc)
          \<and> value_conf P (subs entry) vf v"
      using map unfolding map_conf_def by (elim exE conjE) (rule that)
    have "\<forall>k v. map_abs c k = Some v \<longrightarrow>
          (\<exists>kc. upb_map_fromkey k (map_keysize c) = (Ret kc :: (upb_EncodeStatus, _) res) \<and> plain_conf (descriptortype kf) kc)
          \<and> value_conf Q (subs entry) vf v"
      using entries val by blast
    with m assms(2) show ?thesis unfolding map_conf_def by (intro exI conjI) (assumption | simp)+
  qed
  with arr assms(1) val show ?thesis by (auto simp: field_conf_def split: if_splits)
qed

lemma ext_conf_mono:
  assumes "ext_conf T P B is_set x c" and "B \<le> B'" and "P \<le> Q"
  shows "ext_conf T Q B' is_set x c"
  using assms(1) field_conf_mono [OF _ assms(2,3)] predicate2D [OF assms(3)] by (auto simp: ext_conf_def)

lemma level_conf_mono:
  assumes "level_conf C P B r m msg" and "B \<le> B'" and "P \<le> Q"
  shows "level_conf C Q B' r m msg"
  using assms(1) field_conf_mono [OF _ assms(2,3)] ext_conf_mono [OF _ assms(2,3)]
  by (fastforce simp: level_conf_def mem_conf_def aux_conf_def)

lemma conf_mono: "conf C k B r msg \<Longrightarrow> k \<le> k' \<Longrightarrow> B \<le> B' \<Longrightarrow> conf C k' B' r msg"
proof (induction k arbitrary: k' B B' r msg)
  case (Suc k)
  then obtain j where k': "k' = Suc j" "k \<le> j" by (cases k') auto
  obtain m where m: "mini_table_of (dec_tables C) r = (Ret m :: (upb_DecodeStatus, _) res)"
    "level_conf C (conf C k B) B r m msg" using Suc.prems(1) by auto
  have "level_conf C (conf C j B') B' r m msg"
    using m(2) Suc.prems(3) by (rule level_conf_mono) (auto intro: Suc.IH [OF _ k'(2) Suc.prems(3)])
  with m(1) k'(1) show ?case by auto
qed simp

lemma conf_unfrozen: "conf C k B r msg \<Longrightarrow> \<not> msg_frozen msg"
  by (cases k) (auto simp: level_conf_def slots_ok_def)

lemma empty_conf:
  assumes "mini_table_of (dec_tables C) r = (Ret m :: (upb_DecodeStatus, _) res)"
  shows "conf C (Suc k) B r empty_msg"
  using assms by (simp add: level_conf_def mem_conf_def aux_conf_def slots_ok_def empty_msg_def presence_conf_def
      msg_cell_def field_conf_def value_conf_def plain_conf_def)

end
