(* ===== verification/Decode_Store.thy ===== *)
theory Decode_Store
  imports Decode_Conf
begin

unbundle bit_operations_syntax

text \<open>
  How the decoder changes a message: unknown fields are appended, a field is stored with its presence,
  an extension gets a slot. Each of these steps keeps a conforming message conforming.
\<close>

section \<open>Unknown fields\<close>

definition grown :: "upb_Message \<Rightarrow> upb_Message \<Rightarrow> bool" where
  "grown msg msg' \<longleftrightarrow> slots_ok msg' \<and> msg_mem msg' = msg_mem msg \<and> (\<exists>us. msg_aux msg' = msg_aux msg @ map AuxUnknown us)"

lemma grown_refl: "slots_ok msg \<Longrightarrow> grown msg msg"
  by (auto simp: grown_def intro: exI [of _ "[]"])

lemma grown_trans: "grown m1 m2 \<Longrightarrow> grown m2 m3 \<Longrightarrow> grown m1 m3"
  unfolding grown_def by (metis append.assoc map_append)

lemma grown_slots: "grown msg msg' \<Longrightarrow> slots_ok msg'"
  by (simp add: grown_def)

lemma aux_exts_unknown [simp]: "aux_exts (map AuxUnknown us) = []"
  by (induction us) simp_all

lemma grown_cell: "grown msg msg' \<Longrightarrow> msg_cell msg' x = msg_cell msg x"
  by (simp add: grown_def msg_cell_def)

lemma level_grown: "level_conf C P B r m msg \<Longrightarrow> grown msg msg' \<Longrightarrow> level_conf C P B r m msg'"
  by (auto simp: level_conf_def grown_def mem_conf_def presence_conf_def active_def msg_cell_def aux_conf_def aux_exts_append)

lemma add_unknown_safe:
  assumes "slots_ok msg"
  shows "safe (decoder_add_unknown C msg data aliased d) (\<lambda>(msg', d'). grown msg msg' \<and> arena_step d d')"
proof -
  obtain ok msg' a' where "upb_Message_AddUnknown (dec_malloc C) (dec_realloc C) msg data aliased (dec_arena d)
      = (Ret (ok, msg', a') :: (upb_DecodeStatus, _) res)" "slots_ok msg'" "msg_mem msg' = msg_mem msg"
    "msg_aux msg' = (if ok then msg_aux msg @ [AuxUnknown data] else msg_aux msg)"
    using add_unknown_law [OF assms, where 'e = upb_DecodeStatus] by metis
  then show ?thesis by (auto simp: decoder_add_unknown_def grown_def intro: exI [of _ "[data]"])
qed

lemma add_unknown_v_safe:
  assumes "slots_ok msg" and "data \<noteq> []"
  shows "safe (decoder_add_unknown_v C msg data d) (\<lambda>(msg', d'). grown msg msg' \<and> arena_step d d')"
proof -
  obtain ok msg1 a1 where r: "upb_Message_ReserveSlot (dec_malloc C) (dec_realloc C) msg (dec_arena d)
      = (Ret (ok, msg1, a1) :: (upb_DecodeStatus, _) res)"
    "slots_ok msg1" "msg_aux msg1 = msg_aux msg" "msg_mem msg1 = msg_mem msg" "ok \<Longrightarrow> length (msg_aux msg1) < msg_cap msg1"
    using reserve_slot_law [OF assms(1), where 'e = upb_DecodeStatus] by metis
  have "grown msg (msg_add_slot msg1 (AuxUnknown (concat data)))" if ok
    using that r by (auto simp: grown_def msg_add_slot_def slots_ok_def intro: exI [of _ "[concat data]"])
  with r(1) assms(2) show ?thesis
    by (auto simp: decoder_add_unknown_v_def upb_Message_AddUnknownV_def split: option.splits)
qed

text \<open>
  A field belongs to the message, or to an extension of the message \<open>orig\<close>, which then has the unknown
  fields.
\<close>

definition om_slots :: "upb_Message option \<times> upb_Message \<Rightarrow> bool" where
  "om_slots om = slots_ok (case fst om of None \<Rightarrow> snd om | Some orig \<Rightarrow> orig)"

definition om_grown :: "upb_Message option \<times> upb_Message \<Rightarrow> upb_Message option \<times> upb_Message \<Rightarrow> bool" where
  "om_grown om om' = (case fst om of
       None \<Rightarrow> fst om' = None \<and> grown (snd om) (snd om')
     | Some orig \<Rightarrow> (\<exists>orig'. fst om' = Some orig' \<and> grown orig orig') \<and> snd om' = snd om)"

lemma om_grown_refl: "om_slots om \<Longrightarrow> om_grown om om"
  by (auto simp: om_slots_def om_grown_def grown_refl split: option.splits)

lemma om_grown_trans: "om_grown a b \<Longrightarrow> om_grown b c \<Longrightarrow> om_grown a c"
  by (auto simp: om_grown_def split: option.splits intro: grown_trans)

lemma om_grown_slots: "om_grown om om' \<Longrightarrow> om_slots om'"
  by (auto simp: om_grown_def om_slots_def grown_def split: option.splits)

lemma om_grown_mem: "om_grown om om' \<Longrightarrow> msg_mem (snd om') = msg_mem (snd om)"
  by (auto simp: om_grown_def grown_def split: option.splits)

lemma om_grown_none: "om_grown om om' \<Longrightarrow> fst om' = None \<longleftrightarrow> fst om = None"
  by (auto simp: om_grown_def split: option.splits)

section \<open>Stores\<close>

text \<open>
  The memory after a value \<open>c\<close> was stored to a field and the presence of the field was set.
\<close>

definition stored :: "upb_MiniTableField \<Rightarrow> upb_cell \<Rightarrow> upb_Message \<Rightarrow> upb_Message \<Rightarrow> bool" where
  "stored f c msg msg' \<longleftrightarrow> msg_frozen msg' = msg_frozen msg \<and> msg_cap msg' = msg_cap msg \<and> msg_aux msg' = msg_aux msg
     \<and> (\<exists>pc. (0 < presence f \<longrightarrow> (\<exists>b. pc = Cell1 b)) \<and> (presence f < 0 \<longrightarrow> pc = Cell4 (of_nat (number f)))
        \<and> (\<forall>x. msg_cell msg' x = (if x = offset f then c else if presence f \<noteq> 0 \<and> x = presence_addr f then pc else msg_cell msg x)))"

lemma msg_set_sel [simp]:
  "msg_frozen (msg_set msg off c) = msg_frozen msg" "msg_cap (msg_set msg off c) = msg_cap msg"
  "msg_aux (msg_set msg off c) = msg_aux msg" "msg_mem (msg_set msg off c) = (msg_mem msg)(off := c)"
  "msg_cell (msg_set msg off c) x = (if x = off then c else msg_cell msg x)"
  by (simp_all add: msg_set_def msg_cell_def)

lemma slots_set [simp]: "slots_ok (msg_set msg off c) = slots_ok msg"
  by (simp add: slots_ok_def)

lemma stored_plain: "presence f = 0 \<Longrightarrow> stored f c msg (msg_set msg (offset f) c)"
  by (simp add: stored_def)

lemma stored_slots: "stored f c msg msg' \<Longrightarrow> slots_ok msg' = slots_ok msg"
  by (simp add: stored_def slots_ok_def)

lemma stored_cell: "stored f c msg msg' \<Longrightarrow> msg_cell msg' (offset f) = c"
  by (auto simp: stored_def)

lemma field_number_inj:
  assumes "table_ok T m" and "f \<in> set (mt_fields m)" "g \<in> set (mt_fields m)" and "(of_nat (number f) :: u32) = of_nat (number g)"
  shows "f = g"
proof -
  have "unat (of_nat (number h) :: u32) = number h" if "h \<in> set (mt_fields m)" for h
  proof (rule unat_of_nat_small)
    show "number h < 2 ^ LENGTH(32)" using table_field(2) [OF assms(1) that] by simp
  qed
  with assms(2-4) have "number f = number g" by metis
  with assms show ?thesis by (blast intro: field_inj)
qed

lemma mem_conf_store:
  assumes T: "table_ok T m" and f: "f \<in> set (mt_fields m)" and mem: "mem_conf T P B m msg"
    and BQ: "B \<le> B'" "P \<le> Q" and st: "stored f c msg msg'" and c: "field_conf T Q B' (subs m) f c"
  shows "mem_conf T Q B' m msg'"
  unfolding mem_conf_def
proof (intro ballI conjI impI)
  fix g assume g: "g \<in> set (mt_fields m)"
  obtain pc where pc: "0 < presence f \<Longrightarrow> \<exists>b. pc = Cell1 b" "presence f < 0 \<Longrightarrow> pc = Cell4 (of_nat (number f))"
    "\<And>x. msg_cell msg' x = (if x = offset f then c else if presence f \<noteq> 0 \<and> x = presence_addr f then pc else msg_cell msg x)"
    using st by (auto simp: stored_def)
  have old: "presence_conf g msg" "active g msg \<Longrightarrow> field_conf T P B (subs m) g (msg_cell msg (offset g))"
    using mem g by (auto simp: mem_conf_def)
  have pg: "presence_addr g \<noteq> offset f" if "presence g \<noteq> 0" using presence_offset [OF T g f that] .
  have share: "0 < presence f \<and> 0 < presence g \<or> presence f < 0 \<and> presence f = presence g"
    if "presence f \<noteq> 0" "presence g \<noteq> 0" "presence_addr f = presence_addr g"
    using presence_addrs [OF T f g that] .
  show "presence_conf g msg'"
  proof (cases "presence g \<noteq> 0 \<and> presence f \<noteq> 0 \<and> presence_addr g = presence_addr f")
    case True
    with share pc pg show ?thesis by (auto simp: presence_conf_def)
  next
    case False
    with old(1) pg pc(3) show ?thesis by (auto simp: presence_conf_def)
  qed
  assume act: "active g msg'"
  show "field_conf T Q B' (subs m) g (msg_cell msg' (offset g))"
  proof (cases "g = f")
    case True
    with c pc(3) show ?thesis by simp
  next
    case ne: False
    have diff: "\<not> (presence f < 0 \<and> presence g = presence f)"
    proof
      assume one: "presence f < 0 \<and> presence g = presence f"
      then have "presence_addr g = presence_addr f" by (simp add: presence_addr_def)
      then have "msg_cell msg' (presence_addr g) = Cell4 (of_nat (number f))" using pc one pg by auto
      with act one ne field_number_inj [OF T f g] show False by (auto simp: active_def)
    qed
    then have off: "offset g \<noteq> offset f" using offsets_differ [OF T f g] ne by auto
    have cell: "msg_cell msg' (offset g) = msg_cell msg (offset g)"
      using pc(3) off presence_offset [OF T f g] by auto
    have "active g msg"
    proof (cases "presence g < 0")
      case True
      then have "\<not> (presence f \<noteq> 0 \<and> presence_addr g = presence_addr f)" using share diff by auto
      with act pc(3) pg True show ?thesis by (auto simp: active_def)
    qed (simp add: active_def)
    then have "field_conf T P B (subs m) g (msg_cell msg (offset g))" by (rule old(2))
    then show ?thesis unfolding cell using BQ by (rule field_conf_mono)
  qed
qed

lemma level_store:
  assumes "table_ok (dec_tables C) m" and "f \<in> set (mt_fields m)" and "level_conf C P B r m msg"
    and "B \<le> B'" and "P \<le> Q" and "stored f c msg msg'" and "field_conf (dec_tables C) Q B' (subs m) f c"
  shows "level_conf C Q B' r m msg'"
proof -
  have mem: "mem_conf (dec_tables C) Q B' m msg'"
    by (rule mem_conf_store [OF assms(1,2) _ assms(4-7)]) (use assms(3) in \<open>simp add: level_conf_def\<close>)
  have "level_conf C Q B' r m msg" using assms(3-5) by (rule level_conf_mono)
  with mem assms(6) show ?thesis by (auto simp: level_conf_def stored_slots) (simp add: stored_def)
qed

subsection \<open>The result of storing a field\<close>

definition store_post ::
  "upb_MiniTable list \<Rightarrow> (mt_ref \<Rightarrow> upb_Message \<Rightarrow> bool) \<Rightarrow> nat \<Rightarrow> upb_MiniTableSub list \<Rightarrow> upb_MiniTableField
     \<Rightarrow> upb_Message option \<times> upb_Message \<Rightarrow> upb_Message option \<times> upb_Message \<Rightarrow> bool" where
  "store_post T P B ss f om om' \<longleftrightarrow> (\<exists>msg1. om_grown om (fst om', msg1)
     \<and> (snd om' = msg1 \<and> upb_MiniTableField_IsScalar f
        \<or> (\<exists>c. stored f c msg1 (snd om') \<and> field_conf T P B ss f c \<and> (upb_MiniTableField_IsArray f \<longrightarrow> c \<noteq> Zero))))"

lemma level_store_post:
  assumes "table_ok (dec_tables C) m" and "f \<in> set (mt_fields m)" and "level_conf C P B r m msg"
    and "B \<le> B'" and "P \<le> Q" and post: "store_post (dec_tables C) Q B' (subs m) f (None, msg) (orig', msg')"
  shows "level_conf C Q B' r m msg'"
proof -
  obtain msg1 where g: "grown msg msg1" and c: "msg' = msg1
      \<or> (\<exists>c. stored f c msg1 msg' \<and> field_conf (dec_tables C) Q B' (subs m) f c)"
    using post by (auto simp: store_post_def om_grown_def)
  have lev: "level_conf C P B r m msg1" using assms(3) g by (rule level_grown)
  from c show ?thesis
  proof
    assume "msg' = msg1"
    with level_conf_mono [OF lev assms(4,5)] show ?thesis by simp
  next
    assume "\<exists>c. stored f c msg1 msg' \<and> field_conf (dec_tables C) Q B' (subs m) f c"
    then show ?thesis using level_store [OF assms(1,2) lev assms(4,5)] by blast
  qed
qed

section \<open>Presence\<close>

text \<open>
  A field whose value is to be stored: its presence can be read, its own cells are apart, and its value
  conforms if it is not an inactive member of a oneof.
\<close>

definition store_pre :: "(mt_ref \<Rightarrow> upb_Message \<Rightarrow> bool) \<Rightarrow> upb_MiniTableSub list \<Rightarrow> upb_MiniTableField \<Rightarrow> upb_Message \<Rightarrow> bool" where
  "store_pre P ss f msg \<longleftrightarrow> presence_conf f msg \<and> (presence f \<noteq> 0 \<longrightarrow> presence_addr f \<noteq> offset f)
     \<and> (presence f < 0 \<longrightarrow> 0 < number f \<and> number f < 2 ^ 29) \<and> (active f msg \<longrightarrow> value_conf P ss f (msg_cell msg (offset f)))"

text \<open>The presence was set and the cell of the field is not yet written, or it was cleared.\<close>

definition present :: "upb_MiniTableField \<Rightarrow> upb_Message \<Rightarrow> upb_Message \<Rightarrow> bool" where
  "present f msg msg2 \<longleftrightarrow> (\<forall>c. stored f c msg (msg_set msg2 (offset f) c))"

lemma of_nat_number: "0 < n \<Longrightarrow> n < 2 ^ 29 \<Longrightarrow> (of_nat n :: u32) \<noteq> 0"
  using unat_of_nat_small [of n, where 'a = 32] by auto

lemma set_presence_safe:
  assumes "store_pre P ss f msg"
  shows "safe (decode_set_presence msg f op) (\<lambda>msg2. present f msg msg2
    \<and> (op = kUpb_DecodeOp_SubMessage \<longrightarrow> value_conf P ss f (msg_cell msg2 (offset f))))"
proof -
  have pre: "presence_conf f msg" "presence f \<noteq> 0 \<Longrightarrow> presence_addr f \<noteq> offset f" "presence f < 0 \<Longrightarrow> (of_nat (number f) :: u32) \<noteq> 0"
    "active f msg \<Longrightarrow> value_conf P ss f (msg_cell msg (offset f))"
    using assms of_nat_number [of "number f"] by (auto simp: store_pre_def)
  have zero: "value_conf P ss f Zero" by (simp add: value_conf_def plain_conf_def)
  consider "0 < presence f" | "presence f < 0" | "presence f = 0" by linarith
  then show ?thesis
  proof cases
    case 1
    let ?b = "\<lambda>b. b OR push_bit (nat (presence f) mod 8) 1"
    obtain b :: u8 where b: "(cell1 (msg_cell msg (presence_addr f)) :: (upb_DecodeStatus, _) res) = Ret b"
      using pre(1) 1 by (auto simp: presence_conf_def)
    then have "decode_set_presence msg f op = Ret (msg_set msg (presence_addr f) (Cell1 (?b b)))"
      using 1 by (simp add: decode_set_presence_def upb_MiniTableField_HasHasbit_def upb_Message_SetHasbit_def
          upb_MiniTableField_HasbitOffset_def upb_MiniTableField_HasbitMask_def presence_addr_def)
    moreover have "present f msg (msg_set msg (presence_addr f) (Cell1 (?b b)))"
      using 1 by (auto simp: present_def stored_def intro: exI [of _ "Cell1 (?b b)"])
    moreover have "active f msg" using 1 by (simp add: active_def)
    ultimately show ?thesis using pre 1 by simp
  next
    case 2
    obtain w :: u32 where w: "(cell4 (msg_cell msg (presence_addr f)) :: (upb_DecodeStatus, _) res) = Ret w"
      using pre(1) 2 by (auto simp: presence_conf_def)
    let ?clear = "op = kUpb_DecodeOp_SubMessage \<and> w \<noteq> of_nat (number f)"
    let ?msg1 = "if ?clear then msg_set msg (offset f) Zero else msg"
    let ?msg2 = "msg_set ?msg1 (presence_addr f) (Cell4 (of_nat (number f)))"
    have "decode_set_presence msg f op = Ret ?msg2"
      using 2 w by (simp add: decode_set_presence_def upb_MiniTableField_HasHasbit_def upb_MiniTableField_IsInOneof_def
          upb_Message_GetOneofCase_def upb_Message_SetOneofCase_def upb_MiniTableField_OneofOffset_def presence_addr_def)
    moreover have "present f msg ?msg2" using 2 by (auto simp: present_def stored_def)
    moreover have "value_conf P ss f (msg_cell ?msg2 (offset f))" if "op = kUpb_DecodeOp_SubMessage"
    proof (cases ?clear)
      case True
      then show ?thesis using zero pre(2) 2 by simp
    next
      case False
      then have "w = of_nat (number f)" using that by simp
      with w pre(3) [OF 2] have "active f msg" by (cases "msg_cell msg (presence_addr f)") (auto simp: active_def)
      then show ?thesis using pre(2,4) 2 False zero by auto
    qed
    ultimately show ?thesis by simp
  next
    case 3
    then show ?thesis using pre
      by (simp add: decode_set_presence_def upb_MiniTableField_HasHasbit_def upb_MiniTableField_IsInOneof_def
          present_def stored_plain active_def)
  qed
qed

lemma store_pre_grown: "store_pre P ss f msg \<Longrightarrow> msg_mem msg' = msg_mem msg \<Longrightarrow> store_pre P ss f msg'"
  by (simp add: store_pre_def presence_conf_def active_def msg_cell_def)

lemma store_pre_field:
  assumes "table_ok (dec_tables C) m" and "f \<in> set (mt_fields m)" and "level_conf C P B r m msg"
    and "upb_MiniTableField_IsScalar f"
  shows "store_pre P (subs m) f msg"
proof -
  have "\<not> upb_MiniTableField_IsArray f" "\<not> upb_MiniTableField_IsMap f"
    using assms(4) by (simp_all add: upb_MiniTableField_IsScalar_def upb_MiniTableField_IsArray_def upb_MiniTableField_IsMap_def)
  moreover have "0 < number f" using assms(1,2) by (auto simp: table_ok_def intro: mt_fields_wf_pos)
  ultimately show ?thesis
    using assms presence_offset [OF assms(1,2,2)] table_field(2) [OF assms(1,2)]
    by (auto simp: store_pre_def level_conf_def mem_conf_def field_conf_def)
qed

section \<open>Extensions\<close>

lemma aux_conf_insert:
  assumes "aux_conf C P B r is_set (ys @ zs)" and "number (ext_field x) \<notin> (\<lambda>xc. number (ext_field (fst xc))) ` set (aux_exts (ys @ zs))"
    and "ext_registered (dec_extreg C) r x" and "ext_conf (dec_tables C) P B is_set x c"
  shows "aux_conf C P B r is_set (ys @ AuxExt x c # zs)"
  using assms by (auto simp: aux_conf_def aux_exts_append)

lemma aux_conf_remove:
  assumes "aux_conf C P B r is_set (ys @ AuxExt x c # zs)"
  shows "aux_conf C P B r is_set (ys @ zs)"
    and "number (ext_field x) \<notin> (\<lambda>xc. number (ext_field (fst xc))) ` set (aux_exts (ys @ zs))"
    and "ext_conf (dec_tables C) P B is_set x c"
  using assms by (auto simp: aux_conf_def aux_exts_append)

lemma aux_conf_mono: "aux_conf C P B r is_set xs \<Longrightarrow> B \<le> B' \<Longrightarrow> P \<le> Q \<Longrightarrow> aux_conf C Q B' r is_set xs"
  using ext_conf_mono by (fastforce simp: aux_conf_def)

lemma aux_conf_unknown: "aux_conf C P B r is_set (xs @ map AuxUnknown us) = aux_conf C P B r is_set xs"
  by (simp add: aux_conf_def aux_exts_append)

lemma getext_Some: "getext_loop xs x k = Some i \<Longrightarrow> \<exists>ys c zs. xs = ys @ AuxExt x c # zs \<and> i = k + length ys"
proof (induction xs arbitrary: k)
  case (Cons a xs)
  show ?case
  proof (cases "\<exists>c. a = AuxExt x c")
    case True
    with Cons.prems show ?thesis by (auto intro: exI [of _ "[]"])
  next
    case False
    with Cons.prems have "getext_loop xs x (k + 1) = Some i" by (cases a) (auto split: if_splits)
    from Cons.IH [OF this] obtain ys c zs where "xs = ys @ AuxExt x c # zs" "i = k + 1 + length ys" by blast
    then show ?thesis by (intro exI [of _ "a # ys"]) simp
  qed
qed simp

lemma getext_None: "getext_loop xs x i = None \<Longrightarrow> (x, c) \<notin> set (aux_exts xs)"
  by (induction xs x i rule: getext_loop.induct) (auto split: if_splits)

text \<open>A slot for the extension \<open>x\<close>, at the position \<open>i\<close>, among slots that conform.\<close>

definition slot_for ::
  "'a dec_env \<Rightarrow> (mt_ref \<Rightarrow> upb_Message \<Rightarrow> bool) \<Rightarrow> nat \<Rightarrow> mt_ref \<Rightarrow> bool \<Rightarrow> upb_MiniTableExtension \<Rightarrow> nat \<Rightarrow> upb_cell \<Rightarrow> upb_aux list \<Rightarrow> bool" where
  "slot_for C P B r is_set x i c xs \<longleftrightarrow> (\<exists>ys zs. xs = ys @ AuxExt x c # zs \<and> i = length ys \<and> aux_conf C P B r is_set (ys @ zs)
     \<and> number (ext_field x) \<notin> (\<lambda>xc. number (ext_field (fst xc))) ` set (aux_exts (ys @ zs))
     \<and> ext_registered (dec_extreg C) r x \<and> (c = Zero \<or> ext_conf (dec_tables C) P B is_set x c))"

lemma ext_fresh:
  assumes "aux_conf C P B r is_set xs" and "dec_extreg C = Some g"
    and "extreg_map g (extreg_key r (upb_MiniTableExtension_Number x)) = Some x" and "getext_loop xs x 0 = None"
  shows "number (ext_field x) \<notin> (\<lambda>xc. number (ext_field (fst xc))) ` set (aux_exts xs)"
proof
  assume "number (ext_field x) \<in> (\<lambda>xc. number (ext_field (fst xc))) ` set (aux_exts xs)"
  then obtain y c where y: "(y, c) \<in> set (aux_exts xs)" "number (ext_field y) = number (ext_field x)" by auto
  then have "ext_registered (dec_extreg C) r y" using assms(1) by (auto simp: aux_conf_def)
  moreover have "upb_MiniTableExtension_Number y = upb_MiniTableExtension_Number x"
    using y(2) by (simp add: upb_MiniTableExtension_Number_def)
  ultimately have "y = x" using assms(2,3) by (simp add: ext_registered_def)
  with y(1) getext_None [OF assms(4)] show False by blast
qed

lemma slot_existing:
  assumes "aux_conf C P B r is_set xs" and "ext_registered (dec_extreg C) r x" and "getext_loop xs x 0 = Some i"
  shows "\<exists>c. slot_for C P B r is_set x i c xs"
proof -
  obtain ys c zs where split: "xs = ys @ AuxExt x c # zs" "i = length ys" using getext_Some [OF assms(3)] by auto
  note rm = aux_conf_remove [OF assms(1) [unfolded split(1)]]
  show ?thesis unfolding slot_for_def
    by (intro exI [of _ c] exI [of _ ys] exI [of _ zs]) (use split rm assms(2) in simp)
qed

lemma slot_new:
  assumes "aux_conf C P B r is_set xs" and "ext_registered (dec_extreg C) r x"
    and "number (ext_field x) \<notin> (\<lambda>xc. number (ext_field (fst xc))) ` set (aux_exts xs)"
  shows "slot_for C P B r is_set x (length xs) Zero (xs @ [AuxExt x Zero])"
  unfolding slot_for_def by (intro exI [of _ xs] exI [of _ "[]"]) (use assms in simp)

lemma get_extension_safe:
  assumes lev: "level_conf C P B r m msg" and reg: "dec_extreg C = Some g"
    and x: "extreg_map g (extreg_key r (upb_MiniTableExtension_Number x)) = Some x"
  shows "safe (decoder_get_extension C msg x d) (\<lambda>((i, msg1), d'). arena_step d d' \<and> slots_ok msg1 \<and> msg_mem msg1 = msg_mem msg
    \<and> (\<exists>c. slot_for C P B r (ext m = kUpb_ExtMode_IsMessageSet) x i c (msg_aux msg1)))"
    (is "safe _ ?post")
proof -
  let ?set = "ext m = kUpb_ExtMode_IsMessageSet"
  have slots: "slots_ok msg" and aux: "aux_conf C P B r ?set (msg_aux msg)" using lev by (simp_all add: level_conf_def)
  have thawed: "\<not> msg_frozen msg" using slots by (simp add: slots_ok_def)
  have reg_x: "ext_registered (dec_extreg C) r x" unfolding ext_registered_def reg option.case x by (rule insertI2) (rule insertI1)
  show ?thesis
  proof (cases "upb_Message_Getext msg x")
    case (Some i)
    have "decoder_get_extension C msg x d = Ret ((i, msg), d)"
      using Some thawed by (simp add: decoder_get_extension_def upb_Message_GetOrCreateExtension_def)
    moreover have "\<exists>c. slot_for C P B r ?set x i c (msg_aux msg)"
      by (rule slot_existing [OF aux reg_x]) (use Some in \<open>simp add: upb_Message_Getext_def\<close>)
    ultimately show ?thesis using slots by simp
  next
    case None
    note slot = slot_new [OF aux reg_x ext_fresh [OF aux reg x]]
    obtain ok msg1 a1 where res: "upb_Message_ReserveSlot (dec_malloc C) (dec_realloc C) msg (dec_arena d)
        = (Ret (ok, msg1, a1) :: (upb_DecodeStatus, _) res)"
      "slots_ok msg1" "msg_aux msg1 = msg_aux msg" "msg_mem msg1 = msg_mem msg" "ok \<Longrightarrow> length (msg_aux msg1) < msg_cap msg1"
      using reserve_slot_law [OF slots, where 'e = upb_DecodeStatus] by metis
    let ?msg2 = "msg_add_slot msg1 (AuxExt x Zero)"
    have post: "?post ((length (msg_aux msg1), ?msg2), d\<lparr>dec_arena := a2\<rparr>)" if ok for a2
      using that res(2-5) slot None by (auto simp: msg_add_slot_def slots_ok_def upb_Message_Getext_def)
    have "decoder_get_extension C msg x d = (if \<not> ok then Raise kUpb_DecodeStatus_OutOfMemory
      else case dec_malloc C a1 24 of None \<Rightarrow> Raise kUpb_DecodeStatus_OutOfMemory
        | Some a2 \<Rightarrow> Ret ((length (msg_aux msg1), ?msg2), d\<lparr>dec_arena := a2\<rparr>))"
      using res(1) None thawed
      by (cases "dec_malloc C a1 24") (simp_all add: decoder_get_extension_def upb_Message_GetOrCreateExtension_def)
    with post show ?thesis by (cases "dec_malloc C a1 24") simp_all
  qed
qed

text \<open>The value of the slot is replaced after unknown fields were added.\<close>

lemma slot_replaced:
  assumes "slot_for C P B r is_set x i c xs" and "B \<le> B'" and "P \<le> Q" and "ext_conf (dec_tables C) Q B' is_set x c'"
  shows "aux_conf C Q B' r is_set ((xs @ map AuxUnknown us)[i := AuxExt x c'])"
proof -
  obtain ys zs where xs: "xs = ys @ AuxExt x c # zs" "i = length ys" "aux_conf C P B r is_set (ys @ zs)"
    "number (ext_field x) \<notin> (\<lambda>xc. number (ext_field (fst xc))) ` set (aux_exts (ys @ zs))" "ext_registered (dec_extreg C) r x"
    using assms(1) unfolding slot_for_def by blast
  have "aux_conf C Q B' r is_set (ys @ zs @ map AuxUnknown us)"
    using aux_conf_mono [OF xs(3) assms(2,3)] aux_conf_unknown [of C Q B' r is_set "ys @ zs"] by simp
  moreover have "(xs @ map AuxUnknown us)[i := AuxExt x c'] = ys @ AuxExt x c' # zs @ map AuxUnknown us"
    using xs(1,2) by (simp add: list_update_append)
  ultimately show ?thesis using xs(4,5) assms(4)
    by (auto intro!: aux_conf_insert simp: aux_exts_append)
qed

end
