(* ===== verification/Conf_Typed.thy ===== *)
theory Conf_Typed
  imports Decode_Conf
begin

unbundle bit_operations_syntax

text \<open>
  A message that conforms in the sense of the decoder conforms in the sense of the encoder: what was
  parsed can be written again, in the order of the hash tables.
\<close>

section \<open>Values\<close>

lemma is_sub_kind_iff: "is_sub_kind f = upb_MiniTableField_IsSubMessage f"
  by (cases "descriptortype f") (simp_all add: is_sub_kind_def upb_MiniTableField_IsSubMessage_def)

lemma ok_res_Ret [simp]: "ok_res (Ret v) Q = Q v"
  by (simp add: ok_res_def)

lemma plain_typed: "\<not> upb_MiniTableField_IsSubMessage f \<Longrightarrow> plain_conf (descriptortype f) c \<Longrightarrow> elem_typed Q subm f c"
  by (cases "descriptortype f"; cases c)
    (simp_all add: plain_conf_def elem_typed_def upb_MiniTableField_IsSubMessage_def cell_bool_def)

text \<open>The sub-table of a message field can be found.\<close>

definition sub_linked :: "upb_MiniTable list \<Rightarrow> upb_MiniTableSub list \<Rightarrow> upb_MiniTableField \<Rightarrow> bool" where
  "sub_linked T ss f \<longleftrightarrow> (upb_MiniTableField_IsSubMessage f \<longrightarrow> (\<exists>r m. upb_MiniTableSubs_MessageByField ss f = Ret r
     \<and> mini_table_of T r = (Ret m :: (upb_DecodeStatus, _) res)))"

lemma link_table: "upb_MiniTableSubs_MessageByField ss f = Ret r \<Longrightarrow>
    upb_Encoder_GetSubMiniTable T ss f = (mini_table_of T r :: (upb_EncodeStatus, _) res)"
  by (cases "submsg_index f < length ss")
    (auto simp: upb_MiniTableSubs_MessageByField_def upb_Encoder_GetSubMiniTable_def split: upb_MiniTableSub.splits)

lemma field_sub_linked:
  assumes "table_ok T m" and "f \<in> set (mt_fields m)"
  shows "sub_linked T (subs m) f"
  unfolding sub_linked_def
proof
  assume "upb_MiniTableField_IsSubMessage f"
  with table_field(1) [OF assms] obtain r where r: "submsg_index f < length (subs m)" "subs m ! submsg_index f = Submsg r"
    by (auto simp: field_wf_def split: upb_MiniTableSub.splits)
  then have "Submsg r \<in> set (subs m)" by (metis nth_mem)
  then have "r = MtEmpty \<or> (\<exists>i < length T. r = Mt i)"
    using assms(1) by (cases r) (auto simp: table_ok_def mt_links_wf_def list_all_iff)
  then have "\<exists>mt. mini_table_of T r = (Ret mt :: (upb_DecodeStatus, _) res)" by (auto simp: mini_table_of_def)
  with r show "\<exists>r m'. upb_MiniTableSubs_MessageByField (subs m) f = Ret r \<and> mini_table_of T r = (Ret m' :: (upb_DecodeStatus, _) res)"
    by (auto simp: upb_MiniTableSubs_MessageByField_def)
qed

lemma ext_sub_linked: "ext_wf T x \<Longrightarrow> sub_linked T (ext_subs x) (ext_field x)"
  by (auto simp: sub_linked_def ext_wf_def ext_subs_def upb_MiniTableSubs_MessageByField_def mini_table_of_def Let_def)

text \<open>The messages that satisfy \<open>P\<close> satisfy \<open>Q\<close> for their table.\<close>

definition typed_by :: "upb_MiniTable list \<Rightarrow> (mt_ref \<Rightarrow> upb_Message \<Rightarrow> bool) \<Rightarrow> msg_pred \<Rightarrow> bool" where
  "typed_by T P Q \<longleftrightarrow> (\<forall>r msg m. P r msg \<and> mini_table_of T r = (Ret m :: (upb_DecodeStatus, _) res) \<longrightarrow> Q m msg)"

lemma typed_msg:
  assumes "typed_by T P Q" and "upb_MiniTableSubs_MessageByField ss f = Ret r" and "P r msg" and "e \<longrightarrow> r = MtEmpty"
    and "mini_table_of T r = (Ret subm :: (upb_DecodeStatus, _) res)"
  shows "Q (if e then kUpb_MiniTable_Empty else subm) msg"
proof -
  have "Q subm msg" using assms(1,3,5) unfolding typed_by_def by blast
  moreover have "subm = kUpb_MiniTable_Empty" if e using that assms(4,5) by (simp add: mini_table_of_def)
  ultimately show ?thesis by auto
qed

lemma elem_conf_typed:
  assumes "typed_by T P Q" and "elem_conf P ss f c" and "upb_MiniTableField_IsSubMessage f"
    and r: "upb_MiniTableSubs_MessageByField ss f = Ret r" and "mini_table_of T r = (Ret subm :: (upb_DecodeStatus, _) res)"
  shows "elem_typed Q subm f c"
proof -
  obtain e msg where "c = CellMsg e msg" "e \<longrightarrow> r = MtEmpty" "P r msg"
    using assms(2,3) r by (auto simp: elem_conf_def value_conf_def split: upb_cell.splits)
  with typed_msg [OF assms(1) r _ _ assms(5)] assms(3) show ?thesis
    by (cases "descriptortype f") (auto simp: elem_typed_def upb_MiniTableField_IsSubMessage_def)
qed

lemma linked_table:
  assumes "sub_linked T ss f" and "upb_MiniTableField_IsSubMessage f"
  obtains r subm where "upb_MiniTableSubs_MessageByField ss f = Ret r" "mini_table_of T r = (Ret subm :: (upb_DecodeStatus, _) res)"
    "upb_Encoder_GetSubMiniTable T ss f = (Ret subm :: (upb_EncodeStatus, _) res)"
  using assms link_table mini_table_of_any unfolding sub_linked_def by metis

lemma value_conf_typed:
  assumes "typed_by T P Q" and "sub_linked T ss f" and "value_conf P ss f c"
  shows "scalar_typed T Q ss f c"
proof (cases "upb_MiniTableField_IsSubMessage f")
  case True
  obtain r subm where r: "upb_MiniTableSubs_MessageByField ss f = Ret r" "mini_table_of T r = (Ret subm :: (upb_DecodeStatus, _) res)"
    "upb_Encoder_GetSubMiniTable T ss f = (Ret subm :: (upb_EncodeStatus, _) res)" using linked_table [OF assms(2) True] .
  have "cell_null c \<or> elem_typed Q subm f c"
    using elem_conf_typed [OF assms(1) _ True r(1,2), of c] assms(3) by (cases c) (auto simp: elem_conf_def)
  with True r(3) show ?thesis by (simp add: scalar_typed_def is_sub_kind_iff)
next
  case False
  with assms(3) show ?thesis by (simp add: scalar_typed_def is_sub_kind_iff value_conf_def plain_typed)
qed

lemma array_conf_typed:
  assumes "typed_by T P Q" and "sub_linked T ss f" and "\<forall>x \<in> set xs. elem_conf P ss f x"
  shows "array_typed T Q ss f xs"
proof (cases "upb_MiniTableField_IsSubMessage f")
  case True
  obtain r subm where r: "upb_MiniTableSubs_MessageByField ss f = Ret r" "mini_table_of T r = (Ret subm :: (upb_DecodeStatus, _) res)"
    "upb_Encoder_GetSubMiniTable T ss f = (Ret subm :: (upb_EncodeStatus, _) res)" using linked_table [OF assms(2) True] .
  have "list_all (elem_typed Q subm f) xs"
    using elem_conf_typed [OF assms(1) _ True r(1,2)] assms(3) by (simp add: list_all_iff)
  with True r(3) show ?thesis by (simp add: array_typed_def is_sub_kind_iff)
next
  case False
  with assms(3) show ?thesis
    by (auto simp: array_typed_def is_sub_kind_iff list_all_iff elem_conf_def value_conf_def intro: plain_typed)
qed

section \<open>Maps\<close>

lemma map_entries_ok:
  "\<forall>(k, i) \<in> set ps. unat i < length vals \<and> (\<exists>kc. upb_map_fromkey k ks = (Ret kc :: ('e, _) res) \<and> K kc) \<and> V (vals ! unat i) \<Longrightarrow>
    \<exists>ents. map_entries ks vals ps = (Ret ents :: ('e, _) res) \<and> list_all (\<lambda>(k, v). K k \<and> V v) ents"
proof (induction ps)
  case (Cons p ps)
  obtain k i where p: "p = (k, i)" by (cases p)
  with Cons.prems obtain kc where "unat i < length vals" "upb_map_fromkey k ks = (Ret kc :: ('e, _) res)" "K kc" "V (vals ! unat i)"
    by auto
  moreover obtain ents where "map_entries ks vals ps = (Ret ents :: ('e, _) res)" "list_all (\<lambda>(k, v). K k \<and> V v) ents"
    using Cons by auto
  ultimately show ?case using p by simp
qed simp

lemma strtable_pairs_map:
  assumes "hash_ok upb_Hash_NoSeed t" and "(k, i) \<in> set (strtable_pairs t (- 1))"
  shows "table_map t k = Some i"
proof -
  have inv: "table_inv upb_Hash_NoSeed t" using assms(1) by (simp add: hash_ok_def)
  have "strtable_pairs t (- 1) = map (pair_at t) (occupied_from t 0)" using strtable_pairs_list [of "- 1" t] by simp
  with assms(2) occupied_pairs(1,2) [OF inv] show ?thesis by (metis map_of_is_SomeI)
qed

lemma map_conf_typed:
  assumes Q: "typed_by T P Q" and T: "\<forall>m \<in> set T. table_ok T m" and opt: "options AND kUpb_EncodeOption_Deterministic = 0"
    and map: "map_conf T P B ss f c" and wf: "\<And>i. upb_MiniTableSubs_MessageByField ss f = Ret (Mt i) \<Longrightarrow> entry_wf (T ! i)"
  shows "map_typed T options Q ss f c"
proof -
  obtain i entry kf vf where i: "i < length T" "T ! i = entry" "upb_MiniTableSubs_MessageByField ss f = Ret (Mt i)"
    and entry: "mt_fields entry = [kf, vf]" and c: "map_ok c" "map_keysize c = kSizeInMap (descriptortype kf)"
    and vals: "\<forall>k v. map_abs c k = Some v \<longrightarrow>
      (\<exists>kc. upb_map_fromkey k (map_keysize c) = (Ret kc :: (upb_EncodeStatus, _) res) \<and> plain_conf (descriptortype kf) kc)
      \<and> value_conf P (subs entry) vf v"
    using map unfolding map_conf_def by (elim exE conjE) (rule that)
  have ok: "table_ok T entry" using T i by (metis nth_mem)
  have ent: "number kf = 1" "number vf = 2" "\<not> upb_MiniTableField_IsSubMessage kf"
    using wf [OF i(3)] i(2) entry by (auto simp: entry_wf_def)
  have cnt: "field_count entry = 2" using ok entry by (simp add: table_ok_def mt_fields_wf_def)
  have kv: "noerr (upb_MiniTable_MapKey entry) = (Ret kf :: (upb_EncodeStatus, _) res)"
    "noerr (upb_MiniTable_MapValue entry) = (Ret vf :: (upb_EncodeStatus, _) res)"
    using cnt entry ent by (simp_all add: upb_MiniTable_MapKey_def upb_MiniTable_MapValue_def noerr_def)
  have get: "upb_Encoder_GetSubMiniTable T ss f = (Ret entry :: (upb_EncodeStatus, _) res)"
    using link_table [OF i(3)] i(1,2) by (simp add: mini_table_of_def)
  obtain ks vs t vals' where mp: "c = CellMap False ks vs t vals'" "hash_ok upb_Hash_NoSeed t"
    and idx: "\<And>k i. table_map t k = Some i \<Longrightarrow> unat i < length vals'"
    using map_okE [OF c(1)] by metis
  have "\<forall>(k, i) \<in> set (strtable_pairs t (- 1)). unat i < length vals'
      \<and> (\<exists>kc. upb_map_fromkey k ks = (Ret kc :: (upb_EncodeStatus, _) res) \<and> scalar_typed T Q (subs entry) kf kc)
      \<and> scalar_typed T Q (subs entry) vf (vals' ! unat i)"
  proof (clarify, intro conjI)
    fix k i assume "(k, i) \<in> set (strtable_pairs t (- 1))"
    then have ti: "table_map t k = Some i" by (rule strtable_pairs_map [OF mp(2)])
    then have "map_abs c k = Some (vals' ! unat i)" using mp(1) by (simp add: map_abs_def)
    with vals obtain kc where kc: "upb_map_fromkey k (map_keysize c) = (Ret kc :: (upb_EncodeStatus, _) res)"
      "plain_conf (descriptortype kf) kc" "value_conf P (subs entry) vf (vals' ! unat i)" by blast
    show "unat i < length vals'" by (rule idx [OF ti])
    show "scalar_typed T Q (subs entry) vf (vals' ! unat i)"
      using Q _ kc(3) by (rule value_conf_typed) (use field_sub_linked [OF ok] entry in simp)
    have "scalar_typed T Q (subs entry) kf kc" using kc(2) ent(3) by (simp add: scalar_typed_def is_sub_kind_iff plain_typed)
    with kc(1) mp(1) show "\<exists>kc. upb_map_fromkey k ks = (Ret kc :: (upb_EncodeStatus, _) res) \<and> scalar_typed T Q (subs entry) kf kc"
      by (auto simp: map_keysize_def)
  qed
  from map_entries_ok [OF this] obtain ents where ents: "map_entries ks vals' (strtable_pairs t (- 1)) = (Ret ents :: (upb_EncodeStatus, _) res)"
    "list_all (\<lambda>(k, v). scalar_typed T Q (subs entry) kf k \<and> scalar_typed T Q (subs entry) vf v) ents" by blast
  have order: "map_order options entry t = Ret (strtable_pairs t (- 1))" using opt by (simp add: map_order_def)
  show ?thesis using get cnt kv ents order mp(1) by (simp add: map_typed_def)
qed

section \<open>Messages\<close>

lemma mode_fields:
  "upb_MiniTableField_IsScalar f \<Longrightarrow> \<not> upb_MiniTableField_IsArray f" "upb_MiniTableField_IsScalar f \<Longrightarrow> \<not> upb_MiniTableField_IsMap f"
  "upb_MiniTableField_IsMap f \<Longrightarrow> \<not> upb_MiniTableField_IsArray f"
  by (simp_all add: upb_MiniTableField_IsArray_def upb_MiniTableField_IsMap_def upb_MiniTableField_IsScalar_def)

lemma field_conf_typed:
  assumes Q: "typed_by T P Q" and T: "\<forall>m \<in> set T. table_ok T m" and opt: "options AND kUpb_EncodeOption_Deterministic = 0"
    and link: "sub_linked T ss f" and modes: "upb_MiniTableField_IsArray f \<or> upb_MiniTableField_IsMap f \<or> upb_MiniTableField_IsScalar f"
    and entry: "upb_MiniTableField_IsMap f \<Longrightarrow> \<exists>i < length T. upb_MiniTableSubs_MessageByField ss f = Ret (Mt i) \<and> entry_wf (T ! i)"
    and c: "field_conf T P B ss f c"
  shows "field_typed T options Q ss f c"
proof -
  consider "upb_MiniTableField_IsArray f" | "upb_MiniTableField_IsMap f" | "upb_MiniTableField_IsScalar f" using modes by blast
  then show ?thesis
  proof cases
    case 1
    then show ?thesis using c array_conf_typed [OF Q link]
      by (auto simp: field_conf_def field_typed_def array_conf_def arr_ok_def arr_elems_def upb_MiniTableField_IsArray_def split: upb_cell.splits)
  next
    case 2
    obtain i where i: "i < length T" "upb_MiniTableSubs_MessageByField ss f = Ret (Mt i)" "entry_wf (T ! i)" using entry [OF 2] by blast
    have ok: "table_ok T (T ! i)" using T i(1) by simp
    have "map_typed T options Q ss f Zero"
      using i link_table [OF i(2), of T] ok
      by (auto simp: map_typed_def mini_table_of_def entry_wf_def table_ok_def mt_fields_wf_def upb_MiniTable_MapKey_def
          upb_MiniTable_MapValue_def noerr_def)
    moreover have "map_typed T options Q ss f c" if "map_conf T P B ss f c"
      by (rule map_conf_typed [OF Q T opt that]) (use i in auto)
    ultimately show ?thesis using c 2
      by (auto simp: field_conf_def field_typed_def upb_MiniTableField_IsMap_def upb_MiniTableField_IsArray_def)
  next
    case 3
    then have "value_conf P ss f c" using c mode_fields(1,2) [of f] by (simp add: field_conf_def)
    from value_conf_typed [OF Q link this] 3 show ?thesis
      by (simp add: field_typed_def upb_MiniTableField_IsScalar_def)
  qed
qed

lemma rep_cases: "upb_MiniTableField_GetRep f = 0 \<or> upb_MiniTableField_GetRep f = 1 \<or> upb_MiniTableField_GetRep f = 2 \<or> upb_MiniTableField_GetRep f = 3"
proof -
  have "unat (upb_MiniTableField_GetRep f) < 4"
    using byte_bound [of "mode f"] by (simp add: upb_MiniTableField_GetRep_def unat_drop_bit)
  then have "unat (upb_MiniTableField_GetRep f) \<in> {unat (0 :: u8), unat (1 :: u8), unat (2 :: u8), unat (3 :: u8)}" by auto
  then show ?thesis by (metis empty_iff insert_iff word_unat_eq_iff)
qed

text \<open>The test whether a field without presence is to be written reads the cell at its representation.\<close>

lemma size_of_pointer: "upb_MiniTableField_IsSubMessage f \<Longrightarrow> upb_FieldType_SizeLg2 (descriptortype f) = 3"
  by (auto simp: upb_MiniTableField_IsSubMessage_def)

lemma zero_test_ok:
  assumes wf: "field_wf m f" and c: "field_conf T P B ss f (msg_cell msg (offset f))" and "presence f = 0"
  shows "\<exists>b. (encode_shouldencode msg f :: (upb_EncodeStatus, _) res) = Ret b"
proof (cases "upb_MiniTableField_IsScalar f")
  case True
  then have v: "value_conf P ss f (msg_cell msg (offset f))" using c mode_fields(1,2) [of f] by (simp add: field_conf_def)
  have size: "rep_size (upb_MiniTableField_GetRep f) = 2 ^ upb_FieldType_SizeLg2 (descriptortype f)" using wf True by (simp add: field_wf_def)
  have lg: "upb_FieldType_SizeLg2 (descriptortype f) \<in> {0, 2, 3, 4}" by (cases "descriptortype f") simp_all
  then have lg: "upb_FieldType_SizeLg2 (descriptortype f) = (if upb_MiniTableField_GetRep f = 0 then 0
      else if upb_MiniTableField_GetRep f = 1 then 2 else if upb_MiniTableField_GetRep f = 2 then 4 else 3)"
    using size rep_cases [of f] by (auto simp: rep_size_def)
  show ?thesis using rep_cases [of f] v lg size_of_pointer [of f] assms(3)
    by (cases "msg_cell msg (offset f)")
      (auto simp: encode_shouldencode_def value_conf_def plain_conf_def split: if_splits)
next
  case False
  then have "upb_MiniTableField_GetRep f = 3" using wf by (simp add: field_wf_def)
  moreover have "\<exists>b. (cell8_nonzero (msg_cell msg (offset f)) :: (upb_EncodeStatus, _) res) = Ret b"
    using c False wf
    by (cases "msg_cell msg (offset f)") (auto simp: field_conf_def array_conf_def arr_ok_def map_conf_def map_ok_def field_wf_def split: if_splits)
  ultimately show ?thesis using assms(3) by (simp add: encode_shouldencode_def)
qed

lemma shouldencode_ok:
  assumes "table_ok T m" and "f \<in> set (mt_fields m)" and "mem_conf T P B m msg"
  shows "\<exists>b. (encode_shouldencode msg f :: (upb_EncodeStatus, _) res) = Ret b \<and> (b \<longrightarrow> field_conf T P B (subs m) f (msg_cell msg (offset f)))"
proof -
  have pres: "presence_conf f msg" and act: "active f msg \<Longrightarrow> field_conf T P B (subs m) f (msg_cell msg (offset f))"
    using assms by (auto simp: mem_conf_def)
  have num: "(of_nat (number f) :: u32) \<noteq> 0"
    using table_field(2) [OF assms(1,2)] mt_fields_wf_pos [of m f] assms(1,2) unat_of_nat_small [of "number f", where 'a = 32]
    by (auto simp: table_ok_def)
  consider "presence f = 0" | "0 < presence f" | "presence f < 0" by linarith
  then show ?thesis
  proof cases
    case 1
    then have "active f msg" by (simp add: active_def)
    with act zero_test_ok [OF table_field(1) [OF assms(1,2)] _ 1] show ?thesis by blast
  next
    case 2
    then have "active f msg" by (simp add: active_def)
    with act pres 2 show ?thesis
      by (auto simp: encode_shouldencode_def upb_MiniTableField_HasHasbit_def upb_Message_GetHasbit_def presence_conf_def
          upb_MiniTableField_HasbitOffset_def upb_MiniTableField_HasbitMask_def presence_addr_def)
  next
    case 3
    with act pres num show ?thesis
      by (auto simp: encode_shouldencode_def upb_MiniTableField_HasHasbit_def upb_MiniTableField_IsInOneof_def upb_Message_GetOneofCase_def
          upb_MiniTableField_OneofOffset_def presence_conf_def active_def presence_addr_def)
  qed
qed

lemma hasbits_ok:
  assumes "table_ok T m" and "mem_conf T P B m msg" and "n \<le> required_count m"
  shows "\<exists>b. (all_hasbits msg n :: ('e, _) res) = Ret b"
  using assms(3)
proof (induction n)
  case (Suc n)
  have "list_all (\<lambda>k. list_ex (\<lambda>f. presence f = 64 + int k) (mt_fields m)) [0 ..< required_count m]"
    using assms(1) by (simp add: table_ok_def mt_layout_wf_def required_wf_def)
  then have "\<forall>k < required_count m. \<exists>f \<in> set (mt_fields m). presence f = 64 + int k" by (simp add: list_all_iff list_ex_iff)
  with Suc.prems obtain f where f: "f \<in> set (mt_fields m)" "presence f = 64 + int n" by (meson Suc_le_lessD)
  then have "presence_addr f = 8 + n div 8" by (simp add: presence_addr_def nat_add_distrib)
  moreover have "presence_conf f msg" using assms(2) f(1) by (simp add: mem_conf_def)
  ultimately obtain w where "(cell1 (msg_cell msg (8 + n div 8)) :: ('e, _) res) = Ret w" using f(2) by (auto simp: presence_conf_def)
  then have b: "(hasbit_set msg n :: ('e, _) res) = Ret (bit w (n mod 8))" by (simp add: hasbit_set_def)
  obtain b' where "(all_hasbits msg n :: ('e, _) res) = Ret b'" using Suc by auto
  with b have "(all_hasbits msg (Suc n) :: ('e, _) res) = Ret (b' \<and> bit w (n mod 8))" by simp
  then show ?case ..
qed (auto intro: exI [of _ True])

lemma required_ok:
  assumes "table_ok T m" and "mem_conf T P B m msg" and "required_count m \<noteq> 0"
  shows "\<exists>b. (upb_Message_IsInitializedShallow msg m :: ('e, _) res) = Ret b"
proof -
  have "required_count m \<le> 63" using assms(1) by (simp add: table_ok_def mt_layout_wf_def required_wf_def)
  with hasbits_ok [OF assms(1,2) order_refl] assms(3) show ?thesis by (simp add: upb_Message_IsInitializedShallow_def)
qed

lemma ext_conf_typed:
  assumes Q: "typed_by T P Q" and T: "\<forall>m \<in> set T. table_ok T m" and opt: "options AND kUpb_EncodeOption_Deterministic = 0"
    and x: "ext_conf T P B is_set x c"
  shows "ext_typed T options Q is_set (x, c)"
proof (cases is_set)
  case True
  then obtain r msg where "upb_MiniTableField_IsScalar (ext_field x)" "ext_sub x = Some (Submsg r)" "c = CellMsg False msg" "P r msg"
    using x by (auto simp: ext_conf_def)
  moreover obtain m where "mini_table_of T r = (Ret m :: (upb_DecodeStatus, _) res)" "mini_table_of T r = (Ret m :: (upb_EncodeStatus, _) res)"
    using x True calculation(2) by (auto simp: ext_conf_def ext_wf_def mini_table_of_def Let_def)
  ultimately show ?thesis using True Q unfolding typed_by_def by (simp add: ext_typed_def upb_Extension_IsEmpty_def)
next
  case False
  have wf: "ext_wf T x" and fc: "field_conf T P B (ext_subs x) (ext_field x) c" and arr: "upb_MiniTableField_IsArray (ext_field x) \<Longrightarrow> c \<noteq> Zero"
    using x False by (auto simp: ext_conf_def)
  have modes: "upb_MiniTableField_IsScalar (ext_field x) \<or> upb_MiniTableField_IsArray (ext_field x)" "offset (ext_field x) = 0"
    using wf by (auto simp: ext_wf_def Let_def)
  then have nomap: "\<not> upb_MiniTableField_IsMap (ext_field x)" using mode_fields(2,3) by blast
  have "field_typed T options Q (ext_subs x) (ext_field x) c"
    by (rule field_conf_typed [OF Q T opt ext_sub_linked [OF wf] _ _ fc]) (use modes nomap in auto)
  moreover have "\<exists>b. (upb_Extension_IsEmpty (x, c) :: (upb_EncodeStatus, _) res) = Ret b"
    using modes arr fc by (cases c) (auto simp: upb_Extension_IsEmpty_def field_conf_def array_conf_def arr_ok_def)
  ultimately show ?thesis using False modes(2) by (auto simp: ext_typed_def)
qed

lemma level_conf_typed:
  assumes "env_ok C" and m: "table_ok (dec_tables C) m" and "typed_by (dec_tables C) P Q"
    and opt: "options AND kUpb_EncodeOption_Deterministic = 0" and lev: "level_conf C P B r m msg"
  shows "level_typed (dec_tables C) options Q m msg"
proof -
  let ?T = "dec_tables C"
  have T: "\<forall>m \<in> set ?T. table_ok ?T m" using assms(1) by (simp add: env_ok_def)
  have mem: "mem_conf ?T P B m msg" using lev by (simp add: level_conf_def)
  have count: "field_count m = length (mt_fields m)" using m by (simp add: table_ok_def mt_fields_wf_def)
  have "ok_res (encode_shouldencode msg f) (\<lambda>b. b \<longrightarrow> field_typed ?T options Q (subs m) f (msg_cell msg (offset f)))"
    if f: "f \<in> set (mt_fields m)" for f
  proof -
    obtain b where b: "(encode_shouldencode msg f :: (upb_EncodeStatus, _) res) = Ret b"
      "b \<Longrightarrow> field_conf ?T P B (subs m) f (msg_cell msg (offset f))" using shouldencode_ok [OF m f mem] by blast
    have modes: "upb_MiniTableField_IsArray f \<or> upb_MiniTableField_IsMap f \<or> upb_MiniTableField_IsScalar f"
      using table_field(1) [OF m f] by (auto simp: field_wf_def split: if_splits)
    have "field_typed ?T options Q (subs m) f (msg_cell msg (offset f))" if b
    proof (rule field_conf_typed [OF assms(3) T opt field_sub_linked [OF m f] modes _ b(2) [OF that]])
      assume "upb_MiniTableField_IsMap f"
      then show "\<exists>i < length ?T. upb_MiniTableSubs_MessageByField (subs m) f = Ret (Mt i) \<and> entry_wf (?T ! i)"
        using table_field(3) [OF m f] by (auto simp: map_link_wf_def upb_MiniTableSubs_MessageByField_def)
    qed
    with b(1) show ?thesis by simp
  qed
  moreover have "required_count m = 0 \<or> required_count m \<le> 64 \<and> ok_res (upb_Message_IsInitializedShallow msg m) (\<lambda>_. True)"
    using required_ok [OF m mem, where 'e = upb_EncodeStatus] m
    by (cases "required_count m = 0") (auto simp: table_ok_def mt_layout_wf_def required_wf_def)
  moreover have "distinct (map (\<lambda>xc. number (ext_field (fst xc))) (aux_exts (msg_aux msg)))"
    "list_all (ext_typed ?T options Q (ext m = kUpb_ExtMode_IsMessageSet)) (aux_exts (msg_aux msg))"
    using lev ext_conf_typed [OF assms(3) T opt] by (auto simp: level_conf_def aux_conf_def list_all_iff)
  ultimately show ?thesis using count by (simp add: level_typed_def list_all_iff)
qed

lemma conf_msg_typed:
  assumes "env_ok C" and "options AND kUpb_EncodeOption_Deterministic = 0"
  shows "conf C k B r msg \<Longrightarrow> mini_table_of (dec_tables C) r = (Ret m :: (upb_DecodeStatus, _) res) \<Longrightarrow>
    msg_typed (dec_tables C) options k m msg"
proof (induction k arbitrary: r m msg)
  case (Suc k)
  have "typed_by (dec_tables C) (conf C k B) (msg_typed (dec_tables C) options k)"
    using Suc.IH by (auto simp: typed_by_def)
  from level_conf_typed [OF assms(1) env_table [OF assms(1) Suc.prems(2)] this assms(2)] Suc.prems show ?case by simp
qed simp

end
