(* ===== verification/Decode_Fields.thy ===== *)
theory Decode_Fields
  imports Decode_Store Conf_Typed
begin

unbundle bit_operations_syntax

text \<open>
  The functions of the decoder that store one field: on a conforming message and a conforming input
  position none of them faults, and what they store conforms.
\<close>

section \<open>Operations of a field\<close>

text \<open>The operation that \<^verbatim>\<open>_upb_Decoder_DecodeWireValue\<close> chooses for a field, with the value it reads.\<close>

definition op_for :: "upb_MiniTableField \<Rightarrow> upb_DecodeOp \<Rightarrow> u64 \<Rightarrow> bool" where
  "op_for f op wv = (let t = descriptortype f; lg2 = upb_FieldType_SizeLg2 t in
     case op of
       kUpb_DecodeOp_Scalar1Byte \<Rightarrow> t = kUpb_FieldType_Bool \<and> (ucast wv :: u8) \<le> 1
     | kUpb_DecodeOp_Scalar4Byte \<Rightarrow> lg2 = 2
     | kUpb_DecodeOp_Scalar8Byte \<Rightarrow> lg2 = 3 \<and> \<not> upb_MiniTableField_IsSubMessage f
     | kUpb_DecodeOp_Enum \<Rightarrow> t = kUpb_FieldType_Enum
     | kUpb_DecodeOp_String \<Rightarrow> lg2 = 4
     | kUpb_DecodeOp_Bytes \<Rightarrow> lg2 = 4
     | kUpb_DecodeOp_SubMessage \<Rightarrow> upb_MiniTableField_IsSubMessage f
     | OP_FIXPCK_LG2 l \<Rightarrow> upb_MiniTableField_IsArray f \<and> l = lg2 \<and> (l = 2 \<or> l = 3) \<and> \<not> upb_MiniTableField_IsSubMessage f
     | OP_VARPCK_LG2 l \<Rightarrow> upb_MiniTableField_IsArray f \<and> l = lg2 \<and> (l = 0 \<or> l = 2 \<or> l = 3) \<and> \<not> upb_MiniTableField_IsSubMessage f
     | kUpb_DecodeOp_PackedEnum \<Rightarrow> upb_MiniTableField_IsArray f \<and> t = kUpb_FieldType_Enum
     | _ \<Rightarrow> False)"

text \<open>The operations whose value is the size of the bytes that follow.\<close>

definition op_sized :: "upb_MiniTableField \<Rightarrow> upb_DecodeOp \<Rightarrow> bool" where
  "op_sized f op = (case op of
       kUpb_DecodeOp_String \<Rightarrow> True | kUpb_DecodeOp_Bytes \<Rightarrow> True | OP_FIXPCK_LG2 _ \<Rightarrow> True | OP_VARPCK_LG2 _ \<Rightarrow> True
     | kUpb_DecodeOp_PackedEnum \<Rightarrow> True | kUpb_DecodeOp_SubMessage \<Rightarrow> descriptortype f \<noteq> kUpb_FieldType_Group
     | _ \<Rightarrow> False)"

abbreviation (input) wv_size :: "u64 \<Rightarrow> nat" where "wv_size wv \<equiv> unat (ucast wv :: u32)"

text \<open>
  The value of a field was read and the decoder is at the position \<open>q\<close>, with fewer than \<open>n\<close> bytes left; the
  message conformed with the bound \<open>B\<close> before the tag.
\<close>

definition field_at ::
  "nat \<Rightarrow> bytes \<Rightarrow> int \<Rightarrow> nat \<Rightarrow> nat \<Rightarrow> 'a upb_Decoder \<Rightarrow> nat \<Rightarrow> nat \<Rightarrow> upb_MiniTableField \<Rightarrow> upb_DecodeOp \<Rightarrow> u64 \<Rightarrow> bool" where
  "field_at n I lim K B d ptr q f op wv \<longleftrightarrow> dec_at I lim d ptr q \<and> B < K + q \<and> B < 2 ^ 29 \<and> 0 < n \<and> lim - int q < int n
     \<and> K + length I < 2 ^ 29 \<and> op_for f op wv \<and> (op_sized f op \<longrightarrow> int (q + wv_size wv) \<le> lim \<and> lim - int q < int n - 1)"

definition store_res ::
  "'a dec_env \<Rightarrow> nat \<Rightarrow> bytes \<Rightarrow> int \<Rightarrow> nat \<Rightarrow> nat \<Rightarrow> upb_MiniTableSub list \<Rightarrow> upb_MiniTableField \<Rightarrow> upb_Message option \<times> upb_Message
     \<Rightarrow> (nat \<times> upb_Message option \<times> upb_Message) \<times> 'a upb_Decoder \<Rightarrow> bool" where
  "store_res C n I lim K q ss f om = (\<lambda>((p, om'), d'). \<exists>q'. q \<le> q' \<and> dec_at I lim d' p q'
     \<and> store_post (dec_tables C) (conf C n (K + q')) (K + q') ss f om om')"

lemma conf_le: "B \<le> B' \<Longrightarrow> conf C k B \<le> conf C k B'"
  by (auto intro: conf_mono)

section \<open>Arrays\<close>

lemma Reserve_conf:
  assumes arr: "array_conf P B ss f arr" and small: "B + m < 2 ^ 57"
  shows "safe (upb_Decoder_Reserve C arr m d) (\<lambda>(arr', d'). arena_step d d' \<and> array_conf P (B + m) ss f arr'
    \<and> arr_elems arr' = arr_elems arr \<and> length (arr_elems arr) + m \<le> arr_cap arr')"
proof -
  let ?l = "upb_FieldType_SizeLg2 (descriptortype f)"
  have a: "arr_ok ?l arr" "length (arr_elems arr) \<le> B" "arr_cap arr \<le> 4 + 2 * B" "\<forall>x \<in> set (arr_elems arr). elem_conf P ss f x"
    using arr by (auto simp: array_conf_def)
  obtain xs spare where x: "arr = CellArr False ?l xs spare" using a(1) by (rule arr_okE)
  have same: "array_conf P (B + m) ss f arr" using a by (auto simp: array_conf_def)
  show ?thesis
  proof (cases "length spare < m")
    case False
    with x same show ?thesis by (simp add: upb_Decoder_Reserve_def arr_elems_def arr_cap_def)
  next
    case True
    have n: "length xs + m < 2 ^ 58" "arr_cap arr < 2 ^ 59" using a(2,3) small x by (simp_all add: arr_elems_def)
    obtain ok arr' a' where r: "upb_Array_Reserve (dec_realloc C) arr (length xs + m) (dec_arena d) = (Ret (ok, arr', a') :: (upb_DecodeStatus, _) res)"
      "arr_ok ?l arr'" "arr_elems arr' = arr_elems arr" "ok \<Longrightarrow> length xs + m \<le> arr_cap arr'"
      "arr_cap arr' \<le> max (max (arr_cap arr) 4) (2 * (length xs + m))"
      using reserve_law [OF a(1) n, where 'e = upb_DecodeStatus] by metis
    have "upb_Array_Realloc (dec_realloc C) arr (length xs + m) (dec_arena d) = (Ret (ok, arr', a') :: (upb_DecodeStatus, _) res)"
      using r(1) True x by (simp add: upb_Array_Reserve_def)
    moreover have "array_conf P (B + m) ss f arr'"
      using r(2,3,5) a x by (auto simp: array_conf_def arr_elems_def)
    ultimately show ?thesis using True x r(3,4) by (auto simp: upb_Decoder_Reserve_def arr_elems_def)
  qed
qed

lemma arr_push_conf:
  assumes "array_conf P B ss f arr" and "length (arr_elems arr) < arr_cap arr" and "length (arr_elems arr) < B"
    and "lg2 = upb_FieldType_SizeLg2 (descriptortype f)" and "elem_conf P ss f v"
  shows "safe (arr_push arr lg2 v) (array_conf P B ss f)"
proof -
  obtain xs spare where x: "arr = CellArr False lg2 xs spare" using assms(1,4) by (auto simp: array_conf_def elim: arr_okE)
  then obtain s spare' where "spare = s # spare'" using assms(2) by (cases spare) (auto simp: arr_elems_def arr_cap_def)
  with x assms show ?thesis by (auto simp: arr_push_def array_conf_def arr_ok_def arr_elems_def arr_cap_def)
qed

lemma array_conf_mono: "array_conf P B ss f c \<Longrightarrow> B \<le> B' \<Longrightarrow> P \<le> Q \<Longrightarrow> array_conf Q B' ss f c"
  using value_conf_mono by (fastforce simp: array_conf_def elem_conf_def)

lemma array_not_Zero: "array_conf P B ss f c \<Longrightarrow> c \<noteq> Zero"
  by (auto simp: array_conf_def arr_ok_def)

lemma wireval_conf:
  assumes "lg2 = upb_FieldType_SizeLg2 (descriptortype f)" and "\<not> upb_MiniTableField_IsSubMessage f"
    and "lg2 = 2 \<or> lg2 = 3 \<or> lg2 = 0 \<and> (ucast v :: u8) \<le> 1"
  shows "elem_conf P ss f (wireval_cell lg2 v)"
  using assms by (auto simp: elem_conf_def value_conf_def plain_conf_def wireval_cell_def)

lemma munged_bool:
  assumes "upb_FieldType_SizeLg2 t = 0"
  shows "(ucast (upb_Decoder_Munge (Some t) v) :: u8) \<le> 1"
proof -
  have t: "t = kUpb_FieldType_Bool" using assms by (cases t) simp_all
  have "(ucast (wireval_low 8 v w) :: u8) = ucast w" for w
    by (auto intro!: bit_eqI simp: wireval_low_def bit_simps)
  with t show ?thesis by (simp add: upb_Decoder_Munge_def)
qed

subsection \<open>Packed elements\<close>

text \<open>A round of a loop over packed varints: the loop is done at the limit, or a varint is read.\<close>

lemma packed_step:
  assumes at: "dec_at I lim d ptr q"
    and is_done: "\<And>p e. int q = lim \<Longrightarrow> dec_at I lim (d\<lparr>dec_input := e\<rparr>) p q \<Longrightarrow> safe (k1 p (d\<lparr>dec_input := e\<rparr>)) Q"
    and more: "\<And>p v q' e. int q < lim \<Longrightarrow> q < q' \<Longrightarrow> dec_at I lim (d\<lparr>dec_input := e\<rparr>) p q' \<Longrightarrow> safe (k2 p v (d\<lparr>dec_input := e\<rparr>)) Q"
  shows "safe (bindR (upb_Decoder_IsDone (dec_input d) ptr) (\<lambda>(is_done, p, e).
      let d1 = d\<lparr>dec_input := e\<rparr> in
      if is_done then k1 p d1 else bindR (upb_Decoder_DecodeVarint (eps_buf e) p) (\<lambda>(p1, elem). k2 p1 elem d1))) Q"
proof (rule safe_bind [OF IsDone_at [OF dec_atD(1) [OF at]]], goal_cases)
  case (1 v)
  then obtain b p e where v: "v = (b, p, e)" "stream_at I lim e p q" "if b then int q = lim else int q < lim \<and> ready e p"
    by (cases v) auto
  have here: "dec_at I lim (d\<lparr>dec_input := e\<rparr>) p q" using dec_atD(2) [OF at] v(2) by (rule dec_at_input)
  show ?case
  proof (cases b)
    case True
    with v is_done here show ?thesis by simp
  next
    case False
    then have q: "int q < lim" "ready e p" using v(3) by simp_all
    have room: "p + 10 \<le> length (eps_buf e)" using ready_room [OF v(2) q(2)] by simp
    have "safe (bindR (upb_Decoder_DecodeVarint (eps_buf e) p) (\<lambda>(p1, elem). k2 p1 elem (d\<lparr>dec_input := e\<rparr>))) Q"
    proof (rule safe_bind [OF DecodeVarint_at [OF room]], clarify)
      fix p1 w assume p1: "p < p1" "p1 \<le> p + 10"
      have "dec_at I lim (d\<lparr>dec_input := e\<rparr>) (p + (p1 - p)) (q + (p1 - p))"
        by (rule dec_at_move [OF here]) (use p1 room in simp)
      with p1 more [OF q(1), of "q + (p1 - p)" e p1 w] show "safe (k2 p1 w (d\<lparr>dec_input := e\<rparr>)) Q" by simp
    qed
    with v(1) False show ?thesis by simp
  qed
qed

lemma push_reserved:
  assumes arr: "array_conf P B ss f arr" and "B < 2 ^ 29" and "lg2 = upb_FieldType_SizeLg2 (descriptortype f)" and "elem_conf P ss f v"
    and rest: "\<And>arr' d'. arena_step d d' \<Longrightarrow> array_conf P (B + 1) ss f arr' \<Longrightarrow> safe (k arr' d') Q"
  shows "safe (bindR (upb_Decoder_Reserve C arr 1 d) (\<lambda>(arr1, d2). bindR (arr_push arr1 lg2 v) (\<lambda>arr2. k arr2 d2))) Q"
proof (rule safe_bind [OF Reserve_conf [OF arr]], goal_cases)
  case (2 r)
  then obtain arr1 d2 where r: "r = (arr1, d2)" "arena_step d d2" "array_conf P (B + 1) ss f arr1"
    "arr_elems arr1 = arr_elems arr" "length (arr_elems arr) + 1 \<le> arr_cap arr1" by (cases r) auto
  have "length (arr_elems arr1) < B + 1" using arr r(4) by (simp add: array_conf_def)
  with r assms(3,4) have "safe (arr_push arr1 lg2 v) (array_conf P (B + 1) ss f)" by (intro arr_push_conf) simp_all
  then have "safe (bindR (arr_push arr1 lg2 v) (\<lambda>arr2. k arr2 d2)) Q" by (rule safe_bind) (rule rest [OF r(2)])
  with r(1) show ?case by simp
qed (use assms(2) in simp)

lemma varint_packed_safe:
  assumes f: "\<not> upb_MiniTableField_IsSubMessage f" "lg2 = upb_FieldType_SizeLg2 (descriptortype f)" "lg2 = 0 \<or> lg2 = 2 \<or> lg2 = 3"
    and small: "K + length I < 2 ^ 29"
  shows "dec_at I lim d ptr q \<Longrightarrow> 0 < rounds \<Longrightarrow> lim - int q < int rounds \<Longrightarrow> array_conf P (K + q) ss f arr \<Longrightarrow>
    safe (varint_packed_loop rounds C (descriptortype f) lg2 d ptr arr) (\<lambda>((p, arr'), d').
      \<exists>q'. int q' = lim \<and> q \<le> q' \<and> dec_at I lim d' p q' \<and> array_conf P (K + q') ss f arr')"
proof (induction rounds arbitrary: d ptr q arr)
  case (Suc n)
  have elem: "elem_conf P ss f (wireval_cell lg2 (upb_Decoder_Munge (Some (descriptortype f)) w))" for w
    using f munged_bool [of "descriptortype f" w] by (intro wireval_conf) auto
  have lim: "lim \<le> int (length I)" using stream_atD(6) [OF dec_atD(1) [OF Suc.prems(1)]] .
  show ?case unfolding varint_packed_loop.simps
  proof (rule packed_step [OF Suc.prems(1)], goal_cases)
    case (1 p e)
    with Suc.prems(4) show ?case by auto
  next
    case (2 p w q' e)
    have "K + q < 2 ^ 29" using small lim 2(1) by simp
    show ?case
    proof (rule push_reserved [OF Suc.prems(4) \<open>K + q < 2 ^ 29\<close> f(2) elem])
      fix arr' d' assume d': "arena_step (d\<lparr>dec_input := e\<rparr>) d'" "array_conf P (K + q + 1) ss f arr'"
      have arr': "array_conf P (K + q') ss f arr'" using d'(2) _ order_refl by (rule array_conf_mono) (use 2(2) in simp)
      have "dec_at I lim d' p q'" using d'(1) 2(3) by (rule dec_at_step)
      from Suc.IH [OF this _ _ arr'] 2(1,2) Suc.prems(3)
      have "safe (varint_packed_loop n C (descriptortype f) lg2 d' p arr') (\<lambda>((p, arr'), d').
          \<exists>q''. int q'' = lim \<and> q' \<le> q'' \<and> dec_at I lim d' p q'' \<and> array_conf P (K + q'') ss f arr')" by simp
      then show "safe (varint_packed_loop n C (descriptortype f) lg2 d' p arr') (\<lambda>((p, arr'), d').
          \<exists>q'. int q' = lim \<and> q \<le> q' \<and> dec_at I lim d' p q' \<and> array_conf P (K + q') ss f arr')"
        by (rule safe_mono) (use 2(2) in fastforce)
    qed
  qed
qed simp

lemma check_enum_safe:
  assumes "enum_wf e" and slots: "om_slots (orig, msg)" and "upb_MiniTableField_IsExtension f \<longleftrightarrow> orig \<noteq> None"
  shows "safe (upb_Decoder_CheckEnum C orig msg e f v d) (\<lambda>((ok, om'), d'). arena_step d d' \<and> om_grown (orig, msg) om')"
proof (cases "v \<in> enum_values e")
  case True
  then show ?thesis using CheckValue_values [OF assms(1)] om_grown_refl [OF slots]
    by (simp add: upb_Decoder_CheckEnum_def pure_def)
next
  case False
  let ?data = "upb_Decoder_EncodeVarint32 (push_bit 3 (of_nat (number f)) OR kUpb_WireType_Varint) @ upb_Decoder_EncodeVarint32 v"
  show ?thesis
  proof (cases orig)
    case None
    then have add: "safe (decoder_add_unknown C msg ?data False d) (\<lambda>(msg', d'). grown msg msg' \<and> arena_step d d')"
      using slots by (intro add_unknown_safe) (simp add: om_slots_def)
    have "safe (bindR (decoder_add_unknown C msg ?data False d) (\<lambda>(msg', d'). Ret ((False, orig, msg'), d')))
        (\<lambda>((ok, om'), d'). arena_step d d' \<and> om_grown (orig, msg) om')"
      by (rule safe_bind [OF add]) (use None in \<open>auto simp: om_grown_def\<close>)
    then show ?thesis using None False assms(3) CheckValue_values [OF assms(1)]
      by (simp add: upb_Decoder_CheckEnum_def pure_def Let_def)
  next
    case (Some o1)
    then have add: "safe (decoder_add_unknown C o1 ?data False d) (\<lambda>(o2, d'). grown o1 o2 \<and> arena_step d d')"
      using slots by (intro add_unknown_safe) (simp add: om_slots_def)
    have "safe (bindR (decoder_add_unknown C o1 ?data False d) (\<lambda>(o2, d'). Ret ((False, Some o2, msg), d')))
        (\<lambda>((ok, om'), d'). arena_step d d' \<and> om_grown (orig, msg) om')"
      by (rule safe_bind [OF add]) (use Some in \<open>auto simp: om_grown_def\<close>)
    then show ?thesis using Some False assms(3) CheckValue_values [OF assms(1)]
      by (simp add: upb_Decoder_CheckEnum_def pure_def Let_def)
  qed
qed

lemma enum_packed_safe:
  assumes f: "descriptortype f = kUpb_FieldType_Enum" and en: "enum_wf en" and ext: "upb_MiniTableField_IsExtension f \<longleftrightarrow> fst om0 \<noteq> None"
    and small: "K + length I < 2 ^ 29"
  shows "dec_at I lim d ptr q \<Longrightarrow> 0 < rounds \<Longrightarrow> lim - int q < int rounds \<Longrightarrow> array_conf P (K + q) ss f arr \<Longrightarrow> om_grown om0 om \<Longrightarrow>
    safe (enum_packed_loop rounds C en f d ptr arr om) (\<lambda>((p, arr', om'), d').
      \<exists>q'. int q' = lim \<and> q \<le> q' \<and> dec_at I lim d' p q' \<and> array_conf P (K + q') ss f arr' \<and> om_grown om0 om')"
proof (induction rounds arbitrary: d ptr q arr om)
  case (Suc n)
  let ?post = "\<lambda>q. \<lambda>((p, arr', om'), d'). \<exists>q'. int q' = lim \<and> q \<le> q' \<and> dec_at I lim d' p q' \<and> array_conf P (K + q') ss f arr' \<and> om_grown om0 om'"
  have elem: "elem_conf P ss f (wireval_cell 2 w)" for w
    using f by (intro wireval_conf) (auto simp: upb_MiniTableField_IsSubMessage_def)
  have lg: "2 = upb_FieldType_SizeLg2 (descriptortype f)" using f by simp
  have lim: "lim \<le> int (length I)" using stream_atD(6) [OF dec_atD(1) [OF Suc.prems(1)]] .
  show ?case unfolding enum_packed_loop.simps
  proof (rule packed_step [OF Suc.prems(1)], goal_cases)
    case (1 p e)
    with Suc.prems(4,5) show ?case by auto
  next
    case (2 p w q' e)
    have small': "K + q < 2 ^ 29" using small lim 2(1) by simp
    have loop: "safe (enum_packed_loop n C en f d' p arr' om') (?post q)"
      if "arena_step (d\<lparr>dec_input := e\<rparr>) d'" "array_conf P (K + q + 1) ss f arr'" "om_grown om0 om'" for d' arr' om'
    proof -
      have arr': "array_conf P (K + q') ss f arr'" using that(2) _ order_refl by (rule array_conf_mono) (use 2(2) in simp)
      have "dec_at I lim d' p q'" using that(1) 2(3) by (rule dec_at_step)
      from Suc.IH [OF this _ _ arr' that(3)] 2(1,2) Suc.prems(3)
      have "safe (enum_packed_loop n C en f d' p arr' om') (?post q')" by simp
      then show ?thesis by (rule safe_mono) (use 2(2) in fastforce)
    qed
    obtain orig msg where om: "om = (orig, msg)" by (cases om)
    have chk: "safe (upb_Decoder_CheckEnum C (fst om) (snd om) en f (ucast w) (d\<lparr>dec_input := e\<rparr>))
        (\<lambda>((ok, om'), d'). arena_step (d\<lparr>dec_input := e\<rparr>) d' \<and> om_grown (orig, msg) om')"
      unfolding om fst_conv snd_conv
      by (rule check_enum_safe [OF en])
        (use ext om_grown_slots [OF Suc.prems(5)] om_grown_none [OF Suc.prems(5)] om in simp_all)
    show ?case
    proof (rule safe_bind [OF chk], clarify)
      fix ok orig1 msg1 d2
      assume d2: "arena_step (d\<lparr>dec_input := e\<rparr>) d2" and g: "om_grown (orig, msg) (orig1, msg1)"
      have g0: "om_grown om0 (orig1, msg1)" using Suc.prems(5) g unfolding om by (rule om_grown_trans)
      show "safe (if \<not> ok then enum_packed_loop n C en f d2 p arr (orig1, msg1)
          else bindR (upb_Decoder_Reserve C arr 1 d2) (\<lambda>(arr1, d3).
            bindR (arr_push arr1 2 (wireval_cell 2 w)) (\<lambda>arr2. enum_packed_loop n C en f d3 p arr2 (orig1, msg1)))) (?post q)"
      proof (cases ok)
        case False
        have "array_conf P (K + q + 1) ss f arr" using Suc.prems(4) _ order_refl by (rule array_conf_mono) simp
        with False loop [OF d2 _ g0] show ?thesis by simp
      next
        case True
        have "safe (bindR (upb_Decoder_Reserve C arr 1 d2) (\<lambda>(arr1, d3).
            bindR (arr_push arr1 2 (wireval_cell 2 w)) (\<lambda>arr2. enum_packed_loop n C en f d3 p arr2 (orig1, msg1)))) (?post q)"
          by (rule push_reserved [OF Suc.prems(4) small' lg elem]) (rule loop [OF arena_step_trans [OF d2] _ g0])
        with True show ?thesis by simp
      qed
    qed
  qed
qed simp

text \<open>A loop under a limit of its own.\<close>

lemma limited_safe:
  assumes at: "dec_at I lim d ptr q" and fits: "int (q + sz) \<le> lim"
    and body: "\<And>e. dec_at I (int (q + sz)) (d\<lparr>dec_input := e\<rparr>) ptr q \<Longrightarrow>
      safe (body (d\<lparr>dec_input := e\<rparr>)) (\<lambda>((p, x), d'). \<exists>q'. int q' = int (q + sz) \<and> dec_at I (int (q + sz)) d' p q' \<and> R q' x)"
  shows "safe (bindR (upb_EpsCopyInputStream_PushLimit (dec_input d) ptr sz) (\<lambda>(saved_limit, e).
      bindR (body (d\<lparr>dec_input := e\<rparr>)) (\<lambda>((p, x), d1).
      bindR (upb_EpsCopyInputStream_PopLimit (dec_input d1) p saved_limit) (\<lambda>e'. Ret ((p, x), d1\<lparr>dec_input := e'\<rparr>)))))
    (\<lambda>((p, x), d'). dec_at I lim d' p (q + sz) \<and> R (q + sz) x)"
proof (rule safe_bind [OF PushLimit_at [OF dec_atD(1) [OF at] fits]], clarify)
  fix e assume e: "stream_at I (int (q + sz)) e ptr q"
  have "dec_at I (int (q + sz)) (d\<lparr>dec_input := e\<rparr>) ptr q" using dec_atD(2) [OF at] e by (rule dec_at_input)
  note run = body [OF this]
  have lim: "lim \<le> int (length I)" using stream_atD(6) [OF dec_atD(1) [OF at]] .
  show "safe (bindR (body (d\<lparr>dec_input := e\<rparr>)) (\<lambda>((p, x), d1).
      bindR (upb_EpsCopyInputStream_PopLimit (dec_input d1) p (lim - int (q + sz))) (\<lambda>e'. Ret ((p, x), d1\<lparr>dec_input := e'\<rparr>))))
    (\<lambda>((p, x), d'). dec_at I lim d' p (q + sz) \<and> R (q + sz) x)"
  proof (rule safe_bind [OF run], goal_cases)
    case (1 v)
    then obtain p x d1 q' where v0: "v = ((p, x), d1)" "int q' = int (q + sz)" "dec_at I (int (q + sz)) d1 p q'" "R q' x"
      by (cases v) auto
    then have v: "v = ((p, x), d1)" "dec_at I (int (q + sz)) d1 p (q + sz)" "R (q + sz) x" by (simp_all only: of_nat_eq_iff)
    have pop: "safe (upb_EpsCopyInputStream_PopLimit (dec_input d1) p (lim - int (q + sz)))
       (\<lambda>e'. stream_at I lim e' p (q + sz) \<and> eps_aliasing e' = eps_aliasing (dec_input d1))"
      using PopLimit_at [OF dec_atD(1) [OF v(2)], of "lim - int (q + sz)"] fits lim by simp
    show ?case unfolding v(1) prod.case
      by (rule safe_bind [OF pop]) (use v dec_atD(2) [OF v(2)] in \<open>simp add: dec_at_def\<close>)
  qed
qed

lemma rounds_enough: "dec_at I lim d ptr q \<Longrightarrow> int (q + sz) \<le> lim \<Longrightarrow> int (q + sz) - int q < int (input_rounds d)"
  using stream_atD(2,6) [of I lim "dec_input d" ptr q] by (auto simp: dec_at_def input_rounds_def)

lemma varint_packed_field_safe:
  assumes at: "dec_at I lim d ptr q" and fits: "int (q + wv_size wv) \<le> lim" and small: "K + length I < 2 ^ 29"
    and f: "\<not> upb_MiniTableField_IsSubMessage f" "lg2 = upb_FieldType_SizeLg2 (descriptortype f)" "lg2 = 0 \<or> lg2 = 2 \<or> lg2 = 3"
    and arr: "array_conf P (K + q) ss f arr"
  shows "safe (upb_Decoder_DecodeVarintPacked C d ptr arr wv f lg2) (\<lambda>((p, arr'), d').
    dec_at I lim d' p (q + wv_size wv) \<and> array_conf P (K + (q + wv_size wv)) ss f arr')"
  unfolding upb_Decoder_DecodeVarintPacked_def
proof (rule limited_safe [OF at fits])
  fix e assume at': "dec_at I (int (q + wv_size wv)) (d\<lparr>dec_input := e\<rparr>) ptr q"
  have rounds: "0 < input_rounds d" "int (q + wv_size wv) - int q < int (input_rounds d)"
    using rounds_enough [OF at fits] by (simp_all add: input_rounds_def)
  show "safe (varint_packed_loop (input_rounds d) C (descriptortype f) lg2 (d\<lparr>dec_input := e\<rparr>) ptr arr)
     (\<lambda>((p, arr'), d'). \<exists>q'. int q' = int (q + wv_size wv) \<and> dec_at I (int (q + wv_size wv)) d' p q' \<and> array_conf P (K + q') ss f arr')"
    by (rule safe_mono [OF varint_packed_safe [OF f small at' rounds arr]]) auto
qed

lemma enum_packed_field_safe:
  assumes at: "dec_at I lim d ptr q" and fits: "int (q + wv_size wv) \<le> lim" and small: "K + length I < 2 ^ 29"
    and f: "descriptortype f = kUpb_FieldType_Enum" and en: "upb_MiniTableSubs_EnumByField ss f = Ret en" "enum_wf en"
    and ext: "upb_MiniTableField_IsExtension f \<longleftrightarrow> orig \<noteq> None" and slots: "om_slots (orig, msg)"
    and arr: "array_conf P (K + q) ss f arr"
  shows "safe (upb_Decoder_DecodeEnumPacked C d ptr orig msg arr ss f wv) (\<lambda>((p, arr', om'), d').
    dec_at I lim d' p (q + wv_size wv) \<and> array_conf P (K + (q + wv_size wv)) ss f arr' \<and> om_grown (orig, msg) om')"
proof -
  have "safe (bindR (upb_EpsCopyInputStream_PushLimit (dec_input d) ptr (wv_size wv)) (\<lambda>(saved_limit, e).
      bindR (enum_packed_loop (input_rounds d) C en f (d\<lparr>dec_input := e\<rparr>) ptr arr (orig, msg)) (\<lambda>((p, x), d1).
      bindR (upb_EpsCopyInputStream_PopLimit (dec_input d1) p saved_limit) (\<lambda>e'. Ret ((p, x), d1\<lparr>dec_input := e'\<rparr>)))))
    (\<lambda>((p, x), d'). dec_at I lim d' p (q + wv_size wv)
      \<and> (case x of (arr', om') \<Rightarrow> array_conf P (K + (q + wv_size wv)) ss f arr' \<and> om_grown (orig, msg) om'))"
  proof (rule limited_safe [OF at fits])
    fix e assume at': "dec_at I (int (q + wv_size wv)) (d\<lparr>dec_input := e\<rparr>) ptr q"
    have rounds: "0 < input_rounds d" "int (q + wv_size wv) - int q < int (input_rounds d)"
      using rounds_enough [OF at fits] by (simp_all add: input_rounds_def)
    show "safe (enum_packed_loop (input_rounds d) C en f (d\<lparr>dec_input := e\<rparr>) ptr arr (orig, msg))
       (\<lambda>((p, x), d'). \<exists>q'. int q' = int (q + wv_size wv) \<and> dec_at I (int (q + wv_size wv)) d' p q'
         \<and> (case x of (arr', om') \<Rightarrow> array_conf P (K + q') ss f arr' \<and> om_grown (orig, msg) om'))"
      by (rule safe_mono [OF enum_packed_safe [OF f en(2) _ small at' rounds arr om_grown_refl [OF slots]]]) (use ext in auto)
  qed
  then show ?thesis unfolding upb_Decoder_DecodeEnumPacked_def en(1) bindR.simps by (simp add: case_prod_unfold)
qed

lemma fixed_cells_conf:
  assumes "lg2 = upb_FieldType_SizeLg2 (descriptortype f)" and "lg2 = 2 \<or> lg2 = 3" and "\<not> upb_MiniTableField_IsSubMessage f"
  shows "length data = n * 2 ^ lg2 \<Longrightarrow> safe (fixed_cells lg2 n data) (\<lambda>cs. length cs = n \<and> (\<forall>c \<in> set cs. elem_conf P ss f c))"
proof (induction n arbitrary: data)
  case (Suc n)
  have elem: "elem_conf P ss f (wireval_cell lg2 w)" for w using assms by (intro wireval_conf) auto
  have len: "0 + 2 ^ lg2 \<le> length data" "length (drop (2 ^ lg2) data) = n * 2 ^ lg2" using Suc.prems by simp_all
  show ?case unfolding fixed_cells.simps
    by (rule safe_bind [OF rd_le_safe [OF len(1)]], rule safe_bind [OF Suc.IH [OF len(2)]]) (use elem in auto)
qed simp

lemma append_cells_conf:
  assumes "array_conf P B ss f arr" and "lg2 = upb_FieldType_SizeLg2 (descriptortype f)"
    and "length (arr_elems arr) + length cs \<le> arr_cap arr" and "length (arr_elems arr) + length cs \<le> B" and "\<forall>c \<in> set cs. elem_conf P ss f c"
  shows "safe (arr_append_cells arr lg2 cs) (array_conf P B ss f)"
proof -
  obtain xs spare where "arr = CellArr False lg2 xs spare" using assms(1,2) by (auto simp: array_conf_def elim: arr_okE)
  with assms show ?thesis by (auto simp: arr_append_cells_def array_conf_def arr_ok_def arr_elems_def arr_cap_def)
qed

lemma fixed_packed_field_safe:
  assumes at: "dec_at I lim d ptr q" and fits: "int (q + wv_size wv) \<le> lim" and small: "K + length I < 2 ^ 29"
    and f: "lg2 = upb_FieldType_SizeLg2 (descriptortype f)" "lg2 = 2 \<or> lg2 = 3" "\<not> upb_MiniTableField_IsSubMessage f"
    and arr: "array_conf P (K + q) ss f arr"
  shows "safe (upb_Decoder_DecodeFixedPacked C d ptr arr wv lg2) (\<lambda>((p, arr'), d').
    dec_at I lim d' p (q + wv_size wv) \<and> array_conf P (K + (q + wv_size wv)) ss f arr')"
proof (cases "wv_size wv mod 2 ^ lg2 = 0")
  case True
  let ?n = "wv_size wv div 2 ^ lg2"
  have n: "?n * 2 ^ lg2 = wv_size wv" "?n \<le> wv_size wv" using True by auto
  have lim: "lim \<le> int (length I)" using stream_atD(6) [OF dec_atD(1) [OF at]] .
  have "q + ?n \<le> length I" using fits n(2) lim by linarith
  then have cap: "K + q + ?n < 2 ^ 57" using small by simp
  have "safe (bindR (upb_Decoder_Reserve C arr ?n d) (\<lambda>(arr1, d1).
        bindR (upb_EpsCopyInputStream_Copy (dec_input d1) ptr (int (wv_size wv))) (\<lambda>r.
          case r of
            None \<Rightarrow> Fault
          | Some (data, p) \<Rightarrow>
              bindR (fixed_cells lg2 ?n data) (\<lambda>cs.
              bindR (arr_append_cells arr1 lg2 cs) (\<lambda>arr2. Ret ((p, arr2), d1))))))
    (\<lambda>((p, arr'), d'). dec_at I lim d' p (q + wv_size wv) \<and> array_conf P (K + (q + wv_size wv)) ss f arr')"
  proof (rule safe_bind [OF Reserve_conf [OF arr cap]], clarify)
    fix arr1 d1 assume d1: "arena_step d d1" and arr1: "array_conf P (K + q + ?n) ss f arr1"
      and el: "arr_elems arr1 = arr_elems arr" "length (arr_elems arr) + ?n \<le> arr_cap arr1"
    have at1: "dec_at I lim d1 ptr q" using d1 at by (rule dec_at_step)
    let ?data = "take (wv_size wv) (drop q I)"
    have data: "length ?data = ?n * 2 ^ lg2" using rd_bytes_at(2) [OF dec_atD(1) [OF at1] fits] n(1) by simp
    have bound: "length (arr_elems arr1) + ?n \<le> K + q + ?n" using arr el(1) by (simp add: array_conf_def)
    have copy: "(upb_EpsCopyInputStream_Copy (dec_input d1) ptr (int (wv_size wv)) :: (upb_DecodeStatus, _) res) = Ret (Some (?data, ptr + wv_size wv))"
      by (rule Copy_at [OF dec_atD(1) [OF at1] fits])
    have fill: "safe (bindR (fixed_cells lg2 ?n ?data) (\<lambda>cs. bindR (arr_append_cells arr1 lg2 cs) (\<lambda>arr2. Ret ((ptr + wv_size wv, arr2), d1))))
      (\<lambda>((p, arr'), d'). dec_at I lim d' p (q + wv_size wv) \<and> array_conf P (K + (q + wv_size wv)) ss f arr')"
    proof (rule safe_bind [OF fixed_cells_conf [OF f data, of P ss]], elim conjE)
      fix cs assume cs: "length cs = ?n" "\<forall>c \<in> set cs. elem_conf P ss f c"
      have app: "safe (arr_append_cells arr1 lg2 cs) (array_conf P (K + q + ?n) ss f)"
        by (rule append_cells_conf [OF arr1 f(1)]) (use cs el bound in simp_all)
      show "safe (bindR (arr_append_cells arr1 lg2 cs) (\<lambda>arr2. Ret ((ptr + wv_size wv, arr2), d1)))
        (\<lambda>((p, arr'), d'). dec_at I lim d' p (q + wv_size wv) \<and> array_conf P (K + (q + wv_size wv)) ss f arr')"
        by (rule safe_bind [OF app])
          (use dec_at_skip [OF at1 fits] n(2) array_conf_mono [OF _ _ order_refl, of P "K + q + ?n" ss f _ "K + (q + wv_size wv)"] in simp)
    qed
    show "safe (bindR (upb_EpsCopyInputStream_Copy (dec_input d1) ptr (int (wv_size wv))) (\<lambda>r.
          case r of
            None \<Rightarrow> Fault
          | Some (data, p) \<Rightarrow>
              bindR (fixed_cells lg2 ?n data) (\<lambda>cs.
              bindR (arr_append_cells arr1 lg2 cs) (\<lambda>arr2. Ret ((p, arr2), d1)))))
      (\<lambda>((p, arr'), d'). dec_at I lim d' p (q + wv_size wv) \<and> array_conf P (K + (q + wv_size wv)) ss f arr')"
      unfolding copy bindR.simps option.case prod.case by (rule fill)
  qed
  with True show ?thesis by (simp add: upb_Decoder_DecodeFixedPacked_def Let_def)
qed (simp add: upb_Decoder_DecodeFixedPacked_def Let_def)

section \<open>Sub-messages\<close>

text \<open>The sub-table of a field can be found, and an extension is linked.\<close>

definition linked :: "upb_MiniTable list \<Rightarrow> upb_MiniTableSub list \<Rightarrow> upb_MiniTableField \<Rightarrow> bool" where
  "linked T ss f \<longleftrightarrow> sub_linked T ss f
     \<and> (descriptortype f = kUpb_FieldType_Enum \<longrightarrow> (\<exists>e. upb_MiniTableSubs_EnumByField ss f = Ret e \<and> enum_wf e))
     \<and> (upb_MiniTableField_IsExtension f \<and> upb_MiniTableField_IsSubMessage f \<longrightarrow> upb_MiniTableSubs_MessageByField ss f \<noteq> Ret MtEmpty)"

lemma field_linked:
  assumes "table_ok T m" and "f \<in> set (mt_fields m)"
  shows "linked T (subs m) f"
proof -
  have wf: "field_wf m f" using table_field(1) [OF assms] .
  have "\<exists>e. upb_MiniTableSubs_EnumByField (subs m) f = Ret e \<and> enum_wf e" if "descriptortype f = kUpb_FieldType_Enum"
  proof -
    from wf that obtain e where e: "submsg_index f < length (subs m)" "subs m ! submsg_index f = Subenum e"
      by (auto simp: field_wf_def upb_MiniTableField_IsSubMessage_def upb_MiniTableField_IsClosedEnum_def split: upb_MiniTableSub.splits)
    then have "Subenum e \<in> set (subs m)" by (metis nth_mem)
    then have "enum_wf e" using assms(1) by (simp add: table_ok_def)
    with e show ?thesis by (simp add: upb_MiniTableSubs_EnumByField_def)
  qed
  with wf field_sub_linked [OF assms] show ?thesis by (simp add: linked_def field_wf_def)
qed

lemma ext_linked: "ext_wf T x \<Longrightarrow> linked T (ext_subs x) (ext_field x)"
  using ext_sub_linked [of T x]
  by (auto simp: linked_def ext_wf_def ext_subs_def upb_MiniTableSubs_MessageByField_def upb_MiniTableSubs_EnumByField_def
      upb_MiniTableField_IsClosedEnum_def upb_MiniTableField_IsSubMessage_def Let_def split: option.splits upb_MiniTableSub.splits)

lemma new_sub2_safe:
  assumes "mini_table_of (dec_tables C) r = (Ret m :: (upb_DecodeStatus, _) res)" and "upb_MiniTableField_IsExtension f \<longrightarrow> r \<noteq> MtEmpty"
  shows "safe (upb_Decoder_NewSubMessage2 C r f d) (\<lambda>((e, msg), d'). arena_step d d' \<and> e = (r = MtEmpty) \<and> msg = empty_msg)"
  using assms by (auto simp: upb_Decoder_NewSubMessage2_def upb_Message_New_def Let_def split: option.splits)

lemma new_sub_safe:
  assumes "linked (dec_tables C) ss f" and "upb_MiniTableSubs_MessageByField ss f = Ret r" and "upb_MiniTableField_IsSubMessage f"
  shows "safe (upb_Decoder_NewSubMessage C ss f d) (\<lambda>((e, msg), d'). arena_step d d' \<and> e = (r = MtEmpty) \<and> msg = empty_msg)"
proof -
  obtain m where m: "mini_table_of (dec_tables C) r = (Ret m :: (upb_DecodeStatus, _) res)"
    using assms by (auto simp: linked_def sub_linked_def)
  have "upb_MiniTableField_IsExtension f \<longrightarrow> r \<noteq> MtEmpty" using assms by (auto simp: linked_def)
  from new_sub2_safe [OF m this] assms(2) show ?thesis by (simp add: upb_Decoder_NewSubMessage_def)
qed

locale conf_decoder = sub_decoder C dec "conf C" n for C :: "'a dec_env" and dec :: "'a msg_decoder" and n :: nat +
  assumes env: "env_ok C"
begin

lemma group_or_message_safe:
  assumes "0 < n" and at: "dec_at I lim d ptr q" and "lim - int q < int n" and "K + length I < 2 ^ 29"
    and r: "upb_MiniTableSubs_MessageByField ss f = Ret r" and "conf C n (K + q) r msg"
    and sized: "descriptortype f \<noteq> kUpb_FieldType_Group \<longrightarrow> int (q + wv_size wv) \<le> lim"
  shows "safe (decode_group_or_message dec d ptr msg ss f wv) (\<lambda>((p, m), d').
    \<exists>q'. q \<le> q' \<and> dec_at I lim d' p q' \<and> conf C n (K + q') r m)"
proof (cases "descriptortype f = kUpb_FieldType_Group")
  case True
  then show ?thesis using known_group_safe [OF assms(1) order_refl at assms(3,4) r assms(6)]
    by (simp add: decode_group_or_message_def)
next
  case False
  then have "int (q + wv_size wv) \<le> lim" "int (wv_size wv) < int n" using sized assms(3) by simp_all
  from submessage_safe [OF assms(1) order_refl at this assms(4) r assms(6)]
  have "safe (upb_Decoder_DecodeSubMessage dec d ptr msg ss f (wv_size wv)) (\<lambda>((p, m), d').
      \<exists>q'. q \<le> q' \<and> dec_at I lim d' p q' \<and> conf C n (K + q') r m)"
    by (rule safe_mono) (auto intro: exI [of _ "q + wv_size wv"])
  with False show ?thesis by (simp add: decode_group_or_message_def)
qed

text \<open>A new sub-message is parsed.\<close>

lemma new_message_safe:
  assumes f: "linked (dec_tables C) ss f" "upb_MiniTableField_IsSubMessage f"
    and "0 < n" and at: "dec_at I lim d ptr q" and "lim - int q < int n" and "K + length I < 2 ^ 29"
    and sized: "descriptortype f \<noteq> kUpb_FieldType_Group \<longrightarrow> int (q + wv_size wv) \<le> lim"
    and rest: "\<And>p m e d' q'. q \<le> q' \<Longrightarrow> dec_at I lim d' p q' \<Longrightarrow> elem_conf (conf C n (K + q')) ss f (CellMsg e m) \<Longrightarrow> safe (k p e m d') Q"
  shows "safe (bindR (upb_Decoder_NewSubMessage C ss f d) (\<lambda>((e, submsg), d2).
      bindR (decode_group_or_message dec d2 ptr submsg ss f wv) (\<lambda>((p, submsg'), d3). k p e submsg' d3))) Q"
proof -
  obtain r m where r: "upb_MiniTableSubs_MessageByField ss f = Ret r" "mini_table_of (dec_tables C) r = (Ret m :: (upb_DecodeStatus, _) res)"
    using f by (auto simp: linked_def sub_linked_def)
  show ?thesis
  proof (rule safe_bind [OF new_sub_safe [OF f(1) r(1) f(2)]], clarify)
    fix d2 assume "arena_step d d2"
    then have at2: "dec_at I lim d2 ptr q" using at by (rule dec_at_step)
    obtain j where j: "n = Suc j" using assms(3) by (cases n) auto
    have "conf C n (K + q) r empty_msg" unfolding j by (rule empty_conf [OF r(2)])
    note run = group_or_message_safe [OF assms(3) at2 assms(5,6) r(1) this sized]
    show "safe (bindR (decode_group_or_message dec d2 ptr empty_msg ss f wv) (\<lambda>((p, submsg'), d3). k p (r = MtEmpty) submsg' d3)) Q"
      by (rule safe_bind [OF run], clarify) (rule rest, use r(1) f(2) in \<open>auto simp: elem_conf_def value_conf_def\<close>)
  qed
qed

subsection \<open>Repeated fields\<close>

lemma array_for_store:
  assumes f: "upb_MiniTableField_IsArray f" and cell: "field_conf (dec_tables C) P B ss f c" and small: "B < 2 ^ 29"
  shows "safe (case c of
              Zero \<Rightarrow> upb_Decoder_CreateArray C f d
            | CellArr frozen lg2 xs spare \<Rightarrow> upb_Decoder_Reserve C (CellArr frozen lg2 xs spare) 1 d
            | _ \<Rightarrow> Fault) (\<lambda>(arr, d1). arena_step d d1 \<and> array_conf P (B + 1) ss f arr
              \<and> length (arr_elems arr) < arr_cap arr \<and> length (arr_elems arr) < B + 1)"
proof (cases "c = Zero")
  case True
  have "upb_FieldType_SizeLg2 (descriptortype f) \<noteq> 1 \<and> upb_FieldType_SizeLg2 (descriptortype f) \<le> 4"
    by (cases "descriptortype f") simp_all
  with True show ?thesis
    by (auto simp: upb_Decoder_CreateArray_def upb_Array_New_sized_def array_conf_def arr_ok_def arr_elems_def arr_cap_def split: option.splits)
next
  case False
  then have arr: "array_conf P B ss f c" using cell f by (simp add: field_conf_def)
  then obtain frozen lg2 xs spare where c: "c = CellArr frozen lg2 xs spare" by (cases c) (auto simp: array_conf_def arr_ok_def)
  have "safe (upb_Decoder_Reserve C c 1 d) (\<lambda>(arr, d1). arena_step d d1 \<and> array_conf P (B + 1) ss f arr
      \<and> length (arr_elems arr) < arr_cap arr \<and> length (arr_elems arr) < B + 1)"
    by (rule safe_mono [OF Reserve_conf [OF arr]]) (use small arr in \<open>auto simp: array_conf_def\<close>)
  with c show ?thesis by simp
qed

lemma store_array:
  assumes "upb_MiniTableField_IsArray f" and "presence f = 0" and "om_grown om (orig', msg1)" and "array_conf P B ss f arr"
  shows "store_post T P B ss f om (orig', msg_set msg1 (offset f) arr)"
  unfolding store_post_def
  by (intro exI [of _ msg1] conjI disjI2 exI [of _ arr])
    (use assms stored_plain [OF assms(2)] array_not_Zero [OF assms(4)] in \<open>simp_all add: field_conf_def\<close>)

lemma array_stored:
  assumes "upb_MiniTableField_IsArray f" and "presence f = 0" and "om_grown om (orig', msg1)" and "array_conf (conf C n B') B' ss f arr"
    and "B' \<le> K + q'" and "q \<le> q'" and "dec_at I lim d' p q'"
  shows "store_res C n I lim K q ss f om ((p, orig', msg_set msg1 (offset f) arr), d')"
proof -
  have "array_conf (conf C n (K + q')) (K + q') ss f arr" using assms(4,5) conf_le [OF assms(5)] by (rule array_conf_mono)
  then show ?thesis using store_array [OF assms(1-3)] assms(6,7) by (auto simp: store_res_def)
qed

lemma push_stored:
  assumes f: "upb_MiniTableField_IsArray f" "presence f = 0" and "om_grown om (orig', msg1)"
    and arr: "array_conf (conf C n B) (B + 1) ss f arr" and room: "length (arr_elems arr) < arr_cap arr" "length (arr_elems arr) < B + 1"
    and "B < K + q'" and "q \<le> q'" and "dec_at I lim d' p q'" and "lg2 = upb_FieldType_SizeLg2 (descriptortype f)"
    and "elem_conf (conf C n (K + q')) ss f v"
  shows "safe (bindR (arr_push arr lg2 v) (\<lambda>arr'. Ret ((p, orig', msg_set msg1 (offset f) arr'), d'))) (store_res C n I lim K q ss f om)"
proof -
  have "array_conf (conf C n (K + q')) (B + 1) ss f arr" using arr order_refl conf_le by (rule array_conf_mono) (use assms(7) in simp)
  note push = arr_push_conf [OF this room assms(10,11)]
  show ?thesis
  proof (rule safe_bind [OF push], unfold safe_simps)
    fix arr' assume "array_conf (conf C n (K + q')) (B + 1) ss f arr'"
    then have "array_conf (conf C n (K + q')) (K + q') ss f arr'" using _ order_refl by (rule array_conf_mono) (use assms(7) in simp)
    then show "store_res C n I lim K q ss f om ((p, orig', msg_set msg1 (offset f) arr'), d')"
      using assms(3,8,9) f by (intro array_stored) auto
  qed
qed

lemma op_lg2:
  "op_for f kUpb_DecodeOp_Scalar1Byte wv \<Longrightarrow> elem_conf P ss f (wireval_cell 0 wv) \<and> 0 = upb_FieldType_SizeLg2 (descriptortype f)"
  "op_for f kUpb_DecodeOp_Scalar4Byte wv \<Longrightarrow> elem_conf P ss f (wireval_cell 2 wv) \<and> 2 = upb_FieldType_SizeLg2 (descriptortype f)"
  "op_for f kUpb_DecodeOp_Scalar8Byte wv \<Longrightarrow> elem_conf P ss f (wireval_cell 3 wv) \<and> 3 = upb_FieldType_SizeLg2 (descriptortype f)"
  "op_for f kUpb_DecodeOp_Enum wv \<Longrightarrow> elem_conf P ss f (wireval_cell 2 wv) \<and> 2 = upb_FieldType_SizeLg2 (descriptortype f)"
  "op_for f kUpb_DecodeOp_String wv \<Longrightarrow> elem_conf P ss f (CellStr s) \<and> 4 = upb_FieldType_SizeLg2 (descriptortype f)"
  "op_for f kUpb_DecodeOp_Bytes wv \<Longrightarrow> elem_conf P ss f (CellStr s) \<and> 4 = upb_FieldType_SizeLg2 (descriptortype f)"
  by (auto simp: op_for_def Let_def elem_conf_def value_conf_def plain_conf_def wireval_cell_def upb_MiniTableField_IsSubMessage_def)

lemma push_string_safe:
  assumes f: "upb_MiniTableField_IsArray f" "presence f = 0" and same: "om_grown om (orig, msg)"
    and arr: "array_conf (conf C n B) (B + 1) ss f arr" and room: "length (arr_elems arr) < arr_cap arr" "length (arr_elems arr) < B + 1"
    and B: "B < K + q" and at: "dec_at I lim d ptr q" and fits: "int (q + sz) \<le> lim" and t: "upb_FieldType_SizeLg2 (descriptortype f) = 4"
  shows "safe (bindR (upb_Decoder_ReadString C d ptr sz) (\<lambda>((s, p), d').
      bindR (arr_push arr 4 (CellStr s)) (\<lambda>arr'. Ret ((p, orig, msg_set msg (offset f) arr'), d')))) (store_res C n I lim K q ss f om)"
proof (rule safe_bind [OF ReadString_at [OF dec_atD(1) [OF at] fits]], clarify)
  fix d' assume d': "arena_step d d'"
  have at': "dec_at I lim d' (ptr + sz) (q + sz)" using d' dec_at_skip [OF at fits] by (rule dec_at_step)
  have "elem_conf P ss f (CellStr s)" for P s
    using t by (auto simp: elem_conf_def value_conf_def plain_conf_def upb_MiniTableField_IsSubMessage_def)
  then show "safe (bindR (arr_push arr 4 (CellStr (take sz (drop q I)))) (\<lambda>arr'. Ret ((ptr + sz, orig, msg_set msg (offset f) arr'), d')))
      (store_res C n I lim K q ss f om)"
    by (intro push_stored [OF f same arr room _ _ at']) (use B t in simp_all)
qed

lemma push_enum_safe:
  assumes f: "upb_MiniTableField_IsArray f" "presence f = 0" and en: "descriptortype f = kUpb_FieldType_Enum" and link: "linked (dec_tables C) ss f"
    and ext: "upb_MiniTableField_IsExtension f \<longleftrightarrow> orig \<noteq> None" and slots: "om_slots (orig, msg)"
    and arr: "array_conf (conf C n B) (B + 1) ss f arr" and room: "length (arr_elems arr) < arr_cap arr" "length (arr_elems arr) < B + 1"
    and B: "B < K + q" and at: "dec_at I lim d ptr q"
  shows "safe (bindR (upb_Decoder_DecodeEnumArray C d orig msg arr ss f wv) (\<lambda>((arr', orig', msg'), d').
      Ret ((ptr, orig', msg_set msg' (offset f) arr'), d'))) (store_res C n I lim K q ss f (orig, msg))"
proof -
  obtain e where e: "upb_MiniTableSubs_EnumByField ss f = Ret e" "enum_wf e" using link en by (auto simp: linked_def)
  have "safe (upb_Decoder_CheckEnum C orig msg e f (ucast wv) d) (\<lambda>((ok, om'), d'). arena_step d d' \<and> om_grown (orig, msg) om')"
    using e(2) slots ext by (rule check_enum_safe)
  then show ?thesis unfolding upb_Decoder_DecodeEnumArray_def e(1) bindR.simps bindR_assoc
  proof (rule safe_bind, clarify)
    fix ok orig' msg' d' assume d': "arena_step d d'" and g: "om_grown (orig, msg) (orig', msg')"
    have at': "dec_at I lim d' ptr q" using d' at by (rule dec_at_step)
    have "array_conf (conf C n (K + q)) (K + q) ss f arr" using arr _ conf_le by (rule array_conf_mono) (use B in simp_all)
    then have "store_res C n I lim K q ss f (orig, msg) ((ptr, orig', msg_set msg' (offset f) arr), d')"
      using order_refl order_refl at' by (rule array_stored [OF f g])
    moreover have "safe (bindR (arr_push arr 2 (wireval_cell 2 wv)) (\<lambda>arr'. Ret ((ptr, orig', msg_set msg' (offset f) arr'), d')))
        (store_res C n I lim K q ss f (orig, msg))"
      by (rule push_stored [OF f g arr room B order_refl at'])
        (use en in \<open>auto intro!: wireval_conf simp: upb_MiniTableField_IsSubMessage_def\<close>)
    ultimately show "safe (bindR (if \<not> ok then Ret ((arr, orig', msg'), d')
          else bindR (arr_push arr 2 (wireval_cell 2 wv)) (\<lambda>arr'. Ret ((arr', orig', msg'), d')))
        (\<lambda>((arr', orig', msg'), d'). Ret ((ptr, orig', msg_set msg' (offset f) arr'), d'))) (store_res C n I lim K q ss f (orig, msg))"
      by (cases ok) (simp_all add: bindR_assoc)
  qed
qed

lemma packed_op_safe:
  assumes at: "field_at n I lim K B d ptr q f op wv" and f: "upb_MiniTableField_IsArray f" "presence f = 0"
    and ext: "upb_MiniTableField_IsExtension f \<longleftrightarrow> orig \<noteq> None" and slots: "om_slots (orig, msg)" and link: "linked (dec_tables C) ss f"
    and arr: "array_conf (conf C n B) (B + 1) ss f arr" and packed: "op = kUpb_DecodeOp_PackedEnum \<or> op = OP_FIXPCK_LG2 l \<or> op = OP_VARPCK_LG2 l"
  shows "safe (decode_array_op C dec d ptr orig msg arr ss f wv op) (store_res C n I lim K q ss f (orig, msg))"
proof -
  have here: "dec_at I lim d ptr q" "int (q + wv_size wv) \<le> lim" "K + length I < 2 ^ 29" and op: "op_for f op wv"
    using at packed by (auto simp: field_at_def op_sized_def)
  have arr_q: "array_conf (conf C n (K + q)) (K + q) ss f arr" using arr _ conf_le by (rule array_conf_mono) (use at in \<open>simp_all add: field_at_def\<close>)
  have stored: "store_res C n I lim K q ss f (orig, msg) ((p, orig', msg_set msg1 (offset f) arr'), d2)"
    if "dec_at I lim d2 p (q + wv_size wv)" "array_conf (conf C n (K + q)) (K + (q + wv_size wv)) ss f arr'" "om_grown (orig, msg) (orig', msg1)"
    for p orig' msg1 arr' d2
  proof (rule array_stored [OF f that(3) _ _ _ that(1)])
    show "array_conf (conf C n (K + (q + wv_size wv))) (K + (q + wv_size wv)) ss f arr'"
      using that(2) order_refl conf_le by (rule array_conf_mono) simp
  qed simp_all
  note same = om_grown_refl [OF slots]
  from packed consider (enum) "op = kUpb_DecodeOp_PackedEnum" | (fixed) "op = OP_FIXPCK_LG2 l" | (varint) "op = OP_VARPCK_LG2 l" by blast
  then show ?thesis
  proof cases
    case enum
    have en: "descriptortype f = kUpb_FieldType_Enum" using op enum by (simp add: op_for_def Let_def)
    then obtain e where e: "upb_MiniTableSubs_EnumByField ss f = Ret e" "enum_wf e" using link by (auto simp: linked_def)
    show ?thesis unfolding enum decode_array_op_def Let_def upb_DecodeOp.case
      by (rule safe_bind [OF enum_packed_field_safe [OF here en e ext slots arr_q]], clarify) (use stored in auto)
  next
    case fixed
    have fp: "l = upb_FieldType_SizeLg2 (descriptortype f)" "l = 2 \<or> l = 3" "\<not> upb_MiniTableField_IsSubMessage f"
      using op fixed by (auto simp: op_for_def Let_def)
    show ?thesis unfolding fixed decode_array_op_def Let_def upb_DecodeOp.case
      by (rule safe_bind [OF fixed_packed_field_safe [OF here fp arr_q]], clarify) (use stored same in auto)
  next
    case varint
    have fp: "\<not> upb_MiniTableField_IsSubMessage f" "l = upb_FieldType_SizeLg2 (descriptortype f)" "l = 0 \<or> l = 2 \<or> l = 3"
      using op varint by (auto simp: op_for_def Let_def)
    show ?thesis unfolding varint decode_array_op_def Let_def upb_DecodeOp.case
      by (rule safe_bind [OF varint_packed_field_safe [OF here fp arr_q]], clarify) (use stored same in auto)
  qed
qed

lemma array_op_safe:
  assumes at: "field_at n I lim K B d ptr q f op wv" and f: "upb_MiniTableField_IsArray f" "presence f = 0"
    and ext: "upb_MiniTableField_IsExtension f \<longleftrightarrow> orig \<noteq> None" and slots: "om_slots (orig, msg)" and link: "linked (dec_tables C) ss f"
    and arr: "array_conf (conf C n B) (B + 1) ss f arr" and room: "length (arr_elems arr) < arr_cap arr" "length (arr_elems arr) < B + 1"
  shows "safe (decode_array_op C dec d ptr orig msg arr ss f wv op) (store_res C n I lim K q ss f (orig, msg))"
proof -
  have small: "B < K + q" "K + length I < 2 ^ 29" "0 < n" "lim - int q < int n" and op: "op_for f op wv"
    and sized: "op_sized f op \<Longrightarrow> int (q + wv_size wv) \<le> lim" and here: "dec_at I lim d ptr q" using at by (auto simp: field_at_def)
  note same = om_grown_refl [OF slots]
  note push = push_stored [OF f same arr room]
  note scalar = push [OF small(1) order_refl here] and packed = packed_op_safe [OF at f ext slots link arr]
  have bytes: "safe (bindR (upb_Decoder_ReadString C d ptr (wv_size wv)) (\<lambda>((s, p), d2).
      bindR (arr_push arr 4 (CellStr s)) (\<lambda>arr'. Ret ((p, orig, msg_set msg (offset f) arr'), d2)))) (store_res C n I lim K q ss f (orig, msg))"
    and fits: "int (q + wv_size wv) \<le> lim" if b: "op = kUpb_DecodeOp_String \<or> op = kUpb_DecodeOp_Bytes"
    by (rule push_string_safe [OF f same arr room small(1) here]) (use b op sized in \<open>auto simp: op_for_def op_sized_def Let_def\<close>)
  note unfolds = decode_array_op_def Let_def upb_DecodeOp.case
  show ?thesis
  proof (cases op)
    case kUpb_DecodeOp_Enum
    then have en: "descriptortype f = kUpb_FieldType_Enum" using op by (simp add: op_for_def Let_def)
    show ?thesis unfolding kUpb_DecodeOp_Enum unfolds by (rule push_enum_safe [OF f en link ext slots arr room small(1) here])
  next
    case kUpb_DecodeOp_String
    show ?thesis unfolding kUpb_DecodeOp_String unfolds
      by (rule safe_bind [OF VerifyUtf8_at [OF dec_atD(1) [OF here] fits]]) (use bytes kUpb_DecodeOp_String in blast)+
  next
    case kUpb_DecodeOp_SubMessage
    then have sub: "upb_MiniTableField_IsSubMessage f" using op by (simp add: op_for_def)
    show ?thesis unfolding kUpb_DecodeOp_SubMessage unfolds
    proof (rule new_message_safe [OF link sub small(3) here small(4,2)], goal_cases)
      case 1
      then show ?case using kUpb_DecodeOp_SubMessage sized by (auto simp: op_sized_def)
    next
      case (2 p m e d' q')
      show ?case by (rule push [OF _ 2(1,2) _ 2(3)]) (use 2(1) small(1) sub in \<open>auto simp: upb_MiniTableField_IsSubMessage_def\<close>)
    qed
  next
    case kUpb_DecodeOp_Scalar1Byte
    show ?thesis unfolding kUpb_DecodeOp_Scalar1Byte unfolds by (rule scalar) (use op op_lg2(1) kUpb_DecodeOp_Scalar1Byte in auto)
  next
    case kUpb_DecodeOp_Scalar4Byte
    show ?thesis unfolding kUpb_DecodeOp_Scalar4Byte unfolds by (rule scalar) (use op op_lg2(2) kUpb_DecodeOp_Scalar4Byte in auto)
  next
    case kUpb_DecodeOp_Scalar8Byte
    show ?thesis unfolding kUpb_DecodeOp_Scalar8Byte unfolds by (rule scalar) (use op op_lg2(3) kUpb_DecodeOp_Scalar8Byte in auto)
  next
    case kUpb_DecodeOp_Bytes
    show ?thesis unfolding kUpb_DecodeOp_Bytes unfolds using kUpb_DecodeOp_Bytes by (intro bytes) blast
  qed (use op packed in \<open>simp_all add: op_for_def\<close>)
qed

lemma to_array_safe:
  assumes at: "field_at n I lim K B d ptr q f op wv" and f: "upb_MiniTableField_IsArray f" "presence f = 0"
    and ext: "upb_MiniTableField_IsExtension f \<longleftrightarrow> orig \<noteq> None" and slots: "om_slots (orig, msg)" and link: "linked (dec_tables C) ss f"
    and cell: "field_conf (dec_tables C) (conf C n B) B ss f (msg_cell msg (offset f))"
  shows "safe (upb_Decoder_DecodeToArray C dec d ptr orig msg ss f wv op) (store_res C n I lim K q ss f (orig, msg))"
  unfolding upb_Decoder_DecodeToArray_def
proof (rule safe_bind [OF array_for_store [OF f(1) cell]], goal_cases)
  case 1
  then show ?case using at by (simp add: field_at_def)
next
  case (2 v)
  then obtain arr d1 where v: "v = (arr, d1)" and d1: "arena_step d d1" and arr: "array_conf (conf C n B) (B + 1) ss f arr"
    and room: "length (arr_elems arr) < arr_cap arr" "length (arr_elems arr) < B + 1" by (cases v) auto
  have "field_at n I lim K B d1 ptr q f op wv" using at dec_at_step [OF d1] by (auto simp: field_at_def)
  from array_op_safe [OF this f ext slots link arr room] show ?case unfolding v prod.case .
qed

subsection \<open>Fields with one value\<close>

lemma scalar_stored:
  assumes "upb_MiniTableField_IsScalar f" and "om_grown om (orig', msg1)" and "present f msg1 msg2"
    and "value_conf (conf C n (K + q')) ss f c" and "q \<le> q'" and "dec_at I lim d' p q'"
  shows "store_res C n I lim K q ss f om ((p, orig', msg_set msg2 (offset f) c), d')"
proof -
  have "\<not> upb_MiniTableField_IsArray f" "\<not> upb_MiniTableField_IsMap f"
    using assms(1) by (simp_all add: upb_MiniTableField_IsScalar_def upb_MiniTableField_IsArray_def upb_MiniTableField_IsMap_def)
  then have "store_post (dec_tables C) (conf C n (K + q')) (K + q') ss f om (orig', msg_set msg2 (offset f) c)"
    unfolding store_post_def by (intro exI [of _ msg1] conjI disjI2 exI [of _ c])
      (use assms in \<open>simp_all add: field_conf_def present_def\<close>)
  with assms(5,6) show ?thesis by (auto simp: store_res_def)
qed

lemma existing_or_new_safe:
  assumes link: "linked (dec_tables C) ss f" and sub: "upb_MiniTableField_IsSubMessage f" and c: "value_conf (conf C n B) ss f c" and "0 < n"
  shows "safe (case c of
        Zero \<Rightarrow> upb_Decoder_NewSubMessage C ss f d
      | CellMsg is_empty existing \<Rightarrow> upb_Decoder_ReuseSubMessage C dec ss f is_empty existing d
      | _ \<Rightarrow> Fault) (\<lambda>((e, msg), d'). arena_step d d' \<and> (\<exists>r. upb_MiniTableSubs_MessageByField ss f = Ret r \<and> (e \<longrightarrow> r = MtEmpty) \<and> conf C n B r msg))"
proof (cases "c = Zero")
  case True
  obtain r m where r: "upb_MiniTableSubs_MessageByField ss f = Ret r" "mini_table_of (dec_tables C) r = (Ret m :: (upb_DecodeStatus, _) res)"
    using link sub by (auto simp: linked_def sub_linked_def)
  obtain j where "n = Suc j" using assms(4) by (cases n) auto
  then have "conf C n B r empty_msg" using empty_conf [OF r(2)] by metis
  then have "safe (upb_Decoder_NewSubMessage C ss f d) (\<lambda>((e, msg), d'). arena_step d d'
      \<and> (\<exists>r. upb_MiniTableSubs_MessageByField ss f = Ret r \<and> (e \<longrightarrow> r = MtEmpty) \<and> conf C n B r msg))"
    by (intro safe_mono [OF new_sub_safe [OF link r(1) sub]]) (use r(1) in auto)
  with True show ?thesis by simp
next
  case False
  then obtain e existing r where "c = CellMsg e existing" "upb_MiniTableSubs_MessageByField ss f = Ret r" "e \<longrightarrow> r = MtEmpty"
    "conf C n B r existing" using c sub by (auto simp: value_conf_def split: upb_cell.splits)
  then show ?thesis by (auto simp: upb_Decoder_ReuseSubMessage_def)
qed

lemma store_string_safe:
  assumes "upb_MiniTableField_IsScalar f" and "om_grown om (orig, msg1)" and "present f msg1 msg"
    and at: "dec_at I lim d ptr q" and fits: "int (q + sz) \<le> lim" and t: "upb_FieldType_SizeLg2 (descriptortype f) = 4"
  shows "safe (bindR (upb_Decoder_ReadString C d ptr sz) (\<lambda>((s, p), d'). Ret ((p, orig, msg_set msg (offset f) (CellStr s)), d')))
    (store_res C n I lim K q ss f om)"
proof (rule safe_bind [OF ReadString_at [OF dec_atD(1) [OF at] fits]], clarify, unfold safe_simps)
  fix d' assume d': "arena_step d d'"
  show "store_res C n I lim K q ss f om ((ptr + sz, orig, msg_set msg (offset f) (CellStr (take sz (drop q I)))), d')"
    by (rule scalar_stored [OF assms(1-3) _ _ dec_at_step [OF d' dec_at_skip [OF at fits]]])
      (use t in \<open>auto simp: value_conf_def plain_conf_def upb_MiniTableField_IsSubMessage_def\<close>)
qed

lemma store_message_safe:
  assumes f: "upb_MiniTableField_IsScalar f" and om: "om_grown om (orig, msg1)" and pres: "present f msg1 msg"
    and link: "linked (dec_tables C) ss f" and sub: "upb_MiniTableField_IsSubMessage f" and n: "0 < n" and at: "dec_at I lim d ptr q"
    and len: "lim - int q < int n" and small: "K + length I < 2 ^ 29"
    and fits: "descriptortype f \<noteq> kUpb_FieldType_Group \<longrightarrow> int (q + wv_size wv) \<le> lim"
    and cell: "value_conf (conf C n B) ss f (msg_cell msg (offset f))" and B: "B < K + q"
  shows "safe (bindR (case msg_cell msg (offset f) of
        Zero \<Rightarrow> upb_Decoder_NewSubMessage C ss f d
      | CellMsg is_empty existing \<Rightarrow> upb_Decoder_ReuseSubMessage C dec ss f is_empty existing d
      | _ \<Rightarrow> Fault) (\<lambda>((is_empty, submsg), d1).
      bindR (decode_group_or_message dec d1 ptr submsg ss f wv) (\<lambda>((p, submsg'), d2).
        Ret ((p, orig, msg_set msg (offset f) (CellMsg is_empty submsg')), d2)))) (store_res C n I lim K q ss f om)"
proof (rule safe_bind [OF existing_or_new_safe [OF link sub cell n]], clarify)
  fix e submsg d1 r assume d1: "arena_step d d1" and r: "upb_MiniTableSubs_MessageByField ss f = Ret r" "e \<longrightarrow> r = MtEmpty" "conf C n B r submsg"
  have "conf C n (K + q) r submsg" using r(3) order_refl by (rule conf_mono) (use B in simp)
  note run = group_or_message_safe [OF n dec_at_step [OF d1 at] len small r(1) this fits]
  show "safe (bindR (decode_group_or_message dec d1 ptr submsg ss f wv) (\<lambda>((p, submsg'), d2).
      Ret ((p, orig, msg_set msg (offset f) (CellMsg e submsg')), d2))) (store_res C n I lim K q ss f om)"
    by (rule safe_bind [OF run], clarify, unfold safe_simps) (rule scalar_stored [OF f om pres], use r(1,2) sub in \<open>auto simp: value_conf_def\<close>)
qed

lemma store_safe:
  assumes at: "field_at n I lim K B d ptr q f op wv" and f: "upb_MiniTableField_IsScalar f" and link: "linked (dec_tables C) ss f"
    and om: "om_grown om (orig, msg1)" and pres: "present f msg1 msg"
    and cell: "op = kUpb_DecodeOp_SubMessage \<longrightarrow> value_conf (conf C n B) ss f (msg_cell msg (offset f))"
  shows "safe (decode_store C dec d ptr orig msg ss f wv op) (store_res C n I lim K q ss f om)"
proof -
  have small: "B < K + q" "K + length I < 2 ^ 29" "0 < n" "lim - int q < int n" and op: "op_for f op wv" and at1: "dec_at I lim d ptr q"
    and sized: "op_sized f op \<Longrightarrow> int (q + wv_size wv) \<le> lim" using at by (auto simp: field_at_def)
  have not_arr: "\<not> upb_MiniTableField_IsArray f"
    using f by (simp add: upb_MiniTableField_IsScalar_def upb_MiniTableField_IsArray_def)
  note stored = scalar_stored [OF f om pres]
  have bytes: "safe (bindR (upb_Decoder_ReadString C d ptr (wv_size wv)) (\<lambda>((s, p), d').
      Ret ((p, orig, msg_set msg (offset f) (CellStr s)), d'))) (store_res C n I lim K q ss f om)"
    if b: "op = kUpb_DecodeOp_String \<or> op = kUpb_DecodeOp_Bytes"
    by (rule store_string_safe [OF f om pres at1]) (use b op sized in \<open>auto simp: op_for_def op_sized_def Let_def\<close>)
  have scalar: "safe (Ret ((ptr, orig, msg_set msg (offset f) (wireval_cell lg2 wv)), d)) (store_res C n I lim K q ss f om)"
    if "\<And>P. elem_conf P ss f (wireval_cell lg2 wv)" for lg2
    using stored [OF _ order_refl at1] that by (auto simp: elem_conf_def)
  show ?thesis unfolding decode_store_def Let_def
  proof (cases op, goal_cases)
    case 3
    show ?case unfolding 3 upb_DecodeOp.case by (rule scalar) (use op op_lg2(1) 3 in auto)
  next
    case 4
    show ?case unfolding 4 upb_DecodeOp.case by (rule scalar) (use op op_lg2(2) 4 in auto)
  next
    case 5
    show ?case unfolding 5 upb_DecodeOp.case by (rule scalar) (use op op_lg2(3) 5 in auto)
  next
    case 6
    show ?case unfolding 6 upb_DecodeOp.case by (rule scalar) (use op op_lg2(4) 6 in auto)
  next
    case 7
    have fits: "int (q + wv_size wv) \<le> lim" using 7 sized by (auto simp: op_sized_def)
    show ?case unfolding 7 upb_DecodeOp.case
      by (rule safe_bind [OF VerifyUtf8_at [OF dec_atD(1) [OF at1] fits]]) (use bytes 7 in blast)
  next
    case 8
    show ?case unfolding 8 upb_DecodeOp.case using 8 by (intro bytes) blast
  next
    case 9
    then have sub: "upb_MiniTableField_IsSubMessage f" using op by (simp add: op_for_def)
    have fits: "descriptortype f \<noteq> kUpb_FieldType_Group \<longrightarrow> int (q + wv_size wv) \<le> lim" using 9 sized by (auto simp: op_sized_def)
    have "value_conf (conf C n B) ss f (msg_cell msg (offset f))" using cell 9 by blast
    then show ?case unfolding 9 upb_DecodeOp.case by (rule store_message_safe [OF f om pres link sub small(3) at1 small(4,2) fits _ small(1)])
  qed (use op not_arr in \<open>simp_all add: op_for_def Let_def\<close>)
qed

lemma to_sub_message_safe:
  assumes at: "field_at n I lim K B d ptr q f op wv" and f: "upb_MiniTableField_IsScalar f" and link: "linked (dec_tables C) ss f"
    and ext: "upb_MiniTableField_IsExtension f \<longleftrightarrow> orig \<noteq> None" and slots: "om_slots (orig, msg)"
    and pre: "store_pre (conf C n B) ss f msg"
  shows "safe (upb_Decoder_DecodeToSubMessage C dec d ptr orig msg ss f wv op) (store_res C n I lim K q ss f (orig, msg))"
proof -
  have chk: "safe (if op = kUpb_DecodeOp_Enum then
              bindR (upb_MiniTableSubs_EnumByField ss f) (\<lambda>e. upb_Decoder_CheckEnum C orig msg e f (ucast wv) d)
            else Ret ((True, orig, msg), d)) (\<lambda>((ok, om'), d'). arena_step d d' \<and> om_grown (orig, msg) om')"
  proof (cases "op = kUpb_DecodeOp_Enum")
    case True
    then have "descriptortype f = kUpb_FieldType_Enum" using at by (simp add: field_at_def op_for_def Let_def)
    then obtain e where e: "upb_MiniTableSubs_EnumByField ss f = Ret e" "enum_wf e" using link by (auto simp: linked_def)
    show ?thesis using check_enum_safe [OF e(2) slots ext] True e(1) by simp
  qed (simp add: om_grown_refl [OF slots])
  show ?thesis unfolding upb_Decoder_DecodeToSubMessage_def
  proof (rule safe_bind [OF chk], clarify)
    fix ok orig1 msg1 d1 assume d1: "arena_step d d1" and g: "om_grown (orig, msg) (orig1, msg1)"
    have at1: "field_at n I lim K B d1 ptr q f op wv" using at dec_at_step [OF d1] by (auto simp: field_at_def)
    have pre1: "store_pre (conf C n B) ss f msg1" using pre by (rule store_pre_grown) (use om_grown_mem [OF g] in simp)
    have unlisted: "store_res C n I lim K q ss f (orig, msg) ((ptr, orig1, msg1), d1)"
      using at1 g f by (auto simp: store_res_def store_post_def field_at_def)
    have "safe (bindR (decode_set_presence msg1 f op) (\<lambda>msg2. decode_store C dec d1 ptr orig1 msg2 ss f wv op))
        (store_res C n I lim K q ss f (orig, msg))"
      by (rule safe_bind [OF set_presence_safe [OF pre1]], elim conjE) (rule store_safe [OF at1 f link g])
    with unlisted show "safe (if \<not> ok then Ret ((ptr, orig1, msg1), d1)
        else bindR (decode_set_presence msg1 f op) (\<lambda>msg2. decode_store C dec d1 ptr orig1 msg2 ss f wv op))
        (store_res C n I lim K q ss f (orig, msg))" by simp
  qed
qed

end

end
