(* ===== verification/Decode_Map.thy ===== *)
theory Decode_Map
  imports Decode_Fields
begin

unbundle bit_operations_syntax

text \<open>
  Map fields: the decoder parses an entry as a message of the entry table and inserts its key and value,
  or keeps the whole entry as an unknown field when the entry has unknown fields.
\<close>

section \<open>Keys and entries\<close>

lemma le_bytes_length [simp]: "length (le_bytes n w) = n"
  by (induction n arbitrary: w) simp_all

lemma key_converts:
  assumes "plain_conf t c"
  shows "\<exists>kb kc. upb_map_tokey c (kSizeInMap t) = (Ret kb :: ('e, _) res)
    \<and> upb_map_fromkey kb (kSizeInMap t) = (Ret kc :: (upb_EncodeStatus, _) res) \<and> plain_conf t kc"
proof -
  have rd: "\<exists>w. (rd_le k 0 m :: (upb_EncodeStatus, _) res) = Ret w" if "m \<le> length k" for k m
    using rd_le_in_range [of 0 m k, where 'a = upb_EncodeStatus] that by auto
  have four: ?thesis if sz: "kSizeInMap t = 4" "upb_FieldType_SizeLg2 t = 2"
  proof -
    obtain w where "cell4 c = (Ret w :: ('e, _) res)" using assms sz(2) by (cases c) (auto simp: plain_conf_def)
    moreover obtain w' where "(rd_le (le_bytes 4 (ucast w)) 0 4 :: (upb_EncodeStatus, _) res) = Ret w'" using rd [of 4 "le_bytes 4 (ucast w)"] by auto
    ultimately show ?thesis using sz by (simp add: upb_map_tokey_def upb_map_fromkey_def plain_conf_def)
  qed
  have eight: ?thesis if sz: "kSizeInMap t = 8" "upb_FieldType_SizeLg2 t = 3"
  proof -
    obtain w where "cell8 c = (Ret w :: ('e, _) res)" using assms sz(2) by (cases c) (auto simp: plain_conf_def)
    moreover obtain w' where "(rd_le (le_bytes 8 w) 0 8 :: (upb_EncodeStatus, _) res) = Ret w'" using rd [of 8 "le_bytes 8 w"] by auto
    ultimately show ?thesis using sz by (simp add: upb_map_tokey_def upb_map_fromkey_def plain_conf_def)
  qed
  have one: ?thesis if sz: "kSizeInMap t = 1" "upb_FieldType_SizeLg2 t = 0"
  proof -
    obtain b where "cell1 c = (Ret b :: ('e, _) res)" "b \<le> 1" using assms sz(2) by (cases c) (auto simp: plain_conf_def)
    then show ?thesis using sz by (simp add: upb_map_tokey_def upb_map_fromkey_def plain_conf_def)
  qed
  have str: ?thesis if sz: "kSizeInMap t = 0" "upb_FieldType_SizeLg2 t = 4"
  proof -
    obtain s where "cell_str c = (Ret s :: ('e, _) res)" using assms sz(2) by (cases c) (auto simp: plain_conf_def)
    then show ?thesis using sz by (simp add: upb_map_tokey_def upb_map_fromkey_def plain_conf_def)
  qed
  from four eight one str show ?thesis by (cases t) simp_all
qed

text \<open>The table of the entries of a map field.\<close>

definition entry_of :: "upb_MiniTable list \<Rightarrow> upb_MiniTableSub list \<Rightarrow> upb_MiniTableField \<Rightarrow> nat \<Rightarrow> upb_MiniTableField \<Rightarrow> upb_MiniTableField \<Rightarrow> bool" where
  "entry_of T ss f i kf vf \<longleftrightarrow> upb_MiniTableSubs_MessageByField ss f = Ret (Mt i) \<and> i < length T \<and> table_ok T (T ! i)
     \<and> mt_fields (T ! i) = [kf, vf] \<and> offset kf = 16 \<and> offset vf = 32 \<and> 0 \<le> presence kf \<and> 0 \<le> presence vf
     \<and> upb_MiniTableField_IsScalar kf \<and> upb_MiniTableField_IsScalar vf \<and> \<not> upb_MiniTableField_IsSubMessage kf"

lemma entry_of_field:
  assumes "env_ok C" and "table_ok (dec_tables C) m" and "f \<in> set (mt_fields m)" and "upb_MiniTableField_IsMap f"
  shows "\<exists>i kf vf. entry_of (dec_tables C) (subs m) f i kf vf"
proof -
  obtain i where i: "i < length (dec_tables C)" "submsg_index f < length (subs m)" "subs m ! submsg_index f = Submsg (Mt i)"
    "entry_wf (dec_tables C ! i)" using table_field(3) [OF assms(2-4)] by (auto simp: map_link_wf_def)
  have "table_ok (dec_tables C) (dec_tables C ! i)" using assms(1) i(1) by (simp add: env_ok_def)
  with i show ?thesis by (auto simp: entry_of_def entry_wf_def upb_MiniTableSubs_MessageByField_def)
qed

lemma entry_ofD:
  assumes "entry_of T ss f i kf vf"
  shows "upb_MiniTableSubs_MessageByField ss f = Ret (Mt i)" "i < length T" "table_ok T (T ! i)" "mt_fields (T ! i) = [kf, vf]"
    "offset kf = 16" "offset vf = 32" "0 \<le> presence kf" "0 \<le> presence vf" "upb_MiniTableField_IsScalar kf" "upb_MiniTableField_IsScalar vf"
    "\<not> upb_MiniTableField_IsSubMessage kf" "field_count (T ! i) = 2" "mini_table_of T (Mt i) = (Ret (T ! i) :: ('e, _) res)"
    "kf \<in> set (mt_fields (T ! i))" "vf \<in> set (mt_fields (T ! i))"
  using assms by (auto simp: entry_of_def table_ok_def mt_fields_wf_def mini_table_of_def)

lemma scalar_field_conf: "upb_MiniTableField_IsScalar f \<Longrightarrow> field_conf T P B ss f c = value_conf P ss f c"
  by (simp add: field_conf_def upb_MiniTableField_IsScalar_def upb_MiniTableField_IsArray_def upb_MiniTableField_IsMap_def)

text \<open>The key and the value of a conforming entry.\<close>

lemma entry_cells:
  assumes e: "entry_of (dec_tables C) ss f i kf vf" and "conf C (Suc j) B (Mt i) ent"
  shows "plain_conf (descriptortype kf) (msg_cell ent 16)" "value_conf (conf C j B) (subs (dec_tables C ! i)) vf (msg_cell ent 32)"
proof -
  note D = entry_ofD [OF e]
  have "mem_conf (dec_tables C) (conf C j B) B (dec_tables C ! i) ent" using assms(2) D(13) [where 'e = upb_DecodeStatus] by (auto simp: level_conf_def)
  then have "value_conf (conf C j B) (subs (dec_tables C ! i)) kf (msg_cell ent 16)" and v: "value_conf (conf C j B) (subs (dec_tables C ! i)) vf (msg_cell ent 32)"
    using D(4-10) by (simp_all add: mem_conf_def active_def scalar_field_conf)
  then show "plain_conf (descriptortype kf) (msg_cell ent 16)" using D(11) by (simp add: value_conf_def)
  show "value_conf (conf C j B) (subs (dec_tables C ! i)) vf (msg_cell ent 32)" by (rule v)
qed

lemma new_entry_safe:
  assumes e: "entry_of (dec_tables C) ss f i kf vf"
  shows "safe (new_map_entry C (dec_tables C ! i) vf d) (\<lambda>(ent, d'). arena_step d d' \<and> conf C (Suc (Suc j)) B (Mt i) ent)"
proof (cases "upb_MiniTableField_IsSubMessage vf")
  case False
  have "conf C (Suc (Suc j)) B (Mt i) empty_msg" by (rule empty_conf [OF entry_ofD(13) [OF e]])
  with False show ?thesis by (simp add: new_map_entry_def upb_MiniTableField_IsSubMessage_def del: conf.simps)
next
  case True
  let ?m = "dec_tables C ! i"
  note D = entry_ofD [OF e]
  have link: "linked (dec_tables C) (subs ?m) vf" by (rule field_linked [OF D(3,15)])
  then obtain r m where r: "upb_MiniTableSubs_MessageByField (subs ?m) vf = Ret r" "mini_table_of (dec_tables C) r = (Ret m :: (upb_DecodeStatus, _) res)"
    using True by (auto simp: linked_def sub_linked_def)
  have sub: "conf C (Suc j) B r empty_msg" by (rule empty_conf [OF r(2)])
  have p: "presence_addr g \<noteq> 32" if "g \<in> set (mt_fields ?m)" "presence g \<noteq> 0" for g
    using presence_offset [OF D(3) that(1) D(15) that(2)] D(6) by simp
  have ent: "conf C (Suc (Suc j)) B (Mt i) (msg_set empty_msg 32 (CellMsg e' empty_msg))" if "e' = (r = MtEmpty)" for e'
  proof -
    have "value_conf (conf C (Suc j) B) (subs ?m) vf (CellMsg e' empty_msg)" using True r(1) sub that by (simp add: value_conf_def del: conf.simps)
    moreover have "value_conf (conf C (Suc j) B) (subs ?m) kf Zero" by (simp add: value_conf_def plain_conf_def)
    moreover have "presence_conf g (msg_set empty_msg 32 (CellMsg e' empty_msg))" if "g \<in> set (mt_fields ?m)" for g
      using p [OF that] by (auto simp: presence_conf_def empty_msg_def msg_cell_def)
    ultimately have "mem_conf (dec_tables C) (conf C (Suc j) B) B ?m (msg_set empty_msg 32 (CellMsg e' empty_msg))"
      using D(4-6,9,10) by (simp add: mem_conf_def scalar_field_conf empty_msg_def msg_cell_def del: conf.simps)
    then have "level_conf C (conf C (Suc j) B) B (Mt i) ?m (msg_set empty_msg 32 (CellMsg e' empty_msg))"
      by (simp add: level_conf_def aux_conf_def empty_msg_def slots_ok_def del: conf.simps)
    then show ?thesis using D(13) [where 'e = upb_DecodeStatus] by (simp only: conf.simps(2)) blast
  qed
  have "safe (bindR (upb_Decoder_NewSubMessage C (subs ?m) vf d) (\<lambda>((is_empty, submsg), d').
      Ret (msg_set empty_msg map_entry_v (CellMsg is_empty submsg), d'))) (\<lambda>(ent, d'). arena_step d d' \<and> conf C (Suc (Suc j)) B (Mt i) ent)"
    by (rule safe_bind [OF new_sub_safe [OF link r(1) True]]) (use ent in \<open>auto simp del: conf.simps\<close>)
  with True show ?thesis by (simp add: new_map_entry_def upb_MiniTableField_IsSubMessage_def del: conf.simps)
qed

text \<open>A conforming entry can be encoded.\<close>

lemma encode_entry_safe:
  assumes env: "env_ok C" and ent: "conf C k B (Mt i) ent" and i: "mini_table_of (dec_tables C) (Mt i) = (Ret m :: (upb_DecodeStatus, _) res)"
    and "k \<le> input_rounds d"
  shows "safe (upb_Decoder_EncodeEntry C ent m d) (\<lambda>(_, d'). arena_step d d')"
proof -
  let ?E = "\<lparr>env_realloc = dec_realloc C, env_tables = dec_tables C, env_options = 0\<rparr>"
  let ?e = "\<lparr> enc_arena = dec_arena d, enc_buf = [], enc_ptr = 0, enc_depth = uint (upb_EncodeOptions_GetEffectiveMaxDepth 0) \<rparr>"
  have "msg_typed (dec_tables C) 0 k m ent" by (rule conf_msg_typed [OF env _ ent i]) simp
  then have "fine 0 k (enc_depth ?e) (wire_message (dec_tables C) 0 (input_rounds d) (enc_depth ?e) ent m)"
    using assms(4) by (rule wire_message_fine)
  moreover have "implements_msg (encode_message ?E (input_rounds d) ent m ?e) ?e
      (wire_message (dec_tables C) 0 (input_rounds d) (enc_depth ?e) ent m)"
    using wire_message_impl [of ?E ?e "input_rounds d" ent m] env by (simp add: env_ok_def enc_ok_def)
  ultimately show ?thesis
    by (cases "encode_message ?E (input_rounds d) ent m ?e")
      (auto simp: upb_Decoder_EncodeEntry_def implements_msg_def fine_def)
qed

section \<open>Insertion\<close>

lemma map_confD:
  assumes "entry_of T ss f i kf vf" and "map_conf T P B ss f mp"
  shows "map_ok mp" "map_keysize mp = kSizeInMap (descriptortype kf)" "card (dom (map_abs mp)) \<le> B" "length (map_vals mp) \<le> B"
    "map_abs mp k = Some v \<Longrightarrow> \<exists>kc. upb_map_fromkey k (map_keysize mp) = (Ret kc :: (upb_EncodeStatus, _) res) \<and> plain_conf (descriptortype kf) kc"
    "map_abs mp k = Some v \<Longrightarrow> value_conf P (subs (T ! i)) vf v"
  using assms entry_ofD(1,4) [OF assms(1)] unfolding map_conf_def by auto

lemma map_confI:
  assumes e: "entry_of T ss f i kf vf" and "map_ok mp" "map_keysize mp = kSizeInMap (descriptortype kf)" "card (dom (map_abs mp)) \<le> B" "length (map_vals mp) \<le> B"
    and "\<And>k v. map_abs mp k = Some v \<Longrightarrow> (\<exists>kc. upb_map_fromkey k (map_keysize mp) = (Ret kc :: (upb_EncodeStatus, _) res) \<and> plain_conf (descriptortype kf) kc)
      \<and> value_conf P (subs (T ! i)) vf v"
  shows "map_conf T P B ss f mp"
  unfolding map_conf_def using assms(2-6) entry_ofD(1,2,4) [OF e]
  by (intro exI [of _ i] exI [of _ "T ! i"] exI [of _ kf] exI [of _ vf]) simp

lemma insert_entry:
  assumes e: "entry_of T ss f i kf vf" and mp: "map_conf T P B ss f mp" and k: "plain_conf (descriptortype kf) k"
    and v: "value_conf Q (subs (T ! i)) vf v" and PQ: "P \<le> Q" and "B < B'" "B < 2 ^ 29"
  shows "\<exists>st mp' a'. upb_Map_Insert malloc mp k v a = Ret (st, mp', a') \<and> map_conf T Q B' ss f mp'"
proof -
  note M = map_confD [OF e mp]
  obtain kb kc where kb: "upb_map_tokey k (map_keysize mp) = (Ret kb :: (unit, _) res)"
    "upb_map_fromkey kb (map_keysize mp) = (Ret kc :: (upb_EncodeStatus, _) res)" "plain_conf (descriptortype kf) kc"
    using key_converts [OF k, where 'e = unit] M(2) by auto
  obtain st mp' a' where r: "upb_Map_Insert malloc mp k v a = Ret (st, mp', a')" "map_ok mp'"
    "\<forall>k' c. map_abs mp' k' = Some c \<longrightarrow> map_abs mp k' = Some c \<or> k' = kb \<and> c = v"
    "map_keysize mp' = map_keysize mp" "map_vals mp' \<in> {map_vals mp, map_vals mp @ [v]}"
    using map_insert_safe [OF M(1) kb(1), of malloc v a] M(3,4) assms(7) by auto
  have "dom (map_abs mp') \<subseteq> insert kb (dom (map_abs mp))" using r(3) by blast
  then have "card (dom (map_abs mp')) \<le> card (insert kb (dom (map_abs mp)))" using map_finite(1) [OF M(1)] by (intro card_mono) simp_all
  also have "\<dots> \<le> Suc (card (dom (map_abs mp)))" using map_finite(1) [OF M(1)] by (simp add: card_insert_if)
  finally have card: "card (dom (map_abs mp')) \<le> B'" using M(3) assms(6) by simp
  have "map_conf T Q B' ss f mp'"
  proof (rule map_confI [OF e r(2) _ card])
    show "map_keysize mp' = kSizeInMap (descriptortype kf)" "length (map_vals mp') \<le> B'" using r(4,5) M(2,4) assms(6) by auto
    fix k' c assume "map_abs mp' k' = Some c"
    then consider "map_abs mp k' = Some c" | "k' = kb" "c = v" using r(3) by blast
    then show "(\<exists>kc. upb_map_fromkey k' (map_keysize mp') = (Ret kc :: (upb_EncodeStatus, _) res) \<and> plain_conf (descriptortype kf) kc)
        \<and> value_conf Q (subs (T ! i)) vf c"
    proof cases
      case 1
      with M(5,6) value_conf_mono [OF _ PQ] r(4) show ?thesis by simp
    next
      case 2
      with kb v r(4) show ?thesis by simp
    qed
  qed
  with r(1) show ?thesis by blast
qed

lemma map_conf_mono:
  assumes e: "entry_of T ss f i kf vf" and mp: "map_conf T P B ss f mp" and "B \<le> B'" and "P \<le> Q"
  shows "map_conf T Q B' ss f mp"
proof -
  note M = map_confD [OF e mp]
  show ?thesis by (rule map_confI [OF e M(1,2)]) (use M(3-6) assms(3) value_conf_mono [OF _ assms(4)] in auto)
qed

lemma map_for_store:
  assumes "env_ok C" and e: "entry_of (dec_tables C) ss f i kf vf" and "c = Zero \<or> map_conf (dec_tables C) P B ss f c"
  shows "safe (case c of
        Zero \<Rightarrow> upb_Decoder_CreateMap C (dec_tables C ! i) d
      | CellMap frozen ks vs t vals \<Rightarrow> Ret (CellMap frozen ks vs t vals, d)
      | _ \<Rightarrow> Fault) (\<lambda>(mp, d1). arena_step d d1 \<and> map_conf (dec_tables C) P B ss f mp)"
proof (cases "c = Zero")
  case True
  note D = entry_ofD [OF e]
  let ?r = "upb_Map_New_sized (dec_malloc C) (kSizeInMap (descriptortype kf)) (kSizeInMap (descriptortype vf)) (dec_arena d)"
  have "map_conf (dec_tables C) P B ss f mp" if "?r = Some (mp, a)" for mp a
    using map_new_law [OF _ that] assms(1) by (intro map_confI [OF e]) (auto simp: env_ok_def)
  then show ?thesis using True D(4-6) by (cases ?r) (auto simp: upb_Decoder_CreateMap_def)
next
  case False
  with assms(3) have m: "map_conf (dec_tables C) P B ss f c" by simp
  then show ?thesis using map_confD(1) [OF e m] by (cases c) (auto simp: map_ok_def)
qed

section \<open>Map fields\<close>

lemma store_map:
  assumes f: "upb_MiniTableField_IsMap f" "presence f = 0" and g: "grown (msg_set msg (offset f) mp) msg'" and mp: "map_conf T P B ss f mp"
    and "slots_ok msg"
  shows "store_post T P B ss f (None, msg) (None, msg')"
proof -
  let ?msg1 = "msg_set msg' (offset f) (msg_cell msg (offset f))"
  have mem: "msg_mem msg' = (msg_mem msg)(offset f := mp)" using g by (simp add: grown_def)
  have "grown msg ?msg1" using g mem by (auto simp: grown_def msg_cell_def)
  moreover have "stored f mp ?msg1 msg'" using f(2) mem by (auto simp: stored_def msg_cell_def)
  moreover have "\<not> upb_MiniTableField_IsArray f" using f(1) by (simp add: upb_MiniTableField_IsArray_def upb_MiniTableField_IsMap_def)
  then have "field_conf T P B ss f mp" using mp f(1) by (simp add: field_conf_def)
  ultimately show ?thesis using \<open>\<not> upb_MiniTableField_IsArray f\<close>
    by (auto simp: store_post_def om_grown_def intro!: exI [of _ ?msg1])
qed

lemma map_op:
  assumes "op_for f op wv" and "upb_MiniTableField_IsMap f" and "descriptortype f = kUpb_FieldType_Message"
  shows "op_sized f op"
proof -
  have "\<not> upb_MiniTableField_IsArray f" using assms(2) by (simp add: upb_MiniTableField_IsArray_def upb_MiniTableField_IsMap_def)
  with assms(1,3) show ?thesis
    by (cases op) (simp_all add: op_for_def op_sized_def upb_MiniTableField_IsSubMessage_def)
qed

context conf_decoder
begin

text \<open>The entry was parsed: it is kept as an unknown field or inserted.\<close>

lemma entry_stored:
  assumes f: "upb_MiniTableField_IsMap f" "presence f = 0" and e: "entry_of (dec_tables C) ss f i kf vf" and slots: "slots_ok msg"
    and mp: "map_conf (dec_tables C) (conf C n B) B ss f mp" and ent: "conf C (Suc j) (K + q') (Mt i) ent" and j: "j \<le> n" "Suc j \<le> input_rounds d"
    and B: "B < K + q'" "B < 2 ^ 29" and at: "dec_at I lim d p q'" and "q \<le> q'"
  shows "safe (if upb_Message_HasUnknown ent then
       let tag = push_bit 3 (of_nat (number f)) OR kUpb_WireType_Delimited in
       bindR (upb_Decoder_EncodeEntry C ent (dec_tables C ! i) d) (\<lambda>(buf, d4).
       bindR (decoder_add_unknown_v C (msg_set msg (offset f) mp)
           [upb_Decoder_EncodeVarint32 tag @ upb_Decoder_EncodeVarint32 (of_nat (length buf)), buf] d4) (\<lambda>(msg', d5).
         Ret ((p, None, msg'), d5)))
     else
       bindR (pure (upb_Map_Insert (dec_malloc C) mp (msg_cell ent map_entry_k) (msg_cell ent map_entry_v) (dec_arena d)))
         (\<lambda>(status, mp', a).
           if status = kUpb_MapInsertStatus_OutOfMemory then Raise kUpb_DecodeStatus_OutOfMemory
           else Ret ((p, None, msg_set msg (offset f) mp'), d\<lparr>dec_arena := a\<rparr>))) (store_res C n I lim K q ss f (None, msg))"
proof (cases "upb_Message_HasUnknown ent")
  case True
  let ?tag = "push_bit 3 (of_nat (number f)) OR kUpb_WireType_Delimited"
  have mp': "map_conf (dec_tables C) (conf C n (K + q')) (K + q') ss f mp" using e mp by (rule map_conf_mono) (use B(1) conf_le [of B "K + q'" C n] in simp_all)
  have "safe (bindR (upb_Decoder_EncodeEntry C ent (dec_tables C ! i) d) (\<lambda>(buf, d4).
       bindR (decoder_add_unknown_v C (msg_set msg (offset f) mp)
           [upb_Decoder_EncodeVarint32 ?tag @ upb_Decoder_EncodeVarint32 (of_nat (length buf)), buf] d4) (\<lambda>(msg', d5).
         Ret ((p, None, msg'), d5)))) (store_res C n I lim K q ss f (None, msg))"
  proof (rule safe_bind [OF encode_entry_safe [OF env ent entry_ofD(13) [OF e] j(2)]], clarify)
    fix buf d4 assume d4: "arena_step d d4"
    show "safe (bindR (decoder_add_unknown_v C (msg_set msg (offset f) mp)
           [upb_Decoder_EncodeVarint32 ?tag @ upb_Decoder_EncodeVarint32 (of_nat (length buf)), buf] d4) (\<lambda>(msg', d5).
         Ret ((p, None, msg'), d5))) (store_res C n I lim K q ss f (None, msg))"
    proof (rule safe_bind [OF add_unknown_v_safe], use slots in simp, simp, clarify, unfold safe_simps)
      fix msg' d5 assume g: "grown (msg_set msg (offset f) mp) msg'" and d5: "arena_step d4 d5"
      have "dec_at I lim d5 p q'" by (rule dec_at_step [OF arena_step_trans [OF d4 d5] at])
      then show "store_res C n I lim K q ss f (None, msg) ((p, None, msg'), d5)"
        using store_map [OF f g mp' slots] assms(12) by (auto simp: store_res_def)
    qed
  qed
  with True show ?thesis by (simp add: Let_def)
next
  case False
  note cells = entry_cells [OF e ent]
  have v: "value_conf (conf C n (K + q')) (subs (dec_tables C ! i)) vf (msg_cell ent 32)"
    using cells(2) by (rule value_conf_mono) (auto intro: conf_mono j(1))
  obtain st mp' a' where r: "upb_Map_Insert (dec_malloc C) mp (msg_cell ent 16) (msg_cell ent 32) (dec_arena d) = Ret (st, mp', a')"
    "map_conf (dec_tables C) (conf C n (K + q')) (K + q') ss f mp'"
    using insert_entry [OF e mp cells(1) v _ B] conf_le [of B "K + q'" C n] B(1) by (metis less_imp_le)
  have "grown (msg_set msg (offset f) mp') (msg_set msg (offset f) mp')" by (rule grown_refl) (use slots in simp)
  from store_map [OF f this r(2) slots] at assms(12)
  have "store_res C n I lim K q ss f (None, msg) ((p, None, msg_set msg (offset f) mp'), d\<lparr>dec_arena := a'\<rparr>)"
    by (auto simp: store_res_def)
  with r(1) False show ?thesis by (simp add: pure_def)
qed

text \<open>An entry of at most \<open>n\<close> bytes is parsed into a new message.\<close>

lemma entry_parsed:
  assumes e: "entry_of (dec_tables C) ss f i kf vf" and at: "dec_at I lim d ptr q" and "int (q + sz) \<le> lim" and "int sz < int (Suc (Suc j))"
    and "Suc (Suc j) \<le> n" and "K + length I < 2 ^ 29"
    and rest: "\<And>p ent d'. dec_at I lim d' p (q + sz) \<Longrightarrow> conf C (Suc (Suc j)) (K + (q + sz)) (Mt i) ent \<Longrightarrow> safe (k p ent d') Q"
  shows "safe (bindR (new_map_entry C (dec_tables C ! i) vf d) (\<lambda>(ent, d2).
      bindR (upb_Decoder_DecodeSubMessage dec d2 ptr ent ss f sz) (\<lambda>((p, ent'), d3). k p ent' d3))) Q"
proof (rule safe_bind [OF new_entry_safe [OF e, of d j "K + q"]], clarify)
  fix ent d2 assume d2: "arena_step d d2" and ent: "conf C (Suc (Suc j)) (K + q) (Mt i) ent"
  show "safe (bindR (upb_Decoder_DecodeSubMessage dec d2 ptr ent ss f sz) (\<lambda>((p, ent'), d3). k p ent' d3)) Q"
    by (rule safe_bind [OF submessage_safe [OF _ assms(5) dec_at_step [OF d2 at] assms(3,4,6) entry_ofD(1) [OF e] ent]], simp, clarify)
      (rule rest)
qed

lemma to_map_safe:
  assumes at: "field_at n I lim K B d ptr q f op wv" and f: "upb_MiniTableField_IsMap f" "presence f = 0"
    and t: "descriptortype f = kUpb_FieldType_Message" "\<not> upb_MiniTableField_IsAlternate f"
    and e: "entry_of (dec_tables C) ss f i kf vf" and slots: "slots_ok msg"
    and cell: "field_conf (dec_tables C) (conf C n B) B ss f (msg_cell msg (offset f))"
  shows "safe (upb_Decoder_DecodeToMap C dec d ptr None msg ss f wv) (store_res C n I lim K q ss f (None, msg))"
proof -
  note D = entry_ofD [OF e]
  have a: "dec_at I lim d ptr q" "B < K + q" "B < 2 ^ 29" "K + length I < 2 ^ 29" "int (q + wv_size wv) \<le> lim" "lim - int q < int n - 1"
    using at map_op [OF _ f(1) t(1), of op wv] by (auto simp: field_at_def)
  have lim: "lim \<le> int (length I)" using stream_atD(6) [OF dec_atD(1) [OF a(1)]] .
  have "Suc (Suc (sz - 1)) \<le> n \<and> int sz < int (Suc (Suc (sz - 1))) \<and> Suc (Suc (sz - 1)) \<le> length I + 2" if "int (q + sz) \<le> lim" for sz
    using that a(6) lim by auto
  then obtain j where j: "Suc (Suc j) \<le> n" "int (wv_size wv) < int (Suc (Suc j))" "Suc (Suc j) \<le> length I + 2" using a(5) by blast
  have "\<not> upb_MiniTableField_IsArray f" using f(1) by (simp add: upb_MiniTableField_IsArray_def upb_MiniTableField_IsMap_def)
  then have c: "msg_cell msg (offset f) = Zero \<or> map_conf (dec_tables C) (conf C n B) B ss f (msg_cell msg (offset f))"
    using cell f(1) by (simp add: field_conf_def)
  have type: "pure (upb_MiniTableField_Type f) = Ret kUpb_FieldType_Message" using t by (simp add: upb_MiniTableField_Type_def pure_def)
  have guard: "\<not> (kUpb_FieldType_Message \<noteq> kUpb_FieldType_Message \<or> field_count (dec_tables C ! i) \<noteq> 2
    \<or> \<not> upb_MiniTableField_IsScalar kf \<or> \<not> upb_MiniTableField_IsScalar vf)" using D(9,10,12) by simp
  have rds: "rd (mt_fields (dec_tables C ! i)) 0 = (Ret kf :: (upb_DecodeStatus, _) res)" "rd (mt_fields (dec_tables C ! i)) 1 = (Ret vf :: (upb_DecodeStatus, _) res)"
    using D(4) by simp_all
  show ?thesis
    unfolding upb_Decoder_DecodeToMap_def type D(1) D(13) rds bindR.simps if_not_P [OF guard]
  proof (rule safe_bind [OF map_for_store [OF env e c]], goal_cases)
    case (1 v)
    then obtain mp d1 where v: "v = (mp, d1)" and d1: "arena_step d d1" and mp: "map_conf (dec_tables C) (conf C n B) B ss f mp" by (cases v) auto
    show ?case unfolding v prod.case
    proof (rule entry_parsed [OF e dec_at_step [OF d1 a(1)] a(5) j(2,1) a(4)], goal_cases)
      case (1 p ent d3)
      have rounds: "Suc (Suc j) \<le> input_rounds d3" using stream_atD(2) [OF dec_atD(1) [OF 1(1)]] j(3) by (simp add: input_rounds_def)
      show ?case by (rule entry_stored [OF f e slots mp 1(2) _ rounds _ a(3) 1(1)]) (use a(2) j(1) in simp_all)
    qed
  qed
qed

end

end
