(* ===== verification/Decode_Step.thy ===== *)
theory Decode_Step
  imports Decode_Map
begin

unbundle bit_operations_syntax

text \<open>
  One field of a message: the field or the extension is found, its value is read and stored, or it is
  kept as an unknown field. The message conforms after each field.
\<close>

section \<open>Known fields\<close>

lemma ext_cell [simp]: "msg_cell (ext_msg_val c) 0 = c"
  by (simp add: ext_msg_val_def msg_cell_def)

lemma ext_fieldD:
  assumes "ext_wf T x"
  shows "upb_MiniTableField_IsExtension (ext_field x)" "offset (ext_field x) = 0" "presence (ext_field x) = 0"
    "upb_MiniTableField_IsScalar (ext_field x) \<or> upb_MiniTableField_IsArray (ext_field x)"
  using assms by (auto simp: ext_wf_def Let_def)

lemma ext_store_pre:
  assumes "ext_wf T x" and "value_conf P ss (ext_field x) c"
  shows "store_pre P ss (ext_field x) (ext_msg_val c)"
  using assms(2) ext_fieldD(2,3) [OF assms(1)] by (simp add: store_pre_def presence_conf_def)

lemma map_not_alternate: "field_wf m f \<Longrightarrow> upb_MiniTableField_IsMap f \<Longrightarrow> \<not> upb_MiniTableField_IsAlternate f"
  by (auto simp: field_wf_def)

text \<open>The value in the slot of an extension is seen as a message with one field.\<close>

lemma slot_value:
  assumes "slot_for C P B r is_set x i c xs"
  shows "rd xs i = (Ret (AuxExt x c) :: ('e, _) res)" "c = Zero \<or> ext_conf (dec_tables C) P B is_set x c"
  using assms by (auto simp: slot_for_def)

text \<open>What a store leaves in the slot of an extension.\<close>

lemma extension_stored:
  assumes x: "ext_wf T x" and post: "store_post T P B (ext_subs x) (ext_field x) (Some msg, ext_msg_val c) (orig, em)"
    and c: "c = Zero \<or> ext_conf T P B False x c"
  shows "\<exists>msg2. orig = Some msg2 \<and> grown msg msg2 \<and> ext_conf T P B False x (msg_cell em 0)"
proof -
  note F = ext_fieldD [OF x]
  obtain msg2 where g: "orig = Some msg2" "grown msg msg2"
    and v: "em = ext_msg_val c \<and> upb_MiniTableField_IsScalar (ext_field x)
      \<or> (\<exists>c'. stored (ext_field x) c' (ext_msg_val c) em \<and> field_conf T P B (ext_subs x) (ext_field x) c' \<and> (upb_MiniTableField_IsArray (ext_field x) \<longrightarrow> c' \<noteq> Zero))"
    using post by (auto simp: store_post_def om_grown_def)
  from v have "ext_conf T P B False x (msg_cell em 0)"
  proof (elim disjE conjE exE)
    assume em: "em = ext_msg_val c" and s: "upb_MiniTableField_IsScalar (ext_field x)"
    have "\<not> upb_MiniTableField_IsArray (ext_field x)" using s by (simp add: upb_MiniTableField_IsScalar_def upb_MiniTableField_IsArray_def)
    with c x em show ?thesis by (auto simp: ext_conf_def scalar_field_conf [OF s] value_conf_def plain_conf_def)
  next
    fix c' assume st: "stored (ext_field x) c' (ext_msg_val c) em" "field_conf T P B (ext_subs x) (ext_field x) c'"
      "upb_MiniTableField_IsArray (ext_field x) \<longrightarrow> c' \<noteq> Zero"
    have "msg_cell em 0 = c'" using stored_cell [OF st(1)] F(2) by simp
    with st(2,3) x show ?thesis by (simp add: ext_conf_def)
  qed
  with g show ?thesis by blast
qed

definition step_post ::
  "'a dec_env \<Rightarrow> nat \<Rightarrow> bytes \<Rightarrow> int \<Rightarrow> nat \<Rightarrow> nat \<Rightarrow> mt_ref \<Rightarrow> upb_MiniTable \<Rightarrow> (nat \<times> upb_Message) \<times> 'a upb_Decoder \<Rightarrow> bool" where
  "step_post C n I lim K q r m = (\<lambda>((p, msg'), d'). \<exists>q'. q \<le> q' \<and> dec_at I lim d' p q'
     \<and> level_conf C (conf C n (K + q')) (K + q') r m msg')"

context conf_decoder
begin

lemma to_field_safe:
  assumes at: "field_at n I lim K B d ptr q f op wv" and m: "table_ok (dec_tables C) m" and f: "f \<in> set (mt_fields m)"
    and lev: "level_conf C (conf C n B) B r m msg"
  shows "safe (decode_to_field C dec d ptr None msg (subs m) f wv op) (store_res C n I lim K q (subs m) f (None, msg))"
proof -
  have wf: "field_wf m f" using table_field(1) [OF m f] .
  have slots: "slots_ok msg" and mem: "mem_conf (dec_tables C) (conf C n B) B m msg" using lev by (simp_all add: level_conf_def)
  have no_ext: "upb_MiniTableField_IsExtension f \<longleftrightarrow> None \<noteq> (None :: upb_Message option)" using wf by (simp add: field_wf_def)
  have om: "om_slots (None, msg)" using slots by (simp add: om_slots_def)
  note link = field_linked [OF m f]
  have cell: "field_conf (dec_tables C) (conf C n B) B (subs m) f (msg_cell msg (offset f))" if "presence f = 0"
    using mem f that by (simp add: mem_conf_def active_def)
  consider (array) "upb_MiniTableField_IsArray f" "presence f = 0" | (map) "upb_MiniTableField_IsMap f" "presence f = 0" | (scalar) "upb_MiniTableField_IsScalar f"
    using wf by (auto simp: field_wf_def split: if_splits)
  then show ?thesis
  proof cases
    case array
    with to_array_safe [OF at array no_ext om link cell] show ?thesis by (simp add: decode_to_field_def upb_MiniTableField_IsArray_def)
  next
    case map
    obtain i kf vf where e: "entry_of (dec_tables C) (subs m) f i kf vf" using entry_of_field [OF env m f map(1)] by blast
    have t: "descriptortype f = kUpb_FieldType_Message" using wf map(1) by (simp add: field_wf_def)
    from to_map_safe [OF at map t map_not_alternate [OF wf map(1)] e slots cell] map show ?thesis
      by (simp add: decode_to_field_def upb_MiniTableField_IsMap_def)
  next
    case scalar
    from to_sub_message_safe [OF at scalar link no_ext om store_pre_field [OF m f lev scalar]] scalar show ?thesis
      by (simp add: decode_to_field_def upb_MiniTableField_IsScalar_def)
  qed
qed

lemma known_field_safe:
  assumes at: "field_at n I lim K B d ptr q f op wv" and m: "table_ok (dec_tables C) m" and f: "f \<in> set (mt_fields m)"
    and lev: "level_conf C (conf C n B) B r m msg"
  shows "safe (upb_Decoder_DecodeKnownField C dec d ptr msg m (FieldKnown f) op wv) (step_post C n I lim K q r m)"
proof -
  have B: "B < K + q" using at by (simp add: field_at_def)
  have "\<not> upb_MiniTableField_IsExtension f" using table_field(1) [OF m f] by (simp add: field_wf_def)
  moreover have "safe (bindR (decode_to_field C dec d ptr None msg (subs m) f wv op) (\<lambda>((p, _, msg'), d'). Ret ((p, msg'), d'))) (step_post C n I lim K q r m)"
  proof (rule safe_bind [OF to_field_safe [OF at m f lev]], goal_cases)
    case (1 v)
    then obtain p orig' msg' d' q' where v: "v = ((p, orig', msg'), d')" "q \<le> q'" "dec_at I lim d' p q'"
      "store_post (dec_tables C) (conf C n (K + q')) (K + q') (subs m) f (None, msg) (orig', msg')" by (cases v) (auto simp: store_res_def)
    have "B \<le> K + q'" using B v(2) by simp
    from level_store_post [OF m f lev this conf_le [OF this] v(4)] v(2,3) show ?case unfolding v(1) by (auto simp: step_post_def)
  qed
  ultimately show ?thesis by (simp add: upb_Decoder_DecodeKnownField_def)
qed

lemma to_extension_field_safe:
  assumes at: "field_at n I lim K B d ptr q (ext_field x) op wv" and x: "ext_wf (dec_tables C) x" and slots: "slots_ok msg"
    and c: "c = Zero \<or> ext_conf (dec_tables C) (conf C n B) B False x c"
  shows "safe (decode_to_field C dec d ptr (Some msg) (ext_msg_val c) (ext_subs x) (ext_field x) wv op)
    (store_res C n I lim K q (ext_subs x) (ext_field x) (Some msg, ext_msg_val c))"
proof -
  note F = ext_fieldD [OF x]
  have om: "om_slots (Some msg, ext_msg_val c)" using slots by (simp add: om_slots_def)
  note link = ext_linked [OF x]
  have ext: "upb_MiniTableField_IsExtension (ext_field x) \<longleftrightarrow> Some msg \<noteq> None" using F(1) by simp
  from F(4) show ?thesis
  proof
    assume s: "upb_MiniTableField_IsScalar (ext_field x)"
    then have "value_conf (conf C n B) (ext_subs x) (ext_field x) c"
      using c scalar_field_conf [OF s] by (auto simp: ext_conf_def value_conf_def plain_conf_def)
    from to_sub_message_safe [OF at s link ext om ext_store_pre [OF x this]] s show ?thesis
      by (simp add: decode_to_field_def upb_MiniTableField_IsScalar_def)
  next
    assume a: "upb_MiniTableField_IsArray (ext_field x)"
    then have "field_conf (dec_tables C) (conf C n B) B (ext_subs x) (ext_field x) (msg_cell (ext_msg_val c) (offset (ext_field x)))"
      using c F(2) by (auto simp: ext_conf_def field_conf_def)
    from to_array_safe [OF at a F(3) ext om link this] a show ?thesis
      by (simp add: decode_to_field_def upb_MiniTableField_IsArray_def)
  qed
qed

lemma extension_safe:
  assumes at: "field_at n I lim K B d ptr q (ext_field x) op wv" and lev: "level_conf C (conf C n B) B r m msg"
    and m: "ext m \<noteq> kUpb_ExtMode_IsMessageSet" and reg: "dec_extreg C = Some g"
    and x: "extreg_map g (extreg_key r (upb_MiniTableExtension_Number x)) = Some x" and wf: "ext_wf (dec_tables C) x"
  shows "safe (decode_to_extension C dec d ptr msg x wv op) (step_post C n I lim K q r m)"
  unfolding decode_to_extension_def
proof (rule safe_bind [OF get_extension_safe [OF lev reg x]], goal_cases)
  case (1 v)
  then obtain i msg1 d1 c where v: "v = ((i, msg1), d1)" and d1: "arena_step d d1" and slots: "slots_ok msg1" and mem: "msg_mem msg1 = msg_mem msg"
    and slot: "slot_for C (conf C n B) B r False x i c (msg_aux msg1)" using m by auto
  have at1: "field_at n I lim K B d1 ptr q (ext_field x) op wv" using at dec_at_step [OF d1] by (auto simp: field_at_def)
  have B: "B < K + q" using at by (simp add: field_at_def)
  note sv = slot_value [OF slot]
  have "safe (bindR (decode_to_field C dec d1 ptr (Some msg1) (ext_msg_val c) (ext_subs x) (ext_field x) wv op) (\<lambda>((p, orig, em), d2).
      case orig of None \<Rightarrow> Fault | Some msg2 \<Rightarrow> Ret ((p, msg_set_aux msg2 i (AuxExt x (msg_cell em 0))), d2))) (step_post C n I lim K q r m)"
  proof (rule safe_bind [OF to_extension_field_safe [OF at1 wf slots sv(2)]], goal_cases)
    case (1 w)
    then obtain p orig em d2 q' where w: "w = ((p, orig, em), d2)" "q \<le> q'" "dec_at I lim d2 p q'"
      "store_post (dec_tables C) (conf C n (K + q')) (K + q') (ext_subs x) (ext_field x) (Some msg1, ext_msg_val c) (orig, em)"
      by (cases w) (auto simp: store_res_def)
    have B': "B \<le> K + q'" "conf C n B \<le> conf C n (K + q')" using B w(2) conf_le [of B "K + q'" C n] by simp_all
    have "c = Zero \<or> ext_conf (dec_tables C) (conf C n (K + q')) (K + q') False x c" using sv(2) ext_conf_mono [OF _ B'] by blast
    from extension_stored [OF wf w(4) this] obtain msg2 where o: "orig = Some msg2" "grown msg1 msg2"
      "ext_conf (dec_tables C) (conf C n (K + q')) (K + q') False x (msg_cell em 0)" by blast
    let ?msg = "msg_set_aux msg2 i (AuxExt x (msg_cell em 0))"
    obtain us where us: "msg_aux msg2 = msg_aux msg1 @ map AuxUnknown us" "slots_ok msg2" "msg_mem msg2 = msg_mem msg1"
      using o(2) by (auto simp: grown_def)
    have "aux_conf C (conf C n (K + q')) (K + q') r False (msg_aux ?msg)"
      using slot_replaced [OF slot B' o(3), of us] us(1) by (simp add: msg_set_aux_def)
    moreover have "mem_conf (dec_tables C) (conf C n (K + q')) (K + q') m ?msg"
      using level_conf_mono [OF lev B'] us(3) mem
      by (simp add: level_conf_def mem_conf_def msg_set_aux_def msg_cell_def presence_conf_def active_def)
    ultimately have "level_conf C (conf C n (K + q')) (K + q') r m ?msg"
      using us(2) m by (simp add: level_conf_def slots_ok_def msg_set_aux_def)
    with w(2,3) show ?case unfolding w(1) o(1) by (auto simp: step_post_def)
  qed
  then show ?case unfolding v by (simp add: sv(1))
qed

end

lemma level_later: "level_conf C (conf C n B) B r m msg \<Longrightarrow> B \<le> B' \<Longrightarrow> level_conf C (conf C n B') B' r m msg"
  by (rule level_conf_mono) (auto intro: conf_mono)

lemma step_post_later: "step_post C n I lim K q' r m v \<Longrightarrow> q \<le> q' \<Longrightarrow> step_post C n I lim K q r m v"
  by (auto simp: step_post_def split: prod.splits) (meson order_trans)

section \<open>Tags and skipped fields\<close>

lemma tag_read:
  assumes at: "stream_at I lim e p q" and "ready e p"
    and rest: "\<And>p1 tag q'. upb_Decoder_DecodeTag (eps_buf e) p = Ret (p1, tag) \<Longrightarrow> q < q' \<Longrightarrow> stream_at I lim e p1 q' \<Longrightarrow> p1 + 10 \<le> length (eps_buf e)
      \<Longrightarrow> 0 < p1 \<Longrightarrow> unat (eps_buf e ! (p1 - 1)) < 128 \<Longrightarrow> safe (k p1 tag) Q"
  shows "safe (bindR (upb_Decoder_DecodeTag (eps_buf e) p) (\<lambda>(p1, tag). k p1 tag)) Q"
proof -
  have room: "p + 16 \<le> length (eps_buf e)" by (rule ready_room [OF assms(1,2)])
  then have "p + 10 \<le> length (eps_buf e)" by simp
  from DecodeTag_at [OF this] show ?thesis
  proof (rule safe_bind, goal_cases)
    case (1 v)
    then obtain p1 tag where v: "v = (p1, tag)" "upb_Decoder_DecodeTag (eps_buf e) p = Ret (p1, tag)" "p < p1" "p1 \<le> p + 5" "unat (eps_buf e ! (p1 - 1)) < 128"
      by (cases v) auto
    have "stream_at I lim e (p + (p1 - p)) (q + (p1 - p))" by (rule stream_at_move [OF at]) (use v(3,4) room in simp)
    then show ?case unfolding v(1) prod.case using v(3,4) room by (intro rest [OF v(2), of "q + (p1 - p)"]) (use v(5) in simp_all)
  qed
qed

context conf_decoder
begin

lemma skip_field_safe:
  assumes "0 < n" and at: "dec_at I lim d ptr q" and "lim - int q < int n" and "length I < 2 ^ 29" and room: "ptr + 10 \<le> length (eps_buf (dec_input d))"
  shows "safe (upb_Decoder_SkipField dec d ptr tag) (\<lambda>(p, d'). \<exists>q'. q \<le> q' \<and> dec_at I lim d' p q')"
proof -
  let ?w = "tag AND 7"
  let ?post = "\<lambda>(p, d' :: 'a upb_Decoder). \<exists>q'. q \<le> q' \<and> dec_at I lim d' p q'"
  have move: "?post (ptr + m, d)" if "m \<le> 10" for m
    using dec_at_move [OF at, of m] that room by (auto intro: exI [of _ "q + m"])
  have varint: "safe (bindR (upb_Decoder_DecodeVarint (eps_buf (dec_input d)) ptr) (\<lambda>(p, _). Ret (p, d))) ?post"
  proof (rule safe_bind [OF DecodeVarint_at [OF room]], clarify, unfold safe_simps)
    fix p and w :: u64 assume "ptr < p" "p \<le> ptr + 10"
    with move [of "p - ptr"] show "?post (p, d)" by simp
  qed
  have sized: "safe (bindR (upb_Decoder_DecodeSize d ptr) (\<lambda>(p, size'). Ret (p + unat size', d))) ?post"
  proof (rule safe_bind [OF DecodeSize_at [OF dec_atD(1) [OF at] room]], clarify, unfold safe_simps)
    fix p and size' :: u32 assume p: "ptr < p" "p \<le> ptr + 10" "int (q + (p - ptr) + unat size') \<le> lim"
    have "dec_at I lim d (ptr + (p - ptr)) (q + (p - ptr))" by (rule dec_at_move [OF at]) (use p(1,2) room in simp)
    from dec_at_skip [OF this p(3)] p(1) show "?post (p + unat size', d)" by (auto intro!: exI [of _ "q + (p - ptr) + unat size'"])
  qed
  have group: "safe (upb_Decoder_DecodeUnknownGroup dec d ptr (drop_bit 3 tag)) ?post"
    by (rule unknown_group_safe [OF assms(1) order_refl at assms(3,4)])
  show ?thesis unfolding upb_Decoder_SkipField_def Let_def using varint sized group move [of 8] move [of 4] by auto
qed

end

section \<open>Message sets\<close>

lemma le_bytes_bit: "i < 8 * n \<Longrightarrow> bit (le_bytes n w ! (i div 8)) (i mod 8) = bit w i"
proof (induction n arbitrary: w i)
  case (Suc n)
  show ?case
  proof (cases "i < 8")
    case False
    then obtain k where k: "i = k + 8" using le_Suc_ex [of 8 i] by (auto simp: ac_simps)
    with Suc.prems have "bit (le_bytes n (drop_bit 8 w) ! (k div 8)) (k mod 8) = bit (drop_bit 8 w) k" by (intro Suc.IH) simp
    moreover have "(k + 8) div 8 = Suc (k div 8)" "(k + 8) mod 8 = k mod 8" by simp_all
    ultimately show ?thesis unfolding k by (simp add: bit_simps ac_simps)
  qed (simp add: bit_simps)
qed simp

lemma le_bytes4_inj:
  assumes eq: "le_bytes 4 (ucast (a :: u32)) = le_bytes 4 (ucast b)"
  shows "a = b"
proof (rule bit_word_eqI)
  fix i assume "i < LENGTH(32)"
  then have "bit (le_bytes 4 (ucast w) ! (i div 8)) (i mod 8) = bit (ucast w :: u64) i" for w :: u32 by (intro le_bytes_bit) simp
  with eq have "bit (ucast a :: u64) i = bit (ucast b :: u64) i" by metis
  with \<open>i < LENGTH(32)\<close> show "bit a i = bit b i" by (simp add: bit_simps)
qed

lemma extension_number:
  assumes "extreg_ok g" and "extreg_map g (extreg_key r num) = Some x"
  shows "upb_MiniTableExtension_Number x = num"
proof -
  have "ext_key x = extreg_key r num" using assms by (auto simp: extreg_ok_def extreg_map_def)
  then have "le_bytes 4 (ucast (upb_MiniTableExtension_Number x)) = le_bytes 4 (ucast num)" by (simp add: ext_key_def extreg_key_def)
  then show ?thesis by (rule le_bytes4_inj)
qed

lemma registered:
  assumes "env_ok C" and "dec_extreg C = Some g"
  shows "extreg_lookup C r num = Ret (extreg_map g (extreg_key r num))"
    and "extreg_map g (extreg_key r num) = Some x \<Longrightarrow> ext_wf (dec_tables C) x \<and> extreg_map g (extreg_key r (upb_MiniTableExtension_Number x)) = Some x"
proof -
  have g: "extreg_ok g" "\<And>k x. extreg_map g k = Some x \<Longrightarrow> ext_wf (dec_tables C) x"
    using assms by (auto simp: env_ok_def registry_ok_def)
  show "extreg_lookup C r num = Ret (extreg_map g (extreg_key r num))"
    using extreg_lookup_law [OF g(1)] assms(2) by (simp add: extreg_lookup_def pure_def)
  show "extreg_map g (extreg_key r num) = Some x \<Longrightarrow> ext_wf (dec_tables C) x \<and> extreg_map g (extreg_key r (upb_MiniTableExtension_Number x)) = Some x"
    using g(2) extension_number [OF g(1)] by metis
qed

lemma message_set_item:
  assumes "env_ok C" and "dec_extreg C = Some g" and "mini_table_of (dec_tables C) r = (Ret m :: (upb_DecodeStatus, _) res)"
    and "ext m = kUpb_ExtMode_IsMessageSet" and "extreg_map g (extreg_key r num) = Some x"
  shows "upb_MiniTableField_IsScalar (ext_field x)" "upb_MiniTableField_IsSubMessage (ext_field x)"
    "\<exists>i < length (dec_tables C). ext_sub x = Some (Submsg (Mt i))"
proof -
  obtain i where i: "r = Mt i" "i < length (dec_tables C)" "dec_tables C ! i = m"
    using assms(3,4) by (cases r) (auto simp: mini_table_of_def kUpb_MiniTable_Empty_def rd_def split: if_splits)
  with assms show s: "upb_MiniTableField_IsScalar (ext_field x)" "upb_MiniTableField_IsSubMessage (ext_field x)"
    by (auto simp: env_ok_def registry_ok_def)
  have "ext_wf (dec_tables C) x" using registered(2) [OF assms(1,2,5)] by blast
  with s(2) show "\<exists>i < length (dec_tables C). ext_sub x = Some (Submsg (Mt i))" by (auto simp: ext_wf_def Let_def)
qed

text \<open>The payload that was seen: it is part of the input before the position, and shorter than \<open>n\<close>.\<close>

definition payload_ok :: "nat \<Rightarrow> nat \<Rightarrow> bytes option \<Rightarrow> bool" where
  "payload_ok n q payload = (case payload of None \<Rightarrow> True | Some data \<Rightarrow> length data \<le> q \<and> length data < n \<and> length data < 2 ^ 29)"

lemma payload_later: "payload_ok n q payload \<Longrightarrow> q \<le> q' \<Longrightarrow> payload_ok n q' payload"
  by (auto simp: payload_ok_def split: option.splits)

context conf_decoder
begin

lemma set_item_safe:
  assumes lev: "level_conf C (conf C n B) B r m msg" and r: "mini_table_of (dec_tables C) r = (Ret m :: (upb_DecodeStatus, _) res)"
    and m: "ext m = kUpb_ExtMode_IsMessageSet" and reg: "dec_extreg C \<noteq> None" and n: "0 < n" "length data < n"
    and B: "length data \<le> B" "length data < 2 ^ 29"
  shows "safe (upb_Decoder_AddMessageSetItem C dec msg r type_id data d) (\<lambda>(msg', d'). arena_step d d' \<and> level_conf C (conf C n B) B r m msg')"
proof -
  obtain g where g: "dec_extreg C = Some g" using reg by auto
  note look = registered(1) [OF env g, of r type_id]
  show ?thesis
  proof (cases "extreg_map g (extreg_key r type_id)")
    case None
    have "slots_ok msg" using lev by (simp add: level_conf_def)
    then have "safe (upb_Decoder_AddUnknownMessageSetItem C msg type_id data d) (\<lambda>(msg', d'). arena_step d d' \<and> level_conf C (conf C n B) B r m msg')"
      unfolding upb_Decoder_AddUnknownMessageSetItem_def
      by (intro safe_mono [OF add_unknown_v_safe]) (auto intro: level_grown [OF lev])
    with look None show ?thesis by (simp add: upb_Decoder_AddMessageSetItem_def)
  next
    case (Some x)
    have x: "ext_wf (dec_tables C) x" "extreg_map g (extreg_key r (upb_MiniTableExtension_Number x)) = Some x" using registered(2) [OF env g Some] by simp_all
    note item = message_set_item [OF env g r m Some]
    obtain i where i: "i < length (dec_tables C)" "ext_sub x = Some (Submsg (Mt i))" using item(3) by blast
    obtain mi where mi: "mini_table_of (dec_tables C) (Mt i) = (Ret mi :: (upb_DecodeStatus, _) res)" using i(1) by (simp add: mini_table_of_def)
    obtain j where j: "n = Suc j" using n(1) by (cases n) auto
    have empty: "conf C n 0 (Mt i) empty_msg" unfolding j by (rule empty_conf [OF mi])
    have "safe (upb_Decoder_AddKnownMessageSetItem C dec msg x data d) (\<lambda>(msg', d'). arena_step d d' \<and> level_conf C (conf C n B) B r m msg')"
      unfolding upb_Decoder_AddKnownMessageSetItem_def
    proof (rule safe_bind [OF get_extension_safe [OF lev g x(2)]], goal_cases)
      case (1 v)
      then obtain s msg1 d1 c where v: "v = ((s, msg1), d1)" and d1: "arena_step d d1" and slots: "slots_ok msg1" and mem: "msg_mem msg1 = msg_mem msg"
        and slot: "slot_for C (conf C n B) B r True x s c (msg_aux msg1)" using m by auto
      have "safe (bindR (upb_Decoder_NewSubMessage2 C (Mt i) (ext_field x) d1) (\<lambda>((is_empty, submsg), d2).
          bindR (upb_Decoder_Nested C dec data (Mt i) submsg d2) (\<lambda>(submsg', d3).
            Ret (msg_set_aux msg1 s (AuxExt x (CellMsg is_empty submsg')), d3)))) (\<lambda>(msg', d'). arena_step d d' \<and> level_conf C (conf C n B) B r m msg')"
      proof (rule safe_bind [OF new_sub2_safe [OF mi]], simp, clarify)
        fix d2 assume d2: "arena_step d1 d2"
        show "safe (bindR (upb_Decoder_Nested C dec data (Mt i) empty_msg d2) (\<lambda>(submsg', d3).
            Ret (msg_set_aux msg1 s (AuxExt x (CellMsg (Mt i = MtEmpty) submsg')), d3))) (\<lambda>(msg', d'). arena_step d d' \<and> level_conf C (conf C n B) B r m msg')"
        proof (rule safe_bind [OF nested_safe [OF n(1) order_refl n(2) _ empty]], use B in simp, clarify, unfold safe_simps prod.case)
          fix sub d3 assume d3: "arena_step d2 d3" and sub: "conf C n (length data) (Mt i) sub"
          have "conf C n B (Mt i) sub" using sub order_refl B(1) by (rule conf_mono)
          then have "ext_conf (dec_tables C) (conf C n B) B True x (CellMsg False sub)" using x(1) item(1,2) i by (simp add: ext_conf_def)
          from slot_replaced [OF slot order_refl order_refl this, of "[]"]
          have "aux_conf C (conf C n B) B r True ((msg_aux msg1)[s := AuxExt x (CellMsg False sub)])" by simp
          then have "level_conf C (conf C n B) B r m (msg_set_aux msg1 s (AuxExt x (CellMsg False sub)))"
            using lev m slots mem by (simp add: level_conf_def slots_ok_def mem_conf_def msg_set_aux_def msg_cell_def presence_conf_def active_def)
          with arena_step_trans [OF d1 arena_step_trans [OF d2 d3]]
          show "arena_step d d3 \<and> level_conf C (conf C n B) B r m (msg_set_aux msg1 s (AuxExt x (CellMsg (Mt i = MtEmpty) sub)))" by simp
        qed
      qed
      then show ?case unfolding v using i(2) by simp
    qed
    with look Some show ?thesis by (simp add: upb_Decoder_AddMessageSetItem_def)
  qed
qed

text \<open>
  What the loop over an item does after a field of it: from a later position, with a payload seen before it, the
  rest of the item is safe. The cases of the loop are shown for any such continuation.
\<close>

definition item_rest ::
  "bytes \<Rightarrow> int \<Rightarrow> nat \<Rightarrow> nat \<Rightarrow> mt_ref \<Rightarrow> upb_MiniTable
     \<Rightarrow> (u32 option \<Rightarrow> bytes option \<Rightarrow> 'a upb_Decoder \<Rightarrow> nat \<Rightarrow> upb_Message \<Rightarrow> ('a, nat \<times> upb_Message) dec_res) \<Rightarrow> bool" where
  "item_rest I lim K q r m rest \<longleftrightarrow> (\<forall>tid pl d p q' msg. q < q' \<longrightarrow> dec_at I lim d p q' \<longrightarrow> payload_ok n q' pl
     \<longrightarrow> level_conf C (conf C n (K + q')) (K + q') r m msg \<longrightarrow> safe (rest tid pl d p msg) (step_post C n I lim K q r m))"

lemma item_restD:
  assumes "item_rest I lim K q r m rest" and "q < q'" and "dec_at I lim d p q'" and "payload_ok n q' pl"
    and "level_conf C (conf C n (K + q')) (K + q') r m msg"
  shows "safe (rest tid pl d p msg) (step_post C n I lim K q r m)"
  using assms unfolding item_rest_def by blast

lemma item_added_safe:
  assumes rest: "item_rest I lim K q r m rest" and r: "mini_table_of (dec_tables C) r = (Ret m :: (upb_DecodeStatus, _) res)"
    and m: "ext m = kUpb_ExtMode_IsMessageSet" and reg: "dec_extreg C \<noteq> None" and n: "0 < n"
    and q: "q < q'" and at: "dec_at I lim d p q'" and data: "payload_ok n q' (Some data)" and pl: "payload_ok n q' pl"
    and lev: "level_conf C (conf C n (K + q')) (K + q') r m msg"
  shows "safe (bindR (upb_Decoder_AddMessageSetItem C dec msg r tid data d) (\<lambda>(msg', d2). rest tid' pl d2 p msg')) (step_post C n I lim K q r m)"
proof -
  have D: "length data < n" "length data \<le> K + q'" "length data < 2 ^ 29" using data by (simp_all add: payload_ok_def)
  show ?thesis by (rule safe_bind [OF set_item_safe [OF lev r m reg n D]], clarify)
    (rule item_restD [OF rest q dec_at_step [OF _ at] pl])
qed

lemma item_type_id_safe:
  assumes rest: "item_rest I lim K q r m rest" and r: "mini_table_of (dec_tables C) r = (Ret m :: (upb_DecodeStatus, _) res)"
    and m: "ext m = kUpb_ExtMode_IsMessageSet" and reg: "dec_extreg C \<noteq> None" and n: "0 < n"
    and q: "q < q1" and at: "dec_at I lim d p q1" and room: "p + 10 \<le> length (eps_buf (dec_input d))"
    and pl: "payload_ok n q payload" and lev: "level_conf C (conf C n (K + q)) (K + q) r m msg"
  shows "safe (bindR (upb_Decoder_DecodeVarint (eps_buf (dec_input d)) p) (\<lambda>(p2, tmp).
       if \<not> Option.is_none type_id then rest type_id payload d p2 msg
       else case payload of
           None \<Rightarrow> rest (Some (ucast tmp)) payload d p2 msg
         | Some data \<Rightarrow>
             bindR (upb_Decoder_AddMessageSetItem C dec msg r (ucast tmp) data d) (\<lambda>(msg', d2).
               rest (Some (ucast tmp)) payload d2 p2 msg'))) (step_post C n I lim K q r m)"
proof (rule safe_bind [OF DecodeVarint_at [OF room]], goal_cases)
  case (1 w)
  then obtain p2 tmp where w: "w = (p2, tmp)" "p < p2" "p2 \<le> p + 10" by (cases w) auto
  let ?q = "q1 + (p2 - p)"
  have here: "dec_at I lim d p2 ?q" "q < ?q" using dec_at_move [OF at, of "p2 - p"] w room q by simp_all
  have st: "payload_ok n ?q payload" "level_conf C (conf C n (K + ?q)) (K + ?q) r m msg"
    using payload_later [OF pl] level_later [OF lev] here(2) by simp_all
  from item_restD [OF rest here(2,1) st] item_added_safe [OF rest r m reg n here(2,1) _ st] st(1) show ?case unfolding w(1)
    by (cases payload) (simp_all add: case_prod_unfold)
qed

lemma item_message_safe:
  assumes rest: "item_rest I lim K q r m rest" and r: "mini_table_of (dec_tables C) r = (Ret m :: (upb_DecodeStatus, _) res)"
    and m: "ext m = kUpb_ExtMode_IsMessageSet" and reg: "dec_extreg C \<noteq> None" and n: "0 < n" "lim - int q < int n" and small: "length I < 2 ^ 29"
    and q: "q < q1" and at: "dec_at I lim d p q1" and room: "p + 10 \<le> length (eps_buf (dec_input d))"
    and pl: "payload_ok n q payload" and lev: "level_conf C (conf C n (K + q)) (K + q) r m msg"
  shows "safe (bindR (upb_Decoder_DecodeSize d p) (\<lambda>(p2, size').
       if \<not> Option.is_none payload then rest type_id payload d (p2 + unat size') msg
       else bindR (rd_bytes (eps_buf (dec_input d)) p2 (unat size')) (\<lambda>data.
         case type_id of
           None \<Rightarrow> rest type_id (Some data) d (p2 + unat size') msg
         | Some i \<Rightarrow>
             bindR (upb_Decoder_AddMessageSetItem C dec msg r i data d) (\<lambda>(msg', d2).
               rest type_id (Some data) d2 (p2 + unat size') msg')))) (step_post C n I lim K q r m)"
proof (rule safe_bind [OF DecodeSize_at [OF dec_atD(1) [OF at] room]], goal_cases)
  case (1 w)
  then obtain p2 sz where w: "w = (p2, sz)" "p < p2" "p2 \<le> p + 10" "int (q1 + (p2 - p) + unat sz) \<le> lim" by (cases w) auto
  let ?q = "q1 + (p2 - p) + unat sz" and ?data = "take (unat sz) (drop (q1 + (p2 - p)) I)"
  have at2: "dec_at I lim d p2 (q1 + (p2 - p))" using dec_at_move [OF at, of "p2 - p"] w room by simp
  note data = rd_bytes_at(1) [OF dec_atD(1) [OF at2] w(4), where 'e = upb_DecodeStatus] rd_bytes_at(2) [OF dec_atD(1) [OF at2] w(4)]
  have here: "dec_at I lim d (p2 + unat sz) ?q" "q < ?q" using dec_at_skip [OF at2 w(4)] w(2) q by simp_all
  have st: "payload_ok n ?q payload" "level_conf C (conf C n (K + ?q)) (K + ?q) r m msg"
    using payload_later [OF pl] level_later [OF lev] here(2) by simp_all
  have "unat sz < n \<and> unat sz < 2 ^ 29" using w(4) n(2) stream_atD(6) [OF dec_atD(1) [OF at]] small q by linarith
  then have pl': "payload_ok n ?q (Some ?data)" unfolding payload_ok_def option.case data(2) by simp
  from item_restD [OF rest here(2,1) st] item_restD [OF rest here(2,1) pl' st(2)] item_added_safe [OF rest r m reg n(1) here(2,1) pl' pl' st(2)]
  show ?case unfolding w(1) prod.case data(1) bindR.simps by (cases type_id) (simp_all add: case_prod_unfold)
qed

lemma set_item_loop_safe:
  assumes r: "mini_table_of (dec_tables C) r = (Ret m :: (upb_DecodeStatus, _) res)"
    and m: "ext m = kUpb_ExtMode_IsMessageSet" and reg: "dec_extreg C \<noteq> None" and n: "0 < n" and small: "length I < 2 ^ 29"
  shows "dec_at I lim d ptr q \<Longrightarrow> 0 < rounds \<Longrightarrow> lim - int q < int rounds \<Longrightarrow> lim - int q < int n \<Longrightarrow> payload_ok n q payload
    \<Longrightarrow> level_conf C (conf C n (K + q)) (K + q) r m msg
    \<Longrightarrow> safe (message_set_item_loop rounds C dec r type_id payload d ptr msg) (step_post C n I lim K q r m)"
proof (induction rounds arbitrary: d ptr q type_id payload msg)
  case (Suc k)
  note at = Suc.prems(1) and lim = Suc.prems(3,4) and pl = Suc.prems(5) and lev = Suc.prems(6)
  show ?case unfolding message_set_item_loop.simps
  proof (rule safe_bind [OF IsDone_at [OF dec_atD(1) [OF at]]], goal_cases)
    case (1 v)
    then obtain is_done p e where v: "v = (is_done, p, e)" "stream_at I lim e p q" "\<not> is_done \<Longrightarrow> int q < lim \<and> ready e p" by (cases v) auto
    let ?d = "d\<lparr>dec_input := e\<rparr>" and ?rest = "message_set_item_loop k C dec r"
    show ?case
    proof (cases is_done)
      case False
      then have ready: "int q < lim" "ready e p" using v(3) by simp_all
      have rest: "item_rest I lim K q r m ?rest" unfolding item_rest_def
      proof (intro allI impI)
        fix tid pl and d :: "'a upb_Decoder" and p q' msg
        assume later: "q < q'" and a: "dec_at I lim d p q'" "payload_ok n q' pl" "level_conf C (conf C n (K + q')) (K + q') r m msg"
        have "0 < k" "lim - int q' < int k" "lim - int q' < int n" using lim ready(1) later by simp_all
        from Suc.IH [OF a(1) this a(2,3)] show "safe (?rest tid pl d p msg) (step_post C n I lim K q r m)"
          by (rule safe_mono) (erule step_post_later, use later in simp)
      qed
      show ?thesis unfolding v(1) prod.case Let_def if_not_P [OF False]
      proof (rule tag_read [OF v(2) ready(2)], goal_cases)
        case (1 p1 tag q1)
        have at1: "dec_at I lim ?d p1 q1" using dec_atD(2) [OF at] 1(3) by (rule dec_at_input)
        have room: "p1 + 10 \<le> length (eps_buf (dec_input ?d))" using 1(4) by simp
        have skip: "safe (upb_Decoder_SkipField dec ?d p1 tag) (\<lambda>(p, d'). \<exists>q'. q1 \<le> q' \<and> dec_at I lim d' p q')"
          using n at1 _ small room by (rule skip_field_safe) (use lim(2) 1(2) in simp)
        have other: "safe (bindR (upb_Decoder_SkipField dec ?d p1 tag) (\<lambda>(p2, d2). ?rest type_id payload d2 p2 msg)) (step_post C n I lim K q r m)"
        proof (rule safe_bind [OF skip], clarify)
          fix p2 and d2 :: "'a upb_Decoder" and q2 assume "q1 \<le> q2" "dec_at I lim d2 p2 q2"
          with 1(2) show "safe (?rest type_id payload d2 p2 msg) (step_post C n I lim K q r m)"
            by (intro item_restD [OF rest, of q2] payload_later [OF pl] level_later [OF lev]) simp_all
        qed
        have "level_conf C (conf C n (K + q1)) (K + q1) r m msg" using level_later [OF lev] 1(2) by simp
        then have "step_post C n I lim K q r m ((p1, msg), ?d)" using at1 1(2) by (auto simp: step_post_def intro!: exI [of _ q1])
        moreover have e: "dec_input ?d = e" by simp
        note item_type_id_safe [OF rest r m reg n 1(2) at1 room pl lev, of type_id]
          item_message_safe [OF rest r m reg n lim(2) small 1(2) at1 room pl lev, of type_id]
        ultimately show ?case using other unfolding e by simp
      qed
    qed (use v(1) in simp)
  qed
qed simp

end

end
