(* ===== verification/Decode_Message.thy ===== *)
theory Decode_Message
  imports Decode_Step
begin

unbundle bit_operations_syntax

text \<open>
  The loop of the decoder over the fields of a message, and the whole parse: by induction on the nesting,
  the decoder keeps the contract that its sub-decoder is assumed to have.
\<close>

section \<open>Finding a field\<close>

text \<open>What \<^verbatim>\<open>_upb_Decoder_FindField\<close> finds for a message of the type \<open>r\<close> with the table \<open>m\<close>.\<close>

definition found :: "'a dec_env \<Rightarrow> mt_ref \<Rightarrow> upb_MiniTable \<Rightarrow> found_field \<Rightarrow> bool" where
  "found C r m ff = (case ff of
       FieldNone \<Rightarrow> True
     | FieldItem \<Rightarrow> ext m = kUpb_ExtMode_IsMessageSet \<and> dec_extreg C \<noteq> None
     | FieldKnown f \<Rightarrow> f \<in> set (mt_fields m)
     | FieldExt x \<Rightarrow> ext m \<noteq> kUpb_ExtMode_IsMessageSet \<and> ext_wf (dec_tables C) x
         \<and> (\<exists>g. dec_extreg C = Some g \<and> extreg_map g (extreg_key r (upb_MiniTableExtension_Number x)) = Some x))"

lemma find_field_scan_found:
  assumes "stop \<le> length fs"
  shows "\<exists>i. find_field_scan fs num idx stop = (Ret i :: ('e, _) res)
    \<and> (case i of None \<Rightarrow> True | Some j \<Rightarrow> j < stop \<and> number (fs ! j) = num)"
proof (induction "stop - idx" arbitrary: idx)
  case 0
  then show ?case using find_field_scan.simps [of fs num idx stop, where 'a = 'e] by simp
next
  case (Suc k)
  then have "idx < stop" "k = stop - (idx + 1)" by simp_all
  with Suc.hyps(1) [OF this(2)] assms show ?case
    using find_field_scan.simps [of fs num idx stop, where 'a = 'e] by (cases "number (fs ! idx) = num") auto
qed

lemma find_field_index_found:
  assumes "mt_fields_wf m" and "last_idx \<le> length (mt_fields m)"
  shows "\<exists>i. find_field_index m num last_idx = (Ret i :: ('e, _) res)
    \<and> (case i of None \<Rightarrow> True | Some j \<Rightarrow> j < length (mt_fields m) \<and> number (mt_fields m ! j) = num)"
proof -
  have wf: "field_count m = length (mt_fields m)" "dense_below m \<le> length (mt_fields m)" using assms(1) by (simp_all add: mt_fields_wf_def)
  obtain i1 where i1: "find_field_scan (mt_fields m) num last_idx (field_count m) = (Ret i1 :: ('e, _) res)"
    "case i1 of None \<Rightarrow> True | Some j \<Rightarrow> j < field_count m \<and> number (mt_fields m ! j) = num"
    using find_field_scan_found [of "field_count m" "mt_fields m" num last_idx, where 'e = 'e] wf(1) by auto
  obtain i2 where i2: "find_field_scan (mt_fields m) num (dense_below m) last_idx = (Ret i2 :: ('e, _) res)"
    "case i2 of None \<Rightarrow> True | Some j \<Rightarrow> j < last_idx \<and> number (mt_fields m ! j) = num"
    using find_field_scan_found [OF assms(2), of num "dense_below m", where 'e = 'e] by auto
  show ?thesis
  proof (cases "0 < num \<and> num - 1 < dense_below m")
    case True
    then show ?thesis using mt_fields_wf_dense [OF assms(1), of "num - 1"] wf(2) by (simp add: find_field_index_def)
  next
    case False
    then show ?thesis using i1 i2 wf(1) assms(2) by (auto simp: find_field_index_def split: option.splits)
  qed
qed

definition target_found :: "'a dec_env \<Rightarrow> (mt_ref \<times> upb_Message) option \<Rightarrow> found_field \<Rightarrow> bool" where
  "target_found C target ff = (case target of
       None \<Rightarrow> ff = FieldNone
     | Some (r, _) \<Rightarrow> \<exists>m. mini_table_of (dec_tables C) r = (Ret m :: (upb_DecodeStatus, _) res) \<and> found C r m ff)"

definition index_ok :: "'a dec_env \<Rightarrow> (mt_ref \<times> upb_Message) option \<Rightarrow> nat \<Rightarrow> bool" where
  "index_ok C target idx = (case target of
       None \<Rightarrow> True
     | Some (r, _) \<Rightarrow> \<exists>m. mini_table_of (dec_tables C) r = (Ret m :: (upb_DecodeStatus, _) res) \<and> idx \<le> length (mt_fields m))"

lemma find_extension_found:
  assumes "env_ok C"
  shows "safe (find_extension C r m num) (found C r m)"
proof (cases "dec_extreg C")
  case (Some g)
  show ?thesis
  proof (cases "ext m = kUpb_ExtMode_Extendable")
    case True
    then show ?thesis using Some registered [OF assms Some, of r num]
      by (auto simp: find_extension_def found_def split: option.splits)
  qed (use Some in \<open>auto simp: find_extension_def found_def\<close>)
qed (simp add: find_extension_def found_def)

lemma find_field_safe:
  assumes "env_ok C" and "index_ok C target idx"
  shows "safe (upb_Decoder_FindField C target num idx) (\<lambda>(ff, idx'). target_found C target ff \<and> index_ok C target idx')"
proof (cases target)
  case (Some rm)
  obtain r msg where rm: "rm = (r, msg)" by (cases rm)
  from assms(2) obtain m where m: "mini_table_of (dec_tables C) r = (Ret m :: (upb_DecodeStatus, _) res)" "idx \<le> length (mt_fields m)"
    by (auto simp: index_ok_def Some rm)
  have "mt_fields_wf m" using env_table [OF assms(1) m(1)] by (simp add: table_ok_def)
  from find_field_index_found [OF this m(2), of "unat num", where 'e = upb_DecodeStatus] obtain i where
    i: "find_field_index m (unat num) idx = (Ret i :: (upb_DecodeStatus, _) res)"
    "case i of None \<Rightarrow> True | Some j \<Rightarrow> j < length (mt_fields m) \<and> number (mt_fields m ! j) = unat num" by blast
  show ?thesis
  proof (cases i)
    case None
    have "safe (bindR (find_extension C r m num) (\<lambda>ff. Ret (ff, idx))) (\<lambda>(ff, idx'). target_found C target ff \<and> index_ok C target idx')"
      by (rule safe_bind [OF find_extension_found [OF assms(1)]]) (use m Some rm in \<open>simp add: target_found_def index_ok_def\<close>)
    with None i(1) m(1) Some rm show ?thesis by (simp add: upb_Decoder_FindField_def)
  next
    case (Some j)
    with i m \<open>target = Some rm\<close> rm show ?thesis
      by (simp add: upb_Decoder_FindField_def target_found_def index_ok_def found_def)
  qed
qed (simp add: upb_Decoder_FindField_def target_found_def index_ok_def)

section \<open>Reading a value\<close>

text \<open>The operation and the value that were read fit the field that was found.\<close>

definition op_ok :: "found_field \<Rightarrow> upb_DecodeOp \<Rightarrow> u64 \<Rightarrow> bool" where
  "op_ok ff op wv \<longleftrightarrow> op = kUpb_DecodeOp_UnknownField \<or> op = kUpb_DecodeOp_MessageSetItem \<and> ff = FieldItem
     \<or> (\<exists>f. found_real ff = Some f \<and> op_for f op wv)"

lemma op_ok_unknown [simp]: "op_ok ff kUpb_DecodeOp_UnknownField wv"
  by (simp add: op_ok_def)

lemma varint_op_ok: "op_ok ff (upb_Decoder_GetVarintOp ff) (upb_Decoder_Munge (map_option descriptortype (found_real ff)) v)"
proof (cases "found_real ff")
  case (Some f)
  then show ?thesis using munged_bool [of kUpb_FieldType_Bool v]
    by (cases "descriptortype f") (simp_all add: upb_Decoder_GetVarintOp_def op_ok_def op_for_def upb_MiniTableField_IsSubMessage_def)
qed (simp add: upb_Decoder_GetVarintOp_def)

lemma fixed_op_ok:
  "op_ok ff (fixed_op kFixed32OkMask kUpb_DecodeOp_Scalar4Byte ff) v"
  "op_ok ff (fixed_op kFixed64OkMask kUpb_DecodeOp_Scalar8Byte ff) v"
  by (auto simp: fixed_op_def op_ok_def op_for_def kFixed32OkMask_def kFixed64OkMask_def upb_MiniTableField_IsSubMessage_def split: option.splits)

lemma check_unlinked_ok:
  assumes "found_real ff = Some f" and "upb_MiniTableField_IsSubMessage f" and "upb_MiniTableField_IsExtension f \<or> linked T (subs m) f"
  shows "safe (upb_Decoder_CheckUnlinked C m f) (\<lambda>op. op_ok ff op wv \<and> (op = kUpb_DecodeOp_UnknownField \<or> op = kUpb_DecodeOp_SubMessage))"
  using assms by (auto simp: upb_Decoder_CheckUnlinked_def op_ok_def op_for_def linked_def sub_linked_def)

lemma found_linked:
  assumes "table_ok (dec_tables C) m" and "found C r m ff" and "found_real ff = Some f"
  shows "upb_MiniTableField_IsExtension f \<or> linked (dec_tables C) (subs m) f"
  using assms field_linked [OF assms(1), of f] by (cases ff) (auto simp: found_def ext_wf_def Let_def)

text \<open>The table of the message and what was found in it; without a message nothing is found.\<close>

definition layout_found :: "'a dec_env \<Rightarrow> mt_ref \<Rightarrow> upb_MiniTable option \<Rightarrow> found_field \<Rightarrow> bool" where
  "layout_found C r layout ff = (case layout of None \<Rightarrow> ff = FieldNone | Some m \<Rightarrow> table_ok (dec_tables C) m \<and> found C r m ff)"

abbreviation (input) delimited_op :: "upb_MiniTableField \<Rightarrow> upb_DecodeOp" where
  "delimited_op f \<equiv> (if upb_MiniTableField_IsArray f then kRepeatedOps else kDelimitedOps) (descriptortype f)"

lemma delimited_op_cases:
  "delimited_op f = kUpb_DecodeOp_UnknownField \<or> op_for f (delimited_op f) wv"
  "delimited_op f = kUpb_DecodeOp_SubMessage \<Longrightarrow> upb_MiniTableField_IsSubMessage f"
  "delimited_op f = kUpb_DecodeOp_Bytes \<Longrightarrow> upb_FieldType_SizeLg2 (descriptortype f) = 4"
  by (cases "upb_MiniTableField_IsArray f"; cases "descriptortype f"; simp add: op_for_def upb_MiniTableField_IsSubMessage_def)+

lemma delimited_op_ok:
  assumes "layout_found C r layout ff"
  shows "safe (upb_Decoder_GetDelimitedOp C layout ff) (\<lambda>op. op_ok ff op wv)"
proof (cases "found_real ff")
  case (Some f)
  then obtain m where m: "layout = Some m" "table_ok (dec_tables C) m" "found C r m ff"
    using assms by (auto simp: layout_found_def split: option.splits)
  have r: "upb_Decoder_GetDelimitedOp C layout ff = (if delimited_op f = kUpb_DecodeOp_SubMessage then upb_Decoder_CheckUnlinked C m f
      else if delimited_op f = kUpb_DecodeOp_Bytes then Ret (upb_Decoder_MaybeVerifyUtf8 C f) else Ret (delimited_op f))"
    unfolding upb_Decoder_GetDelimitedOp_def Some m(1) option.case Let_def by (rule refl)
  have "op_ok ff (delimited_op f) wv" using delimited_op_cases(1) [of f wv] Some by (auto simp: op_ok_def)
  moreover have "op_ok ff (upb_Decoder_MaybeVerifyUtf8 C f) wv" if "delimited_op f = kUpb_DecodeOp_Bytes"
    using delimited_op_cases(3) [OF that] Some by (auto simp: upb_Decoder_MaybeVerifyUtf8_def op_ok_def op_for_def Let_def)
  moreover have "safe (upb_Decoder_CheckUnlinked C m f) (\<lambda>op. op_ok ff op wv)" if "delimited_op f = kUpb_DecodeOp_SubMessage"
    by (rule safe_mono [OF check_unlinked_ok [OF Some delimited_op_cases(2) [OF that] found_linked [OF m(2,3) Some], of C wv]]) simp
  ultimately show ?thesis unfolding r
    by (cases "delimited_op f = kUpb_DecodeOp_SubMessage"; cases "delimited_op f = kUpb_DecodeOp_Bytes") (simp_all only: if_True if_False safe_simps refl)
qed (simp add: upb_Decoder_GetDelimitedOp_def)

definition value_read ::
  "bytes \<Rightarrow> int \<Rightarrow> 'a upb_Decoder \<Rightarrow> nat \<Rightarrow> nat \<Rightarrow> found_field \<Rightarrow> u32 \<Rightarrow> nat \<times> u64 \<times> upb_DecodeOp \<Rightarrow> bool" where
  "value_read I lim d ptr q ff wire_type = (\<lambda>(p, wv, op). \<exists>q'. q \<le> q' \<and> dec_at I lim d p q'
     \<and> wire_value_at (eps_buf (dec_input d)) ptr wire_type p \<and> op_ok ff op wv
     \<and> (wire_type = kUpb_WireType_Delimited \<longrightarrow> q < q' \<and> int (q' + wv_size wv) \<le> lim)
     \<and> (\<forall>f. found_real ff = Some f \<and> op_sized f op \<longrightarrow> wire_type = kUpb_WireType_Delimited))"

lemma unsized_ops:
  "found_real ff = Some f \<Longrightarrow> \<not> op_sized f (upb_Decoder_GetVarintOp ff)"
  "found_real ff = Some f \<Longrightarrow> \<not> op_sized f (fixed_op ok_mask kUpb_DecodeOp_Scalar4Byte ff)"
  "found_real ff = Some f \<Longrightarrow> \<not> op_sized f (fixed_op ok_mask kUpb_DecodeOp_Scalar8Byte ff)"
  by (cases "descriptortype f") (simp_all add: upb_Decoder_GetVarintOp_def fixed_op_def op_sized_def)

lemma wire_types_differ [simp]:
  "kUpb_WireType_Varint \<noteq> kUpb_WireType_Delimited" "kUpb_WireType_32Bit \<noteq> kUpb_WireType_Delimited"
  "kUpb_WireType_64Bit \<noteq> kUpb_WireType_Delimited" "kUpb_WireType_StartGroup \<noteq> kUpb_WireType_Delimited"
  by simp_all

lemma value_read_short:
  assumes "dec_at I lim d p (q + (p - ptr))" and "wire_value_at (eps_buf (dec_input d)) ptr wire_type p" and "op_ok ff op wv"
    and "wire_type \<noteq> kUpb_WireType_Delimited" and "\<And>f. found_real ff = Some f \<Longrightarrow> \<not> op_sized f op"
  shows "value_read I lim d ptr q ff wire_type (p, wv, op)"
  using assms by (auto simp: value_read_def intro!: exI [of _ "q + (p - ptr)"])

lemma group_value_ok:
  assumes at: "dec_at I lim d ptr q" and lay: "layout_found C r layout ff"
  shows "safe (case ff of
           FieldItem \<Rightarrow> Ret (ptr, 0, kUpb_DecodeOp_MessageSetItem)
         | _ \<Rightarrow>
             (case found_real ff of
                Some f \<Rightarrow>
                  if descriptortype f = kUpb_FieldType_Group then
                    (case layout of
                       None \<Rightarrow> Fault
                     | Some m \<Rightarrow> bindR (upb_Decoder_CheckUnlinked C m f) (\<lambda>op. Ret (ptr, of_nat (number f), op)))
                  else Ret (ptr, of_nat (number f), kUpb_DecodeOp_UnknownField)
              | None \<Rightarrow> Ret (ptr, 0, kUpb_DecodeOp_UnknownField))) (value_read I lim d ptr q ff kUpb_WireType_StartGroup)"
proof -
  have post: "value_read I lim d ptr q ff kUpb_WireType_StartGroup (ptr, wv, op)"
    if "op_ok ff op wv" "\<And>f. found_real ff = Some f \<Longrightarrow> \<not> op_sized f op" for wv op
    using that at by (auto simp: value_read_def wire_value_at_def)
  show ?thesis
  proof (cases "ff = FieldItem")
    case True
    then show ?thesis using post [of kUpb_DecodeOp_MessageSetItem 0] by (simp add: op_ok_def)
  next
    case False
    have unknown: "value_read I lim d ptr q ff kUpb_WireType_StartGroup (ptr, wv, kUpb_DecodeOp_UnknownField)" for wv
      by (rule post) (simp_all add: op_sized_def)
    show ?thesis
    proof (cases "found_real ff")
      case None
      with False unknown show ?thesis by (cases ff) simp_all
    next
      case (Some f)
      then obtain m where m: "layout = Some m" "table_ok (dec_tables C) m" "found C r m ff"
        using lay by (auto simp: layout_found_def split: option.splits)
      have "safe (bindR (upb_Decoder_CheckUnlinked C m f) (\<lambda>op. Ret (ptr, of_nat (number f), op))) (value_read I lim d ptr q ff kUpb_WireType_StartGroup)"
        if g: "descriptortype f = kUpb_FieldType_Group"
        by (rule safe_bind [OF check_unlinked_ok [OF Some _ found_linked [OF m(2,3) Some], of C "of_nat (number f)"]])
          (use g post Some in \<open>auto simp: upb_MiniTableField_IsSubMessage_def op_sized_def\<close>)
      with False Some m(1) unknown show ?thesis by (cases ff) auto
    qed
  qed
qed

lemma wire_value_safe:
  assumes at: "dec_at I lim d ptr q" and room: "ptr + 10 \<le> length (eps_buf (dec_input d))" and lay: "layout_found C r layout ff"
  shows "safe (upb_Decoder_DecodeWireValue C d ptr layout ff wire_type) (value_read I lim d ptr q ff wire_type)"
proof -
  let ?buf = "eps_buf (dec_input d)"
  have here: "dec_at I lim d p (q + (p - ptr))" if "ptr \<le> p" "p \<le> ptr + 10" for p
    using dec_at_move [OF at, of "p - ptr"] that room by simp
  consider "wire_type = kUpb_WireType_Varint" | "wire_type = kUpb_WireType_32Bit" | "wire_type = kUpb_WireType_64Bit"
    | "wire_type = kUpb_WireType_Delimited" | "wire_type = kUpb_WireType_StartGroup"
    | "wire_type \<notin> {kUpb_WireType_Varint, kUpb_WireType_32Bit, kUpb_WireType_64Bit, kUpb_WireType_Delimited, kUpb_WireType_StartGroup}" by blast
  then show ?thesis
  proof cases
    case 1
    have "safe (bindR (upb_Decoder_DecodeVarint ?buf ptr) (\<lambda>(p, v). Ret (p, upb_Decoder_Munge (map_option descriptortype (found_real ff)) v, upb_Decoder_GetVarintOp ff)))
        (value_read I lim d ptr q ff wire_type)"
      by (rule safe_bind [OF DecodeVarint_at [OF room]], clarify, unfold safe_simps, rule value_read_short)
        (use here varint_op_ok unsized_ops(1) 1 in \<open>auto simp: wire_value_at_def\<close>)
    with 1 show ?thesis by (simp add: upb_Decoder_DecodeWireValue_def)
  next
    case 2
    have "ptr + 4 \<le> length ?buf" using room by simp
    from ReadFixed_at(1) [OF this]
    have "safe (bindR (upb_WireReader_ReadFixed32 ?buf ptr) (\<lambda>(p, v). Ret (p, ucast v, fixed_op kFixed32OkMask kUpb_DecodeOp_Scalar4Byte ff)))
        (value_read I lim d ptr q ff wire_type)"
      by (rule safe_bind, clarify, unfold safe_simps, intro value_read_short)
        (use here [of "ptr + 4"] fixed_op_ok(1) unsized_ops(2) 2 in \<open>auto simp: wire_value_at_def\<close>)
    with 2 show ?thesis by (simp add: upb_Decoder_DecodeWireValue_def)
  next
    case 3
    have "ptr + 8 \<le> length ?buf" using room by simp
    from ReadFixed_at(2) [OF this]
    have "safe (bindR (upb_WireReader_ReadFixed64 ?buf ptr) (\<lambda>(p, v). Ret (p, v, fixed_op kFixed64OkMask kUpb_DecodeOp_Scalar8Byte ff)))
        (value_read I lim d ptr q ff wire_type)"
      by (rule safe_bind, clarify, unfold safe_simps, intro value_read_short)
        (use here [of "ptr + 8"] fixed_op_ok(2) unsized_ops(3) 3 in \<open>auto simp: wire_value_at_def\<close>)
    with 3 show ?thesis by (simp add: upb_Decoder_DecodeWireValue_def)
  next
    case 4
    have "safe (bindR (upb_Decoder_DecodeSize d ptr) (\<lambda>(p, size').
        bindR (upb_Decoder_GetDelimitedOp C layout ff) (\<lambda>op. Ret (p, ucast size', op)))) (value_read I lim d ptr q ff wire_type)"
    proof (rule safe_bind [OF DecodeSize_at [OF dec_atD(1) [OF at] room]], clarify)
      fix p and size' :: u32
      assume p: "ptr < p" "p \<le> ptr + 10" "varint_prefix (drop ptr ?buf) = Some (take (p - ptr) (drop ptr ?buf))" "int (q + (p - ptr) + unat size') \<le> lim"
      have sz: "(ucast (ucast size' :: u64) :: u32) = size'" by (auto intro!: bit_word_eqI simp: bit_simps)
      show "safe (bindR (upb_Decoder_GetDelimitedOp C layout ff) (\<lambda>op. Ret (p, ucast size', op))) (value_read I lim d ptr q ff wire_type)"
        by (rule safe_bind [OF delimited_op_ok [OF lay, of "ucast size'"]])
          (use here [of p] p sz 4 in \<open>auto simp: value_read_def wire_value_at_def intro!: exI [of _ "q + (p - ptr)"]\<close>)
    qed
    with 4 show ?thesis by (simp add: upb_Decoder_DecodeWireValue_def)
  next
    case 5
    then show ?thesis using group_value_ok [OF at lay] by (simp add: upb_Decoder_DecodeWireValue_def)
  next
    case 6
    then show ?thesis by (simp add: upb_Decoder_DecodeWireValue_def)
  qed
qed

section \<open>After a tag\<close>

text \<open>The tag of a field was read: it starts at the position \<open>q0\<close>, and its value at \<open>q1\<close>.\<close>

definition at_tag :: "nat \<Rightarrow> bytes \<Rightarrow> int \<Rightarrow> nat \<Rightarrow> 'a upb_Decoder \<Rightarrow> nat \<Rightarrow> nat \<Rightarrow> nat \<Rightarrow> u32 \<Rightarrow> nat \<Rightarrow> bool" where
  "at_tag n I lim K d p0 q0 p1 tag q1 \<longleftrightarrow> stream_at I lim (dec_input d) p0 q0 \<and> int q0 < lim \<and> lim - int q0 < int (Suc n) \<and> K + length I < 2 ^ 29
     \<and> upb_Decoder_DecodeTag (eps_buf (dec_input d)) p0 = Ret (p1, tag) \<and> q0 < q1 \<and> dec_at I lim d p1 q1 \<and> p1 + 10 \<le> length (eps_buf (dec_input d))
     \<and> 0 < p1 \<and> unat (eps_buf (dec_input d) ! (p1 - 1)) < 128"

lemma at_tagD:
  assumes "at_tag n I lim K d p0 q0 p1 tag q1"
  shows "0 < n" "K + q0 < 2 ^ 29" "length I < 2 ^ 29" "q1 \<le> q \<Longrightarrow> lim - int q < int n" "q1 < q \<Longrightarrow> lim - int q < int n - 1"
  using assms stream_atD(6) [of I lim "dec_input d" p0 q0] by (auto simp: at_tag_def)

text \<open>The value that was read can be stored.\<close>

lemma value_field_at:
  assumes tag: "at_tag n I lim K d p0 q0 p1 tag q1" and val: "value_read I lim d p1 q1 ff (tag AND 7) (p, wv, op)"
    and op: "op \<noteq> kUpb_DecodeOp_UnknownField" "op \<noteq> kUpb_DecodeOp_MessageSetItem"
  shows "\<exists>q f. q1 \<le> q \<and> found_real ff = Some f \<and> field_at n I lim K (K + q0) d p q f op wv"
proof -
  obtain q f where q: "q1 \<le> q" "dec_at I lim d p q" "found_real ff = Some f" "op_for f op wv"
    "tag AND 7 = kUpb_WireType_Delimited \<Longrightarrow> q1 < q \<and> int (q + wv_size wv) \<le> lim" "op_sized f op \<Longrightarrow> tag AND 7 = kUpb_WireType_Delimited"
    using val op by (auto simp: value_read_def op_ok_def)
  have "q0 < q" using q(1) tag by (simp add: at_tag_def)
  moreover have "K + length I < 2 ^ 29" using tag by (simp add: at_tag_def)
  ultimately have "field_at n I lim K (K + q0) d p q f op wv"
    using q at_tagD(1,2) [OF tag] at_tagD(4,5) [OF tag, of q] by (auto simp: field_at_def)
  with q(1,3) show ?thesis by blast
qed

text \<open>The message after a field.\<close>

definition field_post :: "'a dec_env \<Rightarrow> nat \<Rightarrow> bytes \<Rightarrow> int \<Rightarrow> nat \<Rightarrow> nat \<Rightarrow> (mt_ref \<times> upb_Message) option \<Rightarrow> (nat \<times> upb_Message option) \<times> 'a upb_Decoder \<Rightarrow> bool" where
  "field_post C n I lim K q target = (\<lambda>((p, msg'), d'). \<exists>q'. q \<le> q' \<and> dec_at I lim d' p q' \<and> result_conf (conf C (Suc n)) (K + q') target msg')"

section \<open>Unknown fields\<close>

context conf_decoder
begin

text \<open>The end of an unknown value.\<close>

lemma unknown_end_safe:
  assumes "0 < n" and at: "dec_at I lim d ptr q" and "lim - int q < int n" and "length I < 2 ^ 29"
    and sized: "wire_type = kUpb_WireType_Delimited \<longrightarrow> int (q + wv_size wv) \<le> lim"
    and p1: "ptr1 = (if wire_type = kUpb_WireType_Delimited then ptr + wv_size wv else ptr)"
  shows "safe (if wire_type = kUpb_WireType_StartGroup then upb_Decoder_DecodeUnknownGroup dec d ptr1 num else Ret (ptr1, d))
    (\<lambda>(p, d'). \<exists>q'. q \<le> q' \<and> dec_at I lim d' p q')"
proof (cases "wire_type = kUpb_WireType_StartGroup")
  case True
  then show ?thesis using unknown_group_safe [OF assms(1) order_refl at assms(3,4)] p1 by simp
next
  case False
  then show ?thesis using at dec_at_skip [OF at] sized p1 by (auto intro: exI [of _ q] exI [of _ "q + wv_size wv"])
qed

lemma unknown_field_safe:
  assumes n: "0 < n" "lim - int q < int n" and small: "length I < 2 ^ 29"
    and tag: "upb_Decoder_DecodeTag (eps_buf (dec_input d)) p0 = Ret (p1, tag)" "0 < p1" "unat (eps_buf (dec_input d) ! (p1 - 1)) < 128"
    and at0: "stream_at I lim (dec_input d) p0 q0" "q0 \<le> q"
    and at: "dec_at I lim d ptr q" and val: "wire_value_at (eps_buf (dec_input d)) p1 (tag AND 7) ptr"
    and sized: "tag AND 7 = kUpb_WireType_Delimited \<longrightarrow> int (q + wv_size wv) \<le> lim"
    and slots: "\<And>m. msg = Some m \<Longrightarrow> slots_ok m"
  shows "safe (upb_Decoder_DecodeUnknownField C dec d ptr msg (drop_bit 3 tag) (tag AND 7) wv) (\<lambda>((p, msg'), d').
    (\<exists>q'. q \<le> q' \<and> dec_at I lim d' p q') \<and> (case msg of None \<Rightarrow> msg' = None | Some m \<Rightarrow> \<exists>m'. msg' = Some m' \<and> grown m m'))"
proof (cases "drop_bit 3 tag = 0")
  case False
  let ?wt = "tag AND 7"
  let ?p1 = "if ?wt = kUpb_WireType_Delimited then ptr + wv_size wv else ptr"
  let ?post = "\<lambda>((p, msg'), d'). (\<exists>q'. q \<le> q' \<and> dec_at I lim d' p q') \<and> (case msg of None \<Rightarrow> msg' = None | Some m \<Rightarrow> \<exists>m'. msg' = Some m' \<and> grown m m')"
  note fin = unknown_end_safe [OF n(1) at n(2) small sized refl, of "drop_bit 3 tag"]
  show ?thesis
  proof (cases msg)
    case None
    have "safe (bindR (if ?wt = kUpb_WireType_StartGroup then upb_Decoder_DecodeUnknownGroup dec d ?p1 (drop_bit 3 tag) else Ret (?p1, d)) (\<lambda>(p, d1). Ret ((p, None), d1))) ?post"
      by (rule safe_bind [OF fin]) (use None in auto)
    then show ?thesis using None False by (auto simp: upb_Decoder_DecodeUnknownField_def Let_def)
  next
    case (Some m)
    have "ptr \<le> length (eps_buf (dec_input d))" using stream_atD(5) [OF dec_atD(1) [OF at]] .
    note start = unknown_value_start_at [OF val tag(2,3) this, where 'e = upb_DecodeStatus] tag_start_at [OF tag(1) False, where 'e = upb_DecodeStatus]
    have in0: "upb_EpsCopyInputStream_GetInputPtr (dec_input d) p0 = q0"
      using stream_atD(4) [OF at0(1)] by (simp add: upb_EpsCopyInputStream_GetInputPtr_def eps_pos_def)
    have "safe (bindR (if ?wt = kUpb_WireType_StartGroup then upb_Decoder_DecodeUnknownGroup dec d ?p1 (drop_bit 3 tag) else Ret (?p1, d)) (\<lambda>(ptr2, d1).
        bindR (upb_Decoder_IsDone (dec_input d1) ptr2) (\<lambda>(_, ptr3, e).
          let input_ptr = upb_EpsCopyInputStream_GetInputPtr e ptr3 in
          bindR (rd_bytes (eps_input e) q0 (input_ptr - q0)) (\<lambda>data.
          bindR (decoder_add_unknown C m data (eps_aliasing e) (d1\<lparr>dec_input := e\<rparr>)) (\<lambda>(m', d2). Ret ((ptr3, Some m'), d2)))))) ?post"
    proof (rule safe_bind [OF fin], clarify)
      fix ptr2 and d1 :: "'a upb_Decoder" and q2 assume q2: "q \<le> q2" "dec_at I lim d1 ptr2 q2"
      show "safe (bindR (upb_Decoder_IsDone (dec_input d1) ptr2) (\<lambda>(_, ptr3, e).
          let input_ptr = upb_EpsCopyInputStream_GetInputPtr e ptr3 in
          bindR (rd_bytes (eps_input e) q0 (input_ptr - q0)) (\<lambda>data.
          bindR (decoder_add_unknown C m data (eps_aliasing e) (d1\<lparr>dec_input := e\<rparr>)) (\<lambda>(m', d2). Ret ((ptr3, Some m'), d2))))) ?post"
      proof (rule safe_bind [OF IsDone_at [OF dec_atD(1) [OF q2(2)]]], goal_cases)
        case (1 v)
        then obtain b ptr3 e where v: "v = (b, ptr3, e)" "stream_at I lim e ptr3 q2" "int q2 \<le> lim" by (cases v) (auto split: if_splits)
        have "rd_bytes (eps_input e) q0 (upb_EpsCopyInputStream_GetInputPtr e ptr3 - q0) = (Ret (take (q2 - q0) (drop q0 I)) :: (upb_DecodeStatus, _) res)"
          using stream_atD(2,4,6) [OF v(2)] v(3) at0(2) q2(1) by (simp add: rd_bytes_def upb_EpsCopyInputStream_GetInputPtr_def eps_pos_def)
        moreover have "dec_at I lim (d1\<lparr>dec_input := e\<rparr>) ptr3 q2" using dec_atD(2) [OF q2(2)] v(2) by (rule dec_at_input)
        then have "safe (bindR (decoder_add_unknown C m data (eps_aliasing e) (d1\<lparr>dec_input := e\<rparr>)) (\<lambda>(m', d2). Ret ((ptr3, Some m'), d2))) ?post" for data
          by (intro safe_bind [OF add_unknown_safe [OF slots [OF Some]]]) (use q2(1) Some in \<open>auto intro!: exI [of _ q2] elim: dec_at_step\<close>)
        ultimately show ?case unfolding v(1) by simp
      qed
    qed
    then show ?thesis unfolding upb_Decoder_DecodeUnknownField_def if_not_P [OF False] Let_def Some option.case start bindR.simps in0 by simp
  qed
qed (simp add: upb_Decoder_DecodeUnknownField_def)

section \<open>One field\<close>

lemma known_or_extension_safe:
  assumes at: "field_at n I lim K B d ptr q f op wv" and m: "table_ok (dec_tables C) m" and ff: "found C r m ff" "found_real ff = Some f"
    and lev: "level_conf C (conf C n B) B r m msg"
  shows "safe (upb_Decoder_DecodeKnownField C dec d ptr msg m ff op wv) (step_post C n I lim K q r m)"
proof (cases ff)
  case (FieldKnown f')
  with ff have "f \<in> set (mt_fields m)" "f' = f" by (simp_all add: found_def)
  with known_field_safe [OF at m _ lev] FieldKnown show ?thesis by simp
next
  case (FieldExt x)
  with ff obtain g where x: "ext_field x = f" "ext m \<noteq> kUpb_ExtMode_IsMessageSet" "ext_wf (dec_tables C) x" "dec_extreg C = Some g"
    "extreg_map g (extreg_key r (upb_MiniTableExtension_Number x)) = Some x" by (auto simp: found_def)
  have "safe (decode_to_extension C dec d ptr msg x wv op) (step_post C n I lim K q r m)"
    by (rule extension_safe [OF _ lev x(2,4,5,3)]) (use at x(1) in simp)
  with FieldExt ext_fieldD(1) [OF x(3)] show ?thesis by (simp add: upb_Decoder_DecodeKnownField_def)
qed (use ff in simp_all)

lemma no_target_safe:
  assumes tag: "at_tag n I lim K d p0 q0 p1 tag q1"
  shows "safe (decode_field C dec d p1 None FieldNone (drop_bit 3 tag) (tag AND 7)) (field_post C n I lim K q1 None)"
proof -
  have T: "dec_at I lim d p1 q1" "p1 + 10 \<le> length (eps_buf (dec_input d))" "upb_Decoder_DecodeTag (eps_buf (dec_input d)) p0 = Ret (p1, tag)"
    "0 < p1" "unat (eps_buf (dec_input d) ! (p1 - 1)) < 128" "stream_at I lim (dec_input d) p0 q0" "q0 < q1" using tag by (simp_all add: at_tag_def)
  have lay: "layout_found C r None FieldNone" for r by (simp add: layout_found_def)
  show ?thesis unfolding decode_field_def option.case bindR.simps
  proof (rule safe_bind [OF wire_value_safe [OF T(1,2) lay]], clarify)
    fix p wv op assume val: "value_read I lim d p1 q1 FieldNone (tag AND 7) (p, wv, op)"
    then obtain q where q: "q1 \<le> q" "dec_at I lim d p q" "wire_value_at (eps_buf (dec_input d)) p1 (tag AND 7) p"
      "tag AND 7 = kUpb_WireType_Delimited \<longrightarrow> int (q + wv_size wv) \<le> lim" and op: "op = kUpb_DecodeOp_UnknownField"
      by (auto simp: value_read_def op_ok_def)
    have "q0 \<le> q" using q(1) T(7) by simp
    note run = unknown_field_safe [OF at_tagD(1) [OF tag] at_tagD(4) [OF tag q(1)] at_tagD(3) [OF tag] T(3-6) this q(2-4), of None]
    have "safe (upb_Decoder_DecodeUnknownField C dec d p None (drop_bit 3 tag) (tag AND 7) wv) (field_post C n I lim K q1 None)"
      by (rule safe_mono [OF run]) (use q(1) in \<open>auto simp: field_post_def result_conf_def intro: order_trans\<close>)
    then show "safe (if op = kUpb_DecodeOp_UnknownField
        then upb_Decoder_DecodeUnknownField C dec d p (map_option snd None) (drop_bit 3 tag) (tag AND 7) wv else Fault) (field_post C n I lim K q1 None)"
      using op by simp
  qed
qed

lemma step_field_post:
  assumes "mini_table_of (dec_tables C) r = (Ret m :: (upb_DecodeStatus, _) res)" and "step_post C n I lim K q r m ((p, msg'), d')" and "q1 \<le> q"
  shows "field_post C n I lim K q1 (Some (r, msg)) ((p, Some msg'), d')"
proof -
  obtain q' where "q \<le> q'" "dec_at I lim d' p q'" "level_conf C (conf C n (K + q')) (K + q') r m msg'" using assms(2) by (auto simp: step_post_def)
  with assms(1,3) show ?thesis by (auto simp: field_post_def result_conf_def intro!: exI [of _ q'])
qed

lemma set_item_field_safe:
  assumes tag: "at_tag n I lim K d p0 q0 p1 tag q1" and r: "mini_table_of (dec_tables C) r = (Ret m :: (upb_DecodeStatus, _) res)"
    and ff: "found C r m FieldItem" and lev: "level_conf C (conf C n (K + q0)) (K + q0) r m msg" and q: "q1 \<le> q" "dec_at I lim d p q"
  shows "safe (upb_Decoder_DecodeMessageSetItem C dec d p msg r) (step_post C n I lim K q r m)"
proof -
  have f: "ext m = kUpb_ExtMode_IsMessageSet" "dec_extreg C \<noteq> None" using ff by (simp_all add: found_def)
  have "q0 < q" using tag q(1) by (simp add: at_tag_def)
  then have lev': "level_conf C (conf C n (K + q)) (K + q) r m msg" by (intro level_later [OF lev]) simp
  have "lim \<le> int (length I)" "eps_input (dec_input d) = I" using stream_atD(2,6) [OF dec_atD(1) [OF q(2)]] by simp_all
  then have rounds: "0 < input_rounds d" "lim - int q < int (input_rounds d)" by (simp_all add: input_rounds_def)
  have "payload_ok n q None" by (simp add: payload_ok_def)
  from set_item_loop_safe [OF r f at_tagD(1,3) [OF tag] q(2) rounds at_tagD(4) [OF tag q(1)] this lev'] show ?thesis
    by (simp add: upb_Decoder_DecodeMessageSetItem_def)
qed

lemma target_field_safe:
  assumes tag: "at_tag n I lim K d p0 q0 p1 tag q1" and r: "mini_table_of (dec_tables C) r = (Ret m :: (upb_DecodeStatus, _) res)"
    and ff: "found C r m ff" and lev: "level_conf C (conf C n (K + q0)) (K + q0) r m msg"
  shows "safe (decode_field C dec d p1 (Some (r, msg)) ff (drop_bit 3 tag) (tag AND 7)) (field_post C n I lim K q1 (Some (r, msg)))"
proof -
  have T: "dec_at I lim d p1 q1" "p1 + 10 \<le> length (eps_buf (dec_input d))" "upb_Decoder_DecodeTag (eps_buf (dec_input d)) p0 = Ret (p1, tag)"
    "0 < p1" "unat (eps_buf (dec_input d) ! (p1 - 1)) < 128" "stream_at I lim (dec_input d) p0 q0" "q0 < q1" using tag by (simp_all add: at_tag_def)
  have m: "table_ok (dec_tables C) m" by (rule env_table [OF env r])
  have lay: "layout_found C r (Some m) ff" using m ff by (simp add: layout_found_def)
  have slots: "slots_ok msg" using lev by (simp add: level_conf_def)
  show ?thesis unfolding decode_field_def option.case prod.case r bindR.simps
  proof (rule safe_bind [OF wire_value_safe [OF T(1,2) lay]], clarify)
    fix p wv op assume val: "value_read I lim d p1 q1 ff (tag AND 7) (p, wv, op)"
    then obtain q where q: "q1 \<le> q" "dec_at I lim d p q" "wire_value_at (eps_buf (dec_input d)) p1 (tag AND 7) p"
      "tag AND 7 = kUpb_WireType_Delimited \<longrightarrow> int (q + wv_size wv) \<le> lim" and op: "op_ok ff op wv"
      by (auto simp: value_read_def)
    have "q0 \<le> q" using q(1) T(7) by simp
    have unknown: "safe (upb_Decoder_DecodeUnknownField C dec d p (Some msg) (drop_bit 3 tag) (tag AND 7) wv) (field_post C n I lim K q1 (Some (r, msg)))"
    proof (rule safe_mono [OF unknown_field_safe [OF at_tagD(1) [OF tag] at_tagD(4) [OF tag q(1)] at_tagD(3) [OF tag] T(3-6) \<open>q0 \<le> q\<close> q(2-4), of "Some msg"]],
        use slots in simp, clarify)
      fix p' msg' and d' :: "'a upb_Decoder" and q' assume q': "q \<le> q'" "dec_at I lim d' p' q'" and g: "case Some msg of None \<Rightarrow> msg' = None | Some m \<Rightarrow> \<exists>m'. msg' = Some m' \<and> grown m m'"
      then obtain msg1 where msg1: "msg' = Some msg1" "grown msg msg1" by auto
      have "level_conf C (conf C n (K + q')) (K + q') r m msg1" by (rule level_later [OF level_grown [OF lev msg1(2)]]) (use q'(1) \<open>q0 \<le> q\<close> in simp)
      then have "step_post C n I lim K q r m ((p', msg1), d')" using q' by (auto simp: step_post_def)
      from step_field_post [OF r this q(1)] show "field_post C n I lim K q1 (Some (r, msg)) ((p', msg'), d')" unfolding msg1(1) .
    qed
    have wrap: "safe (bindR s (\<lambda>((p', msg'), d'). Ret ((p', Some msg'), d'))) (field_post C n I lim K q1 (Some (r, msg)))"
      if "safe s (step_post C n I lim K q r m)" "q1 \<le> q" for s q
      by (rule safe_bind [OF that(1)], clarify, unfold safe_simps) (rule step_field_post [OF r _ that(2)])
    have item: "safe (upb_Decoder_DecodeMessageSetItem C dec d p msg r) (step_post C n I lim K q r m)" if "op = kUpb_DecodeOp_MessageSetItem"
      by (rule set_item_field_safe [OF tag r _ lev q(1,2)]) (use op that ff in \<open>auto simp: op_ok_def op_for_def\<close>)
    have known: "\<exists>q2. q1 \<le> q2 \<and> safe (upb_Decoder_DecodeKnownField C dec d p msg m ff op wv) (step_post C n I lim K q2 r m)"
      if "op \<noteq> kUpb_DecodeOp_UnknownField" "op \<noteq> kUpb_DecodeOp_MessageSetItem"
      using value_field_at [OF tag val that] known_or_extension_safe [OF _ m ff _ lev] by blast
    show "safe (if op = kUpb_DecodeOp_UnknownField then
         upb_Decoder_DecodeUnknownField C dec d p (map_option snd (Some (r, msg))) (drop_bit 3 tag) (tag AND 7) wv
       else bindR (if op = kUpb_DecodeOp_MessageSetItem then upb_Decoder_DecodeMessageSetItem C dec d p msg r
                   else upb_Decoder_DecodeKnownField C dec d p msg m ff op wv) (\<lambda>((p', msg'), d'). Ret ((p', Some msg'), d')))
      (field_post C n I lim K q1 (Some (r, msg)))"
    proof -
      consider "op = kUpb_DecodeOp_UnknownField" | "op = kUpb_DecodeOp_MessageSetItem" | "op \<noteq> kUpb_DecodeOp_UnknownField" "op \<noteq> kUpb_DecodeOp_MessageSetItem" by blast
      then show ?thesis
      proof cases
        case 1
        with unknown show ?thesis by simp
      next
        case 2
        with wrap [OF item q(1)] show ?thesis by simp
      next
        case 3
        with known [OF 3] wrap show ?thesis by auto
      qed
    qed
  qed
qed

section \<open>The loop over the fields\<close>

lemma field_safe:
  assumes "at_tag n I lim K d p0 q0 p1 tag q1" and "target_conf (conf C (Suc n)) (K + q0) target" and "target_found C target ff"
  shows "safe (decode_field C dec d p1 target ff (drop_bit 3 tag) (tag AND 7)) (field_post C n I lim K q1 target)"
proof (cases target)
  case None
  with assms no_target_safe show ?thesis by (simp add: target_found_def)
next
  case (Some rm)
  obtain r msg where rm: "rm = (r, msg)" by (cases rm)
  from assms(2) obtain m where m: "mini_table_of (dec_tables C) r = (Ret m :: (upb_DecodeStatus, _) res)"
    "level_conf C (conf C n (K + q0)) (K + q0) r m msg" by (auto simp: target_conf_def Some rm)
  have "found C r m ff" using assms(3) m(1) by (auto simp: target_found_def Some rm)
  from target_field_safe [OF assms(1) m(1) this m(2)] show ?thesis by (simp add: Some rm)
qed

lemma finish_safe:
  assumes "target_conf (conf C (Suc n)) B target"
  shows "safe (decode_finish C d p target) (\<lambda>((p', msg'), d'). p' = p \<and> dec_input d' = dec_input d \<and> dec_end_group d' = dec_end_group d
    \<and> result_conf (conf C (Suc n)) B target msg')"
proof (cases target)
  case (Some rm)
  obtain r msg where rm: "rm = (r, msg)" by (cases rm)
  from assms obtain m where m: "mini_table_of (dec_tables C) r = (Ret m :: (upb_DecodeStatus, _) res)" "level_conf C (conf C n B) B r m msg"
    by (auto simp: target_conf_def Some rm)
  have res: "result_conf (conf C (Suc n)) B target (Some msg)" using m by (auto simp: result_conf_def Some rm)
  have mem: "mem_conf (dec_tables C) (conf C n B) B m msg" using m(2) by (simp add: level_conf_def)
  show ?thesis
  proof (cases "required_count m = 0")
    case True
    with m(1) res show ?thesis by (simp add: decode_finish_def Some rm)
  next
    case False
    obtain b where b: "(upb_Message_IsInitializedShallow msg m :: (upb_DecodeStatus, _) res) = Ret b"
      using required_ok [OF env_table [OF env m(1)] mem False, where 'e = upb_DecodeStatus] by blast
    with False m(1) res show ?thesis by (auto simp: decode_finish_def upb_Decoder_CheckRequired_def Some rm)
  qed
qed (simp add: decode_finish_def result_conf_def)

end

lemma field_number_group: "drop_bit 3 (tag :: u32) \<noteq> DECODE_NOGROUP"
proof
  assume "drop_bit 3 tag = DECODE_NOGROUP"
  then have "bit (drop_bit 3 tag) 31 = bit (DECODE_NOGROUP :: u32) 31" by simp
  then show False using bit_imp_le_length [of tag 34] by (auto simp: bit_simps)
qed

lemma target_result: "target_conf (conf C k) B target \<Longrightarrow> B \<le> B' \<Longrightarrow> result_conf (conf C k) B' target (map_option snd target)"
  by (auto simp: target_conf_def result_conf_def split: option.splits intro: conf_mono)

lemma dec_post_later: "dec_post G I lim q' K target v \<Longrightarrow> q \<le> q' \<Longrightarrow> dec_post G I lim q K target v"
  by (auto simp: dec_post_def split: prod.splits)

text \<open>The message for the next round.\<close>

definition next_target :: "(mt_ref \<times> upb_Message) option \<Rightarrow> upb_Message option \<Rightarrow> (mt_ref \<times> upb_Message) option" where
  "next_target target msg' = (case (target, msg') of (Some (r, _), Some m) \<Rightarrow> Some (r, m) | _ \<Rightarrow> None)"

lemma next_target_ok:
  assumes "result_conf G B target msg'"
  shows "target_conf G B (next_target target msg')" "index_ok C target idx \<Longrightarrow> index_ok C (next_target target msg') idx"
    "dec_post G I lim q K (next_target target msg') = (dec_post G I lim q K target :: (nat \<times> upb_Message option) \<times> 'a upb_Decoder \<Rightarrow> bool)"
  using assms by (auto simp: next_target_def result_conf_def target_conf_def index_ok_def dec_post_def split: option.splits)

context conf_decoder
begin

lemma loop_safe:
  assumes small: "K + length I < 2 ^ 29"
  shows "dec_at I lim d ptr q \<Longrightarrow> 0 < rounds \<Longrightarrow> lim - int q < int rounds \<Longrightarrow> lim - int q < int (Suc n) \<Longrightarrow> target_conf (conf C (Suc n)) (K + q) target
    \<Longrightarrow> index_ok C target idx \<Longrightarrow> safe (decode_message_loop rounds C dec idx d ptr target) (dec_post (conf C (Suc n)) I lim q K target)"
proof (induction rounds arbitrary: d ptr q target idx)
  case (Suc k)
  note at = Suc.prems(1) and lim = Suc.prems(3,4) and tc = Suc.prems(5)
  show ?case unfolding decode_message_loop.simps
  proof (rule safe_bind [OF IsDone_at [OF dec_atD(1) [OF at]]], goal_cases)
    case (1 v)
    then obtain is_done p e where v: "v = (is_done, p, e)" "stream_at I lim e p q" "is_done \<Longrightarrow> int q = lim" "\<not> is_done \<Longrightarrow> int q < lim \<and> ready e p"
      by (cases v) (auto split: if_splits)
    let ?d = "d\<lparr>dec_input := e\<rparr>"
    show ?case
    proof (cases is_done)
      case True
      have "safe (decode_finish C ?d p target) (dec_post (conf C (Suc n)) I lim q K target)"
        by (rule safe_mono [OF finish_safe [OF tc]]) (use v(2,3) True in \<open>auto simp: dec_post_def\<close>)
      with True v(1) show ?thesis by (simp add: Let_def del: conf.simps)
    next
      case False
      then have q: "int q < lim" "int p < eps_limit_ptr e" using v(4) by (simp_all add: ready_def)
      have inside: "\<not> \<not> int p < eps_limit_ptr e" using q(2) by simp
      have ready: "ready e p" using q(2) by (simp add: ready_def)
      show ?thesis unfolding v(1) prod.case Let_def if_not_P [OF False] if_not_P [OF inside]
      proof (rule tag_read [OF v(2) ready], goal_cases)
        case (1 p1 tag q1)
        have at1: "dec_at I lim ?d p1 q1" using dec_atD(2) [OF at] 1(3) by (rule dec_at_input)
        have tag: "at_tag n I lim K ?d p q p1 tag q1" using v(2) 1 q(1) lim(2) small at1 by (simp add: at_tag_def)
        have group: "dec_post (conf C (Suc n)) I lim q K target ((p1, map_option snd target), ?d\<lparr>dec_end_group := drop_bit 3 tag\<rparr>)"
          using 1(2,3) target_result [OF tc, of "K + q1"] field_number_group [of tag] by (auto simp: dec_post_def simp del: conf.simps)
        have more: "safe (bindR (upb_Decoder_FindField C target (drop_bit 3 tag) idx) (\<lambda>(ff, last_field_index').
           bindR (decode_field C dec ?d p1 target ff (drop_bit 3 tag) (tag AND 7)) (\<lambda>((p2, msg'), d2).
             decode_message_loop k C dec last_field_index' d2 p2
               (case (target, msg') of (Some (r, _), Some m) \<Rightarrow> Some (r, m) | _ \<Rightarrow> None)))) (dec_post (conf C (Suc n)) I lim q K target)"
          unfolding next_target_def [symmetric]
        proof (rule safe_bind [OF find_field_safe [OF env Suc.prems(6)]], clarify, rule safe_bind [OF field_safe [OF tag tc]], assumption, clarify)
          fix ff idx' p2 msg' and d2 :: "'a upb_Decoder"
          assume idx': "index_ok C target idx'" and post: "field_post C n I lim K q1 target ((p2, msg'), d2)"
          obtain q2 where q2: "q1 \<le> q2" "dec_at I lim d2 p2 q2" "result_conf (conf C (Suc n)) (K + q2) target msg'" using post by (auto simp: field_post_def)
          show "safe (decode_message_loop k C dec idx' d2 p2 (next_target target msg')) (dec_post (conf C (Suc n)) I lim q K target)"
          proof (rule safe_mono)
            have "0 < k" "lim - int q2 < int k" "lim - int q2 < int (Suc n)" using lim q(1) q2(1) 1(2) by simp_all
            from Suc.IH [OF q2(2) this next_target_ok(1) [OF q2(3)] next_target_ok(2) [OF q2(3) idx']]
            show "safe (decode_message_loop k C dec idx' d2 p2 (next_target target msg')) (dec_post (conf C (Suc n)) I lim q2 K target)"
              unfolding next_target_ok(3) [OF q2(3)] .
          qed (erule dec_post_later, use q2(1) 1(2) in simp)
        qed
        show ?case using group more by (simp del: conf.simps)
      qed
    qed
  qed
qed simp

end

end
