(* ===== verification/Decode_Safe.thy ===== *)
theory Decode_Safe
  imports Decode_Message
begin

unbundle bit_operations_syntax

text \<open>
  \<^verbatim>\<open>upb_Decode\<close> on any input: it returns, its status is an error or the message conforms to its table, and what
  was decoded can be encoded.
\<close>

section \<open>The decoder of messages\<close>

lemma conf_decoder_mono:
  assumes "conf_decoder C dec n" and "j \<le> n"
  shows "conf_decoder C dec j"
proof -
  have sub: "sub_decoder dec (conf C) n" and env: "env_ok C" using assms(1) by (simp_all add: conf_decoder_def conf_decoder_axioms_def)
  have "sub_decoder dec (conf C) j"
    by unfold_locales (use sub_decoder.dec_safe [OF sub] sub_decoder.conf_thawed [OF sub] assms(2) in auto)
  with env show ?thesis by (simp add: conf_decoder_def conf_decoder_axioms_def)
qed

lemma decoder_conf:
  assumes "env_ok C"
  shows "conf_decoder C (upb_Decoder_DecodeMessage C n) n"
proof (induction n)
  case 0
  show ?case by unfold_locales (auto simp: assms dest: conf_unfrozen)
next
  case (Suc n)
  have step: "safe (upb_Decoder_DecodeMessage C (Suc n) d ptr target) (dec_post (conf C k) I lim q K target)"
    if k: "0 < k" "k \<le> Suc n" and at: "dec_at I lim d ptr q" and len: "lim - int q < int k" and small: "K + length I < 2 ^ 29"
      and tc: "target_conf (conf C k) (K + q) target" for k I lim d ptr q K target
  proof -
    obtain j where j: "k = Suc j" "j \<le> n" using k by (cases k) auto
    have "conf_decoder C (upb_Decoder_DecodeMessage C n) j" using Suc.IH j(2) by (rule conf_decoder_mono)
    note loop = conf_decoder.loop_safe [OF this small at]
    have "lim \<le> int (length I)" "eps_input (dec_input d) = I" using stream_atD(2,6) [OF dec_atD(1) [OF at]] by simp_all
    then have rounds: "0 < input_rounds d" "lim - int q < int (input_rounds d)" by (simp_all add: input_rounds_def)
    have "index_ok C target 0" using tc j(1) by (auto simp: target_conf_def index_ok_def split: option.splits)
    with loop [OF rounds] len tc j(1) show ?thesis by (simp del: conf.simps)
  qed
  show ?case by unfold_locales (use step assms conf_unfrozen in \<open>blast+\<close>)
qed

section \<open>Options\<close>

text \<open>Conformance does not depend on the options.\<close>

lemma level_conf_options [simp]: "level_conf (C\<lparr>dec_options := x\<rparr>) P B r m msg = level_conf C P B r m msg"
  by (simp add: level_conf_def aux_conf_def)

lemma conf_options [simp]: "conf (C\<lparr>dec_options := x\<rparr>) k B r msg = conf C k B r msg"
proof (induction k arbitrary: r msg)
  case (Suc k)
  then have "conf (C\<lparr>dec_options := x\<rparr>) k B = conf C k B" by (intro ext)
  then show ?case by simp
qed simp

lemma env_options [simp]: "env_ok (C\<lparr>dec_options := x\<rparr>) = env_ok C"
  by (simp add: env_ok_def)

section \<open>The entry point\<close>

lemma decode_safe:
  assumes "env_ok C" and "length buf < k" "k \<le> fuel" and "B + length buf < 2 ^ 29" and "conf C k B r msg"
  shows "\<exists>status result. upb_Decode C fuel buf msg r options a = Ret (status, result)
    \<and> (case result of
         None \<Rightarrow> status \<noteq> kUpb_DecodeStatus_Ok
       | Some (msg', _) \<Rightarrow> status = kUpb_DecodeStatus_Malformed
           \<or> status \<in> {kUpb_DecodeStatus_Ok, kUpb_DecodeStatus_MissingRequired} \<and> conf C k (B + length buf) r msg')"
proof -
  let ?C = "C\<lparr>dec_options := ucast options\<rparr>"
  have "sub_decoder (upb_Decoder_DecodeMessage ?C fuel) (conf ?C) fuel"
    using decoder_conf [of ?C fuel] assms(1) by (simp add: conf_decoder_def)
  from sub_decoder.decode_with_safe [OF this assms(2-4), of r msg options a] assms(5) show ?thesis
    unfolding conf_options upb_Decode_def by blast
qed

section \<open>Properties\<close>


text \<open>A well-formed table with a number and a sub-message of the same type, and an arena that does not fail.\<close>

definition tree_table :: upb_MiniTable where
  "tree_table = mini_table [Submsg (Mt 0)]
     [mini_table_field 1 12 64 kUpb_NoSub kUpb_FieldType_Int32 66,
      mini_table_field 2 16 65 0 kUpb_FieldType_Message 194] 24 2 kUpb_ExtMode_NonExtendable 2 0"

definition tree_env :: "nat dec_env" where
  "tree_env = \<lparr> dec_malloc = counting_malloc, dec_realloc = zero_realloc, dec_tables = [tree_table], dec_extreg = None, dec_options = 0 \<rparr>"

lemma tree_env_ok: "env_ok tree_env"
proof -
  have "table_ok [tree_table] tree_table"
    by (simp add: table_ok_def tree_table_def mini_table_def mini_table_field_def mt_fields_wf_def mt_layout_wf_def mt_links_wf_def field_wf_def
        required_wf_def cells_apart_def cell_in_message_def field_cell_def presence_cell_def rep_size_def rep_align_def upb_MiniTableField_GetRep_def
        upb_MiniTableField_IsExtension_def upb_MiniTableField_IsAlternate_def upb_MiniTableField_IsScalar_def
        upb_MiniTableField_IsArray_def upb_MiniTableField_IsMap_def upb_MiniTableField_IsPacked_def
        upb_MiniTableField_IsSubMessage_def upb_MiniTableField_IsClosedEnum_def upb_MiniTableField_Mode_def upt_conv_Cons)
  then show ?thesis using alloc_total_map_alloc [OF counting.malloc_total] zero_realloc_ok
    by (simp add: env_ok_def tree_env_def registry_ok_def)
qed

lemma tree_table_of: "mini_table_of (dec_tables tree_env) (Mt 0) = (Ret tree_table :: ('e, _) res)"
  by (simp add: tree_env_def mini_table_of_def)

lemma tree_conf: "conf tree_env 3 0 (Mt 0) empty_msg"
  using empty_conf [OF tree_table_of, of 2 0] by (simp only: numeral_3_eq_3 numeral_2_eq_2)

text \<open>The parse of one field.\<close>

lemmas parse_defs = upb_Decode_def upb_Decode_with_def upb_EpsCopyInputStream_Init_def upb_Decoder_DecodeTop_def Let_def tree_env_def empty_msg_def

lemmas one_field_defs = upb_Decoder_IsDone_def upb_EpsCopyInputStream_IsDoneWithCallback_def upb_EpsCopyInputStream_IsDoneStatus_def
  narrow32_def upb_Decoder_DecodeTag_def upb_Decoder_FindField_def find_field_index_def decode_field_def upb_Decoder_DecodeWireValue_def
  upb_Decoder_DecodeVarint_def upb_Decoder_Munge_def upb_Decoder_GetVarintOp_def upb_Decoder_DecodeKnownField_def decode_to_field_def
  upb_Decoder_DecodeToSubMessage_def decode_set_presence_def upb_Message_SetHasbit_def decode_store_def wireval_cell_def msg_set_def
  msg_cell_def decode_finish_def Let_def tree_table_def mini_table_def mini_table_field_def mini_table_of_def upb_MiniTableField_IsArray_def
  upb_MiniTableField_Mode_def upb_MiniTableField_IsMap_def upb_MiniTableField_IsExtension_def upb_MiniTableField_IsScalar_def
  upb_MiniTableField_HasHasbit_def upb_MiniTableField_HasbitOffset_def upb_MiniTableField_HasbitMask_def

lemma tree_decodes:
  "case upb_Decode tree_env 3 [8, 1] empty_msg (Mt 0) 0 0 of
     Ret (status, Some (msg', _)) \<Rightarrow> status = kUpb_DecodeStatus_Ok \<and> msg_cell msg' 12 = Cell4 1
   | _ \<Rightarrow> False"
  by (simp add: parse_defs, simp add: input_rounds_def numeral_eq_Suc, simp add: one_field_defs)

lemma tree_decoded:
  "\<exists>msg' a'. upb_Decode tree_env 3 [8, 1] empty_msg (Mt 0) 0 0 = Ret (kUpb_DecodeStatus_Ok, Some (msg', a')) \<and> msg_cell msg' 12 = Cell4 1"
  using tree_decodes by (auto split: res.splits option.splits)




end
