(* ===== verification/Decode_Required.thy ===== *)
theory Decode_Required
  imports Decode_Safe
begin

unbundle bit_operations_syntax

text \<open>
  The check of required fields in \<^verbatim>\<open>wire/decode.c\<close>, on two message types of which one contains the other and both
  have a required field.
\<close>

definition required_tables :: "upb_MiniTable list" where
  "required_tables =
     [mini_table [Submsg (Mt 1)] [mini_table_field 1 16 64 0 kUpb_FieldType_Message 194] 24 1 kUpb_ExtMode_NonExtendable 1 1,
      mini_table [] [mini_table_field 1 12 64 kUpb_NoSub kUpb_FieldType_Int32 66] 16 1 kUpb_ExtMode_NonExtendable 1 1]"

definition required_env :: "nat dec_env" where
  "required_env = \<lparr> dec_malloc = counting_malloc, dec_realloc = zero_realloc, dec_tables = required_tables, dec_extreg = None, dec_options = 0 \<rparr>"

lemmas sub_message_defs = upb_Decoder_DecodeSize_def upb_EpsCopyInputStream_CheckSize_def upb_Decoder_GetDelimitedOp_def
  upb_Decoder_CheckUnlinked_def upb_Decoder_MaybeVerifyUtf8_def upb_Decoder_NewSubMessage_def upb_Decoder_NewSubMessage2_def
  upb_Message_New_def decode_group_or_message_def upb_Decoder_DecodeSubMessage_def upb_EpsCopyInputStream_PushLimit_def
  upb_EpsCopyInputStream_PopLimit_def upb_Decoder_RecurseSubMessage_def upb_Decoder_CheckRequired_def
  upb_Message_IsInitializedShallow_def hasbit_set_def upb_MiniTableSubs_MessageByField_def counting_malloc_def
  upb_DecodeOptions_GetEffectiveMaxDepth_def int32_res_def upb_EpsCopyInputStream_CheckLimit_def eps_set_limit_def input_rounds_def

lemma required_run:
  "case upb_Decode required_env 3 [10, 0] empty_msg (Mt 0) (ucast kUpb_DecodeOption_CheckRequired) 0 of
     Ret (status, Some (msg', _)) \<Rightarrow> status = kUpb_DecodeStatus_Ok \<and> msg_cell msg' 16 = CellMsg False empty_msg
   | _ \<Rightarrow> False"
  by (simp add: parse_defs required_env_def, simp add: input_rounds_def numeral_eq_Suc, simp add: one_field_defs required_tables_def,
      simp add: sub_message_defs one_field_defs, simp add: sub_message_defs one_field_defs numeral_eq_Suc,
      simp add: sub_message_defs one_field_defs empty_msg_def)

section \<open>Property\<close>


end
