(* ===== verification/Generated_Decode.thy ===== *)
theory Generated_Decode
  imports Generated_Tables Decode_Safe
begin

unbundle bit_operations_syntax

text \<open>
  The decoder on the generated message types: their tables are what the decoder assumes of tables, also for
  the entries of map fields, and the generated extensions are what it assumes of extensions.
\<close>

section \<open>Links of map fields\<close>

text \<open>The positions of the entry tables of maps, and the check of one table.\<close>

definition map_entry_refs :: "nat list" where
  "map_entry_refs = [37, 56, 59, 63, 83, 89, 91, 107, 108, 111, 112]"

definition map_links :: "upb_MiniTable \<Rightarrow> bool" where
  "map_links m \<longleftrightarrow> ext m \<noteq> kUpb_ExtMode_IsMessageSet \<and> list_all (\<lambda>f. number f < 536870912 \<and> (upb_MiniTableField_IsMap f \<longrightarrow>
     (case subs m ! submsg_index f of Submsg (Mt i) \<Rightarrow> i \<in> set map_entry_refs | _ \<Rightarrow> False))) (mt_fields m)"

lemmas map_link_simps = map_links_def map_entry_refs_def mini_table_def mini_table_field_def upb_MiniTableField_IsMap_def upb_MiniTableField_Mode_def

lemma gen_descriptor_links: "list_all map_links gen_descriptor_tables"
  by (simp add: gen_descriptor_tables_def gen_descriptor_inits map_link_simps)

lemma gen_wellknown_links: "list_all map_links gen_wellknown_tables"
  by (simp add: gen_wellknown_tables_def gen_wellknown_inits map_link_simps)

lemma gen_grpc_links: "list_all map_links gen_grpc_tables"
  by (simp add: gen_grpc_tables_def gen_grpc_inits map_link_simps)

lemma gen_expr_links: "list_all map_links gen_expr_tables"
  by (simp add: gen_expr_tables_def gen_expr_inits map_link_simps)

lemma gen_validate_links: "list_all map_links gen_validate_tables"
  by (simp add: gen_validate_tables_def gen_validate_inits map_link_simps)

lemma map_entry_tables:
  "map ((!) generated_tables) map_entry_refs = [google__protobuf__Struct__FieldsEntry_msg_init,
     grpc__gcp__AltsContext__PeerAttributesEntry_msg_init, grpc__gcp__Identity__AttributesEntry_msg_init,
     grpc__gcp__StartServerHandshakeReq__HandshakeParametersEntry_msg_init, grpc__lookup__v1__RouteLookupRequest__KeyMapEntry_msg_init,
     grpc__lookup__v1__GrpcKeyBuilder__ConstantKeysEntry_msg_init, grpc__lookup__v1__HttpKeyBuilder__ConstantKeysEntry_msg_init,
     google__api__expr__v1alpha1__SourceInfo__PositionsEntry_msg_init, google__api__expr__v1alpha1__SourceInfo__MacroCallsEntry_msg_init,
     google__api__expr__v1alpha1__CheckedExpr__ReferenceMapEntry_msg_init, google__api__expr__v1alpha1__CheckedExpr__TypeMapEntry_msg_init]"
  by (simp add: map_entry_refs_def generated_tables_def gen_descriptor_tables_def gen_wellknown_tables_def gen_grpc_tables_def
      gen_expr_tables_def)

lemma map_entries_wf: "list_all entry_wf (map ((!) generated_tables) map_entry_refs)"
  unfolding map_entry_tables
  by (simp add: entry_wf_def gen_wellknown_inits gen_grpc_inits gen_expr_inits mini_table_def mini_table_field_def
      upb_MiniTableField_IsScalar_def upb_MiniTableField_IsSubMessage_def upb_MiniTableField_Mode_def)

section \<open>The environment of the generated code\<close>

definition generated_extensions :: "upb_MiniTableExtension list" where
  "generated_extensions = [google_api_http_ext, validate_disabled_ext, validate_ignored_ext, validate_required_ext, validate_rules_ext]"

lemma generated_length: "length generated_tables = 146"
  by (simp add: generated_tables_def gen_descriptor_tables_def gen_wellknown_tables_def gen_grpc_tables_def gen_expr_tables_def gen_validate_tables_def)

lemma generated_table_ok:
  assumes "m \<in> set generated_tables"
  shows "table_ok generated_tables m"
proof -
  have wf: "mt_wf m" using assms gen_descriptor_tables_wf gen_wellknown_tables_wf gen_grpc_tables_wf gen_expr_tables_wf gen_validate_tables_wf
    by (auto simp: generated_tables_def list_all_iff)
  have subs: "list_all sub_wf (subs m)"
    using assms gen_descriptor_tables_subs gen_wellknown_tables_subs gen_grpc_tables_subs gen_expr_tables_subs gen_validate_tables_subs
    by (auto simp: generated_tables_def list_all_iff)
  have links: "map_links m"
    using assms gen_descriptor_links gen_wellknown_links gen_grpc_links gen_expr_links gen_validate_links
    by (auto simp: generated_tables_def list_all_iff)
  have field: "number f < 2 ^ 29 \<and> (upb_MiniTableField_IsMap f \<longrightarrow> map_link_wf generated_tables m f)" if f: "f \<in> set (mt_fields m)" for f
  proof -
    have fl: "number f < 2 ^ 29" "upb_MiniTableField_IsMap f \<Longrightarrow> (case subs m ! submsg_index f of Submsg (Mt i) \<Rightarrow> i \<in> set map_entry_refs | _ \<Rightarrow> False)"
      using links f by (auto simp: map_links_def list_all_iff)
    have "map_link_wf generated_tables m f" if mp: "upb_MiniTableField_IsMap f"
    proof -
      obtain i where i: "subs m ! submsg_index f = Submsg (Mt i)" "i \<in> set map_entry_refs"
        using fl(2) [OF mp] by (auto split: upb_MiniTableSub.splits mt_ref.splits)
      have "entry_wf (generated_tables ! i)" using map_entries_wf i(2) by (simp add: list_all_iff)
      moreover have "i < length generated_tables" using i(2) by (auto simp: generated_length map_entry_refs_def)
      moreover have "field_wf m f" using wf f by (simp add: mt_wf_def mt_layout_wf_def list_all_iff)
      then have "submsg_index f < length (subs m)" using mp by (simp add: field_wf_def upb_MiniTableField_IsSubMessage_def)
      ultimately show ?thesis using i(1) by (auto simp: map_link_wf_def)
    qed
    with fl(1) show ?thesis by simp
  qed
  have "enum_wf e" if "Subenum e \<in> set (subs m)" for e using subs that by (auto simp: list_all_iff sub_wf_def)
  with wf field show ?thesis by (auto simp: table_ok_def mt_wf_def generated_length)
qed

lemma generated_extensions_wf: "x \<in> set generated_extensions \<Longrightarrow> ext_wf generated_tables x"
  by (auto simp: generated_extensions_def ext_wf_def generated_length google_api_http_ext_def validate_disabled_ext_def validate_ignored_ext_def
      validate_required_ext_def validate_rules_ext_def table_simps)

lemma generated_no_message_set: "list_all (\<lambda>m. ext m \<noteq> kUpb_ExtMode_IsMessageSet) generated_tables"
  using gen_descriptor_links gen_wellknown_links gen_grpc_links gen_expr_links gen_validate_links
  by (auto simp: generated_tables_def list_all_iff map_links_def)

text \<open>A registry of generated extensions.\<close>

definition generated_registry :: "upb_ExtensionRegistry option \<Rightarrow> bool" where
  "generated_registry reg = (case reg of None \<Rightarrow> True | Some g \<Rightarrow> extreg_ok g \<and> ran (extreg_map g) \<subseteq> set generated_extensions)"

lemma generated_env_ok:
  assumes "dec_tables C = generated_tables" and "generated_registry (dec_extreg C)" and "map_alloc_ok (dec_malloc C)" and "realloc_ok (dec_realloc C)"
  shows "env_ok C"
proof -
  have "registry_ok generated_tables (dec_extreg C)"
    using assms(2) generated_extensions_wf generated_no_message_set
    by (fastforce simp: generated_registry_def registry_ok_def ran_def list_all_length split: option.splits)
  with assms generated_table_ok show ?thesis by (simp add: env_ok_def)
qed

text \<open>The registry into which the generated extensions are added as an array.\<close>

definition linked_extensions :: "upb_ExtensionRegistry option" where
  "linked_extensions = (case upb_ExtensionRegistry_New counting_malloc 0 of
       None \<Rightarrow> None
     | Some (r, a) \<Rightarrow> (case upb_ExtensionRegistry_AddArray counting_malloc r generated_extensions a of Ret (_, r', _) \<Rightarrow> Some r' | _ \<Rightarrow> None))"

definition generated_env :: "u16 \<Rightarrow> nat dec_env" where
  "generated_env options = \<lparr> dec_malloc = counting_malloc, dec_realloc = zero_realloc, dec_tables = generated_tables,
     dec_extreg = linked_extensions, dec_options = options \<rparr>"

lemma linked_extensions_ok: "generated_registry linked_extensions"
proof -
  let ?r = "\<lparr> exts = new_table 4, ext_objs = [] \<rparr>"
  note init = fresh_registry(1) and ok = fresh_registry(2) and emp = fresh_registry(3)
  from extreg_add_loop_law [OF counting.malloc_total ok, of generated_extensions "[]" 424] obtain status r' a' where
    r': "upb_ExtensionRegistry_AddArray counting_malloc ?r generated_extensions 424 = Ret (status, r', a')" "extreg_ok r'"
    "extreg_map r' = ext_entries generated_extensions \<or> extreg_map r' = Map.empty"
    by (auto simp: upb_ExtensionRegistry_AddArray_def emp generated_extensions_def split: if_splits)
  have "ran (ext_entries generated_extensions) \<subseteq> set generated_extensions" by (auto simp: ran_def dest: map_of_SomeD)
  then have "ran (extreg_map r') \<subseteq> set generated_extensions" using r'(3) by auto
  with r'(1,2) init show ?thesis by (simp add: linked_extensions_def generated_registry_def)
qed

lemma generated_env_sel [simp]:
  "dec_tables (generated_env options) = generated_tables" "dec_extreg (generated_env options) = linked_extensions"
  "dec_malloc (generated_env options) = counting_malloc" "dec_realloc (generated_env options) = zero_realloc"
  by (simp_all add: generated_env_def)

lemma generated_arena: "env_ok (generated_env options)"
  by (rule generated_env_ok) (simp_all add: linked_extensions_ok zero_realloc_ok alloc_total_map_alloc counting.malloc_total)

interpretation generated: conf_decoder "generated_env options" "upb_Decoder_DecodeMessage (generated_env options) n" n for options n
  by (rule decoder_conf [OF generated_arena])

section \<open>Properties\<close>



end
