(* ===== verification/Msg_Access.thy ===== *)
theory Msg_Access
  imports Generated_Decode
begin

unbundle bit_operations_syntax

text \<open>
  The accessors of \<^verbatim>\<open>message/internal/accessors.h\<close>: presence, getters, setters and the operations that clear a
  field, a oneof, an extension or a whole message. A value is a cell; copying it to or from a field is a
  fault when the cell is not what the representation of the field says. The locale \<open>field_store\<close> is the
  contract of the fields of a message; the model's operations are shown to satisfy it.
\<close>

section \<open>Definitions\<close>

subsection \<open>Data\<close>

fun rep_holds :: "u8 \<Rightarrow> upb_cell \<Rightarrow> bool" where
  "rep_holds r Zero \<longleftrightarrow> r \<le> 3"
| "rep_holds r (Cell1 _) \<longleftrightarrow> r = kUpb_FieldRep_1Byte"
| "rep_holds r (Cell4 _) \<longleftrightarrow> r = kUpb_FieldRep_4Byte"
| "rep_holds r (CellStr _) \<longleftrightarrow> r = kUpb_FieldRep_StringView"
| "rep_holds r (Cell8 _) \<longleftrightarrow> r = kUpb_FieldRep_8Byte"
| "rep_holds r (CellMsg _ _) \<longleftrightarrow> r = kUpb_FieldRep_NativePointer"
| "rep_holds r (CellArr _ _ _ _) \<longleftrightarrow> r = kUpb_FieldRep_NativePointer"
| "rep_holds r (CellMap _ _ _ _ _) \<longleftrightarrow> r = kUpb_FieldRep_NativePointer"
| "rep_holds r Undef \<longleftrightarrow> False"

definition upb_MiniTableField_DataCopy :: "upb_MiniTableField \<Rightarrow> upb_cell \<Rightarrow> (unit, upb_cell) res" where
  "upb_MiniTableField_DataCopy f from = (if rep_holds (upb_MiniTableField_GetRep f) from then Ret from else Fault)"

text \<open>\<^verbatim>\<open>_upb_MiniTableField_DataIsZero\<close>; a string view is zero when it is empty.\<close>

fun cell_zero :: "upb_cell \<Rightarrow> bool" where
  "cell_zero Zero \<longleftrightarrow> True"
| "cell_zero (Cell1 b) \<longleftrightarrow> b = 0"
| "cell_zero (Cell4 w) \<longleftrightarrow> w = 0"
| "cell_zero (Cell8 w) \<longleftrightarrow> w = 0"
| "cell_zero (CellStr s) \<longleftrightarrow> s = []"
| "cell_zero _ \<longleftrightarrow> False"

definition upb_MiniTableField_DataIsZero :: "upb_MiniTableField \<Rightarrow> upb_cell \<Rightarrow> (unit, bool) res" where
  "upb_MiniTableField_DataIsZero f c = (if rep_holds (upb_MiniTableField_GetRep f) c then Ret (cell_zero c) else Fault)"

subsection \<open>Presence\<close>

definition upb_Message_SetPresence :: "upb_Message \<Rightarrow> upb_MiniTableField \<Rightarrow> (unit, upb_Message) res" where
  "upb_Message_SetPresence msg f =
     (if upb_MiniTableField_HasHasbit f then upb_Message_SetHasbit msg f
      else if upb_MiniTableField_IsInOneof f then upb_Message_SetOneofCase msg f
      else Ret msg)"

definition upb_Message_HasBaseField :: "upb_Message \<Rightarrow> upb_MiniTableField \<Rightarrow> (unit, bool) res" where
  "upb_Message_HasBaseField msg f =
     (if \<not> upb_MiniTableField_HasPresence f \<or> upb_MiniTableField_IsExtension f then Fault
      else if upb_MiniTableField_IsInOneof f then
        bindR (upb_Message_GetOneofCase msg f) (\<lambda>n. Ret (n = of_nat (number f)))
      else upb_Message_GetHasbit msg f)"

definition upb_Message_HasExtension :: "upb_Message \<Rightarrow> upb_MiniTableExtension \<Rightarrow> (unit, bool) res" where
  "upb_Message_HasExtension msg x =
     (if \<not> upb_MiniTableField_HasPresence (ext_field x) then Fault else Ret (\<not> Option.is_none (upb_Message_Getext msg x)))"

definition upb_Message_ClearOneofCase :: "upb_Message \<Rightarrow> upb_MiniTableField \<Rightarrow> (unit, bool \<times> upb_Message) res" where
  "upb_Message_ClearOneofCase msg f =
     bindR (upb_MiniTableField_OneofOffset f) (\<lambda>off.
     bindR (cell4 (msg_cell msg off)) (\<lambda>n.
       if n \<noteq> of_nat (number f) then Ret (False, msg) else Ret (True, msg_set msg off (Cell4 0))))"

definition upb_Message_WhichOneofFieldNumber :: "upb_Message \<Rightarrow> upb_MiniTableField \<Rightarrow> (unit, u32) res" where
  "upb_Message_WhichOneofFieldNumber msg f =
     (if upb_MiniTableField_IsInOneof f then upb_Message_GetOneofCase msg f else Fault)"

definition upb_Message_WhichOneof :: "upb_Message \<Rightarrow> upb_MiniTable \<Rightarrow> upb_MiniTableField \<Rightarrow> (unit, nat option) res" where
  "upb_Message_WhichOneof msg m f =
     bindR (upb_Message_WhichOneofFieldNumber msg f) (\<lambda>n.
       if n = 0 then Ret None else upb_MiniTable_FindFieldByNumber m (unat n))"

subsection \<open>Getting and setting\<close>

definition upb_Message_GetNonExtensionField :: "upb_Message \<Rightarrow> upb_MiniTableField \<Rightarrow> upb_cell \<Rightarrow> (unit, upb_cell) res" where
  "upb_Message_GetNonExtensionField msg f default_val =
     (if upb_MiniTableField_IsExtension f then Fault
      else bindR (if upb_MiniTableField_IsInOneof f then Ret True
                  else bindR (upb_MiniTableField_DataIsZero f default_val) (\<lambda>z. Ret (\<not> z))) (\<lambda>look.
           bindR (if look then upb_Message_HasBaseField msg f else Ret True) (\<lambda>has.
             upb_MiniTableField_DataCopy f (if has then msg_cell msg (offset f) else default_val))))"

definition upb_Message_GetExtensionField :: "upb_Message \<Rightarrow> upb_MiniTableExtension \<Rightarrow> upb_cell \<Rightarrow> (unit, upb_cell) res" where
  "upb_Message_GetExtensionField msg x default_val =
     (if \<not> upb_MiniTableField_IsExtension (ext_field x) then Fault
      else case upb_Message_Getext msg x of
          None \<Rightarrow> upb_MiniTableField_DataCopy (ext_field x) default_val
        | Some i \<Rightarrow> bindR (rd (msg_aux msg) i) (\<lambda>s. case s of
            AuxExt _ c \<Rightarrow> upb_MiniTableField_DataCopy (ext_field x) c
          | _ \<Rightarrow> Fault))"

definition upb_Message_SetBaseField :: "upb_Message \<Rightarrow> upb_MiniTableField \<Rightarrow> upb_cell \<Rightarrow> (unit, upb_Message) res" where
  "upb_Message_SetBaseField msg f v =
     (if msg_frozen msg \<or> upb_MiniTableField_IsExtension f then Fault
      else bindR (upb_Message_SetPresence msg f) (\<lambda>msg1.
           bindR (upb_MiniTableField_DataCopy f v) (\<lambda>c. Ret (msg_set msg1 (offset f) c))))"

definition upb_Message_SetExtension ::
  "'a alloc \<Rightarrow> 'a realloc \<Rightarrow> upb_Message \<Rightarrow> upb_MiniTableExtension \<Rightarrow> upb_cell \<Rightarrow> 'a \<Rightarrow> (unit, bool \<times> upb_Message \<times> 'a) res" where
  "upb_Message_SetExtension malloc realloc msg x v a =
     bindR (upb_Message_GetOrCreateExtension malloc realloc msg x a) (\<lambda>(slot, msg1, a1).
       case slot of
         None \<Rightarrow> Ret (False, msg1, a1)
       | Some i \<Rightarrow> bindR (upb_MiniTableField_DataCopy (ext_field x) v) (\<lambda>c. Ret (True, msg_set_aux msg1 i (AuxExt x c), a1)))"

definition upb_Message_GetArray :: "upb_Message \<Rightarrow> upb_MiniTableField \<Rightarrow> (unit, upb_cell) res" where
  "upb_Message_GetArray msg f =
     (if upb_MiniTableField_GetRep f = kUpb_FieldRep_NativePointer \<and> upb_MiniTableField_IsArray f \<and> presence f = 0
      then upb_Message_GetNonExtensionField msg f Zero else Fault)"

definition upb_Message_GetMap :: "upb_Message \<Rightarrow> upb_MiniTableField \<Rightarrow> (unit, upb_cell) res" where
  "upb_Message_GetMap msg f =
     (if upb_MiniTableField_GetRep f = kUpb_FieldRep_NativePointer \<and> upb_MiniTableField_IsMap f \<and> presence f = 0
      then upb_Message_GetNonExtensionField msg f Zero else Fault)"

definition upb_Message_GetTaggedMessagePtr :: "upb_Message \<Rightarrow> upb_MiniTableField \<Rightarrow> (unit, upb_cell) res" where
  "upb_Message_GetTaggedMessagePtr msg f =
     bindR (upb_MiniTableField_CType f) (\<lambda>t.
       if t = kUpb_CType_Message \<and> upb_MiniTableField_GetRep f = kUpb_FieldRep_8Byte \<and> upb_MiniTableField_IsScalar f
       then upb_Message_GetNonExtensionField msg f Zero else Fault)"

text \<open>\<^verbatim>\<open>upb_Message_GetMessage\<close>: a tagged pointer fails the assertion of \<^verbatim>\<open>upb_TaggedMessagePtr_GetNonEmptyMessage\<close>.\<close>

definition upb_Message_GetMessage :: "upb_Message \<Rightarrow> upb_MiniTableField \<Rightarrow> (unit, upb_Message option) res" where
  "upb_Message_GetMessage msg f =
     bindR (upb_Message_GetTaggedMessagePtr msg f) (\<lambda>c. case c of
         Zero \<Rightarrow> Ret None
       | CellMsg False sub \<Rightarrow> Ret (Some sub)
       | _ \<Rightarrow> Fault)"

definition upb_Message_SetTaggedMessagePtr :: "upb_Message \<Rightarrow> upb_MiniTableField \<Rightarrow> upb_cell \<Rightarrow> (unit, upb_Message) res" where
  "upb_Message_SetTaggedMessagePtr msg f c =
     bindR (upb_MiniTableField_CType f) (\<lambda>t.
       if t = kUpb_CType_Message \<and> upb_MiniTableField_GetRep f = kUpb_FieldRep_8Byte \<and> upb_MiniTableField_IsScalar f
       then upb_Message_SetBaseField msg f c else Fault)"

definition upb_Message_SetBaseFieldMessage :: "upb_Message \<Rightarrow> upb_MiniTableField \<Rightarrow> upb_Message \<Rightarrow> (unit, upb_Message) res" where
  "upb_Message_SetBaseFieldMessage msg f sub = upb_Message_SetTaggedMessagePtr msg f (CellMsg False sub)"

text \<open>
  \<^verbatim>\<open>upb_Message_GetOrCreateMutableMessage\<close> reads the pointer at the offset of the field without a look at the
  oneof case; what another member of the oneof has stored there is taken for the pointer.
\<close>

definition upb_Message_GetOrCreateMutableMessage ::
  "'a alloc \<Rightarrow> upb_MiniTable list \<Rightarrow> upb_Message \<Rightarrow> upb_MiniTable \<Rightarrow> upb_MiniTableField \<Rightarrow> 'a
     \<Rightarrow> (unit, upb_Message option \<times> upb_Message \<times> 'a) res" where
  "upb_Message_GetOrCreateMutableMessage malloc T msg m f a =
     bindR (upb_MiniTableField_CType f) (\<lambda>t.
       if t \<noteq> kUpb_CType_Message \<or> upb_MiniTableField_IsExtension f then Fault
       else if cell_zero (msg_cell msg (offset f)) then
             bindR (upb_MiniTable_SubMessage m f) (\<lambda>r. case r of
                 None \<Rightarrow> Fault
               | Some r \<Rightarrow> bindR (mini_table_of T r) (\<lambda>sub_mini_table.
                   case upb_Message_New malloc sub_mini_table a of
                     None \<Rightarrow> bindR (upb_Message_SetPresence (msg_set msg (offset f) Zero) f) (\<lambda>msg1. Ret (None, msg1, a))
                   | Some (sub, a1) \<Rightarrow>
                       bindR (upb_Message_SetPresence (msg_set msg (offset f) (CellMsg False sub)) f) (\<lambda>msg1. Ret (Some sub, msg1, a1))))
       else case msg_cell msg (offset f) of CellMsg False sub \<Rightarrow> Ret (Some sub, msg, a) | _ \<Rightarrow> Fault)"

subsection \<open>Clearing\<close>

text \<open>
  \<^verbatim>\<open>upb_Message_Clear\<close> zeroes the memory with the pointer to the slot array in it, and so the array is lost, not
  emptied.
\<close>

definition upb_Message_Clear :: "upb_Message \<Rightarrow> upb_MiniTable \<Rightarrow> (unit, upb_Message) res" where
  "upb_Message_Clear msg m =
     (if msg_frozen msg then Fault
      else Ret (upb_Message False 0 (\<lambda>off. if off < mt_size m then Zero else msg_mem msg off) []))"

definition upb_Message_ClearBaseField :: "upb_Message \<Rightarrow> upb_MiniTableField \<Rightarrow> (unit, upb_Message) res" where
  "upb_Message_ClearBaseField msg f =
     (if msg_frozen msg then Fault
      else if upb_MiniTableField_HasHasbit f then
        bindR (upb_Message_ClearHasbit msg f) (\<lambda>msg1. Ret (msg_set msg1 (offset f) Zero))
      else if upb_MiniTableField_IsInOneof f then
        bindR (upb_Message_ClearOneofCase msg f) (\<lambda>(was, msg1). Ret (if was then msg_set msg1 (offset f) Zero else msg1))
      else Ret (msg_set msg (offset f) Zero))"

definition upb_Message_ClearExtension :: "upb_Message \<Rightarrow> upb_MiniTableExtension \<Rightarrow> (unit, upb_Message) res" where
  "upb_Message_ClearExtension msg x =
     (if msg_frozen msg then Fault
      else Ret (case upb_Message_Getext msg x of None \<Rightarrow> msg | Some i \<Rightarrow> msg_set_aux msg i AuxNull))"

definition upb_Message_ClearOneof :: "upb_Message \<Rightarrow> upb_MiniTable \<Rightarrow> upb_MiniTableField \<Rightarrow> (unit, upb_Message) res" where
  "upb_Message_ClearOneof msg m f =
     (if msg_frozen msg then Fault
      else bindR (upb_Message_WhichOneofFieldNumber msg f) (\<lambda>n.
        if n = 0 then Ret msg
        else bindR (upb_MiniTable_FindFieldByNumber m (unat n)) (\<lambda>i. case i of
            None \<Rightarrow> Fault
          | Some i \<Rightarrow> bindR (rd (mt_fields m) i) (upb_Message_ClearBaseField msg))))"

section \<open>The contract of the fields of a message\<close>

fun run_ops :: "('o \<Rightarrow> 'm \<Rightarrow> (unit, 'm) res) \<Rightarrow> 'o list \<Rightarrow> 'm \<Rightarrow> (unit, 'm) res" where
  "run_ops step [] st = Ret st"
| "run_ops step (op # ops) st = bindR (step op st) (run_ops step ops)"

text \<open>An operation sets a field to a value, or clears it; its effect on the values of the fields.\<close>

definition store_step :: "('m \<Rightarrow> 'f \<Rightarrow> 'v \<Rightarrow> (unit, 'm) res) \<Rightarrow> ('m \<Rightarrow> 'f \<Rightarrow> (unit, 'm) res) \<Rightarrow> 'f \<times> 'v option \<Rightarrow> 'm \<Rightarrow> (unit, 'm) res" where
  "store_step set_field clear_field op st = (case snd op of None \<Rightarrow> clear_field st (fst op) | Some v \<Rightarrow> set_field st (fst op) v)"

definition store_effect :: "('f \<Rightarrow> 'f \<Rightarrow> bool) \<Rightarrow> ('f \<Rightarrow> bool) \<Rightarrow> 'v \<Rightarrow> 'f \<times> 'v option \<Rightarrow> ('f \<Rightarrow> 'v option) \<Rightarrow> 'f \<Rightarrow> 'v option" where
  "store_effect rival plain zero op \<sigma> g = (if g = fst op then (if snd op = None \<and> plain g then Some zero else snd op)
     else if snd op \<noteq> None \<and> rival (fst op) g then None else \<sigma> g)"

text \<open>
  A store of fields: \<open>value st f\<close> is the value of a field that is set. Setting a field unsets its rivals, the
  other members of its oneof; \<open>plain f\<close> are the fields without presence, which always have a value.
\<close>

locale field_store =
  fixes fields :: "'f set" and inv :: "'m \<Rightarrow> bool" and ok :: "'f \<Rightarrow> 'v \<Rightarrow> bool" and rival :: "'f \<Rightarrow> 'f \<Rightarrow> bool" and plain :: "'f \<Rightarrow> bool"
    and zero :: 'v and val_of :: "'m \<Rightarrow> 'f \<Rightarrow> 'v option" and set_field :: "'m \<Rightarrow> 'f \<Rightarrow> 'v \<Rightarrow> (unit, 'm) res"
    and clear_field :: "'m \<Rightarrow> 'f \<Rightarrow> (unit, 'm) res"
  assumes set_law: "inv st \<Longrightarrow> f \<in> fields \<Longrightarrow> ok f v \<Longrightarrow> \<exists>st'. set_field st f v = Ret st' \<and> inv st'
      \<and> (\<forall>g \<in> fields. val_of st' g = (if g = f then Some v else if rival f g then None else val_of st g))"
    and clear_law: "inv st \<Longrightarrow> f \<in> fields \<Longrightarrow> \<exists>st'. clear_field st f = Ret st' \<and> inv st'
      \<and> (\<forall>g \<in> fields. val_of st' g = (if g = f then (if plain f then Some zero else None) else val_of st g))"
begin

abbreviation step where "step \<equiv> store_step set_field clear_field"

abbreviation effect where "effect \<equiv> store_effect rival plain zero"

lemma run_law:
  assumes "inv st" and "\<forall>(f, v) \<in> set ops. f \<in> fields \<and> (\<forall>c. v = Some c \<longrightarrow> ok f c)"
  shows "\<exists>st'. run_ops step ops st = Ret st' \<and> inv st' \<and> (\<forall>g \<in> fields. val_of st' g = fold effect ops (val_of st) g)"
  using assms
proof (induction ops arbitrary: st)
  case (Cons op ops)
  obtain f v where op: "op = (f, v)" by (cases op)
  have "\<exists>st1. step op st = Ret st1 \<and> inv st1 \<and> (\<forall>g \<in> fields. val_of st1 g = effect op (val_of st) g)"
  proof (cases v)
    case None
    then show ?thesis using clear_law [OF Cons.prems(1), of f] Cons.prems(2) by (auto simp: op store_step_def store_effect_def)
  next
    case (Some c)
    then show ?thesis using set_law [OF Cons.prems(1), of f c] Cons.prems(2) by (auto simp: op store_step_def store_effect_def)
  qed
  then obtain st1 where st1: "step op st = Ret st1" "inv st1" "\<forall>g \<in> fields. val_of st1 g = effect op (val_of st) g" by blast
  have congr: "\<forall>g \<in> fields. fold effect os a g = fold effect os b g" if "\<forall>g \<in> fields. a g = b g" for os a b
    using that by (induction os arbitrary: a b) (simp_all add: store_effect_def)
  obtain st' where "run_ops step ops st1 = Ret st'" "inv st'" "\<forall>g \<in> fields. val_of st' g = fold effect ops (val_of st1) g"
    using Cons.IH [OF st1(2)] Cons.prems(2) by auto
  with st1 congr [OF st1(3), of ops] show ?case by simp
qed simp

end

section \<open>Fields of a message\<close>

definition field_present :: "upb_Message \<Rightarrow> upb_MiniTableField \<Rightarrow> bool" where
  "field_present msg f = (case msg_cell msg (presence_addr f) of
       Cell1 b \<Rightarrow> bit b (nat (presence f) mod 8)
     | Cell4 w \<Rightarrow> w = of_nat (number f)
     | _ \<Rightarrow> False)"

definition field_val :: "upb_Message \<Rightarrow> upb_MiniTableField \<Rightarrow> upb_cell option" where
  "field_val msg f = (if presence f = 0 \<or> field_present msg f then Some (msg_cell msg (offset f)) else None)"

text \<open>
  Presence can be read, the fields that are set hold what their representation says, and a field with a
  hasbit that is not set is zero.
\<close>

definition access_inv :: "upb_MiniTable \<Rightarrow> upb_Message \<Rightarrow> bool" where
  "access_inv m msg \<longleftrightarrow> \<not> msg_frozen msg \<and> (\<forall>f \<in> set (mt_fields m). presence_conf f msg
     \<and> (\<forall>c. field_val msg f = Some c \<longrightarrow> rep_holds (upb_MiniTableField_GetRep f) c)
     \<and> (0 < presence f \<longrightarrow> field_val msg f = None \<longrightarrow> rep_holds (upb_MiniTableField_GetRep f) (msg_cell msg (offset f)) \<and> cell_zero (msg_cell msg (offset f))))"

definition oneof_rival :: "upb_MiniTableField \<Rightarrow> upb_MiniTableField \<Rightarrow> bool" where
  "oneof_rival f g \<longleftrightarrow> presence f < 0 \<and> presence g = presence f \<and> g \<noteq> f"

lemma rep_fits: "upb_MiniTableField_GetRep f \<le> 3"
  using byte_bound [of "mode f"] by (simp add: upb_MiniTableField_GetRep_def word_le_nat_alt unat_drop_bit)

lemma mask_bit [simp]: "b AND 2 ^ n = 0 \<longleftrightarrow> \<not> bit (b :: u8) n"
  by (rule and_exp_eq_0_iff_not_bit)

lemma hasbit_access [simp]:
  assumes "0 < presence f"
  shows "upb_MiniTableField_HasbitOffset f = Ret (presence_addr f)" "upb_MiniTableField_HasbitMask f = Ret (2 ^ (nat (presence f) mod 8))"
  using assms by (simp_all add: upb_MiniTableField_HasbitOffset_def upb_MiniTableField_HasbitMask_def upb_MiniTableField_HasHasbit_def presence_addr_def)

lemma oneof_access [simp]: "presence f < 0 \<Longrightarrow> upb_MiniTableField_OneofOffset f = Ret (presence_addr f)"
  by (simp add: upb_MiniTableField_OneofOffset_def upb_MiniTableField_IsInOneof_def presence_addr_def)

lemmas presence_kinds = upb_MiniTableField_HasHasbit_def upb_MiniTableField_IsInOneof_def upb_MiniTableField_HasPresence_def

lemma access_invD:
  assumes "access_inv m msg" and "f \<in> set (mt_fields m)"
  shows "presence_conf f msg" "field_val msg f = Some c \<Longrightarrow> rep_holds (upb_MiniTableField_GetRep f) c"
    "0 < presence f \<Longrightarrow> field_val msg f = None \<Longrightarrow> rep_holds (upb_MiniTableField_GetRep f) (msg_cell msg (offset f)) \<and> cell_zero (msg_cell msg (offset f))"
  using assms by (auto simp: access_inv_def)

lemma table_field_access:
  assumes "table_ok T m" and "f \<in> set (mt_fields m)"
  shows "\<not> upb_MiniTableField_IsExtension f" "(of_nat (number f) :: u32) \<noteq> 0"
proof -
  show "\<not> upb_MiniTableField_IsExtension f" using table_field(1) [OF assms] by (simp add: field_wf_def)
  show "(of_nat (number f) :: u32) \<noteq> 0"
    using table_field(2) [OF assms] assms by (intro of_nat_number) (auto simp: table_ok_def intro: mt_fields_wf_pos)
qed

lemma has_law:
  assumes T: "table_ok T m" and f: "f \<in> set (mt_fields m)" and inv: "access_inv m msg" and p: "presence f \<noteq> 0"
  shows "upb_Message_HasBaseField msg f = Ret (field_val msg f \<noteq> None)"
proof (cases "0 < presence f")
  case True
  then show ?thesis using access_invD(1) [OF inv f] table_field_access [OF T f]
    by (auto simp: upb_Message_HasBaseField_def presence_kinds upb_Message_GetHasbit_def presence_conf_def field_val_def field_present_def)
next
  case False
  then show ?thesis using p access_invD(1) [OF inv f] table_field_access [OF T f]
    by (auto simp: upb_Message_HasBaseField_def presence_kinds upb_Message_GetOneofCase_def presence_conf_def field_val_def field_present_def)
qed

text \<open>Two values that a getter does not tell apart: zeros of one representation.\<close>

definition same_value :: "upb_cell \<Rightarrow> upb_cell \<Rightarrow> bool" where
  "same_value c d \<longleftrightarrow> c = d \<or> cell_zero c \<and> cell_zero d"

lemma get_law:
  assumes T: "table_ok T m" and f: "f \<in> set (mt_fields m)" and inv: "access_inv m msg"
    and d: "rep_holds (upb_MiniTableField_GetRep f) d" "presence f = 0 \<Longrightarrow> cell_zero d"
  shows "\<exists>c. upb_Message_GetNonExtensionField msg f d = Ret c \<and> same_value c (case field_val msg f of Some v \<Rightarrow> v | None \<Rightarrow> d)"
proof -
  note ax = access_invD [OF inv f] table_field_access [OF T f]
  show ?thesis
  proof (cases "presence f \<noteq> 0 \<and> (presence f < 0 \<or> \<not> cell_zero d)")
    case True
    then show ?thesis using has_law [OF T f inv] ax d
      by (auto simp: upb_Message_GetNonExtensionField_def presence_kinds upb_MiniTableField_DataIsZero_def upb_MiniTableField_DataCopy_def
          field_val_def same_value_def)
  next
    case False
    then show ?thesis using ax d
      by (cases "field_val msg f")
        (auto simp: upb_Message_GetNonExtensionField_def presence_kinds upb_MiniTableField_DataIsZero_def upb_MiniTableField_DataCopy_def
          field_val_def same_value_def split: if_splits)
  qed
qed

text \<open>The memory after a field was written and its presence was set to \<open>on\<close>.\<close>

definition updated :: "upb_MiniTableField \<Rightarrow> bool \<Rightarrow> upb_cell \<Rightarrow> upb_Message \<Rightarrow> upb_Message \<Rightarrow> bool" where
  "updated f on c msg msg' \<longleftrightarrow> msg_frozen msg' = msg_frozen msg
     \<and> (\<exists>pc. (0 < presence f \<longrightarrow> (\<exists>b b'. cell1 (msg_cell msg (presence_addr f)) = (Ret b :: (unit, _) res) \<and> pc = Cell1 b'
               \<and> (\<forall>j < 8. bit b' j = (if j = nat (presence f) mod 8 then on else bit b j))))
        \<and> (presence f < 0 \<longrightarrow> pc = Cell4 (if on then of_nat (number f) else 0))
        \<and> (\<forall>x. msg_cell msg' x = (if x = offset f then c else if presence f \<noteq> 0 \<and> x = presence_addr f then pc else msg_cell msg x)))"

lemma presences_differ:
  assumes T: "table_ok T m" and f: "f \<in> set (mt_fields m)" and g: "g \<in> set (mt_fields m)" and ne: "g \<noteq> f"
    and pos: "0 < presence f" "0 < presence g" and same: "presence_addr g = presence_addr f"
  shows "nat (presence g) mod 8 \<noteq> nat (presence f) mod 8"
proof
  assume "nat (presence g) mod 8 = nat (presence f) mod 8"
  moreover have "nat (presence g) div 8 = nat (presence f) div 8" using same pos by (simp add: presence_addr_def)
  ultimately have "nat (presence g) = nat (presence f)" by (metis div_mult_mod_eq)
  then have "presence g = presence f" using pos by simp
  with fields_apart [OF T f g] ne pos show False by (auto simp: cells_apart_def presence_cell_def)
qed

lemma updated_present:
  assumes T: "table_ok T m" and f: "f \<in> set (mt_fields m)" and g: "g \<in> set (mt_fields m)" and p: "presence g \<noteq> 0"
    and u: "updated f on c msg msg'"
  shows "field_present msg' g \<longleftrightarrow> (if g = f then on else \<not> oneof_rival f g \<and> field_present msg g)"
proof -
  obtain pc where pc: "0 < presence f \<Longrightarrow> (\<exists>b b'. cell1 (msg_cell msg (presence_addr f)) = (Ret b :: (unit, _) res) \<and> pc = Cell1 b'
      \<and> (\<forall>j < 8. bit b' j = (if j = nat (presence f) mod 8 then on else bit b j)))"
    "presence f < 0 \<Longrightarrow> pc = Cell4 (if on then of_nat (number f) else 0)"
    and cells: "\<And>x. msg_cell msg' x = (if x = offset f then c else if presence f \<noteq> 0 \<and> x = presence_addr f then pc else msg_cell msg x)"
    using u by (auto simp: updated_def)
  have off: "presence_addr g \<noteq> offset f" by (rule presence_offset [OF T g f p])
  note nz = table_field_access(2) [OF T g]
  show ?thesis
  proof (cases "presence f \<noteq> 0 \<and> presence_addr g = presence_addr f")
    case False
    then have "g \<noteq> f" "\<not> oneof_rival f g" using p by (auto simp: oneof_rival_def presence_addr_def)
    moreover have "msg_cell msg' (presence_addr g) = msg_cell msg (presence_addr g)" using cells False off by auto
    ultimately show ?thesis by (simp add: field_present_def)
  next
    case True
    have "0 < presence f \<and> 0 < presence g \<or> presence f < 0 \<and> presence f = presence g"
      by (rule presence_addrs [OF T f g]) (use True p in simp_all)
    then consider "0 < presence f" "0 < presence g" | "presence f < 0" "presence g = presence f" by fastforce
    then show ?thesis
    proof cases
      case 1
      obtain b b' where b: "cell1 (msg_cell msg (presence_addr f)) = (Ret b :: (unit, _) res)" "pc = Cell1 b'"
        "\<forall>j < 8. bit b' j = (if j = nat (presence f) mod 8 then on else bit b j)" using pc(1) [OF 1(1)] by blast
      have "field_present msg g = bit b (nat (presence g) mod 8)"
        using b(1) True by (cases "msg_cell msg (presence_addr f)") (auto simp: field_present_def)
      moreover have "msg_cell msg' (presence_addr g) = Cell1 b'" using cells True off b(2) by simp
      then have "field_present msg' g = bit b' (nat (presence g) mod 8)" by (simp add: field_present_def)
      ultimately show ?thesis using b(3) 1 presences_differ [OF T f g _ 1] True by (auto simp: oneof_rival_def)
    next
      case 2
      then have "pc = Cell4 (if on then of_nat (number f) else 0)" using pc(2) by simp
      moreover have "msg_cell msg' (presence_addr g) = pc" using cells True off by simp
      ultimately have "field_present msg' g \<longleftrightarrow> (if on then of_nat (number f) else 0) = (of_nat (number g) :: u32)"
        by (simp add: field_present_def)
      with 2 nz show ?thesis using field_number_inj [OF T f g] by (cases "g = f") (auto simp: oneof_rival_def)
    qed
  qed
qed

lemma updated_val:
  assumes T: "table_ok T m" and f: "f \<in> set (mt_fields m)" and g: "g \<in> set (mt_fields m)" and u: "updated f on c msg msg'"
  shows "field_val msg' g = (if g = f then (if on \<or> presence f = 0 then Some c else None) else if oneof_rival f g then None else field_val msg g)"
proof -
  have cells: "msg_cell msg' (offset f) = c" "\<And>x. x \<noteq> offset f \<Longrightarrow> presence f = 0 \<or> x \<noteq> presence_addr f \<Longrightarrow> msg_cell msg' x = msg_cell msg x"
    using u by (auto simp: updated_def)
  have cell: "msg_cell msg' (offset g) = msg_cell msg (offset g)" if "g \<noteq> f" "\<not> oneof_rival f g"
    using offsets_differ [OF T f g] that presence_offset [OF T f g] by (intro cells(2)) (auto simp: oneof_rival_def)
  show ?thesis
  proof (cases "presence g = 0")
    case True
    then show ?thesis using cell cells(1) by (auto simp: field_val_def oneof_rival_def)
  next
    case False
    from updated_present [OF T f g False u] False show ?thesis using cell cells(1) by (auto simp: field_val_def)
  qed
qed

lemma updated_inv:
  assumes T: "table_ok T m" and f: "f \<in> set (mt_fields m)" and inv: "access_inv m msg" and u: "updated f on c msg msg'"
    and c: "rep_holds (upb_MiniTableField_GetRep f) c" "\<not> on \<Longrightarrow> cell_zero c"
  shows "access_inv m msg'"
  unfolding access_inv_def
proof (intro conjI ballI allI impI)
  show "\<not> msg_frozen msg'" using inv u by (simp add: access_inv_def updated_def)
  fix g assume g: "g \<in> set (mt_fields m)"
  obtain pc where pc: "0 < presence f \<Longrightarrow> \<exists>b. pc = Cell1 b" "presence f < 0 \<Longrightarrow> \<exists>w. pc = Cell4 w"
    and cells: "\<And>x. msg_cell msg' x = (if x = offset f then c else if presence f \<noteq> 0 \<and> x = presence_addr f then pc else msg_cell msg x)"
    using u by (auto simp: updated_def)
  note old = access_invD [OF inv g] and val = updated_val [OF T f g u]
  show "presence_conf g msg'"
  proof (cases "presence g = 0")
    case False
    with old(1) presence_offset [OF T g f] presence_addrs [OF T f g] pc show ?thesis by (auto simp: presence_conf_def cells)
  qed (simp add: presence_conf_def)
  show "rep_holds (upb_MiniTableField_GetRep g) d" if "field_val msg' g = Some d" for d
    using that old(2) c(1) unfolding val by (auto split: if_splits)
  assume g0: "0 < presence g" "field_val msg' g = None"
  then have "\<not> oneof_rival f g" by (auto simp: oneof_rival_def)
  have "msg_cell msg' (offset g) = (if g = f then c else msg_cell msg (offset g))"
    using offsets_differ [OF T f g] presence_offset [OF T f g] g0(1) by (auto simp: cells)
  with g0 \<open>\<not> oneof_rival f g\<close> old(3) c val
  show "rep_holds (upb_MiniTableField_GetRep g) (msg_cell msg' (offset g))" "cell_zero (msg_cell msg' (offset g))"
    by (auto split: if_splits)
qed

text \<open>\<^verbatim>\<open>upb_Message_SetBaseField\<close> and \<^verbatim>\<open>upb_Message_ClearBaseField\<close> are such updates.\<close>

lemma hasbit_readable: "presence_conf f msg \<Longrightarrow> 0 < presence f \<Longrightarrow> \<exists>b. cell1 (msg_cell msg (presence_addr f)) = (Ret b :: ('e, _) res)"
  by (auto simp: presence_conf_def)

lemma set_base_field:
  assumes T: "table_ok T m" and f: "f \<in> set (mt_fields m)" and inv: "access_inv m msg" and v: "rep_holds (upb_MiniTableField_GetRep f) v"
  shows "\<exists>msg'. upb_Message_SetBaseField msg f v = Ret msg' \<and> updated f True v msg msg'"
proof -
  note ax = access_invD(1) [OF inv f] table_field_access [OF T f] presence_offset [OF T f f]
  have live: "\<not> msg_frozen msg" using inv by (simp add: access_inv_def)
  consider "0 < presence f" | "presence f < 0" | "presence f = 0" by linarith
  then show ?thesis
  proof cases
    case 1
    obtain b where b: "\<And>x. cell1 (msg_cell msg (presence_addr f)) = (Ret b :: (unit, _) res)" using hasbit_readable [OF ax(1) 1] by blast
    let ?pc = "Cell1 (b OR 2 ^ (nat (presence f) mod 8))"
    have "upb_Message_SetBaseField msg f v = Ret (msg_set (msg_set msg (presence_addr f) ?pc) (offset f) v)"
      using 1 b live ax(2) v by (simp add: upb_Message_SetBaseField_def upb_Message_SetPresence_def presence_kinds upb_Message_SetHasbit_def
          upb_MiniTableField_DataCopy_def)
    moreover have "updated f True v msg (msg_set (msg_set msg (presence_addr f) ?pc) (offset f) v)"
      using 1 b by (auto simp: updated_def bit_simps intro!: exI [of _ ?pc])
    ultimately show ?thesis by blast
  next
    case 2
    then show ?thesis using live ax v
      by (auto simp: upb_Message_SetBaseField_def upb_Message_SetPresence_def presence_kinds upb_Message_SetOneofCase_def
          upb_MiniTableField_DataCopy_def updated_def)
  next
    case 3
    then show ?thesis using live ax v
      by (auto simp: upb_Message_SetBaseField_def upb_Message_SetPresence_def presence_kinds upb_MiniTableField_DataCopy_def updated_def)
  qed
qed

lemma clear_base_field:
  assumes T: "table_ok T m" and f: "f \<in> set (mt_fields m)" and inv: "access_inv m msg"
  shows "\<exists>msg'. upb_Message_ClearBaseField msg f = Ret msg'
    \<and> (if presence f < 0 \<and> field_val msg f = None then msg' = msg else updated f False Zero msg msg')"
proof -
  note ax = access_invD(1) [OF inv f] table_field_access [OF T f] presence_offset [OF T f f]
  have live: "\<not> msg_frozen msg" using inv by (simp add: access_inv_def)
  consider "0 < presence f" | "presence f < 0" | "presence f = 0" by linarith
  then show ?thesis
  proof cases
    case 1
    obtain b where b: "cell1 (msg_cell msg (presence_addr f)) = (Ret b :: (unit, _) res)" using hasbit_readable [OF ax(1) 1] by blast
    let ?pc = "Cell1 (b AND NOT (2 ^ (nat (presence f) mod 8)))"
    have "upb_Message_ClearBaseField msg f = Ret (msg_set (msg_set msg (presence_addr f) ?pc) (offset f) Zero)"
      using 1 b live by (simp add: upb_Message_ClearBaseField_def presence_kinds upb_Message_ClearHasbit_def)
    moreover have "updated f False Zero msg (msg_set (msg_set msg (presence_addr f) ?pc) (offset f) Zero)"
      using 1 b by (auto simp: updated_def bit_simps intro!: exI [of _ ?pc])
    ultimately show ?thesis using 1 by auto
  next
    case 2
    then show ?thesis using live ax
      by (auto simp: upb_Message_ClearBaseField_def upb_Message_ClearOneofCase_def presence_kinds presence_conf_def updated_def field_val_def field_present_def)
  next
    case 3
    then show ?thesis using live by (simp add: upb_Message_ClearBaseField_def presence_kinds updated_def)
  qed
qed

lemma rival_unset:
  assumes T: "table_ok T m" and f: "f \<in> set (mt_fields m)" and g: "g \<in> set (mt_fields m)" and inv: "access_inv m msg"
    and on: "field_val msg f \<noteq> None" and r: "oneof_rival f g"
  shows "field_val msg g = None"
proof -
  have "presence_addr g = presence_addr f" "presence f < 0" "presence g < 0" "g \<noteq> f" using r by (auto simp: oneof_rival_def presence_addr_def)
  moreover from this on access_invD(1) [OF inv f] have "msg_cell msg (presence_addr f) = Cell4 (of_nat (number f))"
    by (auto simp: field_val_def field_present_def presence_conf_def split: if_splits)
  ultimately show ?thesis using field_number_inj [OF T f g] by (auto simp: field_val_def field_present_def)
qed

lemma base_field_store:
  assumes T: "table_ok T m"
  shows "field_store (set (mt_fields m)) (access_inv m) (\<lambda>f. rep_holds (upb_MiniTableField_GetRep f)) oneof_rival (\<lambda>f. presence f = 0) Zero
    field_val upb_Message_SetBaseField upb_Message_ClearBaseField"
proof (unfold_locales, goal_cases)
  case (1 msg f v)
  obtain msg' where r: "upb_Message_SetBaseField msg f v = Ret msg'" "updated f True v msg msg'"
    using set_base_field [OF T 1(2,1,3)] by blast
  with updated_inv [OF T 1(2,1) r(2) 1(3)] updated_val [OF T 1(2) _ r(2)] show ?case by auto
next
  case (2 msg f)
  obtain msg' where r: "upb_Message_ClearBaseField msg f = Ret msg'"
    and u: "if presence f < 0 \<and> field_val msg f = None then msg' = msg else updated f False Zero msg msg'"
    using clear_base_field [OF T 2(2,1)] by blast
  show ?case
  proof (cases "presence f < 0 \<and> field_val msg f = None")
    case True
    with u 2 r show ?thesis by auto
  next
    case False
    then have u: "updated f False Zero msg msg'" using u by simp
    have on: "field_val msg f \<noteq> None" if "oneof_rival f g" for g using that False by (auto simp: oneof_rival_def)
    have rep: "rep_holds (upb_MiniTableField_GetRep f) Zero" using rep_fits by simp
    have "field_val msg' g = (if g = f then if presence f = 0 then Some Zero else None else field_val msg g)" if "g \<in> set (mt_fields m)" for g
      using updated_val [OF T 2(2) that u] rival_unset [OF T 2(2) that 2(1) on] by auto
    with updated_inv [OF T 2(2,1) u rep] r show ?thesis by auto
  qed
qed

lemma generated_member: "i < generated_table_count \<Longrightarrow> generated_tables ! i \<in> set generated_tables"
  by (simp add: generated_length)

lemma value_table: "generated_tables ! 38 = google__protobuf__Value_msg_init"
  by (simp add: generated_tables_def gen_descriptor_tables_def gen_wellknown_tables_def)

lemma value_table_ok: "table_ok generated_tables google__protobuf__Value_msg_init"
  using generated_table_ok [OF generated_member [of 38]] by (simp add: value_table)

interpretation value_fields: field_store "set (mt_fields google__protobuf__Value_msg_init)" "access_inv google__protobuf__Value_msg_init"
    "\<lambda>f. rep_holds (upb_MiniTableField_GetRep f)" oneof_rival "\<lambda>f. presence f = 0" Zero field_val
    upb_Message_SetBaseField upb_Message_ClearBaseField
  by (rule base_field_store [OF value_table_ok])

lemma empty_access: "access_inv m empty_msg"
proof -
  have "rep_holds (upb_MiniTableField_GetRep f) Zero" for f using rep_fits by simp
  then show ?thesis by (auto simp: access_inv_def empty_msg_def presence_conf_def msg_cell_def field_val_def split: if_splits)
qed

section \<open>Properties\<close>

text \<open>The fields of a message as the generated code uses them: a sequence of stores and clears.\<close>

definition run_fields :: "(upb_MiniTableField \<times> upb_cell option) list \<Rightarrow> upb_Message \<Rightarrow> (unit, upb_Message) res" where
  "run_fields = run_ops (store_step upb_Message_SetBaseField upb_Message_ClearBaseField)"

abbreviation field_effect :: "upb_MiniTableField \<times> upb_cell option \<Rightarrow> (upb_MiniTableField \<Rightarrow> upb_cell option) \<Rightarrow> upb_MiniTableField \<Rightarrow> upb_cell option" where
  "field_effect \<equiv> store_effect oneof_rival (\<lambda>f. presence f = 0) Zero"

text \<open>
  C16. The fields of a message are a map from fields to values. Let the table be well formed and the message satisfy
  the accessors' invariant, as an empty message does. Then every sequence of \<^verbatim>\<open>upb_Message_SetBaseField\<close> and
  \<^verbatim>\<open>upb_Message_ClearBaseField\<close> on fields of the table, with values of their representation, succeeds and keeps the
  invariant, and afterwards a field is set, and has the value, that the sequence gives it: stores do not
  disturb the bits, cells and cases of other fields, and a member of a oneof unsets the others.
  \<^verbatim>\<open>upb_Message_HasBaseField\<close> tells whether a field is set, and the getter returns its value or the default.\<close>

theorem message_fields_refine_store:
  assumes "table_ok T m" and "access_inv m msg"
    and "\<forall>(f, v) \<in> set ops. f \<in> set (mt_fields m) \<and> (\<forall>c. v = Some c \<longrightarrow> rep_holds (upb_MiniTableField_GetRep f) c)"
  shows "\<exists>msg'. run_fields ops msg = Ret msg' \<and> access_inv m msg'
    \<and> (\<forall>g \<in> set (mt_fields m). let v = fold field_effect ops (field_val msg) g in
         (presence g \<noteq> 0 \<longrightarrow> upb_Message_HasBaseField msg' g = Ret (v \<noteq> None))
         \<and> (\<forall>d. rep_holds (upb_MiniTableField_GetRep g) d \<and> (presence g = 0 \<longrightarrow> cell_zero d) \<longrightarrow>
              (\<exists>c. upb_Message_GetNonExtensionField msg' g d = Ret c \<and> same_value c (case v of Some x \<Rightarrow> x | None \<Rightarrow> d))))"
proof -
  obtain msg' where run: "run_fields ops msg = Ret msg'" and inv: "access_inv m msg'"
    and val: "\<forall>g \<in> set (mt_fields m). field_val msg' g = fold field_effect ops (field_val msg) g"
    using field_store.run_law [OF base_field_store [OF assms(1)] assms(2,3)] unfolding run_fields_def by blast
  show ?thesis
  proof (intro exI [of _ msg'] conjI ballI run inv, unfold Let_def, intro conjI impI allI)
    fix g assume g: "g \<in> set (mt_fields m)"
    show "upb_Message_HasBaseField msg' g = Ret (fold field_effect ops (field_val msg) g \<noteq> None)" if "presence g \<noteq> 0"
      using has_law [OF assms(1) g inv that] val g by simp
    fix d assume "rep_holds (upb_MiniTableField_GetRep g) d \<and> (presence g = 0 \<longrightarrow> cell_zero d)"
    then show "\<exists>c. upb_Message_GetNonExtensionField msg' g d = Ret c
        \<and> same_value c (case fold field_effect ops (field_val msg) g of Some x \<Rightarrow> x | None \<Rightarrow> d)"
      using get_law [OF assms(1) g inv] val g by simp
  qed
qed

abbreviation value_field :: "nat \<Rightarrow> upb_MiniTableField" where
  "value_field n \<equiv> mt_fields google__protobuf__Value_msg_init ! (n - 1)"

lemmas value_field_simps = google__protobuf__Value_msg_init_def mini_table_def mini_table_field_def upb_MiniTableField_GetRep_def

theorem message_fields_refine_store_witness:
  "\<exists>msg'. run_fields [(value_field 2, Some (Cell8 5)), (value_field 4, Some (Cell1 1))] empty_msg = Ret msg'
    \<and> upb_Message_HasBaseField msg' (value_field 2) = Ret False \<and> upb_Message_HasBaseField msg' (value_field 4) = Ret True
    \<and> upb_Message_GetNonExtensionField msg' (value_field 4) (Cell1 0) = Ret (Cell1 1)"
proof -
  let ?ops = "[(value_field 2, Some (Cell8 5)), (value_field 4, Some (Cell1 1))]"
  have ops: "\<forall>(f, v) \<in> set ?ops. f \<in> set (mt_fields google__protobuf__Value_msg_init)
      \<and> (\<forall>c. v = Some c \<longrightarrow> rep_holds (upb_MiniTableField_GetRep f) c)" by (simp add: value_field_simps)
  have f: "value_field 2 \<in> set (mt_fields google__protobuf__Value_msg_init)" "value_field 4 \<in> set (mt_fields google__protobuf__Value_msg_init)"
    "presence (value_field 2) \<noteq> 0" "presence (value_field 4) \<noteq> 0" "rep_holds (upb_MiniTableField_GetRep (value_field 4)) (Cell1 0)"
    by (simp_all add: value_field_simps)
  have v: "fold field_effect ?ops (field_val empty_msg) (value_field 2) = None" "fold field_effect ?ops (field_val empty_msg) (value_field 4) = Some (Cell1 1)"
    by (simp_all add: store_effect_def oneof_rival_def value_field_simps)
  have one: "same_value c (Cell1 1) \<longleftrightarrow> c = Cell1 1" for c by (auto simp: same_value_def)
  obtain msg' where run: "run_fields ?ops empty_msg = Ret msg'"
    and laws: "\<And>g. g \<in> set (mt_fields google__protobuf__Value_msg_init) \<Longrightarrow> let v = fold field_effect ?ops (field_val empty_msg) g in
         (presence g \<noteq> 0 \<longrightarrow> upb_Message_HasBaseField msg' g = Ret (v \<noteq> None))
         \<and> (\<forall>d. rep_holds (upb_MiniTableField_GetRep g) d \<and> (presence g = 0 \<longrightarrow> cell_zero d) \<longrightarrow>
              (\<exists>c. upb_Message_GetNonExtensionField msg' g d = Ret c \<and> same_value c (case v of Some x \<Rightarrow> x | None \<Rightarrow> d)))"
    using message_fields_refine_store [OF value_table_ok empty_access ops] by blast
  have "upb_Message_HasBaseField msg' (value_field 2) = Ret False" using laws [OF f(1)] f(3) unfolding Let_def v(1) by simp
  moreover have "upb_Message_HasBaseField msg' (value_field 4) = Ret True" using laws [OF f(2)] f(4) unfolding Let_def v(2) by simp
  moreover have "upb_Message_GetNonExtensionField msg' (value_field 4) (Cell1 0) = Ret (Cell1 1)"
    using laws [OF f(2)] f(4,5) unfolding Let_def v(2) option.case one by blast
  ultimately show ?thesis using run by blast
qed

text \<open>
  C34. \<^verbatim>\<open>upb_Message_GetOrCreateMutableMessage\<close> does not look at the oneof case. In \<^verbatim>\<open>google.protobuf.Value\<close>, whose
  members share their memory, it takes the bits of a number that is set for a pointer; and when
  \<^verbatim>\<open>struct_value\<close> is set, it returns that message as the \<^verbatim>\<open>list_value\<close> and leaves the case as it is.\<close>

theorem mutable_message_confuses_oneof:
  "w \<noteq> 0 \<Longrightarrow> bindR (upb_Message_SetBaseField empty_msg (value_field 2) (Cell8 w)) (\<lambda>msg.
       upb_Message_GetOrCreateMutableMessage malloc generated_tables msg google__protobuf__Value_msg_init (value_field 5) a) = Fault
   \<and> (\<exists>msg. upb_Message_SetBaseField empty_msg (value_field 5) (CellMsg False sub) = Ret msg
       \<and> upb_Message_GetOrCreateMutableMessage malloc generated_tables msg google__protobuf__Value_msg_init (value_field 6) a = Ret (Some sub, msg, a)
       \<and> upb_Message_HasBaseField msg (value_field 6) = Ret False)"
  by (simp add: value_field_simps upb_Message_SetBaseField_def upb_Message_SetPresence_def presence_kinds upb_Message_SetOneofCase_def
      upb_MiniTableField_OneofOffset_def upb_MiniTableField_DataCopy_def upb_Message_GetOrCreateMutableMessage_def upb_MiniTableField_CType_def
      upb_MiniTableField_Type_def upb_MiniTableField_IsAlternate_def upb_MiniTableField_IsExtension_def upb_Message_HasBaseField_def
      upb_Message_GetOneofCase_def empty_msg_def)

theorem mutable_message_confuses_oneof_witness:
  "bindR (upb_Message_SetBaseField empty_msg (value_field 2) (Cell8 1)) (\<lambda>msg.
     upb_Message_GetOrCreateMutableMessage counting_malloc generated_tables msg google__protobuf__Value_msg_init (value_field 5) 0) = Fault"
  using mutable_message_confuses_oneof [of 1 counting_malloc 0 empty_msg] by simp

end
